(* ===== verification/Ccsds_Prelude.thy ===== *)
theory Ccsds_Prelude
  imports Main "HOL-Library.Word"
begin

unbundle bit_operations_syntax

text \<open>
  Shared vocabulary of the development: the machine types of the C sources, the error
  codes their functions return, the build configuration (\<^verbatim>\<open>zephyr/Kconfig\<close>), the
  big-endian byte accessors, and the generic facts on words and lists that the component
  theories use.  The byte accessors stand for the \<^verbatim>\<open>sys_get_be16\<close>, \<^verbatim>\<open>sys_put_be16\<close> family of
  primitives, read as their names say: most significant byte first.
\<close>

section \<open>Machine types\<close>

type_synonym u8 = "8 word"
type_synonym u16 = "16 word"
type_synonym u32 = "32 word"
type_synonym u64 = "64 word"
type_synonym bytes = "u8 list"

section \<open>Return codes\<close>

text \<open>
  A C function of the sources returns 0 or a negative \<^verbatim>\<open>errno\<close>; the SDLS layer has its own
  range of codes (\<^verbatim>\<open>enum ccsds_sdls_error\<close>), and an application callback may return any
  nonzero code (\<open>E_CALLBACK\<close>); \<open>E_NET\<close> is the \<^verbatim>\<open>errno\<close> a socket call left.
  \<open>E_FAULT\<close> is no code of the sources: it marks a step the C program has no defined result for
  (a call through a null pointer, a copy past the end of a buffer).  Decoders return
  \<open>errno + 'a\<close>; functions that update state return \<open>rc\<close> beside the new state.
\<close>

datatype sdls_error =
    CCSDS_SDLS_ERR_FORMAT | CCSDS_SDLS_ERR_AUTHENTICATION | CCSDS_SDLS_ERR_REPLAY
  | CCSDS_SDLS_ERR_UNKNOWN_SA | CCSDS_SDLS_ERR_SA_STATE | CCSDS_SDLS_ERR_KEY
  | CCSDS_SDLS_ERR_PSA | CCSDS_SDLS_ERR_UNSUPPORTED | CCSDS_SDLS_ERR_KEY_STATE
  | CCSDS_SDLS_ERR_CAPACITY

datatype errno =
    EINVAL | EMSGSIZE | ENOSPC | ENOENT | EACCES | EAGAIN | EBUSY | EIO | ENOTSUP
  | EALREADY | SDLS sdls_error | E_NET int | E_CALLBACK int | E_FAULT

type_synonym rc = "errno option"

abbreviation RC_OK :: rc where "RC_OK \<equiv> None"
abbreviation RC_ERR :: "errno \<Rightarrow> rc" where "RC_ERR \<equiv> Some"

section \<open>Build configuration\<close>

text \<open>
  One record for the Kconfig symbols the modelled code reads; the boolean symbols select
  \<^verbatim>\<open>#ifdef\<close> branches.  \<open>config_ok\<close> collects the Kconfig ranges and the \<^verbatim>\<open>BUILD_ASSERT\<close>s of the
  modelled files, and \<open>default_config\<close> holds the Kconfig defaults.
\<close>

record ccsds_config =
  CCSDS_ROUTER_MAX_APIDS :: nat
  CCSDS_MAX_CLTU_LEN :: nat
  CCSDS_MAX_FRAME_LEN :: nat
  CCSDS_TC_MAX_SPACE_PACKET_LEN :: nat
  CCSDS_COP1_WINDOW_SIZE :: nat
  CCSDS_SPACECRAFT_ID :: u16
  CCSDS_TM_MAX_SPACE_PACKET_LEN :: nat
  CCSDS_TM_QUEUE_DEPTH :: nat
  CCSDS_RS :: bool
  CCSDS_RS_INTERLEAVE_DEPTH :: nat
  CCSDS_TM_RND :: bool
  CCSDS_TC_RND :: bool
  CCSDS_TM_FECF :: bool

definition default_config :: ccsds_config where
  "default_config = \<lparr>
     CCSDS_ROUTER_MAX_APIDS = 8,
     CCSDS_MAX_CLTU_LEN = 1024,
     CCSDS_MAX_FRAME_LEN = 1115,
     CCSDS_TC_MAX_SPACE_PACKET_LEN = 2048,
     CCSDS_COP1_WINDOW_SIZE = 128,
     CCSDS_SPACECRAFT_ID = 123,
     CCSDS_TM_MAX_SPACE_PACKET_LEN = 2048,
     CCSDS_TM_QUEUE_DEPTH = 2048,
     CCSDS_RS = True,
     CCSDS_RS_INTERLEAVE_DEPTH = 5,
     CCSDS_TM_RND = False,
     CCSDS_TC_RND = False,
     CCSDS_TM_FECF = False\<rparr>"

definition config_ok :: "ccsds_config \<Rightarrow> bool" where
  "config_ok cfg \<longleftrightarrow>
     1 \<le> CCSDS_ROUTER_MAX_APIDS cfg \<and> CCSDS_ROUTER_MAX_APIDS cfg \<le> 64 \<and>
     64 \<le> CCSDS_MAX_CLTU_LEN cfg \<and> CCSDS_MAX_CLTU_LEN cfg \<le> 65535 \<and>
     32 \<le> CCSDS_MAX_FRAME_LEN cfg \<and> CCSDS_MAX_FRAME_LEN cfg \<le> 65535 \<and>
     7 \<le> CCSDS_TC_MAX_SPACE_PACKET_LEN cfg \<and> CCSDS_TC_MAX_SPACE_PACKET_LEN cfg \<le> 65535 \<and>
     4 \<le> CCSDS_COP1_WINDOW_SIZE cfg \<and> CCSDS_COP1_WINDOW_SIZE cfg \<le> 128 \<and>
     CCSDS_SPACECRAFT_ID cfg \<le> 0x3ff \<and>
     7 \<le> CCSDS_TM_MAX_SPACE_PACKET_LEN cfg \<and> CCSDS_TM_MAX_SPACE_PACKET_LEN cfg \<le> 65535 \<and>
     CCSDS_TM_MAX_SPACE_PACKET_LEN cfg \<le> CCSDS_TM_QUEUE_DEPTH cfg \<and>
     CCSDS_TM_QUEUE_DEPTH cfg \<le> 65535 \<and>
     1 \<le> CCSDS_RS_INTERLEAVE_DEPTH cfg \<and> CCSDS_RS_INTERLEAVE_DEPTH cfg \<le> 8"

lemma config_ok_default: "config_ok default_config"
  by (simp add: config_ok_def default_config_def)

section \<open>Word facts\<close>

lemma unat_u8_less: "unat (x :: u8) < 256"
proof -
  have "unat x < 2 ^ LENGTH(8)" by (rule unsigned_less)
  then show ?thesis by simp
qed

lemma unat_u16_less: "unat (x :: u16) < 65536"
proof -
  have "unat x < 2 ^ LENGTH(16)" by (rule unsigned_less)
  then show ?thesis by simp
qed

lemma word_xor_eq_0: "a XOR b = 0 \<longleftrightarrow> a = (b :: 'a::len word)"
  by (metis xor.right_neutral xor.left_commute xor_self_eq)

lemma word_xor_cancel [simp]: "a XOR m = b XOR m \<longleftrightarrow> a = (b :: 'a::len word)"
  by (metis xor.right_neutral xor.assoc xor_self_eq)

lemma less_8_cases: "n < 8 \<Longrightarrow> n \<in> {0, 1, 2, 3, 4, 5, 6, 7 :: nat}"
  by auto

text \<open>Masks of the form \<open>2^n - 1\<close> as truncations.\<close>

named_theorems mask_simps \<open>bit masks as \<open>take_bit\<close>\<close>

lemma and_masks [mask_simps]:
  fixes w :: "'a::len word"
  shows "w AND 0x1 = take_bit 1 w" "w AND 0x3 = take_bit 2 w" "w AND 0x7 = take_bit 3 w"
    "w AND 0xf = take_bit 4 w" "w AND 0x1f = take_bit 5 w" "w AND 0x3f = take_bit 6 w"
    "w AND 0x7f = take_bit 7 w" "w AND 0xff = take_bit 8 w" "w AND 0x3ff = take_bit 10 w"
    "w AND 0x7ff = take_bit 11 w" "w AND 0x3fff = take_bit 14 w"
  by (simp_all add: take_bit_eq_mask mask_eq_exp_minus_1)

lemma word_le_take_bit:
  fixes w :: "'a::len word"
  shows "w < 2 ^ n \<Longrightarrow> take_bit n w = w"
  by (simp add: take_bit_eq_mask less_mask_eq)

section \<open>Big-endian accessors\<close>

definition get_be16 :: "u8 \<Rightarrow> u8 \<Rightarrow> u16" where
  "get_be16 b0 b1 = push_bit 8 (ucast b0) OR ucast b1"

definition put_be16 :: "u16 \<Rightarrow> bytes" where
  "put_be16 w = [ucast (drop_bit 8 w), ucast w]"

definition be16_at :: "bytes \<Rightarrow> nat \<Rightarrow> u16" where
  "be16_at buf i = get_be16 (buf ! i) (buf ! (i + 1))"

lemma length_put_be16 [simp]: "length (put_be16 w) = 2"
  by (simp add: put_be16_def)

lemma get_put_be16 [simp]: "get_be16 (ucast (drop_bit 8 w)) (ucast w) = w"
  by (rule bit_word_eqI) (auto simp: get_be16_def bit_simps)

lemma put_get_be16 [simp]:
  "ucast (drop_bit 8 (get_be16 a b)) = a" "ucast (get_be16 a b) = b"
  by (rule bit_word_eqI, auto simp: get_be16_def bit_simps dest: bit_imp_le_length)+

lemma get_be16_inject [simp]: "get_be16 a b = get_be16 c d \<longleftrightarrow> a = c \<and> b = d"
  by (metis put_get_be16)

lemma get_be16_xor: "get_be16 a b = push_bit 8 (ucast a) XOR ucast b"
  by (rule bit_word_eqI) (auto simp: get_be16_def bit_simps dest: bit_imp_le_length)

definition get_be32 :: "u8 \<Rightarrow> u8 \<Rightarrow> u8 \<Rightarrow> u8 \<Rightarrow> u32" where
  "get_be32 b0 b1 b2 b3 =
     push_bit 24 (ucast b0) OR push_bit 16 (ucast b1) OR push_bit 8 (ucast b2) OR ucast b3"

definition put_be32 :: "u32 \<Rightarrow> bytes" where
  "put_be32 w = [ucast (drop_bit 24 w), ucast (drop_bit 16 w), ucast (drop_bit 8 w), ucast w]"

definition put_be64 :: "u64 \<Rightarrow> bytes" where
  "put_be64 w = put_be32 (ucast (drop_bit 32 w)) @ put_be32 (ucast w)"

definition be32_at :: "bytes \<Rightarrow> nat \<Rightarrow> u32" where
  "be32_at buf i = get_be32 (buf ! i) (buf ! (i + 1)) (buf ! (i + 2)) (buf ! (i + 3))"

lemma length_put_be32 [simp]: "length (put_be32 w) = 4"
  by (simp add: put_be32_def)

lemma length_put_be64 [simp]: "length (put_be64 w) = 8"
  by (simp add: put_be64_def)

lemma get_put_be32 [simp]:
  "get_be32 (ucast (drop_bit 24 w)) (ucast (drop_bit 16 w)) (ucast (drop_bit 8 w)) (ucast w) = w"
  by (rule bit_word_eqI, rename_tac n, case_tac "n < 8"; case_tac "n < 16"; case_tac "n < 24")
    (auto simp: get_be32_def bit_simps)

lemma be32_at_put [simp]: "length xs = i \<Longrightarrow> be32_at (xs @ put_be32 w @ ys) i = w"
  by (simp add: be32_at_def put_be32_def nth_append)

lemma be16_at_put [simp]: "length xs = i \<Longrightarrow> be16_at (xs @ put_be16 w @ ys) i = w"
  by (simp add: be16_at_def put_be16_def nth_append)

lemma put_be16_inject: "put_be16 v = put_be16 w \<longleftrightarrow> v = w"
  by (simp add: put_be16_def) (metis get_put_be16)

lemma put_be32_inject: "put_be32 v = put_be32 w \<longleftrightarrow> v = w"
  by (simp add: put_be32_def) (metis get_put_be32)

lemma put_be64_inject: "put_be64 v = put_be64 w \<longleftrightarrow> v = w"
proof
  assume "put_be64 v = put_be64 w"
  then have hi: "ucast (drop_bit 32 v) = (ucast (drop_bit 32 w) :: u32)" and lo: "ucast v = (ucast w :: u32)"
    by (simp_all add: put_be64_def put_be32_inject)
  show "v = w"
  proof (rule bit_word_eqI)
    fix n :: nat
    assume "n < LENGTH(64)"
    then show "bit v n = bit w n"
      using arg_cong [OF hi, of "\<lambda>x. bit x (n - 32)"] arg_cong [OF lo, of "\<lambda>x. bit x n"]
      by (cases "n < 32") (auto simp: bit_simps)
  qed
qed simp

lemma put_be16_at: "i + 2 \<le> length buf \<Longrightarrow> put_be16 (be16_at buf i) = take 2 (drop i buf)"
  by (rule nth_equalityI) (auto simp: be16_at_def put_be16_def less_Suc_eq)

lemma bit_u8_high: "8 \<le> n \<Longrightarrow> \<not> bit (x :: u8) n"
  by (auto dest: bit_imp_le_length)

lemma put_get_be32: "put_be32 (get_be32 a b c d) = [a, b, c, d]"
  by (auto simp: put_be32_def get_be32_def bit_simps bit_u8_high intro!: bit_word_eqI)

lemma put_be32_at: "i + 4 \<le> length buf \<Longrightarrow> put_be32 (be32_at buf i) = take 4 (drop i buf)"
  by (simp add: be32_at_def put_get_be32) (rule nth_equalityI, auto simp: less_Suc_eq numeral_eq_Suc)

lemma be_at_append:
  "i + 2 \<le> length xs \<Longrightarrow> be16_at (xs @ ys) i = be16_at xs i"
  "i + 4 \<le> length xs \<Longrightarrow> be32_at (xs @ ys) i = be32_at xs i"
  by (simp_all add: be16_at_def be32_at_def nth_append)

lemma be_at_drop:
  "i \<le> length xs \<Longrightarrow> be16_at xs (i + k) = be16_at (drop i xs) k"
  "i \<le> length xs \<Longrightarrow> be32_at xs (i + k) = be32_at (drop i xs) k"
  by (simp_all add: be16_at_def be32_at_def add.assoc)

lemma be_at_put_0 [simp]: "be16_at (put_be16 v @ xs) 0 = v" "be16_at (put_be16 v) 0 = v"
  "be32_at (put_be32 w @ xs) 0 = w" "be32_at (put_be32 w) 0 = w"
  using be16_at_put [of "[]" 0 v xs] be16_at_put [of "[]" 0 v "[]"] be32_at_put [of "[]" 0 w xs] be32_at_put [of "[]" 0 w "[]"]
  by simp_all

text \<open>Records of fixed size one after the other.\<close>

lemma drop_chunks:
  assumes "\<And>x. x \<in> set xs \<Longrightarrow> length (f x) = n" "i < length xs"
  shows "drop (i * n) (concat (map f xs)) = f (xs ! i) @ concat (map f (drop (Suc i) xs))"
  using assms
proof (induction i arbitrary: xs)
  case 0
  then show ?case by (cases xs) simp_all
next
  case (Suc i)
  then obtain x ys where xs: "xs = x # ys" "i < length ys" by (cases xs) auto
  with Suc.prems(1) have len: "length (f x) = n" by simp
  from Suc.IH [of ys] Suc.prems(1) xs have
    "drop (i * n) (concat (map f ys)) = f (ys ! i) @ concat (map f (drop (Suc i) ys))" by simp
  then show ?case using len by (simp add: xs(1))
qed

lemma length_chunks: "(\<And>x. x \<in> set xs \<Longrightarrow> length (f x) = n) \<Longrightarrow> length (concat (map f xs)) = length xs * n"
  by (induction xs) simp_all

lemma concat_chunks: "n * k = length (d :: 'a list) \<Longrightarrow> concat (map (\<lambda>i. take n (drop (i * n) d)) [0 ..< k]) = d"
proof (induction k arbitrary: d)
  case (Suc k)
  have "concat (map (\<lambda>i. take n (drop (i * n) d)) [0 ..< Suc k]) =
      take n d @ concat (map (\<lambda>i. take n (drop (i * n) (drop n d))) [0 ..< k])"
    by (simp add: upt_conv_Cons map_Suc_upt [symmetric] add.commute comp_def del: upt_Suc)
  also have "\<dots> = take n d @ drop n d" using Suc.IH [of "drop n d"] Suc.prems by simp
  finally show ?case by simp
qed simp

text \<open>\<^verbatim>\<open>memcpy\<close> of \<open>d\<close> into a buffer at an offset; the callers stay within the buffer.\<close>

definition copy_into :: "bytes \<Rightarrow> nat \<Rightarrow> bytes \<Rightarrow> bytes" where
  "copy_into buf off d = take off buf @ d @ drop (off + length d) buf"

lemma length_copy_into: "off + length d \<le> length buf \<Longrightarrow> length (copy_into buf off d) = length buf"
  by (simp add: copy_into_def)

section \<open>Runs of a transition function\<close>

text \<open>
  The components with state are transition functions on a state and an input.  This
  contract is what every invariant proof uses: an initial state that satisfies the invariant
  and a step that keeps it keep it along every run.
\<close>

fun run :: "('s \<Rightarrow> 'i \<Rightarrow> 's) \<Rightarrow> 's \<Rightarrow> 'i list \<Rightarrow> 's" where
  "run step s [] = s"
| "run step s (i # is) = run step (step s i) is"

locale stepper =
  fixes step :: "'s \<Rightarrow> 'i \<Rightarrow> 's" and inv :: "'s \<Rightarrow> bool"
  assumes step_inv: "inv s \<Longrightarrow> inv (step s i)"
begin

lemma run_inv: "inv s \<Longrightarrow> inv (run step s is)"
  by (induction "is" arbitrary: s) (auto intro: step_inv)

end

section \<open>Sessions and simulation\<close>

text \<open>
  A session: the return codes of a command sequence, and the state it leaves.  A concrete
  machine that keeps an invariant and agrees with an abstract one at every step agrees with
  it on every session, return codes included.
\<close>

fun session :: "('s \<Rightarrow> 'c \<Rightarrow> 'r \<times> 's) \<Rightarrow> 's \<Rightarrow> 'c list \<Rightarrow> 'r list \<times> 's" where
  "session step s [] = ([], s)"
| "session step s (c # cs) =
     (let (r, s') = step s c; (rs, s'') = session step s' cs in (r # rs, s''))"

locale simulation =
  fixes cstep :: "'s \<Rightarrow> 'c \<Rightarrow> 'r \<times> 's" and astep :: "'a \<Rightarrow> 'c \<Rightarrow> 'r \<times> 'a"
    and abs :: "'s \<Rightarrow> 'a" and inv :: "'s \<Rightarrow> bool"
  assumes step_inv: "inv s \<Longrightarrow> inv (snd (cstep s c))"
    and step_sim: "inv s \<Longrightarrow> map_prod id abs (cstep s c) = astep (abs s) c"
begin

lemma session_inv: "inv s \<Longrightarrow> inv (snd (session cstep s cs))"
proof (induction cs arbitrary: s)
  case (Cons c cs)
  then have "inv (snd (session cstep (snd (cstep s c)) cs))" by (intro Cons.IH step_inv)
  then show ?case by (simp add: case_prod_beta)
qed simp

lemma session_sim: "inv s \<Longrightarrow> map_prod id abs (session cstep s cs) = session astep (abs s) cs"
proof (induction cs arbitrary: s)
  case (Cons c cs)
  have "inv (snd (cstep s c))" by (rule step_inv) (rule Cons.prems)
  from Cons.IH [OF this] show ?case
    using step_sim [OF Cons.prems, of c, symmetric] by (auto simp: map_prod_def split: prod.splits)
qed simp

end

end
