(* ===== verification/Space_Packet.thy ===== *)
theory Space_Packet
  imports Ccsds_Prelude
begin

unbundle bit_operations_syntax

text \<open>
  The Space Packet codec (\<^verbatim>\<open>src/ccsds_space_packet.c\<close>, types from \<^verbatim>\<open>ccsds_types.h\<close> and
  \<^verbatim>\<open>ccsds_space_packet.h\<close>).  A packet view carries its payload bytes; a buffer of length
  \<open>len\<close> is a byte list of that length.  The codec is proved a self-delimiting one, and the
  facts a client needs of such a codec (injectivity, splitting a concatenation) are proved
  once in the locale \<open>framed_codec\<close>.
\<close>

section \<open>The code\<close>

definition CCSDS_APID_MAX :: u16 where "CCSDS_APID_MAX = 0x07ff"

datatype ccsds_packet_type = CCSDS_PACKET_TYPE_TM | CCSDS_PACKET_TYPE_TC

datatype ccsds_sequence_flags =
    CCSDS_SEQUENCE_CONTINUATION | CCSDS_SEQUENCE_FIRST
  | CCSDS_SEQUENCE_LAST | CCSDS_SEQUENCE_UNSEGMENTED

record ccsds_space_packet =
  version :: u8
  packet_type :: ccsds_packet_type
  secondary_header :: bool
  apid :: u16
  sequence_flags :: ccsds_sequence_flags
  sequence_count :: u16
  payload :: bytes

text \<open>The enumerators' values and the casts back from a field of the right width.\<close>

fun packet_type_value :: "ccsds_packet_type \<Rightarrow> u16" where
  "packet_type_value CCSDS_PACKET_TYPE_TM = 0"
| "packet_type_value CCSDS_PACKET_TYPE_TC = 1"

definition packet_type_of :: "u16 \<Rightarrow> ccsds_packet_type" where
  "packet_type_of w = (if w = 0 then CCSDS_PACKET_TYPE_TM else CCSDS_PACKET_TYPE_TC)"

fun sequence_flags_value :: "ccsds_sequence_flags \<Rightarrow> u16" where
  "sequence_flags_value CCSDS_SEQUENCE_CONTINUATION = 0"
| "sequence_flags_value CCSDS_SEQUENCE_FIRST = 1"
| "sequence_flags_value CCSDS_SEQUENCE_LAST = 2"
| "sequence_flags_value CCSDS_SEQUENCE_UNSEGMENTED = 3"

definition sequence_flags_of :: "u16 \<Rightarrow> ccsds_sequence_flags" where
  "sequence_flags_of w =
     (if w = 0 then CCSDS_SEQUENCE_CONTINUATION
      else if w = 1 then CCSDS_SEQUENCE_FIRST
      else if w = 2 then CCSDS_SEQUENCE_LAST
      else CCSDS_SEQUENCE_UNSEGMENTED)"

definition ccsds_space_packet_encoded_len :: "nat \<Rightarrow> nat" where
  "ccsds_space_packet_encoded_len payload_len = 6 + payload_len"

definition ccsds_space_packet_decode :: "bytes \<Rightarrow> errno + ccsds_space_packet" where
  "ccsds_space_packet_decode buf =
     (if length buf < 6 then Inl EINVAL
      else
        let word0 = be16_at buf 0;
            word1 = be16_at buf 2;
            length_field = be16_at buf 4;
            payload_len = unat length_field + 1
        in if length buf < 6 + payload_len then Inl EMSGSIZE
           else Inr \<lparr>
             version = ucast (drop_bit 13 word0 AND 0x7),
             packet_type = packet_type_of (drop_bit 12 word0 AND 0x1),
             secondary_header = (word0 AND 0x0800 \<noteq> 0),
             apid = word0 AND CCSDS_APID_MAX,
             sequence_flags = sequence_flags_of (drop_bit 14 word1 AND 0x3),
             sequence_count = word1 AND 0x3fff,
             payload = take payload_len (drop 6 buf)\<rparr>)"

text \<open>The bytes written at the front of the caller's buffer of capacity \<open>cap\<close>.\<close>

definition ccsds_space_packet_encode :: "ccsds_space_packet \<Rightarrow> nat \<Rightarrow> errno + bytes" where
  "ccsds_space_packet_encode packet cap =
     (if CCSDS_APID_MAX < apid packet \<or> 0x3fff < sequence_count packet \<or>
         length (payload packet) = 0 \<or> 0x10000 < length (payload packet)
      then Inl EINVAL
      else if cap < ccsds_space_packet_encoded_len (length (payload packet)) then Inl ENOSPC
      else
        let word0 = push_bit 13 (ucast (version packet AND 0x7)) OR
                    push_bit 12 (packet_type_value (packet_type packet) AND 0x1) OR
                    (if secondary_header packet then 0x0800 else 0) OR
                    (apid packet AND CCSDS_APID_MAX);
            word1 = push_bit 14 (sequence_flags_value (sequence_flags packet) AND 0x3) OR
                    (sequence_count packet AND 0x3fff);
            length_field = word_of_nat (length (payload packet) - 1)
        in Inr (put_be16 word0 @ put_be16 word1 @ put_be16 length_field @ payload packet))"

section \<open>Lemmas\<close>

definition packet_ok :: "ccsds_space_packet \<Rightarrow> bool" where
  "packet_ok p \<longleftrightarrow> version p < 8 \<and> apid p \<le> CCSDS_APID_MAX \<and> sequence_count p \<le> 0x3fff \<and>
     0 < length (payload p) \<and> length (payload p) \<le> 0x10000"

text \<open>The bytes of a valid packet.\<close>

definition packet_word0 :: "ccsds_space_packet \<Rightarrow> u16" where
  "packet_word0 p = push_bit 13 (ucast (version p)) OR
     push_bit 12 (packet_type_value (packet_type p)) OR
     (if secondary_header p then 0x0800 else 0) OR apid p"

definition packet_word1 :: "ccsds_space_packet \<Rightarrow> u16" where
  "packet_word1 p =
     push_bit 14 (sequence_flags_value (sequence_flags p)) OR sequence_count p"

definition packet_bytes :: "ccsds_space_packet \<Rightarrow> bytes" where
  "packet_bytes p = put_be16 (packet_word0 p) @ put_be16 (packet_word1 p) @
     put_be16 (word_of_nat (length (payload p) - 1)) @ payload p"

lemma length_packet_bytes [simp]: "length (packet_bytes p) = 6 + length (payload p)"
  by (simp add: packet_bytes_def)

lemma apid_take_bit: "a \<le> CCSDS_APID_MAX \<Longrightarrow> take_bit 11 a = a"
  by (rule word_le_take_bit) (auto simp: CCSDS_APID_MAX_def word_less_nat_alt word_le_nat_alt)

lemma and_apid_max: "a AND CCSDS_APID_MAX = take_bit 11 a"
  by (simp add: CCSDS_APID_MAX_def mask_simps)

lemma count_take_bit: "c \<le> (0x3fff :: u16) \<Longrightarrow> take_bit 14 c = c"
  by (rule word_le_take_bit) (auto simp: word_less_nat_alt word_le_nat_alt)

lemma version_take_bit: "v < (8 :: u8) \<Longrightarrow> take_bit 3 v = v"
  by (rule word_le_take_bit) simp_all

lemma packet_encode_ok:
  assumes "packet_ok p" "6 + length (payload p) \<le> cap"
  shows "ccsds_space_packet_encode p cap = Inr (packet_bytes p)"
proof -
  have "packet_type_value t AND 1 = packet_type_value t" for t by (cases t) simp_all
  moreover have "sequence_flags_value f AND 3 = sequence_flags_value f" for f by (cases f) simp_all
  moreover have "version p AND 7 = version p" "apid p AND CCSDS_APID_MAX = apid p"
    "sequence_count p AND 0x3fff = sequence_count p"
    using assms(1) by (simp_all add: packet_ok_def mask_simps and_apid_max version_take_bit
        count_take_bit apid_take_bit)
  ultimately show ?thesis
    using assms
    by (simp add: ccsds_space_packet_encode_def packet_ok_def packet_bytes_def packet_word0_def
        packet_word1_def ccsds_space_packet_encoded_len_def not_less)
qed

lemma packet_word0_fields:
  assumes "packet_ok p"
  shows "ucast (drop_bit 13 (packet_word0 p) AND 0x7) = version p"
    and "packet_type_of (drop_bit 12 (packet_word0 p) AND 0x1) = packet_type p"
    and "(packet_word0 p AND 0x0800 \<noteq> 0) = secondary_header p"
    and "packet_word0 p AND CCSDS_APID_MAX = apid p"
proof -
  have v: "take_bit 3 (version p) = version p" and a: "take_bit 11 (apid p) = apid p"
    using assms by (simp_all add: packet_ok_def version_take_bit apid_take_bit)
  have bv: "bit (version p) n \<Longrightarrow> n < 3" and ba: "bit (apid p) n \<Longrightarrow> n < 11" for n
    using v a by (metis bit_take_bit_iff)+
  have bt: "bit (packet_type_value t) n \<longleftrightarrow> n = 0 \<and> t = CCSDS_PACKET_TYPE_TC" for t n
    by (cases t) (simp_all add: bit_1_iff)
  have bs: "bit (if b then 0x0800 else 0 :: u16) n \<longleftrightarrow> b \<and> n = 11" for b n
    using bit_exp_iff [where 'a = u16, of 11 n] by (auto dest: bit_imp_le_length)
  note bits = packet_word0_def mask_simps and_apid_max bit_simps bt bs
  show "ucast (drop_bit 13 (packet_word0 p) AND 0x7) = version p"
    by (rule bit_word_eqI) (auto simp: bits dest: bv ba)
  have "drop_bit 12 (packet_word0 p) AND 0x1 = packet_type_value (packet_type p)"
    by (rule bit_word_eqI) (auto simp: bits even_drop_bit_iff_not_bit dest: bv ba)
  then show "packet_type_of (drop_bit 12 (packet_word0 p) AND 0x1) = packet_type p"
    by (cases "packet_type p") (simp_all add: packet_type_of_def)
  show "(packet_word0 p AND 0x0800 \<noteq> 0) = secondary_header p"
    using and_exp_eq_0_iff_not_bit [of "packet_word0 p" 11] by (auto simp: bits dest: bv ba)
  show "packet_word0 p AND CCSDS_APID_MAX = apid p"
    by (rule bit_word_eqI) (auto simp: bits dest: bv ba)
qed

lemma packet_word1_fields:
  assumes "packet_ok p"
  shows "sequence_flags_of (drop_bit 14 (packet_word1 p) AND 0x3) = sequence_flags p"
    and "packet_word1 p AND 0x3fff = sequence_count p"
proof -
  have c: "take_bit 14 (sequence_count p) = sequence_count p"
    using assms by (simp add: packet_ok_def count_take_bit)
  have bc: "bit (sequence_count p) n \<Longrightarrow> n < 14" for n using c by (metis bit_take_bit_iff)
  have "take_bit 2 (sequence_flags_value f) = sequence_flags_value f" for f by (cases f) simp_all
  then have bf: "bit (sequence_flags_value f) n \<Longrightarrow> n < 2" for f n by (metis bit_take_bit_iff)
  note bits = packet_word1_def mask_simps bit_simps
  have "drop_bit 14 (packet_word1 p) AND 0x3 = sequence_flags_value (sequence_flags p)"
    by (rule bit_word_eqI) (auto simp: bits dest: bf bc)
  then show "sequence_flags_of (drop_bit 14 (packet_word1 p) AND 0x3) = sequence_flags p"
    by (cases "sequence_flags p") (simp_all add: sequence_flags_of_def)
  show "packet_word1 p AND 0x3fff = sequence_count p"
    by (rule bit_word_eqI) (auto simp: bits dest: bf bc)
qed

lemma packet_length_field:
  "0 < n \<Longrightarrow> n \<le> 0x10000 \<Longrightarrow> Suc (unat (word_of_nat (n - Suc 0) :: u16)) = n"
  by (cases n) (simp_all add: unsigned_of_nat take_bit_nat_eq_self)

lemma packet_bytes_words:
  "be16_at (packet_bytes p @ rest) 0 = packet_word0 p"
  "be16_at (packet_bytes p @ rest) 2 = packet_word1 p"
  "be16_at (packet_bytes p @ rest) 4 = word_of_nat (length (payload p) - 1)"
  using be16_at_put [of "[]" 0] be16_at_put [of "put_be16 (packet_word0 p)" 2]
    be16_at_put [of "put_be16 (packet_word0 p) @ put_be16 (packet_word1 p)" 4]
  by (simp_all add: packet_bytes_def)

lemma packet_decode_bytes:
  assumes "packet_ok p"
  shows "ccsds_space_packet_decode (packet_bytes p @ rest) = Inr p"
proof -
  have len: "Suc (unat (word_of_nat (length (payload p) - Suc 0) :: u16)) = length (payload p)"
    using assms by (intro packet_length_field) (simp_all add: packet_ok_def)
  have "take (length (payload p)) (drop 6 (packet_bytes p @ rest)) = payload p"
    by (simp add: packet_bytes_def)
  then show ?thesis
    by (simp add: ccsds_space_packet_decode_def packet_bytes_words len Let_def
        packet_word0_fields [OF assms] packet_word1_fields [OF assms])
qed

lemma u8_field_bound: "ucast ((w :: u16) AND 0x7) < (8 :: u8)"
proof -
  have "ucast (w AND 0x7) = (ucast w AND 0x7 :: u8)"
    by (rule bit_word_eqI) (auto simp: mask_simps bit_simps)
  moreover have "(ucast w AND 0x7 :: u8) \<le> 7" by (rule word_and_le1)
  ultimately show ?thesis by (auto simp: word_less_nat_alt word_le_nat_alt)
qed

lemma packet_decode_cases:
  assumes "ccsds_space_packet_decode buf = Inr p"
  obtains "6 + (unat (be16_at buf 4) + 1) \<le> length buf"
    and "version p = ucast (drop_bit 13 (be16_at buf 0) AND 0x7)"
    and "packet_type p = packet_type_of (drop_bit 12 (be16_at buf 0) AND 0x1)"
    and "secondary_header p = (be16_at buf 0 AND 0x0800 \<noteq> 0)"
    and "apid p = be16_at buf 0 AND CCSDS_APID_MAX"
    and "sequence_flags p = sequence_flags_of (drop_bit 14 (be16_at buf 2) AND 0x3)"
    and "sequence_count p = be16_at buf 2 AND 0x3fff"
    and "payload p = take (unat (be16_at buf 4) + 1) (drop 6 buf)"
  using assms by (auto simp: ccsds_space_packet_decode_def Let_def split: if_splits)

lemma packet_decode_ok:
  assumes "ccsds_space_packet_decode buf = Inr p"
  shows "packet_ok p"
  using assms unat_u16_less [of "be16_at buf 4"]
  by (elim packet_decode_cases) (auto simp: packet_ok_def u8_field_bound word_and_le1)

lemma packet_decode_length:
  "ccsds_space_packet_decode buf = Inr p \<Longrightarrow>
     length (packet_bytes p) = 6 + (unat (be16_at buf 4) + 1) \<and> length (packet_bytes p) \<le> length buf"
  by (erule packet_decode_cases) auto

lemma bit_packet_type_value: "bit (packet_type_value t) n \<longleftrightarrow> n = 0 \<and> t = CCSDS_PACKET_TYPE_TC"
  by (cases t) (simp_all add: bit_1_iff)

lemma bit_secondary: "bit (if b then 0x0800 else 0 :: u16) n \<longleftrightarrow> b \<and> n = 11"
  using bit_exp_iff [where 'a = u16, of 11 n] by (auto dest: bit_imp_le_length)

lemma secondary_iff_bit: "w AND 0x0800 \<noteq> 0 \<longleftrightarrow> bit (w :: u16) 11"
  using and_exp_eq_0_iff_not_bit [of w 11] by simp

lemma packet_type_of_bit: "packet_type_of (drop_bit 12 w AND 0x1) = CCSDS_PACKET_TYPE_TC \<longleftrightarrow> bit w 12"
  by (auto simp: packet_type_of_def and_one_eq mod_2_eq_odd even_drop_bit_iff_not_bit)

lemma packet_word0_decode:
  assumes "ccsds_space_packet_decode buf = Inr p"
  shows "packet_word0 p = be16_at buf 0"
proof (rule bit_word_eqI)
  fix n :: nat
  assume n: "n < LENGTH(16)"
  from assms show "bit (packet_word0 p) n = bit (be16_at buf 0) n"
  proof (rule packet_decode_cases)
    assume p: "version p = ucast (drop_bit 13 (be16_at buf 0) AND 0x7)"
      "packet_type p = packet_type_of (drop_bit 12 (be16_at buf 0) AND 0x1)"
      "secondary_header p = (be16_at buf 0 AND 0x0800 \<noteq> 0)"
      "apid p = be16_at buf 0 AND CCSDS_APID_MAX"
    have t: "(packet_type p = CCSDS_PACKET_TYPE_TC) = bit (be16_at buf 0) 12"
      unfolding p(2) by (rule packet_type_of_bit)
    consider "n < 11" | "n = 11" | "n = 12" | "13 \<le> n" by linarith
    then show ?thesis using n
      by cases (auto simp: packet_word0_def p(1,3,4) t bit_or_iff bit_push_bit_iff
          bit_packet_type_value bit_secondary secondary_iff_bit and_apid_max mask_simps
          bit_take_bit_iff bit_unsigned_iff bit_drop_bit_eq)
  qed
qed

lemma sequence_flags_of_value: "sequence_flags_value (sequence_flags_of (w AND 0x3)) = w AND 0x3"
proof -
  have "w AND 0x3 \<le> 3" by (rule word_and_le1)
  then have "unat (w AND 0x3) \<in> {unat (0 :: u16), unat (1 :: u16), unat (2 :: u16), unat (3 :: u16)}"
    by (auto simp: word_le_nat_alt)
  then have "w AND 0x3 \<in> {0, 1, 2, 3}" by (auto simp only: insert_iff simp flip: word_eq_iff_unsigned)
  then show ?thesis by (elim insertE) (simp_all add: sequence_flags_of_def)
qed

lemma packet_word1_decode:
  assumes "ccsds_space_packet_decode buf = Inr p"
  shows "packet_word1 p = be16_at buf 2"
  using assms
proof (rule packet_decode_cases)
  assume p: "sequence_flags p = sequence_flags_of (drop_bit 14 (be16_at buf 2) AND 0x3)"
    "sequence_count p = be16_at buf 2 AND 0x3fff"
  show ?thesis
    unfolding packet_word1_def p sequence_flags_of_value
    by (rule bit_word_eqI) (auto simp: mask_simps bit_simps not_le)
qed

lemma packet_bytes_decode:
  assumes "ccsds_space_packet_decode buf = Inr p"
  shows "packet_bytes p = take (6 + length (payload p)) buf"
proof -
  let ?n = "length (payload p)"
  have len: "?n = Suc (unat (be16_at buf 4))" "6 + ?n \<le> length buf" "payload p = take ?n (drop 6 buf)"
    using assms by (auto elim: packet_decode_cases)
  have "word_of_nat (?n - 1) = be16_at buf 4" by (simp add: len(1))
  moreover have "take (6 + ?n) buf =
      take 2 (drop 0 buf) @ take 2 (drop 2 buf) @ take 2 (drop 4 buf) @ take ?n (drop 6 buf)"
    using take_add [of 2 "2 + (2 + ?n)" buf] take_add [of 2 "2 + ?n" "drop 2 buf"]
      take_add [of 2 ?n "drop 4 buf"] by (simp add: drop_drop del: add_2_eq_Suc add_2_eq_Suc')
  ultimately show ?thesis
    using len(2) by (simp add: packet_bytes_def packet_word0_decode [OF assms]
        packet_word1_decode [OF assms] put_be16_at flip: len(3))
qed

section \<open>Self-delimiting codecs\<close>

text \<open>
  What a client of a wire format relies on: every valid value has a nonempty encoding, and
  the decoder reads it off the front of a buffer whatever follows.  Then no encoding is a
  proper prefix of another, so encodings are unique and a concatenation of encodings splits
  in one way only.
\<close>

locale framed_codec =
  fixes enc :: "'a \<Rightarrow> bytes" and dec :: "bytes \<Rightarrow> errno + 'a" and valid :: "'a \<Rightarrow> bool"
  assumes dec_enc: "valid x \<Longrightarrow> dec (enc x @ rest) = Inr x"
    and enc_nonempty: "valid x \<Longrightarrow> enc x \<noteq> []"
begin

lemma prefix_free: "valid x \<Longrightarrow> valid y \<Longrightarrow> enc x @ xs = enc y @ ys \<Longrightarrow> x = y \<and> xs = ys"
proof -
  assume valid: "valid x" "valid y" and eq: "enc x @ xs = enc y @ ys"
  have "Inr x = dec (enc x @ xs)" by (simp add: dec_enc valid)
  also have "\<dots> = Inr y" by (simp add: eq dec_enc valid)
  finally show "x = y \<and> xs = ys" using eq by simp
qed

lemma enc_inject: "valid x \<Longrightarrow> valid y \<Longrightarrow> enc x = enc y \<Longrightarrow> x = y"
  using prefix_free [of x y "[]" "[]"] by simp

lemma concat_unique:
  assumes "\<forall>x\<in>set xs. valid x" "\<forall>y\<in>set ys. valid y"
    and "concat (map enc xs) = concat (map enc ys)"
  shows "xs = ys"
  using assms
proof (induction xs arbitrary: ys)
  case Nil
  then have "\<forall>y\<in>set ys. enc y = []" by simp
  with Nil.prems(2) enc_nonempty show ?case by (cases ys) auto
next
  case (Cons x xs)
  have "enc x \<noteq> []" using Cons.prems(1) by (simp add: enc_nonempty)
  then obtain y ys' where ys: "ys = y # ys'" using Cons.prems(3) by (cases ys) simp_all
  with Cons.prems have "x = y" "concat (map enc xs) = concat (map enc ys')"
    using prefix_free [of x y "concat (map enc xs)" "concat (map enc ys')"] by auto
  moreover have "xs = ys'"
    using Cons.prems(1,2) ys calculation(2) by (intro Cons.IH) simp_all
  ultimately show ?case by (simp add: ys)
qed

end

interpretation packet: framed_codec packet_bytes ccsds_space_packet_decode packet_ok
proof unfold_locales
  fix x rest
  assume "packet_ok x"
  then show "ccsds_space_packet_decode (packet_bytes x @ rest) = Inr x" by (rule packet_decode_bytes)
  show "packet_bytes x \<noteq> []" by (simp add: packet_bytes_def put_be16_def)
qed

section \<open>Properties\<close>

lemma packet_encode_Inr:
  assumes "ccsds_space_packet_encode p cap = Inr buf"
  shows "packet_ok (p\<lparr>version := version p AND 0x7\<rparr>) \<and>
    buf = packet_bytes (p\<lparr>version := version p AND 0x7\<rparr>) \<and> length buf \<le> cap"
proof -
  let ?q = "p\<lparr>version := version p AND 0x7\<rparr>"
  have "version p AND 0x7 \<le> 7" by (rule word_and_le1)
  then have q: "packet_ok ?q" and cap: "6 + length (payload ?q) \<le> cap"
    using assms by (auto simp: ccsds_space_packet_encode_def packet_ok_def Let_def
        ccsds_space_packet_encoded_len_def word_less_nat_alt word_le_nat_alt split: if_splits)
  have "ccsds_space_packet_encode ?q cap = ccsds_space_packet_encode p cap"
    by (simp add: ccsds_space_packet_encode_def Let_def and.assoc)
  with packet_encode_ok [OF q cap] assms q cap show ?thesis by simp
qed

text \<open>
  C24. What the encoder writes, the decoder reads back whatever bytes follow in the buffer:
  every field comes back as it was given, the version number reduced to its three bits, and
  the encoder never writes past the capacity it was told.
\<close>

theorem packet_encode_decode:
  assumes "ccsds_space_packet_encode p cap = Inr buf"
  shows "ccsds_space_packet_decode (buf @ rest) = Inr (p\<lparr>version := version p AND 0x7\<rparr>) \<and>
    length buf \<le> cap \<and> length buf = ccsds_space_packet_encoded_len (length (payload p))"
  using packet_encode_Inr [OF assms] packet_decode_bytes
  by (auto simp: ccsds_space_packet_encoded_len_def)

theorem packet_encode_decode_witness:
  "ccsds_space_packet_decode ([0x18, 0x7b, 0xc0, 5, 0, 1, 0xaa, 0xbb] @ [9]) =
     Inr \<lparr>version = 0, packet_type = CCSDS_PACKET_TYPE_TC, secondary_header = True, apid = 123,
       sequence_flags = CCSDS_SEQUENCE_UNSEGMENTED, sequence_count = 5, payload = [0xaa, 0xbb]\<rparr>"
proof -
  let ?p = "\<lparr>version = 0, packet_type = CCSDS_PACKET_TYPE_TC, secondary_header = True, apid = 123,
    sequence_flags = CCSDS_SEQUENCE_UNSEGMENTED, sequence_count = 5, payload = [0xaa, 0xbb]\<rparr>"
  have "ccsds_space_packet_encode ?p 100 = Inr [0x18, 0x7b, 0xc0, 5, 0, 1, 0xaa, 0xbb]"
    by (simp add: ccsds_space_packet_encode_def CCSDS_APID_MAX_def
        ccsds_space_packet_encoded_len_def put_be16_def)
  from packet_encode_decode [OF this, of "[9]"] show ?thesis by simp
qed

text \<open>
  The decoder loses nothing: when it accepts a buffer, encoding the packet it returns
  reproduces the bytes it consumed, for any output capacity that holds them.
\<close>

theorem packet_decode_encode:
  assumes "ccsds_space_packet_decode buf = Inr p"
    and "ccsds_space_packet_encoded_len (length (payload p)) \<le> cap"
  shows "ccsds_space_packet_encode p cap =
    Inr (take (ccsds_space_packet_encoded_len (length (payload p))) buf)"
  using packet_encode_ok [OF packet_decode_ok [OF assms(1)]] packet_bytes_decode [OF assms(1)] assms(2)
  by (simp add: ccsds_space_packet_encoded_len_def)

theorem packet_decode_encode_witness:
  "ccsds_space_packet_encode \<lparr>version = 0, packet_type = CCSDS_PACKET_TYPE_TM,
     secondary_header = False, apid = 1, sequence_flags = CCSDS_SEQUENCE_FIRST,
     sequence_count = 2, payload = [7]\<rparr> 7 = Inr [0, 1, 0x40, 2, 0, 0, 7]"
proof -
  let ?p = "\<lparr>version = 0, packet_type = CCSDS_PACKET_TYPE_TM, secondary_header = False, apid = 1,
    sequence_flags = CCSDS_SEQUENCE_FIRST, sequence_count = 2, payload = [7]\<rparr>"
  have "ccsds_space_packet_decode [0, 1, 0x40, 2, 0, 0, 7] = Inr ?p"
    by (simp add: ccsds_space_packet_decode_def be16_at_def get_be16_def CCSDS_APID_MAX_def
        packet_type_of_def sequence_flags_of_def)
  from packet_decode_encode [OF this, of 7] show ?thesis
    by (simp add: ccsds_space_packet_encoded_len_def)
qed

end
