(* ===== verification/Router.thy ===== *)
theory Router
  imports Space_Packet
begin

text \<open>
  The APID router (\<^verbatim>\<open>src/ccsds_router.c\<close>, types from \<^verbatim>\<open>ccsds_router.h\<close>): a fixed table of
  \<^verbatim>\<open>CONFIG_CCSDS_ROUTER_MAX_APIDS\<close> entries.  A handler is a function pointer of type \<open>'h\<close>
  (\<open>None\<close> for NULL), called through the parameter \<open>call\<close>, which runs application code on an
  environment of the application's own.  The table is proved to refine a bounded map from
  APIDs to handlers.
\<close>

section \<open>The code\<close>

record ('h, 'u) ccsds_router_entry =
  active :: bool
  entry_apid :: u16
  handler :: "'h option"
  user_data :: "'u option"

record ('h, 'u) ccsds_router =
  entries :: "('h, 'u) ccsds_router_entry list"

definition zero_entry :: "('h, 'u) ccsds_router_entry" where
  "zero_entry = \<lparr>active = False, entry_apid = 0, handler = None, user_data = None\<rparr>"

definition ccsds_router_init :: "ccsds_config \<Rightarrow> ('h, 'u) ccsds_router" where
  "ccsds_router_init cfg = \<lparr>entries = replicate (CCSDS_ROUTER_MAX_APIDS cfg) zero_entry\<rparr>"

text \<open>
  The shape of the router's loops: \<^verbatim>\<open>for each entry: if (cond) { change it; return 0; }\<close>;
  \<open>None\<close> when the loop runs to its end.
\<close>

fun update_first :: "('e \<Rightarrow> bool) \<Rightarrow> ('e \<Rightarrow> 'e) \<Rightarrow> 'e list \<Rightarrow> 'e list option" where
  "update_first c f [] = None"
| "update_first c f (e # es) =
     (if c e then Some (f e # es) else map_option ((#) e) (update_first c f es))"

definition holds_apid :: "u16 \<Rightarrow> ('h, 'u) ccsds_router_entry \<Rightarrow> bool" where
  "holds_apid a e \<longleftrightarrow> active e \<and> entry_apid e = a"

definition ccsds_router_register_apid ::
  "('h, 'u) ccsds_router \<Rightarrow> u16 \<Rightarrow> 'h \<Rightarrow> 'u option \<Rightarrow> rc \<times> ('h, 'u) ccsds_router" where
  "ccsds_router_register_apid router a h u =
     (if CCSDS_APID_MAX < a then (RC_ERR EINVAL, router)
      else case update_first (holds_apid a)
             (\<lambda>e. e\<lparr>handler := Some h, user_data := u\<rparr>) (entries router) of
        Some es \<Rightarrow> (RC_OK, router\<lparr>entries := es\<rparr>)
      | None \<Rightarrow>
          (case update_first (\<lambda>e. \<not> active e)
             (\<lambda>e. e\<lparr>entry_apid := a, handler := Some h, user_data := u, active := True\<rparr>)
             (entries router) of
             Some es \<Rightarrow> (RC_OK, router\<lparr>entries := es\<rparr>)
           | None \<Rightarrow> (RC_ERR ENOSPC, router)))"

definition ccsds_router_unregister_apid ::
  "('h, 'u) ccsds_router \<Rightarrow> u16 \<Rightarrow> rc \<times> ('h, 'u) ccsds_router" where
  "ccsds_router_unregister_apid router a =
     (if CCSDS_APID_MAX < a then (RC_ERR EINVAL, router)
      else case update_first (holds_apid a) (\<lambda>_. zero_entry) (entries router) of
        Some es \<Rightarrow> (RC_OK, router\<lparr>entries := es\<rparr>)
      | None \<Rightarrow> (RC_ERR ENOENT, router))"

type_synonym ('h, 'u, 'env) handler_call =
  "'h \<Rightarrow> ccsds_space_packet \<Rightarrow> 'u option \<Rightarrow> 'env \<Rightarrow> rc \<times> 'env"

fun dispatch_loop ::
  "('h, 'u, 'env) handler_call \<Rightarrow> ('h, 'u) ccsds_router_entry list \<Rightarrow> ccsds_space_packet \<Rightarrow>
     'env \<Rightarrow> rc \<times> 'env" where
  "dispatch_loop call [] packet env = (RC_ERR ENOENT, env)"
| "dispatch_loop call (e # es) packet env =
     (if active e \<and> entry_apid e = apid packet
      then (case handler e of
              Some h \<Rightarrow> call h packet (user_data e) env
            | None \<Rightarrow> (RC_ERR E_FAULT, env))
      else dispatch_loop call es packet env)"

definition ccsds_router_dispatch ::
  "('h, 'u, 'env) handler_call \<Rightarrow> ('h, 'u) ccsds_router \<Rightarrow> ccsds_space_packet \<Rightarrow> 'env \<Rightarrow>
     rc \<times> 'env" where
  "ccsds_router_dispatch call router packet env =
     (if CCSDS_APID_MAX < apid packet then (RC_ERR EINVAL, env)
      else dispatch_loop call (entries router) packet env)"

definition ccsds_router_dispatch_bytes ::
  "('h, 'u, 'env) handler_call \<Rightarrow> ('h, 'u) ccsds_router \<Rightarrow> bytes \<Rightarrow> 'env \<Rightarrow> rc \<times> 'env" where
  "ccsds_router_dispatch_bytes call router buf env =
     (case ccsds_space_packet_decode buf of
        Inl e \<Rightarrow> (RC_ERR e, env)
      | Inr packet \<Rightarrow> ccsds_router_dispatch call router packet env)"

section \<open>The contract: a bounded table of APIDs\<close>

datatype ('h, 'u) router_cmd = Register u16 'h "'u option" | Unregister u16

text \<open>The specification: a finite map whose domain holds at most \<open>cap\<close> APIDs.\<close>

type_synonym ('h, 'u) apid_map = "u16 \<Rightarrow> ('h \<times> 'u option) option"

fun apid_map_step ::
  "nat \<Rightarrow> ('h, 'u) apid_map \<Rightarrow> ('h, 'u) router_cmd \<Rightarrow> rc \<times> ('h, 'u) apid_map" where
  "apid_map_step cap m (Register a h u) =
     (if CCSDS_APID_MAX < a then (RC_ERR EINVAL, m)
      else if a \<in> dom m \<or> card (dom m) < cap then (RC_OK, m(a \<mapsto> (h, u)))
      else (RC_ERR ENOSPC, m))"
| "apid_map_step cap m (Unregister a) =
     (if CCSDS_APID_MAX < a then (RC_ERR EINVAL, m)
      else if a \<in> dom m then (RC_OK, m(a := None))
      else (RC_ERR ENOENT, m))"

section \<open>The router implements it\<close>

fun router_step ::
  "('h, 'u) ccsds_router \<Rightarrow> ('h, 'u) router_cmd \<Rightarrow> rc \<times> ('h, 'u) ccsds_router" where
  "router_step router (Register a h u) = ccsds_router_register_apid router a h u"
| "router_step router (Unregister a) = ccsds_router_unregister_apid router a"

fun entry_map :: "('h, 'u) ccsds_router_entry list \<Rightarrow> ('h, 'u) apid_map" where
  "entry_map [] = Map.empty"
| "entry_map (e # es) =
     (if active e then (entry_map es)(entry_apid e \<mapsto> (the (handler e), user_data e))
      else entry_map es)"

definition router_map :: "('h, 'u) ccsds_router \<Rightarrow> ('h, 'u) apid_map" where
  "router_map router = entry_map (entries router)"

definition active_apids :: "('h, 'u) ccsds_router_entry list \<Rightarrow> u16 list" where
  "active_apids es = map entry_apid (filter active es)"

text \<open>
  The invariant: the table has its configured size, no APID is active twice, and an active
  entry has an APID in range and a handler.
\<close>

definition router_inv :: "nat \<Rightarrow> ('h, 'u) ccsds_router \<Rightarrow> bool" where
  "router_inv n router \<longleftrightarrow>
     length (entries router) = n \<and> distinct (active_apids (entries router)) \<and>
     (\<forall>e\<in>set (entries router). active e \<longrightarrow> entry_apid e \<le> CCSDS_APID_MAX \<and> handler e \<noteq> None)"

lemma active_apids_simps [simp]:
  "active_apids [] = []"
  "active_apids (e # es) = (if active e then entry_apid e # active_apids es else active_apids es)"
  "active_apids (es @ fs) = active_apids es @ active_apids fs"
  by (simp_all add: active_apids_def)

lemma update_first_None: "update_first c f es = None \<longleftrightarrow> (\<forall>e\<in>set es. \<not> c e)"
  by (induction es) auto

lemma update_first_Some:
  "update_first c f es = Some es' \<Longrightarrow>
     \<exists>xs e ys. es = xs @ e # ys \<and> es' = xs @ f e # ys \<and> c e \<and> (\<forall>x\<in>set xs. \<not> c x)"
proof (induction es arbitrary: es')
  case (Cons a es)
  show ?case
  proof (cases "c a")
    case True
    with Cons.prems show ?thesis by (intro exI [of _ "[]"]) auto
  next
    case False
    with Cons.prems obtain es2 where "update_first c f es = Some es2" "es' = a # es2" by auto
    with Cons.IH False obtain xs e ys where
      "es = xs @ e # ys" "es2 = xs @ f e # ys" "c e" "\<forall>x\<in>set xs. \<not> c x" by blast
    with False \<open>es' = a # es2\<close> show ?thesis by (intro exI [of _ "a # xs"]) auto
  qed
qed simp

lemma dom_entry_map: "dom (entry_map es) = set (active_apids es)"
  by (induction es) (simp_all add: dom_if flip: fun_upd_def)

lemma entry_map_outside: "a \<notin> set (active_apids es) \<Longrightarrow> entry_map es a = None"
  using dom_entry_map [of es] by auto

lemma card_dom_entry_map:
  "distinct (active_apids es) \<Longrightarrow> card (dom (entry_map es)) = length (filter active es)"
  unfolding dom_entry_map by (metis distinct_card active_apids_def length_map)

lemma set_active_apids: "a \<in> set (active_apids es) \<longleftrightarrow> (\<exists>e\<in>set es. holds_apid a e)"
  by (auto simp: active_apids_def holds_apid_def)

lemma entry_map_active:
  "active e \<Longrightarrow> entry_apid e \<notin> set (active_apids xs) \<Longrightarrow>
     entry_map (xs @ e # ys) = (entry_map (xs @ ys))(entry_apid e \<mapsto> (the (handler e), user_data e))"
  by (induction xs) (auto simp: fun_upd_twist)

lemma entry_map_inactive: "\<not> active e \<Longrightarrow> entry_map (xs @ e # ys) = entry_map (xs @ ys)"
  by (induction xs) auto

lemma length_filter_less_iff: "length (filter P xs) < length xs \<longleftrightarrow> (\<exists>x\<in>set xs. \<not> P x)"
  by (metis filter_True length_filter_less less_irrefl)

text \<open>The three outcomes of a change to one entry.\<close>

lemma router_replace:
  assumes "router_inv n router" "entries router = xs @ e # ys" "holds_apid a e"
    and "router' = router\<lparr>entries := xs @ e\<lparr>handler := Some h, user_data := u\<rparr> # ys\<rparr>"
  shows "router_inv n router' \<and> router_map router' = (router_map router)(a \<mapsto> (h, u))"
  using assms by (auto simp: router_inv_def router_map_def holds_apid_def entry_map_active)

lemma router_insert:
  assumes "router_inv n router" "entries router = xs @ e # ys" "\<not> active e"
    and "a \<notin> set (active_apids (entries router))" "\<not> CCSDS_APID_MAX < a"
    and "router' = router\<lparr>entries :=
      xs @ e\<lparr>entry_apid := a, handler := Some h, user_data := u, active := True\<rparr> # ys\<rparr>"
  shows "router_inv n router' \<and> router_map router' = (router_map router)(a \<mapsto> (h, u))"
  using assms
  by (auto simp: router_inv_def router_map_def entry_map_active entry_map_inactive)

lemma router_delete:
  assumes "router_inv n router" "entries router = xs @ e # ys" "holds_apid a e"
    and "router' = router\<lparr>entries := xs @ zero_entry # ys\<rparr>"
  shows "router_inv n router' \<and> router_map router' = (router_map router)(a := None)"
proof -
  have "entry_map (xs @ ys) a = None"
    using assms(1-3) by (intro entry_map_outside) (auto simp: router_inv_def holds_apid_def)
  then have "(entry_map (xs @ ys))(a := None) = entry_map (xs @ ys)" by auto
  then show ?thesis
    using assms
    by (auto simp: router_inv_def router_map_def holds_apid_def entry_map_active
        entry_map_inactive zero_entry_def)
qed

lemma register_refines:
  assumes inv: "router_inv n router"
  shows "router_inv n (snd (ccsds_router_register_apid router a h u)) \<and>
    map_prod id router_map (ccsds_router_register_apid router a h u) =
      apid_map_step n (router_map router) (Register a h u)"
proof -
  let ?es = "entries router"
  consider (bad) "CCSDS_APID_MAX < a"
    | (replace) es' where "\<not> CCSDS_APID_MAX < a"
        "update_first (holds_apid a) (\<lambda>e. e\<lparr>handler := Some h, user_data := u\<rparr>) ?es = Some es'"
    | (insert) es' where "\<not> CCSDS_APID_MAX < a" "a \<notin> set (active_apids ?es)"
        "update_first (\<lambda>e. \<not> active e)
           (\<lambda>e. e\<lparr>entry_apid := a, handler := Some h, user_data := u, active := True\<rparr>) ?es = Some es'"
    | (full) "\<not> CCSDS_APID_MAX < a" "a \<notin> set (active_apids ?es)" "\<forall>e\<in>set ?es. active e"
    by (metis (no_types, lifting) option.exhaust set_active_apids update_first_None)
  then show ?thesis
  proof cases
    case bad
    with inv show ?thesis by (simp add: ccsds_router_register_apid_def)
  next
    case replace
    from update_first_Some [OF replace(2)] obtain xs e ys where split: "?es = xs @ e # ys"
      "es' = xs @ e\<lparr>handler := Some h, user_data := u\<rparr> # ys" "holds_apid a e" by blast
    have "a \<in> dom (router_map router)"
      unfolding router_map_def dom_entry_map set_active_apids using split by auto
    with replace router_replace [OF inv split(1,3) refl, of u h] split
    show ?thesis by (simp add: ccsds_router_register_apid_def)
  next
    case insert
    from update_first_Some [OF insert(3)] obtain xs e ys where split: "?es = xs @ e # ys"
      "es' = xs @ e\<lparr>entry_apid := a, handler := Some h, user_data := u, active := True\<rparr> # ys"
      "\<not> active e" by blast
    have miss: "update_first (holds_apid a) f ?es = None" for f
      using insert(2) by (auto simp: update_first_None set_active_apids)
    have "length (filter active ?es) < n"
      using inv split length_filter_less_iff [of active ?es] by (auto simp: router_inv_def)
    then have "card (dom (router_map router)) < n"
      using inv by (simp add: router_map_def router_inv_def card_dom_entry_map)
    with insert miss router_insert [OF inv split(1,3) insert(2,1) refl, of u h]
      split
    show ?thesis by (simp add: ccsds_router_register_apid_def)
  next
    case full
    have miss: "update_first (holds_apid a) f ?es = None" "update_first (\<lambda>e. \<not> active e) f ?es = None" for f
      using full by (auto simp: update_first_None set_active_apids)
    have "\<not> length (filter active ?es) < n"
      using inv full length_filter_less_iff [of active ?es] by (auto simp: router_inv_def)
    then have "\<not> card (dom (router_map router)) < n" "a \<notin> dom (router_map router)"
      using inv full(2) unfolding router_map_def
      by (simp add: router_inv_def card_dom_entry_map, simp add: dom_entry_map)
    with full miss inv show ?thesis by (simp add: ccsds_router_register_apid_def)
  qed
qed

lemma unregister_refines:
  assumes inv: "router_inv n router"
  shows "router_inv n (snd (ccsds_router_unregister_apid router a)) \<and>
    map_prod id router_map (ccsds_router_unregister_apid router a) =
      apid_map_step n (router_map router) (Unregister a)"
proof (cases "update_first (holds_apid a) (\<lambda>_. zero_entry) (entries router)")
  case None
  then have "a \<notin> dom (router_map router)"
    unfolding router_map_def dom_entry_map set_active_apids by (simp add: update_first_None)
  with None inv show ?thesis by (simp add: ccsds_router_unregister_apid_def)
next
  case (Some es')
  from update_first_Some [OF Some] obtain xs e ys where split: "entries router = xs @ e # ys"
    "es' = xs @ zero_entry # ys" "holds_apid a e" by blast
  have "a \<in> dom (router_map router)"
    unfolding router_map_def dom_entry_map set_active_apids using split by auto
  with Some inv router_delete [OF inv split(1,3), of "router\<lparr>entries := es'\<rparr>"] split
  show ?thesis by (simp add: ccsds_router_unregister_apid_def)
qed

interpretation router: simulation router_step "apid_map_step n" router_map "router_inv n" for n
proof unfold_locales
  fix s :: "('a, 'b) ccsds_router" and c
  assume "router_inv n s"
  then show "router_inv n (snd (router_step s c))"
    and "map_prod id router_map (router_step s c) = apid_map_step n (router_map s) c"
    using register_refines [of n s] unregister_refines [of n s] by (cases c; simp)+
qed

lemma router_init_inv: "router_inv (CCSDS_ROUTER_MAX_APIDS cfg) (ccsds_router_init cfg)"
  by (induction "CCSDS_ROUTER_MAX_APIDS cfg")
    (auto simp: router_inv_def ccsds_router_init_def zero_entry_def active_apids_def)

lemma router_init_map: "router_map (ccsds_router_init cfg) = Map.empty"
proof -
  have "entry_map (replicate n zero_entry) = Map.empty" for n
    by (induction n) (auto simp: zero_entry_def)
  then show ?thesis by (simp add: router_map_def ccsds_router_init_def)
qed

lemma dispatch_loop_map:
  "\<forall>e\<in>set es. active e \<longrightarrow> handler e \<noteq> None \<Longrightarrow>
     dispatch_loop call es p env =
       (case entry_map es (apid p) of
          None \<Rightarrow> (RC_ERR ENOENT, env) | Some (h, u) \<Rightarrow> call h p u env)"
  by (induction es) auto

lemma router_dispatch_map:
  assumes "router_inv n router"
  shows "ccsds_router_dispatch call router p env =
    (if CCSDS_APID_MAX < apid p then (RC_ERR EINVAL, env)
     else case router_map router (apid p) of
       None \<Rightarrow> (RC_ERR ENOENT, env) | Some (h, u) \<Rightarrow> call h p u env)"
  using assms dispatch_loop_map [of "entries router" call p env]
  by (auto simp: ccsds_router_dispatch_def router_inv_def router_map_def split: option.splits)

section \<open>Properties\<close>

text \<open>
  C23. The router is a bounded map: for every sequence of register and unregister calls on a
  freshly initialised router, the return codes (range error, replacement of an existing APID,
  table full, unknown APID) and the resulting APID bindings are those of a finite map with at
  most \<^verbatim>\<open>CONFIG_CCSDS_ROUTER_MAX_APIDS\<close> keys.
\<close>

theorem router_session_refines_map:
  "map_prod id router_map (session router_step (ccsds_router_init cfg) cs) =
     session (apid_map_step (CCSDS_ROUTER_MAX_APIDS cfg)) Map.empty cs"
  using router.session_sim [OF router_init_inv] by (simp add: router_init_map)

text \<open>
  Dispatch after any such sequence: a packet goes to exactly the handler (and user data)
  the bounded map binds its APID to, called once with the decoded packet; unbound APIDs give
  \<open>ENOENT\<close> and malformed packets the decoder's error, without running any handler.  No entry
  is ever called through a null handler.
\<close>

theorem router_dispatch_after_session:
  assumes "router = snd (session router_step (ccsds_router_init cfg) cs)"
    and "m = snd (session (apid_map_step (CCSDS_ROUTER_MAX_APIDS cfg)) Map.empty cs)"
  shows "ccsds_router_dispatch_bytes call router buf env =
    (case ccsds_space_packet_decode buf of
       Inl e \<Rightarrow> (RC_ERR e, env)
     | Inr p \<Rightarrow> (case m (apid p) of
         None \<Rightarrow> (RC_ERR ENOENT, env) | Some (h, u) \<Rightarrow> call h p u env))"
proof -
  have inv: "router_inv (CCSDS_ROUTER_MAX_APIDS cfg) router"
    unfolding assms(1) by (rule router.session_inv [OF router_init_inv])
  have map: "router_map router = m"
    unfolding assms using router.session_sim [OF router_init_inv, of cfg cs]
    by (simp add: router_init_map prod_eq_iff)
  have "\<not> CCSDS_APID_MAX < apid p" if "ccsds_space_packet_decode buf = Inr p" for p
    using packet_decode_ok [OF that] by (auto simp: packet_ok_def not_less)
  then show ?thesis
    by (auto simp: ccsds_router_dispatch_bytes_def router_dispatch_map [OF inv] map split: sum.splits)
qed

theorem router_dispatch_after_session_witness:
  "ccsds_router_dispatch_bytes (\<lambda>h p u env. (RC_OK, (h, payload p, u) # env))
     (snd (session router_step (ccsds_router_init default_config)
        [Register 1 ''a'' None, Register 2 ''b'' (Some True), Register 1 ''c'' None]))
     [0, 1, 0x40, 2, 0, 0, 7] [] = (RC_OK, [(''c'', [7], None)])"
proof -
  have "ccsds_space_packet_decode [0, 1, 0x40, 2, 0, 0, 7] =
    Inr \<lparr>version = 0, packet_type = CCSDS_PACKET_TYPE_TM, secondary_header = False, apid = 1,
      sequence_flags = CCSDS_SEQUENCE_FIRST, sequence_count = 2, payload = [7]\<rparr>"
    by (simp add: ccsds_space_packet_decode_def be16_at_def get_be16_def CCSDS_APID_MAX_def
        packet_type_of_def sequence_flags_of_def)
  then show ?thesis
    using router_dispatch_after_session [OF refl refl, of
        "\<lambda>h p u env. (RC_OK, (h, payload p, u) # env)" default_config
        "[Register 1 ''a'' None, Register 2 ''b'' (Some True), Register 1 ''c'' None]"
        "[0, 1, 0x40, 2, 0, 0, 7]" "[]"]
    by (simp add: default_config_def CCSDS_APID_MAX_def)
qed

end
