(* ===== verification/Bch.thy ===== *)
theory Bch
  imports Ccsds_Prelude
begin

unbundle bit_operations_syntax

text \<open>
  The BCH(63,56) block decoder (\<^verbatim>\<open>src/ccsds_bch.c\<close>): the 63-step syndrome loop over the block's
  bits (the seven parity bits are received inverted), the parity accumulator and the
  syndrome search that locates a single error.  The register is linear over exclusive or,
  which gives the code's promise: a block that decodes cleanly is recovered from every
  single-bit error, and every double error is reported.
\<close>

section \<open>The code\<close>

datatype ccsds_bch_result =
  CCSDS_BCH_OK | CCSDS_BCH_CORRECTED | CCSDS_BCH_DETECTED_EVEN | CCSDS_BCH_DETECTED_ODD

text \<open>One iteration of the syndrome loop: the register and the running parity.\<close>

definition bch_syndrome_step :: "bytes \<Rightarrow> u8 \<times> bool \<Rightarrow> nat \<Rightarrow> u8 \<times> bool" where
  "bch_syndrome_step block st i =
     (case st of (syndrome, odd_parity) \<Rightarrow>
       let b0 = drop_bit (7 - i mod 8) (block ! (i div 8)) AND 1;
           carry = syndrome AND 0x20 \<noteq> 0;
           b = (if 56 \<le> i then b0 XOR 1 else b0);
           odd_parity = (odd_parity \<noteq> (b \<noteq> 0));
           syndrome = (push_bit 1 syndrome AND 0x3f) OR b
       in (if carry then syndrome XOR 0x03 else syndrome, odd_parity))"

definition bch_syndrome :: "bytes \<Rightarrow> u8 \<times> bool" where
  "bch_syndrome block = foldl (bch_syndrome_step block) (0, False) [0..<63]"

text \<open>The search loop: the syndrome of a single error at bit \<open>i\<close>, from bit 0 upwards.\<close>

definition bch_next_single :: "u8 \<Rightarrow> u8" where
  "bch_next_single single =
     (if single AND 1 \<noteq> 0 then drop_bit 1 (single XOR 0x03) OR 0x20 else drop_bit 1 single)"

function bch_locate :: "nat \<Rightarrow> u8 \<Rightarrow> u8 \<Rightarrow> nat option" where
  "bch_locate i single syndrome =
     (if i < 63
      then if syndrome = single then Some i
           else bch_locate (i + 1) (bch_next_single single) syndrome
      else None)"
  by pat_completeness auto
termination
  by (relation "measure (\<lambda>(i, _, _). 63 - i)") auto

declare bch_locate.simps [simp del]

definition bch_flip :: "bytes \<Rightarrow> nat \<Rightarrow> bytes" where
  "bch_flip block i = block[i div 8 := (block ! (i div 8)) XOR drop_bit (i mod 8) 0x80]"

text \<open>The result code, the seven data bytes and \<open>corrected_bit\<close> (-1 when nothing was corrected).\<close>

definition ccsds_bch_decode_block :: "bytes \<Rightarrow> ccsds_bch_result \<times> bytes \<times> int" where
  "ccsds_bch_decode_block block =
     (let data = take 7 block;
          (syndrome, odd_parity) = bch_syndrome block
      in if syndrome = 0
         then (if odd_parity then CCSDS_BCH_DETECTED_ODD else CCSDS_BCH_OK, data, -1)
         else if \<not> odd_parity then (CCSDS_BCH_DETECTED_EVEN, data, -1)
         else case bch_locate 0 0x21 syndrome of
                Some i \<Rightarrow>
                  (CCSDS_BCH_CORRECTED, if i < 56 then bch_flip data i else data, int i)
              | None \<Rightarrow> (CCSDS_BCH_DETECTED_ODD, data, -1))"

section \<open>The register over a bit function\<close>

definition bch_bit :: "bytes \<Rightarrow> nat \<Rightarrow> bool" where
  "bch_bit block i = (bit (block ! (i div 8)) (7 - i mod 8) \<noteq> (56 \<le> i))"

definition bch_shift :: "u8 \<Rightarrow> bool \<Rightarrow> u8" where
  "bch_shift s b =
     (let r = (push_bit 1 s AND 0x3f) OR of_bool b in if bit s 5 then r XOR 0x03 else r)"

fun bch_reg :: "(nat \<Rightarrow> bool) \<Rightarrow> nat \<Rightarrow> u8" where
  "bch_reg f 0 = 0"
| "bch_reg f (Suc n) = bch_shift (bch_reg f n) (f n)"

fun bch_par :: "(nat \<Rightarrow> bool) \<Rightarrow> nat \<Rightarrow> bool" where
  "bch_par f 0 = False"
| "bch_par f (Suc n) = (bch_par f n \<noteq> f n)"

lemma u8_and_0x20: "(s :: u8) AND 0x20 \<noteq> 0 \<longleftrightarrow> bit s 5"
  using and_exp_eq_0_iff_not_bit [of s 5] by simp

lemma bch_syndrome_step_eq:
  "bch_syndrome_step block (bch_reg (bch_bit block) i, bch_par (bch_bit block) i) i
     = (bch_reg (bch_bit block) (Suc i), bch_par (bch_bit block) (Suc i))"
proof -
  have "drop_bit (7 - i mod 8) (block ! (i div 8)) AND 1 = of_bool (bit (block ! (i div 8)) (7 - i mod 8))"
    by (simp add: and_one_eq bit_iff_odd_drop_bit mod_2_eq_odd)
  then show ?thesis
    unfolding bch_syndrome_step_def Let_def prod.case u8_and_0x20 bch_reg.simps bch_par.simps
      bch_shift_def bch_bit_def
    by (cases "bit (block ! (i div 8)) (7 - i mod 8)"; cases "56 \<le> i") simp_all
qed

lemma bch_syndrome_eq:
  "bch_syndrome block = (bch_reg (bch_bit block) 63, bch_par (bch_bit block) 63)"
proof -
  have "foldl (bch_syndrome_step block) (0, False) [0..<n]
      = (bch_reg (bch_bit block) n, bch_par (bch_bit block) n)" for n
  proof (induction n)
    case (Suc n)
    then show ?case by (simp add: bch_syndrome_step_eq del: bch_reg.simps bch_par.simps)
  qed simp
  then show ?thesis by (simp add: bch_syndrome_def)
qed

lemma bit_bch_shift:
  "n < 8 \<Longrightarrow> bit (bch_shift s b) n =
     (if n = 0 then b \<noteq> bit s 5 else if n = 1 then bit s 0 \<noteq> bit s 5 else n < 6 \<and> bit s (n - 1))"
  by (drule less_8_cases, elim insertE)
    (simp_all add: bch_shift_def Let_def bit_simps del: push_bit_Suc One_nat_def, auto)

lemma bch_shift_xor: "bch_shift (a XOR b) (p \<noteq> q) = bch_shift a p XOR bch_shift b q"
  by (rule bit_word_eqI) (auto simp: bit_bch_shift bit_xor_iff)

lemma bch_reg_xor: "bch_reg (\<lambda>i. f i \<noteq> g i) n = bch_reg f n XOR bch_reg g n"
  by (induction n) (simp_all add: bch_shift_xor del: not_iff)

lemma bch_par_xor: "bch_par (\<lambda>i. f i \<noteq> g i) n = (bch_par f n \<noteq> bch_par g n)"
  by (induction n) auto

section \<open>Single-error syndromes\<close>

definition bch_unit :: "nat \<Rightarrow> nat \<Rightarrow> bool" where
  "bch_unit k i = (i = k)"

fun bch_walk :: "nat \<Rightarrow> u8 \<Rightarrow> u8" where
  "bch_walk 0 s = s"
| "bch_walk (Suc n) s = bch_walk n (bch_shift s False)"

lemma bch_walk_numeral: "bch_walk (numeral k) s = bch_walk (pred_numeral k) (bch_shift s False)"
  by (simp add: numeral_eq_Suc)

lemma bch_walk_Suc: "bch_walk (Suc n) s = bch_shift (bch_walk n s) False"
  by (induction n arbitrary: s) simp_all

lemma bch_shift_0 [simp]: "bch_shift 0 False = 0"
  by (simp add: bch_shift_def)

lemma bch_reg_unit_before: "n \<le> k \<Longrightarrow> bch_reg (bch_unit k) n = 0"
  by (induction n) (simp_all add: bch_unit_def)

lemma bch_reg_unit: "bch_reg (bch_unit k) (Suc (k + n)) = bch_walk n 1"
proof (induction n)
  case 0
  have "bch_unit k k" by (simp add: bch_unit_def)
  then show ?case by (simp add: bch_reg_unit_before bch_shift_def)
next
  case (Suc n)
  then show ?case by (simp add: bch_walk_Suc bch_unit_def del: bch_walk.simps)
qed

lemma bch_par_unit: "bch_par (bch_unit k) n = (k < n)"
  by (induction n) (auto simp: bch_unit_def)

text \<open>The 63 values the search loop steps through, and the inverse step.\<close>

fun bch_singles :: "nat \<Rightarrow> u8 \<Rightarrow> u8 list" where
  "bch_singles 0 s = []"
| "bch_singles (Suc n) s = s # bch_singles n (bch_next_single s)"

lemma bch_singles_numeral:
  "bch_singles (numeral k) s = s # bch_singles (pred_numeral k) (bch_next_single s)"
  by (simp add: numeral_eq_Suc)

definition bch_single_table :: "u8 list" where
  "bch_single_table = [
     0x21, 0x31, 0x39, 0x3d, 0x3f, 0x3e, 0x1f, 0x2e, 0x17, 0x2a, 0x15, 0x2b,
     0x34, 0x1a, 0xd, 0x27, 0x32, 0x19, 0x2d, 0x37, 0x3a, 0x1d, 0x2f, 0x36,
     0x1b, 0x2c, 0x16, 0xb, 0x24, 0x12, 0x9, 0x25, 0x33, 0x38, 0x1c, 0xe,
     0x7, 0x22, 0x11, 0x29, 0x35, 0x3b, 0x3c, 0x1e, 0xf, 0x26, 0x13, 0x28,
     0x14, 0xa, 0x5, 0x23, 0x30, 0x18, 0xc, 0x6, 0x3, 0x20, 0x10, 0x8,
     0x4, 0x2, 0x1]"

lemma bch_single_table_eq: "bch_singles 63 0x21 = bch_single_table"
  by (simp add: bch_singles_numeral bch_next_single_def bch_single_table_def)

lemma distinct_bch_single_table: "distinct bch_single_table"
  by (simp add: bch_single_table_def)

lemma bch_single_table_nonzero: "0 \<notin> set bch_single_table"
  by (simp add: bch_single_table_def)

fun bch_chain :: "u8 list \<Rightarrow> bool" where
  "bch_chain [] = False"
| "bch_chain [x] = (x = 1)"
| "bch_chain (x # y # zs) = (x = bch_shift y False \<and> bch_chain (y # zs))"

lemma bch_chain_table: "bch_chain bch_single_table"
  by (simp add: bch_single_table_def bch_shift_def)

lemma length_bch_single_table [simp]: "length bch_single_table = 63"
  by (simp add: bch_single_table_def)

lemma bch_chain_walk: "bch_chain xs \<Longrightarrow> i < length xs \<Longrightarrow> xs ! i = bch_walk (length xs - Suc i) 1"
proof (induction xs arbitrary: i rule: bch_chain.induct)
  case (3 x y zs)
  have y: "y = bch_walk (length zs) 1" using "3.IH" [of 0] "3.prems" by simp
  show ?case
  proof (cases i)
    case 0
    then show ?thesis using "3.prems" y by (simp add: bch_walk_Suc del: bch_walk.simps)
  next
    case (Suc j)
    then show ?thesis using "3.IH" [of j] "3.prems" by simp
  qed
qed auto

lemma bch_single_syndrome: "k < 63 \<Longrightarrow> bch_reg (bch_unit k) 63 = bch_single_table ! k"
  using bch_reg_unit [of k "62 - k"] bch_chain_walk [OF bch_chain_table, of k] by simp

lemma bch_locate_singles:
  "bch_singles n s = xs \<Longrightarrow> i + n = 63 \<Longrightarrow> j < n \<Longrightarrow> distinct xs \<Longrightarrow>
     bch_locate i s (xs ! j) = Some (i + j)"
proof (induction n arbitrary: i s xs j)
  case (Suc n)
  then obtain ys where xs: "xs = s # ys" and ys: "bch_singles n (bch_next_single s) = ys"
    by auto
  have len: "length (bch_singles n t) = n" for t by (induction n arbitrary: t) auto
  show ?case
  proof (cases j)
    case 0
    then show ?thesis using Suc.prems xs by (simp add: bch_locate.simps)
  next
    case (Suc j')
    have "ys ! j' \<in> set ys" using Suc Suc.prems(3) len ys by (metis Suc_less_eq nth_mem)
    then have "ys ! j' \<noteq> s" using Suc.prems(4) xs by auto
    then show ?thesis
      using Suc.IH [OF ys, of "i + 1" j'] Suc.prems xs Suc
      by (subst bch_locate.simps) simp
  qed
qed simp

lemma bch_locate_single: "k < 63 \<Longrightarrow> bch_locate 0 0x21 (bch_single_table ! k) = Some k"
  using bch_locate_singles [OF bch_single_table_eq, of 0 k] distinct_bch_single_table by simp

section \<open>Flipping a received bit\<close>

lemma length_bch_flip [simp]: "length (bch_flip block i) = length block"
  by (simp add: bch_flip_def)

lemma bit_flip_mask: "k < 8 \<Longrightarrow> n < 8 \<Longrightarrow> bit (drop_bit k (0x80 :: u8)) n = (n + k = 7)"
  by (drule less_8_cases, drule less_8_cases, elim insertE) (simp_all add: bit_simps)

lemma bch_bit_flip:
  assumes "length block = 8" "k < 63" "i < 63"
  shows "bch_bit (bch_flip block k) i = (bch_bit block i \<noteq> bch_unit k i)"
proof (cases "i div 8 = k div 8")
  case False
  then have "i \<noteq> k" by auto
  with False show ?thesis by (simp add: bch_bit_def bch_flip_def bch_unit_def)
next
  case True
  have "k div 8 < 8" using assms by auto
  moreover have "(7 - i mod 8 + k mod 8 = 7) = (i = k)"
  proof -
    have "(7 - a + b = 7) = (a = b)" if "a < 8" "b < 8" for a b :: nat
      using that by arith
    moreover have "(i mod 8 = k mod 8) = (i = k)"
      using True by (metis div_mult_mod_eq)
    ultimately show ?thesis by simp
  qed
  ultimately show ?thesis using assms True
    by (auto simp: bch_bit_def bch_flip_def bch_unit_def bit_xor_iff bit_flip_mask)
qed

lemma bch_reg_cong: "(\<And>i. i < n \<Longrightarrow> f i = g i) \<Longrightarrow> bch_reg f n = bch_reg g n"
  by (induction n) auto

lemma bch_par_cong: "(\<And>i. i < n \<Longrightarrow> f i = g i) \<Longrightarrow> bch_par f n = bch_par g n"
  by (induction n) auto

lemma bch_syndrome_flip:
  assumes "length block = 8" "k < 63"
  shows "bch_syndrome (bch_flip block k) =
     (fst (bch_syndrome block) XOR bch_single_table ! k, \<not> snd (bch_syndrome block))"
proof -
  have flip: "i < 63 \<Longrightarrow> bch_bit (bch_flip block k) i = (bch_bit block i \<noteq> bch_unit k i)" for i
    using assms by (rule bch_bit_flip)
  have "bch_reg (bch_bit (bch_flip block k)) 63
      = bch_reg (bch_bit block) 63 XOR bch_reg (bch_unit k) 63"
    by (subst bch_reg_xor [symmetric]) (rule bch_reg_cong, erule flip)
  moreover have "bch_par (bch_bit (bch_flip block k)) 63
      = (bch_par (bch_bit block) 63 \<noteq> bch_par (bch_unit k) 63)"
    by (subst bch_par_xor [symmetric]) (rule bch_par_cong, erule flip)
  ultimately show ?thesis
    using assms by (simp add: bch_syndrome_eq bch_par_unit bch_single_syndrome)
qed

lemma bch_decode_ok_iff:
  "fst (ccsds_bch_decode_block block) = CCSDS_BCH_OK \<longleftrightarrow> bch_syndrome block = (0, False)"
  by (auto simp: ccsds_bch_decode_block_def Let_def split: prod.splits option.splits)

lemma bch_flip_twice: "k div 8 < length block \<Longrightarrow> bch_flip (bch_flip block k) k = block"
  by (simp add: bch_flip_def xor.assoc)

lemma take_bch_flip:
  "take 7 (bch_flip block k) = (if k < 56 then bch_flip (take 7 block) k else take 7 block)"
proof (cases "k < 56")
  case True
  then have "k div 8 < 7" by auto
  with True show ?thesis by (simp add: bch_flip_def take_update_swap)
next
  case False
  then have "7 \<le> k div 8" by auto
  with False show ?thesis by (simp add: bch_flip_def take_update_cancel)
qed

lemma bch_numeral:
  "bch_reg f (numeral k) = bch_shift (bch_reg f (pred_numeral k)) (f (pred_numeral k))"
  "bch_par f (numeral k) = (bch_par f (pred_numeral k) \<noteq> f (pred_numeral k))"
  by (simp_all add: numeral_eq_Suc)

lemma bch_clean_block: "fst (ccsds_bch_decode_block [0, 0, 0, 0, 0, 0, 0, 0xfe]) = CCSDS_BCH_OK"
  by (simp add: bch_decode_ok_iff bch_syndrome_eq bch_numeral bch_bit_def bch_shift_def)

lemma bch_decode_flip:
  assumes "length block = 8" and "fst (ccsds_bch_decode_block block) = CCSDS_BCH_OK" and "k < 63"
  shows "ccsds_bch_decode_block (bch_flip block k) = (CCSDS_BCH_CORRECTED, take 7 block, int k)"
proof -
  let ?s = "bch_single_table ! k"
  have syn: "bch_syndrome (bch_flip block k) = (?s, True)"
    using assms by (simp add: bch_decode_ok_iff bch_syndrome_flip)
  have "?s \<noteq> 0"
    using assms(3) bch_single_table_nonzero by (metis length_bch_single_table nth_mem)
  moreover have "k < 56 \<Longrightarrow> bch_flip (bch_flip (take 7 block) k) k = take 7 block"
    using assms(1) by (intro bch_flip_twice) auto
  ultimately show ?thesis
    using assms(3) by (simp add: ccsds_bch_decode_block_def syn bch_locate_single take_bch_flip)
qed

lemma bch_decode_flip_twice:
  assumes "length block = 8" and "fst (ccsds_bch_decode_block block) = CCSDS_BCH_OK"
    and "j < 63" and "k < 63" and "j \<noteq> k"
  shows "ccsds_bch_decode_block (bch_flip (bch_flip block j) k)
     = (CCSDS_BCH_DETECTED_EVEN, take 7 (bch_flip (bch_flip block j) k), -1)"
proof -
  have "bch_syndrome (bch_flip (bch_flip block j) k)
      = (bch_single_table ! j XOR bch_single_table ! k, False)"
    using assms by (simp add: bch_decode_ok_iff bch_syndrome_flip)
  moreover have "bch_single_table ! j \<noteq> bch_single_table ! k"
    using assms distinct_bch_single_table by (simp add: nth_eq_iff_index_eq)
  ultimately show ?thesis
    by (simp add: ccsds_bch_decode_block_def word_xor_eq_0)
qed

text \<open>
  What the receiver can be handed for a block that was sent: the block itself, or the block
  with one inverted bit (the last bit of the eighth byte is filler, outside the code).
\<close>

definition bch_received :: "bytes \<Rightarrow> bytes \<Rightarrow> bool" where
  "bch_received block recv \<longleftrightarrow> recv = block \<or> (\<exists>k\<in>set [0..<64]. recv = bch_flip block k)"

definition bch_clean :: "bytes \<Rightarrow> bool" where
  "bch_clean block \<longleftrightarrow> length block = 8 \<and> fst (ccsds_bch_decode_block block) = CCSDS_BCH_OK"

lemma bch_decode_clean: "bch_clean block \<Longrightarrow> ccsds_bch_decode_block block = (CCSDS_BCH_OK, take 7 block, -1)"
  unfolding bch_clean_def bch_decode_ok_iff by (simp add: ccsds_bch_decode_block_def)

lemma bch_decode_filler_flip:
  assumes "bch_clean block"
  shows "ccsds_bch_decode_block (bch_flip block 63) = (CCSDS_BCH_OK, take 7 block, -1)"
proof -
  have len: "length block = 8" using assms by (simp add: bch_clean_def)
  have "bch_bit (bch_flip block 63) i = bch_bit block i" if "i < 63" for i
  proof (cases "i div 8 = 7")
    case True
    with that have "i mod 8 < 7" by presburger
    then have "bit (drop_bit 7 (0x80 :: u8)) (7 - i mod 8) = False" by (subst bit_flip_mask) auto
    with True len show ?thesis by (simp add: bch_bit_def bch_flip_def bit_xor_iff)
  next
    case False
    with len show ?thesis by (simp add: bch_bit_def bch_flip_def)
  qed
  then have "bch_syndrome (bch_flip block 63) = bch_syndrome block"
    unfolding bch_syndrome_eq by (simp cong: bch_reg_cong bch_par_cong)
  with assms show ?thesis
    unfolding bch_clean_def bch_decode_ok_iff
    by (simp add: ccsds_bch_decode_block_def take_bch_flip)
qed

lemma bch_decode_received:
  assumes "bch_clean block" "bch_received block recv"
  shows "length recv = 8 \<and> fst (ccsds_bch_decode_block recv) \<in> {CCSDS_BCH_OK, CCSDS_BCH_CORRECTED} \<and>
    fst (snd (ccsds_bch_decode_block recv)) = take 7 block"
proof -
  consider "recv = block" | "recv = bch_flip block 63" | k where "k < 63" "recv = bch_flip block k"
  proof (cases "recv = block")
    case False
    then obtain k where k: "k < 64" "recv = bch_flip block k"
      using assms(2) by (auto simp: bch_received_def)
    then show thesis using that(2) that(3) [of k] by (cases "k = 63") simp_all
  qed
  then show ?thesis
    using assms(1) bch_decode_flip [of block]
    by cases (simp_all add: bch_decode_clean bch_decode_filler_flip, auto simp: bch_clean_def)
qed

section \<open>Properties\<close>

text \<open>
  C29. Single-error correction: if a block decodes cleanly and any one of its 63 coded bits
  is inverted on the way, the decoder reports a correction at exactly that bit and returns
  the original seven data bytes.
\<close>

theorem bch_corrects_single_error:
  assumes "length block = 8" and "fst (ccsds_bch_decode_block block) = CCSDS_BCH_OK" and "k < 63"
  shows "ccsds_bch_decode_block (bch_flip block k) = (CCSDS_BCH_CORRECTED, take 7 block, int k)"
  using assms by (rule bch_decode_flip)

theorem bch_corrects_single_error_witness:
  "ccsds_bch_decode_block (bch_flip [0, 0, 0, 0, 0, 0, 0, 0xfe] 13)
     = (CCSDS_BCH_CORRECTED, [0, 0, 0, 0, 0, 0, 0], 13)"
proof -
  let ?b = "[0, 0, 0, 0, 0, 0, 0, 0xfe] :: bytes"
  have ok: "fst (ccsds_bch_decode_block ?b) = CCSDS_BCH_OK"
    by (rule bch_clean_block)
  show ?thesis using bch_corrects_single_error [of ?b 13] ok by simp
qed

text \<open>
  Double-error detection: inverting any two different coded bits of a block that decodes
  cleanly is reported as an even number of errors, and no data byte is altered.
\<close>

theorem bch_detects_double_error:
  assumes "length block = 8" and "fst (ccsds_bch_decode_block block) = CCSDS_BCH_OK"
    and "j < 63" and "k < 63" and "j \<noteq> k"
  shows "ccsds_bch_decode_block (bch_flip (bch_flip block j) k)
     = (CCSDS_BCH_DETECTED_EVEN, take 7 (bch_flip (bch_flip block j) k), -1)"
  using assms by (rule bch_decode_flip_twice)

theorem bch_detects_double_error_witness:
  "fst (ccsds_bch_decode_block (bch_flip (bch_flip [0, 0, 0, 0, 0, 0, 0, 0xfe] 3) 60))
     = CCSDS_BCH_DETECTED_EVEN"
proof -
  let ?b = "[0, 0, 0, 0, 0, 0, 0, 0xfe] :: bytes"
  have ok: "fst (ccsds_bch_decode_block ?b) = CCSDS_BCH_OK"
    by (rule bch_clean_block)
  show ?thesis using bch_detects_double_error [of ?b 3 60] ok by simp
qed

end
