(* ===== verification/Cltu.thy ===== *)
theory Cltu
  imports Bch
begin

unbundle bit_operations_syntax

text \<open>
  CLTU acquisition and decoding (\<^verbatim>\<open>src/ccsds_cltu.c\<close>, \<^verbatim>\<open>ccsds_cltu.h\<close>).  The decoder returns
  the decoded bytes, or the error with which the C function returns after setting
  \<^verbatim>\<open>*tc_frame_len\<close> to 0.
\<close>

section \<open>The code\<close>

definition cltu_tail_sequence :: bytes where
  "cltu_tail_sequence = [0xc5, 0xc5, 0xc5, 0xc5, 0xc5, 0xc5, 0xc5, 0x79]"

definition CLTU_START_SEQUENCE :: u16 where "CLTU_START_SEQUENCE = 0xeb90"

definition popcount :: "u8 \<Rightarrow> nat" where
  "popcount w = length (filter (bit w) [0..<8])"

definition ccsds_cltu_is_start_sequence :: "bytes \<Rightarrow> bool" where
  "ccsds_cltu_is_start_sequence candidate =
     (let errors = popcount (candidate ! 0 XOR ucast (drop_bit 8 CLTU_START_SEQUENCE))
      in if errors > 1 then False
         else errors + popcount (candidate ! 1 XOR ucast (CLTU_START_SEQUENCE AND 0xff)) \<le> 1)"

definition ccsds_cltu_has_tail_sequence :: "bytes \<Rightarrow> bool" where
  "ccsds_cltu_has_tail_sequence cltu =
     (let tail_offset = length cltu - 8
      in if cltu ! (length cltu - 1) \<noteq> cltu_tail_sequence ! 7 then False
         else list_all (\<lambda>i. cltu ! (tail_offset + i) = cltu_tail_sequence ! i) [0..<7])"

text \<open>The streaming receiver: its state, and operations that acquire nothing yet.\<close>

record ('cb, 'u) ccsds_cltu_rx =
  on_frame :: "'cb option"
  rx_user_data :: "'u option"
  buffered_len :: nat
  in_cltu :: bool
  rx_buffer :: bytes

definition ccsds_cltu_rx_init :: "ccsds_config \<Rightarrow> 'cb \<Rightarrow> 'u option \<Rightarrow> ('cb, 'u) ccsds_cltu_rx" where
  "ccsds_cltu_rx_init cfg cb u =
     \<lparr>on_frame = Some cb, rx_user_data = u, buffered_len = 0, in_cltu = False,
      rx_buffer = replicate (CCSDS_MAX_CLTU_LEN cfg) 0\<rparr>"

definition ccsds_cltu_rx_reset :: "('cb, 'u) ccsds_cltu_rx \<Rightarrow> ('cb, 'u) ccsds_cltu_rx" where
  "ccsds_cltu_rx_reset rx = rx\<lparr>buffered_len := 0, in_cltu := False\<rparr>"

definition ccsds_cltu_rx_push ::
  "('cb, 'u) ccsds_cltu_rx \<Rightarrow> bytes \<Rightarrow> rc \<times> ('cb, 'u) ccsds_cltu_rx" where
  "ccsds_cltu_rx_push rx chunk = (RC_ERR ENOTSUP, rx)"

text \<open>The block loop: \<open>n\<close> blocks still to decode, from the front of \<open>body\<close>, onto \<open>out\<close>.\<close>

fun cltu_decode_blocks :: "nat \<Rightarrow> bytes \<Rightarrow> bytes \<Rightarrow> errno + bytes" where
  "cltu_decode_blocks 0 body out = Inr out"
| "cltu_decode_blocks (Suc n) body out =
     (case ccsds_bch_decode_block (take 8 body) of
        (CCSDS_BCH_OK, data, _) \<Rightarrow> cltu_decode_blocks n (drop 8 body) (out @ data)
      | (CCSDS_BCH_CORRECTED, data, _) \<Rightarrow> cltu_decode_blocks n (drop 8 body) (out @ data)
      | (CCSDS_BCH_DETECTED_EVEN, _, _) \<Rightarrow> Inl EIO
      | (CCSDS_BCH_DETECTED_ODD, _, _) \<Rightarrow> Inl EIO)"

definition ccsds_cltu_decode_message :: "ccsds_config \<Rightarrow> bytes \<Rightarrow> nat \<Rightarrow> errno + bytes" where
  "ccsds_cltu_decode_message cfg cltu tc_frame_cap =
     (let start_len = 2;
          min_len = start_len + 2 * 8;
          cltu_len = length cltu
      in if cltu_len < min_len then Inl EINVAL
         else if cltu_len > CCSDS_MAX_CLTU_LEN cfg then Inl EINVAL
         else if \<not> ccsds_cltu_is_start_sequence cltu then Inl EINVAL
         else let bch_len = cltu_len - start_len
         in if bch_len mod 8 \<noteq> 0 then Inl EINVAL
         else if \<not> ccsds_cltu_has_tail_sequence cltu then Inl EINVAL
         else let block_count = bch_len div 8;
                  decoded_block_count = block_count - 1;
                  decoded_len = decoded_block_count * 7
         in if tc_frame_cap < decoded_len then Inl ENOSPC
         else cltu_decode_blocks decoded_block_count (drop start_len cltu) [])"

section \<open>Lemmas\<close>

text \<open>A CLTU as it is transmitted: start sequence, code blocks, tail sequence.\<close>

definition cltu_of :: "bytes \<Rightarrow> bytes list \<Rightarrow> bytes" where
  "cltu_of start blocks = start @ concat blocks @ cltu_tail_sequence"

lemma length_cltu_tail [simp]: "length cltu_tail_sequence = 8"
  by (simp add: cltu_tail_sequence_def)

lemma length_concat_blocks: "\<forall>b\<in>set bs. length b = k \<Longrightarrow> length (concat bs) = k * length bs"
  by (induction bs) auto

lemma has_tail_iff:
  assumes "8 \<le> length cltu"
  shows "ccsds_cltu_has_tail_sequence cltu \<longleftrightarrow> drop (length cltu - 8) cltu = cltu_tail_sequence"
proof -
  have "drop (length cltu - 8) cltu = cltu_tail_sequence \<longleftrightarrow>
      (\<forall>i<8. cltu ! (length cltu - 8 + i) = cltu_tail_sequence ! i)"
    using assms by (subst list_eq_iff_nth_eq) auto
  also have "\<dots> \<longleftrightarrow> (\<forall>i<7. cltu ! (length cltu - 8 + i) = cltu_tail_sequence ! i) \<and>
      cltu ! (length cltu - 8 + 7) = cltu_tail_sequence ! 7"
    using All_less_Suc [of 7 "\<lambda>i. cltu ! (length cltu - 8 + i) = cltu_tail_sequence ! i"] by auto
  also have "length cltu - 8 + 7 = length cltu - 1" using assms by simp
  finally show ?thesis
    by (auto simp: ccsds_cltu_has_tail_sequence_def Let_def list_all_iff)
qed

lemma start_sequence_append:
  "length start = 2 \<Longrightarrow> ccsds_cltu_is_start_sequence (start @ rest) = ccsds_cltu_is_start_sequence start"
  by (simp add: ccsds_cltu_is_start_sequence_def nth_append)

text \<open>Past the framing checks the message decoder is the block loop.\<close>

lemma cltu_decode_framed:
  assumes "length start = 2" "ccsds_cltu_is_start_sequence start" "blocks \<noteq> []"
    and "\<forall>b\<in>set blocks. length b = 8" "10 + 8 * length blocks \<le> CCSDS_MAX_CLTU_LEN cfg"
  shows "ccsds_cltu_decode_message cfg (cltu_of start blocks) cap =
    (if cap < 7 * length blocks then Inl ENOSPC
     else cltu_decode_blocks (length blocks) (concat blocks @ cltu_tail_sequence) [])"
proof -
  let ?c = "cltu_of start blocks"
  note body = length_concat_blocks [OF assms(4)]
  have len: "length ?c = 10 + 8 * length blocks"
    using assms(1) by (simp add: cltu_of_def body)
  have "drop (length ?c - 8) ?c = cltu_tail_sequence"
    using assms(1) by (simp add: len) (simp add: cltu_of_def body)
  then have tail: "ccsds_cltu_has_tail_sequence ?c" by (subst has_tail_iff) (simp_all add: len)
  have "ccsds_cltu_is_start_sequence ?c"
    unfolding cltu_of_def by (simp only: start_sequence_append assms(1,2))
  moreover have "drop 2 ?c = concat blocks @ cltu_tail_sequence" by (simp add: cltu_of_def assms(1))
  moreover have "0 < length blocks" using assms(3) by simp
  moreover have "(8 + 8 * length blocks) mod 8 = 0" "(8 + 8 * length blocks) div 8 - 1 = length blocks"
    by simp_all
  ultimately show ?thesis
    using assms(5) tail by (simp add: ccsds_cltu_decode_message_def Let_def len mult.commute)
qed

lemma cltu_blocks_received:
  assumes "list_all2 (\<lambda>sent recv. bch_clean sent \<and> bch_received sent recv) sent recv"
  shows "cltu_decode_blocks (length recv) (concat recv @ rest) out =
    Inr (out @ concat (map (take 7) sent))"
  using assms
proof (induction arbitrary: out rule: list_all2_induct)
  case (Cons s sent r recv)
  from bch_decode_received [of s r] Cons(1)
  show ?case by (auto simp: Cons.IH split: prod.splits ccsds_bch_result.splits)
qed simp

text \<open>An uncorrectable block anywhere stops the loop, whatever the other blocks hold.\<close>

definition bch_uncorrectable :: "bytes \<Rightarrow> bool" where
  "bch_uncorrectable block \<longleftrightarrow>
     fst (ccsds_bch_decode_block block) \<in> {CCSDS_BCH_DETECTED_EVEN, CCSDS_BCH_DETECTED_ODD}"

lemma cltu_blocks_uncorrectable:
  assumes "\<forall>b\<in>set blocks. length b = 8" "\<exists>b\<in>set blocks. bch_uncorrectable b"
  shows "cltu_decode_blocks (length blocks) (concat blocks @ rest) out = Inl EIO"
  using assms
proof (induction blocks arbitrary: out)
  case (Cons b blocks)
  show ?case
  proof (cases "bch_uncorrectable b")
    case True
    with Cons.prems show ?thesis
      by (auto simp: bch_uncorrectable_def split: prod.splits ccsds_bch_result.splits)
  next
    case False
    with Cons have "\<And>out. cltu_decode_blocks (length blocks) (concat blocks @ rest) out = Inl EIO"
      by auto
    with Cons.prems show ?thesis by (auto split: prod.splits ccsds_bch_result.splits)
  qed
qed simp

lemma received_lengths:
  "list_all2 (\<lambda>sent recv. bch_clean sent \<and> bch_received sent recv) sent recv \<Longrightarrow>
     \<forall>b\<in>set recv. length b = 8"
  by (induction rule: list_all2_induct) (auto dest: bch_decode_received)

section \<open>Properties\<close>

text \<open>
  A CLTU survives one inverted bit in its start sequence and one in every code block: if
  every transmitted block is a code word and every received block differs from it in at most
  one bit, the decoder returns exactly the transmitted data bytes, seven per block.
\<close>

lemma cltu_decode_corrects:
  assumes "length start = 2" "ccsds_cltu_is_start_sequence start"
    and "list_all2 (\<lambda>sent recv. bch_clean sent \<and> bch_received sent recv) sent recv"
    and "sent \<noteq> []" "10 + 8 * length sent \<le> CCSDS_MAX_CLTU_LEN cfg" "7 * length sent \<le> cap"
  shows "ccsds_cltu_decode_message cfg (cltu_of start recv) cap = Inr (concat (map (take 7) sent))"
proof -
  have "length recv = length sent" using assms(3) by (simp add: list_all2_lengthD)
  moreover have "recv \<noteq> []" using calculation assms(4) by auto
  ultimately show ?thesis
    using assms cltu_decode_framed [OF assms(1,2) _ received_lengths [OF assms(3)], of cfg cap]
      cltu_blocks_received [OF assms(3), of cltu_tail_sequence "[]"] by simp
qed

lemma bch_clean_zero: "bch_clean [0, 0, 0, 0, 0, 0, 0, 0xfe]"
  using bch_clean_block by (simp add: bch_clean_def)

lemma cltu_decode_corrects_example:
  "ccsds_cltu_decode_message default_config
     ([0xea, 0x90] @ [0, 0, 0, 0x10, 0, 0, 0, 0xfe] @ [0, 0, 0, 0, 0, 0, 0, 0xff] @ cltu_tail_sequence)
     14 = Inr (replicate 14 0)"
proof -
  let ?b = "[0, 0, 0, 0, 0, 0, 0, 0xfe] :: bytes"
  have "bch_flip ?b 27 = [0, 0, 0, 0x10, 0, 0, 0, 0xfe]" "bch_flip ?b 63 = [0, 0, 0, 0, 0, 0, 0, 0xff]"
    by (simp_all add: bch_flip_def)
  then have "bch_received ?b [0, 0, 0, 0x10, 0, 0, 0, 0xfe]" "bch_received ?b [0, 0, 0, 0, 0, 0, 0, 0xff]"
    unfolding bch_received_def by (metis atLeastLessThan_iff le0 set_upt numeral_less_iff
        semiring_norm(76,78,80,81))+
  moreover have "replicate 14 (0 :: u8) = concat (map (take 7) [?b, ?b])" by (simp add: numeral_eq_Suc)
  moreover have "ccsds_cltu_is_start_sequence [0xea, 0x90]" by code_simp
  ultimately show ?thesis
    using cltu_decode_corrects [of "[0xea, 0x90]" "[?b, ?b]"
        "[[0, 0, 0, 0x10, 0, 0, 0, 0xfe], [0, 0, 0, 0, 0, 0, 0, 0xff]]" default_config 14] bch_clean_zero
    by (simp add: default_config_def cltu_of_def)
qed

text \<open>
  Errors beyond the code's power are not delivered: if some block of a well-framed CLTU
  is a code word with two different coded bits inverted, the decoder fails with \<open>EIO\<close> whatever
  the other blocks are, unless the output buffer is too small (\<open>ENOSPC\<close>).
\<close>

theorem cltu_decode_rejects:
  assumes "length start = 2" "ccsds_cltu_is_start_sequence start"
    and "\<forall>b\<in>set blocks. length b = 8" "10 + 8 * length blocks \<le> CCSDS_MAX_CLTU_LEN cfg"
    and "bch_clean b" "j < 63" "k < 63" "j \<noteq> k" "bch_flip (bch_flip b j) k \<in> set blocks"
  shows "ccsds_cltu_decode_message cfg (cltu_of start blocks) cap =
    Inl (if cap < 7 * length blocks then ENOSPC else EIO)"
proof -
  have "bch_uncorrectable (bch_flip (bch_flip b j) k)"
    using assms(5-8) bch_decode_flip_twice [of b j k] by (simp add: bch_uncorrectable_def bch_clean_def)
  with assms(9) have "\<exists>b\<in>set blocks. bch_uncorrectable b" by blast
  with assms(3) have "cltu_decode_blocks (length blocks) (concat blocks @ cltu_tail_sequence) [] = Inl EIO"
    by (rule cltu_blocks_uncorrectable)
  moreover have "blocks \<noteq> []" using assms(9) by auto
  ultimately show ?thesis using cltu_decode_framed [OF assms(1,2) _ assms(3,4), of cap] by simp
qed

theorem cltu_decode_rejects_witness:
  "ccsds_cltu_decode_message default_config
     ([0xeb, 0x90] @ [0x80, 0, 0, 0x10, 0, 0, 0, 0xfe] @ cltu_tail_sequence) 100 = Inl EIO"
proof -
  let ?b = "[0, 0, 0, 0, 0, 0, 0, 0xfe] :: bytes"
  have "bch_flip (bch_flip ?b 27) 0 = [0x80, 0, 0, 0x10, 0, 0, 0, 0xfe]"
    by (simp add: bch_flip_def)
  then show ?thesis
    using cltu_decode_rejects [of "[0xeb, 0x90]" "[[0x80, 0, 0, 0x10, 0, 0, 0, 0xfe]]" default_config
        ?b 27 0 100] bch_clean_zero
    by (simp add: ccsds_cltu_is_start_sequence_def popcount_def CLTU_START_SEQUENCE_def
        default_config_def cltu_of_def)
qed

end
