(* ===== verification/Rnd.thy ===== *)
theory Rnd
  imports Ccsds_Prelude
begin

unbundle bit_operations_syntax

text \<open>
  The pseudo-randomizer (\<^verbatim>\<open>src/ccsds_rnd.c\<close>): the 255-byte mask table and the loop that adds it
  to a buffer, wrapping its index.  The reference is the shift register of the CCSDS
  randomizer, \<open>x^8 + x^7 + x^5 + x^3 + 1\<close> started at all ones, read eight bits at a time.
\<close>

section \<open>The code\<close>

definition ccsds_rnd_seq :: bytes where
  "ccsds_rnd_seq = [
     0xff, 0x48, 0x0e, 0xc0, 0x9a, 0x0d, 0x70, 0xbc, 0x8e, 0x2c, 0x93, 0xad,
     0xa7, 0xb7, 0x46, 0xce, 0x5a, 0x97, 0x7d, 0xcc, 0x32, 0xa2, 0xbf, 0x3e,
     0x0a, 0x10, 0xf1, 0x88, 0x94, 0xcd, 0xea, 0xb1, 0xfe, 0x90, 0x1d, 0x81,
     0x34, 0x1a, 0xe1, 0x79, 0x1c, 0x59, 0x27, 0x5b, 0x4f, 0x6e, 0x8d, 0x9c,
     0xb5, 0x2e, 0xfb, 0x98, 0x65, 0x45, 0x7e, 0x7c, 0x14, 0x21, 0xe3, 0x11,
     0x29, 0x9b, 0xd5, 0x63, 0xfd, 0x20, 0x3b, 0x02, 0x68, 0x35, 0xc2, 0xf2,
     0x38, 0xb2, 0x4e, 0xb6, 0x9e, 0xdd, 0x1b, 0x39, 0x6a, 0x5d, 0xf7, 0x30,
     0xca, 0x8a, 0xfc, 0xf8, 0x28, 0x43, 0xc6, 0x22, 0x53, 0x37, 0xaa, 0xc7,
     0xfa, 0x40, 0x76, 0x04, 0xd0, 0x6b, 0x85, 0xe4, 0x71, 0x64, 0x9d, 0x6d,
     0x3d, 0xba, 0x36, 0x72, 0xd4, 0xbb, 0xee, 0x61, 0x95, 0x15, 0xf9, 0xf0,
     0x50, 0x87, 0x8c, 0x44, 0xa6, 0x6f, 0x55, 0x8f, 0xf4, 0x80, 0xec, 0x09,
     0xa0, 0xd7, 0x0b, 0xc8, 0xe2, 0xc9, 0x3a, 0xda, 0x7b, 0x74, 0x6c, 0xe5,
     0xa9, 0x77, 0xdc, 0xc3, 0x2a, 0x2b, 0xf3, 0xe0, 0xa1, 0x0f, 0x18, 0x89,
     0x4c, 0xde, 0xab, 0x1f, 0xe9, 0x01, 0xd8, 0x13, 0x41, 0xae, 0x17, 0x91,
     0xc5, 0x92, 0x75, 0xb4, 0xf6, 0xe8, 0xd9, 0xcb, 0x52, 0xef, 0xb9, 0x86,
     0x54, 0x57, 0xe7, 0xc1, 0x42, 0x1e, 0x31, 0x12, 0x99, 0xbd, 0x56, 0x3f,
     0xd2, 0x03, 0xb0, 0x26, 0x83, 0x5c, 0x2f, 0x23, 0x8b, 0x24, 0xeb, 0x69,
     0xed, 0xd1, 0xb3, 0x96, 0xa5, 0xdf, 0x73, 0x0c, 0xa8, 0xaf, 0xcf, 0x82,
     0x84, 0x3c, 0x62, 0x25, 0x33, 0x7a, 0xac, 0x7f, 0xa4, 0x07, 0x60, 0x4d,
     0x06, 0xb8, 0x5e, 0x47, 0x16, 0x49, 0xd6, 0xd3, 0xdb, 0xa3, 0x67, 0x2d,
     0x4b, 0xbe, 0xe6, 0x19, 0x51, 0x5f, 0x9f, 0x05, 0x08, 0x78, 0xc4, 0x4a,
     0x66, 0xf5, 0x58]"

text \<open>The loop, with its running \<open>seq_index\<close>.\<close>

fun rnd_loop :: "nat \<Rightarrow> bytes \<Rightarrow> bytes" where
  "rnd_loop seq_index [] = []"
| "rnd_loop seq_index (d # ds) =
     (d XOR ccsds_rnd_seq ! seq_index) #
     rnd_loop (if seq_index + 1 = 255 then 0 else seq_index + 1) ds"

definition ccsds_rnd_apply :: "bytes \<Rightarrow> bytes" where
  "ccsds_rnd_apply data = rnd_loop 0 data"

section \<open>The reference register\<close>

definition rnd_shift :: "u8 \<Rightarrow> u8" where
  "rnd_shift r = push_bit 1 r OR of_bool (((bit r 0 \<noteq> bit r 2) \<noteq> bit r 4) \<noteq> bit r 7)"

text \<open>Eight shifts replace the register by the next byte of the sequence.\<close>

definition rnd_byte :: "u8 \<Rightarrow> u8" where
  "rnd_byte r = rnd_shift (rnd_shift (rnd_shift (rnd_shift
     (rnd_shift (rnd_shift (rnd_shift (rnd_shift r)))))))"

fun rnd_stream :: "nat \<Rightarrow> u8" where
  "rnd_stream 0 = 0xff"
| "rnd_stream (Suc n) = rnd_byte (rnd_stream n)"

section \<open>Lemmas\<close>

lemma length_rnd_seq [simp]: "length ccsds_rnd_seq = 255"
  by (simp add: ccsds_rnd_seq_def)

lemma length_rnd_loop [simp]: "length (rnd_loop k data) = length data"
  by (induction data arbitrary: k) auto

lemma length_rnd_apply [simp]: "length (ccsds_rnd_apply data) = length data"
  by (simp add: ccsds_rnd_apply_def)

lemma rnd_loop_nth:
  "k < 255 \<Longrightarrow> i < length data \<Longrightarrow> rnd_loop k data ! i = data ! i XOR ccsds_rnd_seq ! ((k + i) mod 255)"
proof (induction data arbitrary: k i)
  case (Cons d ds)
  define k' where "k' = (if k + 1 = 255 then 0 else k + 1)"
  have k': "k' < 255" "\<And>j. (k' + j) mod 255 = (k + Suc j) mod 255"
    using Cons.prems(1) by (auto simp: k'_def)
  show ?case
  proof (cases i)
    case 0
    then show ?thesis using Cons.prems by simp
  next
    case (Suc j)
    then have "rnd_loop k (d # ds) ! i = rnd_loop k' ds ! j" by (simp add: k'_def)
    also have "\<dots> = ds ! j XOR ccsds_rnd_seq ! ((k' + j) mod 255)"
      using Cons.IH [OF k'(1), of j] Cons.prems Suc by simp
    finally show ?thesis using Suc by (simp add: k'(2))
  qed
qed simp

fun rnd_chain :: "bytes \<Rightarrow> bool" where
  "rnd_chain [] = False"
| "rnd_chain [x] = (rnd_byte x = 0xff)"
| "rnd_chain (x # y # zs) = (y = rnd_byte x \<and> rnd_chain (y # zs))"

lemma rnd_seq_chain: "rnd_chain ccsds_rnd_seq"
  by (simp add: ccsds_rnd_seq_def rnd_byte_def rnd_shift_def)

lemma rnd_chain_nth:
  "rnd_chain xs \<Longrightarrow> Suc i < length xs \<Longrightarrow> xs ! Suc i = rnd_byte (xs ! i)"
proof (induction xs arbitrary: i rule: rnd_chain.induct)
  case (3 x y zs)
  then show ?case by (cases i) auto
qed auto

lemma rnd_chain_last: "rnd_chain xs \<Longrightarrow> rnd_byte (last xs) = 0xff"
  by (induction xs rule: rnd_chain.induct) auto

lemma rnd_seq_step: "i < 255 \<Longrightarrow> ccsds_rnd_seq ! (Suc i mod 255) = rnd_byte (ccsds_rnd_seq ! i)"
proof (cases "i = 254")
  case True
  moreover have "last ccsds_rnd_seq = ccsds_rnd_seq ! 254"
    by (simp add: last_conv_nth flip: length_greater_0_conv)
  ultimately show ?thesis
    using rnd_chain_last [OF rnd_seq_chain] by (simp add: ccsds_rnd_seq_def)
next
  case False
  assume "i < 255"
  with False show ?thesis using rnd_chain_nth [OF rnd_seq_chain, of i] by simp
qed

lemma rnd_seq_stream: "ccsds_rnd_seq ! (n mod 255) = rnd_stream n"
proof (induction n)
  case 0
  then show ?case by (simp add: ccsds_rnd_seq_def)
next
  case (Suc n)
  have "ccsds_rnd_seq ! (Suc n mod 255) = ccsds_rnd_seq ! (Suc (n mod 255) mod 255)"
    by (simp add: mod_Suc_eq)
  also have "\<dots> = rnd_byte (ccsds_rnd_seq ! (n mod 255))"
    by (rule rnd_seq_step) simp
  finally show ?case using Suc by simp
qed

lemma rnd_apply_nth:
  "i < length data \<Longrightarrow> ccsds_rnd_apply data ! i = data ! i XOR rnd_stream i"
  by (simp add: ccsds_rnd_apply_def rnd_loop_nth rnd_seq_stream)

lemma rnd_apply_involution: "ccsds_rnd_apply (ccsds_rnd_apply data) = data"
  by (rule nth_equalityI) (simp_all add: rnd_apply_nth xor.assoc)

section \<open>Properties\<close>

text \<open>
  C30. Randomization adds the CCSDS pseudo-random sequence: byte \<open>i\<close> of the output is byte
  \<open>i\<close> of the input plus the \<open>i\<close>-th byte of the unbounded shift-register stream, past the end
  of the 255-byte table as well.
\<close>

theorem rnd_apply_is_lfsr:
  "ccsds_rnd_apply data = map2 (\<lambda>d m. d XOR m) data (map rnd_stream [0..<length data])"
  by (rule nth_equalityI) (simp_all add: rnd_apply_nth)

text \<open>
  Randomization is self-inverse, as the header promises.\<close>

theorem rnd_apply_self_inverse: "ccsds_rnd_apply (ccsds_rnd_apply data) = data"
  by (rule rnd_apply_involution)

end
