(* ===== verification/Tc_Frame.thy ===== *)
theory Tc_Frame
  imports Space_Packet
begin

unbundle bit_operations_syntax

text \<open>
  TC transfer frames (\<^verbatim>\<open>src/ccsds_tc_frame.c\<close>, \<^verbatim>\<open>ccsds_tc_frame.h\<close>): the decoder of the five-byte
  primary header, with the CLTU fill that may follow the frame.
\<close>

section \<open>The code\<close>

record ccsds_tc_frame =
  spacecraft_id :: u16
  virtual_channel_id :: u8
  bypass :: bool
  control_command :: bool
  frame_sequence_number :: u8
  tc_data :: bytes

definition CCSDS_TC_FILL_BYTE :: u8 where "CCSDS_TC_FILL_BYTE = 0x55"
definition CCSDS_TC_MAX_SCID :: u16 where "CCSDS_TC_MAX_SCID = 0x03ff"
definition CCSDS_TC_MAX_FRAME_LEN_FIELD :: u16 where "CCSDS_TC_MAX_FRAME_LEN_FIELD = 0x03ff"
definition CCSDS_TC_VERSION :: "u8 \<Rightarrow> u8" where "CCSDS_TC_VERSION byte0 = drop_bit 6 byte0 AND 0x03"
definition CCSDS_TC_BYPASS :: "u8 \<Rightarrow> bool" where "CCSDS_TC_BYPASS byte0 = (byte0 AND 2 ^ 5 \<noteq> 0)"
definition CCSDS_TC_CONTROL :: "u8 \<Rightarrow> bool" where "CCSDS_TC_CONTROL byte0 = (byte0 AND 2 ^ 4 \<noteq> 0)"

definition ccsds_tc_frame_decode :: "ccsds_config \<Rightarrow> bytes \<Rightarrow> errno + ccsds_tc_frame" where
  "ccsds_tc_frame_decode cfg buf =
     (let len = length buf in
      if len < 5 then Inl EINVAL
      else if CCSDS_TC_VERSION (buf ! 0) \<noteq> 0 then Inl EINVAL
      else
        let word1 = be16_at buf 2;
            frame_len_field = word1 AND CCSDS_TC_MAX_FRAME_LEN_FIELD;
            frame_len = unat frame_len_field + 1
        in if frame_len < 5 then Inl EMSGSIZE
           else if frame_len > len then Inl EMSGSIZE
           else if frame_len < len \<and>
             (buf ! frame_len \<noteq> CCSDS_TC_FILL_BYTE \<or> buf ! (len - 1) \<noteq> CCSDS_TC_FILL_BYTE)
           then Inl EMSGSIZE
           else
             let word0 = be16_at buf 0;
                 scid = word0 AND CCSDS_TC_MAX_SCID
             in if scid \<noteq> CCSDS_SPACECRAFT_ID cfg then Inl EACCES
                else Inr \<lparr>
                  spacecraft_id = scid,
                  virtual_channel_id = ucast (drop_bit 10 word1 AND 0x3f),
                  bypass = CCSDS_TC_BYPASS (buf ! 0),
                  control_command = CCSDS_TC_CONTROL (buf ! 0),
                  frame_sequence_number = buf ! 4,
                  tc_data = take (frame_len - 5) (drop 5 buf)\<rparr>)"

definition ccsds_tc_frame_extract_packet :: "ccsds_tc_frame \<Rightarrow> errno + ccsds_space_packet" where
  "ccsds_tc_frame_extract_packet frame = ccsds_space_packet_decode (tc_data frame)"

section \<open>Reference encoder\<close>

text \<open>
  The wire format of the header, as the sender builds it: two version bits (0), bypass and
  control flags, two spare bits (0), ten bits of spacecraft identifier; six bits of virtual
  channel, ten bits of frame length minus one; the sequence number.
\<close>

definition tc_frame_ok :: "ccsds_config \<Rightarrow> ccsds_tc_frame \<Rightarrow> bool" where
  "tc_frame_ok cfg f \<longleftrightarrow> spacecraft_id f = CCSDS_SPACECRAFT_ID cfg \<and>
     spacecraft_id f \<le> 0x3ff \<and> virtual_channel_id f < 64 \<and> length (tc_data f) \<le> 1019"

definition tc_word0 :: "ccsds_tc_frame \<Rightarrow> u16" where
  "tc_word0 f = push_bit 13 (of_bool (bypass f)) OR push_bit 12 (of_bool (control_command f)) OR
     spacecraft_id f"

definition tc_word1 :: "ccsds_tc_frame \<Rightarrow> u16" where
  "tc_word1 f = push_bit 10 (ucast (virtual_channel_id f)) OR word_of_nat (length (tc_data f) + 4)"

definition tc_frame_bytes :: "ccsds_tc_frame \<Rightarrow> bytes" where
  "tc_frame_bytes f =
     put_be16 (tc_word0 f) @ put_be16 (tc_word1 f) @ [frame_sequence_number f] @ tc_data f"

lemma length_tc_frame_bytes [simp]: "length (tc_frame_bytes f) = 5 + length (tc_data f)"
  by (simp add: tc_frame_bytes_def)

lemma tc_word0_fields:
  assumes "spacecraft_id f \<le> 0x3ff"
  shows "CCSDS_TC_VERSION (ucast (drop_bit 8 (tc_word0 f))) = 0"
    and "CCSDS_TC_BYPASS (ucast (drop_bit 8 (tc_word0 f))) = bypass f"
    and "CCSDS_TC_CONTROL (ucast (drop_bit 8 (tc_word0 f))) = control_command f"
    and "tc_word0 f AND CCSDS_TC_MAX_SCID = spacecraft_id f"
proof -
  have "take_bit 10 (spacecraft_id f) = spacecraft_id f"
    using assms by (intro word_le_take_bit) (auto simp: word_less_nat_alt word_le_nat_alt)
  then have bs: "bit (spacecraft_id f) n \<Longrightarrow> n < 10" for n by (metis bit_take_bit_iff)
  have bb: "bit (of_bool b :: u16) n \<longleftrightarrow> b \<and> n = 0" for b n by (auto simp: bit_of_bool_iff)
  note bits = tc_word0_def mask_simps bit_simps bb
  show "CCSDS_TC_VERSION (ucast (drop_bit 8 (tc_word0 f))) = 0"
    unfolding CCSDS_TC_VERSION_def by (rule bit_word_eqI) (auto simp: bits dest: bs)
  have "CCSDS_TC_BYPASS b \<longleftrightarrow> bit b 5" "CCSDS_TC_CONTROL b \<longleftrightarrow> bit b 4" for b
    unfolding CCSDS_TC_BYPASS_def CCSDS_TC_CONTROL_def and_exp_eq_0_iff_not_bit by simp_all
  then show "CCSDS_TC_BYPASS (ucast (drop_bit 8 (tc_word0 f))) = bypass f"
    "CCSDS_TC_CONTROL (ucast (drop_bit 8 (tc_word0 f))) = control_command f"
    by (auto simp: bits dest: bs)
  show "tc_word0 f AND CCSDS_TC_MAX_SCID = spacecraft_id f"
    unfolding CCSDS_TC_MAX_SCID_def by (rule bit_word_eqI) (auto simp: bits dest: bs)
qed

lemma tc_word1_fields:
  assumes "virtual_channel_id f < 64" "length (tc_data f) \<le> 1019"
  shows "ucast (drop_bit 10 (tc_word1 f) AND 0x3f) = virtual_channel_id f"
    and "unat (tc_word1 f AND CCSDS_TC_MAX_FRAME_LEN_FIELD) = 4 + length (tc_data f)"
proof -
  define m :: u16 where "m = word_of_nat (length (tc_data f) + 4)"
  have um: "unat m = length (tc_data f) + 4"
    using assms(2) by (simp add: m_def unsigned_of_nat take_bit_nat_eq_self del: of_nat_add)
  have "take_bit 10 m = m"
    using assms(2) by (intro word_le_take_bit) (simp only: word_less_nat_alt um, simp)
  then have bn: "bit m n \<Longrightarrow> n < 10" for n by (metis bit_take_bit_iff)
  have "take_bit 6 (virtual_channel_id f) = virtual_channel_id f"
    using assms(1) by (intro word_le_take_bit) simp_all
  then have bv: "bit (virtual_channel_id f) n \<Longrightarrow> n < 6" for n by (metis bit_take_bit_iff)
  note bits = tc_word1_def [of f, folded m_def] mask_simps bit_or_iff bit_and_iff bit_push_bit_iff bit_drop_bit_eq
    bit_take_bit_iff bit_unsigned_iff
  show "ucast (drop_bit 10 (tc_word1 f) AND 0x3f) = virtual_channel_id f"
    by (rule bit_word_eqI) (auto simp: bits dest: bv bn)
  have "tc_word1 f AND CCSDS_TC_MAX_FRAME_LEN_FIELD = m"
    unfolding CCSDS_TC_MAX_FRAME_LEN_FIELD_def by (rule bit_word_eqI) (auto simp: bits dest: bv bn)
  then show "unat (tc_word1 f AND CCSDS_TC_MAX_FRAME_LEN_FIELD) = 4 + length (tc_data f)"
    using um by simp
qed

lemma tc_frame_bytes_words:
  "be16_at (tc_frame_bytes f @ rest) 0 = tc_word0 f" "be16_at (tc_frame_bytes f @ rest) 2 = tc_word1 f"
  "(tc_frame_bytes f @ rest) ! 0 = ucast (drop_bit 8 (tc_word0 f))"
  "(tc_frame_bytes f @ rest) ! 4 = frame_sequence_number f"
  using be16_at_put [of "[]" 0] be16_at_put [of "put_be16 (tc_word0 f)" 2]
  by (simp_all add: tc_frame_bytes_def put_be16_def)

definition tc_fill_ok :: "bytes \<Rightarrow> bool" where
  "tc_fill_ok fill \<longleftrightarrow> fill = [] \<or> hd fill = CCSDS_TC_FILL_BYTE \<and> last fill = CCSDS_TC_FILL_BYTE"

lemma tc_frame_decode_bytes:
  assumes "tc_frame_ok cfg f" "tc_fill_ok fill"
  shows "ccsds_tc_frame_decode cfg (tc_frame_bytes f @ fill) = Inr f"
proof -
  let ?buf = "tc_frame_bytes f @ fill"
  have f: "spacecraft_id f = CCSDS_SPACECRAFT_ID cfg" "spacecraft_id f \<le> 0x3ff"
    "virtual_channel_id f < 64" "length (tc_data f) \<le> 1019"
    using assms(1) unfolding tc_frame_ok_def by blast+
  have fill: "fill \<noteq> [] \<Longrightarrow> ?buf ! (5 + length (tc_data f)) = CCSDS_TC_FILL_BYTE"
    "fill \<noteq> [] \<Longrightarrow> ?buf ! (4 + (length (tc_data f) + length fill)) = CCSDS_TC_FILL_BYTE"
    using assms(2) by (auto simp: tc_fill_ok_def nth_append hd_conv_nth last_conv_nth)
  have "take (length (tc_data f)) (drop 5 ?buf) = tc_data f"
    by (simp add: tc_frame_bytes_def put_be16_def)
  then show ?thesis
    by (cases "fill = []")
      (simp_all add: ccsds_tc_frame_decode_def Let_def tc_frame_bytes_words
        tc_frame_bytes_words [of f "[]", unfolded append_Nil2] fill
        tc_word0_fields [OF f(2)] tc_word1_fields [OF f(3,4)] flip: f(1))
qed

lemma tc_frame_decode_cases:
  assumes "ccsds_tc_frame_decode cfg buf = Inr f"
  obtains n where "5 \<le> n" "n \<le> 1024" "n \<le> length buf" "n = unat (be16_at buf 2 AND 0x3ff) + 1"
    and "n < length buf \<Longrightarrow> buf ! n = CCSDS_TC_FILL_BYTE \<and> buf ! (length buf - 1) = CCSDS_TC_FILL_BYTE"
    and "CCSDS_TC_VERSION (buf ! 0) = 0"
    and "spacecraft_id f = CCSDS_SPACECRAFT_ID cfg" "spacecraft_id f = be16_at buf 0 AND 0x3ff"
    and "spacecraft_id f \<le> 0x3ff"
    and "virtual_channel_id f = ucast (drop_bit 10 (be16_at buf 2) AND 0x3f)"
    and "frame_sequence_number f = buf ! 4" "tc_data f = take (n - 5) (drop 5 buf)"
    and "bypass f = CCSDS_TC_BYPASS (buf ! 0)" "control_command f = CCSDS_TC_CONTROL (buf ! 0)"
proof -
  let ?w = "be16_at buf 2 AND 0x3ff"
  have "?w \<le> 0x3ff" by (rule word_and_le1)
  then have "unat ?w + 1 \<le> 1024" by (simp add: word_le_nat_alt)
  moreover have "spacecraft_id f = be16_at buf 0 AND 0x3ff \<Longrightarrow> spacecraft_id f \<le> 0x3ff"
    by (simp add: word_and_le1)
  ultimately show thesis
    using assms by (intro that [of "unat ?w + 1"])
      (auto simp: ccsds_tc_frame_decode_def Let_def CCSDS_TC_MAX_FRAME_LEN_FIELD_def
        CCSDS_TC_MAX_SCID_def split: if_splits)
qed

lemma vcid_bound: "ucast ((w :: u16) AND 0x3f) < (64 :: u8)"
proof -
  have "ucast (w AND 0x3f) = (ucast w AND 0x3f :: u8)"
    by (rule bit_word_eqI) (auto simp: mask_simps bit_simps)
  moreover have "(ucast w AND 0x3f :: u8) \<le> 0x3f" by (rule word_and_le1)
  ultimately show ?thesis by (auto simp: word_less_nat_alt word_le_nat_alt)
qed

text \<open>The masks and shifts of the header as arithmetic.\<close>

lemma low_10_bits: "unat (w AND 0x3ff) = unat (w :: u16) mod 1024"
proof -
  have "w AND 0x3ff = take_bit 10 w" by (simp add: mask_simps)
  then have "unat (w AND 0x3ff) = take_bit 10 (unat w)" by (simp only: unsigned_take_bit_eq)
  then show ?thesis by (simp add: take_bit_eq_mod)
qed

lemma high_6_bits: "unat (ucast (drop_bit 10 w AND 0x3f) :: u8) = unat (w :: u16) div 1024"
proof -
  have u: "unat (drop_bit 10 w) = unat w div 1024"
    by (simp only: unat_drop_bit_eq) (simp add: drop_bit_eq_div)
  moreover have "unat w div 1024 < 64" using unat_u16_less [of w] by (simp add: less_mult_imp_div_less)
  ultimately have "drop_bit 10 w < 2 ^ 6" by (simp add: word_less_nat_alt)
  then have "drop_bit 10 w AND 0x3f = drop_bit 10 w"
    by (simp only: and_masks word_le_take_bit)
  with u \<open>unat w div 1024 < 64\<close> show ?thesis
    by (simp add: unsigned_ucast_eq take_bit_nat_eq_self)
qed

lemma version_zero: "CCSDS_TC_VERSION b = 0 \<Longrightarrow> unat b < 64"
proof -
  assume v: "CCSDS_TC_VERSION b = 0"
  have u: "unat (drop_bit 6 b) = unat b div 64"
    by (simp only: unat_drop_bit_eq) (simp add: drop_bit_eq_div)
  moreover have "unat b div 64 < 4" using unat_u8_less [of b] by (simp add: less_mult_imp_div_less)
  ultimately have "drop_bit 6 b < 2 ^ 2" by (simp add: word_less_nat_alt)
  then have "drop_bit 6 b AND 0x03 = drop_bit 6 b"
    by (simp only: and_masks word_le_take_bit)
  with v have "unat (drop_bit 6 b) = 0" by (simp add: CCSDS_TC_VERSION_def)
  with u show ?thesis by (simp add: div_eq_0_iff)
qed

lemma tc_frame_decode_ok:
  assumes "ccsds_tc_frame_decode cfg buf = Inr f"
  shows "tc_frame_ok cfg f"
  using assms by (rule tc_frame_decode_cases) (simp add: tc_frame_ok_def vcid_bound)

section \<open>Properties\<close>

text \<open>
  C25. The decoder inverts the wire format: every frame a sender can build for this
  spacecraft is decoded to its fields and data, with or without CLTU fill behind it.
\<close>

theorem tc_frame_roundtrip:
  assumes "tc_frame_ok cfg f" "tc_fill_ok fill"
  shows "ccsds_tc_frame_decode cfg (tc_frame_bytes f @ fill) = Inr f"
  using assms by (rule tc_frame_decode_bytes)

theorem tc_frame_roundtrip_witness:
  "ccsds_tc_frame_decode default_config [0x20, 0x7b, 0x04, 0x06, 9, 0xaa, 0xbb, 0x55, 0x55] =
     Inr \<lparr>spacecraft_id = 123, virtual_channel_id = 1, bypass = True, control_command = False,
       frame_sequence_number = 9, tc_data = [0xaa, 0xbb]\<rparr>"
proof -
  let ?f = "\<lparr>spacecraft_id = 123, virtual_channel_id = 1, bypass = True, control_command = False,
    frame_sequence_number = 9, tc_data = [0xaa, 0xbb]\<rparr>"
  have "tc_frame_bytes ?f = [0x20, 0x7b, 0x04, 0x06, 9, 0xaa, 0xbb]"
    by (simp add: tc_frame_bytes_def tc_word0_def tc_word1_def put_be16_def)
  then show ?thesis
    using tc_frame_roundtrip [of default_config ?f "[0x55, 0x55]"]
    by (simp add: tc_frame_ok_def tc_fill_ok_def CCSDS_TC_FILL_BYTE_def default_config_def)
qed

text \<open>
  C26. What the decoder accepts, field by field: version 0 and this spacecraft's identifier; the
  channel, flags and sequence number are those of the header; the data are the octets from the
  header to the length the header declares, which is at least 5, at most 1024 and inside the
  buffer; and anything behind them starts and ends with the fill byte.
\<close>

theorem tc_frame_decode_sound:
  assumes "ccsds_tc_frame_decode cfg buf = Inr f"
  shows "5 + length (tc_data f) = unat (be16_at buf 2) mod 1024 + 1 \<and>
    unat (virtual_channel_id f) = unat (be16_at buf 2) div 1024 \<and>
    spacecraft_id f = CCSDS_SPACECRAFT_ID cfg \<and> unat (spacecraft_id f) = unat (be16_at buf 0) mod 1024 \<and>
    unat (buf ! 0) < 64 \<and> bypass f = bit (buf ! 0) 5 \<and> control_command f = bit (buf ! 0) 4 \<and>
    frame_sequence_number f = buf ! 4 \<and>
    (\<exists>fill. buf = take 5 buf @ tc_data f @ fill \<and> tc_fill_ok fill)"
  using assms
proof (rule tc_frame_decode_cases)
  fix n
  assume n: "5 \<le> n" "n \<le> 1024" "n \<le> length buf" "n = unat (be16_at buf 2 AND 0x3ff) + 1"
    and fill: "n < length buf \<Longrightarrow> buf ! n = CCSDS_TC_FILL_BYTE \<and> buf ! (length buf - 1) = CCSDS_TC_FILL_BYTE"
    and f: "CCSDS_TC_VERSION (buf ! 0) = 0" "spacecraft_id f = CCSDS_SPACECRAFT_ID cfg"
      "spacecraft_id f = be16_at buf 0 AND 0x3ff"
      "virtual_channel_id f = ucast (drop_bit 10 (be16_at buf 2) AND 0x3f)"
      "frame_sequence_number f = buf ! 4" "tc_data f = take (n - 5) (drop 5 buf)"
      "bypass f = CCSDS_TC_BYPASS (buf ! 0)" "control_command f = CCSDS_TC_CONTROL (buf ! 0)"
  have "drop 5 buf = tc_data f @ drop n buf"
    using n append_take_drop_id [of "n - 5" "drop 5 buf"] by (simp add: f(6) drop_drop)
  then have split: "buf = take 5 buf @ tc_data f @ drop n buf" by (metis append_take_drop_id)
  have filled: "tc_fill_ok (drop n buf)"
    using fill by (cases "n < length buf") (auto simp: tc_fill_ok_def hd_drop_conv_nth last_conv_nth)
  have len: "5 + length (tc_data f) = unat (be16_at buf 2) mod 1024 + 1"
    using n by (simp add: f(6) low_10_bits)
  have flags: "bypass f = bit (buf ! 0) 5" "control_command f = bit (buf ! 0) 4"
    unfolding f(7,8) CCSDS_TC_BYPASS_def CCSDS_TC_CONTROL_def and_exp_eq_0_iff_not_bit by simp_all
  have fields: "unat (virtual_channel_id f) = unat (be16_at buf 2) div 1024"
    "unat (spacecraft_id f) = unat (be16_at buf 0) mod 1024"
    by (simp_all only: f(3,4) high_6_bits low_10_bits)
  show ?thesis using len fields f(2,5) version_zero [OF f(1)] flags split filled by blast
qed

theorem tc_frame_decode_sound_witness:
  "\<exists>fill. [0x20, 0x7b, 0x04, 0x05, 9, 0xaa, 0x55 :: u8] =
     take 5 [0x20, 0x7b, 0x04, 0x05, 9, 0xaa, 0x55] @ [0xaa] @ fill \<and> tc_fill_ok fill"
proof -
  have "ccsds_tc_frame_decode default_config [0x20, 0x7b, 0x04, 0x05, 9, 0xaa, 0x55] =
    Inr \<lparr>spacecraft_id = 123, virtual_channel_id = 1, bypass = True, control_command = False,
      frame_sequence_number = 9, tc_data = [0xaa]\<rparr>"
    by (simp add: ccsds_tc_frame_decode_def be16_at_def get_be16_def CCSDS_TC_VERSION_def
        CCSDS_TC_BYPASS_def CCSDS_TC_CONTROL_def CCSDS_TC_FILL_BYTE_def CCSDS_TC_MAX_SCID_def
        CCSDS_TC_MAX_FRAME_LEN_FIELD_def default_config_def)
  from tc_frame_decode_sound [OF this] show ?thesis unfolding ccsds_tc_frame.select_convs by (elim conjE)
qed

end
