(* ===== verification/Tc_Segment.thy ===== *)
theory Tc_Segment
  imports Tc_Frame
begin

unbundle bit_operations_syntax

text \<open>
  TC segments (\<^verbatim>\<open>src/ccsds_tc_segment.c\<close>, \<^verbatim>\<open>ccsds_tc_segment.h\<close>): the segment header and the
  walk over the packets and packet fragments of one segment.  The part handler is a
  parameter: application code that maps a part and an environment to a return code and the
  new environment.
\<close>

section \<open>The code\<close>

datatype ccsds_tc_segment_boundary =
    CCSDS_TC_SEGMENT_CONTINUATION | CCSDS_TC_SEGMENT_FIRST
  | CCSDS_TC_SEGMENT_LAST | CCSDS_TC_SEGMENT_UNSEGMENTED

record ccsds_tc_segment =
  boundary :: ccsds_tc_segment_boundary
  map_id :: u8
  seg_data :: bytes

record ccsds_tc_segment_part =
  part_map_id :: u8
  segment_boundary :: ccsds_tc_segment_boundary
  starts_packet :: bool
  ends_packet :: bool
  part_data :: bytes
  packet_len :: nat

type_synonym 'env part_handler = "ccsds_tc_segment_part \<Rightarrow> 'env \<Rightarrow> rc \<times> 'env"

definition boundary_of :: "u8 \<Rightarrow> ccsds_tc_segment_boundary" where
  "boundary_of w =
     (if w = 0 then CCSDS_TC_SEGMENT_CONTINUATION
      else if w = 1 then CCSDS_TC_SEGMENT_FIRST
      else if w = 2 then CCSDS_TC_SEGMENT_LAST
      else CCSDS_TC_SEGMENT_UNSEGMENTED)"

definition segment_ends_packet :: "ccsds_tc_segment_boundary \<Rightarrow> bool" where
  "segment_ends_packet b \<longleftrightarrow> b = CCSDS_TC_SEGMENT_LAST \<or> b = CCSDS_TC_SEGMENT_UNSEGMENTED"

definition encoded_packet_len :: "bytes \<Rightarrow> nat" where
  "encoded_packet_len packet = 6 + unat (be16_at packet 4) + 1"

definition emit_part ::
  "ccsds_tc_segment \<Rightarrow> bool \<Rightarrow> bool \<Rightarrow> bytes \<Rightarrow> nat \<Rightarrow> 'env part_handler \<Rightarrow> 'env \<Rightarrow> rc \<times> 'env" where
  "emit_part segment starts ends d plen h env =
     h \<lparr>part_map_id = map_id segment, segment_boundary = boundary segment,
        starts_packet = starts, ends_packet = ends, part_data = d, packet_len = plen\<rparr> env"

definition ccsds_tc_segment_decode :: "bytes \<Rightarrow> errno + ccsds_tc_segment" where
  "ccsds_tc_segment_decode buf =
     (if length buf < 1 then Inl EINVAL
      else Inr \<lparr>boundary = boundary_of (drop_bit 6 (buf ! 0) AND 0x03),
                map_id = buf ! 0 AND 0x3f, seg_data = drop 1 buf\<rparr>)"

definition ccsds_tc_segment_decode_frame :: "ccsds_tc_frame \<Rightarrow> errno + ccsds_tc_segment" where
  "ccsds_tc_segment_decode_frame frame = ccsds_tc_segment_decode (tc_data frame)"

text \<open>The loop over the complete packets of an unsegmented segment, from \<open>offset\<close>.\<close>

function walk_loop :: "ccsds_tc_segment \<Rightarrow> 'env part_handler \<Rightarrow> nat \<Rightarrow> 'env \<Rightarrow> rc \<times> 'env" where
  "walk_loop segment h offset env =
     (if offset < length (seg_data segment) then
        let d = drop offset (seg_data segment);
            remaining = length (seg_data segment) - offset
        in if remaining < 6 then (RC_ERR EINVAL, env)
           else let plen = encoded_packet_len d
           in if plen > remaining then (RC_ERR EINVAL, env)
              else case emit_part segment True True (take plen d) plen h env of
                (RC_ERR e, env') \<Rightarrow> (RC_ERR e, env')
              | (RC_OK, env') \<Rightarrow> walk_loop segment h (offset + plen) env'
      else (RC_OK, env))"
  by pat_completeness auto
termination
  by (relation "measure (\<lambda>(segment, h, offset, env). length (seg_data segment) - offset)")
    (auto simp: encoded_packet_len_def)

declare walk_loop.simps [simp del]

definition ccsds_tc_segment_walk_parts ::
  "ccsds_tc_segment \<Rightarrow> 'env part_handler \<Rightarrow> 'env \<Rightarrow> rc \<times> 'env" where
  "ccsds_tc_segment_walk_parts segment h env =
     (let d = seg_data segment in
      if length d = 0 then (RC_ERR EINVAL, env)
      else if boundary segment = CCSDS_TC_SEGMENT_CONTINUATION \<or> boundary segment = CCSDS_TC_SEGMENT_LAST
      then emit_part segment False (segment_ends_packet (boundary segment)) d 0 h env
      else if boundary segment = CCSDS_TC_SEGMENT_FIRST then
        if length d < 6 then (RC_ERR EINVAL, env)
        else let plen = encoded_packet_len d
        in if plen \<le> length d then (RC_ERR EINVAL, env)
           else emit_part segment True False d plen h env
      else walk_loop segment h 0 env)"

section \<open>Lemmas\<close>

text \<open>The parts a segment of whole packets should produce, and a handler run over parts.\<close>

fun feed :: "('p \<Rightarrow> 'env \<Rightarrow> rc \<times> 'env) \<Rightarrow> 'p list \<Rightarrow> 'env \<Rightarrow> rc \<times> 'env" where
  "feed h [] env = (RC_OK, env)"
| "feed h (p # ps) env =
     (case h p env of (RC_ERR e, env') \<Rightarrow> (RC_ERR e, env') | (RC_OK, env') \<Rightarrow> feed h ps env')"

definition whole_part :: "ccsds_tc_segment \<Rightarrow> bytes \<Rightarrow> ccsds_tc_segment_part" where
  "whole_part segment d = \<lparr>part_map_id = map_id segment, segment_boundary = boundary segment,
     starts_packet = True, ends_packet = True, part_data = d, packet_len = length d\<rparr>"

lemma encoded_packet_len_bytes:
  assumes "packet_ok p"
  shows "encoded_packet_len (packet_bytes p @ rest) = length (packet_bytes p)"
proof -
  have len: "Suc (unat (word_of_nat (length (payload p) - Suc 0) :: u16)) = length (payload p)"
    using assms by (intro packet_length_field) (simp_all add: packet_ok_def)
  then show ?thesis by (simp add: encoded_packet_len_def packet_bytes_words del: of_nat_diff)
qed

lemma walk_loop_packet:
  assumes "packet_ok p" "drop offset (seg_data segment) = packet_bytes p @ rest"
  shows "walk_loop segment h offset env =
    (case h (whole_part segment (packet_bytes p)) env of
       (RC_ERR e, env') \<Rightarrow> (RC_ERR e, env')
     | (RC_OK, env') \<Rightarrow> walk_loop segment h (offset + length (packet_bytes p)) env')"
proof -
  have "length (seg_data segment) - offset = length (packet_bytes p @ rest)"
    by (metis assms(2) length_drop)
  moreover have "offset < length (seg_data segment)" using calculation by (auto simp: packet_bytes_def)
  ultimately show ?thesis
    by (subst walk_loop.simps) (simp add: Let_def assms encoded_packet_len_bytes emit_part_def whole_part_def
        split: prod.splits option.splits)
qed

lemma walk_loop_end: "length (seg_data segment) \<le> offset \<Longrightarrow> walk_loop segment h offset env = (RC_OK, env)"
  by (subst walk_loop.simps) simp

lemma walk_loop_junk:
  "offset + length junk = length (seg_data segment) \<Longrightarrow> junk \<noteq> [] \<Longrightarrow>
     drop offset (seg_data segment) = junk \<Longrightarrow>
     length junk < 6 \<or> length junk < encoded_packet_len junk \<Longrightarrow>
     walk_loop segment h offset env = (RC_ERR EINVAL, env)"
  by (subst walk_loop.simps) (auto simp: Let_def)

text \<open>A segment of whole packets followed by a truncated one (or by nothing).\<close>

definition truncated :: "bytes \<Rightarrow> bool" where
  "truncated junk \<longleftrightarrow> junk \<noteq> [] \<and> (length junk < 6 \<or> length junk < encoded_packet_len junk)"

lemma walk_loop_packets:
  assumes "\<forall>p\<in>set ps. packet_ok p" "junk = [] \<or> truncated junk"
    and "drop offset (seg_data segment) = concat (map packet_bytes ps) @ junk"
    and "offset \<le> length (seg_data segment)"
  shows "walk_loop segment h offset env =
    (case feed h (map (whole_part segment \<circ> packet_bytes) ps) env of
       (RC_ERR e, env') \<Rightarrow> (RC_ERR e, env')
     | (RC_OK, env') \<Rightarrow> (if junk = [] then RC_OK else RC_ERR EINVAL, env'))"
  using assms
proof (induction ps arbitrary: offset env)
  case Nil
  have "offset + length junk = length (seg_data segment)"
    using Nil.prems(3,4) by (metis append_Nil concat.simps(1) le_add_diff_inverse length_drop list.map(1))
  with Nil.prems show ?case
    by (cases "junk = []") (simp_all add: walk_loop_end walk_loop_junk truncated_def)
next
  case (Cons p ps)
  let ?rest = "concat (map packet_bytes ps) @ junk"
  have d: "drop offset (seg_data segment) = packet_bytes p @ ?rest" using Cons.prems(3) by simp
  have "length (seg_data segment) - offset = length (packet_bytes p @ ?rest)" by (metis d length_drop)
  then have "offset + length (packet_bytes p) \<le> length (seg_data segment)" using Cons.prems(4) by simp
  moreover have "drop (offset + length (packet_bytes p)) (seg_data segment) = ?rest"
    by (metis add.commute append_eq_conv_conj d drop_drop)
  ultimately have IH: "walk_loop segment h (offset + length (packet_bytes p)) env' =
      (case feed h (map (whole_part segment \<circ> packet_bytes) ps) env' of
         (RC_ERR e, env'') \<Rightarrow> (RC_ERR e, env'')
       | (RC_OK, env'') \<Rightarrow> (if junk = [] then RC_OK else RC_ERR EINVAL, env''))" for env'
    using Cons.prems by (intro Cons.IH) simp_all
  have "packet_ok p" using Cons.prems(1) by simp
  from walk_loop_packet [OF this d, of h env] show ?case
    by (simp add: IH comp_def del: length_packet_bytes split: prod.splits option.splits)
qed

text \<open>Whatever the handler keeps invariant, the walk does.\<close>

lemma walk_loop_inv:
  "(\<And>part env. I env \<Longrightarrow> I (snd (h part env))) \<Longrightarrow> I env \<Longrightarrow> I (snd (walk_loop segment h offset env))"
proof (induction segment h offset env rule: walk_loop.induct)
  case (1 segment h offset env)
  let ?d = "drop offset (seg_data segment)"
  let ?n = "encoded_packet_len ?d"
  show ?case
  proof (cases "offset < length (seg_data segment) \<and> \<not> length (seg_data segment) - offset < 6 \<and>
      \<not> ?n > length (seg_data segment) - offset")
    case False
    with 1(3) show ?thesis by (subst walk_loop.simps) (auto simp: Let_def)
  next
    case True
    obtain ret env' where e: "emit_part segment True True (take ?n ?d) ?n h env = (ret, env')" by fastforce
    have I': "I env'" using 1(2) [OF 1(3)] e by (metis emit_part_def snd_conv)
    have "I (snd (walk_loop segment h (offset + ?n) env'))" if "ret = RC_OK"
      using 1(1) [OF _ refl refl _ refl] True e that 1(2) I' by simp
    with True e I' show ?thesis by (subst walk_loop.simps) (simp add: Let_def split: option.splits)
  qed
qed

lemma walk_parts_inv:
  assumes "\<And>part env. I env \<Longrightarrow> I (snd (h part env))" "I env"
  shows "I (snd (ccsds_tc_segment_walk_parts segment h env))"
  using assms walk_loop_inv [of I h env segment 0]
  by (simp add: ccsds_tc_segment_walk_parts_def Let_def emit_part_def)

text \<open>A code the handler never returns in such states, other than the walk's own \<open>EINVAL\<close>, is not the result.\<close>

lemma walk_loop_never:
  "(\<And>part env. I env \<Longrightarrow> I (snd (h part env)) \<and> fst (h part env) \<noteq> RC_ERR e) \<Longrightarrow> I env \<Longrightarrow> e \<noteq> EINVAL \<Longrightarrow>
     fst (walk_loop segment h offset env) \<noteq> RC_ERR e"
proof (induction segment h offset env rule: walk_loop.induct)
  case (1 segment h offset env)
  let ?d = "drop offset (seg_data segment)"
  let ?n = "encoded_packet_len ?d"
  show ?case
  proof (cases "offset < length (seg_data segment) \<and> \<not> length (seg_data segment) - offset < 6 \<and>
      \<not> ?n > length (seg_data segment) - offset")
    case False
    with 1(4) show ?thesis by (subst walk_loop.simps) (auto simp: Let_def)
  next
    case True
    obtain ret env' where em: "emit_part segment True True (take ?n ?d) ?n h env = (ret, env')" by fastforce
    have I': "I env'" "ret \<noteq> RC_ERR e" using 1(2) [OF 1(3)] em by (metis emit_part_def snd_conv fst_conv)+
    have "fst (walk_loop segment h (offset + ?n) env') \<noteq> RC_ERR e" if "ret = RC_OK"
      using 1(1) [OF _ refl refl _ refl] True em that 1(2,4) I' by simp
    with True em I' show ?thesis by (subst walk_loop.simps) (auto simp: Let_def split: option.splits)
  qed
qed

lemma walk_parts_never:
  assumes "\<And>part env. I env \<Longrightarrow> I (snd (h part env)) \<and> fst (h part env) \<noteq> RC_ERR e" "I env" "e \<noteq> EINVAL"
  shows "fst (ccsds_tc_segment_walk_parts segment h env) \<noteq> RC_ERR e"
  using assms walk_loop_never [of I h e env segment 0]
  by (simp add: ccsds_tc_segment_walk_parts_def Let_def emit_part_def)

lemma boundary_of_last: "boundary_of w = CCSDS_TC_SEGMENT_UNSEGMENTED \<longleftrightarrow> w \<notin> {0, 1, 2}"
  by (auto simp: boundary_of_def)

section \<open>Properties\<close>

text \<open>
  Walking an unsegmented segment: for a sequence of well-formed packets the handler is
  called once per packet, in order, with exactly that packet's bytes, until it first returns
  an error; a truncated packet behind them makes the walk fail with \<open>EINVAL\<close> after the whole
  packets were handed over.
\<close>

theorem walk_parts_splits_packets:
  assumes "\<forall>p\<in>set ps. packet_ok p" "junk = [] \<or> truncated junk"
    and "boundary segment = CCSDS_TC_SEGMENT_UNSEGMENTED"
    and "seg_data segment = concat (map packet_bytes ps) @ junk" "seg_data segment \<noteq> []"
  shows "ccsds_tc_segment_walk_parts segment h env =
    (case feed h (map (whole_part segment \<circ> packet_bytes) ps) env of
       (RC_ERR e, env') \<Rightarrow> (RC_ERR e, env')
     | (RC_OK, env') \<Rightarrow> (if junk = [] then RC_OK else RC_ERR EINVAL, env'))"
proof -
  have "ccsds_tc_segment_walk_parts segment h env = walk_loop segment h 0 env"
    using assms(3,5) by (simp add: ccsds_tc_segment_walk_parts_def Let_def)
  with walk_loop_packets [OF assms(1,2), of 0 segment h env] assms(4) show ?thesis by simp
qed

theorem walk_parts_splits_packets_witness:
  "ccsds_tc_segment_walk_parts
     \<lparr>boundary = CCSDS_TC_SEGMENT_UNSEGMENTED, map_id = 3,
      seg_data = [0x10, 1, 0xc0, 0, 0, 0, 7] @ [0x10, 2, 0xc0, 0, 0, 1, 8, 9] @ [0x10, 3]\<rparr>
     (\<lambda>part env. (RC_OK, env @ [part_data part])) [] =
   (RC_ERR EINVAL, [[0x10, 1, 0xc0, 0, 0, 0, 7], [0x10, 2, 0xc0, 0, 0, 1, 8, 9]])"
proof -
  let ?p = "\<lparr>version = 0, packet_type = CCSDS_PACKET_TYPE_TC, secondary_header = False, apid = 1,
    sequence_flags = CCSDS_SEQUENCE_UNSEGMENTED, sequence_count = 0, payload = [7]\<rparr>"
  let ?q = "\<lparr>version = 0, packet_type = CCSDS_PACKET_TYPE_TC, secondary_header = False, apid = 2,
    sequence_flags = CCSDS_SEQUENCE_UNSEGMENTED, sequence_count = 0, payload = [8, 9]\<rparr>"
  let ?seg = "\<lparr>boundary = CCSDS_TC_SEGMENT_UNSEGMENTED, map_id = 3,
      seg_data = [0x10, 1, 0xc0, 0, 0, 0, 7] @ [0x10, 2, 0xc0, 0, 0, 1, 8, 9] @ [0x10, 3]\<rparr>"
  have b: "packet_bytes ?p = [0x10, 1, 0xc0, 0, 0, 0, 7]" "packet_bytes ?q = [0x10, 2, 0xc0, 0, 0, 1, 8, 9]"
    by (simp_all add: packet_bytes_def packet_word0_def packet_word1_def put_be16_def)
  show ?thesis
    using walk_parts_splits_packets [of "[?p, ?q]" "[0x10, 3]" ?seg
        "\<lambda>part env. (RC_OK, env @ [part_data part])" "[]"]
    by (simp add: b packet_ok_def CCSDS_APID_MAX_def truncated_def whole_part_def)
qed

end
