(* ===== verification/Farm.thy ===== *)
theory Farm
  imports Tc_Frame
begin

unbundle bit_operations_syntax

text \<open>
  The FARM part of the telecommand receive profile (\<^verbatim>\<open>src/ccsds_profile.c\<close>): the virtual-channel
  state, the sequence check of Type-A frames, the control commands UNLOCK and SET V(R), and
  the CLCW built from that state.  The code is proved to refine a FARM machine that works on
  distances between sequence numbers.
\<close>

section \<open>The code\<close>

record ccsds_profile_tc_vc_state =
  no_rf_available_flag :: bool
  no_bit_lock_flag :: bool
  wait_flag :: bool
  lockout_flag :: bool
  retransmit_flag :: bool
  farm_b_counter :: u8
  report_value :: u8

definition zero_vc_state :: ccsds_profile_tc_vc_state where
  "zero_vc_state = \<lparr>no_rf_available_flag = False, no_bit_lock_flag = False, wait_flag = False,
     lockout_flag = False, retransmit_flag = False, farm_b_counter = 0, report_value = 0\<rparr>"

definition CCSDS_TC_CONTROL_UNLOCK :: u8 where "CCSDS_TC_CONTROL_UNLOCK = 0x00"
definition CCSDS_TC_CONTROL_SET_VR :: u8 where "CCSDS_TC_CONTROL_SET_VR = 0x82"
definition CCSDS_TC_CONTROL_SET_VR_QUALIFIER :: u8 where "CCSDS_TC_CONTROL_SET_VR_QUALIFIER = 0x00"

definition CCSDS_TC_COP1_HALF_WINDOW :: "ccsds_config \<Rightarrow> nat" where
  "CCSDS_TC_COP1_HALF_WINDOW cfg = CCSDS_COP1_WINDOW_SIZE cfg div 2"

definition handle_tc_control_frame ::
  "ccsds_profile_tc_vc_state \<Rightarrow> ccsds_tc_frame \<Rightarrow> rc \<times> ccsds_profile_tc_vc_state" where
  "handle_tc_control_frame vc frame =
     (let d = tc_data frame in
      if length d = 0 then (RC_ERR EINVAL, vc)
      else if d ! 0 = CCSDS_TC_CONTROL_UNLOCK
      then (RC_OK, vc\<lparr>lockout_flag := False, retransmit_flag := False\<rparr>)
      else if lockout_flag vc then (RC_ERR EACCES, vc)
      else if length d \<ge> 3 \<and> d ! 0 = CCSDS_TC_CONTROL_SET_VR \<and> d ! 1 = CCSDS_TC_CONTROL_SET_VR_QUALIFIER
      then (RC_OK, vc\<lparr>report_value := d ! 2, retransmit_flag := False\<rparr>)
      else (RC_ERR ENOTSUP, vc))"

definition update_tc_sequence_state ::
  "ccsds_config \<Rightarrow> ccsds_profile_tc_vc_state \<Rightarrow> ccsds_tc_frame \<Rightarrow> rc \<times> ccsds_profile_tc_vc_state" where
  "update_tc_sequence_state cfg vc frame =
     (if lockout_flag vc then (RC_ERR EACCES, vc)
      else if bypass frame \<or> control_command frame then (RC_OK, vc)
      else
        let expected_fsn = report_value vc;
            received_fsn = frame_sequence_number frame
        in if received_fsn = expected_fsn
           then (RC_OK, vc\<lparr>report_value := expected_fsn + 1, retransmit_flag := False\<rparr>)
           else if expected_fsn - received_fsn < (word_of_nat (CCSDS_TC_COP1_HALF_WINDOW cfg) :: u8)
           then (RC_ERR EAGAIN, vc)
           else if received_fsn - expected_fsn < (word_of_nat (CCSDS_TC_COP1_HALF_WINDOW cfg) :: u8)
           then (RC_ERR EAGAIN, vc\<lparr>retransmit_flag := True\<rparr>)
           else (RC_ERR EAGAIN, vc\<lparr>lockout_flag := True\<rparr>))"

definition build_clcw :: "u8 \<Rightarrow> ccsds_profile_tc_vc_state \<Rightarrow> errno + u32" where
  "build_clcw accepted_vcid vc =
     (if accepted_vcid \<ge> 64 then Inl EINVAL
      else Inr (push_bit 31 (0 AND 0x1) OR push_bit 29 (0 AND 0x3) OR push_bit 26 (0 AND 0x7) OR
                push_bit 24 (1 AND 0x3) OR push_bit 18 (ucast (accepted_vcid AND 0x3f)) OR
                push_bit 15 (if no_rf_available_flag vc then 1 else 0) OR
                push_bit 14 (if no_bit_lock_flag vc then 1 else 0) OR
                push_bit 13 (if lockout_flag vc then 1 else 0) OR
                push_bit 12 (if wait_flag vc then 1 else 0) OR
                push_bit 11 (if retransmit_flag vc then 1 else 0) OR
                push_bit 9 (ucast (farm_b_counter vc AND 0x3)) OR
                ucast (report_value vc)))"

section \<open>The FARM machine\<close>

text \<open>
  The specification: \<open>V(R)\<close> is a number modulo 256; a Type-A frame is judged by how far its
  number lies ahead of \<open>V(R)\<close>, with half a window on either side.
\<close>

record farm =
  vr :: nat
  locked :: bool
  retransmit :: bool

datatype farm_event = Type_A nat | Type_B | Unlock | Set_VR nat

datatype farm_verdict = Accept | Discard | Refused

fun farm_step :: "nat \<Rightarrow> farm \<Rightarrow> farm_event \<Rightarrow> farm_verdict \<times> farm" where
  "farm_step half f (Type_A n) =
     (if locked f then (Refused, f)
      else let ahead = (n + 256 - vr f) mod 256
      in if ahead = 0 then (Accept, f\<lparr>vr := (vr f + 1) mod 256, retransmit := False\<rparr>)
         else if 256 - ahead < half then (Discard, f)
         else if ahead < half then (Discard, f\<lparr>retransmit := True\<rparr>)
         else (Discard, f\<lparr>locked := True\<rparr>))"
| "farm_step half f Type_B = (if locked f then Refused else Accept, f)"
| "farm_step half f Unlock = (Accept, f\<lparr>locked := False, retransmit := False\<rparr>)"
| "farm_step half f (Set_VR v) =
     (if locked f then (Refused, f) else (Accept, f\<lparr>vr := v, retransmit := False\<rparr>))"

text \<open>The frames that carry these events, and the code's answer to them.\<close>

fun event_frame :: "ccsds_tc_frame \<Rightarrow> farm_event \<Rightarrow> ccsds_tc_frame" where
  "event_frame f (Type_A n) = f\<lparr>bypass := False, control_command := False, frame_sequence_number := word_of_nat n\<rparr>"
| "event_frame f Type_B = f\<lparr>bypass := True, control_command := False\<rparr>"
| "event_frame f Unlock = f\<lparr>bypass := True, control_command := True, tc_data := [0x00]\<rparr>"
| "event_frame f (Set_VR v) = f\<lparr>bypass := True, control_command := True, tc_data := [0x82, 0x00, word_of_nat v]\<rparr>"

fun event_ok :: "farm_event \<Rightarrow> bool" where
  "event_ok (Type_A n) = (n < 256)"
| "event_ok (Set_VR v) = (v < 256)"
| "event_ok _ = True"

definition farm_of :: "ccsds_profile_tc_vc_state \<Rightarrow> farm" where
  "farm_of vc = \<lparr>vr = unat (report_value vc), locked = lockout_flag vc, retransmit = retransmit_flag vc\<rparr>"

fun verdict_of :: "rc \<Rightarrow> farm_verdict" where
  "verdict_of RC_OK = Accept"
| "verdict_of (RC_ERR EACCES) = Refused"
| "verdict_of (RC_ERR _) = Discard"

definition vc_step ::
  "ccsds_config \<Rightarrow> ccsds_profile_tc_vc_state \<Rightarrow> ccsds_tc_frame \<Rightarrow> rc \<times> ccsds_profile_tc_vc_state" where
  "vc_step cfg vc frame =
     (if control_command frame then handle_tc_control_frame vc frame
      else update_tc_sequence_state cfg vc frame)"

lemma u8_diff_unat: "unat ((a :: u8) - b) = (unat a + 256 - unat b) mod 256"
proof (cases "unat b \<le> unat a")
  case True
  then have d: "unat (a - b) = unat a - unat b" by (intro unat_sub) (simp add: word_le_nat_alt)
  have "unat a + 256 - unat b = (unat a - unat b) + 256" using True by simp
  then have "(unat a + 256 - unat b) mod 256 = (unat a - unat b) mod 256" by (simp only: mod_add_self2)
  also have "\<dots> = unat a - unat b" using unat_u8_less [of a] by (intro mod_less) linarith
  finally show ?thesis using d by (simp only:)
next
  case False
  then have d: "unat (a - b) = unat a + 256 - unat b" using unat_sub_if' [of a b] by simp
  have "unat a + 256 - unat b < 256" using False by simp
  then have "(unat a + 256 - unat b) mod 256 = unat a + 256 - unat b" by (rule mod_less)
  with d show ?thesis by (simp only:)
qed

lemma u8_of_nat: "n < 256 \<Longrightarrow> unat (word_of_nat n :: u8) = n"
  by (simp add: unsigned_of_nat take_bit_nat_eq_self)

lemma ahead_behind:
  fixes a b :: u8
  assumes "a \<noteq> b" "ahead = (unat a + 256 - unat b) mod 256"
  shows "ahead \<noteq> 0" "unat (a - b) = ahead" "unat (b - a) = 256 - ahead"
proof -
  have "a - b \<noteq> 0" using assms(1) by simp
  then show nz: "ahead \<noteq> 0" using assms(2) by (simp flip: u8_diff_unat add: unat_eq_zero)
  show ab: "unat (a - b) = ahead" using assms(2) by (simp add: u8_diff_unat)
  have "unat a \<noteq> unat b" using assms(1) by (auto dest: unsigned_word_eqI)
  then consider "unat a < unat b" | "unat b < unat a" by linarith
  then show "unat (b - a) = 256 - ahead"
  proof cases
    case 1
    then have "unat (b - a) = unat b - unat a" by (intro unat_sub) (simp add: word_le_nat_alt)
    moreover have "ahead = unat a + 256 - unat b" using 1 assms(2) by simp
    ultimately show ?thesis using 1 unat_u8_less [of b] by linarith
  next
    case 2
    then have "unat (a - b) = unat a - unat b" by (intro unat_sub) (simp add: word_le_nat_alt)
    moreover have "unat (b - a) = unat b + 256 - unat a" using 2 by (simp add: u8_diff_unat)
    ultimately show ?thesis using 2 ab unat_u8_less [of a] by linarith
  qed
qed

lemma farm_refines_type_a:
  assumes "n < 256" "half < 256" "half = CCSDS_TC_COP1_HALF_WINDOW cfg"
  shows "map_prod verdict_of farm_of (update_tc_sequence_state cfg vc (event_frame f (Type_A n))) =
    farm_step half (farm_of vc) (Type_A n)"
proof -
  let ?ns = "word_of_nat n :: u8" and ?half = "word_of_nat half :: u8"
  define ahead where "ahead = (n + 256 - unat (report_value vc)) mod 256"
  have lt: "x < ?half \<longleftrightarrow> unat x < half" for x using assms(2) by (simp add: word_less_nat_alt u8_of_nat)
  show ?thesis
  proof (cases "?ns = report_value vc")
    case True
    then have "unat (report_value vc) = n" using assms(1) by (metis u8_of_nat)
    moreover have "unat (report_value vc + 1) = (unat (report_value vc) + 1) mod 256"
      by (simp add: unat_word_ariths(1))
    ultimately show ?thesis
      using True by (simp add: update_tc_sequence_state_def farm_of_def Let_def)
  next
    case False
    note ab = ahead_behind [OF False, of ahead]
    have "ahead = (unat ?ns + 256 - unat (report_value vc)) mod 256"
      using assms(1) by (simp add: ahead_def u8_of_nat)
    from ab [OF this] False show ?thesis
      by (simp add: update_tc_sequence_state_def farm_of_def lt assms(3) [symmetric] Let_def
          flip: ahead_def)
  qed
qed

lemma farm_refines_step:
  assumes "event_ok e" "half < 256" "half = CCSDS_TC_COP1_HALF_WINDOW cfg"
  shows "map_prod verdict_of farm_of (vc_step cfg vc (event_frame f e)) = farm_step half (farm_of vc) e"
proof (cases e)
  case (Type_A n)
  with farm_refines_type_a [OF _ assms(2,3), of n vc f] assms(1) show ?thesis by (simp add: vc_step_def)
qed (use assms(1) in \<open>simp_all add: vc_step_def handle_tc_control_frame_def update_tc_sequence_state_def
  farm_of_def Let_def CCSDS_TC_CONTROL_UNLOCK_def CCSDS_TC_CONTROL_SET_VR_def
  CCSDS_TC_CONTROL_SET_VR_QUALIFIER_def u8_of_nat\<close>)

section \<open>Sessions\<close>

definition farm_session ::
  "ccsds_config \<Rightarrow> ccsds_profile_tc_vc_state \<Rightarrow> farm_event \<Rightarrow> farm_verdict \<times> ccsds_profile_tc_vc_state" where
  "farm_session cfg vc e = map_prod verdict_of id (vc_step cfg vc
     (event_frame \<lparr>spacecraft_id = 0, virtual_channel_id = 0, bypass = False, control_command = False,
        frame_sequence_number = 0, tc_data = []\<rparr> e))"

text \<open>
  Events carry eight-bit numbers; the machines compared take any event whose numbers are
  reduced first, so that the simulation holds of every event sequence.
\<close>

fun reduce :: "farm_event \<Rightarrow> farm_event" where
  "reduce (Type_A n) = Type_A (n mod 256)"
| "reduce (Set_VR v) = Set_VR (v mod 256)"
| "reduce Type_B = Type_B"
| "reduce Unlock = Unlock"

lemma event_ok_reduce [simp]: "event_ok (reduce e)"
  by (cases e) simp_all

interpretation farm: simulation "\<lambda>vc e. farm_session cfg vc (reduce e)"
  "\<lambda>f e. farm_step (CCSDS_TC_COP1_HALF_WINDOW cfg) f (reduce e)" farm_of
  "\<lambda>vc. CCSDS_TC_COP1_HALF_WINDOW cfg < 256" for cfg
proof unfold_locales
  fix s c
  assume h: "CCSDS_TC_COP1_HALF_WINDOW cfg < 256"
  show "map_prod id farm_of (farm_session cfg s (reduce c)) =
    farm_step (CCSDS_TC_COP1_HALF_WINDOW cfg) (farm_of s) (reduce c)"
    using farm_refines_step [OF event_ok_reduce h refl] by (simp add: farm_session_def map_prod.compositionality)
qed

lemma lockout_kept:
  assumes "lockout_flag vc" "\<not> (control_command frame \<and> tc_data frame \<noteq> [] \<and> tc_data frame ! 0 = 0)"
  shows "lockout_flag (snd (vc_step cfg vc frame)) \<and> fst (vc_step cfg vc frame) \<noteq> RC_OK \<and>
    report_value (snd (vc_step cfg vc frame)) = report_value vc"
  using assms
  by (auto simp: vc_step_def handle_tc_control_frame_def update_tc_sequence_state_def Let_def
      CCSDS_TC_CONTROL_UNLOCK_def)

section \<open>Properties\<close>

text \<open>
  C15. The receiver's sequence control is a FARM: over any sequence of Type-A frames, Type-B
  frames, UNLOCK and SET V(R) commands, the verdicts and the resulting \<open>V(R)\<close>, lockout and
  retransmit flags of the code are those of the specification, which judges a Type-A frame by
  how far its number lies ahead of \<open>V(R)\<close> modulo 256: exactly the expected number is accepted,
  a number less than half a window behind is a duplicate, less than half a window ahead
  requests retransmission, and anything else locks the channel.
\<close>

theorem farm_refinement:
  assumes "config_ok cfg"
  shows "map_prod id farm_of (session (\<lambda>vc e. farm_session cfg vc (reduce e)) vc es) =
    session (\<lambda>f e. farm_step (CCSDS_TC_COP1_HALF_WINDOW cfg) f (reduce e)) (farm_of vc) es"
  using assms by (intro farm.session_sim) (auto simp: config_ok_def CCSDS_TC_COP1_HALF_WINDOW_def)

theorem farm_refinement_witness:
  "map_prod id farm_of (session (\<lambda>vc e. farm_session default_config vc (reduce e)) zero_vc_state
     [Type_A 0, Type_A 1, Type_A 3, Type_A 100, Type_A 2, Unlock, Type_A 2]) =
   ([Accept, Accept, Discard, Discard, Refused, Accept, Accept],
    \<lparr>vr = 3, locked = False, retransmit = False\<rparr>)"
  using farm_refinement [OF config_ok_default, of zero_vc_state
      "[Type_A 0, Type_A 1, Type_A 3, Type_A 100, Type_A 2, Unlock, Type_A 2]"]
  by (simp add: farm_of_def zero_vc_state_def CCSDS_TC_COP1_HALF_WINDOW_def default_config_def)

text \<open>
  Lockout holds until UNLOCK: once the channel is locked, no sequence of frames other
  than an UNLOCK command releases it, none of them is accepted, and \<open>V(R)\<close> does not move.
\<close>

theorem farm_lockout_until_unlock:
  assumes "lockout_flag vc"
    and "\<forall>f\<in>set fs. \<not> (control_command f \<and> tc_data f \<noteq> [] \<and> tc_data f ! 0 = 0)"
  shows "(\<forall>r\<in>set (fst (session (vc_step cfg) vc fs)). r \<noteq> RC_OK) \<and>
    lockout_flag (snd (session (vc_step cfg) vc fs)) \<and>
    report_value (snd (session (vc_step cfg) vc fs)) = report_value vc"
  using assms
proof (induction fs arbitrary: vc)
  case (Cons f fs)
  have f: "\<not> (control_command f \<and> tc_data f \<noteq> [] \<and> tc_data f ! 0 = 0)" using Cons.prems(2) by simp
  note step = lockout_kept [OF Cons.prems(1) f, of cfg]
  with Cons.IH [of "snd (vc_step cfg vc f)"] Cons.prems(2) show ?case
    by (auto simp: case_prod_beta)
qed simp

theorem farm_lockout_until_unlock_witness:
  "lockout_flag (snd (session (vc_step default_config) (zero_vc_state\<lparr>lockout_flag := True\<rparr>)
     [\<lparr>spacecraft_id = 123, virtual_channel_id = 0, bypass = False, control_command = False,
       frame_sequence_number = 0, tc_data = []\<rparr>,
      \<lparr>spacecraft_id = 123, virtual_channel_id = 0, bypass = True, control_command = True,
       frame_sequence_number = 0, tc_data = [0x82, 0, 0]\<rparr>]))"
  by (rule farm_lockout_until_unlock [THEN conjunct2, THEN conjunct1]) simp_all

lemma clcw_bits:
  assumes "build_clcw vcid vc = Inr w"
  shows "bit w n \<longleftrightarrow>
    n < 8 \<and> bit (report_value vc) n \<or> 9 \<le> n \<and> n < 11 \<and> bit (farm_b_counter vc) (n - 9) \<or>
    n = 11 \<and> retransmit_flag vc \<or> n = 12 \<and> wait_flag vc \<or> n = 13 \<and> lockout_flag vc \<or>
    n = 14 \<and> no_bit_lock_flag vc \<or> n = 15 \<and> no_rf_available_flag vc \<or>
    18 \<le> n \<and> n < 24 \<and> bit vcid (n - 18) \<or> n = 24"
proof -
  have w: "w = push_bit 24 1 OR push_bit 18 (ucast (take_bit 6 vcid)) OR
      push_bit 15 (if no_rf_available_flag vc then 1 else 0) OR
      push_bit 14 (if no_bit_lock_flag vc then 1 else 0) OR
      push_bit 13 (if lockout_flag vc then 1 else 0) OR
      push_bit 12 (if wait_flag vc then 1 else 0) OR
      push_bit 11 (if retransmit_flag vc then 1 else 0) OR
      push_bit 9 (ucast (take_bit 2 (farm_b_counter vc))) OR ucast (report_value vc)"
    using assms by (simp add: build_clcw_def mask_simps split: if_splits)
  have flag: "bit (push_bit k (if b then 1 else 0) :: u32) n \<longleftrightarrow> n = k \<and> b" if "k < 32" for k b
    using that by (auto simp: bit_push_bit_iff bit_1_iff)
  have cop: "bit (push_bit 24 1 :: u32) n \<longleftrightarrow> n = 24" using flag [of 24 True] by simp
  have vc: "bit (push_bit 18 (ucast (take_bit 6 vcid)) :: u32) n \<longleftrightarrow> 18 \<le> n \<and> n < 24 \<and> bit vcid (n - 18)"
    by (auto simp: bit_push_bit_iff bit_unsigned_iff bit_take_bit_iff)
  have b: "bit (push_bit 9 (ucast (take_bit 2 (farm_b_counter vc))) :: u32) n \<longleftrightarrow>
      9 \<le> n \<and> n < 11 \<and> bit (farm_b_counter vc) (n - 9)"
    by (auto simp: bit_push_bit_iff bit_unsigned_iff bit_take_bit_iff)
  have rv: "bit (ucast (report_value vc) :: u32) n \<longleftrightarrow> n < 8 \<and> bit (report_value vc) n"
    by (auto simp: bit_unsigned_iff dest: bit_imp_le_length)
  show ?thesis
    unfolding w bit_or_iff cop vc b rv by (simp add: flag) blast
qed

text \<open>
  CLCW layout: the word the code builds decodes, at the bit positions of the CLCW format,
  to the configured channel, the five flags, the two low bits of the FARM-B counter, \<open>V(R)\<close>, and
  COP-1 in effect; it is refused exactly for a channel number of 64 or more.
\<close>

theorem clcw_fields:
  "case build_clcw vcid vc of
     Inl e \<Rightarrow> e = EINVAL \<and> 64 \<le> vcid
   | Inr w \<Rightarrow> vcid < 64 \<and> ucast (drop_bit 18 w) AND 0x3f = vcid \<and>
       bit w 15 = no_rf_available_flag vc \<and> bit w 14 = no_bit_lock_flag vc \<and>
       bit w 13 = lockout_flag vc \<and> bit w 12 = wait_flag vc \<and> bit w 11 = retransmit_flag vc \<and>
       ucast (drop_bit 9 w) AND 0x3 = farm_b_counter vc AND 0x3 \<and> ucast w = report_value vc \<and>
       drop_bit 24 w = 1"
proof (cases "build_clcw vcid vc")
  case (Inl e)
  then show ?thesis by (simp add: build_clcw_def split: if_splits)
next
  case (Inr w)
  note bits = clcw_bits [OF Inr]
  have v: "vcid < 64" using Inr by (simp add: build_clcw_def not_le split: if_splits)
  then have "take_bit 6 vcid = vcid" by (intro word_le_take_bit) simp
  then have v6: "bit vcid n \<Longrightarrow> n < 6" for n by (metis bit_take_bit_iff)
  have "ucast (drop_bit 18 w) AND 0x3f = vcid"
    by (rule bit_word_eqI) (auto simp: mask_simps bit_simps bits dest: v6)
  moreover have "ucast (drop_bit 9 w) AND 0x3 = farm_b_counter vc AND 0x3"
    by (rule bit_word_eqI) (auto simp: mask_simps bit_simps bits)
  moreover have "ucast w = report_value vc" by (rule bit_word_eqI) (auto simp: bit_simps bits)
  moreover have "drop_bit 24 w = 1"
    by (rule bit_word_eqI) (auto simp: bit_simps bits bit_1_iff)
  ultimately show ?thesis using Inr v by (simp add: bits)
qed

end
