(* ===== verification/Sdls.thy ===== *)
theory Sdls
  imports Ccsds_Prelude
begin

unbundle bit_operations_syntax

text \<open>
  SDLS wire processing (\<^verbatim>\<open>src/ccsds_sdls.c\<close>, types from \<^verbatim>\<open>ccsds_sdls.h\<close>, and the event ring of
  \<^verbatim>\<open>ccsds_sdls_event_record\<close> in \<^verbatim>\<open>src/ccsds_sdls_ep.c\<close>).  The context is one record, with its
  fixed arrays as lists.  The PSA calls \<^verbatim>\<open>psa_aead_encrypt\<close> and \<^verbatim>\<open>psa_aead_decrypt\<close> are
  parameters, functions of the key reference, the IV, the additional data and the input, with
  a failure status or the output bytes (whose number is the reported length).  The workspace
  holds intermediate bytes only and is wiped, so it does not appear; the \<^verbatim>\<open>__ASSERT\<close>ed caller
  contracts are not checked by the code and are hypotheses where a theorem needs them.
\<close>

section \<open>Types\<close>

record sdls_config =
  CCSDS_SDLS_MAX_SA :: nat
  CCSDS_SDLS_MAX_KEYS :: nat
  CCSDS_SDLS_SESSION_KEY_BASE :: nat
  CCSDS_SDLS_ARSN_WINDOW :: u32
  CCSDS_SDLS_EVENT_LOG_CAPACITY :: nat
  CCSDS_SDLS_IV_SEED_HIGH :: u32
  CCSDS_SDLS_IV_SEED_LOW :: u32

definition default_sdls_config :: sdls_config where
  "default_sdls_config = \<lparr>CCSDS_SDLS_MAX_SA = 4, CCSDS_SDLS_MAX_KEYS = 8,
     CCSDS_SDLS_SESSION_KEY_BASE = 4, CCSDS_SDLS_ARSN_WINDOW = 1024,
     CCSDS_SDLS_EVENT_LOG_CAPACITY = 8, CCSDS_SDLS_IV_SEED_HIGH = 0, CCSDS_SDLS_IV_SEED_LOW = 0\<rparr>"

definition sdls_config_ok :: "sdls_config \<Rightarrow> bool" where
  "sdls_config_ok cfg \<longleftrightarrow>
     1 \<le> CCSDS_SDLS_MAX_SA cfg \<and> CCSDS_SDLS_MAX_SA cfg \<le> 255 \<and>
     2 \<le> CCSDS_SDLS_MAX_KEYS cfg \<and> CCSDS_SDLS_MAX_KEYS cfg \<le> 255 \<and>
     0 < CCSDS_SDLS_SESSION_KEY_BASE cfg \<and> CCSDS_SDLS_SESSION_KEY_BASE cfg < CCSDS_SDLS_MAX_KEYS cfg \<and>
     0 < CCSDS_SDLS_ARSN_WINDOW cfg \<and>
     1 \<le> CCSDS_SDLS_EVENT_LOG_CAPACITY cfg \<and> CCSDS_SDLS_EVENT_LOG_CAPACITY cfg \<le> 255"

datatype ccsds_sdls_event_code =
    CCSDS_SDLS_EVENT_FORMAT | CCSDS_SDLS_EVENT_AUTHENTICATION | CCSDS_SDLS_EVENT_STALE_ARSN
  | CCSDS_SDLS_EVENT_ARSN_GAP | CCSDS_SDLS_EVENT_UNKNOWN_SA | CCSDS_SDLS_EVENT_SA_STATE
  | CCSDS_SDLS_EVENT_KEY_ID | CCSDS_SDLS_EVENT_KEY_STATE | CCSDS_SDLS_EVENT_KEY_TRANSITION
  | CCSDS_SDLS_EVENT_SA_TRANSITION | CCSDS_SDLS_EVENT_OTAR_AUTHENTICATION
  | CCSDS_SDLS_EVENT_SELF_TEST | CCSDS_SDLS_EVENT_PSA | CCSDS_SDLS_EVENT_UNSUPPORTED
  | CCSDS_SDLS_EVENT_CAPACITY

datatype ccsds_sdls_sa_state = CCSDS_SDLS_SA_STOPPED | CCSDS_SDLS_SA_OPERATIONAL | CCSDS_SDLS_SA_EXPIRED

datatype ccsds_sdls_sa_role =
    CCSDS_SDLS_SA_EP_COMMAND_RX | CCSDS_SDLS_SA_EP_REPLY_TX
  | CCSDS_SDLS_SA_OPERATIONAL_TC_RX | CCSDS_SDLS_SA_OPERATIONAL_TM_TX

datatype ccsds_sdls_security_mode = CCSDS_SDLS_MODE_GMAC | CCSDS_SDLS_MODE_GCM | CCSDS_SDLS_MODE_CLEAR

datatype ccsds_sdls_key_state = CCSDS_SDLS_KEY_PREACTIVE | CCSDS_SDLS_KEY_ACTIVE | CCSDS_SDLS_KEY_DEACTIVATED

record ccsds_sdls_security_header =
  header_spi :: u16
  header_iv :: bytes

record ccsds_sdls_sa =
  rx_arsn :: u32
  rx_window :: u32
  key_slot :: u8
  sa_state :: ccsds_sdls_sa_state
  last_procedure :: u8
  rx_arsn_initialized :: bool
  configured :: bool

record ccsds_sdls_key =
  psa_key_id :: u32
  tx_arsn :: u32
  key_state :: ccsds_sdls_key_state

record ccsds_sdls_sa_init =
  init_spi :: u16
  init_key_id :: u16
  init_rx_arsn :: u32
  init_role :: ccsds_sdls_sa_role
  init_mode :: ccsds_sdls_security_mode
  init_sa_state :: ccsds_sdls_sa_state
  has_key :: bool
  init_rx_arsn_initialized :: bool

record ccsds_sdls_key_init =
  init_psa_key_id :: u32
  key_id :: u16
  init_key_state :: ccsds_sdls_key_state

record ccsds_sdls_auth_header =
  auth_data :: bytes
  auth_mask :: bytes

record ccsds_sdls_fsr =
  last_spi :: u16
  last_arsn_lsb :: u8
  alarm :: bool
  bad_sequence :: bool
  bad_mac :: bool
  bad_sa :: bool

record ccsds_sdls_event =
  pdu_or_event_tag :: u8
  event_code :: "ccsds_sdls_event_code option"
  event_spi :: u16
  event_arsn :: u32

record 'cb ccsds_sdls_ctx =
  sas :: "ccsds_sdls_sa list"
  keys :: "ccsds_sdls_key list"
  sa_roles :: "ccsds_sdls_sa_role list"
  sa_modes :: "ccsds_sdls_security_mode list"
  tx_iv :: u64
  fsr :: ccsds_sdls_fsr
  events :: "ccsds_sdls_event list"
  self_test :: "'cb option"
  authenticated_rx_arsn :: u32
  authenticated_rx_spi :: u16
  event_read_index :: nat
  event_write_index :: nat
  event_count :: nat
  event_overwrites :: u8
  fsr_enabled :: bool
  fsr_next :: bool
  authenticated_rx_valid :: bool
  authenticated_rx_dispatching :: bool

section \<open>Initialisation and lookup\<close>

definition CCSDS_SDLS_KEY_SLOT_NONE :: u8 where "CCSDS_SDLS_KEY_SLOT_NONE = 255"
definition PSA_KEY_ID_NULL :: u32 where "PSA_KEY_ID_NULL = 0"
definition CCSDS_SDLS_IV_STRIDE :: u64 where "CCSDS_SDLS_IV_STRIDE = 0x9e3779b97f4a7c15"

definition CCSDS_SDLS_IV_SEED :: "sdls_config \<Rightarrow> u64" where
  "CCSDS_SDLS_IV_SEED cfg =
     push_bit 32 (ucast (CCSDS_SDLS_IV_SEED_HIGH cfg)) OR ucast (CCSDS_SDLS_IV_SEED_LOW cfg)"

definition ccsds_sdls_tm_default_auth_mask :: bytes where
  "ccsds_sdls_tm_default_auth_mask = [0x3f, 0xfe, 0x00, 0x00, 0x00, 0x00]"

definition ccsds_sdls_tc_default_auth_mask :: bytes where
  "ccsds_sdls_tc_default_auth_mask = [0x03, 0xff, 0xfc, 0x00, 0x00]"

definition zero_sa :: ccsds_sdls_sa where
  "zero_sa = \<lparr>rx_arsn = 0, rx_window = 0, key_slot = 0, sa_state = CCSDS_SDLS_SA_STOPPED,
     last_procedure = 0, rx_arsn_initialized = False, configured = False\<rparr>"

definition zero_key :: ccsds_sdls_key where
  "zero_key = \<lparr>psa_key_id = PSA_KEY_ID_NULL, tx_arsn = 0, key_state = CCSDS_SDLS_KEY_PREACTIVE\<rparr>"

text \<open>\<open>memset\<close> of the context, then the seed; a zeroed event has no event code.\<close>

definition zero_ctx :: "sdls_config \<Rightarrow> 'cb ccsds_sdls_ctx" where
  "zero_ctx cfg = \<lparr>
     sas = replicate (CCSDS_SDLS_MAX_SA cfg) zero_sa,
     keys = replicate (CCSDS_SDLS_MAX_KEYS cfg) zero_key,
     sa_roles = replicate (CCSDS_SDLS_MAX_SA cfg) CCSDS_SDLS_SA_EP_COMMAND_RX,
     sa_modes = replicate (CCSDS_SDLS_MAX_SA cfg) CCSDS_SDLS_MODE_GMAC,
     tx_iv = CCSDS_SDLS_IV_SEED cfg,
     fsr = \<lparr>last_spi = 0, last_arsn_lsb = 0, alarm = False, bad_sequence = False,
            bad_mac = False, bad_sa = False\<rparr>,
     events = replicate (CCSDS_SDLS_EVENT_LOG_CAPACITY cfg)
       \<lparr>pdu_or_event_tag = 0, event_code = None, event_spi = 0, event_arsn = 0\<rparr>,
     self_test = None,
     authenticated_rx_arsn = 0, authenticated_rx_spi = 0,
     event_read_index = 0, event_write_index = 0, event_count = 0, event_overwrites = 0,
     fsr_enabled = False, fsr_next = False,
     authenticated_rx_valid = False, authenticated_rx_dispatching = False\<rparr>"

definition init_key :: "'cb ccsds_sdls_ctx \<Rightarrow> ccsds_sdls_key_init \<Rightarrow> 'cb ccsds_sdls_ctx" where
  "init_key ctx k =
     ctx\<lparr>keys := (keys ctx)[unat (key_id k) :=
       (keys ctx ! unat (key_id k))\<lparr>psa_key_id := init_psa_key_id k, key_state := init_key_state k\<rparr>]\<rparr>"

definition init_sa :: "sdls_config \<Rightarrow> 'cb ccsds_sdls_ctx \<Rightarrow> ccsds_sdls_sa_init \<Rightarrow> 'cb ccsds_sdls_ctx" where
  "init_sa cfg ctx s =
     (let sa_slot = unat (init_spi s) - 1
      in ctx\<lparr>sa_roles := (sa_roles ctx)[sa_slot := init_role s],
             sa_modes := (sa_modes ctx)[sa_slot := init_mode s],
             sas := (sas ctx)[sa_slot := (sas ctx ! sa_slot)\<lparr>
               key_slot := (if has_key s then ucast (init_key_id s) else CCSDS_SDLS_KEY_SLOT_NONE),
               sa_state := init_sa_state s,
               rx_arsn := init_rx_arsn s,
               rx_window := CCSDS_SDLS_ARSN_WINDOW cfg,
               rx_arsn_initialized := init_rx_arsn_initialized s,
               configured := True\<rparr>]\<rparr>)"

definition ccsds_sdls_init ::
  "sdls_config \<Rightarrow> ccsds_sdls_sa_init list \<Rightarrow> ccsds_sdls_key_init list \<Rightarrow> 'cb ccsds_sdls_ctx" where
  "ccsds_sdls_init cfg sa_inits key_inits =
     foldl (init_sa cfg) (foldl init_key (zero_ctx cfg) key_inits) sa_inits"

definition ccsds_sdls_sa_lookup ::
  "sdls_config \<Rightarrow> 'cb ccsds_sdls_ctx \<Rightarrow> u16 \<Rightarrow> errno + ccsds_sdls_sa" where
  "ccsds_sdls_sa_lookup cfg ctx spi =
     (if spi = 0 \<or> unat spi > CCSDS_SDLS_MAX_SA cfg \<or> \<not> configured (sas ctx ! (unat spi - 1))
      then Inl ENOENT else Inr (sas ctx ! (unat spi - 1)))"

definition ccsds_sdls_key_lookup ::
  "sdls_config \<Rightarrow> 'cb ccsds_sdls_ctx \<Rightarrow> u16 \<Rightarrow> errno + ccsds_sdls_key" where
  "ccsds_sdls_key_lookup cfg ctx kid =
     (if unat kid \<ge> CCSDS_SDLS_MAX_KEYS cfg \<or> psa_key_id (keys ctx ! unat kid) = PSA_KEY_ID_NULL
      then Inl ENOENT else Inr (keys ctx ! unat kid))"

section \<open>Wire fields\<close>

definition ccsds_sdls_security_header_encode :: "ccsds_sdls_security_header \<Rightarrow> bytes" where
  "ccsds_sdls_security_header_encode h = put_be16 (header_spi h) @ header_iv h"

definition ccsds_sdls_security_header_decode :: "bytes \<Rightarrow> errno + ccsds_sdls_security_header" where
  "ccsds_sdls_security_header_decode encoded =
     (if length encoded \<noteq> 14 then Inl (SDLS CCSDS_SDLS_ERR_FORMAT)
      else let spi = be16_at encoded 0
      in if spi = 0 \<or> spi = 0xffff then Inl (SDLS CCSDS_SDLS_ERR_FORMAT)
         else Inr \<lparr>header_spi = spi, header_iv = take 12 (drop 2 encoded)\<rparr>)"

definition ccsds_sdls_security_trailer_encode :: "bytes \<Rightarrow> bytes" where
  "ccsds_sdls_security_trailer_encode tag = take 16 tag"

definition ccsds_sdls_security_trailer_decode :: "bytes \<Rightarrow> errno + bytes" where
  "ccsds_sdls_security_trailer_decode encoded =
     (if length encoded \<noteq> 16 then Inl (SDLS CCSDS_SDLS_ERR_FORMAT) else Inr (take 16 encoded))"

definition ccsds_sdls_construct_iv :: "u64 \<Rightarrow> u32 \<Rightarrow> bytes" where
  "ccsds_sdls_construct_iv sender_iv arsn = put_be64 sender_iv @ put_be32 arsn"

definition ccsds_sdls_iv_arsn :: "bytes \<Rightarrow> u32" where
  "ccsds_sdls_iv_arsn iv = be32_at iv 8"

definition ccsds_sdls_fsr_encode :: "'cb ccsds_sdls_ctx \<Rightarrow> bytes" where
  "ccsds_sdls_fsr_encode ctx =
     [push_bit 4 4 OR (if alarm (fsr ctx) then 2 ^ 3 else 0) OR
        (if bad_sequence (fsr ctx) then 2 ^ 2 else 0) OR
        (if bad_mac (fsr ctx) then 2 ^ 1 else 0) OR (if bad_sa (fsr ctx) then 2 ^ 0 else 0)]
     @ put_be16 (last_spi (fsr ctx)) @ [last_arsn_lsb (fsr ctx)]"

definition ccsds_sdls_fsr_set_enabled :: "'cb ccsds_sdls_ctx \<Rightarrow> bool \<Rightarrow> 'cb ccsds_sdls_ctx" where
  "ccsds_sdls_fsr_set_enabled ctx enabled = ctx\<lparr>fsr_enabled := enabled\<rparr>"

section \<open>Events and frame security report\<close>

definition CCSDS_SDLS_EVENT_TAG_UNAUTHENTICATED_FRAME :: u8 where
  "CCSDS_SDLS_EVENT_TAG_UNAUTHENTICATED_FRAME = 0xff"

definition ccsds_sdls_event_record ::
  "sdls_config \<Rightarrow> 'cb ccsds_sdls_ctx \<Rightarrow> u8 \<Rightarrow> ccsds_sdls_event_code \<Rightarrow> u16 \<Rightarrow> u32 \<Rightarrow>
     'cb ccsds_sdls_ctx" where
  "ccsds_sdls_event_record cfg ctx tag code spi arsn =
     (let ctx = ctx\<lparr>events := (events ctx)[event_write_index ctx :=
            \<lparr>pdu_or_event_tag = tag, event_code = Some code, event_spi = spi, event_arsn = arsn\<rparr>]\<rparr>;
          ctx = ctx\<lparr>event_write_index :=
            (event_write_index ctx + 1) mod CCSDS_SDLS_EVENT_LOG_CAPACITY cfg\<rparr>
      in if event_count ctx < CCSDS_SDLS_EVENT_LOG_CAPACITY cfg
         then ctx\<lparr>event_count := event_count ctx + 1\<rparr>
         else ctx\<lparr>event_read_index :=
                    (event_read_index ctx + 1) mod CCSDS_SDLS_EVENT_LOG_CAPACITY cfg,
                  event_overwrites :=
                    (if event_overwrites ctx \<noteq> 255 then event_overwrites ctx + 1
                     else event_overwrites ctx)\<rparr>)"

fun frame_event_code :: "sdls_error \<Rightarrow> ccsds_sdls_event_code" where
  "frame_event_code CCSDS_SDLS_ERR_FORMAT = CCSDS_SDLS_EVENT_FORMAT"
| "frame_event_code CCSDS_SDLS_ERR_AUTHENTICATION = CCSDS_SDLS_EVENT_AUTHENTICATION"
| "frame_event_code CCSDS_SDLS_ERR_REPLAY = CCSDS_SDLS_EVENT_STALE_ARSN"
| "frame_event_code CCSDS_SDLS_ERR_UNKNOWN_SA = CCSDS_SDLS_EVENT_UNKNOWN_SA"
| "frame_event_code CCSDS_SDLS_ERR_SA_STATE = CCSDS_SDLS_EVENT_SA_STATE"
| "frame_event_code CCSDS_SDLS_ERR_KEY = CCSDS_SDLS_EVENT_KEY_ID"
| "frame_event_code CCSDS_SDLS_ERR_KEY_STATE = CCSDS_SDLS_EVENT_KEY_STATE"
| "frame_event_code CCSDS_SDLS_ERR_PSA = CCSDS_SDLS_EVENT_PSA"
| "frame_event_code _ = CCSDS_SDLS_EVENT_FORMAT"

text \<open>\<open>code\<close> is \<open>None\<close> where the C caller passes 0.\<close>

definition fsr_process_failure ::
  "sdls_config \<Rightarrow> 'cb ccsds_sdls_ctx \<Rightarrow> sdls_error \<Rightarrow> u16 \<Rightarrow> u32 \<Rightarrow> ccsds_sdls_event_code option \<Rightarrow>
     'cb ccsds_sdls_ctx" where
  "fsr_process_failure cfg ctx err spi arsn code =
     (if err \<notin> {CCSDS_SDLS_ERR_AUTHENTICATION, CCSDS_SDLS_ERR_REPLAY, CCSDS_SDLS_ERR_UNKNOWN_SA,
                 CCSDS_SDLS_ERR_SA_STATE, CCSDS_SDLS_ERR_KEY, CCSDS_SDLS_ERR_KEY_STATE}
      then ctx
      else
        let ctx = ccsds_sdls_event_record cfg ctx CCSDS_SDLS_EVENT_TAG_UNAUTHENTICATED_FRAME
                    (case code of None \<Rightarrow> frame_event_code err | Some c \<Rightarrow> c) spi arsn
        in ctx\<lparr>fsr := (fsr ctx)\<lparr>
             alarm := True,
             last_spi := spi,
             bad_sequence := bad_sequence (fsr ctx) \<or> err = CCSDS_SDLS_ERR_REPLAY,
             bad_mac := bad_mac (fsr ctx) \<or> err = CCSDS_SDLS_ERR_AUTHENTICATION,
             bad_sa := bad_sa (fsr ctx) \<or>
               err \<in> {CCSDS_SDLS_ERR_UNKNOWN_SA, CCSDS_SDLS_ERR_SA_STATE, CCSDS_SDLS_ERR_KEY,
                       CCSDS_SDLS_ERR_KEY_STATE}\<rparr>\<rparr>)"

definition fsr_process_success :: "'cb ccsds_sdls_ctx \<Rightarrow> u16 \<Rightarrow> u32 \<Rightarrow> 'cb ccsds_sdls_ctx" where
  "fsr_process_success ctx spi arsn =
     ctx\<lparr>fsr := (fsr ctx)\<lparr>bad_sequence := False, bad_mac := False, bad_sa := False,
       last_spi := spi, last_arsn_lsb := ucast arsn\<rparr>\<rparr>"

section \<open>Frame security\<close>

fun role_tx :: "ccsds_sdls_sa_role \<Rightarrow> bool" where
  "role_tx CCSDS_SDLS_SA_EP_REPLY_TX = True"
| "role_tx CCSDS_SDLS_SA_OPERATIONAL_TM_TX = True"
| "role_tx _ = False"

text \<open>The slot of the key, or the error.\<close>

definition operational_key ::
  "sdls_config \<Rightarrow> 'cb ccsds_sdls_ctx \<Rightarrow> nat \<Rightarrow> ccsds_sdls_sa_role \<Rightarrow> bool \<Rightarrow> sdls_error + nat" where
  "operational_key cfg ctx sa_slot expected_role transmitting =
     (let sa = sas ctx ! sa_slot;
          expected_tx = role_tx expected_role;
          actual_tx = role_tx (sa_roles ctx ! sa_slot)
      in if actual_tx \<noteq> expected_tx \<or> expected_tx \<noteq> transmitting \<or>
            sa_state sa \<noteq> CCSDS_SDLS_SA_OPERATIONAL
         then Inl CCSDS_SDLS_ERR_SA_STATE
         else if key_slot sa = 0 \<or> unat (key_slot sa) \<ge> CCSDS_SDLS_MAX_KEYS cfg
         then Inl CCSDS_SDLS_ERR_KEY
         else let key = keys ctx ! unat (key_slot sa)
         in if key_state key \<noteq> CCSDS_SDLS_KEY_ACTIVE \<or> psa_key_id key = PSA_KEY_ID_NULL
            then Inl CCSDS_SDLS_ERR_KEY
            else Inr (unat (key_slot sa)))"

definition build_auth_data :: "ccsds_sdls_auth_header \<Rightarrow> u16 \<Rightarrow> bytes \<Rightarrow> bytes" where
  "build_auth_data auth spi frame_data =
     map2 (AND) (auth_data auth) (auth_mask auth) @ drop (length (auth_mask auth)) (auth_data auth)
     @ put_be16 spi @ replicate 12 0 @ frame_data"

datatype psa_error = PSA_ERROR_INVALID_SIGNATURE | PSA_ERROR_OTHER int

type_synonym psa_aead = "u32 \<Rightarrow> bytes \<Rightarrow> bytes \<Rightarrow> bytes \<Rightarrow> psa_error + bytes"

definition ccsds_sdls_apply_security ::
  "sdls_config \<Rightarrow> psa_aead \<Rightarrow> 'cb ccsds_sdls_ctx \<Rightarrow> ccsds_sdls_sa_role \<Rightarrow> u16 \<Rightarrow>
     ccsds_sdls_auth_header \<Rightarrow> bytes \<Rightarrow> (errno + bytes) \<times> 'cb ccsds_sdls_ctx" where
  "ccsds_sdls_apply_security cfg psa_aead_encrypt ctx expected_role spi auth d =
     (let index = unat spi - 1 in
      case operational_key cfg ctx index expected_role True of
        Inl e \<Rightarrow> (Inl (SDLS e), ctx)
      | Inr kslot \<Rightarrow>
          let gcm = (sa_modes ctx ! index = CCSDS_SDLS_MODE_GCM);
              key = keys ctx ! kslot;
              iv = ccsds_sdls_construct_iv (tx_iv ctx) (tx_arsn key);
              ctx = ctx\<lparr>keys := (keys ctx)[kslot := key\<lparr>tx_arsn := tx_arsn key + 1\<rparr>],
                        tx_iv := tx_iv ctx + CCSDS_SDLS_IV_STRIDE\<rparr>;
              aad = build_auth_data auth spi (if gcm then [] else d)
          in case psa_aead_encrypt (psa_key_id key) iv aad (if gcm then d else []) of
               Inl _ \<Rightarrow> (Inl (SDLS CCSDS_SDLS_ERR_PSA), ctx)
             | Inr crypto_out \<Rightarrow>
                 if length crypto_out \<noteq> (if gcm then length d + 16 else 16)
                 then (Inl (SDLS CCSDS_SDLS_ERR_PSA), ctx)
                 else
                   (Inr (ccsds_sdls_security_header_encode \<lparr>header_spi = spi, header_iv = iv\<rparr> @
                         (if gcm
                          then take (length d) crypto_out @ take 16 (drop (length d) crypto_out)
                          else d @ take 16 crypto_out)), ctx))"

text \<open>The receive side: the anti-replay check, and the work on a frame that passed it.\<close>

definition rx_replay_check :: "ccsds_sdls_sa \<Rightarrow> u32 \<Rightarrow> ccsds_sdls_event_code option" where
  "rx_replay_check sa arsn =
     (if rx_arsn_initialized sa then
        if arsn \<le> rx_arsn sa then Some CCSDS_SDLS_EVENT_STALE_ARSN
        else if arsn - rx_arsn sa > rx_window sa then Some CCSDS_SDLS_EVENT_ARSN_GAP
        else None
      else None)"

definition process_current_frame ::
  "sdls_config \<Rightarrow> psa_aead \<Rightarrow> 'cb ccsds_sdls_ctx \<Rightarrow> ccsds_sdls_auth_header \<Rightarrow>
     ccsds_sdls_security_header \<Rightarrow> nat \<Rightarrow> nat \<Rightarrow> bytes \<Rightarrow> (errno + bytes) \<times> 'cb ccsds_sdls_ctx" where
  "process_current_frame cfg psa_aead_decrypt ctx auth header index kslot protected_data =
     (let data_len = length protected_data - 30;
          spi = header_spi header;
          arsn = ccsds_sdls_iv_arsn (header_iv header);
          gcm = (sa_modes ctx ! index = CCSDS_SDLS_MODE_GCM);
          frame_data = take data_len (drop 14 protected_data);
          tag = drop (14 + data_len) protected_data;
          aad = build_auth_data auth spi (if gcm then [] else frame_data)
      in case psa_aead_decrypt (psa_key_id (keys ctx ! kslot)) (header_iv header) aad
                (if gcm then frame_data @ tag else tag) of
           Inl status \<Rightarrow>
             if status = PSA_ERROR_INVALID_SIGNATURE
             then (Inl (SDLS CCSDS_SDLS_ERR_AUTHENTICATION),
                   fsr_process_failure cfg ctx CCSDS_SDLS_ERR_AUTHENTICATION spi arsn None)
             else (Inl (SDLS CCSDS_SDLS_ERR_PSA), ctx)
         | Inr plaintext \<Rightarrow>
             if length plaintext \<noteq> (if gcm then data_len else 0)
             then (Inl (SDLS CCSDS_SDLS_ERR_PSA), ctx)
             else
               (Inr (if gcm then plaintext else frame_data),
                fsr_process_success
                  (ctx\<lparr>sas := (sas ctx)[index :=
                         (sas ctx ! index)\<lparr>rx_arsn := arsn, rx_arsn_initialized := True\<rparr>],
                       authenticated_rx_spi := spi,
                       authenticated_rx_arsn := arsn,
                       authenticated_rx_valid := True\<rparr>) spi arsn))"

definition ccsds_sdls_process_security ::
  "sdls_config \<Rightarrow> psa_aead \<Rightarrow> 'cb ccsds_sdls_ctx \<Rightarrow> ccsds_sdls_sa_role \<Rightarrow>
     ccsds_sdls_auth_header \<Rightarrow> bytes \<Rightarrow> (errno + bytes) \<times> 'cb ccsds_sdls_ctx" where
  "ccsds_sdls_process_security cfg psa_aead_decrypt ctx expected_role auth protected_data =
     (let ctx = ctx\<lparr>authenticated_rx_spi := 0, authenticated_rx_arsn := 0,
                    authenticated_rx_valid := False, authenticated_rx_dispatching := False\<rparr>
      in if length protected_data < 30
         then (Inl (SDLS CCSDS_SDLS_ERR_FORMAT),
               ccsds_sdls_event_record cfg ctx CCSDS_SDLS_EVENT_TAG_UNAUTHENTICATED_FRAME
                 CCSDS_SDLS_EVENT_FORMAT 0 0)
         else case ccsds_sdls_security_header_decode (take 14 protected_data) of
           Inl e \<Rightarrow> (Inl e, ccsds_sdls_event_record cfg ctx
             CCSDS_SDLS_EVENT_TAG_UNAUTHENTICATED_FRAME CCSDS_SDLS_EVENT_FORMAT 0 0)
         | Inr header \<Rightarrow>
             let spi = header_spi header;
                 arsn = ccsds_sdls_iv_arsn (header_iv header);
                 index = unat spi - 1
             in if unat spi > CCSDS_SDLS_MAX_SA cfg \<or> \<not> configured (sas ctx ! index)
                then (Inl (SDLS CCSDS_SDLS_ERR_UNKNOWN_SA),
                      fsr_process_failure cfg ctx CCSDS_SDLS_ERR_UNKNOWN_SA spi arsn None)
                else case operational_key cfg ctx index expected_role False of
                  Inl e \<Rightarrow> (Inl (SDLS e), fsr_process_failure cfg ctx e spi arsn None)
                | Inr kslot \<Rightarrow>
                    case rx_replay_check (sas ctx ! index) arsn of
                      Some code \<Rightarrow>
                        (Inl (SDLS CCSDS_SDLS_ERR_REPLAY),
                         fsr_process_failure cfg ctx CCSDS_SDLS_ERR_REPLAY spi arsn (Some code))
                    | None \<Rightarrow>
                        process_current_frame cfg psa_aead_decrypt ctx auth header index kslot
                          protected_data)"

section \<open>The event ring\<close>

text \<open>
  The log the ring holds, oldest record first, and the invariant of the context: its arrays
  have their configured sizes and the write index is \<open>event_count\<close> slots after the read index.
\<close>

definition event_log :: "sdls_config \<Rightarrow> 'cb ccsds_sdls_ctx \<Rightarrow> ccsds_sdls_event list" where
  "event_log cfg ctx =
     map (\<lambda>i. events ctx ! ((event_read_index ctx + i) mod CCSDS_SDLS_EVENT_LOG_CAPACITY cfg))
       [0 ..< event_count ctx]"

definition sdls_inv :: "sdls_config \<Rightarrow> 'cb ccsds_sdls_ctx \<Rightarrow> bool" where
  "sdls_inv cfg ctx \<longleftrightarrow>
     length (sas ctx) = CCSDS_SDLS_MAX_SA cfg \<and> length (keys ctx) = CCSDS_SDLS_MAX_KEYS cfg \<and>
     length (sa_roles ctx) = CCSDS_SDLS_MAX_SA cfg \<and> length (sa_modes ctx) = CCSDS_SDLS_MAX_SA cfg \<and>
     length (events ctx) = CCSDS_SDLS_EVENT_LOG_CAPACITY cfg \<and>
     event_read_index ctx < CCSDS_SDLS_EVENT_LOG_CAPACITY cfg \<and>
     event_count ctx \<le> CCSDS_SDLS_EVENT_LOG_CAPACITY cfg \<and>
     event_write_index ctx =
       (event_read_index ctx + event_count ctx) mod CCSDS_SDLS_EVENT_LOG_CAPACITY cfg"

lemma event_record_frame [simp]:
  "sas (ccsds_sdls_event_record cfg ctx tag code spi arsn) = sas ctx"
  "keys (ccsds_sdls_event_record cfg ctx tag code spi arsn) = keys ctx"
  "sa_roles (ccsds_sdls_event_record cfg ctx tag code spi arsn) = sa_roles ctx"
  "sa_modes (ccsds_sdls_event_record cfg ctx tag code spi arsn) = sa_modes ctx"
  "tx_iv (ccsds_sdls_event_record cfg ctx tag code spi arsn) = tx_iv ctx"
  "fsr (ccsds_sdls_event_record cfg ctx tag code spi arsn) = fsr ctx"
  by (simp_all add: ccsds_sdls_event_record_def Let_def)

lemma ring_index_neq:
  assumes "(i :: nat) < n" "n \<le> cap" "i \<noteq> n" "r < cap" "n < cap"
  shows "(r + i) mod cap \<noteq> (r + n) mod cap"
proof
  assume "(r + i) mod cap = (r + n) mod cap"
  then have "cap dvd (r + n) - (r + i)" using assms by (metis mod_eq_dvd_iff_nat add_le_cancel_left less_imp_le_nat)
  then show False using assms by (auto dest: dvd_imp_le)
qed

lemma event_record_log:
  assumes inv: "sdls_inv cfg ctx" and cap: "0 < CCSDS_SDLS_EVENT_LOG_CAPACITY cfg"
    and e_def: "e = \<lparr>pdu_or_event_tag = tag, event_code = Some code, event_spi = spi, event_arsn = arsn\<rparr>"
  shows "sdls_inv cfg (ccsds_sdls_event_record cfg ctx tag code spi arsn)"
    and "event_log cfg (ccsds_sdls_event_record cfg ctx tag code spi arsn) =
      (if event_count ctx < CCSDS_SDLS_EVENT_LOG_CAPACITY cfg then event_log cfg ctx else tl (event_log cfg ctx)) @ [e]"
proof -
  let ?cap = "CCSDS_SDLS_EVENT_LOG_CAPACITY cfg" and ?r = "event_read_index ctx" and ?n = "event_count ctx"
  let ?w = "(?r + ?n) mod ?cap"
  have st: "length (events ctx) = ?cap" "?r < ?cap" "?n \<le> ?cap" "event_write_index ctx = ?w"
    using inv by (simp_all add: sdls_inv_def)
  have w: "?w < ?cap" using cap by simp
  have full: "?n = ?cap \<Longrightarrow> ?w = ?r" using st(2) by simp
  show "sdls_inv cfg (ccsds_sdls_event_record cfg ctx tag code spi arsn)"
    using inv cap w full
    by (auto simp: sdls_inv_def ccsds_sdls_event_record_def Let_def mod_simps)
  show "event_log cfg (ccsds_sdls_event_record cfg ctx tag code spi arsn) =
      (if ?n < ?cap then event_log cfg ctx else tl (event_log cfg ctx)) @ [e]"
  proof (cases "?n < ?cap")
    case True
    have "(events ctx)[?w := e] ! ((?r + i) mod ?cap) = events ctx ! ((?r + i) mod ?cap)" if "i < ?n" for i
      using ring_index_neq [of i ?n ?cap ?r] that True st by simp
    with True w st show ?thesis
      by (simp add: event_log_def ccsds_sdls_event_record_def Let_def e_def)
  next
    case False
    then have n: "?n = ?cap" using st(3) by simp
    obtain m where m: "?cap = Suc m" using cap by (cases ?cap) simp_all
    have tl: "tl (event_log cfg ctx) = map (\<lambda>i. events ctx ! ((?r + Suc i) mod ?cap)) [0 ..< m]"
      unfolding event_log_def n m by (simp add: upt_conv_Cons map_Suc_upt [symmetric] del: upt_Suc)
    have "(events ctx)[?r := e] ! ((?r + Suc i) mod ?cap) = events ctx ! ((?r + Suc i) mod ?cap)" if "i < m" for i
    proof -
      have "(?r + Suc i) mod ?cap \<noteq> ?r"
      proof
        assume "(?r + Suc i) mod ?cap = ?r"
        then have "(?r + Suc i) mod ?cap = (?r + 0) mod ?cap" using st(2) by simp
        then have "?cap dvd Suc i" by (metis add_diff_cancel_left' diff_zero le_add1 mod_eq_dvd_iff_nat add_0_right)
        with that m show False by (auto dest: dvd_imp_le)
      qed
      then show ?thesis by simp
    qed
    moreover have "(?r + Suc m) mod ?cap = ?r" using st(2) by (metis m mod_add_self2 mod_less)
    ultimately show ?thesis
      using False n st full
      by (simp add: tl) (simp add: event_log_def ccsds_sdls_event_record_def Let_def e_def m mod_add_left_eq)
  qed
qed

section \<open>The invariant\<close>

lemma fsr_process_failure_frame [simp]:
  "sas (fsr_process_failure cfg ctx err spi arsn code) = sas ctx"
  "keys (fsr_process_failure cfg ctx err spi arsn code) = keys ctx"
  "sa_roles (fsr_process_failure cfg ctx err spi arsn code) = sa_roles ctx"
  "sa_modes (fsr_process_failure cfg ctx err spi arsn code) = sa_modes ctx"
  "tx_iv (fsr_process_failure cfg ctx err spi arsn code) = tx_iv ctx"
  by (simp_all add: fsr_process_failure_def Let_def)

lemma sdls_inv_update [simp]:
  "sdls_inv cfg (fsr_update f ctx) = sdls_inv cfg ctx"
  "sdls_inv cfg (authenticated_rx_spi_update g1 ctx) = sdls_inv cfg ctx"
  "sdls_inv cfg (authenticated_rx_arsn_update g2 ctx) = sdls_inv cfg ctx"
  "sdls_inv cfg (authenticated_rx_valid_update g3 ctx) = sdls_inv cfg ctx"
  "sdls_inv cfg (authenticated_rx_dispatching_update g4 ctx) = sdls_inv cfg ctx"
  "sdls_inv cfg (tx_iv_update g5 ctx) = sdls_inv cfg ctx"
  "sdls_inv cfg (fsr_next_update g6 ctx) = sdls_inv cfg ctx"
  "length xs = length (sas ctx) \<Longrightarrow> sdls_inv cfg (ctx\<lparr>sas := xs\<rparr>) = sdls_inv cfg ctx"
  "length ks = length (keys ctx) \<Longrightarrow> sdls_inv cfg (ctx\<lparr>keys := ks\<rparr>) = sdls_inv cfg ctx"
  by (simp_all add: sdls_inv_def)

lemma fsr_process_failure_inv:
  "sdls_inv cfg ctx \<Longrightarrow> 0 < CCSDS_SDLS_EVENT_LOG_CAPACITY cfg \<Longrightarrow>
     sdls_inv cfg (fsr_process_failure cfg ctx err spi arsn code)"
  by (simp add: fsr_process_failure_def Let_def event_record_log(1))

lemma process_security_inv:
  assumes "sdls_inv cfg ctx" "0 < CCSDS_SDLS_EVENT_LOG_CAPACITY cfg"
  shows "sdls_inv cfg (snd (ccsds_sdls_process_security cfg dec ctx role auth buf))"
proof -
  have "sdls_inv cfg (snd (process_current_frame cfg dec c auth h i k buf))" if "sdls_inv cfg c" for c :: "'a ccsds_sdls_ctx" and h i k
    using that assms(2)
    by (simp add: process_current_frame_def Let_def fsr_process_success_def fsr_process_failure_inv
        split: sum.split)
  with assms show ?thesis
    unfolding ccsds_sdls_process_security_def Let_def
    by (simp add: event_record_log(1) fsr_process_failure_inv split: sum.split option.split)
qed

lemma apply_security_inv:
  "sdls_inv cfg ctx \<Longrightarrow> sdls_inv cfg (snd (ccsds_sdls_apply_security cfg enc ctx role spi auth d))"
  by (simp add: ccsds_sdls_apply_security_def Let_def split: sum.split)

lemma init_key_inv: "sdls_inv cfg ctx \<Longrightarrow> sdls_inv cfg (init_key ctx k)"
  by (simp add: sdls_inv_def init_key_def)

lemma init_sa_inv: "sdls_inv cfg ctx \<Longrightarrow> sdls_inv cfg (init_sa cfg ctx s)"
  by (simp add: sdls_inv_def init_sa_def Let_def)

lemma sdls_init_inv:
  assumes "0 < CCSDS_SDLS_EVENT_LOG_CAPACITY cfg"
  shows "sdls_inv cfg (ccsds_sdls_init cfg sa_inits key_inits)"
proof -
  have "sdls_inv cfg (zero_ctx cfg)" using assms by (simp add: sdls_inv_def zero_ctx_def)
  then have k: "sdls_inv cfg (foldl init_key (zero_ctx cfg) key_inits)"
    by (induction key_inits rule: rev_induct) (auto intro: init_key_inv)
  show ?thesis
    unfolding ccsds_sdls_init_def using k
    by (induction sa_inits rule: rev_induct) (auto intro: init_sa_inv)
qed

section \<open>Receiving\<close>

text \<open>The security header of a protected frame as it stands on the wire.\<close>

definition wire_spi :: "bytes \<Rightarrow> u16" where "wire_spi buf = be16_at buf 0"
definition wire_arsn :: "bytes \<Rightarrow> u32" where "wire_arsn buf = be32_at buf 10"

lemma header_decode_wire:
  assumes "ccsds_sdls_security_header_decode (take 14 buf) = Inr h"
  shows "header_spi h = wire_spi buf" "ccsds_sdls_iv_arsn (header_iv h) = wire_arsn buf"
    "header_iv h = take 12 (drop 2 buf)" "header_spi h \<noteq> 0"
  using assms
  by (auto simp: ccsds_sdls_security_header_decode_def wire_spi_def wire_arsn_def be16_at_def
      be32_at_def ccsds_sdls_iv_arsn_def Let_def drop_take split: if_splits)

text \<open>Everything a successful call has checked and done, and what a failed one leaves alone.\<close>

lemma operational_key_reset [simp]:
  "operational_key cfg (ctx\<lparr>authenticated_rx_spi := s, authenticated_rx_arsn := a,
     authenticated_rx_valid := v, authenticated_rx_dispatching := d\<rparr>) i role tx =
   operational_key cfg ctx i role tx"
  by (simp add: operational_key_def Let_def)

lemma process_security_cases:
  assumes ctx0_def: "ctx0 = ctx\<lparr>authenticated_rx_spi := 0, authenticated_rx_arsn := 0,
    authenticated_rx_valid := False, authenticated_rx_dispatching := False\<rparr>"
    and r_def: "r = ccsds_sdls_process_security cfg dec ctx role auth buf"
  obtains (early) "isl (fst r)" "sas (snd r) = sas ctx" "keys (snd r) = keys ctx"
      "sa_modes (snd r) = sa_modes ctx" "sa_roles (snd r) = sa_roles ctx" "tx_iv (snd r) = tx_iv ctx"
  | (frame) h k where "30 \<le> length buf" "ccsds_sdls_security_header_decode (take 14 buf) = Inr h"
      "unat (wire_spi buf) \<le> CCSDS_SDLS_MAX_SA cfg" "configured (sas ctx ! (unat (wire_spi buf) - 1))"
      "operational_key cfg ctx (unat (wire_spi buf) - 1) role False = Inr k"
      "rx_replay_check (sas ctx ! (unat (wire_spi buf) - 1)) (wire_arsn buf) = None"
      "r = process_current_frame cfg dec ctx0 auth h (unat (wire_spi buf) - 1) k buf"
proof (cases "length buf < 30")
  case True
  then show thesis by (intro early) (simp_all add: r_def ccsds_sdls_process_security_def)
next
  case len: False
  show thesis
  proof (cases "ccsds_sdls_security_header_decode (take 14 buf)")
    case (Inl e)
    with len show thesis by (intro early) (simp_all add: r_def ccsds_sdls_process_security_def)
  next
    case (Inr h)
    note w = header_decode_wire [OF Inr]
    let ?i = "unat (wire_spi buf) - 1"
    note run = r_def ccsds_sdls_process_security_def Let_def w(1,2)
    show thesis
    proof (cases "CCSDS_SDLS_MAX_SA cfg < unat (wire_spi buf) \<or> \<not> configured (sas ctx ! ?i)")
      case True
      with len Inr show thesis by (intro early) (simp_all add: run)
    next
      case known: False
      show thesis
      proof (cases "operational_key cfg ctx ?i role False")
        case (Inl e)
        with len \<open>_ = Inr h\<close> known show thesis by (intro early) (simp_all add: run)
      next
        case (Inr k)
        show thesis
        proof (cases "rx_replay_check (sas ctx ! ?i) (wire_arsn buf)")
          case (Some code)
          with len Inr \<open>_ = Inr h\<close> known show thesis by (intro early) (simp_all add: run)
        next
          case None
          with len Inr \<open>_ = Inr h\<close> known show thesis
            by (intro frame) (simp_all add: run ctx0_def)
        qed
      qed
    qed
  qed
qed

lemma process_security_success:
  assumes "ccsds_sdls_process_security cfg dec ctx role auth buf = (Inr out, ctx')"
    and "i = unat (wire_spi buf) - 1"
  shows "0 < unat (wire_spi buf) \<and> unat (wire_spi buf) \<le> CCSDS_SDLS_MAX_SA cfg \<and>
    configured (sas ctx ! i) \<and> sa_state (sas ctx ! i) = CCSDS_SDLS_SA_OPERATIONAL \<and>
    (rx_arsn_initialized (sas ctx ! i) \<longrightarrow> rx_arsn (sas ctx ! i) < wire_arsn buf \<and>
       wire_arsn buf - rx_arsn (sas ctx ! i) \<le> rx_window (sas ctx ! i)) \<and>
    sas ctx' = (sas ctx)[i := (sas ctx ! i)\<lparr>rx_arsn := wire_arsn buf, rx_arsn_initialized := True\<rparr>] \<and>
    keys ctx' = keys ctx \<and> tx_iv ctx' = tx_iv ctx"
proof (cases rule: process_security_cases [OF refl assms(1) [symmetric], case_names early frame])
  case early
  then show ?thesis by simp
next
  case (frame h k)
  note w = header_decode_wire [OF frame(2)]
  have "wire_spi buf \<noteq> 0" using w(1,4) by simp
  then have "0 < unat (wire_spi buf)" by (simp add: unat_gt_0)
  moreover have "sa_state (sas ctx ! i) = CCSDS_SDLS_SA_OPERATIONAL"
    using frame(5) assms(2) by (auto simp: operational_key_def Let_def split: if_splits)
  moreover have "rx_arsn_initialized (sas ctx ! i) \<Longrightarrow> rx_arsn (sas ctx ! i) < wire_arsn buf \<and>
       wire_arsn buf - rx_arsn (sas ctx ! i) \<le> rx_window (sas ctx ! i)"
    using frame(6) assms(2) by (auto simp: rx_replay_check_def not_le not_less split: if_splits)
  moreover have "sas ctx' = (sas ctx)[i := (sas ctx ! i)\<lparr>rx_arsn := wire_arsn buf, rx_arsn_initialized := True\<rparr>]"
    "keys ctx' = keys ctx" "tx_iv ctx' = tx_iv ctx"
    using frame(7) assms(2)
    by (auto simp: process_current_frame_def Let_def fsr_process_success_def w(1,2)
        split: sum.splits if_splits)
  ultimately show ?thesis using frame(3,4) assms(2) by blast
qed

lemma process_security_failure:
  assumes "ccsds_sdls_process_security cfg dec ctx role auth buf = (Inl e, ctx')"
  shows "sas ctx' = sas ctx \<and> keys ctx' = keys ctx \<and> tx_iv ctx' = tx_iv ctx"
proof (cases rule: process_security_cases [OF refl assms(1) [symmetric], case_names early frame])
  case early
  then show ?thesis by simp
next
  case (frame h k)
  then show ?thesis by (auto simp: process_current_frame_def Let_def split: sum.splits if_splits)
qed

text \<open>
  A receive session: each call is given a role, the authentication header and a protected
  frame, and yields the SPI and ARSN of the frame when it is accepted.
\<close>

type_synonym rx_call = "ccsds_sdls_sa_role \<times> ccsds_sdls_auth_header \<times> bytes"

definition rx_step ::
  "sdls_config \<Rightarrow> psa_aead \<Rightarrow> 'cb ccsds_sdls_ctx \<Rightarrow> rx_call \<Rightarrow> (u16 \<times> u32) option \<times> 'cb ccsds_sdls_ctx" where
  "rx_step cfg dec ctx c =
     (case c of (role, auth, buf) \<Rightarrow>
       case ccsds_sdls_process_security cfg dec ctx role auth buf of
         (Inl _, ctx') \<Rightarrow> (None, ctx')
       | (Inr _, ctx') \<Rightarrow> (Some (wire_spi buf, wire_arsn buf), ctx'))"

definition accepted_arsns :: "u16 \<Rightarrow> (u16 \<times> u32) option list \<Rightarrow> u32 list" where
  "accepted_arsns spi rs = map (snd \<circ> the) (filter (\<lambda>r. r \<noteq> None \<and> fst (the r) = spi) rs)"

lemma accepted_arsns_simps [simp]:
  "accepted_arsns spi [] = []"
  "accepted_arsns spi (None # rs) = accepted_arsns spi rs"
  "accepted_arsns spi (Some (s, a) # rs) = (if s = spi then a # accepted_arsns spi rs else accepted_arsns spi rs)"
  by (simp_all add: accepted_arsns_def)

lemma rx_step_cases:
  assumes "rx_step cfg dec ctx c = (r, ctx')" "sdls_inv cfg ctx"
  shows "(r = None \<and> sas ctx' = sas ctx) \<or>
    (\<exists>s a. r = Some (s, a) \<and> 0 < unat s \<and> unat s - 1 < length (sas ctx) \<and>
       (rx_arsn_initialized (sas ctx ! (unat s - 1)) \<longrightarrow> rx_arsn (sas ctx ! (unat s - 1)) < a) \<and>
       sas ctx' = (sas ctx)[unat s - 1 := (sas ctx ! (unat s - 1))\<lparr>rx_arsn := a, rx_arsn_initialized := True\<rparr>])"
proof -
  obtain role auth buf where c: "c = (role, auth, buf)" by (cases c)
  obtain q ctx1 where q: "ccsds_sdls_process_security cfg dec ctx role auth buf = (q, ctx1)" by fastforce
  show ?thesis
  proof (cases q)
    case (Inl e)
    with assms(1) process_security_failure [OF q [unfolded Inl]] show ?thesis
      by (simp add: rx_step_def c q)
  next
    case (Inr out)
    have "length (sas ctx) = CCSDS_SDLS_MAX_SA cfg" using assms(2) by (simp add: sdls_inv_def)
    with assms(1) process_security_success [OF q [unfolded Inr] refl] Inr show ?thesis
      by (auto simp: rx_step_def c q)
  qed
qed

lemma rx_session_sorted:
  assumes "sdls_inv cfg ctx" "0 < CCSDS_SDLS_EVENT_LOG_CAPACITY cfg" "0 < unat spi"
    and "session (rx_step cfg dec) ctx cs = (rs, ctx')"
  shows "sorted_wrt (<) (accepted_arsns spi rs) \<and>
    (rx_arsn_initialized (sas ctx ! (unat spi - 1)) \<longrightarrow>
       (\<forall>a\<in>set (accepted_arsns spi rs). rx_arsn (sas ctx ! (unat spi - 1)) < a))"
  using assms
proof (induction cs arbitrary: ctx rs)
  case (Cons c cs)
  obtain r ctx1 where step: "rx_step cfg dec ctx c = (r, ctx1)" by fastforce
  obtain rs1 where rs: "session (rx_step cfg dec) ctx1 cs = (rs1, ctx')" "rs = r # rs1"
    using Cons.prems(4) step by (auto split: prod.splits)
  have "sdls_inv cfg ctx1"
    using step process_security_inv [OF Cons.prems(1,2)]
    by (auto simp: rx_step_def split: prod.splits sum.splits) (metis snd_conv)+
  note IH = Cons.IH [OF this Cons.prems(2,3) rs(1)]
  from rx_step_cases [OF step Cons.prems(1)] show ?case
  proof (elim disjE exE conjE)
    assume "r = None" "sas ctx1 = sas ctx"
    with IH rs(2) show ?thesis by simp
  next
    fix s a
    assume r: "r = Some (s, a)" "0 < unat s" "unat s - 1 < length (sas ctx)"
      and fresh: "rx_arsn_initialized (sas ctx ! (unat s - 1)) \<longrightarrow> rx_arsn (sas ctx ! (unat s - 1)) < a"
      and sas: "sas ctx1 = (sas ctx)[unat s - 1 := (sas ctx ! (unat s - 1))\<lparr>rx_arsn := a, rx_arsn_initialized := True\<rparr>]"
    show ?thesis
    proof (cases "s = spi")
      case True
      with r sas IH have gt: "\<forall>b\<in>set (accepted_arsns spi rs1). a < b" by simp
      with True r(1) IH fresh rs(2) show ?thesis by (auto intro: less_trans)
    next
      case False
      then have "unat s - 1 \<noteq> unat spi - 1" using r(2) Cons.prems(3)
        by (metis One_nat_def Suc_pred unsigned_word_eqI)
      with False r(1) IH sas rs(2) show ?thesis by simp
    qed
  qed
qed simp

section \<open>Sending\<close>

definition masked_header :: "ccsds_sdls_auth_header \<Rightarrow> bytes" where
  "masked_header auth = map2 (AND) (auth_data auth) (auth_mask auth) @
     drop (length (auth_mask auth)) (auth_data auth)"

lemma build_auth_data_masked: "build_auth_data auth spi d = masked_header auth @ put_be16 spi @ replicate 12 0 @ d"
  by (simp add: build_auth_data_def masked_header_def)

lemma length_construct_iv [simp]: "length (ccsds_sdls_construct_iv v a) = 12"
  by (simp add: ccsds_sdls_construct_iv_def)

lemma iv_arsn_construct [simp]: "ccsds_sdls_iv_arsn (ccsds_sdls_construct_iv v a) = a"
  using be32_at_put [of "put_be64 v" 8 a "[]"] by (simp add: ccsds_sdls_iv_arsn_def ccsds_sdls_construct_iv_def)

text \<open>What a successful call returns, and that every call past the key check takes a new IV.\<close>

lemma apply_security_success:
  assumes "ccsds_sdls_apply_security cfg enc ctx role spi auth d = (Inr out, ctx')"
    and "gcm = (sa_modes ctx ! (unat spi - 1) = CCSDS_SDLS_MODE_GCM)"
  obtains k c where "operational_key cfg ctx (unat spi - 1) role True = Inr k"
    and "enc (psa_key_id (keys ctx ! k)) (ccsds_sdls_construct_iv (tx_iv ctx) (tx_arsn (keys ctx ! k)))
      (build_auth_data auth spi (if gcm then [] else d)) (if gcm then d else []) = Inr c"
    and "length c = (if gcm then length d + 16 else 16)"
    and "out = put_be16 spi @ ccsds_sdls_construct_iv (tx_iv ctx) (tx_arsn (keys ctx ! k)) @
      (if gcm then c else d @ c)"
    and "tx_iv ctx' = tx_iv ctx + CCSDS_SDLS_IV_STRIDE"
  using assms
  by (auto simp: ccsds_sdls_apply_security_def ccsds_sdls_security_header_encode_def Let_def
      simp flip: append_assoc split: sum.splits if_splits)

definition aead_inverse :: "psa_aead \<Rightarrow> u32 \<Rightarrow> psa_aead \<Rightarrow> u32 \<Rightarrow> bool" where
  "aead_inverse enc ks dec kr \<longleftrightarrow>
     (\<forall>iv aad p c. enc ks iv aad p = Inr c \<longrightarrow> dec kr iv aad c = Inr p)"

lemma protected_frame_fields:
  assumes "buf = put_be16 spi @ iv @ body" "length iv = 12" "spi \<noteq> 0" "spi \<noteq> 0xffff"
  shows "ccsds_sdls_security_header_decode (take 14 buf) = Inr \<lparr>header_spi = spi, header_iv = iv\<rparr>"
    "wire_spi buf = spi" "wire_arsn buf = ccsds_sdls_iv_arsn iv" "drop 14 buf = body"
proof -
  have w: "be16_at (put_be16 spi @ xs) 0 = spi" for xs using be16_at_put [of "[]" 0 spi xs] by simp
  have t: "take 14 buf = put_be16 spi @ iv" using assms(1,2) by simp
  show "ccsds_sdls_security_header_decode (take 14 buf) = Inr \<lparr>header_spi = spi, header_iv = iv\<rparr>"
    unfolding t using assms(2-4) by (simp add: ccsds_sdls_security_header_decode_def w)
  show "wire_spi buf = spi" by (simp add: wire_spi_def assms(1) w)
  show "wire_arsn buf = ccsds_sdls_iv_arsn iv"
    using assms(2) by (simp add: wire_arsn_def ccsds_sdls_iv_arsn_def assms(1) be32_at_def nth_append put_be16_def)
  show "drop 14 buf = body" using assms(1,2) by simp
qed

text \<open>The sending side as a session, and the IV of a protected frame.\<close>

type_synonym tx_call = "ccsds_sdls_sa_role \<times> u16 \<times> ccsds_sdls_auth_header \<times> bytes"

definition tx_step ::
  "sdls_config \<Rightarrow> psa_aead \<Rightarrow> 'cb ccsds_sdls_ctx \<Rightarrow> tx_call \<Rightarrow> (errno + bytes) \<times> 'cb ccsds_sdls_ctx" where
  "tx_step cfg enc ctx c =
     (case c of (role, spi, auth, d) \<Rightarrow> ccsds_sdls_apply_security cfg enc ctx role spi auth d)"

fun sent_ivs :: "(errno + bytes) list \<Rightarrow> bytes list" where
  "sent_ivs [] = []"
| "sent_ivs (Inl _ # rs) = sent_ivs rs"
| "sent_ivs (Inr out # rs) = take 12 (drop 2 out) # sent_ivs rs"

lemma stride_injective:
  assumes "word_of_nat j * CCSDS_SDLS_IV_STRIDE = (0 :: u64)" "j < 2 ^ 64"
  shows "j = 0"
proof -
  have "CCSDS_SDLS_IV_STRIDE * 0xf1de83e19937733d = 1" by (simp add: CCSDS_SDLS_IV_STRIDE_def)
  then have "(word_of_nat j :: u64) = word_of_nat j * CCSDS_SDLS_IV_STRIDE * 0xf1de83e19937733d"
    by (simp add: mult.assoc)
  also have "\<dots> = 0" by (simp add: assms(1))
  finally have "unat (word_of_nat j :: u64) = 0" by simp
  then show ?thesis using assms(2) by (simp add: unsigned_of_nat take_bit_nat_eq_self)
qed

lemma apply_security_tx_iv:
  assumes "ccsds_sdls_apply_security cfg enc ctx role spi auth d = (r, ctx')"
  shows "(tx_iv ctx' = tx_iv ctx \<and> isl r) \<or> tx_iv ctx' = tx_iv ctx + CCSDS_SDLS_IV_STRIDE"
  using assms by (auto simp: ccsds_sdls_apply_security_def Let_def split: sum.splits if_splits)

lemma sent_iv:
  assumes "tx_step cfg enc ctx c = (Inr out, ctx')"
  shows "take 8 (take 12 (drop 2 out)) = put_be64 (tx_iv ctx) \<and> tx_iv ctx' = tx_iv ctx + CCSDS_SDLS_IV_STRIDE"
proof -
  obtain role spi auth d where c: "c = (role, spi, auth, d)" by (cases c)
  from assms have "ccsds_sdls_apply_security cfg enc ctx role spi auth d = (Inr out, ctx')"
    by (simp add: tx_step_def c)
  then show ?thesis
    by (rule apply_security_success [OF _ refl]) (simp add: ccsds_sdls_construct_iv_def)
qed

lemma tx_session_ivs:
  assumes "session (tx_step cfg enc) ctx cs = (rs, ctx')"
  shows "\<forall>iv\<in>set (sent_ivs rs). \<exists>j<length cs. take 8 iv = put_be64 (tx_iv ctx + word_of_nat j * CCSDS_SDLS_IV_STRIDE)"
  using assms
proof (induction cs arbitrary: ctx rs)
  case (Cons c cs)
  obtain r ctx1 where step: "tx_step cfg enc ctx c = (r, ctx1)" by fastforce
  obtain rs1 where rs: "session (tx_step cfg enc) ctx1 cs = (rs1, ctx')" "rs = r # rs1"
    using Cons.prems step by (auto split: prod.splits)
  note IH = Cons.IH [OF rs(1)]
  have tail: "\<exists>j<length (c # cs). take 8 iv = put_be64 (tx_iv ctx + word_of_nat j * CCSDS_SDLS_IV_STRIDE)"
    if iv: "iv \<in> set (sent_ivs rs1)" for iv
  proof -
    from IH iv obtain j where j: "j < length cs" "take 8 iv = put_be64 (tx_iv ctx1 + word_of_nat j * CCSDS_SDLS_IV_STRIDE)"
      by blast
    have "tx_iv ctx1 = tx_iv ctx \<or> tx_iv ctx1 = tx_iv ctx + CCSDS_SDLS_IV_STRIDE"
      using step apply_security_tx_iv by (fastforce simp: tx_step_def split: prod.splits)
    then show ?thesis
    proof
      assume "tx_iv ctx1 = tx_iv ctx"
      with j show ?thesis by (intro exI [of _ j]) simp
    next
      assume "tx_iv ctx1 = tx_iv ctx + CCSDS_SDLS_IV_STRIDE"
      with j show ?thesis by (intro exI [of _ "Suc j"]) (simp add: algebra_simps)
    qed
  qed
  show ?case
  proof (cases r)
    case (Inl e)
    with tail rs(2) show ?thesis by simp
  next
    case (Inr out)
    with sent_iv [OF step [unfolded Inr]] tail rs(2) show ?thesis by (auto intro!: exI [of _ 0])
  qed
qed simp

lemma tx_session_distinct:
  assumes "session (tx_step cfg enc) ctx cs = (rs, ctx')" "length cs \<le> 2 ^ 64"
  shows "distinct (sent_ivs rs)"
  using assms
proof (induction cs arbitrary: ctx rs)
  case (Cons c cs)
  obtain r ctx1 where step: "tx_step cfg enc ctx c = (r, ctx1)" by fastforce
  obtain rs1 where rs: "session (tx_step cfg enc) ctx1 cs = (rs1, ctx')" "rs = r # rs1"
    using Cons.prems step by (auto split: prod.splits)
  have IH: "distinct (sent_ivs rs1)" using Cons.IH [OF rs(1)] Cons.prems(2) by simp
  show ?case
  proof (cases r)
    case (Inl e)
    with IH rs(2) show ?thesis by simp
  next
    case (Inr out)
    note iv = sent_iv [OF step [unfolded Inr]]
    have "take 12 (drop 2 out) \<notin> set (sent_ivs rs1)"
    proof
      assume "take 12 (drop 2 out) \<in> set (sent_ivs rs1)"
      with tx_session_ivs [OF rs(1)] obtain j where j: "j < length cs"
        "put_be64 (tx_iv ctx) = put_be64 (tx_iv ctx1 + word_of_nat j * CCSDS_SDLS_IV_STRIDE)"
        using iv by metis
      then have "word_of_nat (Suc j) * CCSDS_SDLS_IV_STRIDE = (0 :: u64)"
        using iv by (simp add: put_be64_inject algebra_simps)
      then have "Suc j = 0" using j(1) Cons.prems(2) by (intro stride_injective) simp_all
      then show False by simp
    qed
    with IH Inr rs(2) show ?thesis by simp
  qed
qed simp

interpretation rx: stepper "\<lambda>ctx c. snd (rx_step cfg dec ctx c)"
  "\<lambda>ctx. sdls_inv cfg ctx \<and> 0 < CCSDS_SDLS_EVENT_LOG_CAPACITY cfg" for cfg dec
proof unfold_locales
  fix s :: "'a ccsds_sdls_ctx" and i :: rx_call
  assume inv: "sdls_inv cfg s \<and> 0 < CCSDS_SDLS_EVENT_LOG_CAPACITY cfg"
  obtain role auth buf where i: "i = (role, auth, buf)" by (cases i)
  have "snd (rx_step cfg dec s i) = snd (ccsds_sdls_process_security cfg dec s role auth buf)"
    by (simp add: rx_step_def i split: prod.split sum.split)
  with inv show "sdls_inv cfg (snd (rx_step cfg dec s i)) \<and> 0 < CCSDS_SDLS_EVENT_LOG_CAPACITY cfg"
    by (simp add: process_security_inv)
qed

interpretation tx: stepper "\<lambda>ctx c. snd (tx_step cfg enc ctx c)" "sdls_inv cfg" for cfg enc
  by unfold_locales (simp add: tx_step_def apply_security_inv split: prod.split)

section \<open>Properties\<close>

text \<open>
  C7. What one side protects the other recovers: if the sender's call succeeds, the
  receiver's association is operational with the matching key and mode, the two
  authentication headers agree under their masks and the sequence number passes the replay
  check, then the receiver returns exactly the sender's data and advances its ARSN.  The only
  fact used of the cipher is that decryption inverts encryption.
\<close>

theorem sdls_apply_process:
  assumes "ccsds_sdls_apply_security cfg enc S roleT spi auth d = (Inr out, S')"
    and "sdls_config_ok cfg" "sdls_inv cfg R" "0 < unat spi" "unat spi \<le> CCSDS_SDLS_MAX_SA cfg"
    and "i = unat spi - 1" "configured (sas R ! i)"
    and "operational_key cfg S i roleT True = Inr ks" "operational_key cfg R i roleR False = Inr kr"
    and "aead_inverse enc (psa_key_id (keys S ! ks)) dec (psa_key_id (keys R ! kr))"
    and "(sa_modes S ! i = CCSDS_SDLS_MODE_GCM) = (sa_modes R ! i = CCSDS_SDLS_MODE_GCM)"
    and "masked_header auth = masked_header auth'"
    and "rx_replay_check (sas R ! i) (tx_arsn (keys S ! ks)) = None"
  shows "\<exists>R'. ccsds_sdls_process_security cfg dec R roleR auth' out = (Inr d, R') \<and>
    sas R' = (sas R)[i := (sas R ! i)\<lparr>rx_arsn := tx_arsn (keys S ! ks), rx_arsn_initialized := True\<rparr>]"
proof -
  let ?gcm = "sa_modes S ! (unat spi - 1) = CCSDS_SDLS_MODE_GCM"
  let ?iv = "ccsds_sdls_construct_iv (tx_iv S) (tx_arsn (keys S ! ks))"
  obtain c where c: "enc (psa_key_id (keys S ! ks)) ?iv (build_auth_data auth spi (if ?gcm then [] else d))
      (if ?gcm then d else []) = Inr c" "length c = (if ?gcm then length d + 16 else 16)"
    "out = put_be16 spi @ ?iv @ (if ?gcm then c else d @ c)"
    using apply_security_success [OF assms(1) refl] assms(6,8) by (metis sum.inject(2))
  have "unat spi \<le> 255" using assms(2,5) by (simp add: sdls_config_ok_def)
  then have spi: "spi \<noteq> 0" "spi \<noteq> 0xffff" using assms(4) by auto
  note f = protected_frame_fields [OF c(3) length_construct_iv spi]
  have len: "length out = length d + 30" using c(2,3) by (simp split: if_splits)
  have dec: "dec (psa_key_id (keys R ! kr)) ?iv (build_auth_data auth' spi (if ?gcm then [] else d)) c
      = Inr (if ?gcm then d else [])"
    using assms(10,12) c(1) unfolding aead_inverse_def build_auth_data_masked by metis
  have tail: "take (length d) (drop 14 out) @ drop (14 + length d) out = (if ?gcm then c else d @ c)"
    using f(4) by (metis add.commute append_take_drop_id drop_drop)
  have parts: "\<not> ?gcm \<Longrightarrow> take (length d) (drop 14 out) = d" "\<not> ?gcm \<Longrightarrow> drop (14 + length d) out = c"
    using f(4) by (simp_all add: drop_drop [symmetric] add.commute del: drop_drop)
  let ?R = "R\<lparr>authenticated_rx_spi := 0, authenticated_rx_arsn := 0,
    authenticated_rx_valid := False, authenticated_rx_dispatching := False\<rparr>"
  let ?h = "\<lparr>header_spi = spi, header_iv = ?iv\<rparr>"
  have "ccsds_sdls_process_security cfg dec R roleR auth' out = process_current_frame cfg dec ?R auth' ?h i kr out"
    using assms(5-7,9,13) len f by (simp add: ccsds_sdls_process_security_def Let_def)
  also have "\<dots> = (Inr d, fsr_process_success (?R\<lparr>sas := (sas R)[i := (sas R ! i)\<lparr>rx_arsn := tx_arsn (keys S ! ks),
      rx_arsn_initialized := True\<rparr>], authenticated_rx_spi := spi, authenticated_rx_arsn := tx_arsn (keys S ! ks),
      authenticated_rx_valid := True\<rparr>) spi (tx_arsn (keys S ! ks)))"
  proof (cases ?gcm)
    case True
    with dec tail assms(6,11) len show ?thesis by (simp add: process_current_frame_def Let_def)
  next
    case False
    with dec parts assms(6,11) len show ?thesis by (simp add: process_current_frame_def Let_def)
  qed
  finally show ?thesis by (simp add: fsr_process_success_def)
qed

text \<open>A pair of contexts that share association 1 under key 5, and a cipher for the witnesses.\<close>

definition demo_ctx :: "ccsds_sdls_sa_role \<Rightarrow> unit ccsds_sdls_ctx" where
  "demo_ctx role = ccsds_sdls_init default_sdls_config
     [\<lparr>init_spi = 1, init_key_id = 5, init_rx_arsn = 0, init_role = role,
       init_mode = CCSDS_SDLS_MODE_GCM, init_sa_state = CCSDS_SDLS_SA_OPERATIONAL,
       has_key = True, init_rx_arsn_initialized = False\<rparr>]
     [\<lparr>init_psa_key_id = 77, key_id = 5, init_key_state = CCSDS_SDLS_KEY_ACTIVE\<rparr>]"

definition demo_encrypt :: psa_aead where
  "demo_encrypt k iv aad p = Inr (p @ replicate 16 7)"

definition demo_decrypt :: psa_aead where
  "demo_decrypt k iv aad c =
     (if drop (length c - 16) c = replicate 16 7 then Inr (take (length c - 16) c)
      else Inl PSA_ERROR_INVALID_SIGNATURE)"

lemma demo_inverse: "aead_inverse demo_encrypt ks demo_decrypt kr"
  by (simp add: aead_inverse_def demo_encrypt_def demo_decrypt_def)

lemma demo_ctx_fields:
  "sas (demo_ctx role) ! 0 = \<lparr>rx_arsn = 0, rx_window = 1024, key_slot = 5, sa_state = CCSDS_SDLS_SA_OPERATIONAL,
     last_procedure = 0, rx_arsn_initialized = False, configured = True\<rparr>"
  "keys (demo_ctx role) ! 5 = \<lparr>psa_key_id = 77, tx_arsn = 0, key_state = CCSDS_SDLS_KEY_ACTIVE\<rparr>"
  "sa_modes (demo_ctx role) ! 0 = CCSDS_SDLS_MODE_GCM" "sa_roles (demo_ctx role) ! 0 = role"
  by (simp_all add: demo_ctx_def ccsds_sdls_init_def init_sa_def init_key_def zero_ctx_def zero_sa_def
      zero_key_def default_sdls_config_def)

lemma demo_key: "operational_key default_sdls_config (demo_ctx role) 0 role (role_tx role) = Inr 5"
  by (simp add: operational_key_def Let_def demo_ctx_fields default_sdls_config_def PSA_KEY_ID_NULL_def)

theorem sdls_apply_process_witness:
  "\<exists>R'. ccsds_sdls_process_security default_sdls_config demo_decrypt (demo_ctx CCSDS_SDLS_SA_OPERATIONAL_TC_RX)
     CCSDS_SDLS_SA_OPERATIONAL_TC_RX \<lparr>auth_data = [0x12, 0x0f], auth_mask = [0xf0]\<rparr>
     (put_be16 1 @ ccsds_sdls_construct_iv (tx_iv (demo_ctx CCSDS_SDLS_SA_OPERATIONAL_TM_TX)) 0 @
        [1, 2, 3] @ replicate 16 7) = (Inr [1, 2, 3], R')"
proof -
  let ?S = "demo_ctx CCSDS_SDLS_SA_OPERATIONAL_TM_TX" and ?R = "demo_ctx CCSDS_SDLS_SA_OPERATIONAL_TC_RX"
  let ?a = "\<lparr>auth_data = [0x11, 0x0f], auth_mask = [0xf0]\<rparr>" and ?b = "\<lparr>auth_data = [0x12, 0x0f], auth_mask = [0xf0]\<rparr>"
  let ?out = "put_be16 1 @ ccsds_sdls_construct_iv (tx_iv ?S) 0 @ [1, 2, 3] @ replicate 16 7"
  have S: "operational_key default_sdls_config ?S 0 CCSDS_SDLS_SA_OPERATIONAL_TM_TX True = Inr 5"
    using demo_key [of CCSDS_SDLS_SA_OPERATIONAL_TM_TX] by simp
  have R: "operational_key default_sdls_config ?R 0 CCSDS_SDLS_SA_OPERATIONAL_TC_RX False = Inr 5"
    using demo_key [of CCSDS_SDLS_SA_OPERATIONAL_TC_RX] by simp
  have "\<exists>S'. ccsds_sdls_apply_security default_sdls_config demo_encrypt ?S CCSDS_SDLS_SA_OPERATIONAL_TM_TX 1
      ?a [1, 2, 3] = (Inr ?out, S')"
    using S by (simp add: ccsds_sdls_apply_security_def Let_def demo_ctx_fields demo_encrypt_def
        ccsds_sdls_security_header_encode_def)
  moreover have "sdls_inv default_sdls_config ?R"
    unfolding demo_ctx_def by (rule sdls_init_inv) (simp add: default_sdls_config_def)
  moreover have "sdls_config_ok default_sdls_config" by (simp add: sdls_config_ok_def default_sdls_config_def)
  ultimately show ?thesis
    using sdls_apply_process [of default_sdls_config demo_encrypt ?S CCSDS_SDLS_SA_OPERATIONAL_TM_TX 1 ?a
        "[1, 2, 3]" ?out _ ?R 0 5 CCSDS_SDLS_SA_OPERATIONAL_TC_RX 5 demo_decrypt ?b] S R demo_inverse
    by (auto simp: demo_ctx_fields masked_header_def rx_replay_check_def default_sdls_config_def)
qed

text \<open>
  No replay: over any sequence of received frames, forged or genuine, on any
  associations, the sequence numbers of the frames accepted for one SPI are strictly
  increasing; in particular no protected frame is accepted twice.
\<close>

theorem sdls_no_replay:
  assumes "sdls_inv cfg ctx" "0 < CCSDS_SDLS_EVENT_LOG_CAPACITY cfg" "0 < unat spi"
  shows "sorted_wrt (<) (accepted_arsns spi (fst (session (rx_step cfg dec) ctx cs)))"
  using rx_session_sorted [OF assms prod.collapse [symmetric]] by blast

theorem sdls_no_replay_witness:
  "sorted_wrt (<) (accepted_arsns 1 (fst (session (rx_step default_sdls_config demo_decrypt)
     (demo_ctx CCSDS_SDLS_SA_OPERATIONAL_TC_RX)
     (replicate 2 (CCSDS_SDLS_SA_OPERATIONAL_TC_RX, \<lparr>auth_data = [], auth_mask = []\<rparr>,
        put_be16 1 @ replicate 12 9 @ [1, 2, 3] @ replicate 16 7)))))"
proof -
  have "sdls_inv default_sdls_config (demo_ctx CCSDS_SDLS_SA_OPERATIONAL_TC_RX)"
    unfolding demo_ctx_def by (rule sdls_init_inv) (simp add: default_sdls_config_def)
  then show ?thesis by (rule sdls_no_replay) (simp_all add: default_sdls_config_def)
qed

text \<open>
  A rejected frame changes no security state: on every error the associations (with
  their receive sequence numbers), the keys and the IV generator are as before.
\<close>

theorem sdls_rejected_frame_keeps_state:
  assumes "ccsds_sdls_process_security cfg dec ctx role auth buf = (Inl e, ctx')"
  shows "sas ctx' = sas ctx \<and> keys ctx' = keys ctx \<and> tx_iv ctx' = tx_iv ctx"
  using assms by (rule process_security_failure)

theorem sdls_rejected_frame_keeps_state_witness:
  "sas (snd (ccsds_sdls_process_security default_sdls_config demo_decrypt (demo_ctx CCSDS_SDLS_SA_OPERATIONAL_TC_RX)
     CCSDS_SDLS_SA_OPERATIONAL_TC_RX \<lparr>auth_data = [], auth_mask = []\<rparr> [1, 2]))
   = sas (demo_ctx CCSDS_SDLS_SA_OPERATIONAL_TC_RX)"
proof -
  let ?p = "ccsds_sdls_process_security default_sdls_config demo_decrypt (demo_ctx CCSDS_SDLS_SA_OPERATIONAL_TC_RX)
     CCSDS_SDLS_SA_OPERATIONAL_TC_RX \<lparr>auth_data = [], auth_mask = []\<rparr> [1, 2]"
  have "?p = (Inl (SDLS CCSDS_SDLS_ERR_FORMAT), snd ?p)" by (simp add: ccsds_sdls_process_security_def Let_def)
  from sdls_rejected_frame_keeps_state [OF this] show ?thesis by simp
qed

text \<open>
  No initialisation vector is ever used twice: over any sequence of up to \<open>2^64\<close> calls to
  protect frames, on any associations and keys and including calls the cipher fails, the IVs
  of the frames sent are pairwise different.
\<close>

theorem sdls_ivs_never_repeat:
  assumes "length cs \<le> 2 ^ 64"
  shows "distinct (sent_ivs (fst (session (tx_step cfg enc) ctx cs)))"
  using tx_session_distinct [OF prod.collapse [symmetric] assms] .

theorem sdls_ivs_never_repeat_witness:
  "distinct (sent_ivs (fst (session (tx_step default_sdls_config demo_encrypt)
     (demo_ctx CCSDS_SDLS_SA_OPERATIONAL_TM_TX)
     (replicate 3 (CCSDS_SDLS_SA_OPERATIONAL_TM_TX, 1, \<lparr>auth_data = [], auth_mask = []\<rparr>, [1, 2, 3])))))"
  by (rule sdls_ivs_never_repeat) simp

text \<open>
  The event ring keeps the newest events: recording an event appends it to the log and,
  when the ring is full, drops exactly the oldest one; the ring's indices stay consistent.
\<close>

theorem sdls_event_ring:
  assumes "sdls_inv cfg ctx" "0 < CCSDS_SDLS_EVENT_LOG_CAPACITY cfg"
    and "ctx' = ccsds_sdls_event_record cfg ctx tag code spi arsn"
    and "log = event_log cfg ctx @
      [\<lparr>pdu_or_event_tag = tag, event_code = Some code, event_spi = spi, event_arsn = arsn\<rparr>]"
  shows "sdls_inv cfg ctx' \<and> event_log cfg ctx' = drop (length log - CCSDS_SDLS_EVENT_LOG_CAPACITY cfg) log"
proof -
  have len: "length (event_log cfg ctx) = event_count ctx" "event_count ctx \<le> CCSDS_SDLS_EVENT_LOG_CAPACITY cfg"
    using assms(1) by (simp_all add: event_log_def sdls_inv_def)
  then have "event_count ctx = CCSDS_SDLS_EVENT_LOG_CAPACITY cfg \<Longrightarrow> event_log cfg ctx \<noteq> []"
    using assms(2) by auto
  moreover have "Suc 0 - CCSDS_SDLS_EVENT_LOG_CAPACITY cfg = 0" using assms(2) by simp
  ultimately show ?thesis
    using len event_record_log [OF assms(1,2) refl, of tag code spi arsn] assms(3,4)
    by (cases "event_count ctx < CCSDS_SDLS_EVENT_LOG_CAPACITY cfg") (auto simp: drop_Suc)
qed

theorem sdls_event_ring_witness:
  "length (event_log default_sdls_config (ccsds_sdls_event_record default_sdls_config
     (demo_ctx CCSDS_SDLS_SA_OPERATIONAL_TC_RX) 0xff CCSDS_SDLS_EVENT_FORMAT 0 0)) = 1"
proof -
  have "sdls_inv default_sdls_config (demo_ctx CCSDS_SDLS_SA_OPERATIONAL_TC_RX)"
    unfolding demo_ctx_def by (rule sdls_init_inv) (simp add: default_sdls_config_def)
  moreover have "event_log default_sdls_config (demo_ctx CCSDS_SDLS_SA_OPERATIONAL_TC_RX) = []"
    by (simp add: event_log_def demo_ctx_def ccsds_sdls_init_def init_sa_def init_key_def zero_ctx_def)
  ultimately show ?thesis
    using sdls_event_ring [OF _ _ refl refl, of default_sdls_config "demo_ctx CCSDS_SDLS_SA_OPERATIONAL_TC_RX"
        "0xff" CCSDS_SDLS_EVENT_FORMAT 0 0] by (simp add: default_sdls_config_def)
qed

end
