(* ===== verification/Profile.thy ===== *)
theory Profile
  imports Router Cltu Rnd Tc_Segment Farm Sdls
begin

unbundle bit_operations_syntax

text \<open>
  The telecommand receive profile (\<^verbatim>\<open>src/ccsds_profile.c\<close>, \<^verbatim>\<open>ccsds_profile.h\<close>): the composition of
  CLTU decoding, frame decoding, security, FARM, segment reassembly and APID routing.  The
  state of a receiver is a record of what the C code reaches from \<^verbatim>\<open>struct ccsds_profile_tc_rx\<close>
  (the router and the SDLS context are objects of their own there) and the file's counters.
  Handlers are application code, run through the parameters of \<open>tc_platform\<close>; they may change
  the SDLS context and the application's state, as the key-management service does.
\<close>

section \<open>State\<close>

record ccsds_profile_tc_reassembly =
  ra_active :: bool
  ra_map_id :: u8
  ra_len :: nat
  expected_len :: nat
  ra_buffer :: bytes

record ('h, 'u) ccsds_profile_map_apid_route =
  route_handler :: "'h option"
  route_user_data :: "'u option"
  route_apid :: u16
  route_map_id :: u8
  route_active :: bool

record ccsds_profile_tc_rx_stats =
  cltus_received :: u32
  cltus_oversize :: u32
  cltu_decode_failures :: u32
  tc_frame_rejects :: u32
  control_frames_seen :: u32
  stat_packets_dispatched :: u32
  dispatch_failures :: u32
  last_error :: rc
  last_cltu_len :: nat
  last_tc_frame_len :: nat

text \<open>\<open>sdls_enabled\<close> is \<^verbatim>\<open>profile->sdls != NULL\<close>.\<close>

record ('h, 'u) ccsds_profile_tc_rx =
  accepted_vcid :: u8
  vc_state :: ccsds_profile_tc_vc_state
  reassembly :: ccsds_profile_tc_reassembly
  map_apid_route :: "('h, 'u) ccsds_profile_map_apid_route"
  sdls_enabled :: bool
  clear_map_id :: u8
  clear_map_configured :: bool
  clear_map_enabled :: bool
  authenticated_rx_fn :: "'h option"
  authenticated_rx_user_data :: "'u option"

type_synonym ('cb, 'app) tc_env = "'cb ccsds_sdls_ctx \<times> 'app"

record ('h, 'u, 'cb, 'app) tc_world =
  w_router :: "('h, 'u) ccsds_router"
  w_profile :: "('h, 'u) ccsds_profile_tc_rx"
  w_stats :: ccsds_profile_tc_rx_stats
  w_env :: "('cb, 'app) tc_env"

text \<open>What the profile is compiled with and calls: configuration, cipher, handlers.\<close>

record ('h, 'u, 'cb, 'app) tc_platform =
  p_cfg :: ccsds_config
  p_sdls_cfg :: sdls_config
  p_decrypt :: psa_aead
  p_call :: "('h, 'u, ('cb, 'app) tc_env) handler_call"
  p_rx_call :: "'h \<Rightarrow> 'u option \<Rightarrow> ('cb, 'app) tc_env \<Rightarrow> rc \<times> ('cb, 'app) tc_env"

datatype ccsds_profile_tc_cltu_stage =
    STAGE_NONE | STAGE_OVERSIZE | STAGE_CLTU | STAGE_TC_FRAME | STAGE_SDLS | STAGE_CONTROL
  | STAGE_PACKET | STAGE_ROUTER | STAGE_DISPATCHED

section \<open>Configuration calls\<close>

definition zero_reassembly :: "ccsds_config \<Rightarrow> ccsds_profile_tc_reassembly" where
  "zero_reassembly cfg = \<lparr>ra_active = False, ra_map_id = 0, ra_len = 0, expected_len = 0,
     ra_buffer = replicate (CCSDS_TC_MAX_SPACE_PACKET_LEN cfg) 0\<rparr>"

definition zero_stats :: ccsds_profile_tc_rx_stats where
  "zero_stats = \<lparr>cltus_received = 0, cltus_oversize = 0, cltu_decode_failures = 0,
     tc_frame_rejects = 0, control_frames_seen = 0, stat_packets_dispatched = 0,
     dispatch_failures = 0, last_error = RC_OK, last_cltu_len = 0, last_tc_frame_len = 0\<rparr>"

definition ccsds_profile_tc_rx_init :: "ccsds_config \<Rightarrow> ('h, 'u) ccsds_profile_tc_rx" where
  "ccsds_profile_tc_rx_init cfg = \<lparr>
     accepted_vcid = 0, vc_state = zero_vc_state, reassembly = zero_reassembly cfg,
     map_apid_route = \<lparr>route_handler = None, route_user_data = None, route_apid = 0,
       route_map_id = 0, route_active = False\<rparr>,
     sdls_enabled = False, clear_map_id = 0, clear_map_configured = False,
     clear_map_enabled = False, authenticated_rx_fn = None, authenticated_rx_user_data = None\<rparr>"

definition ccsds_profile_tc_set_map_apid_handler ::
  "('h, 'u) ccsds_profile_tc_rx \<Rightarrow> u8 \<Rightarrow> u16 \<Rightarrow> 'h \<Rightarrow> 'u option \<Rightarrow> rc \<times> ('h, 'u) ccsds_profile_tc_rx" where
  "ccsds_profile_tc_set_map_apid_handler profile m a h u =
     (if m > 0x3f \<or> a > CCSDS_APID_MAX then (RC_ERR EINVAL, profile)
      else (RC_OK, profile\<lparr>map_apid_route := \<lparr>route_handler = Some h, route_user_data = u,
              route_apid = a, route_map_id = m, route_active = True\<rparr>\<rparr>))"

definition ccsds_profile_tc_rx_set_sdls ::
  "('h, 'u) ccsds_profile_tc_rx \<Rightarrow> ('h, 'u) ccsds_profile_tc_rx" where
  "ccsds_profile_tc_rx_set_sdls profile = profile\<lparr>sdls_enabled := True\<rparr>"

definition ccsds_profile_tc_set_clear_map ::
  "('h, 'u) ccsds_profile_tc_rx \<Rightarrow> u8 \<Rightarrow> bool \<Rightarrow> rc \<times> ('h, 'u) ccsds_profile_tc_rx" where
  "ccsds_profile_tc_set_clear_map profile m enabled =
     (if m > 0x3f then (RC_ERR EINVAL, profile)
      else (RC_OK, profile\<lparr>clear_map_id := m, clear_map_configured := True, clear_map_enabled := enabled\<rparr>))"

definition ccsds_profile_tc_set_authenticated_rx_callback ::
  "('h, 'u) ccsds_profile_tc_rx \<Rightarrow> 'h option \<Rightarrow> 'u option \<Rightarrow> ('h, 'u) ccsds_profile_tc_rx" where
  "ccsds_profile_tc_set_authenticated_rx_callback profile callback u =
     profile\<lparr>authenticated_rx_fn := callback, authenticated_rx_user_data := u\<rparr>"

definition ccsds_profile_tc_set_accepted_vcid ::
  "('h, 'u) ccsds_profile_tc_rx \<Rightarrow> u8 \<Rightarrow> rc \<times> ('h, 'u) ccsds_profile_tc_rx" where
  "ccsds_profile_tc_set_accepted_vcid profile tc_vcid =
     (if tc_vcid \<ge> 64 then (RC_ERR EINVAL, profile)
      else (RC_OK, profile\<lparr>accepted_vcid := tc_vcid\<rparr>))"

definition ccsds_profile_tc_build_clcw :: "('h, 'u) ccsds_profile_tc_rx \<Rightarrow> errno + u32" where
  "ccsds_profile_tc_build_clcw profile = build_clcw (accepted_vcid profile) (vc_state profile)"

definition ccsds_profile_tc_clcw_provider :: "('h, 'u) ccsds_profile_tc_rx \<Rightarrow> errno + u32" where
  "ccsds_profile_tc_clcw_provider profile = ccsds_profile_tc_build_clcw profile"

definition ccsds_profile_tc_rx_get_stats :: "('h, 'u, 'cb, 'app) tc_world \<Rightarrow> ccsds_profile_tc_rx_stats" where
  "ccsds_profile_tc_rx_get_stats w = w_stats w"

definition ccsds_profile_tc_rx_reset_stats ::
  "('h, 'u, 'cb, 'app) tc_world \<Rightarrow> ('h, 'u, 'cb, 'app) tc_world" where
  "ccsds_profile_tc_rx_reset_stats w = w\<lparr>w_stats := zero_stats\<rparr>"

section \<open>Segment parts\<close>

text \<open>What the part handler changes: the reassembly buffer, the count of packets, the environment.\<close>

record ('cb, 'app) ccsds_profile_segment_dispatch =
  d_reassembly :: ccsds_profile_tc_reassembly
  d_packets :: u32
  d_env :: "('cb, 'app) tc_env"

definition dispatch_tc_packet ::
  "('h, 'u, 'cb, 'app) tc_platform \<Rightarrow> ('h, 'u) ccsds_profile_map_apid_route \<Rightarrow> ('h, 'u) ccsds_router \<Rightarrow>
     u8 \<Rightarrow> ccsds_space_packet \<Rightarrow> ('cb, 'app) tc_env \<Rightarrow> rc \<times> ('cb, 'app) tc_env" where
  "dispatch_tc_packet pf route router m packet env =
     (if route_active route \<and> route_map_id route = m \<and> route_apid route = apid packet
      then (case route_handler route of
              Some h \<Rightarrow> p_call pf h packet (route_user_data route) env
            | None \<Rightarrow> (RC_ERR E_FAULT, env))
      else ccsds_router_dispatch (p_call pf) router packet env)"

text \<open>
  The common tail of the fragment branches, once the reassembly is known to be active.  The
  \<^verbatim>\<open>memcpy\<close> into the buffer is undefined past the buffer's end, whatever the checks around it
  say; that outcome is \<open>E_FAULT\<close>.
\<close>

definition append_tc_segment_part ::
  "('h, 'u, 'cb, 'app) tc_platform \<Rightarrow> ('h, 'u) ccsds_profile_map_apid_route \<Rightarrow> ('h, 'u) ccsds_router \<Rightarrow>
     ccsds_tc_segment_part \<Rightarrow> ('cb, 'app) ccsds_profile_segment_dispatch \<Rightarrow>
     rc \<times> ('cb, 'app) ccsds_profile_segment_dispatch" where
  "append_tc_segment_part pf route router part st =
     (let cap = CCSDS_TC_MAX_SPACE_PACKET_LEN (p_cfg pf);
          clear = zero_reassembly (p_cfg pf);
          ra = d_reassembly st
      in if length (part_data part) > cap - ra_len ra
         then (RC_ERR EMSGSIZE, st\<lparr>d_reassembly := clear\<rparr>)
         else if ra_len ra + length (part_data part) > length (ra_buffer ra)
         then (RC_ERR E_FAULT, st)
         else
           let ra = ra\<lparr>ra_buffer := copy_into (ra_buffer ra) (ra_len ra) (part_data part),
                       ra_len := ra_len ra + length (part_data part)\<rparr>
           in if expected_len ra > cap \<or> ra_len ra > expected_len ra
              then (RC_ERR EMSGSIZE, st\<lparr>d_reassembly := clear\<rparr>)
              else if \<not> ends_packet part then (RC_OK, st\<lparr>d_reassembly := ra\<rparr>)
              else if ra_len ra \<noteq> expected_len ra then (RC_ERR EMSGSIZE, st\<lparr>d_reassembly := clear\<rparr>)
              else
                let (ret, env) =
                  (case ccsds_space_packet_decode (take (ra_len ra) (ra_buffer ra)) of
                     Inl e \<Rightarrow> (RC_ERR e, d_env st)
                   | Inr packet \<Rightarrow> dispatch_tc_packet pf route router (ra_map_id ra) packet (d_env st));
                    st = st\<lparr>d_reassembly := clear, d_env := env\<rparr>
                in if ret \<noteq> RC_OK then (ret, st)
                   else (RC_OK, st\<lparr>d_packets := d_packets st + 1\<rparr>))"

definition dispatch_tc_segment_part ::
  "('h, 'u, 'cb, 'app) tc_platform \<Rightarrow> ('h, 'u) ccsds_profile_map_apid_route \<Rightarrow> ('h, 'u) ccsds_router \<Rightarrow>
     ccsds_tc_segment_part \<Rightarrow> ('cb, 'app) ccsds_profile_segment_dispatch \<Rightarrow>
     rc \<times> ('cb, 'app) ccsds_profile_segment_dispatch" where
  "dispatch_tc_segment_part pf route router part st =
     (let ra = d_reassembly st;
          clear = zero_reassembly (p_cfg pf)
      in if starts_packet part \<and> ends_packet part then
           if ra_active ra then (RC_ERR EBUSY, st)
           else case ccsds_space_packet_decode (part_data part) of
             Inl e \<Rightarrow> (RC_ERR e, st)
           | Inr packet \<Rightarrow>
               (case dispatch_tc_packet pf route router (part_map_id part) packet (d_env st) of
                  (RC_ERR e, env) \<Rightarrow> (RC_ERR e, st\<lparr>d_env := env\<rparr>)
                | (RC_OK, env) \<Rightarrow> (RC_OK, st\<lparr>d_env := env, d_packets := d_packets st + 1\<rparr>))
         else if starts_packet part then
           if ra_active ra then (RC_ERR EBUSY, st\<lparr>d_reassembly := clear\<rparr>)
           else if packet_len part = 0 \<or> packet_len part > CCSDS_TC_MAX_SPACE_PACKET_LEN (p_cfg pf)
           then (RC_ERR EMSGSIZE, st)
           else append_tc_segment_part pf route router part
                  (st\<lparr>d_reassembly := ra\<lparr>ra_active := True, ra_map_id := part_map_id part,
                     ra_len := 0, expected_len := packet_len part\<rparr>\<rparr>)
         else if \<not> ra_active ra \<or> ra_map_id ra \<noteq> part_map_id part
         then (RC_ERR EINVAL, st\<lparr>d_reassembly := clear\<rparr>)
         else append_tc_segment_part pf route router part st)"

section \<open>One CLTU\<close>

definition record_tc_result ::
  "ccsds_profile_tc_rx_stats \<Rightarrow> ccsds_profile_tc_cltu_stage \<Rightarrow> nat \<Rightarrow> u32 \<Rightarrow> nat \<Rightarrow> rc \<Rightarrow>
     ccsds_profile_tc_rx_stats" where
  "record_tc_result stats stage tc_frame_len packets cltu_len ret =
     (let stats = stats\<lparr>cltus_received := cltus_received stats + 1, last_cltu_len := cltu_len,
                        last_tc_frame_len := tc_frame_len\<rparr>;
          stats = (case stage of
            STAGE_OVERSIZE \<Rightarrow> stats\<lparr>cltus_oversize := cltus_oversize stats + 1\<rparr>
          | STAGE_CLTU \<Rightarrow> stats\<lparr>cltu_decode_failures := cltu_decode_failures stats + 1\<rparr>
          | STAGE_TC_FRAME \<Rightarrow> stats\<lparr>tc_frame_rejects := tc_frame_rejects stats + 1\<rparr>
          | STAGE_SDLS \<Rightarrow> stats\<lparr>tc_frame_rejects := tc_frame_rejects stats + 1\<rparr>
          | STAGE_PACKET \<Rightarrow> stats\<lparr>tc_frame_rejects := tc_frame_rejects stats + 1\<rparr>
          | STAGE_CONTROL \<Rightarrow> stats\<lparr>control_frames_seen := control_frames_seen stats + 1\<rparr>
          | STAGE_ROUTER \<Rightarrow> stats\<lparr>dispatch_failures := dispatch_failures stats + 1\<rparr>
          | STAGE_DISPATCHED \<Rightarrow>
              stats\<lparr>stat_packets_dispatched := stat_packets_dispatched stats + packets\<rparr>
          | STAGE_NONE \<Rightarrow> stats\<lparr>dispatch_failures := dispatch_failures stats + 1\<rparr>)
      in if ret \<noteq> RC_OK then stats\<lparr>last_error := ret\<rparr> else stats)"

text \<open>Ending a call: record the stage and return.\<close>

definition tc_finish ::
  "('h, 'u, 'cb, 'app) tc_world \<Rightarrow> ccsds_profile_tc_cltu_stage \<Rightarrow> nat \<Rightarrow> u32 \<Rightarrow> nat \<Rightarrow> rc \<Rightarrow>
     rc \<times> ('h, 'u, 'cb, 'app) tc_world" where
  "tc_finish w stage tc_frame_len packets cltu_len ret =
     (ret, w\<lparr>w_stats := record_tc_result (w_stats w) stage tc_frame_len packets cltu_len ret\<rparr>)"

text \<open>From the CLTU to a frame of the accepted channel: the stage and error, or the frame's bytes and fields.\<close>

definition tc_acquire_frame ::
  "ccsds_config \<Rightarrow> u8 \<Rightarrow> bytes \<Rightarrow> (ccsds_profile_tc_cltu_stage \<times> nat \<times> errno) + (bytes \<times> ccsds_tc_frame)" where
  "tc_acquire_frame cfg vcid cltu =
     (if length cltu > CCSDS_MAX_CLTU_LEN cfg then Inl (STAGE_OVERSIZE, 0, EMSGSIZE)
      else case ccsds_cltu_decode_message cfg cltu (CCSDS_MAX_FRAME_LEN cfg) of
        Inl e \<Rightarrow> Inl (STAGE_CLTU, 0, e)
      | Inr decoded \<Rightarrow>
          let frame_buf = (if CCSDS_TC_RND cfg then ccsds_rnd_apply decoded else decoded);
              n = length decoded
          in case ccsds_tc_frame_decode cfg frame_buf of
               Inl e \<Rightarrow> Inl (STAGE_TC_FRAME, n, e)
             | Inr frame \<Rightarrow>
                 if virtual_channel_id frame \<ge> 64 then Inl (STAGE_TC_FRAME, n, EINVAL)
                 else if virtual_channel_id frame \<noteq> vcid then Inl (STAGE_TC_FRAME, n, EACCES)
                 else if control_command frame \<and> \<not> bypass frame then Inl (STAGE_TC_FRAME, n, EINVAL)
                 else Inr (frame_buf, frame))"

text \<open>The security step: the stage and error, or the frame with clear data; and the environment.\<close>

definition tc_frame_security ::
  "('h, 'u, 'cb, 'app) tc_platform \<Rightarrow> ('h, 'u) ccsds_profile_tc_rx \<Rightarrow> bytes \<Rightarrow> ccsds_tc_frame \<Rightarrow>
     ('cb, 'app) tc_env \<Rightarrow>
     ((ccsds_profile_tc_cltu_stage \<times> errno) + ccsds_tc_frame) \<times> ('cb, 'app) tc_env" where
  "tc_frame_security pf profile frame_buf frame env =
     (if \<not> sdls_enabled profile \<or> control_command frame then (Inr frame, env)
      else if length (tc_data frame) < 1 then (Inl (STAGE_PACKET, EINVAL), env)
      else
        let segment_header = tc_data frame ! 0 in
        if clear_map_configured profile \<and> segment_header AND 0x3f = clear_map_id profile
        then if \<not> clear_map_enabled profile
             then (Inl (STAGE_SDLS, SDLS CCSDS_SDLS_ERR_SA_STATE), env)
             else (Inr frame, env)
        else case ccsds_sdls_process_security (p_sdls_cfg pf) (p_decrypt pf) (fst env)
                    CCSDS_SDLS_SA_OPERATIONAL_TC_RX
                    \<lparr>auth_data = take 6 frame_buf, auth_mask = ccsds_sdls_tc_default_auth_mask\<rparr>
                    (drop 1 (tc_data frame)) of
          (Inl e, ctx) \<Rightarrow> (Inl (STAGE_SDLS, e), (ctx, snd env))
        | (Inr clear, ctx) \<Rightarrow>
            let env = (ctx, snd env);
                (ret, env) = (case authenticated_rx_fn profile of
                                None \<Rightarrow> (RC_OK, env)
                              | Some f \<Rightarrow> p_rx_call pf f (authenticated_rx_user_data profile) env)
            in case ret of
                 RC_ERR e \<Rightarrow> (Inl (STAGE_SDLS, e), env)
               | RC_OK \<Rightarrow> (Inr (frame\<lparr>tc_data := segment_header # clear\<rparr>), env))"

definition clear_authenticated_rx :: "'cb ccsds_sdls_ctx \<Rightarrow> 'cb ccsds_sdls_ctx" where
  "clear_authenticated_rx ctx =
     ctx\<lparr>authenticated_rx_spi := 0, authenticated_rx_arsn := 0,
         authenticated_rx_valid := False, authenticated_rx_dispatching := False\<rparr>"

definition tc_forget_authenticated ::
  "('h, 'u) ccsds_profile_tc_rx \<Rightarrow> ('cb, 'app) tc_env \<Rightarrow> ('cb, 'app) tc_env" where
  "tc_forget_authenticated profile env =
     (if sdls_enabled profile then (clear_authenticated_rx (fst env), snd env) else env)"

text \<open>FARM, segment and dispatch for a frame that passed the security step.\<close>

definition tc_accept_frame ::
  "('h, 'u, 'cb, 'app) tc_platform \<Rightarrow> ('h, 'u, 'cb, 'app) tc_world \<Rightarrow> ccsds_tc_frame \<Rightarrow> nat \<Rightarrow> nat \<Rightarrow>
     rc \<times> ('h, 'u, 'cb, 'app) tc_world" where
  "tc_accept_frame pf w frame tc_frame_len cltu_len =
     (let profile = w_profile w;
          vc = (vc_state profile)\<lparr>farm_b_counter := (farm_b_counter (vc_state profile) + 1) AND 0x03\<rparr>
      in if control_command frame then
           (case handle_tc_control_frame vc frame of
              (ret, vc') \<Rightarrow>
                tc_finish (w\<lparr>w_profile := profile\<lparr>vc_state := vc'\<rparr>\<rparr>) STAGE_CONTROL tc_frame_len 0 cltu_len ret)
         else
           case update_tc_sequence_state (p_cfg pf) vc frame of
             (RC_ERR e, vc') \<Rightarrow>
               tc_finish (w\<lparr>w_profile := profile\<lparr>vc_state := vc'\<rparr>,
                            w_env := tc_forget_authenticated profile (w_env w)\<rparr>)
                 STAGE_TC_FRAME tc_frame_len 0 cltu_len (RC_ERR e)
           | (RC_OK, vc') \<Rightarrow>
               let profile = profile\<lparr>vc_state := vc'\<rparr> in
               case ccsds_tc_segment_decode_frame frame of
                 Inl e \<Rightarrow>
                   tc_finish (w\<lparr>w_profile := profile,
                                w_env := tc_forget_authenticated profile (w_env w)\<rparr>)
                     STAGE_PACKET tc_frame_len 0 cltu_len (RC_ERR e)
               | Inr segment \<Rightarrow>
                   let env = (if sdls_enabled profile
                              then ((fst (w_env w))\<lparr>authenticated_rx_dispatching := True\<rparr>, snd (w_env w))
                              else w_env w);
                       (ret, st) = ccsds_tc_segment_walk_parts segment
                         (dispatch_tc_segment_part pf (map_apid_route profile) (w_router w))
                         \<lparr>d_reassembly = reassembly profile, d_packets = 0, d_env = env\<rparr>;
                       w = w\<lparr>w_profile := profile\<lparr>reassembly := d_reassembly st\<rparr>,
                             w_env := tc_forget_authenticated profile (d_env st)\<rparr>
                   in if ret \<noteq> RC_OK then tc_finish w STAGE_ROUTER tc_frame_len 0 cltu_len ret
                      else tc_finish w STAGE_DISPATCHED tc_frame_len (d_packets st) cltu_len RC_OK)"

definition ccsds_profile_tc_cltu_dispatch ::
  "('h, 'u, 'cb, 'app) tc_platform \<Rightarrow> ('h, 'u, 'cb, 'app) tc_world \<Rightarrow> bytes \<Rightarrow>
     rc \<times> ('h, 'u, 'cb, 'app) tc_world" where
  "ccsds_profile_tc_cltu_dispatch pf w cltu =
     (case tc_acquire_frame (p_cfg pf) (accepted_vcid (w_profile w)) cltu of
        Inl (stage, n, e) \<Rightarrow> tc_finish w stage n 0 (length cltu) (RC_ERR e)
      | Inr (frame_buf, frame) \<Rightarrow>
          (case tc_frame_security pf (w_profile w) frame_buf frame (w_env w) of
             (Inl (stage, e), env) \<Rightarrow>
               tc_finish (w\<lparr>w_env := env\<rparr>) stage (length frame_buf) 0 (length cltu) (RC_ERR e)
           | (Inr frame, env) \<Rightarrow>
               tc_accept_frame pf (w\<lparr>w_env := env\<rparr>) frame (length frame_buf) (length cltu)))"

section \<open>The bounded-input profile\<close>

definition ccsds_profile_packet_dispatch ::
  "('h, 'u, 'cb, 'app) tc_platform \<Rightarrow> ('h, 'u, 'cb, 'app) tc_world \<Rightarrow> bytes \<Rightarrow>
     rc \<times> ('h, 'u, 'cb, 'app) tc_world" where
  "ccsds_profile_packet_dispatch pf w packet =
     (case ccsds_router_dispatch_bytes (p_call pf) (w_router w) packet (w_env w) of
        (ret, env) \<Rightarrow> (ret, w\<lparr>w_env := env\<rparr>))"

text \<open>\<open>frame_support\<close> is \<^verbatim>\<open>CONFIG_CCSDS_FRAME_SUPPORT\<close>.\<close>

definition ccsds_profile_input_dispatch_unit ::
  "bool \<Rightarrow> ('h, 'u, 'cb, 'app) tc_platform \<Rightarrow> ('h, 'u, 'cb, 'app) tc_world \<Rightarrow> bytes \<Rightarrow>
     rc \<times> ('h, 'u, 'cb, 'app) tc_world" where
  "ccsds_profile_input_dispatch_unit frame_support pf w unit =
     (if frame_support then ccsds_profile_tc_cltu_dispatch pf w unit
      else ccsds_profile_packet_dispatch pf w unit)"

section \<open>The reassembly buffer\<close>

definition reassembly_ok :: "ccsds_config \<Rightarrow> ccsds_profile_tc_reassembly \<Rightarrow> bool" where
  "reassembly_ok cfg ra \<longleftrightarrow>
     length (ra_buffer ra) = CCSDS_TC_MAX_SPACE_PACKET_LEN cfg \<and>
     ra_len ra \<le> expected_len ra \<and> expected_len ra \<le> CCSDS_TC_MAX_SPACE_PACKET_LEN cfg \<and>
     (ra_active ra \<longrightarrow> 0 < expected_len ra) \<and> (\<not> ra_active ra \<longrightarrow> ra_len ra = 0)"

lemma reassembly_ok_zero: "reassembly_ok cfg (zero_reassembly cfg)"
  by (simp add: reassembly_ok_def zero_reassembly_def)

lemma append_part_ok:
  assumes "reassembly_ok (p_cfg pf) (d_reassembly st)" "ra_active (d_reassembly st)"
  shows "reassembly_ok (p_cfg pf) (d_reassembly (snd (append_tc_segment_part pf route router part st)))"
  using assms
  by (auto simp: append_tc_segment_part_def Let_def reassembly_ok_zero split: prod.split sum.split)
    (auto simp: reassembly_ok_def length_copy_into)

lemma dispatch_part_ok:
  assumes "reassembly_ok (p_cfg pf) (d_reassembly st)"
  shows "reassembly_ok (p_cfg pf) (d_reassembly (snd (dispatch_tc_segment_part pf route router part st)))"
proof -
  have fresh: "reassembly_ok (p_cfg pf) (d_reassembly (st\<lparr>d_reassembly := (d_reassembly st)\<lparr>ra_active := True,
      ra_map_id := m, ra_len := 0, expected_len := n\<rparr>\<rparr>))"
    if "0 < n" "n \<le> CCSDS_TC_MAX_SPACE_PACKET_LEN (p_cfg pf)" for m n
    using assms that by (simp add: reassembly_ok_def)
  show ?thesis
    unfolding dispatch_tc_segment_part_def Let_def
    using assms fresh
    by (auto simp: reassembly_ok_zero intro!: append_part_ok split: sum.split prod.split option.split)
qed

lemma walk_reassembly_ok:
  assumes "reassembly_ok (p_cfg pf) (d_reassembly st)"
  shows "reassembly_ok (p_cfg pf)
    (d_reassembly (snd (ccsds_tc_segment_walk_parts segment (dispatch_tc_segment_part pf route router) st)))"
  by (rule walk_parts_inv [where I = "\<lambda>st. reassembly_ok (p_cfg pf) (d_reassembly st)"])
    (rule dispatch_part_ok, assumption, rule assms)

text \<open>The profile's invariant: the channel is valid and the reassembly buffer is in bounds.\<close>

definition profile_inv :: "ccsds_config \<Rightarrow> ('h, 'u) ccsds_profile_tc_rx \<Rightarrow> bool" where
  "profile_inv cfg profile \<longleftrightarrow> accepted_vcid profile < 64 \<and> reassembly_ok cfg (reassembly profile) \<and>
     (route_active (map_apid_route profile) \<longrightarrow> route_handler (map_apid_route profile) \<noteq> None)"

lemma tc_finish_simps [simp]:
  "fst (tc_finish w stage n k c ret) = ret" "w_profile (snd (tc_finish w stage n k c ret)) = w_profile w"
  "w_router (snd (tc_finish w stage n k c ret)) = w_router w" "w_env (snd (tc_finish w stage n k c ret)) = w_env w"
  by (simp_all add: tc_finish_def)

lemma accept_frame_inv:
  assumes "profile_inv (p_cfg pf) (w_profile w)"
  shows "profile_inv (p_cfg pf) (w_profile (snd (tc_accept_frame pf w frame n c)))"
proof -
  have "reassembly_ok (p_cfg pf) (reassembly (w_profile w))" using assms by (simp add: profile_inv_def)
  then have "reassembly_ok (p_cfg pf) (d_reassembly (snd (ccsds_tc_segment_walk_parts segment
      (dispatch_tc_segment_part pf route router) \<lparr>d_reassembly = reassembly (w_profile w), d_packets = 0, d_env = env\<rparr>)))"
    for segment route router env by (intro walk_reassembly_ok) simp
  with assms show ?thesis
    unfolding tc_accept_frame_def Let_def
    by (auto simp: profile_inv_def case_prod_beta split: sum.split option.split)
qed

lemma cltu_dispatch_inv:
  assumes "profile_inv (p_cfg pf) (w_profile w)"
  shows "profile_inv (p_cfg pf) (w_profile (snd (ccsds_profile_tc_cltu_dispatch pf w cltu)))"
  using assms
  by (auto simp: ccsds_profile_tc_cltu_dispatch_def accept_frame_inv split: sum.split prod.split)

text \<open>Everything that can happen to a receiver after its initialisation.\<close>

datatype ('h, 'u) profile_call =
    Receive_Cltu bytes
  | Set_Route u8 u16 'h "'u option"
  | Set_Sdls
  | Set_Clear_Map u8 bool
  | Set_Rx_Callback "'h option" "'u option"
  | Set_Vcid u8
  | Reset_Stats

fun profile_step ::
  "('h, 'u, 'cb, 'app) tc_platform \<Rightarrow> ('h, 'u, 'cb, 'app) tc_world \<Rightarrow> ('h, 'u) profile_call \<Rightarrow>
     ('h, 'u, 'cb, 'app) tc_world" where
  "profile_step pf w (Receive_Cltu cltu) = snd (ccsds_profile_tc_cltu_dispatch pf w cltu)"
| "profile_step pf w (Set_Route m a h u) =
     w\<lparr>w_profile := snd (ccsds_profile_tc_set_map_apid_handler (w_profile w) m a h u)\<rparr>"
| "profile_step pf w Set_Sdls = w\<lparr>w_profile := ccsds_profile_tc_rx_set_sdls (w_profile w)\<rparr>"
| "profile_step pf w (Set_Clear_Map m on) = w\<lparr>w_profile := snd (ccsds_profile_tc_set_clear_map (w_profile w) m on)\<rparr>"
| "profile_step pf w (Set_Rx_Callback f u) =
     w\<lparr>w_profile := ccsds_profile_tc_set_authenticated_rx_callback (w_profile w) f u\<rparr>"
| "profile_step pf w (Set_Vcid v) = w\<lparr>w_profile := snd (ccsds_profile_tc_set_accepted_vcid (w_profile w) v)\<rparr>"
| "profile_step pf w Reset_Stats = ccsds_profile_tc_rx_reset_stats w"

lemmas profile_setter_defs = ccsds_profile_tc_set_map_apid_handler_def ccsds_profile_tc_rx_set_sdls_def
  ccsds_profile_tc_set_clear_map_def ccsds_profile_tc_set_authenticated_rx_callback_def
  ccsds_profile_tc_set_accepted_vcid_def ccsds_profile_tc_rx_reset_stats_def

lemma profile_step_inv:
  "profile_inv (p_cfg pf) (w_profile w) \<Longrightarrow> profile_inv (p_cfg pf) (w_profile (profile_step pf w c))"
  by (cases c; simp add: cltu_dispatch_inv) (auto simp: profile_setter_defs profile_inv_def not_le)

lemma profile_inv_init: "profile_inv cfg (ccsds_profile_tc_rx_init cfg)"
  by (simp add: profile_inv_def ccsds_profile_tc_rx_init_def reassembly_ok_zero)

interpretation profile: stepper "profile_step pf" "\<lambda>w. profile_inv (p_cfg pf) (w_profile w)"
  for pf :: "('h, 'u, 'cb, 'app) tc_platform"
  by unfold_locales (rule profile_step_inv)

section \<open>No undefined step\<close>

text \<open>
  The application's side: no handler returns the code \<open>E_FAULT\<close>, which no C code has, and every
  active entry of the router has a handler.
\<close>

definition handlers_defined :: "('h, 'u, 'cb, 'app) tc_platform \<Rightarrow> ('h, 'u) ccsds_router \<Rightarrow> bool" where
  "handlers_defined pf router \<longleftrightarrow>
     (\<forall>h p u env. fst (p_call pf h p u env) \<noteq> RC_ERR E_FAULT) \<and>
     (\<forall>f u env. fst (p_rx_call pf f u env) \<noteq> RC_ERR E_FAULT) \<and>
     (\<forall>e\<in>set (entries router). active e \<longrightarrow> handler e \<noteq> None)"

lemma handlers_definedD:
  assumes "handlers_defined pf router"
  shows "fst (p_call pf h p u env) \<noteq> RC_ERR E_FAULT" "fst (p_rx_call pf f u env) \<noteq> RC_ERR E_FAULT"
    "e \<in> set (entries router) \<Longrightarrow> active e \<Longrightarrow> handler e \<noteq> None"
  using assms unfolding handlers_defined_def by blast+

lemma decoders_defined:
  "ccsds_space_packet_decode d \<noteq> Inl E_FAULT" "ccsds_tc_segment_decode_frame f \<noteq> Inl E_FAULT"
  "ccsds_tc_frame_decode cfg d \<noteq> Inl E_FAULT" "cltu_decode_blocks n body out \<noteq> Inl E_FAULT"
  "ccsds_cltu_decode_message cfg d cap \<noteq> Inl E_FAULT"
proof -
  show blocks: "cltu_decode_blocks n body out \<noteq> Inl E_FAULT" for n body out
    by (induction n arbitrary: body out) (simp_all split: prod.split ccsds_bch_result.split)
  show "ccsds_cltu_decode_message cfg d cap \<noteq> Inl E_FAULT"
    by (simp add: ccsds_cltu_decode_message_def Let_def blocks)
qed (simp_all add: ccsds_space_packet_decode_def ccsds_tc_segment_decode_frame_def ccsds_tc_segment_decode_def
    ccsds_tc_frame_decode_def Let_def)

lemma security_defined: "fst (ccsds_sdls_process_security cfg dec ctx role auth d) \<noteq> Inl E_FAULT"
  by (auto simp: ccsds_sdls_process_security_def process_current_frame_def ccsds_sdls_security_header_decode_def
      Let_def split: sum.split option.split)

lemma dispatch_packet_defined:
  assumes "handlers_defined pf router" "route_active route \<longrightarrow> route_handler route \<noteq> None"
  shows "fst (dispatch_tc_packet pf route router m packet env) \<noteq> RC_ERR E_FAULT"
proof -
  have "fst (dispatch_loop (p_call pf) es packet env) \<noteq> RC_ERR E_FAULT" if "\<forall>e\<in>set es. active e \<longrightarrow> handler e \<noteq> None" for es
    using that by (induction es) (auto simp: handlers_definedD [OF assms(1)] split: option.split)
  then have "fst (ccsds_router_dispatch (p_call pf) router packet env) \<noteq> RC_ERR E_FAULT"
    using handlers_definedD(3) [OF assms(1)] by (simp add: ccsds_router_dispatch_def)
  with assms(2) show ?thesis
    by (auto simp: dispatch_tc_packet_def handlers_definedD [OF assms(1)] split: option.split)
qed

lemma append_part_defined:
  assumes "handlers_defined pf router" "route_active route \<longrightarrow> route_handler route \<noteq> None"
    and "reassembly_ok (p_cfg pf) (d_reassembly st)"
  shows "fst (append_tc_segment_part pf route router part st) \<noteq> RC_ERR E_FAULT"
proof -
  note packet = dispatch_packet_defined [OF assms(1,2)]
  have "\<not> ra_len (d_reassembly st) + length (part_data part) > length (ra_buffer (d_reassembly st))"
    if "\<not> length (part_data part) > CCSDS_TC_MAX_SPACE_PACKET_LEN (p_cfg pf) - ra_len (d_reassembly st)"
    using that assms(3) unfolding reassembly_ok_def by linarith
  moreover have "fst (case ccsds_space_packet_decode b of Inl e \<Rightarrow> (RC_ERR e, env)
      | Inr p \<Rightarrow> dispatch_tc_packet pf route router m p env) \<noteq> RC_ERR E_FAULT" for b env m
    using packet decoders_defined(1) [of b] by (cases "ccsds_space_packet_decode b") auto
  ultimately show ?thesis by (simp add: append_tc_segment_part_def Let_def case_prod_beta)
qed

lemma dispatch_part_defined:
  assumes "handlers_defined pf router" "route_active route \<longrightarrow> route_handler route \<noteq> None"
    and "reassembly_ok (p_cfg pf) (d_reassembly st)"
  shows "fst (dispatch_tc_segment_part pf route router part st) \<noteq> RC_ERR E_FAULT"
proof -
  note packet = dispatch_packet_defined [OF assms(1,2)]
  have fresh: "reassembly_ok (p_cfg pf) (d_reassembly (st\<lparr>d_reassembly := (d_reassembly st)\<lparr>ra_active := True,
      ra_map_id := m, ra_len := 0, expected_len := n\<rparr>\<rparr>))"
    if "0 < n" "n \<le> CCSDS_TC_MAX_SPACE_PACKET_LEN (p_cfg pf)" for m n
    using assms(3) that by (simp add: reassembly_ok_def)
  note append = append_part_defined [OF assms(1,2)]
  have whole: "fst (case ccsds_space_packet_decode b of Inl e \<Rightarrow> (RC_ERR e, st)
      | Inr p \<Rightarrow> (case dispatch_tc_packet pf route router m p env of
            (RC_ERR e, env) \<Rightarrow> (RC_ERR e, st\<lparr>d_env := env\<rparr>)
          | (RC_OK, env) \<Rightarrow> (RC_OK, st\<lparr>d_env := env, d_packets := d_packets st + 1\<rparr>))) \<noteq> RC_ERR E_FAULT" for b env m
  proof (cases "ccsds_space_packet_decode b")
    case (Inr p)
    with packet [of m p env] show ?thesis by (auto split: prod.split option.split)
  qed (use decoders_defined(1) [of b] in auto)
  show ?thesis
    using whole append [OF fresh] append [OF assms(3)] by (simp add: dispatch_tc_segment_part_def Let_def)
qed

lemma frame_security_defined:
  assumes "handlers_defined pf router"
  shows "tc_frame_security pf profile frame_buf frame env = (Inl (stage, e), env') \<Longrightarrow> e \<noteq> E_FAULT"
proof -
  assume s: "tc_frame_security pf profile frame_buf frame env = (Inl (stage, e), env')"
  note call = handlers_definedD(2) [OF assms]
  show "e \<noteq> E_FAULT"
    using s security_defined [of "p_sdls_cfg pf" "p_decrypt pf" "fst env" CCSDS_SDLS_SA_OPERATIONAL_TC_RX
        "\<lparr>auth_data = take 6 frame_buf, auth_mask = ccsds_sdls_tc_default_auth_mask\<rparr>" "drop 1 (tc_data frame)"]
    by (auto simp: tc_frame_security_def Let_def simp del: split_paired_All
        split: if_splits prod.splits sum.splits option.splits) (metis call fst_conv)+
qed

lemma accept_frame_defined:
  assumes "handlers_defined pf (w_router w)" "profile_inv (p_cfg pf) (w_profile w)"
  shows "fst (tc_accept_frame pf w frame n c) \<noteq> RC_ERR E_FAULT"
proof -
  let ?route = "map_apid_route (w_profile w)"
  let ?st = "\<lparr>d_reassembly = reassembly (w_profile w), d_packets = 0, d_env = env\<rparr>"
  have inv: "reassembly_ok (p_cfg pf) (reassembly (w_profile w))" "route_active ?route \<longrightarrow> route_handler ?route \<noteq> None"
    using assms(2) by (simp_all add: profile_inv_def)
  have walk: "fst (ccsds_tc_segment_walk_parts segment (dispatch_tc_segment_part pf ?route (w_router w))
      \<lparr>d_reassembly = reassembly (w_profile w), d_packets = 0, d_env = env\<rparr>) \<noteq> RC_ERR E_FAULT" for segment env
    by (rule walk_parts_never [where I = "\<lambda>st. reassembly_ok (p_cfg pf) (d_reassembly st)"])
      (use dispatch_part_ok dispatch_part_defined [OF assms(1) inv(2)] inv(1) in auto)
  have control: "fst (handle_tc_control_frame vc frame) \<noteq> RC_ERR E_FAULT" for vc
    by (simp add: handle_tc_control_frame_def Let_def)
  have sequence: "fst (update_tc_sequence_state (p_cfg pf) vc frame) \<noteq> RC_ERR E_FAULT" for vc
    by (simp add: update_tc_sequence_state_def Let_def)
  show ?thesis
  proof (cases "control_command frame")
    case True
    with control show ?thesis by (simp add: tc_accept_frame_def Let_def case_prod_beta)
  next
    case False
    let ?vc = "(vc_state (w_profile w))\<lparr>farm_b_counter := (farm_b_counter (vc_state (w_profile w)) + 1) AND 0x03\<rparr>"
    obtain ret vc' where u: "update_tc_sequence_state (p_cfg pf) ?vc frame = (ret, vc')" by fastforce
    with sequence [of ?vc] have "ret \<noteq> RC_ERR E_FAULT" by simp
    with u False walk decoders_defined(2) [of frame] show ?thesis
      by (cases ret; cases "ccsds_tc_segment_decode_frame frame") (auto simp: tc_accept_frame_def Let_def case_prod_beta)
  qed
qed

lemma cltu_dispatch_defined:
  assumes "handlers_defined pf (w_router w)" "profile_inv (p_cfg pf) (w_profile w)"
  shows "fst (ccsds_profile_tc_cltu_dispatch pf w cltu) \<noteq> RC_ERR E_FAULT"
proof (cases "tc_acquire_frame (p_cfg pf) (accepted_vcid (w_profile w)) cltu")
  case (Inl a)
  have "snd (snd a) \<noteq> E_FAULT"
    using Inl decoders_defined(3,5)
    by (auto simp: tc_acquire_frame_def Let_def split: if_splits sum.splits)
  with Inl show ?thesis by (cases a) (simp add: ccsds_profile_tc_cltu_dispatch_def)
next
  case (Inr a)
  then obtain frame_buf frame where acq: "tc_acquire_frame (p_cfg pf) (accepted_vcid (w_profile w)) cltu = Inr (frame_buf, frame)"
    by (cases a) simp
  obtain r env where s: "tc_frame_security pf (w_profile w) frame_buf frame (w_env w) = (r, env)" by (rule prod.exhaust)
  show ?thesis
  proof (cases r)
    case (Inl e)
    with acq s frame_security_defined [OF assms(1), of "w_profile w" frame_buf frame "w_env w" "fst e" "snd e" env]
    show ?thesis by (cases e) (simp add: ccsds_profile_tc_cltu_dispatch_def)
  next
    case (Inr f)
    with acq s accept_frame_defined [of pf "w\<lparr>w_env := env\<rparr>" f] assms show ?thesis
      by (simp add: ccsds_profile_tc_cltu_dispatch_def)
  qed
qed

lemma profile_step_router [simp]: "w_router (profile_step pf w c) = w_router w"
proof (cases c)
  case (Receive_Cltu cltu)
  have "w_router (snd (tc_accept_frame pf w f n k)) = w_router w" for w :: "('a, 'b, 'c, 'd) tc_world" and f n k
    by (auto simp: tc_accept_frame_def Let_def case_prod_beta split: option.split sum.split)
  with Receive_Cltu show ?thesis
    by (auto simp: ccsds_profile_tc_cltu_dispatch_def split: sum.split prod.split)
qed (simp_all add: ccsds_profile_tc_rx_reset_stats_def)

lemma profile_run_router [simp]: "w_router (run (profile_step pf) w calls) = w_router w"
  by (induction calls arbitrary: w) simp_all

section \<open>Reassembly of a split packet\<close>

text \<open>The buffer holds the first bytes \<open>pre\<close> of a packet of \<open>n\<close> bytes from MAP \<open>m\<close>.\<close>

definition holding :: "ccsds_config \<Rightarrow> u8 \<Rightarrow> nat \<Rightarrow> bytes \<Rightarrow> ccsds_profile_tc_reassembly \<Rightarrow> bool" where
  "holding cfg m n pre ra \<longleftrightarrow> ra_active ra \<and> ra_map_id ra = m \<and> expected_len ra = n \<and>
     ra_len ra = length pre \<and> take (length pre) (ra_buffer ra) = pre \<and>
     length (ra_buffer ra) = CCSDS_TC_MAX_SPACE_PACKET_LEN cfg \<and> n \<le> CCSDS_TC_MAX_SPACE_PACKET_LEN cfg"

lemma take_copy_into:
  "length pre + length d \<le> length buf \<Longrightarrow> take (length pre) buf = pre \<Longrightarrow>
     take (length pre + length d) (copy_into buf (length pre) d) = pre @ d"
  by (simp add: copy_into_def)

lemma append_part_middle:
  assumes "holding (p_cfg pf) m n pre (d_reassembly st)" "length pre + length (part_data part) \<le> n"
    and "\<not> ends_packet part"
  shows "\<exists>ra. append_tc_segment_part pf route router part st = (RC_OK, st\<lparr>d_reassembly := ra\<rparr>) \<and>
    holding (p_cfg pf) m n (pre @ part_data part) ra"
  using assms take_copy_into [of pre "part_data part" "ra_buffer (d_reassembly st)"]
  by (auto simp: append_tc_segment_part_def Let_def holding_def length_copy_into)

lemma append_part_last:
  assumes "holding (p_cfg pf) m n pre (d_reassembly st)" "length pre + length (part_data part) = n"
    and "ends_packet part" "pre @ part_data part = packet_bytes p" "packet_ok p"
  shows "append_tc_segment_part pf route router part st =
    (case dispatch_tc_packet pf route router m p (d_env st) of (ret, env) \<Rightarrow>
       (ret, st\<lparr>d_reassembly := zero_reassembly (p_cfg pf), d_env := env,
          d_packets := d_packets st + (if ret = RC_OK then 1 else 0)\<rparr>))"
  using assms take_copy_into [of pre "part_data part" "ra_buffer (d_reassembly st)"]
    packet_decode_bytes [OF assms(5), of "[]"]
  by (auto simp: append_tc_segment_part_def Let_def holding_def length_copy_into split: prod.split)

definition tc_segment :: "ccsds_tc_segment_boundary \<Rightarrow> u8 \<Rightarrow> bytes \<Rightarrow> ccsds_tc_segment" where
  "tc_segment b m d = \<lparr>boundary = b, map_id = m, seg_data = d\<rparr>"

definition run_segment ::
  "('h, 'u, 'cb, 'app) tc_platform \<Rightarrow> ('h, 'u) ccsds_profile_map_apid_route \<Rightarrow> ('h, 'u) ccsds_router \<Rightarrow>
     ccsds_tc_segment \<Rightarrow> ('cb, 'app) ccsds_profile_segment_dispatch \<Rightarrow>
     rc \<times> ('cb, 'app) ccsds_profile_segment_dispatch" where
  "run_segment pf route router segment st =
     ccsds_tc_segment_walk_parts segment (dispatch_tc_segment_part pf route router) st"

lemma run_segment_continuation:
  assumes "holding (p_cfg pf) m n pre (d_reassembly st)" "length pre + length d \<le> n" "d \<noteq> []"
  shows "\<exists>ra. run_segment pf route router (tc_segment CCSDS_TC_SEGMENT_CONTINUATION m d) st =
    (RC_OK, st\<lparr>d_reassembly := ra\<rparr>) \<and> holding (p_cfg pf) m n (pre @ d) ra"
proof -
  let ?part = "\<lparr>part_map_id = m, segment_boundary = CCSDS_TC_SEGMENT_CONTINUATION, starts_packet = False,
    ends_packet = False, part_data = d, packet_len = 0\<rparr>"
  have "run_segment pf route router (tc_segment CCSDS_TC_SEGMENT_CONTINUATION m d) st =
      append_tc_segment_part pf route router ?part st"
    using assms(1,3)
    by (simp add: run_segment_def tc_segment_def ccsds_tc_segment_walk_parts_def emit_part_def
        segment_ends_packet_def dispatch_tc_segment_part_def holding_def Let_def)
  with append_part_middle [OF assms(1), of ?part] assms(2) show ?thesis by simp
qed

lemma run_segment_last:
  assumes "holding (p_cfg pf) m (length (packet_bytes p)) pre (d_reassembly st)" "d \<noteq> []"
    and "pre @ d = packet_bytes p" "packet_ok p"
  shows "run_segment pf route router (tc_segment CCSDS_TC_SEGMENT_LAST m d) st =
    (case dispatch_tc_packet pf route router m p (d_env st) of (ret, env) \<Rightarrow>
       (ret, st\<lparr>d_reassembly := zero_reassembly (p_cfg pf), d_env := env,
          d_packets := d_packets st + (if ret = RC_OK then 1 else 0)\<rparr>))"
proof -
  let ?part = "\<lparr>part_map_id = m, segment_boundary = CCSDS_TC_SEGMENT_LAST, starts_packet = False,
    ends_packet = True, part_data = d, packet_len = 0\<rparr>"
  have "run_segment pf route router (tc_segment CCSDS_TC_SEGMENT_LAST m d) st =
      append_tc_segment_part pf route router ?part st"
    using assms(1,2)
    by (simp add: run_segment_def tc_segment_def ccsds_tc_segment_walk_parts_def emit_part_def
        segment_ends_packet_def dispatch_tc_segment_part_def holding_def Let_def)
  moreover have "length pre + length d = length (packet_bytes p)" by (metis assms(3) length_append)
  ultimately show ?thesis using append_part_last [OF assms(1) _ _ _ assms(4), of ?part] assms(3) by simp
qed

lemma encoded_packet_len_prefix: "6 \<le> length f \<Longrightarrow> encoded_packet_len (f @ rest) = encoded_packet_len f"
  by (simp add: encoded_packet_len_def be16_at_def nth_append)

lemma run_segment_first:
  assumes "packet_ok p" "packet_bytes p = f @ rest" "6 \<le> length f" "rest \<noteq> []"
    and "length (packet_bytes p) \<le> CCSDS_TC_MAX_SPACE_PACKET_LEN (p_cfg pf)"
    and "reassembly_ok (p_cfg pf) (d_reassembly st)" "\<not> ra_active (d_reassembly st)"
  shows "\<exists>ra. run_segment pf route router (tc_segment CCSDS_TC_SEGMENT_FIRST m f) st =
    (RC_OK, st\<lparr>d_reassembly := ra\<rparr>) \<and> holding (p_cfg pf) m (length (packet_bytes p)) f ra"
proof -
  let ?n = "length (packet_bytes p)"
  let ?part = "\<lparr>part_map_id = m, segment_boundary = CCSDS_TC_SEGMENT_FIRST, starts_packet = True,
    ends_packet = False, part_data = f, packet_len = ?n\<rparr>"
  let ?st = "st\<lparr>d_reassembly := (d_reassembly st)\<lparr>ra_active := True, ra_map_id := m, ra_len := 0,
    expected_len := ?n\<rparr>\<rparr>"
  have n: "encoded_packet_len f = ?n"
    using encoded_packet_len_prefix [OF assms(3), of rest] encoded_packet_len_bytes [OF assms(1), of "[]"] assms(2)
    by simp
  have "length f < ?n" using assms(2,4) by simp
  then have "run_segment pf route router (tc_segment CCSDS_TC_SEGMENT_FIRST m f) st =
      append_tc_segment_part pf route router ?part ?st"
    using assms(3,5,7) n
    by (auto simp: run_segment_def tc_segment_def ccsds_tc_segment_walk_parts_def emit_part_def
        dispatch_tc_segment_part_def Let_def simp del: length_packet_bytes)
  moreover have "holding (p_cfg pf) m ?n [] (d_reassembly ?st)"
    using assms(5,6) by (simp add: holding_def reassembly_ok_def)
  ultimately show ?thesis
    using append_part_middle [of pf m ?n "[]" ?st ?part] \<open>length f < ?n\<close> by (auto simp del: length_packet_bytes)
qed

lemma feed_continuations:
  assumes "holding (p_cfg pf) m n pre (d_reassembly st)" "length pre + length (concat cs) \<le> n" "[] \<notin> set cs"
  shows "\<exists>ra. feed (run_segment pf route router) (map (tc_segment CCSDS_TC_SEGMENT_CONTINUATION m) cs) st =
    (RC_OK, st\<lparr>d_reassembly := ra\<rparr>) \<and> holding (p_cfg pf) m n (pre @ concat cs) ra"
  using assms
proof (induction cs arbitrary: pre st)
  case Nil
  then show ?case by (intro exI [of _ "d_reassembly st"]) simp
next
  case (Cons c cs)
  then have "length pre + length c \<le> n" "c \<noteq> []" by auto
  then obtain ra where ra: "run_segment pf route router (tc_segment CCSDS_TC_SEGMENT_CONTINUATION m c) st =
      (RC_OK, st\<lparr>d_reassembly := ra\<rparr>)" "holding (p_cfg pf) m n (pre @ c) ra"
    using run_segment_continuation [OF Cons.prems(1), of c route router] by blast
  with Cons.IH [of "pre @ c" "st\<lparr>d_reassembly := ra\<rparr>"] Cons.prems(2,3) show ?case by auto
qed

lemma feed_append:
  "feed h (ps @ qs) env =
     (case feed h ps env of (RC_ERR e, env') \<Rightarrow> (RC_ERR e, env') | (RC_OK, env') \<Rightarrow> feed h qs env')"
  by (induction ps arbitrary: env) (auto split: prod.splits option.splits)


lemma reassembly_delivers_aux:
  assumes "packet_ok p" "packet_bytes p = f @ concat cs @ l" "6 \<le> length f" "[] \<notin> set cs" "l \<noteq> []"
    and "length (packet_bytes p) \<le> CCSDS_TC_MAX_SPACE_PACKET_LEN (p_cfg pf)"
    and "reassembly_ok (p_cfg pf) (d_reassembly st)" "\<not> ra_active (d_reassembly st)"
  shows "feed (run_segment pf route router)
      (tc_segment CCSDS_TC_SEGMENT_FIRST m f # map (tc_segment CCSDS_TC_SEGMENT_CONTINUATION m) cs @
       [tc_segment CCSDS_TC_SEGMENT_LAST m l]) st =
    (case dispatch_tc_packet pf route router m p (d_env st) of (ret, env) \<Rightarrow>
       (ret, st\<lparr>d_reassembly := zero_reassembly (p_cfg pf), d_env := env,
          d_packets := d_packets st + (if ret = RC_OK then 1 else 0)\<rparr>))"
proof -
  let ?n = "length (packet_bytes p)"
  obtain ra where ra: "run_segment pf route router (tc_segment CCSDS_TC_SEGMENT_FIRST m f) st =
      (RC_OK, st\<lparr>d_reassembly := ra\<rparr>)" "holding (p_cfg pf) m ?n f ra"
    using run_segment_first [OF assms(1,2,3) _ assms(6,7,8), of route router m] assms(5) by blast
  have "length f + length (concat cs) \<le> ?n" unfolding assms(2) by simp
  then obtain rb where rb: "feed (run_segment pf route router)
      (map (tc_segment CCSDS_TC_SEGMENT_CONTINUATION m) cs) (st\<lparr>d_reassembly := ra\<rparr>) =
      (RC_OK, st\<lparr>d_reassembly := rb\<rparr>)" "holding (p_cfg pf) m ?n (f @ concat cs) rb"
    using feed_continuations [of pf m ?n f "st\<lparr>d_reassembly := ra\<rparr>" cs route router] ra(2) assms(4) by auto
  have last: "run_segment pf route router (tc_segment CCSDS_TC_SEGMENT_LAST m l) (st\<lparr>d_reassembly := rb\<rparr>) =
    (case dispatch_tc_packet pf route router m p (d_env st) of (ret, env) \<Rightarrow>
       (ret, st\<lparr>d_reassembly := zero_reassembly (p_cfg pf), d_env := env,
          d_packets := d_packets st + (if ret = RC_OK then 1 else 0)\<rparr>))"
    using run_segment_last [of pf m p "f @ concat cs" "st\<lparr>d_reassembly := rb\<rparr>" l route router] rb(2) assms
    by simp
  show ?thesis by (simp add: ra(1) feed_append rb(1) last split: prod.split option.split)
qed

lemma unsegmented_busy:
  assumes "ra_active (d_reassembly st)" "boundary segment = CCSDS_TC_SEGMENT_UNSEGMENTED"
    and "seg_data segment = concat (map packet_bytes ps)" "\<forall>p\<in>set ps. packet_ok p" "ps \<noteq> []"
  shows "run_segment pf route router segment st = (RC_ERR EBUSY, st)"
proof -
  obtain p qs where ps: "ps = p # qs" using assms(5) by (cases ps) auto
  then have "walk_loop segment h 0 st = (case h (whole_part segment (packet_bytes p)) st of
       (RC_ERR e, env') \<Rightarrow> (RC_ERR e, env')
     | (RC_OK, env') \<Rightarrow> walk_loop segment h (0 + length (packet_bytes p)) env')" for h
    using assms(3,4) by (intro walk_loop_packet) simp_all
  moreover have "seg_data segment \<noteq> []" using assms(3) ps by (auto simp: packet_bytes_def put_be16_def)
  ultimately show ?thesis using assms(1,2)
    by (simp add: run_segment_def ccsds_tc_segment_walk_parts_def Let_def dispatch_tc_segment_part_def whole_part_def)
qed

section \<open>What passes the security step\<close>

text \<open>The CLTU carries a data frame of the accepted channel that the SDLS context authenticates.\<close>

definition sdls_authenticates ::
  "('h, 'u, 'cb, 'app) tc_platform \<Rightarrow> ('h, 'u, 'cb, 'app) tc_world \<Rightarrow> bytes \<Rightarrow> bool" where
  "sdls_authenticates pf w cltu \<longleftrightarrow>
     (\<exists>frame_buf frame clear ctx.
        tc_acquire_frame (p_cfg pf) (accepted_vcid (w_profile w)) cltu = Inr (frame_buf, frame) \<and>
        \<not> control_command frame \<and>
        ccsds_sdls_process_security (p_sdls_cfg pf) (p_decrypt pf) (fst (w_env w))
          CCSDS_SDLS_SA_OPERATIONAL_TC_RX
          \<lparr>auth_data = take 6 frame_buf, auth_mask = ccsds_sdls_tc_default_auth_mask\<rparr>
          (drop 1 (tc_data frame)) = (Inr clear, ctx))"

definition carries_control :: "('h, 'u, 'cb, 'app) tc_platform \<Rightarrow> ('h, 'u, 'cb, 'app) tc_world \<Rightarrow> bytes \<Rightarrow> bool" where
  "carries_control pf w cltu \<longleftrightarrow>
     (\<exists>frame_buf frame. tc_acquire_frame (p_cfg pf) (accepted_vcid (w_profile w)) cltu = Inr (frame_buf, frame) \<and>
        control_command frame)"

lemma accept_control_frame:
  "control_command frame \<Longrightarrow>
     w_router (snd (tc_accept_frame pf w frame n c)) = w_router w \<and>
     w_env (snd (tc_accept_frame pf w frame n c)) = w_env w \<and>
     w_profile (snd (tc_accept_frame pf w frame n c)) =
       (w_profile w)\<lparr>vc_state := vc_state (w_profile (snd (tc_accept_frame pf w frame n c)))\<rparr>"
  by (auto simp: tc_accept_frame_def Let_def split: prod.split)

lemma frame_security_control [simp]:
  "control_command frame \<Longrightarrow> tc_frame_security pf profile frame_buf frame env = (Inr frame, env)"
  by (simp add: tc_frame_security_def)

lemma frame_security_rejects:
  assumes "sdls_enabled profile" "\<not> clear_map_configured profile" "\<not> control_command frame"
    and "\<nexists>clear ctx. ccsds_sdls_process_security (p_sdls_cfg pf) (p_decrypt pf) (fst env)
          CCSDS_SDLS_SA_OPERATIONAL_TC_RX
          \<lparr>auth_data = take 6 frame_buf, auth_mask = ccsds_sdls_tc_default_auth_mask\<rparr>
          (drop 1 (tc_data frame)) = (Inr clear, ctx)"
  shows "\<exists>stage e ctx. tc_frame_security pf profile frame_buf frame env = (Inl (stage, e), (ctx, snd env))"
  using assms by (cases env) (auto simp: tc_frame_security_def Let_def split: prod.split sum.split)


section \<open>The FARM-B counter\<close>

lemma farm_b_counter_steps:
  "farm_b_counter (snd (handle_tc_control_frame vc frame)) = farm_b_counter vc"
  "farm_b_counter (snd (update_tc_sequence_state cfg vc frame)) = farm_b_counter vc"
  by (simp_all add: handle_tc_control_frame_def update_tc_sequence_state_def Let_def)

text \<open>Every frame past the security step counts, of type A as well as of type B, accepted or not.\<close>

lemma farm_b_counts_every_frame:
  "farm_b_counter (vc_state (w_profile (snd (tc_accept_frame pf w frame n c)))) =
     (farm_b_counter (vc_state (w_profile w)) + 1) AND 3"
proof -
  let ?vc = "(vc_state (w_profile w))\<lparr>farm_b_counter := (farm_b_counter (vc_state (w_profile w)) + 1) AND 3\<rparr>"
  show ?thesis
    using farm_b_counter_steps(1) [of ?vc frame] farm_b_counter_steps(2) [of "p_cfg pf" ?vc frame]
    by (auto simp: tc_accept_frame_def Let_def split: prod.split option.split sum.split)
qed

section \<open>A receiver whose handlers log what they are given\<close>

definition logging_platform :: "(unit, unit, unit, ccsds_space_packet list) tc_platform" where
  "logging_platform = \<lparr>p_cfg = default_config, p_sdls_cfg = default_sdls_config,
     p_decrypt = (\<lambda>_ _ _ _. Inl PSA_ERROR_INVALID_SIGNATURE),
     p_call = (\<lambda>_ packet _ env. (RC_OK, (fst env, snd env @ [packet]))),
     p_rx_call = (\<lambda>_ _ env. (RC_OK, env))\<rparr>"

definition logging_world :: "(unit, unit, unit, ccsds_space_packet list) tc_world" where
  "logging_world = \<lparr>w_router = ccsds_router_init default_config,
     w_profile = ccsds_profile_tc_rx_init default_config, w_stats = zero_stats,
     w_env = (zero_ctx default_sdls_config, [])\<rparr>"

definition sample_packet :: "u8 list \<Rightarrow> ccsds_space_packet" where
  "sample_packet d = \<lparr>version = 0, packet_type = CCSDS_PACKET_TYPE_TC, secondary_header = False, apid = 1,
    sequence_flags = CCSDS_SEQUENCE_UNSEGMENTED, sequence_count = 0, payload = d\<rparr>"

definition sample_route :: "(unit, unit) ccsds_profile_map_apid_route" where
  "sample_route = \<lparr>route_handler = Some (), route_user_data = None, route_apid = 1, route_map_id = 3,
     route_active = True\<rparr>"

lemma sample_packet_ok: "d \<noteq> [] \<Longrightarrow> length d < 100 \<Longrightarrow> packet_ok (sample_packet d)"
  by (cases d) (auto simp: sample_packet_def packet_ok_def CCSDS_APID_MAX_def)

lemma sample_packet_bytes:
  "packet_bytes (sample_packet d) = [0x10, 1, 0xc0, 0] @ put_be16 (word_of_nat (length d - 1)) @ d"
  by (simp add: sample_packet_def packet_bytes_def packet_word0_def packet_word1_def put_be16_def)

section \<open>Properties\<close>

text \<open>
  C22. Reassembly: a packet cut into a first fragment (holding at least its primary header),
  any number of continuation fragments and a last fragment, sent on one MAP into an idle
  receiver, is dispatched exactly once, whole and unchanged, with that MAP; the buffer is
  cleared afterwards and the handler's result is the result.
\<close>

theorem reassembly_delivers:
  assumes "packet_ok p" "packet_bytes p = f @ concat cs @ l" "6 \<le> length f" "[] \<notin> set cs" "l \<noteq> []"
    and "length (packet_bytes p) \<le> CCSDS_TC_MAX_SPACE_PACKET_LEN (p_cfg pf)"
    and "reassembly_ok (p_cfg pf) (d_reassembly st)" "\<not> ra_active (d_reassembly st)"
  shows "feed (\<lambda>segment. ccsds_tc_segment_walk_parts segment (dispatch_tc_segment_part pf route router))
      (tc_segment CCSDS_TC_SEGMENT_FIRST m f # map (tc_segment CCSDS_TC_SEGMENT_CONTINUATION m) cs @
       [tc_segment CCSDS_TC_SEGMENT_LAST m l]) st =
    (case dispatch_tc_packet pf route router m p (d_env st) of (ret, env) \<Rightarrow>
       (ret, st\<lparr>d_reassembly := zero_reassembly (p_cfg pf), d_env := env,
          d_packets := d_packets st + (if ret = RC_OK then 1 else 0)\<rparr>))"
  using reassembly_delivers_aux [OF assms, of route router m]
  by (simp add: run_segment_def [abs_def])

theorem reassembly_delivers_witness:
  "feed (\<lambda>segment. ccsds_tc_segment_walk_parts segment
        (dispatch_tc_segment_part logging_platform sample_route (ccsds_router_init default_config)))
      [tc_segment CCSDS_TC_SEGMENT_FIRST 3 [0x10, 1, 0xc0, 0, 0, 3, 7],
       tc_segment CCSDS_TC_SEGMENT_CONTINUATION 3 [8],
       tc_segment CCSDS_TC_SEGMENT_LAST 3 [9, 10]]
      \<lparr>d_reassembly = zero_reassembly default_config, d_packets = 0, d_env = w_env logging_world\<rparr> =
    (RC_OK, \<lparr>d_reassembly = zero_reassembly default_config, d_packets = 1,
       d_env = (zero_ctx default_sdls_config, [sample_packet [7, 8, 9, 10]])\<rparr>)"
proof -
  let ?st = "\<lparr>d_reassembly = zero_reassembly default_config, d_packets = 0, d_env = w_env logging_world\<rparr>"
  have cfg: "p_cfg logging_platform = default_config" by (simp add: logging_platform_def)
  have "packet_bytes (sample_packet [7, 8, 9, 10]) = [0x10, 1, 0xc0, 0, 0, 3, 7] @ concat [[8]] @ [9, 10]"
    by (simp add: sample_packet_bytes put_be16_def)
  moreover have "dispatch_tc_packet logging_platform sample_route (ccsds_router_init default_config) 3
      (sample_packet [7, 8, 9, 10]) (w_env logging_world) =
      (RC_OK, (zero_ctx default_sdls_config, [sample_packet [7, 8, 9, 10]]))"
    by (simp add: dispatch_tc_packet_def sample_route_def sample_packet_def logging_platform_def logging_world_def)
  ultimately show ?thesis
    using reassembly_delivers [of "sample_packet [7, 8, 9, 10]" "[0x10, 1, 0xc0, 0, 0, 3, 7]" "[[8]]" "[9, 10]"
        logging_platform ?st sample_route "ccsds_router_init default_config" 3]
    by (simp add: cfg sample_packet_ok reassembly_ok_zero) (simp add: default_config_def zero_reassembly_def)
qed

text \<open>
  C34. An unfinished reassembly blocks complete packets: while a fragment is held, every
  segment of whole packets is refused with \<open>EBUSY\<close> and neither the buffer nor anything else
  changes, so any number of such segments leaves the receiver exactly as blocked as before.
\<close>

theorem unfinished_reassembly_blocks:
  assumes "ra_active (d_reassembly st)"
    and "\<forall>segment\<in>set segments. boundary segment = CCSDS_TC_SEGMENT_UNSEGMENTED \<and>
      (\<exists>ps. ps \<noteq> [] \<and> (\<forall>p\<in>set ps. packet_ok p) \<and> seg_data segment = concat (map packet_bytes ps))"
  shows "session (\<lambda>st segment. ccsds_tc_segment_walk_parts segment (dispatch_tc_segment_part pf route router) st)
    st segments = (replicate (length segments) (RC_ERR EBUSY), st)"
  using assms(2)
proof (induction segments)
  case (Cons segment segments)
  then obtain ps where "ps \<noteq> []" "\<forall>p\<in>set ps. packet_ok p" "seg_data segment = concat (map packet_bytes ps)"
    by auto
  with unsegmented_busy [OF assms(1), of segment ps pf route router] Cons show ?case by (simp add: run_segment_def)
qed simp

theorem unfinished_reassembly_blocks_witness:
  "session (\<lambda>st segment. ccsds_tc_segment_walk_parts segment
        (dispatch_tc_segment_part logging_platform sample_route (ccsds_router_init default_config)) st)
      \<lparr>d_reassembly = (zero_reassembly default_config)\<lparr>ra_active := True, ra_map_id := 3, expected_len := 8,
         ra_len := 7\<rparr>, d_packets = 0, d_env = w_env logging_world\<rparr>
      [tc_segment CCSDS_TC_SEGMENT_UNSEGMENTED 3 [0x10, 1, 0xc0, 0, 0, 0, 7],
       tc_segment CCSDS_TC_SEGMENT_UNSEGMENTED 3 [0x10, 1, 0xc0, 0, 0, 0, 7]] =
    ([RC_ERR EBUSY, RC_ERR EBUSY],
     \<lparr>d_reassembly = (zero_reassembly default_config)\<lparr>ra_active := True, ra_map_id := 3, expected_len := 8,
         ra_len := 7\<rparr>, d_packets = 0, d_env = w_env logging_world\<rparr>)"
proof -
  let ?seg = "tc_segment CCSDS_TC_SEGMENT_UNSEGMENTED 3 [0x10, 1, 0xc0, 0, 0, 0, 7]"
  let ?st = "\<lparr>d_reassembly = (zero_reassembly default_config)\<lparr>ra_active := True, ra_map_id := 3, expected_len := 8,
         ra_len := 7\<rparr>, d_packets = 0, d_env = w_env logging_world\<rparr>"
  have "concat (map packet_bytes [sample_packet [7]]) = [0x10, 1, 0xc0, 0, 0, 0, 7]"
    by (simp add: sample_packet_bytes put_be16_def)
  moreover have "packet_ok (sample_packet [7])" by (rule sample_packet_ok) simp_all
  ultimately have "\<exists>ps. ps \<noteq> [] \<and> (\<forall>p\<in>set ps. packet_ok p) \<and> seg_data ?seg = concat (map packet_bytes ps)"
    by (intro exI [of _ "[sample_packet [7]]"]) (simp add: tc_segment_def)
  then show ?thesis
    using unfinished_reassembly_blocks [of ?st "[?seg, ?seg]" logging_platform sample_route
        "ccsds_router_init default_config"]
    by (simp add: tc_segment_def)
qed

text \<open>
  C4. With SDLS enabled and no clear MAP, a CLTU whose frame is not authenticated cannot
  reach the application: the application's state, the reassembly buffer, the routes and the
  router stay as they were; and unless it is a control frame, nothing of the profile changes,
  FARM included.
\<close>

theorem unauthenticated_changes_nothing:
  assumes "sdls_enabled (w_profile w)" "\<not> clear_map_configured (w_profile w)"
    and "\<not> sdls_authenticates pf w cltu"
  shows "let (ret, w') = ccsds_profile_tc_cltu_dispatch pf w cltu in
    snd (w_env w') = snd (w_env w) \<and> w_router w' = w_router w \<and>
    w_profile w' = (w_profile w)\<lparr>vc_state := vc_state (w_profile w')\<rparr> \<and>
    (\<not> carries_control pf w cltu \<longrightarrow> w_profile w' = w_profile w \<and> ret \<noteq> RC_OK)"
proof (cases "tc_acquire_frame (p_cfg pf) (accepted_vcid (w_profile w)) cltu")
  case (Inl a)
  then show ?thesis by (cases a) (simp add: ccsds_profile_tc_cltu_dispatch_def Let_def case_prod_beta)
next
  case (Inr a)
  then obtain frame_buf frame where acq:
    "tc_acquire_frame (p_cfg pf) (accepted_vcid (w_profile w)) cltu = Inr (frame_buf, frame)" by (cases a) auto
  show ?thesis
  proof (cases "control_command frame")
    case True
    with acq have "carries_control pf w cltu" by (auto simp: carries_control_def)
    with acq True accept_control_frame [OF True, of pf w "length frame_buf" "length cltu"] show ?thesis
      by (simp add: ccsds_profile_tc_cltu_dispatch_def Let_def case_prod_beta)
  next
    case False
    with acq assms(3) obtain stage e ctx where
      "tc_frame_security pf (w_profile w) frame_buf frame (w_env w) = (Inl (stage, e), (ctx, snd (w_env w)))"
      using frame_security_rejects [OF assms(1,2) False, of pf "w_env w" frame_buf]
      unfolding sdls_authenticates_def by blast
    with acq show ?thesis by (simp add: ccsds_profile_tc_cltu_dispatch_def Let_def case_prod_beta)
  qed
qed

theorem unauthenticated_changes_nothing_witness:
  "let cltu = [0xeb, 0x90, 0x20, 0x7b, 0, 6, 0, 0xc3, 0xaa, 0x18] @ cltu_tail_sequence;
       w = logging_world\<lparr>w_profile := ccsds_profile_tc_rx_set_sdls (ccsds_profile_tc_rx_init default_config)\<rparr>;
       (ret, w') = ccsds_profile_tc_cltu_dispatch logging_platform w cltu
   in \<not> sdls_authenticates logging_platform w cltu \<and>
      snd (w_env w') = [] \<and> w_profile w' = w_profile w \<and> ret \<noteq> RC_OK"
proof -
  let ?cltu = "[0xeb, 0x90, 0x20, 0x7b, 0, 6, 0, 0xc3, 0xaa, 0x18] @ cltu_tail_sequence"
  let ?profile = "ccsds_profile_tc_rx_set_sdls (ccsds_profile_tc_rx_init default_config)
    :: (unit, unit) ccsds_profile_tc_rx"
  let ?w = "logging_world\<lparr>w_profile := ?profile\<rparr>"
  let ?frame = "\<lparr>spacecraft_id = 123, virtual_channel_id = 0, bypass = True, control_command = False,
      frame_sequence_number = 0, tc_data = [0xc3, 0xaa]\<rparr>"
  have acq: "tc_acquire_frame default_config 0 ?cltu = Inr ([0x20, 0x7b, 0, 6, 0, 0xc3, 0xaa], ?frame)"
    by code_simp
  have p: "sdls_enabled ?profile" "\<not> clear_map_configured ?profile" "accepted_vcid ?profile = 0"
    by (simp_all add: ccsds_profile_tc_rx_set_sdls_def ccsds_profile_tc_rx_init_def)
  have "\<not> sdls_authenticates logging_platform ?w ?cltu" "\<not> carries_control logging_platform ?w ?cltu"
    using acq p by (simp_all add: sdls_authenticates_def carries_control_def logging_platform_def
        ccsds_sdls_process_security_def Let_def)
  then show ?thesis
    using unauthenticated_changes_nothing [of ?w logging_platform ?cltu] p
    by (simp add: Let_def case_prod_beta logging_world_def)
qed

text \<open>
  C27. A receiver's state stays sound and its copies stay in bounds.  Whatever sequence of CLTUs
  and configuration calls it sees after its initialisation, its channel is below 64, its route
  has a handler, the held length never passes the expected length, nor that the buffer; and no
  CLTU that arrives then, whatever its octets, makes it copy past the end of the reassembly
  buffer or call a handler that is not there (both are the outcome \<open>E_FAULT\<close> of the model), provided
  the router's active entries have handlers and no handler itself reports \<open>E_FAULT\<close>.
\<close>

theorem profile_inv_always:
  assumes "handlers_defined pf (w_router w)"
    and "w' = run (profile_step pf) (w\<lparr>w_profile := ccsds_profile_tc_rx_init (p_cfg pf)\<rparr>) calls"
  shows "profile_inv (p_cfg pf) (w_profile w') \<and> fst (ccsds_profile_tc_cltu_dispatch pf w' cltu) \<noteq> RC_ERR E_FAULT"
proof -
  have "profile_inv (p_cfg pf) (w_profile w')"
    unfolding assms(2) by (rule profile.run_inv) (simp add: profile_inv_init)
  moreover have "w_router w' = w_router w" by (simp add: assms(2))
  ultimately show ?thesis using cltu_dispatch_defined [of pf w' cltu] assms(1) by simp
qed

theorem profile_inv_always_witness:
  "fst (ccsds_profile_tc_cltu_dispatch logging_platform
     (run (profile_step logging_platform) (logging_world\<lparr>w_profile := ccsds_profile_tc_rx_init (p_cfg logging_platform)\<rparr>)
        [Set_Route 3 1 () None, Set_Vcid 1, Receive_Cltu [0xeb, 0x90]]) [0xeb, 0x90, 1, 2]) \<noteq> RC_ERR E_FAULT"
proof -
  have "handlers_defined logging_platform (w_router logging_world)"
    by (simp add: handlers_defined_def logging_platform_def logging_world_def ccsds_router_init_def zero_entry_def)
  from profile_inv_always [OF this refl] show ?thesis by (rule conjunct2)
qed

end
