(* ===== verification/Crc16.thy ===== *)
theory Crc16
  imports Ccsds_Prelude
begin

unbundle bit_operations_syntax

text \<open>
  The CRC-16 primitive (\<^verbatim>\<open>src/ccsds_crc16.c\<close>): the 256-entry table, the byte-wise update loop,
  \<open>compute\<close> and \<open>check\<close>.  The reference is the bitwise shift register for the generator
  polynomial named in the header (\<open>CCSDS_CRC16_POLY\<close>).  The table loop is proved equal to
  it; the appended CRC makes every buffer check; and a corruption inside two adjacent bytes
  (a burst of at most 16 bits on byte boundaries) is always detected.
\<close>

section \<open>The code\<close>

definition CCSDS_CRC16_INIT :: u16 where "CCSDS_CRC16_INIT = 0xffff"
definition CCSDS_CRC16_POLY :: u16 where "CCSDS_CRC16_POLY = 0x1021"

definition crc16_table :: "u16 list" where
  "crc16_table = [
     0x0000, 0x1021, 0x2042, 0x3063, 0x4084, 0x50a5, 0x60c6, 0x70e7,
     0x8108, 0x9129, 0xa14a, 0xb16b, 0xc18c, 0xd1ad, 0xe1ce, 0xf1ef,
     0x1231, 0x0210, 0x3273, 0x2252, 0x52b5, 0x4294, 0x72f7, 0x62d6,
     0x9339, 0x8318, 0xb37b, 0xa35a, 0xd3bd, 0xc39c, 0xf3ff, 0xe3de,
     0x2462, 0x3443, 0x0420, 0x1401, 0x64e6, 0x74c7, 0x44a4, 0x5485,
     0xa56a, 0xb54b, 0x8528, 0x9509, 0xe5ee, 0xf5cf, 0xc5ac, 0xd58d,
     0x3653, 0x2672, 0x1611, 0x0630, 0x76d7, 0x66f6, 0x5695, 0x46b4,
     0xb75b, 0xa77a, 0x9719, 0x8738, 0xf7df, 0xe7fe, 0xd79d, 0xc7bc,
     0x48c4, 0x58e5, 0x6886, 0x78a7, 0x0840, 0x1861, 0x2802, 0x3823,
     0xc9cc, 0xd9ed, 0xe98e, 0xf9af, 0x8948, 0x9969, 0xa90a, 0xb92b,
     0x5af5, 0x4ad4, 0x7ab7, 0x6a96, 0x1a71, 0x0a50, 0x3a33, 0x2a12,
     0xdbfd, 0xcbdc, 0xfbbf, 0xeb9e, 0x9b79, 0x8b58, 0xbb3b, 0xab1a,
     0x6ca6, 0x7c87, 0x4ce4, 0x5cc5, 0x2c22, 0x3c03, 0x0c60, 0x1c41,
     0xedae, 0xfd8f, 0xcdec, 0xddcd, 0xad2a, 0xbd0b, 0x8d68, 0x9d49,
     0x7e97, 0x6eb6, 0x5ed5, 0x4ef4, 0x3e13, 0x2e32, 0x1e51, 0x0e70,
     0xff9f, 0xefbe, 0xdfdd, 0xcffc, 0xbf1b, 0xaf3a, 0x9f59, 0x8f78,
     0x9188, 0x81a9, 0xb1ca, 0xa1eb, 0xd10c, 0xc12d, 0xf14e, 0xe16f,
     0x1080, 0x00a1, 0x30c2, 0x20e3, 0x5004, 0x4025, 0x7046, 0x6067,
     0x83b9, 0x9398, 0xa3fb, 0xb3da, 0xc33d, 0xd31c, 0xe37f, 0xf35e,
     0x02b1, 0x1290, 0x22f3, 0x32d2, 0x4235, 0x5214, 0x6277, 0x7256,
     0xb5ea, 0xa5cb, 0x95a8, 0x8589, 0xf56e, 0xe54f, 0xd52c, 0xc50d,
     0x34e2, 0x24c3, 0x14a0, 0x0481, 0x7466, 0x6447, 0x5424, 0x4405,
     0xa7db, 0xb7fa, 0x8799, 0x97b8, 0xe75f, 0xf77e, 0xc71d, 0xd73c,
     0x26d3, 0x36f2, 0x0691, 0x16b0, 0x6657, 0x7676, 0x4615, 0x5634,
     0xd94c, 0xc96d, 0xf90e, 0xe92f, 0x99c8, 0x89e9, 0xb98a, 0xa9ab,
     0x5844, 0x4865, 0x7806, 0x6827, 0x18c0, 0x08e1, 0x3882, 0x28a3,
     0xcb7d, 0xdb5c, 0xeb3f, 0xfb1e, 0x8bf9, 0x9bd8, 0xabbb, 0xbb9a,
     0x4a75, 0x5a54, 0x6a37, 0x7a16, 0x0af1, 0x1ad0, 0x2ab3, 0x3a92,
     0xfd2e, 0xed0f, 0xdd6c, 0xcd4d, 0xbdaa, 0xad8b, 0x9de8, 0x8dc9,
     0x7c26, 0x6c07, 0x5c64, 0x4c45, 0x3ca2, 0x2c83, 0x1ce0, 0x0cc1,
     0xef1f, 0xff3e, 0xcf5d, 0xdf7c, 0xaf9b, 0xbfba, 0x8fd9, 0x9ff8,
     0x6e17, 0x7e36, 0x4e55, 0x5e74, 0x2e93, 0x3eb2, 0x0ed1, 0x1ef0]"

text \<open>The loop body of \<^verbatim>\<open>ccsds_crc16_update\<close>.\<close>

definition crc16_update_byte :: "u16 \<Rightarrow> u8 \<Rightarrow> u16" where
  "crc16_update_byte crc d =
     (let table_index = ucast (drop_bit 8 crc XOR ucast d) :: u8
      in push_bit 8 crc XOR crc16_table ! unat table_index)"

fun ccsds_crc16_update :: "u16 \<Rightarrow> bytes \<Rightarrow> u16" where
  "ccsds_crc16_update crc [] = crc"
| "ccsds_crc16_update crc (d # data) = ccsds_crc16_update (crc16_update_byte crc d) data"

definition ccsds_crc16_compute :: "bytes \<Rightarrow> u16" where
  "ccsds_crc16_compute data = ccsds_crc16_update CCSDS_CRC16_INIT data"

definition ccsds_crc16_check :: "bytes \<Rightarrow> bool" where
  "ccsds_crc16_check data = (if length data < 2 then False else ccsds_crc16_compute data = 0)"

section \<open>The bitwise reference\<close>

definition crc16_bit :: "u16 \<Rightarrow> u16" where
  "crc16_bit c = (if bit c 15 then push_bit 1 c XOR CCSDS_CRC16_POLY else push_bit 1 c)"

fun crc16_bits :: "nat \<Rightarrow> u16 \<Rightarrow> u16" where
  "crc16_bits 0 c = c"
| "crc16_bits (Suc n) c = crc16_bits n (crc16_bit c)"

definition crc16_ref_byte :: "u16 \<Rightarrow> u8 \<Rightarrow> u16" where
  "crc16_ref_byte c d = crc16_bits 8 (c XOR push_bit 8 (ucast d))"

fun crc16_ref :: "u16 \<Rightarrow> bytes \<Rightarrow> u16" where
  "crc16_ref c [] = c"
| "crc16_ref c (d # ds) = crc16_ref (crc16_ref_byte c d) ds"

lemma crc16_bits_numeral: "crc16_bits (numeral k) c = crc16_bits (pred_numeral k) (crc16_bit c)"
  by (simp add: numeral_eq_Suc)

lemmas crc16_eval = crc16_bits_numeral crc16_ref_byte_def crc16_bit_def CCSDS_CRC16_POLY_def

subsection \<open>Linearity and injectivity of the shift register\<close>

lemma crc16_bit_xor: "crc16_bit (a XOR b) = crc16_bit a XOR crc16_bit b"
  by (rule bit_word_eqI) (auto simp: crc16_bit_def bit_simps)

lemma crc16_bits_xor: "crc16_bits n (a XOR b) = crc16_bits n a XOR crc16_bits n b"
  by (induction n arbitrary: a b) (simp_all add: crc16_bit_xor)

lemma crc16_bit_0 [simp]: "crc16_bit 0 = 0"
  by (simp add: crc16_bit_def)

lemma crc16_bits_0 [simp]: "crc16_bits n 0 = 0"
  by (induction n) simp_all

lemma crc16_bits_add: "crc16_bits (m + n) c = crc16_bits n (crc16_bits m c)"
  by (induction m arbitrary: c) simp_all

lemma crc16_bit_eq_0: "crc16_bit c = 0 \<Longrightarrow> c = 0"
proof -
  assume eq: "crc16_bit c = 0"
  have "bit (crc16_bit c) 0 = bit c 15"
    by (simp add: crc16_bit_def CCSDS_CRC16_POLY_def bit_simps bit_0 even_xor_iff)
  with eq have "\<not> bit c 15" by simp
  with eq have shift: "push_bit 1 c = 0" by (simp add: crc16_bit_def)
  show "c = 0"
  proof (rule bit_word_eqI)
    fix n :: nat
    assume "n < LENGTH(16)"
    moreover have "bit (push_bit 1 c) (Suc n) = bit c n" if "Suc n < 16"
      using that by (subst bit_push_bit_iff) simp
    ultimately show "bit c n = bit (0 :: u16) n"
      using shift \<open>\<not> bit c 15\<close> by (cases "n = 15") auto
  qed
qed

lemma crc16_bits_eq_0: "crc16_bits n c = 0 \<Longrightarrow> c = 0"
  by (induction n arbitrary: c) (auto dest: crc16_bit_eq_0)

lemma crc16_bits_inject: "crc16_bits n a = crc16_bits n b \<longleftrightarrow> a = b"
  by (metis crc16_bits_xor crc16_bits_eq_0 word_xor_eq_0)

lemma crc16_bit_shift: "\<not> bit c 15 \<Longrightarrow> crc16_bit c = push_bit 1 c"
  by (simp add: crc16_bit_def)

lemma crc16_bits_Suc: "crc16_bits (Suc n) c = crc16_bit (crc16_bits n c)"
  using crc16_bits_add [of n 1 c] by simp

lemma crc16_bit_bits: "crc16_bit (crc16_bits n c) = crc16_bits n (crc16_bit c)"
  by (metis crc16_bits.simps(2) crc16_bits_Suc)

lemma crc16_bits_shift: "n \<le> 8 \<Longrightarrow> crc16_bits n (ucast (d :: u8)) = push_bit n (ucast d)"
proof (induction n)
  case 0
  then show ?case by simp
next
  case (Suc n)
  then have "\<not> bit (push_bit n (ucast d :: u16)) 15"
    by (auto simp: bit_simps dest: bit_imp_le_length)
  with Suc show ?case
    by (simp add: crc16_bits_Suc crc16_bit_shift del: crc16_bits.simps(2))
qed

subsection \<open>The table\<close>

text \<open>
  The table obeys a doubling law: entry \<open>2i\<close> is one register step of entry \<open>i\<close>, and entry
  \<open>2i + 1\<close> adds the polynomial.  \<open>table_doubles\<close> checks it along the list.
\<close>

fun table_doubles :: "u16 list \<Rightarrow> u16 list \<Rightarrow> bool" where
  "table_doubles ts [] = True"
| "table_doubles (t # ts) (a # b # rest) =
     (a = crc16_bit t \<and> b = crc16_bit t XOR CCSDS_CRC16_POLY \<and> table_doubles ts rest)"
| "table_doubles _ _ = False"

lemma crc16_table_doubles: "table_doubles crc16_table crc16_table"
  by (simp add: crc16_table_def crc16_bit_def CCSDS_CRC16_POLY_def)

lemma length_crc16_table [simp]: "length crc16_table = 256"
  by (simp add: crc16_table_def)

lemma table_doubles_nth:
  "table_doubles ts us \<Longrightarrow> 2 * j + 1 < length us \<Longrightarrow>
     us ! (2 * j) = crc16_bit (ts ! j) \<and>
     us ! (2 * j + 1) = crc16_bit (ts ! j) XOR CCSDS_CRC16_POLY"
proof (induction ts us arbitrary: j rule: table_doubles.induct)
  case (2 t ts a b rest)
  then show ?case by (cases j) auto
qed auto

definition crc16_entry :: "nat \<Rightarrow> u16" where
  "crc16_entry i = crc16_bits 8 (push_bit 8 (word_of_nat i))"

lemma crc16_entry_double:
  assumes "j < 128"
  shows "crc16_entry (2 * j) = crc16_bit (crc16_entry j)"
    and "crc16_entry (2 * j + 1) = crc16_bit (crc16_entry j) XOR CCSDS_CRC16_POLY"
proof -
  have "\<not> bit (push_bit 8 (word_of_nat j :: u16)) 15"
    using assms by (simp add: bit_simps) (simp add: bit_iff_odd)
  then have "crc16_bit (push_bit 8 (word_of_nat j)) = push_bit 8 (word_of_nat (2 * j))"
    by (simp add: crc16_bit_shift push_bit_eq_mult)
  then show even: "crc16_entry (2 * j) = crc16_bit (crc16_entry j)"
    by (simp add: crc16_entry_def crc16_bit_bits)
  have "word_of_nat (2 * j + 1) = (word_of_nat (2 * j) XOR 1 :: u16)"
    by (simp add: xor_one_eq)
  then have "push_bit 8 (word_of_nat (2 * j + 1) :: u16)
      = push_bit 8 (word_of_nat (2 * j)) XOR push_bit 8 1"
    by (simp only: push_bit_xor)
  then have "crc16_entry (2 * j + 1) = crc16_entry (2 * j) XOR crc16_bits 8 (push_bit 8 1)"
    by (simp add: crc16_entry_def crc16_bits_xor)
  moreover have "crc16_bits 8 (push_bit 8 1) = CCSDS_CRC16_POLY"
    by (simp add: crc16_eval)
  ultimately show "crc16_entry (2 * j + 1) = crc16_bit (crc16_entry j) XOR CCSDS_CRC16_POLY"
    using even by simp
qed

lemma crc16_table_nth: "i < 256 \<Longrightarrow> crc16_table ! i = crc16_entry i"
proof (induction i rule: less_induct)
  case (less i)
  show ?case
  proof (cases "i = 0")
    case True
    then show ?thesis by (simp add: crc16_table_def crc16_entry_def)
  next
    case False
    define j where "j = i div 2"
    have j: "j < i" "j < 128" using False less.prems by (auto simp: j_def)
    have IH: "crc16_table ! j = crc16_entry j" using less.IH [of j] j by simp
    have "i = 2 * j \<or> i = 2 * j + 1" by (auto simp: j_def)
    then show ?thesis
      using table_doubles_nth [OF crc16_table_doubles, of j] crc16_entry_double [of j] IH j
      by auto
  qed
qed

section \<open>Table loop and bitwise reference agree\<close>

lemma crc16_update_byte_ref: "crc16_update_byte c d = crc16_ref_byte c d"
proof -
  let ?hi = "ucast (drop_bit 8 c) :: u8" and ?lo = "ucast c :: u8"
  have c: "c = push_bit 8 (ucast ?hi) XOR ucast ?lo"
    using get_put_be16 [of c] by (simp add: get_be16_xor)
  have idx: "push_bit 8 (ucast (?hi XOR d) :: u16)
           = push_bit 8 (ucast ?hi) XOR push_bit 8 (ucast d)"
    by (rule bit_word_eqI) (auto simp: bit_simps)
  have "ucast (drop_bit 8 c XOR ucast d) = ?hi XOR d"
    by (rule bit_word_eqI) (auto simp: bit_simps)
  moreover have "unat (?hi XOR d) < 256"
    by (rule unat_u8_less)
  ultimately have "crc16_update_byte c d = push_bit 8 c XOR crc16_bits 8 (push_bit 8 (ucast ?hi) XOR push_bit 8 (ucast d))"
    by (simp add: crc16_update_byte_def crc16_table_nth crc16_entry_def idx)
  also have "push_bit 8 c = crc16_bits 8 (ucast ?lo)"
    by (subst crc16_bits_shift) (auto intro!: bit_word_eqI simp: bit_simps)
  also have "\<dots> XOR crc16_bits 8 (push_bit 8 (ucast ?hi) XOR push_bit 8 (ucast d))
      = crc16_bits 8 (c XOR push_bit 8 (ucast d))"
    by (subst (3) c) (simp add: crc16_bits_xor ac_simps)
  finally show ?thesis by (simp add: crc16_ref_byte_def)
qed

lemma crc16_update_ref: "ccsds_crc16_update c data = crc16_ref c data"
  by (induction data arbitrary: c) (simp_all add: crc16_update_byte_ref)

lemma crc16_ref_append: "crc16_ref c (xs @ ys) = crc16_ref (crc16_ref c xs) ys"
  by (induction xs arbitrary: c) simp_all

lemma crc16_ref_inject: "crc16_ref a ds = crc16_ref b ds \<longleftrightarrow> a = b"
proof (induction ds arbitrary: a b)
  case (Cons d ds)
  then show ?case by (simp add: crc16_ref_byte_def crc16_bits_inject)
qed simp

text \<open>Two bytes fed from state \<open>c\<close> act like one 16-bit word added to the register.\<close>

lemma crc16_ref_two: "crc16_ref c [a, b] = crc16_bits 16 (c XOR get_be16 a b)"
proof -
  have "crc16_bits 16 (c XOR get_be16 a b) = crc16_bits (8 + 8) (c XOR get_be16 a b)"
    by simp
  also have "\<dots> = crc16_bits 8 (crc16_bits 8 (c XOR push_bit 8 (ucast a)) XOR crc16_bits 8 (ucast b))"
    by (simp only: crc16_bits_add get_be16_xor crc16_bits_xor ac_simps)
  also have "crc16_bits 8 (ucast b) = push_bit 8 (ucast b)"
    by (rule crc16_bits_shift) simp
  finally show ?thesis by (simp add: crc16_ref_byte_def)
qed

lemma crc16_check_iff: "ccsds_crc16_check data \<longleftrightarrow> 2 \<le> length data \<and> crc16_ref 0xffff data = 0"
  by (auto simp: ccsds_crc16_check_def ccsds_crc16_compute_def crc16_update_ref CCSDS_CRC16_INIT_def)

text \<open>Appending the computed CRC, most significant byte first, always yields a buffer that passes.\<close>

lemma crc16_append_check:
  "ccsds_crc16_check (data @ put_be16 (ccsds_crc16_compute data))"
proof -
  let ?c = "crc16_ref 0xffff data"
  have "ccsds_crc16_compute data = ?c"
    by (simp add: ccsds_crc16_compute_def crc16_update_ref CCSDS_CRC16_INIT_def)
  moreover have "crc16_ref ?c (put_be16 ?c) = 0"
    by (simp add: put_be16_def crc16_ref_two del: crc16_ref.simps)
  ultimately show ?thesis
    by (simp add: crc16_check_iff crc16_ref_append)
qed

section \<open>Properties\<close>

text \<open>
  The table-driven CRC computes the bitwise CRC of the documented polynomial
  \<open>x^16 + x^12 + x^5 + 1\<close>: for every starting register and every buffer the table loop returns
  what the shift register returns.
\<close>

theorem crc16_update_is_bitwise: "ccsds_crc16_update crc data = crc16_ref crc data"
  by (rule crc16_update_ref)

text \<open>
  Error detection: a buffer that passes the check no longer passes it after any change
  confined to two adjacent bytes, wherever they are.
\<close>

theorem crc16_detects_adjacent_bytes:
  assumes "ccsds_crc16_check (pre @ [a, b] @ post)"
    and "(a, b) \<noteq> (a', b')"
  shows "\<not> ccsds_crc16_check (pre @ [a', b'] @ post)"
proof
  assume "ccsds_crc16_check (pre @ [a', b'] @ post)"
  with assms(1) have "crc16_ref (crc16_ref (crc16_ref 0xffff pre) [a, b]) post
      = crc16_ref (crc16_ref (crc16_ref 0xffff pre) [a', b']) post"
    by (simp add: crc16_check_iff crc16_ref_append)
  then have "get_be16 a b = get_be16 a' b'"
    by (simp only: crc16_ref_inject crc16_ref_two crc16_bits_inject xor.commute [of "crc16_ref 0xffff pre"] word_xor_cancel)
  with assms(2) show False by simp
qed

theorem crc16_detects_adjacent_bytes_witness:
  "ccsds_crc16_check [0x31, 0x32, 0x3d, 0xba] \<and> \<not> ccsds_crc16_check [0x31, 0x33, 0x3d, 0xba]"
proof -
  have ok: "ccsds_crc16_check ([0x31] @ [0x32, 0x3d] @ [0xba])"
    by (simp add: crc16_check_iff crc16_eval)
  have "\<not> ccsds_crc16_check ([0x31] @ [0x33, 0x3d] @ [0xba])"
    by (rule crc16_detects_adjacent_bytes [OF ok]) simp
  with ok show ?thesis by simp
qed

end
