(* ===== verification/Rs.thy ===== *)
theory Rs
  imports Ccsds_Prelude
begin

unbundle bit_operations_syntax

text \<open>
  The Reed-Solomon encoder (\<^verbatim>\<open>src/ccsds_rs.c\<close>): the logarithm tables of GF(256) over the
  polynomial 0x187, the generator coefficients in logarithmic form, the 223-step parity
  register and the split of a frame into code blocks.  The reference multiplies in the
  field by shift and add; the tables are proved to be its logarithms.
\<close>

section \<open>The code\<close>

definition GF_LOG :: bytes where
  "GF_LOG = [
     0x00, 0x00, 0x01, 0x63, 0x02, 0xc6, 0x64, 0x6a, 0x03, 0xcd, 0xc7, 0xbc, 0x65, 0x7e, 0x6b, 0x2a,
     0x04, 0x8d, 0xce, 0x4e, 0xc8, 0xd4, 0xbd, 0xe1, 0x66, 0xdd, 0x7f, 0x31, 0x6c, 0x20, 0x2b, 0xf3,
     0x05, 0x57, 0x8e, 0xe8, 0xcf, 0xac, 0x4f, 0x83, 0xc9, 0xd9, 0xd5, 0x41, 0xbe, 0x94, 0xe2, 0xb4,
     0x67, 0x27, 0xde, 0xf0, 0x80, 0xb1, 0x32, 0x35, 0x6d, 0x45, 0x21, 0x12, 0x2c, 0x0d, 0xf4, 0x38,
     0x06, 0x9b, 0x58, 0x1a, 0x8f, 0x79, 0xe9, 0x70, 0xd0, 0xc2, 0xad, 0xa8, 0x50, 0x75, 0x84, 0x48,
     0xca, 0xfc, 0xda, 0x8a, 0xd6, 0x54, 0x42, 0x24, 0xbf, 0x98, 0x95, 0xf9, 0xe3, 0x5e, 0xb5, 0x15,
     0x68, 0x61, 0x28, 0xba, 0xdf, 0x4c, 0xf1, 0x2f, 0x81, 0xe6, 0xb2, 0x3f, 0x33, 0xee, 0x36, 0x10,
     0x6e, 0x18, 0x46, 0xa6, 0x22, 0x88, 0x13, 0xf7, 0x2d, 0xb8, 0x0e, 0x3d, 0xf5, 0xa4, 0x39, 0x3b,
     0x07, 0x9e, 0x9c, 0x9d, 0x59, 0x9f, 0x1b, 0x08, 0x90, 0x09, 0x7a, 0x1c, 0xea, 0xa0, 0x71, 0x5a,
     0xd1, 0x1d, 0xc3, 0x7b, 0xae, 0x0a, 0xa9, 0x91, 0x51, 0x5b, 0x76, 0x72, 0x85, 0xa1, 0x49, 0xeb,
     0xcb, 0x7c, 0xfd, 0xc4, 0xdb, 0x1e, 0x8b, 0xd2, 0xd7, 0x92, 0x55, 0xaa, 0x43, 0x0b, 0x25, 0xaf,
     0xc0, 0x73, 0x99, 0x77, 0x96, 0x5c, 0xfa, 0x52, 0xe4, 0xec, 0x5f, 0x4a, 0xb6, 0xa2, 0x16, 0x86,
     0x69, 0xc5, 0x62, 0xfe, 0x29, 0x7d, 0xbb, 0xcc, 0xe0, 0xd3, 0x4d, 0x8c, 0xf2, 0x1f, 0x30, 0xdc,
     0x82, 0xab, 0xe7, 0x56, 0xb3, 0x93, 0x40, 0xd8, 0x34, 0xb0, 0xef, 0x26, 0x37, 0x0c, 0x11, 0x44,
     0x6f, 0x78, 0x19, 0x9a, 0x47, 0x74, 0xa7, 0xc1, 0x23, 0x53, 0x89, 0xfb, 0x14, 0x5d, 0xf8, 0x97,
     0x2e, 0x4b, 0xb9, 0x60, 0x0f, 0xed, 0x3e, 0xe5, 0xf6, 0x87, 0xa5, 0x17, 0x3a, 0xa3, 0x3c, 0xb7]"

definition GF_ILOG :: bytes where
  "GF_ILOG = [
     0x01, 0x02, 0x04, 0x08, 0x10, 0x20, 0x40, 0x80, 0x87, 0x89, 0x95, 0xad, 0xdd, 0x3d, 0x7a, 0xf4,
     0x6f, 0xde, 0x3b, 0x76, 0xec, 0x5f, 0xbe, 0xfb, 0x71, 0xe2, 0x43, 0x86, 0x8b, 0x91, 0xa5, 0xcd,
     0x1d, 0x3a, 0x74, 0xe8, 0x57, 0xae, 0xdb, 0x31, 0x62, 0xc4, 0x0f, 0x1e, 0x3c, 0x78, 0xf0, 0x67,
     0xce, 0x1b, 0x36, 0x6c, 0xd8, 0x37, 0x6e, 0xdc, 0x3f, 0x7e, 0xfc, 0x7f, 0xfe, 0x7b, 0xf6, 0x6b,
     0xd6, 0x2b, 0x56, 0xac, 0xdf, 0x39, 0x72, 0xe4, 0x4f, 0x9e, 0xbb, 0xf1, 0x65, 0xca, 0x13, 0x26,
     0x4c, 0x98, 0xb7, 0xe9, 0x55, 0xaa, 0xd3, 0x21, 0x42, 0x84, 0x8f, 0x99, 0xb5, 0xed, 0x5d, 0xba,
     0xf3, 0x61, 0xc2, 0x03, 0x06, 0x0c, 0x18, 0x30, 0x60, 0xc0, 0x07, 0x0e, 0x1c, 0x38, 0x70, 0xe0,
     0x47, 0x8e, 0x9b, 0xb1, 0xe5, 0x4d, 0x9a, 0xb3, 0xe1, 0x45, 0x8a, 0x93, 0xa1, 0xc5, 0x0d, 0x1a,
     0x34, 0x68, 0xd0, 0x27, 0x4e, 0x9c, 0xbf, 0xf9, 0x75, 0xea, 0x53, 0xa6, 0xcb, 0x11, 0x22, 0x44,
     0x88, 0x97, 0xa9, 0xd5, 0x2d, 0x5a, 0xb4, 0xef, 0x59, 0xb2, 0xe3, 0x41, 0x82, 0x83, 0x81, 0x85,
     0x8d, 0x9d, 0xbd, 0xfd, 0x7d, 0xfa, 0x73, 0xe6, 0x4b, 0x96, 0xab, 0xd1, 0x25, 0x4a, 0x94, 0xaf,
     0xd9, 0x35, 0x6a, 0xd4, 0x2f, 0x5e, 0xbc, 0xff, 0x79, 0xf2, 0x63, 0xc6, 0x0b, 0x16, 0x2c, 0x58,
     0xb0, 0xe7, 0x49, 0x92, 0xa3, 0xc1, 0x05, 0x0a, 0x14, 0x28, 0x50, 0xa0, 0xc7, 0x09, 0x12, 0x24,
     0x48, 0x90, 0xa7, 0xc9, 0x15, 0x2a, 0x54, 0xa8, 0xd7, 0x29, 0x52, 0xa4, 0xcf, 0x19, 0x32, 0x64,
     0xc8, 0x17, 0x2e, 0x5c, 0xb8, 0xf7, 0x69, 0xd2, 0x23, 0x46, 0x8c, 0x9f, 0xb9, 0xf5, 0x6d, 0xda,
     0x33, 0x66, 0xcc, 0x1f, 0x3e, 0x7c, 0xf8, 0x77, 0xee, 0x5b, 0xb6, 0xeb, 0x51, 0xa2, 0xc3]"

definition GG_LOG :: bytes where
  "GG_LOG = [
     0x00, 0x66, 0xc8, 0x20, 0xcf, 0x8d, 0x7f, 0x65, 0x2b, 0x8e, 0x6a, 0x65, 0xac, 0x3c, 0x61, 0x4f,
     0x97, 0xbe, 0x0d, 0xd5, 0xbe, 0x14, 0xef, 0xfb, 0xc5, 0x36, 0xef, 0x05, 0xc9, 0xbe, 0xc5, 0xd7]"

text \<open>\<open>idx\<close> of the inner loop: the sum of two logarithms reduced modulo 255.\<close>

definition rs_idx :: "u8 \<Rightarrow> nat \<Rightarrow> nat" where
  "rs_idx feedback_log j =
     (let idx = unat feedback_log + unat (GG_LOG ! j) in if 255 \<le> idx then idx - 255 else idx)"

text \<open>The downward inner loop updates the register in place.\<close>

definition rs_shift_in :: "bytes \<Rightarrow> u8 \<Rightarrow> bytes" where
  "rs_shift_in parity feedback_log =
     (foldl (\<lambda>p j. p[j := p ! (j - 1) XOR GF_ILOG ! rs_idx feedback_log j]) parity (rev [1..<32]))
       [0 := GF_ILOG ! unat feedback_log]"

definition rs_encode_byte :: "bytes \<Rightarrow> u8 \<Rightarrow> bytes" where
  "rs_encode_byte parity d =
     (let feedback = d XOR parity ! 31
      in if feedback \<noteq> 0 then rs_shift_in parity (GF_LOG ! unat feedback)
         else (take 1 parity @ take 31 parity)[0 := 0])"

definition ccsds_rs_encode_codeblock :: "bytes \<Rightarrow> bytes" where
  "ccsds_rs_encode_codeblock data = foldl rs_encode_byte (replicate 32 0) (take 223 data)"

definition ccsds_rs_encode :: "ccsds_config \<Rightarrow> bytes \<Rightarrow> bytes" where
  "ccsds_rs_encode cfg data =
     concat (map (\<lambda>i. ccsds_rs_encode_codeblock (drop (i * 223) data))
       [0..<CCSDS_RS_INTERLEAVE_DEPTH cfg])"

section \<open>Reference field arithmetic\<close>

definition gf_xtime :: "u8 \<Rightarrow> u8" where
  "gf_xtime a = (if bit a 7 then push_bit 1 a XOR 0x87 else push_bit 1 a)"

fun gf_mul_bits :: "nat \<Rightarrow> u8 \<Rightarrow> u8 \<Rightarrow> u8" where
  "gf_mul_bits 0 a b = 0"
| "gf_mul_bits (Suc n) a b = (if odd b then a else 0) XOR gf_mul_bits n (gf_xtime a) (drop_bit 1 b)"

definition gf_mul :: "u8 \<Rightarrow> u8 \<Rightarrow> u8" where
  "gf_mul a b = gf_mul_bits 8 a b"

fun gf_pow :: "nat \<Rightarrow> u8" where
  "gf_pow 0 = 1"
| "gf_pow (Suc n) = gf_xtime (gf_pow n)"

text \<open>The register step with field multiplication by the generator coefficients.\<close>

definition rs_generator :: bytes where
  "rs_generator = map (\<lambda>l. gf_pow (unat l)) GG_LOG"

definition rs_ref_byte :: "bytes \<Rightarrow> u8 \<Rightarrow> bytes" where
  "rs_ref_byte parity d =
     (let feedback = d XOR last parity
      in map2 (\<lambda>p g. p XOR gf_mul feedback g) (0 # butlast parity) rs_generator)"

section \<open>The tables are logarithms\<close>

lemma gf_xtime_xor: "gf_xtime (a XOR b) = gf_xtime a XOR gf_xtime b"
  by (rule bit_word_eqI) (auto simp: gf_xtime_def bit_simps)

lemma gf_xtime_0 [simp]: "gf_xtime 0 = 0"
  by (simp add: gf_xtime_def)

lemma gf_mul_bits_xtime: "gf_mul_bits n (gf_xtime a) b = gf_xtime (gf_mul_bits n a b)"
  by (induction n arbitrary: a b) (simp_all add: gf_xtime_xor)

lemma gf_mul_xtime: "gf_mul (gf_xtime a) b = gf_xtime (gf_mul a b)"
  by (simp add: gf_mul_def gf_mul_bits_xtime)

lemma gf_mul_bits_0 [simp]: "gf_mul_bits n 0 b = 0"
  by (induction n arbitrary: b) simp_all

lemma gf_mul_0 [simp]: "gf_mul 0 b = 0"
  by (simp add: gf_mul_def)

lemma gf_mul_bits_numeral:
  "gf_mul_bits (numeral k) a b =
     (if odd b then a else 0) XOR gf_mul_bits (pred_numeral k) (gf_xtime a) (drop_bit 1 b)"
  by (simp add: numeral_eq_Suc)

lemma length_tables [simp]: "length GF_LOG = 256" "length GF_ILOG = 255" "length GG_LOG = 32"
  by (simp_all add: GF_LOG_def GF_ILOG_def GG_LOG_def)

fun gf_chain :: "bytes \<Rightarrow> bool" where
  "gf_chain [] = False"
| "gf_chain [x] = (gf_xtime x = 1)"
| "gf_chain (x # y # zs) = (y = gf_xtime x \<and> gf_chain (y # zs))"

lemma gf_ilog_chain: "gf_chain GF_ILOG"
  by (simp add: GF_ILOG_def gf_xtime_def)

fun gf_logs :: "nat \<Rightarrow> bytes \<Rightarrow> bool" where
  "gf_logs n [] = True"
| "gf_logs n (l # ls) = (unat l < 255 \<and> GF_ILOG ! unat l = word_of_nat n \<and> gf_logs (Suc n) ls)"

lemma gf_log_table: "gf_logs 1 (tl GF_LOG)"
  by (simp add: GF_LOG_def GF_ILOG_def)

lemma gf_chain_nth: "gf_chain xs \<Longrightarrow> Suc i < length xs \<Longrightarrow> xs ! Suc i = gf_xtime (xs ! i)"
proof (induction xs arbitrary: i rule: gf_chain.induct)
  case (3 x y zs)
  then show ?case by (cases i) auto
qed auto

lemma gf_chain_last: "gf_chain xs \<Longrightarrow> gf_xtime (last xs) = 1"
  by (induction xs rule: gf_chain.induct) auto

lemma gf_ilog_pow: "k < 255 \<Longrightarrow> GF_ILOG ! k = gf_pow k"
proof (induction k)
  case 0
  then show ?case by (simp add: GF_ILOG_def)
next
  case (Suc k)
  then show ?case using gf_chain_nth [OF gf_ilog_chain, of k] by simp
qed

lemma gf_pow_255: "gf_pow 255 = 1"
proof -
  have "last GF_ILOG = gf_pow 254"
    using gf_ilog_pow [of 254] by (simp add: last_conv_nth flip: length_greater_0_conv)
  then show ?thesis
    using gf_chain_last [OF gf_ilog_chain] by (simp add: numeral_eq_Suc)
qed

lemma gf_pow_period: "gf_pow (n + 255) = gf_pow n"
proof (induction n)
  case (Suc n)
  then show ?case using gf_pow.simps(2) [of "n + 255"] by (simp del: gf_pow.simps(2) add: gf_pow.simps(2) [of n])
qed (simp add: gf_pow_255)

lemma gf_logs_nth: "gf_logs n ls \<Longrightarrow> i < length ls \<Longrightarrow>
   unat (ls ! i) < 255 \<and> GF_ILOG ! unat (ls ! i) = word_of_nat (n + i)"
proof (induction n ls arbitrary: i rule: gf_logs.induct)
  case (2 n l ls)
  then show ?case by (cases i) auto
qed simp

lemma gf_log_pow:
  assumes "a \<noteq> 0"
  shows "unat (GF_LOG ! unat a) < 255" and "gf_pow (unat (GF_LOG ! unat a)) = a"
proof -
  from assms obtain i where i: "unat a = Suc i"
    by (metis unat_eq_zero not0_implies_Suc)
  then have "i < 255" using unat_u8_less [of a] by simp
  then have "unat (tl GF_LOG ! i) < 255" "GF_ILOG ! unat (tl GF_LOG ! i) = word_of_nat (1 + i)"
    using gf_logs_nth [OF gf_log_table, of i] by simp_all
  moreover have "tl GF_LOG ! i = GF_LOG ! unat a" using i \<open>i < 255\<close> by (simp add: nth_tl)
  moreover have "word_of_nat (1 + i) = a" unfolding plus_1_eq_Suc i [symmetric] by simp
  ultimately show "unat (GF_LOG ! unat a) < 255" and "gf_pow (unat (GF_LOG ! unat a)) = a"
    by (simp_all flip: gf_ilog_pow)
qed

lemma gf_mul_1: "gf_mul 1 b = b"
proof (rule bit_word_eqI)
  fix n :: nat
  assume "n < LENGTH(8)"
  then have "n \<in> {0, 1, 2, 3, 4, 5, 6, 7}" by auto
  then show "bit (gf_mul 1 b) n = bit b n"
    by (elim insertE)
      (simp_all add: gf_mul_def gf_mul_bits_numeral gf_xtime_def bit_simps bit_0 even_drop_bit_iff_not_bit,
        simp_all add: numeral_eq_Suc)
qed

lemma gf_mul_pow: "gf_mul (gf_pow m) (gf_pow n) = gf_pow (m + n)"
  by (induction m) (simp_all add: gf_mul_1 gf_mul_xtime)

lemma rs_idx_mul:
  assumes "a \<noteq> 0" "j < 32"
  shows "GF_ILOG ! rs_idx (GF_LOG ! unat a) j = gf_mul a (rs_generator ! j)"
proof -
  let ?l = "unat (GF_LOG ! unat a)" and ?g = "unat (GG_LOG ! j)"
  have "gf_mul a (rs_generator ! j) = gf_mul (gf_pow ?l) (gf_pow ?g)"
    using assms by (simp add: rs_generator_def gf_log_pow)
  also have "\<dots> = gf_pow (?l + ?g)" by (rule gf_mul_pow)
  also have "\<dots> = gf_pow (rs_idx (GF_LOG ! unat a) j)"
    using gf_pow_period [of "?l + ?g - 255"] by (auto simp: rs_idx_def Let_def)
  finally have "gf_mul a (rs_generator ! j) = gf_pow (rs_idx (GF_LOG ! unat a) j)" .
  moreover have "rs_idx (GF_LOG ! unat a) j < 255"
    using gf_log_pow(1) [OF assms(1)] unat_u8_less [of "GG_LOG ! j"] by (auto simp: rs_idx_def Let_def)
  ultimately show ?thesis by (simp add: gf_ilog_pow)
qed

section \<open>The register step agrees with the reference\<close>

lemma rs_inplace_nth:
  fixes h :: "nat \<Rightarrow> u8"
  shows "n \<le> length p \<Longrightarrow>
     length (foldl (\<lambda>p j. p[j := p ! (j - 1) XOR h j]) p (rev [1..<n])) = length p \<and>
     (i < length p \<longrightarrow> foldl (\<lambda>p j. p[j := p ! (j - 1) XOR h j]) p (rev [1..<n]) ! i =
       (if 1 \<le> i \<and> i < n then p ! (i - 1) XOR h i else p ! i))"
proof (induction n arbitrary: p)
  case (Suc n)
  show ?case
  proof (cases "n = 0")
    case False
    then have "rev [1..<Suc n] = n # rev [1..<n]" by simp
    with Suc.IH [of "p[n := p ! (n - 1) XOR h n]"] Suc.prems False show ?thesis
      by (auto simp: nth_list_update less_Suc_eq)
  qed auto
qed simp

lemma rs_shift_in_nth:
  assumes "length parity = 32" "i < 32"
  shows "rs_shift_in parity l ! i =
    (if i = 0 then GF_ILOG ! unat l else parity ! (i - 1) XOR GF_ILOG ! rs_idx l i)"
  using assms rs_inplace_nth [of 32 parity "\<lambda>j. GF_ILOG ! rs_idx l j" i]
  by (auto simp: rs_shift_in_def nth_list_update)

lemma length_rs_shift_in [simp]: "length parity = 32 \<Longrightarrow> length (rs_shift_in parity l) = 32"
  using rs_inplace_nth [of 32 parity "\<lambda>j. GF_ILOG ! rs_idx l j"] by (auto simp: rs_shift_in_def)

lemma length_rs_generator [simp]: "length rs_generator = 32"
  by (simp add: rs_generator_def)

lemma length_rs_ref_byte [simp]: "length parity = 32 \<Longrightarrow> length (rs_ref_byte parity d) = 32"
  by (simp add: rs_ref_byte_def Let_def)

lemma rs_ref_byte_nth:
  assumes "length parity = 32" "i < 32"
  shows "rs_ref_byte parity d ! i =
    (if i = 0 then 0 else parity ! (i - 1)) XOR gf_mul (d XOR parity ! 31) (rs_generator ! i)"
proof -
  have "last parity = parity ! 31" using assms(1) by (cases parity) (auto simp: last_conv_nth)
  with assms show ?thesis by (auto simp: rs_ref_byte_def Let_def nth_Cons' nth_butlast)
qed

lemma rs_encode_byte_ref:
  assumes "length parity = 32"
  shows "rs_encode_byte parity d = rs_ref_byte parity d"
proof (rule nth_equalityI)
  show "length (rs_encode_byte parity d) = length (rs_ref_byte parity d)"
    using assms by (simp add: rs_encode_byte_def Let_def)
  fix i
  assume "i < length (rs_encode_byte parity d)"
  then have i: "i < 32" using assms by (simp add: rs_encode_byte_def Let_def split: if_splits)
  let ?f = "d XOR parity ! 31"
  have gen0: "?f \<noteq> 0 \<Longrightarrow> GF_ILOG ! unat (GF_LOG ! unat ?f) = gf_mul ?f (rs_generator ! 0)"
  proof -
    assume f: "?f \<noteq> 0"
    then have "rs_idx (GF_LOG ! unat ?f) 0 = unat (GF_LOG ! unat ?f)"
      using gf_log_pow(1) [OF f] by (simp add: rs_idx_def GG_LOG_def)
    with f show ?thesis using rs_idx_mul [of ?f 0] by simp
  qed
  show "rs_encode_byte parity d ! i = rs_ref_byte parity d ! i"
  proof (cases "?f = 0")
    case True
    with assms i show ?thesis
      by (simp add: rs_encode_byte_def rs_ref_byte_nth nth_append nth_list_update)
  next
    case False
    with assms i show ?thesis
      by (simp add: rs_encode_byte_def rs_ref_byte_nth rs_shift_in_nth rs_idx_mul gen0)
  qed
qed

lemma rs_encode_ref:
  "length parity = 32 \<Longrightarrow> foldl rs_encode_byte parity ds = foldl rs_ref_byte parity ds"
  by (induction ds arbitrary: parity) (simp_all add: rs_encode_byte_ref)

section \<open>The generator polynomial\<close>

text \<open>Horner evaluation of a code word, highest coefficient first.\<close>

fun rs_horner :: "u8 \<Rightarrow> u8 \<Rightarrow> bytes \<Rightarrow> u8" where
  "rs_horner x acc [] = acc"
| "rs_horner x acc (c # cs) = rs_horner x (gf_mul acc x XOR c) cs"

definition rs_eval :: "u8 \<Rightarrow> bytes \<Rightarrow> u8" where
  "rs_eval x cs = rs_horner x 0 cs"

definition rs_codeword :: "bytes \<Rightarrow> bytes" where
  "rs_codeword msg = msg @ rev (ccsds_rs_encode_codeblock msg)"

lemma rs_eval_zeros: "rs_eval x (replicate n 0 @ cs) = rs_eval x cs"
  by (induction n) (simp_all add: rs_eval_def)

lemma rs_ref_zeros: "foldl rs_ref_byte (replicate 32 0) (replicate n 0) = replicate 32 0"
proof (induction n)
  case (Suc n)
  have "rs_ref_byte (replicate 32 0) 0 = replicate 32 0"
    by (rule nth_equalityI) (simp_all add: rs_ref_byte_nth)
  with Suc show ?case by simp
qed simp

lemma gf_mul_one_left_generator: "rs_ref_byte (replicate 32 0) 1 = rs_generator"
  by (rule nth_equalityI) (simp_all add: rs_ref_byte_nth gf_mul_1)

lemma rs_codeword_unit:
  "rs_codeword (replicate 222 0 @ [1]) = replicate 222 0 @ 1 # rev rs_generator"
proof -
  have "ccsds_rs_encode_codeblock (replicate 222 0 @ [1]) = rs_generator"
    by (simp add: ccsds_rs_encode_codeblock_def rs_encode_ref rs_ref_zeros gf_mul_one_left_generator
        del: foldl_Cons foldl_Nil foldl_append)
      (simp add: rs_ref_zeros gf_mul_one_left_generator)
  then show ?thesis by (simp add: rs_codeword_def)
qed

lemma gf_pow_eval: "gf_pow (k mod 255) = gf_pow k"
proof (induction k rule: less_induct)
  case (less k)
  show ?case
  proof (cases "k < 255")
    case False
    then have "gf_pow k = gf_pow (k - 255)" using gf_pow_period [of "k - 255"] by simp
    also have "\<dots> = gf_pow ((k - 255) mod 255)" using less.IH [of "k - 255"] False by simp
    finally show ?thesis using False by (simp add: le_mod_geq)
  qed simp
qed

lemma rs_generator_eval: "rs_generator = map (\<lambda>l. GF_ILOG ! (unat l)) GG_LOG"
  by (simp add: rs_generator_def GG_LOG_def gf_ilog_pow)

lemma gf_pow_numeral: "gf_pow (numeral k) = GF_ILOG ! (numeral k mod 255)"
proof -
  have "numeral k mod 255 < (255 :: nat)" by (rule mod_less_divisor) simp
  then show ?thesis by (simp only: gf_ilog_pow gf_pow_eval)
qed

text \<open>Evaluation form of the step: masking first keeps the literals within a byte.\<close>

lemma gf_xtime_eval:
  "gf_xtime a = (if bit a 7 then push_bit 1 (a AND 0x7f) XOR 0x87 else push_bit 1 a)"
proof -
  have "push_bit 1 (a AND 0x7f) = push_bit 1 a"
    by (rule bit_word_eqI) (auto simp: bit_push_bit_iff bit_and_iff bit_0 dest!: less_8_cases)
  then show ?thesis by (simp add: gf_xtime_def)
qed

text \<open>Evaluation of one Horner run against its list of intermediate values.\<close>

fun rs_trace :: "u8 \<Rightarrow> u8 \<Rightarrow> bytes \<Rightarrow> bytes \<Rightarrow> bool" where
  "rs_trace x acc [] [] = True"
| "rs_trace x acc (c # cs) (v # vs) = (gf_mul acc x XOR c = v \<and> rs_trace x v cs vs)"
| "rs_trace x acc _ _ = False"

lemma rs_trace_horner: "rs_trace x acc cs vs \<Longrightarrow> rs_horner x acc cs = last (acc # vs)"
  by (induction x acc cs vs rule: rs_trace.induct) auto

definition rs_unit_coeffs :: bytes where
  "rs_unit_coeffs = [0x01, 0xa8, 0xc1, 0x2c, 0x28, 0x20, 0xda, 0x6e, 0xc1, 0xeb, 0xda, 0xec, 0x2c, 0x2a, 0x3d, 0x2c, 0xef,
      0x26, 0x61, 0xfe, 0x25, 0x0c, 0x07, 0x22, 0x1e, 0x0c, 0x1a, 0x11, 0x24, 0x1d, 0x14, 0x18, 0x01]"

lemma rs_unit_coeffs_eq: "1 # rev rs_generator = rs_unit_coeffs"
  by (simp add: rs_generator_eval GG_LOG_def GF_ILOG_def rs_unit_coeffs_def)

lemmas rs_trace_eval =
  rs_unit_coeffs_def gf_mul_def gf_mul_bits_numeral gf_xtime_eval

section \<open>The field and polynomial evaluation\<close>

lemma gf_mul_bits_xor: "gf_mul_bits n (a XOR b) c = gf_mul_bits n a c XOR gf_mul_bits n b c"
  by (induction n arbitrary: a b c) (simp_all add: gf_xtime_xor ac_simps)

lemma gf_mul_xor_left: "gf_mul (a XOR b) c = gf_mul a c XOR gf_mul b c"
  by (simp add: gf_mul_def gf_mul_bits_xor)

lemma gf_mul_bits_right_0 [simp]: "gf_mul_bits n a 0 = 0"
  by (induction n arbitrary: a) simp_all

lemma gf_mul_right_0 [simp]: "gf_mul a 0 = 0"
  by (simp add: gf_mul_def)

lemma gf_pow_surj: "a \<noteq> 0 \<Longrightarrow> \<exists>n. a = gf_pow n"
  using gf_log_pow(2) by metis

lemma gf_mul_commute: "gf_mul a b = gf_mul b a"
proof (cases "a = 0 \<or> b = 0")
  case False
  then obtain m n where "a = gf_pow m" "b = gf_pow n" using gf_pow_surj by metis
  then show ?thesis by (simp add: gf_mul_pow add.commute)
qed auto

lemma gf_mul_assoc: "gf_mul (gf_mul a b) c = gf_mul a (gf_mul b c)"
proof (cases "a = 0 \<or> b = 0 \<or> c = 0")
  case False
  then obtain l m n where "a = gf_pow l" "b = gf_pow m" "c = gf_pow n" using gf_pow_surj by metis
  then show ?thesis by (simp add: gf_mul_pow add.assoc)
qed auto

lemma gf_mul_xor_right: "gf_mul a (b XOR c) = gf_mul a b XOR gf_mul a c"
  using gf_mul_xor_left [of b c a] by (simp add: gf_mul_commute)

lemma gf_pow_nonzero: "gf_pow n \<noteq> 0"
proof
  assume z: "gf_pow n = 0"
  have "gf_pow (n + (255 * (n + 1) - n)) = gf_mul (gf_pow n) (gf_pow (255 * (n + 1) - n))" by (simp only: gf_mul_pow)
  moreover have "n + (255 * (n + 1) - n) = 255 * (n + 1)" by simp
  ultimately have "gf_pow (255 * (n + 1)) = 0" unfolding z gf_mul_0 by (simp only:)
  moreover have "gf_pow (255 * (n + 1)) = gf_pow 0" using gf_pow_eval [of "255 * (n + 1)"] by simp
  ultimately show False by simp
qed

lemma gf_mul_eq_0: "gf_mul a b = 0 \<longleftrightarrow> a = 0 \<or> b = 0"
proof (cases "a = 0 \<or> b = 0")
  case False
  then obtain m n where "a = gf_pow m" "b = gf_pow n" using gf_pow_surj by metis
  then show ?thesis using False by (simp add: gf_mul_pow gf_pow_nonzero)
qed auto

lemma rs_horner_append: "rs_horner x acc (u @ v) = rs_horner x (rs_horner x acc u) v"
  by (induction u arbitrary: acc) simp_all

lemma rs_horner_xor:
  "length u = length v \<Longrightarrow> rs_horner x (a XOR b) (map2 (XOR) u v) = rs_horner x a u XOR rs_horner x b v"
proof (induction u v arbitrary: a b rule: list_induct2)
  case (Cons c u d v)
  have "gf_mul (a XOR b) x XOR (c XOR d) = (gf_mul a x XOR c) XOR (gf_mul b x XOR d)"
    by (simp add: gf_mul_xor_left ac_simps)
  with Cons.IH show ?case by simp
qed simp

lemma rs_horner_scale: "rs_horner x (gf_mul c a) (map (gf_mul c) u) = gf_mul c (rs_horner x a u)"
  by (induction u arbitrary: a) (simp_all add: gf_mul_assoc flip: gf_mul_xor_right)

section \<open>Code words are multiples of the generator\<close>

text \<open>
  The division of a message by the generator: its quotient is the sequence of feedbacks of the
  reference register.
\<close>

definition rs_quotient :: "bytes \<Rightarrow> bytes" where
  "rs_quotient msg = map (\<lambda>i. msg ! i XOR last (foldl rs_ref_byte (replicate 32 0) (take i msg))) [0..<length msg]"

lemma rs_quotient_snoc:
  "rs_quotient (msg @ [d]) = rs_quotient msg @ [d XOR last (foldl rs_ref_byte (replicate 32 0) msg)]"
  by (simp add: rs_quotient_def nth_append)

text \<open>One step: the code word so far, shifted, plus the feedback times the generator.\<close>

lemma rs_step_division:
  assumes "length p = 32"
  shows "map2 (XOR) (rev p @ [0]) (map (gf_mul (d XOR last p)) (1 # rev rs_generator)) = d # rev (rs_ref_byte p d)"
proof (rule nth_equalityI)
  show "length (map2 (XOR) (rev p @ [0]) (map (gf_mul (d XOR last p)) (1 # rev rs_generator))) =
      length (d # rev (rs_ref_byte p d))" using assms by simp
  fix i
  assume "i < length (map2 (XOR) (rev p @ [0]) (map (gf_mul (d XOR last p)) (1 # rev rs_generator)))"
  then have i: "i < 33" using assms by simp
  have last: "last p = p ! 31" using assms by (cases p) (auto simp: last_conv_nth)
  show "map2 (XOR) (rev p @ [0]) (map (gf_mul (d XOR last p)) (1 # rev rs_generator)) ! i = (d # rev (rs_ref_byte p d)) ! i"
  proof (cases i)
    case 0
    have "rev p ! 0 = p ! 31" using assms by (simp add: rev_nth)
    moreover have "gf_mul (d XOR p ! 31) 1 = d XOR p ! 31" by (metis gf_mul_1 gf_mul_commute)
    ultimately show ?thesis using 0 assms last by (simp add: nth_append ac_simps)
  next
    case (Suc k)
    with i have k: "k < 32" by simp
    have gen: "rev rs_generator ! k = rs_generator ! (31 - k)" using k by (simp add: rev_nth)
    have ref: "rev (rs_ref_byte p d) ! k = (if 31 - k = 0 then 0 else p ! (31 - k - 1)) XOR
        gf_mul (d XOR p ! 31) (rs_generator ! (31 - k))"
      using k assms rs_ref_byte_nth [OF assms, of "31 - k" d] by (simp add: rev_nth)
    have reg: "(rev p @ [0]) ! Suc k = (if 31 - k = 0 then 0 else p ! (31 - k - 1))"
      using k assms by (auto simp: nth_append rev_nth)
    show ?thesis using Suc k assms gen ref reg last by simp
  qed
qed

lemma rs_division:
  "rs_eval x (msg @ rev (foldl rs_ref_byte (replicate 32 0) msg)) =
     gf_mul (rs_eval x (rs_quotient msg)) (rs_eval x (1 # rev rs_generator))"
proof (induction msg rule: rev_induct)
  case Nil
  then show ?case using rs_eval_zeros [of x 32 "[]"] by (simp add: rs_quotient_def rs_eval_def)
next
  case (snoc d msg)
  let ?p = "foldl rs_ref_byte (replicate 32 0) msg"
  let ?f = "d XOR last ?p" and ?g = "rs_eval x (1 # rev rs_generator)" and ?m = "rs_horner x 0 msg"
  have len: "length ?p = 32" by (induction msg rule: rev_induct) simp_all
  have "rs_eval x ((msg @ [d]) @ rev (foldl rs_ref_byte (replicate 32 0) (msg @ [d]))) =
      rs_horner x ?m (d # rev (rs_ref_byte ?p d))"
    by (simp add: rs_eval_def rs_horner_append)
  also have "\<dots> = rs_horner x (?m XOR gf_mul ?f 0)
      (map2 (XOR) (rev ?p @ [0]) (map (gf_mul ?f) (1 # rev rs_generator)))"
    by (simp only: rs_step_division [OF len] gf_mul_right_0 xor.right_neutral)
  also have "\<dots> = rs_horner x ?m (rev ?p @ [0]) XOR rs_horner x (gf_mul ?f 0) (map (gf_mul ?f) (1 # rev rs_generator))"
    by (rule rs_horner_xor) (simp add: len)
  also have "rs_horner x ?m (rev ?p @ [0]) = gf_mul (rs_eval x (msg @ rev ?p)) x"
    by (simp add: rs_eval_def rs_horner_append)
  also have "rs_horner x (gf_mul ?f 0) (map (gf_mul ?f) (1 # rev rs_generator)) = gf_mul ?f ?g"
    by (simp only: rs_horner_scale rs_eval_def)
  also have "gf_mul (rs_eval x (msg @ rev ?p)) x = gf_mul (gf_mul (rs_eval x (rs_quotient msg)) x) ?g"
    unfolding snoc.IH by (simp only: gf_mul_assoc gf_mul_commute [of ?g x])
  also have "gf_mul (gf_mul (rs_eval x (rs_quotient msg)) x) ?g XOR gf_mul ?f ?g =
      gf_mul (rs_eval x (rs_quotient (msg @ [d]))) ?g"
    by (simp only: rs_quotient_snoc rs_eval_def rs_horner_append rs_horner.simps gf_mul_xor_left)
  finally show ?case .
qed

section \<open>The generator at the roots of the CCSDS code\<close>

lemma rs_trace_112:
  "rs_trace 0x15 0 rs_unit_coeffs
     [0x01, 0xbd, 0x72, 0xaa, 0x27, 0x62, 0x8b, 0x5d, 0xad, 0x8f, 0xbd, 0x5f, 0x6a, 0xd3, 0x23, 0x3a, 0x93,
      0x6a, 0x98, 0x25, 0x4d, 0xb7, 0x36, 0xa2, 0xb9, 0xeb, 0x52, 0xbe, 0xa8, 0x38, 0x42, 0x60, 0x7a]"
  by (simp add: rs_trace_eval)

lemma rs_trace_113:
  "rs_trace 0x64 0 rs_unit_coeffs
     [0x01, 0xcc, 0x66, 0xbc, 0x9c, 0x2c, 0x5b, 0x47, 0x8d, 0xdf, 0x8d, 0xd8, 0xc0, 0xb4, 0xa7, 0x46, 0xc7,
      0x03, 0xcd, 0x3d, 0x9c, 0x00, 0x07, 0x99, 0x61, 0x27, 0x19, 0x07, 0x9f, 0xbd, 0xc4, 0x91, 0x50]"
  by (simp add: rs_trace_eval)

lemma rs_trace_114:
  "rs_trace 0x8c 0 rs_unit_coeffs
     [0x01, 0x24, 0xa2, 0x0f, 0x77, 0x0e, 0x09, 0x17, 0x06, 0xcd, 0x4f, 0x80, 0x4a, 0x73, 0xaa, 0xfa, 0x67,
      0x65, 0xbd, 0xef, 0xf5, 0xdb, 0xd9, 0x63, 0xe4, 0x3a, 0xc7, 0xee, 0x78, 0x6c, 0xb1, 0x45, 0x07]"
  by (simp add: rs_trace_eval)

lemma rs_trace_115:
  "rs_trace 0x7c 0 rs_unit_coeffs
     [0x01, 0xd4, 0x57, 0x6f, 0x68, 0x93, 0x54, 0xa9, 0xb4, 0x20, 0x6c, 0x28, 0x74, 0x5b, 0xe7, 0xd3, 0x8a,
      0x61, 0x40, 0x15, 0x75, 0x01, 0x7b, 0x4e, 0x94, 0x71, 0x60, 0x4c, 0x56, 0x22, 0x5a, 0xbe, 0xdc]"
  by (simp add: rs_trace_eval)

lemma rs_trace_116:
  "rs_trace 0x02 0 rs_unit_coeffs
     [0x01, 0xaa, 0x12, 0x08, 0x38, 0x50, 0x7a, 0x9a, 0x72, 0x0f, 0xc4, 0xe3, 0x6d, 0xf0, 0x5a, 0x98, 0x58,
      0x96, 0xca, 0xed, 0x78, 0xfc, 0x78, 0xd2, 0x3d, 0x76, 0xf6, 0x7a, 0xd0, 0x3a, 0x60, 0xd8, 0x36]"
  by (simp add: rs_trace_eval)

lemma rs_trace_117:
  "rs_trace 0xdd 0 rs_unit_coeffs
     [0x01, 0x75, 0xec, 0x31, 0x44, 0x61, 0xe2, 0xc0, 0x8c, 0x13, 0x55, 0x1f, 0x2d, 0xa7, 0x0f, 0x42, 0xe9,
      0x9c, 0xf6, 0x45, 0xb9, 0xe2, 0xa9, 0xa3, 0x56, 0x1f, 0x1b, 0x6a, 0x08, 0xe9, 0xae, 0x03, 0xe1]"
  by (simp add: rs_trace_eval)

lemma rs_trace_118:
  "rs_trace 0xfb 0 rs_unit_coeffs
     [0x01, 0x53, 0x5c, 0x9a, 0x39, 0x95, 0xe0, 0xd1, 0x88, 0x0d, 0x80, 0x49, 0x05, 0x33, 0xba, 0xb6, 0xd4,
      0x76, 0x6e, 0x34, 0xca, 0x0a, 0x35, 0x36, 0x80, 0xa9, 0x8c, 0x15, 0xbb, 0x7c, 0x29, 0x2b, 0x43]"
  by (simp add: rs_trace_eval)

lemma rs_trace_119:
  "rs_trace 0x74 0 rs_unit_coeffs
     [0x01, 0xdc, 0x45, 0x6d, 0xf6, 0xd3, 0x3b, 0xb6, 0x50, 0x52, 0x8b, 0x1a, 0xb1, 0x70, 0xb5, 0x21, 0xaa,
      0x95, 0x5d, 0xca, 0xc5, 0x89, 0x19, 0x23, 0xb3, 0xbe, 0x25, 0x03, 0xb8, 0x9d, 0x86, 0x63, 0xce]"
  by (simp add: rs_trace_eval)

lemma rs_trace_120:
  "rs_trace 0x78 0 rs_unit_coeffs
     [0x01, 0xd0, 0x6e, 0x2f, 0x3f, 0x2c, 0x45, 0x1d, 0x0b, 0xad, 0xe5, 0x71, 0x15, 0x2e, 0x52, 0xab, 0x47,
      0xa5, 0x90, 0x3d, 0xd9, 0x15, 0x03, 0xaa, 0xce, 0xe1, 0xe0, 0x93, 0x6f, 0x66, 0xd9, 0x01, 0x79]"
  by (simp add: rs_trace_eval)

lemma rs_trace_121:
  "rs_trace 0x3f 0 rs_unit_coeffs
     [0x01, 0x97, 0xe9, 0x8a, 0x42, 0xa8, 0xb5, 0x43, 0x76, 0x1a, 0x25, 0x54, 0xd8, 0x36, 0x3a, 0xa8, 0x80,
      0x4d, 0x2b, 0xbb, 0xf5, 0xd7, 0xd9, 0x01, 0x21, 0x48, 0x93, 0xc5, 0x7a, 0x6f, 0x5b, 0x2e, 0x87]"
  by (simp add: rs_trace_eval)

lemma rs_trace_122:
  "rs_trace 0xac 0 rs_unit_coeffs
     [0x01, 0x04, 0xf8, 0xd0, 0xe9, 0x94, 0xbc, 0x35, 0xff, 0x5d, 0x47, 0x38, 0xf5, 0x31, 0x3a, 0x2a, 0x0d,
      0xc1, 0xe8, 0xe6, 0xa9, 0x26, 0xae, 0x42, 0x5f, 0x4e, 0x10, 0xf5, 0x3f, 0x8e, 0x3b, 0xb2, 0xce]"
  by (simp add: rs_trace_eval)

lemma rs_trace_123:
  "rs_trace 0x13 0 rs_unit_coeffs
     [0x01, 0xbb, 0x98, 0xa9, 0xe0, 0x36, 0xee, 0x8a, 0xd5, 0xfc, 0xaf, 0x4e, 0x8b, 0x2d, 0x13, 0xae, 0x5e,
      0x36, 0x55, 0x43, 0x45, 0x06, 0x6d, 0x59, 0x77, 0x7e, 0xe3, 0x32, 0x5c, 0x2b, 0x50, 0xfa, 0x1e]"
  by (simp add: rs_trace_eval)

lemma rs_trace_124:
  "rs_trace 0x84 0 rs_unit_coeffs
     [0x01, 0x2c, 0xb0, 0x6f, 0xe8, 0x81, 0xad, 0x68, 0x93, 0xfe, 0x80, 0x1f, 0xe6, 0x28, 0xd5, 0x95, 0xec,
      0x1e, 0x2f, 0x84, 0x4f, 0x91, 0x9d, 0x94, 0x99, 0x23, 0x4c, 0x87, 0x45, 0xba, 0x6d, 0x57, 0xc4]"
  by (simp add: rs_trace_eval)

lemma rs_trace_125:
  "rs_trace 0x06 0 rs_unit_coeffs
     [0x01, 0xae, 0x2b, 0xd6, 0x55, 0x59, 0x8b, 0x5a, 0x9a, 0xb9, 0x42, 0xe7, 0xf7, 0x91, 0x55, 0x55, 0x96,
      0x5c, 0x2e, 0x1a, 0x79, 0x9d, 0x47, 0x37, 0xac, 0xea, 0xef, 0xfa, 0xb1, 0xb5, 0xa4, 0xce, 0x2c]"
  by (simp add: rs_trace_eval)

lemma rs_trace_126:
  "rs_trace 0xe0 0 rs_unit_coeffs
     [0x01, 0x48, 0x17, 0xb4, 0x68, 0x13, 0xcc, 0xac, 0xab, 0xa8, 0x3e, 0xea, 0xc2, 0xba, 0x2f, 0x7b, 0xca,
      0x2d, 0x71, 0x07, 0x0c, 0x19, 0xcd, 0x00, 0x1e, 0xef, 0x9a, 0xe6, 0xdf, 0xc9, 0xb8, 0x4d, 0xb9]"
  by (simp add: rs_trace_eval)

lemma rs_trace_127:
  "rs_trace 0x8a 0 rs_unit_coeffs
     [0x01, 0x22, 0x48, 0xdd, 0x97, 0xfd, 0x7f, 0x30, 0xd6, 0x88, 0x77, 0x77, 0xb7, 0xed, 0x95, 0x62, 0x52,
      0x8c, 0x6d, 0x3e, 0xc5, 0x7b, 0xf8, 0xac, 0x08, 0xc9, 0x09, 0x5e, 0xea, 0x0d, 0xfa, 0x05, 0x2a]"
  by (simp add: rs_trace_eval)

lemma rs_trace_128:
  "rs_trace 0x9c 0 rs_unit_coeffs
     [0x01, 0x34, 0x81, 0x7b, 0x61, 0x49, 0x95, 0x2a, 0x58, 0xd2, 0xe2, 0x6d, 0xc9, 0xae, 0x96, 0x4b, 0x1f,
      0x63, 0xb7, 0x56, 0x2f, 0xf0, 0xd3, 0x86, 0x93, 0x0e, 0x29, 0xab, 0xea, 0xe9, 0xc3, 0x56, 0x0b]"
  by (simp add: rs_trace_eval)

lemma rs_trace_129:
  "rs_trace 0x88 0 rs_unit_coeffs
     [0x01, 0x20, 0x9b, 0x24, 0xdb, 0x9c, 0x64, 0x29, 0xc6, 0x8e, 0xde, 0x71, 0x67, 0x72, 0x69, 0x9f, 0x4e,
      0x79, 0xff, 0xb1, 0x35, 0x5a, 0xdc, 0x28, 0x91, 0x46, 0x90, 0xd3, 0x4d, 0x5d, 0x79, 0x86, 0xd0]"
  by (simp add: rs_trace_eval)

lemma rs_trace_130:
  "rs_trace 0x41 0 rs_unit_coeffs
     [0x01, 0xe9, 0xac, 0x1e, 0x2d, 0xee, 0xf7, 0x06, 0xc0, 0xcb, 0xb8, 0xd8, 0x08, 0xab, 0x4f, 0x70, 0x7a,
      0xb0, 0xd4, 0xd8, 0x01, 0x4d, 0xd9, 0x47, 0xc3, 0xef, 0x76, 0x85, 0x5b, 0x47, 0xc9, 0xf8, 0xa8]"
  by (simp add: rs_trace_eval)

lemma rs_trace_131:
  "rs_trace 0x73 0 rs_unit_coeffs
     [0x01, 0xdb, 0x06, 0x81, 0x11, 0xf8, 0x59, 0x05, 0xf9, 0x1b, 0x72, 0x55, 0x9a, 0xbb, 0x0e, 0x17, 0x9a,
      0xb7, 0x8f, 0xfc, 0xed, 0x1c, 0x71, 0x0e, 0x25, 0xe5, 0x9c, 0x2d, 0x5b, 0x90, 0xf5, 0x35, 0x43]"
  by (simp add: rs_trace_eval)

lemma rs_trace_132:
  "rs_trace 0x35 0 rs_unit_coeffs
     [0x01, 0x9d, 0x28, 0xbf, 0x17, 0xf5, 0x5f, 0x6b, 0xf2, 0xe5, 0x01, 0xd9, 0xee, 0x81, 0x71, 0x04, 0x3b,
      0xb4, 0x2e, 0xd3, 0xa2, 0xa3, 0x9d, 0xcb, 0xe8, 0x19, 0x5e, 0x21, 0xad, 0x16, 0xf4, 0xa8, 0xeb]"
  by (simp add: rs_trace_eval)

lemma rs_trace_133:
  "rs_trace 0x0b 0 rs_unit_coeffs
     [0x01, 0xa3, 0xa9, 0x0a, 0x66, 0xb4, 0x33, 0x24, 0x0a, 0xa5, 0x88, 0x26, 0xf1, 0xad, 0x37, 0x4a, 0xe8,
      0x42, 0x3e, 0xcb, 0xbb, 0x8c, 0xe1, 0x15, 0x89, 0xcd, 0xbe, 0xb6, 0xdb, 0x33, 0x5e, 0x83, 0x8e]"
  by (simp add: rs_trace_eval)

lemma rs_trace_134:
  "rs_trace 0x0a 0 rs_unit_coeffs
     [0x01, 0xa2, 0x00, 0x2c, 0x97, 0xa4, 0x27, 0x9f, 0x15, 0x69, 0x4e, 0x89, 0x64, 0xcc, 0x5e, 0xe9, 0x69,
      0xb2, 0x00, 0xfe, 0x35, 0x49, 0x54, 0xa3, 0xd5, 0x95, 0x8a, 0x47, 0x1b, 0xf3, 0x76, 0x4a, 0x4c]"
  by (simp add: rs_trace_eval)

lemma rs_trace_135:
  "rs_trace 0xa7 0 rs_unit_coeffs
     [0x01, 0x0f, 0x90, 0x51, 0x0c, 0x1f, 0xdf, 0x95, 0x0e, 0x1d, 0x16, 0x64, 0x46, 0x21, 0x32, 0x19, 0x36,
      0x06, 0xbd, 0xb3, 0x9e, 0x87, 0x55, 0x13, 0x24, 0xb1, 0x68, 0x44, 0xe6, 0x97, 0x12, 0x85, 0x9a]"
  by (simp add: rs_trace_eval)

lemma rs_trace_136:
  "rs_trace 0x19 0 rs_unit_coeffs
     [0x01, 0xb1, 0x59, 0xb6, 0xff, 0x7a, 0x45, 0x4f, 0x1a, 0x06, 0x8c, 0xf8, 0x39, 0xc2, 0xeb, 0x05, 0x92,
      0xbb, 0x03, 0xd5, 0xab, 0x79, 0xb3, 0x88, 0x6e, 0xe0, 0xd0, 0xe2, 0xdc, 0x42, 0x7a, 0x87, 0xf6]"
  by (simp add: rs_trace_eval)

lemma rs_trace_137:
  "rs_trace 0x23 0 rs_unit_coeffs
     [0x01, 0x8b, 0xe1, 0x4d, 0x75, 0xae, 0xa0, 0x41, 0x8f, 0x47, 0x5e, 0x6d, 0x84, 0x7c, 0x0f, 0x5a, 0xe2,
      0x22, 0xd2, 0xb6, 0x79, 0x91, 0x47, 0xa6, 0xfb, 0x0d, 0x2a, 0x3d, 0x58, 0x56, 0x0a, 0xc1, 0x95]"
  by (simp add: rs_trace_eval)

lemma rs_trace_138:
  "rs_trace 0x1f 0 rs_unit_coeffs
     [0x01, 0xb7, 0xb3, 0x22, 0xf8, 0xac, 0x06, 0x2c, 0xab, 0x6a, 0xa9, 0x53, 0x21, 0xdb, 0x7e, 0x54, 0xbf,
      0xac, 0xbd, 0x4a, 0xb8, 0xdb, 0x44, 0x05, 0x7d, 0x55, 0x55, 0x5e, 0xb2, 0x0c, 0x90, 0xd9, 0x7c]"
  by (simp add: rs_trace_eval)

lemma rs_trace_139:
  "rs_trace 0xc3 0 rs_unit_coeffs
     [0x01, 0x6b, 0x37, 0xf4, 0x52, 0x09, 0x1d, 0xa3, 0x53, 0x01, 0x19, 0x23, 0xfe, 0x55, 0xd4, 0x46, 0xcc,
      0x40, 0x41, 0x1d, 0xe8, 0x78, 0x3b, 0xfc, 0x60, 0x3c, 0x04, 0x13, 0xee, 0x6a, 0x21, 0xcb, 0xa7]"
  by (simp add: rs_trace_eval)

lemma rs_trace_140:
  "rs_trace 0x95 0 rs_unit_coeffs
     [0x01, 0x3d, 0x3a, 0x32, 0x0b, 0x25, 0x66, 0x85, 0x57, 0x1b, 0xa5, 0x8e, 0xbf, 0xa2, 0xba, 0xec, 0x4a,
      0xd9, 0x02, 0x53, 0x08, 0x31, 0x1c, 0xb8, 0x73, 0xd5, 0x99, 0x1d, 0x2b, 0xec, 0xb1, 0xdd, 0xbf]"
  by (simp add: rs_trace_eval)

lemma rs_trace_141:
  "rs_trace 0x5f 0 rs_unit_coeffs
     [0x01, 0xf7, 0x77, 0x11, 0x95, 0xed, 0x41, 0xb7, 0xf1, 0x18, 0x49, 0x44, 0x51, 0x11, 0x80, 0xa7, 0x3d,
      0x52, 0xbb, 0x44, 0x58, 0x19, 0xcb, 0xbf, 0x5f, 0x03, 0xfb, 0x2d, 0xb2, 0x89, 0xb1, 0x6d, 0x11]"
  by (simp add: rs_trace_eval)

lemma rs_trace_142:
  "rs_trace 0x1d 0 rs_unit_coeffs
     [0x01, 0xb5, 0x60, 0x59, 0x51, 0xb1, 0x0f, 0xd5, 0x15, 0xd5, 0x0e, 0x4a, 0x25, 0xed, 0xf8, 0xd7, 0x01,
      0x3b, 0x57, 0x21, 0x96, 0x24, 0xdd, 0x1e, 0xef, 0xf3, 0x2e, 0x19, 0x86, 0x62, 0x5b, 0x5b, 0x42]"
  by (simp add: rs_trace_eval)

lemma rs_trace_143:
  "rs_trace 0x1e 0 rs_unit_coeffs
     [0x01, 0xb6, 0x1a, 0x87, 0x44, 0x43, 0xe3, 0xaf, 0x93, 0x98, 0x7b, 0x8c, 0x92, 0x47, 0x7c, 0x16, 0xcc,
      0x83, 0x75, 0x2a, 0x27, 0x98, 0xa6, 0x9e, 0xfb, 0x5a, 0xaa, 0x25, 0x8c, 0xa3, 0xce, 0x81, 0x29]"
  by (simp add: rs_trace_eval)

definition ccsds_roots :: bytes where
  "ccsds_roots = map (\<lambda>j. gf_pow (11 * j)) [112..<144]"

lemma ccsds_roots_eval: "ccsds_roots = [0x15, 0x64, 0x8c, 0x7c, 0x02, 0xdd, 0xfb, 0x74, 0x78, 0x3f, 0xac, 0x13, 0x84, 0x06, 0xe0, 0x8a,
     0x9c, 0x88, 0x41, 0x73, 0x35, 0x0b, 0x0a, 0xa7, 0x19, 0x23, 0x1f, 0xc3, 0x95, 0x5f, 0x1d, 0x1e]"
  by (simp add: ccsds_roots_def upt_rec_numeral gf_pow_numeral GF_ILOG_def)

lemma generator_not_at_roots: "x \<in> set ccsds_roots \<Longrightarrow> rs_eval x (1 # rev rs_generator) \<noteq> 0"
proof -
  have "list_all (\<lambda>x. rs_eval x (1 # rev rs_generator) \<noteq> 0) ccsds_roots"
    unfolding rs_unit_coeffs_eq ccsds_roots_eval rs_eval_def
    by (simp add: rs_trace_horner [OF rs_trace_112]
      rs_trace_horner [OF rs_trace_113]
      rs_trace_horner [OF rs_trace_114]
      rs_trace_horner [OF rs_trace_115]
      rs_trace_horner [OF rs_trace_116]
      rs_trace_horner [OF rs_trace_117]
      rs_trace_horner [OF rs_trace_118]
      rs_trace_horner [OF rs_trace_119]
      rs_trace_horner [OF rs_trace_120]
      rs_trace_horner [OF rs_trace_121]
      rs_trace_horner [OF rs_trace_122]
      rs_trace_horner [OF rs_trace_123]
      rs_trace_horner [OF rs_trace_124]
      rs_trace_horner [OF rs_trace_125]
      rs_trace_horner [OF rs_trace_126]
      rs_trace_horner [OF rs_trace_127]
      rs_trace_horner [OF rs_trace_128]
      rs_trace_horner [OF rs_trace_129]
      rs_trace_horner [OF rs_trace_130]
      rs_trace_horner [OF rs_trace_131]
      rs_trace_horner [OF rs_trace_132]
      rs_trace_horner [OF rs_trace_133]
      rs_trace_horner [OF rs_trace_134]
      rs_trace_horner [OF rs_trace_135]
      rs_trace_horner [OF rs_trace_136]
      rs_trace_horner [OF rs_trace_137]
      rs_trace_horner [OF rs_trace_138]
      rs_trace_horner [OF rs_trace_139]
      rs_trace_horner [OF rs_trace_140]
      rs_trace_horner [OF rs_trace_141]
      rs_trace_horner [OF rs_trace_142]
      rs_trace_horner [OF rs_trace_143])
  then show "x \<in> set ccsds_roots \<Longrightarrow> rs_eval x (1 # rev rs_generator) \<noteq> 0" by (simp add: list_all_iff)
qed

section \<open>Properties\<close>

text \<open>
  C31. The table-driven encoder computes, for every message, the parity register of
  systematic encoding with true multiplication in GF(256) modulo 0x187: the logarithm
  tables, the index reduction modulo 255, the in-place shift and the zero-feedback shortcut
  introduce no error.
\<close>

theorem rs_encode_codeblock_is_field_division:
  "ccsds_rs_encode_codeblock data = foldl rs_ref_byte (replicate 32 0) (take 223 data)"
  by (simp add: ccsds_rs_encode_codeblock_def rs_encode_ref)

text \<open>
  C32. Every code word is a multiple of the generator polynomial: for every message of at
  most 223 octets and every point of the field, the word of message and parity (the register read highest coefficient
  first) evaluates to the quotient of the message times the generator.  The coefficients in the
  source do not make it the generator of the CCSDS (255,223) code: it vanishes at none of that
  code's 32 roots \<open>\<alpha>^(11 j)\<close>, \<open>112 \<le> j \<le> 143\<close>, so a word vanishes there only if its quotient does,
  while every word of the CCSDS code does.
\<close>

theorem rs_codeword_is_generator_multiple:
  assumes "length msg \<le> 223"
  shows "rs_eval x (rs_codeword msg) = gf_mul (rs_eval x (rs_quotient msg)) (rs_eval x (1 # rev rs_generator)) \<and>
    (x \<in> set ccsds_roots \<longrightarrow> (rs_eval x (rs_codeword msg) = 0 \<longleftrightarrow> rs_eval x (rs_quotient msg) = 0))"
proof -
  have "rs_codeword msg = msg @ rev (foldl rs_ref_byte (replicate 32 0) msg)"
    using assms by (simp add: rs_codeword_def ccsds_rs_encode_codeblock_def rs_encode_ref)
  with rs_division [of x msg] generator_not_at_roots [of x] show ?thesis by (simp add: gf_mul_eq_0)
qed

theorem rs_codeword_is_generator_multiple_witness:
  "list_all (\<lambda>x. rs_eval x (rs_codeword [0, 1]) \<noteq> 0) ccsds_roots"
proof -
  have "rs_quotient [0, 1] = [0, 1]"
    using rs_ref_zeros [of 1] by (simp add: rs_quotient_def upt_rec_numeral)
  then have "rs_eval x (rs_quotient [0, 1]) = 1" for x by (simp add: rs_eval_def)
  moreover have "x \<in> set ccsds_roots \<longrightarrow> (rs_eval x (rs_codeword [0, 1]) = 0 \<longleftrightarrow> rs_eval x (rs_quotient [0, 1]) = 0)" for x
    by (rule conjunct2 [OF rs_codeword_is_generator_multiple]) simp
  ultimately show ?thesis by (simp add: list_all_iff)
qed

end
