(* ===== verification/Tm_Frame.thy ===== *)
theory Tm_Frame
  imports Space_Packet Crc16 Rnd Rs Sdls
begin

unbundle bit_operations_syntax

text \<open>
  The telemetry frame generator (\<^verbatim>\<open>src/ccsds_tm_frame.c\<close>, \<^verbatim>\<open>ccsds_tm_frame.h\<close>): one byte queue per
  virtual channel, frames of fixed length cut from the queued Space Packets, idle filling, the
  first header pointer, frame counters, OCF and FECF, security, coding and the route
  callbacks.  The kernel's pipe is not part of the repository: it is the parameter
  \<open>k_pipe_ops\<close>, and \<open>pipe_contract\<close> states what its documentation promises, a first-in
  first-out byte queue whose calls may transfer fewer bytes than asked for.  Every entry point
  that touches a channel holds that channel's \<^verbatim>\<open>write_lock\<close>, so the calls are modelled as atomic.
\<close>

section \<open>State\<close>

datatype k_timeout = K_NO_WAIT | K_FOREVER | K_TICKS nat

record 'p k_pipe_ops =
  k_pipe_init :: "nat \<Rightarrow> 'p"
  k_pipe_read :: "'p \<Rightarrow> nat \<Rightarrow> (errno + bytes) \<times> 'p"
  k_pipe_write :: "'p \<Rightarrow> bytes \<Rightarrow> k_timeout \<Rightarrow> (errno + nat) \<times> 'p"

record 'p ccsds_tm_vc =
  pending :: 'p
  pending_len :: nat
  packet_rem :: nat
  packet_is_idle :: bool
  vcfc :: u8
  vc_route_mask :: u32
  vc_sdls_spi :: u16

record ('f, 'u) ccsds_tm_route =
  tm_route_fn :: "'f option"
  tm_route_user_data :: "'u option"

record ('f, 'u) ccsds_tm_clcw_provider =
  clcw_fn :: "'f option"
  clcw_user_data :: "'u option"

text \<open>The module's variables; the frame buffers are rebuilt for every frame and hold no state.\<close>

record ('p, 'f, 'u, 'cb) tm_module =
  vcs :: "'p ccsds_tm_vc list"
  routes :: "('f, 'u) ccsds_tm_route list"
  clcw_provider :: "('f, 'u) ccsds_tm_clcw_provider"
  mcfc :: u8
  generator_active_delay :: k_timeout
  generator_idle_delay :: k_timeout
  generator_last_vcid :: nat
  generator_running :: bool
  generator_last_cycle_active :: bool
  sdls_ctx :: "'cb ccsds_sdls_ctx option"

text \<open>What the module is compiled with and calls: configuration, pipe, cipher, callbacks.\<close>

record ('p, 'f, 'u, 'env) tm_platform =
  t_cfg :: ccsds_config
  t_sdls_cfg :: sdls_config
  t_pipe :: "'p k_pipe_ops"
  t_encrypt :: psa_aead
  t_route :: "'f \<Rightarrow> nat \<Rightarrow> bytes \<Rightarrow> 'u option \<Rightarrow> 'env \<Rightarrow> rc \<times> 'env"
  t_clcw :: "'f \<Rightarrow> 'u option \<Rightarrow> 'env \<Rightarrow> (errno + u32) \<times> 'env"

definition CCSDS_TM_SUPPORTED_ROUTE_MASK :: u32 where "CCSDS_TM_SUPPORTED_ROUTE_MASK = 0x1f OR 0x70000"

definition CCSDS_TM_IDLE_VC_ID :: nat where "CCSDS_TM_IDLE_VC_ID = 7"
definition CCSDS_TM_IDLE_FIRST_HEADER_POINTER :: u16 where "CCSDS_TM_IDLE_FIRST_HEADER_POINTER = 0x7fe"
definition CCSDS_TM_NO_FIRST_HEADER_POINTER :: u16 where "CCSDS_TM_NO_FIRST_HEADER_POINTER = 0x7ff"

definition CCSDS_TM_FRAME_LEN :: "ccsds_config \<Rightarrow> nat" where
  "CCSDS_TM_FRAME_LEN cfg =
     (if CCSDS_RS cfg then 223 * CCSDS_RS_INTERLEAVE_DEPTH cfg else CCSDS_MAX_FRAME_LEN cfg)"

definition CCSDS_TM_FECF_LEN :: "ccsds_config \<Rightarrow> nat" where
  "CCSDS_TM_FECF_LEN cfg = (if CCSDS_TM_FECF cfg then 2 else 0)"

section \<open>Building blocks\<close>

definition packet_total_len :: "bytes \<Rightarrow> nat" where
  "packet_total_len packet = 6 + unat (be16_at packet 4) + 1"

definition route_bit_is_valid :: "u32 \<Rightarrow> bool" where
  "route_bit_is_valid route_bit \<longleftrightarrow>
     route_bit \<noteq> 0 \<and> route_bit AND (route_bit - 1) = 0 \<and> route_bit AND CCSDS_TM_SUPPORTED_ROUTE_MASK \<noteq> 0"

definition route_mask_is_valid :: "u32 \<Rightarrow> bool" where
  "route_mask_is_valid route_mask \<longleftrightarrow> route_mask AND NOT CCSDS_TM_SUPPORTED_ROUTE_MASK = 0"

text \<open>The loop of \<^verbatim>\<open>route_bit_index\<close>; not returning is the value \<open>None\<close>.\<close>

partial_function (option) route_bit_loop :: "u32 \<Rightarrow> nat \<Rightarrow> nat option" where
  "route_bit_loop route_bit bit_num =
     (if drop_bit bit_num route_bit \<noteq> 1 then route_bit_loop route_bit (bit_num + 1) else Some bit_num)"

definition route_bit_index :: "u32 \<Rightarrow> nat option" where
  "route_bit_index route_bit = route_bit_loop route_bit 0"

definition build_primary_header :: "ccsds_config \<Rightarrow> u8 \<Rightarrow> u8 \<Rightarrow> nat \<Rightarrow> u16 \<Rightarrow> bytes" where
  "build_primary_header cfg mc vc vcid first_header_pointer =
     (let word0 = push_bit 4 (CCSDS_SPACECRAFT_ID cfg AND 0x3ff) OR
                  push_bit 1 (word_of_nat vcid AND 0x7) OR 0x1;
          word2 = push_bit 15 (0 AND 0x1) OR push_bit 14 (0 AND 0x1) OR push_bit 13 (0 AND 0x1) OR
                  push_bit 11 (3 AND 0x3) OR (first_header_pointer AND 0x7ff)
      in put_be16 word0 @ [mc, vc] @ put_be16 word2)"

definition append_fecf :: "ccsds_config \<Rightarrow> bytes \<Rightarrow> bytes" where
  "append_fecf cfg frame_buf =
     (if CCSDS_TM_FECF cfg
      then let fecf_offset = CCSDS_TM_FRAME_LEN cfg - CCSDS_TM_FECF_LEN cfg
           in copy_into frame_buf fecf_offset (put_be16 (ccsds_crc16_compute (take fecf_offset frame_buf)))
      else frame_buf)"

definition append_ocf ::
  "('p, 'f, 'u, 'env) tm_platform \<Rightarrow> ('p, 'f, 'u, 'cb) tm_module \<Rightarrow> bytes \<Rightarrow> nat \<Rightarrow> 'env \<Rightarrow> bytes \<times> 'env" where
  "append_ocf pf tm frame_buf ocf_offset env =
     (let clcw_word =
        (case clcw_fn (clcw_provider tm) of
           None \<Rightarrow> (frame_buf, env)
         | Some f \<Rightarrow>
             (case t_clcw pf f (clcw_user_data (clcw_provider tm)) env of
                (Inl e, env) \<Rightarrow> (frame_buf, env)
              | (Inr clcw, env) \<Rightarrow> (copy_into frame_buf ocf_offset (put_be32 clcw), env)))
      in case sdls_ctx tm of
           Some ctx \<Rightarrow>
             if fsr_enabled ctx \<and> fsr_next ctx
             then (copy_into frame_buf ocf_offset (ccsds_sdls_fsr_encode ctx), env)
             else clcw_word
         | None \<Rightarrow> clcw_word)"

definition complete_ocf :: "('p, 'f, 'u, 'cb) tm_module \<Rightarrow> ('p, 'f, 'u, 'cb) tm_module" where
  "complete_ocf tm =
     (case sdls_ctx tm of
        Some ctx \<Rightarrow>
          if fsr_enabled ctx then tm\<lparr>sdls_ctx := Some (ctx\<lparr>fsr_next := \<not> fsr_next ctx\<rparr>)\<rparr> else tm
      | None \<Rightarrow> tm)"

definition increment_frame_counters ::
  "('p, 'f, 'u, 'cb) tm_module \<Rightarrow> nat \<Rightarrow> ('p, 'f, 'u, 'cb) tm_module" where
  "increment_frame_counters tm vcid =
     tm\<lparr>mcfc := mcfc tm + 1, vcs := (vcs tm)[vcid := (vcs tm ! vcid)\<lparr>vcfc := vcfc (vcs tm ! vcid) + 1\<rparr>]\<rparr>"

definition security_enabled :: "('p, 'f, 'u, 'cb) tm_module \<Rightarrow> nat \<Rightarrow> bool" where
  "security_enabled tm vcid \<longleftrightarrow> sdls_ctx tm \<noteq> None \<and> vc_sdls_spi (vcs tm ! vcid) \<noteq> 0"

definition security_overhead :: "('p, 'f, 'u, 'cb) tm_module \<Rightarrow> nat \<Rightarrow> nat" where
  "security_overhead tm vcid = (if security_enabled tm vcid then 30 else 0)"

definition security_header_len :: "('p, 'f, 'u, 'cb) tm_module \<Rightarrow> nat \<Rightarrow> nat" where
  "security_header_len tm vcid = (if security_enabled tm vcid then 14 else 0)"

text \<open>The data field of a frame: \<^verbatim>\<open>data_len\<close> of the two builders.\<close>

definition tm_data_len :: "ccsds_config \<Rightarrow> ('p, 'f, 'u, 'cb) tm_module \<Rightarrow> nat \<Rightarrow> nat" where
  "tm_data_len cfg tm vcid =
     CCSDS_TM_FRAME_LEN cfg - 6 - security_overhead tm vcid - 4 - CCSDS_TM_FECF_LEN cfg"

text \<open>Protects the data field in place; the error, or the frame, and the module's context.\<close>

definition apply_security ::
  "('p, 'f, 'u, 'env) tm_platform \<Rightarrow> ('p, 'f, 'u, 'cb) tm_module \<Rightarrow> nat \<Rightarrow> bytes \<Rightarrow>
     (errno + bytes) \<times> ('p, 'f, 'u, 'cb) tm_module" where
  "apply_security pf tm vcid frame_buf =
     (case sdls_ctx tm of
        None \<Rightarrow> (Inr frame_buf, tm)
      | Some ctx \<Rightarrow>
          let data_len = CCSDS_TM_FRAME_LEN (t_cfg pf) - 6 - 30 - 4 - CCSDS_TM_FECF_LEN (t_cfg pf)
          in case ccsds_sdls_apply_security (t_sdls_cfg pf) (t_encrypt pf) ctx
                 CCSDS_SDLS_SA_OPERATIONAL_TM_TX (vc_sdls_spi (vcs tm ! vcid))
                 \<lparr>auth_data = take 6 frame_buf, auth_mask = ccsds_sdls_tm_default_auth_mask\<rparr>
                 (take data_len (drop (6 + 14) frame_buf)) of
               (Inl e, ctx) \<Rightarrow> (Inl e, tm\<lparr>sdls_ctx := Some ctx\<rparr>)
             | (Inr out, ctx) \<Rightarrow> (Inr (copy_into frame_buf 6 out), tm\<lparr>sdls_ctx := Some ctx\<rparr>))"

definition fill_idle_space_packet :: "nat \<Rightarrow> bytes" where
  "fill_idle_space_packet len =
     (if len < 7 then replicate len 0
      else put_be16 CCSDS_APID_MAX @ put_be16 (push_bit 14 3) @ put_be16 (word_of_nat (len - 6 - 1)) @
           replicate (len - 6) 0)"

text \<open>Drains \<open>len\<close> bytes; \<open>buf\<close> is what was read so far.\<close>

function read_pending_bytes ::
  "'p k_pipe_ops \<Rightarrow> 'p ccsds_tm_vc \<Rightarrow> nat \<Rightarrow> bytes \<Rightarrow> (errno + bytes) \<times> 'p ccsds_tm_vc" where
  "read_pending_bytes ops vc len buf =
     (if len = 0 then (Inr buf, vc)
      else case k_pipe_read ops (pending vc) len of
        (Inl e, p) \<Rightarrow> (Inl e, vc\<lparr>pending := p\<rparr>)
      | (Inr d, p) \<Rightarrow>
          if d = [] then (Inl EIO, vc\<lparr>pending := p\<rparr>)
          else read_pending_bytes ops (vc\<lparr>pending := p, pending_len := pending_len vc - length d\<rparr>)
                 (len - length d) (buf @ d))"
  by pat_completeness auto
termination
  by (relation "measure (\<lambda>(_, _, len, _). len)") auto

declare read_pending_bytes.simps [simp del]

lemma read_pending_grows: "read_pending_bytes ops vc len buf = (Inr d, vc') \<Longrightarrow> length buf + len \<le> length d"
proof (induction ops vc len buf rule: read_pending_bytes.induct)
  case (1 ops vc len buf)
  then show ?case
    using read_pending_bytes.simps [of ops vc len buf] by (fastforce split: if_splits prod.splits sum.splits)
qed

text \<open>The filling loop: the bytes laid down so far (\<^verbatim>\<open>used\<close> of them) and the pointer, or an error.\<close>

function build_packet_loop ::
  "'p k_pipe_ops \<Rightarrow> nat \<Rightarrow> 'p ccsds_tm_vc \<Rightarrow> bytes \<Rightarrow> u16 \<Rightarrow> (errno + bytes \<times> u16) \<times> 'p ccsds_tm_vc" where
  "build_packet_loop ops data_len vc data first_header_pointer =
     (if length data < data_len \<and> (packet_rem vc > 0 \<or> pending_len vc > 0)
      then let space = data_len - length data in
        if packet_rem vc > 0 then
          let chunk_len = min (packet_rem vc) space in
          (case read_pending_bytes ops vc chunk_len [] of
             (Inl e, vc) \<Rightarrow> (Inl e, vc)
           | (Inr d, vc) \<Rightarrow>
               build_packet_loop ops data_len (vc\<lparr>packet_rem := packet_rem vc - chunk_len\<rparr>) (data @ d)
                 first_header_pointer)
        else if space < 6 then (Inr (data, first_header_pointer), vc)
        else if pending_len vc < 6 then (Inl EIO, vc)
        else
          let fhp = (if first_header_pointer = CCSDS_TM_NO_FIRST_HEADER_POINTER
                     then word_of_nat (length data) else first_header_pointer) in
          (case read_pending_bytes ops vc 6 [] of
             (Inl e, vc) \<Rightarrow> (Inl e, vc)
           | (Inr d, vc) \<Rightarrow>
               build_packet_loop ops data_len (vc\<lparr>packet_rem := packet_total_len d - 6\<rparr>) (data @ d) fhp)
      else (Inr (data, first_header_pointer), vc))"
  by pat_completeness auto
termination
  by (relation "measure (\<lambda>(_, data_len, _, data, _). data_len - length data)")
    (auto dest!: read_pending_grows [OF sym])

declare build_packet_loop.simps [simp del]

section \<open>Frames\<close>

text \<open>Counters, OCF and FECF of a finished frame, common to both builders.\<close>

definition finish_transfer_frame ::
  "('p, 'f, 'u, 'env) tm_platform \<Rightarrow> ('p, 'f, 'u, 'cb) tm_module \<Rightarrow> nat \<Rightarrow> bytes \<Rightarrow> nat \<Rightarrow> 'env \<Rightarrow>
     bytes \<times> ('p, 'f, 'u, 'cb) tm_module \<times> 'env" where
  "finish_transfer_frame pf tm vcid frame_buf ocf_offset env =
     (case append_ocf pf tm frame_buf ocf_offset env of
        (frame_buf, env) \<Rightarrow>
          (append_fecf (t_cfg pf) frame_buf, increment_frame_counters (complete_ocf tm) vcid, env))"

definition build_idle_transfer_frame ::
  "('p, 'f, 'u, 'env) tm_platform \<Rightarrow> ('p, 'f, 'u, 'cb) tm_module \<Rightarrow> nat \<Rightarrow> 'env \<Rightarrow>
     bytes option \<times> ('p, 'f, 'u, 'cb) tm_module \<times> 'env" where
  "build_idle_transfer_frame pf tm vcid env =
     (let cfg = t_cfg pf;
          data_len = tm_data_len cfg tm vcid;
          ocf_offset = 6 + security_overhead tm vcid + data_len;
          frame_buf = copy_into (replicate (CCSDS_TM_FRAME_LEN cfg) 0) 0
            (build_primary_header cfg (mcfc tm) (vcfc (vcs tm ! vcid)) vcid CCSDS_TM_IDLE_FIRST_HEADER_POINTER)
      in case (if security_enabled tm vcid then apply_security pf tm vcid frame_buf else (Inr frame_buf, tm)) of
           (Inl e, tm) \<Rightarrow> (None, tm, env)
         | (Inr frame_buf, tm) \<Rightarrow>
             (case finish_transfer_frame pf tm vcid frame_buf ocf_offset env of
                (frame, tm, env) \<Rightarrow> (Some frame, tm, env)))"

text \<open>What follows the loop: an idle packet, or zeros, fills the field, and may be its first packet.\<close>

definition field_pointer :: "nat \<Rightarrow> bytes \<Rightarrow> u16 \<Rightarrow> u16" where
  "field_pointer data_len data fhp =
     (if length data < data_len \<and> fhp = CCSDS_TM_NO_FIRST_HEADER_POINTER \<and> data_len - length data \<ge> 7
      then word_of_nat (length data) else fhp)"

definition field_data :: "nat \<Rightarrow> bytes \<Rightarrow> bytes" where
  "field_data data_len data =
     (if length data < data_len then data @ fill_idle_space_packet (data_len - length data) else data)"

definition build_packet_transfer_frame ::
  "('p, 'f, 'u, 'env) tm_platform \<Rightarrow> ('p, 'f, 'u, 'cb) tm_module \<Rightarrow> nat \<Rightarrow> 'env \<Rightarrow>
     (errno + bytes) \<times> ('p, 'f, 'u, 'cb) tm_module \<times> 'env" where
  "build_packet_transfer_frame pf tm vcid env =
     (let cfg = t_cfg pf;
          data_len = tm_data_len cfg tm vcid;
          ocf_offset = 6 + security_overhead tm vcid + data_len;
          data_offset = 6 + security_header_len tm vcid;
          frame_buf = replicate (CCSDS_TM_FRAME_LEN cfg) 0
      in case build_packet_loop (t_pipe pf) data_len (vcs tm ! vcid) [] CCSDS_TM_NO_FIRST_HEADER_POINTER of
           (Inl e, vc) \<Rightarrow> (Inl e, tm\<lparr>vcs := (vcs tm)[vcid := vc]\<rparr>, env)
         | (Inr (data, fhp), vc) \<Rightarrow>
             let tm = tm\<lparr>vcs := (vcs tm)[vcid := vc]\<rparr>;
                 frame_buf = copy_into frame_buf data_offset (field_data data_len data);
                 frame_buf = copy_into frame_buf 0
                   (build_primary_header cfg (mcfc tm) (vcfc vc) vcid (field_pointer data_len data fhp))
             in case (if security_enabled tm vcid then apply_security pf tm vcid frame_buf
                      else (Inr frame_buf, tm)) of
                  (Inl e, tm) \<Rightarrow> (Inl e, tm, env)
                | (Inr frame_buf, tm) \<Rightarrow>
                    (case finish_transfer_frame pf tm vcid frame_buf ocf_offset env of
                       (frame, tm, env) \<Rightarrow> (Inr frame, tm, env)))"

definition code_transfer_frame :: "ccsds_config \<Rightarrow> bytes \<Rightarrow> bytes" where
  "code_transfer_frame cfg frame =
     (let body = (if CCSDS_RS cfg then frame @ ccsds_rs_encode cfg frame else frame);
          body = (if CCSDS_TM_RND cfg then ccsds_rnd_apply body else body)
      in [0x1a, 0xcf, 0xfc, 0x1d] @ body)"

section \<open>Generator and routes\<close>

definition vc_has_pending_bytes :: "('p, 'f, 'u, 'cb) tm_module \<Rightarrow> nat \<Rightarrow> bool" where
  "vc_has_pending_bytes tm vcid \<longleftrightarrow> pending_len (vcs tm ! vcid) > 0 \<or> packet_rem (vcs tm ! vcid) > 0"

definition generator_select_active_vc :: "('p, 'f, 'u, 'cb) tm_module \<Rightarrow> nat option" where
  "generator_select_active_vc tm = find (vc_has_pending_bytes tm) [0..<length (vcs tm)]"

function route_loop ::
  "('p, 'f, 'u, 'env) tm_platform \<Rightarrow> ('f, 'u) ccsds_tm_route list \<Rightarrow> nat \<Rightarrow> bytes \<Rightarrow> u32 \<Rightarrow> nat \<Rightarrow> 'env \<Rightarrow> 'env" where
  "route_loop pf rs vcid frame mask_left bit_num env =
     (if mask_left \<noteq> 0 \<and> bit_num < length rs
      then let route_bit = push_bit bit_num 1; route = rs ! bit_num in
        if mask_left AND route_bit = 0 then route_loop pf rs vcid frame mask_left (bit_num + 1) env
        else
          let env = (case tm_route_fn route of
                       None \<Rightarrow> env
                     | Some f \<Rightarrow> snd (t_route pf f vcid frame (tm_route_user_data route) env))
          in route_loop pf rs vcid frame (mask_left AND NOT route_bit) (bit_num + 1) env
      else env)"
  by pat_completeness auto
termination
  by (relation "measure (\<lambda>(_, rs, _, _, _, bit_num, _). length rs - bit_num)") auto

declare route_loop.simps [simp del]

definition route_frame ::
  "('p, 'f, 'u, 'env) tm_platform \<Rightarrow> ('p, 'f, 'u, 'cb) tm_module \<Rightarrow> nat \<Rightarrow> bytes \<Rightarrow> 'env \<Rightarrow> 'env" where
  "route_frame pf tm vcid frame env =
     route_loop pf (routes tm) vcid frame (vc_route_mask (vcs tm ! vcid)) 0 env"

definition generator_cycle ::
  "('p, 'f, 'u, 'env) tm_platform \<Rightarrow> ('p, 'f, 'u, 'cb) tm_module \<Rightarrow> 'env \<Rightarrow>
     bool \<times> ('p, 'f, 'u, 'cb) tm_module \<times> 'env" where
  "generator_cycle pf tm env =
     (case generator_select_active_vc tm of
        None \<Rightarrow>
          let tm = tm\<lparr>generator_last_cycle_active := False, generator_last_vcid := CCSDS_TM_IDLE_VC_ID\<rparr> in
          (case build_idle_transfer_frame pf tm CCSDS_TM_IDLE_VC_ID env of
             (None, tm, env) \<Rightarrow> (False, tm, env)
           | (Some frame, tm, env) \<Rightarrow>
               (False, tm, route_frame pf tm CCSDS_TM_IDLE_VC_ID (code_transfer_frame (t_cfg pf) frame) env))
      | Some vcid \<Rightarrow>
          let tm = tm\<lparr>generator_last_cycle_active := True, generator_last_vcid := vcid\<rparr> in
          (case build_packet_transfer_frame pf tm vcid env of
             (Inl e, tm, env) \<Rightarrow> (True, tm, env)
           | (Inr frame, tm, env) \<Rightarrow>
               (True, tm, route_frame pf tm vcid (code_transfer_frame (t_cfg pf) frame) env)))"

text \<open>The work handler; the first component is the delay it hands to \<^verbatim>\<open>k_work_schedule\<close>, if it does.\<close>

definition generator_work_handler ::
  "('p, 'f, 'u, 'env) tm_platform \<Rightarrow> ('p, 'f, 'u, 'cb) tm_module \<Rightarrow> 'env \<Rightarrow>
     k_timeout option \<times> ('p, 'f, 'u, 'cb) tm_module \<times> 'env" where
  "generator_work_handler pf tm env =
     (if \<not> generator_running tm then (None, tm, env)
      else case generator_cycle pf tm env of
        (active, tm, env) \<Rightarrow>
          (if generator_running tm
           then Some (if active then generator_active_delay tm else generator_idle_delay tm) else None,
           tm, env))"

section \<open>Entry points\<close>

definition ccsds_tm_frame_stop :: "('p, 'f, 'u, 'cb) tm_module \<Rightarrow> ('p, 'f, 'u, 'cb) tm_module" where
  "ccsds_tm_frame_stop tm = tm\<lparr>generator_running := False\<rparr>"

definition ccsds_tm_frame_start ::
  "('p, 'f, 'u, 'cb) tm_module \<Rightarrow> k_timeout \<Rightarrow> k_timeout \<Rightarrow> k_timeout \<times> ('p, 'f, 'u, 'cb) tm_module" where
  "ccsds_tm_frame_start tm active_delay idle_delay =
     (K_NO_WAIT, tm\<lparr>generator_active_delay := active_delay, generator_idle_delay := idle_delay,
                    generator_running := True\<rparr>)"

definition ccsds_tm_frame_init ::
  "('p, 'f, 'u, 'env) tm_platform \<Rightarrow> ('p, 'f, 'u, 'cb) tm_module \<Rightarrow> ('p, 'f, 'u, 'cb) tm_module" where
  "ccsds_tm_frame_init pf tm =
     (ccsds_tm_frame_stop tm)\<lparr>
       vcs := map (\<lambda>vc. vc\<lparr>pending := k_pipe_init (t_pipe pf) (CCSDS_TM_QUEUE_DEPTH (t_cfg pf)),
                           pending_len := 0, packet_rem := 0, packet_is_idle := False, vcfc := 0,
                           vc_route_mask := 0\<rparr>) (vcs tm),
       routes := replicate 32 \<lparr>tm_route_fn = None, tm_route_user_data = None\<rparr>,
       clcw_provider := \<lparr>clcw_fn = None, clcw_user_data = None\<rparr>,
       sdls_ctx := None,
       mcfc := 0,
       generator_active_delay := K_NO_WAIT, generator_idle_delay := K_NO_WAIT,
       generator_last_vcid := 7, generator_last_cycle_active := False\<rparr>"

definition ccsds_tm_frame_set_sdls ::
  "('p, 'f, 'u, 'cb) tm_module \<Rightarrow> 'cb ccsds_sdls_ctx \<Rightarrow> u16 \<Rightarrow> ('p, 'f, 'u, 'cb) tm_module" where
  "ccsds_tm_frame_set_sdls tm sdls spi =
     tm\<lparr>sdls_ctx := Some sdls, vcs := map (\<lambda>vc. vc\<lparr>vc_sdls_spi := spi\<rparr>) (vcs tm)\<rparr>"

definition ccsds_tm_frame_set_vc_sdls ::
  "('p, 'f, 'u, 'cb) tm_module \<Rightarrow> nat \<Rightarrow> u16 \<Rightarrow> ('p, 'f, 'u, 'cb) tm_module" where
  "ccsds_tm_frame_set_vc_sdls tm vcid spi =
     tm\<lparr>vcs := (vcs tm)[vcid := (vcs tm ! vcid)\<lparr>vc_sdls_spi := spi\<rparr>]\<rparr>"

definition ccsds_tm_frame_register_route ::
  "('p, 'f, 'u, 'cb) tm_module \<Rightarrow> u32 \<Rightarrow> 'f \<Rightarrow> 'u option \<Rightarrow> (rc \<times> ('p, 'f, 'u, 'cb) tm_module) option" where
  "ccsds_tm_frame_register_route tm route_bit f u =
     (if \<not> route_bit_is_valid route_bit then Some (RC_ERR EINVAL, tm)
      else case route_bit_index route_bit of
        None \<Rightarrow> None
      | Some bit_num \<Rightarrow>
          Some (RC_OK, tm\<lparr>routes := (routes tm)[bit_num := \<lparr>tm_route_fn = Some f, tm_route_user_data = u\<rparr>]\<rparr>))"

definition ccsds_tm_frame_set_clcw_provider ::
  "('p, 'f, 'u, 'cb) tm_module \<Rightarrow> 'f option \<Rightarrow> 'u option \<Rightarrow> ('p, 'f, 'u, 'cb) tm_module" where
  "ccsds_tm_frame_set_clcw_provider tm f u = tm\<lparr>clcw_provider := \<lparr>clcw_fn = f, clcw_user_data = u\<rparr>\<rparr>"

definition ccsds_tm_frame_set_vc_route ::
  "('p, 'f, 'u, 'cb) tm_module \<Rightarrow> nat \<Rightarrow> u32 \<Rightarrow> rc \<times> ('p, 'f, 'u, 'cb) tm_module" where
  "ccsds_tm_frame_set_vc_route tm vcid route_mask =
     (if vcid > 7 \<or> \<not> route_mask_is_valid route_mask then (RC_ERR EINVAL, tm)
      else (RC_OK, tm\<lparr>vcs := (vcs tm)[vcid := (vcs tm ! vcid)\<lparr>vc_route_mask := route_mask\<rparr>]\<rparr>))"

definition ccsds_tm_frame_get_vc_route :: "('p, 'f, 'u, 'cb) tm_module \<Rightarrow> nat \<Rightarrow> errno + u32" where
  "ccsds_tm_frame_get_vc_route tm vcid =
     (if vcid > 7 then Inl EINVAL else Inr (vc_route_mask (vcs tm ! vcid)))"

text \<open>The write loop of \<^verbatim>\<open>ccsds_tm_frame_add\<close> on the part of the packet not yet written.\<close>

function write_pending_bytes ::
  "'p k_pipe_ops \<Rightarrow> 'p ccsds_tm_vc \<Rightarrow> bytes \<Rightarrow> k_timeout \<Rightarrow> rc \<times> 'p ccsds_tm_vc" where
  "write_pending_bytes ops vc left timeout =
     (if left = [] then (RC_OK, vc)
      else case k_pipe_write ops (pending vc) left timeout of
        (Inl e, p) \<Rightarrow> (RC_ERR e, vc\<lparr>pending := p\<rparr>)
      | (Inr n, p) \<Rightarrow>
          if n = 0 then (RC_ERR EIO, vc\<lparr>pending := p\<rparr>)
          else write_pending_bytes ops (vc\<lparr>pending := p, pending_len := pending_len vc + n\<rparr>) (drop n left) timeout)"
  by pat_completeness auto
termination
  by (relation "measure (\<lambda>(_, _, left, _). length left)") auto

declare write_pending_bytes.simps [simp del]

text \<open>\<open>lock\<close> is what \<^verbatim>\<open>k_mutex_lock\<close> returns for the channel's lock and the timeout.\<close>

definition ccsds_tm_frame_add ::
  "('p, 'f, 'u, 'env) tm_platform \<Rightarrow> ('p, 'f, 'u, 'cb) tm_module \<Rightarrow> nat \<Rightarrow> bytes \<Rightarrow> k_timeout \<Rightarrow> rc \<Rightarrow>
     rc \<times> ('p, 'f, 'u, 'cb) tm_module" where
  "ccsds_tm_frame_add pf tm vcid packet timeout lock =
     (if length packet < 7 then (RC_ERR EINVAL, tm)
      else if packet_total_len packet \<noteq> length packet then (RC_ERR EINVAL, tm)
      else if length packet > CCSDS_TM_MAX_SPACE_PACKET_LEN (t_cfg pf) then (RC_ERR EMSGSIZE, tm)
      else if length packet > CCSDS_TM_QUEUE_DEPTH (t_cfg pf) then (RC_ERR EMSGSIZE, tm)
      else if vcid > 7 then (RC_ERR EINVAL, tm)
      else if lock \<noteq> RC_OK then (lock, tm)
      else case write_pending_bytes (t_pipe pf) (vcs tm ! vcid) packet timeout of
        (ret, vc) \<Rightarrow> (ret, tm\<lparr>vcs := (vcs tm)[vcid := vc]\<rparr>))"

section \<open>The queue\<close>

text \<open>
  What the kernel documents of the pipe, with \<open>contents\<close> the bytes it holds: a new pipe is empty;
  a read without waiting takes at least one byte of a nonempty pipe, from its front, and fails on
  an empty one; a write appends at least one byte of what it is given, or fails and appends none.
\<close>

definition pipe_contract :: "'p k_pipe_ops \<Rightarrow> ('p \<Rightarrow> bytes) \<Rightarrow> bool" where
  "pipe_contract ops contents \<longleftrightarrow>
     (\<forall>n. contents (k_pipe_init ops n) = []) \<and>
     (\<forall>p n. 0 < n \<longrightarrow>
        (case k_pipe_read ops p n of
           (Inl e, p') \<Rightarrow> contents p = [] \<and> contents p' = []
         | (Inr d, p') \<Rightarrow> d \<noteq> [] \<and> length d \<le> n \<and> contents p = d @ contents p')) \<and>
     (\<forall>p d t. d \<noteq> [] \<longrightarrow>
        (case k_pipe_write ops p d t of
           (Inl e, p') \<Rightarrow> contents p' = contents p
         | (Inr n, p') \<Rightarrow> 0 < n \<and> n \<le> length d \<and> contents p' = contents p @ take n d))"

lemma pipe_read_cases:
  assumes "pipe_contract ops contents" "0 < n"
  obtains (empty) e p' where "k_pipe_read ops p n = (Inl e, p')" "contents p = []" "contents p' = []"
    | (some) d p' where "k_pipe_read ops p n = (Inr d, p')" "d \<noteq> []" "length d \<le> n" "contents p = d @ contents p'"
proof -
  have "case k_pipe_read ops p n of
           (Inl e, p') \<Rightarrow> contents p = [] \<and> contents p' = []
         | (Inr d, p') \<Rightarrow> d \<noteq> [] \<and> length d \<le> n \<and> contents p = d @ contents p'"
    using assms by (simp add: pipe_contract_def)
  then show ?thesis by (auto split: prod.splits sum.splits intro: that)
qed

lemma pipe_write_cases:
  assumes "pipe_contract ops contents" "d \<noteq> []"
  obtains (fails) e p' where "k_pipe_write ops p d t = (Inl e, p')" "contents p' = contents p"
    | (some) n p' where "k_pipe_write ops p d t = (Inr n, p')" "0 < n" "n \<le> length d"
        "contents p' = contents p @ take n d"
proof -
  have "case k_pipe_write ops p d t of
           (Inl e, p') \<Rightarrow> contents p' = contents p
         | (Inr n, p') \<Rightarrow> 0 < n \<and> n \<le> length d \<and> contents p' = contents p @ take n d"
    using assms by (simp add: pipe_contract_def)
  then show ?thesis by (auto split: prod.splits sum.splits intro: that)
qed

text \<open>Enough bytes: exactly the first \<open>len\<close> of them are read.\<close>

lemma read_pending_enough:
  assumes "pipe_contract ops contents" "len \<le> length (contents (pending vc))"
  shows "\<exists>p. read_pending_bytes ops vc len buf =
      (Inr (buf @ take len (contents (pending vc))), vc\<lparr>pending := p, pending_len := pending_len vc - len\<rparr>) \<and>
    contents p = drop len (contents (pending vc))"
  using assms(2)
proof (induction len arbitrary: vc buf rule: less_induct)
  case (less len)
  show ?case
  proof (cases "len = 0")
    case True
    then show ?thesis by (intro exI [of _ "pending vc"]) (simp add: read_pending_bytes.simps)
  next
    case False
    with less.prems have "contents (pending vc) \<noteq> []" by auto
    with assms(1) False obtain d p where r: "k_pipe_read ops (pending vc) len = (Inr d, p)" "d \<noteq> []"
        "length d \<le> len" "contents (pending vc) = d @ contents p"
      by (auto elim: pipe_read_cases [where p = "pending vc" and n = len])
    let ?vc = "vc\<lparr>pending := p, pending_len := pending_len vc - length d\<rparr>"
    have "len - length d < len" "len - length d \<le> length (contents p)" using less.prems r(2,4) False by auto
    then obtain q where "read_pending_bytes ops ?vc (len - length d) (buf @ d) =
        (Inr ((buf @ d) @ take (len - length d) (contents p)),
         ?vc\<lparr>pending := q, pending_len := pending_len ?vc - (len - length d)\<rparr>)"
        "contents q = drop (len - length d) (contents p)"
      using less.IH [of "len - length d" ?vc "buf @ d"] by auto
    with r False show ?thesis by (subst read_pending_bytes.simps) auto
  qed
qed

text \<open>Too few: the pipe is drained and the read fails.\<close>

lemma read_pending_short:
  assumes "pipe_contract ops contents" "length (contents (pending vc)) < len"
  shows "\<exists>e p. read_pending_bytes ops vc len buf =
      (Inl e, vc\<lparr>pending := p, pending_len := pending_len vc - length (contents (pending vc))\<rparr>) \<and> contents p = []"
  using assms(2)
proof (induction len arbitrary: vc buf rule: less_induct)
  case (less len)
  then have pos: "0 < len" by simp
  show ?case
  proof (cases rule: pipe_read_cases [OF assms(1) pos, of "pending vc", case_names empty some])
    case (empty e p)
    with pos show ?thesis by (subst read_pending_bytes.simps) auto
  next
    case (some d p)
    let ?vc = "vc\<lparr>pending := p, pending_len := pending_len vc - length d\<rparr>"
    have "len - length d < len" "length (contents p) < len - length d" using less.prems some by auto
    then obtain e q where "read_pending_bytes ops ?vc (len - length d) (buf @ d) =
        (Inl e, ?vc\<lparr>pending := q, pending_len := pending_len ?vc - length (contents p)\<rparr>)" "contents q = []"
      using less.IH [of "len - length d" ?vc "buf @ d"] by auto
    with some pos show ?thesis by (subst read_pending_bytes.simps) auto
  qed
qed

text \<open>A write appends a prefix of the packet, all of it exactly when it succeeds.\<close>

lemma write_pending:
  assumes "pipe_contract ops contents"
  shows "\<exists>ret p n. write_pending_bytes ops vc left t = (ret, vc\<lparr>pending := p, pending_len := pending_len vc + n\<rparr>) \<and>
    n \<le> length left \<and> contents p = contents (pending vc) @ take n left \<and> (ret = RC_OK \<longleftrightarrow> n = length left)"
proof (induction left arbitrary: vc rule: length_induct)
  case (1 left)
  show ?case
  proof (cases "left = []")
    case True
    then show ?thesis by (intro exI [of _ RC_OK] exI [of _ "pending vc"] exI [of _ 0]) (simp add: write_pending_bytes.simps)
  next
    case False
    show ?thesis
    proof (cases rule: pipe_write_cases [OF assms(1) False, of "pending vc" t, case_names fails some])
      case (fails e p)
      with False show ?thesis
        by (intro exI [of _ "RC_ERR e"] exI [of _ p] exI [of _ 0]) (subst write_pending_bytes.simps, simp)
    next
      case (some n p)
      let ?vc = "vc\<lparr>pending := p, pending_len := pending_len vc + n\<rparr>"
      obtain ret q k where w: "write_pending_bytes ops ?vc (drop n left) t =
          (ret, ?vc\<lparr>pending := q, pending_len := pending_len ?vc + k\<rparr>)" "k \<le> length (drop n left)"
          "contents q = contents p @ take k (drop n left)" "ret = RC_OK \<longleftrightarrow> k = length (drop n left)"
        using 1 [rule_format, of "drop n left" ?vc] some False by auto
      have "write_pending_bytes ops vc left t = write_pending_bytes ops ?vc (drop n left) t"
        using some False by (subst write_pending_bytes.simps) simp
      with w some show ?thesis
        by (intro exI [of _ ret] exI [of _ q] exI [of _ "n + k"]) (auto simp: take_add add.assoc)
    qed
  qed
qed

section \<open>Routes\<close>

lemma single_bit_word:
  assumes "(b :: u32) \<noteq> 0" "b AND (b - 1) = 0"
  obtains n where "n < 32" "b = 2 ^ n"
proof -
  have pos: "0 < unat b" using assms(1) by (simp add: unat_gt_0)
  obtain n where n: "2 ^ n \<le> unat b" "unat b < 2 ^ Suc n" using ex_power_ivl1 [of 2 "unat b"] pos by auto
  have "unat b < 2 ^ LENGTH(32)" by (rule unsigned_less)
  then have "unat b < 2 ^ 32" by simp
  with n(1) have "(2 :: nat) ^ n < 2 ^ 32" by (rule le_less_trans)
  then have n32: "n < 32" by (simp only: power_strict_increasing_iff)
  have bitn: "bit w n" if "2 ^ n \<le> unat w" "unat w < 2 ^ Suc n" for w :: u32
  proof -
    have "unat w div 2 ^ n = 1" using that by (simp add: div_nat_eqI)
    then have "bit (unat w) n" by (simp add: bit_iff_odd)
    then show ?thesis by (simp add: bit_unsigned_iff)
  qed
  have "unat b = 2 ^ n"
  proof (rule ccontr)
    assume "unat b \<noteq> 2 ^ n"
    then have "2 ^ n \<le> unat (b - 1)" "unat (b - 1) < 2 ^ Suc n" using n pos by (auto simp: unat_sub unat_eq_0 word_le_nat_alt)
    with n have "bit (b AND (b - 1)) n" by (simp add: bit_and_iff bitn)
    with assms(2) show False by simp
  qed
  then have "word_of_nat (unat b) = (2 ^ n :: u32)" by (simp only: of_nat_power of_nat_numeral)
  then have "b = 2 ^ n" by simp
  with n32 show ?thesis by (rule that)
qed


lemma route_bit_loop_power: "n < 32 \<Longrightarrow> k \<le> n \<Longrightarrow> route_bit_loop (2 ^ n) k = Some n"
proof (induction "n - k" arbitrary: k)
  case 0
  then have "k = n" by simp
  moreover have "drop_bit n (2 ^ n :: u32) = 1"
    using 0 by (intro bit_word_eqI) (auto simp: bit_simps)
  ultimately show ?case by (subst route_bit_loop.simps) simp
next
  case (Suc d)
  then have k: "k < n" by simp
  have "bit (drop_bit k (2 ^ n :: u32)) (n - k)" using Suc.prems k by (simp add: bit_simps)
  moreover have "\<not> bit (1 :: u32) (n - k)" using k by (simp add: bit_1_iff)
  ultimately have "drop_bit k (2 ^ n :: u32) \<noteq> 1" by metis
  then have "route_bit_loop (2 ^ n) k = route_bit_loop (2 ^ n) (k + 1)" by (subst route_bit_loop.simps) simp
  with Suc.hyps(1) [of "k + 1"] Suc.hyps(2) Suc.prems k show ?case by simp
qed

lemma supported_route_bits:
  assumes "n < 32" "(2 ^ n :: u32) AND CCSDS_TM_SUPPORTED_ROUTE_MASK \<noteq> 0"
  shows "n \<in> {0, 1, 2, 3, 4, 16, 17, 18}"
proof -
  have "bit CCSDS_TM_SUPPORTED_ROUTE_MASK n"
  proof (rule ccontr)
    assume "\<not> bit CCSDS_TM_SUPPORTED_ROUTE_MASK n"
    then have "(2 ^ n :: u32) AND CCSDS_TM_SUPPORTED_ROUTE_MASK = 0"
      by (intro bit_word_eqI) (auto simp: bit_simps)
    with assms(2) show False by simp
  qed
  moreover have "\<forall>k<32. bit CCSDS_TM_SUPPORTED_ROUTE_MASK k \<longrightarrow> k \<in> {0, 1, 2, 3, 4, 16, 17, 18}"
    by (simp add: CCSDS_TM_SUPPORTED_ROUTE_MASK_def All_less_Suc numeral_eq_Suc)
  ultimately show ?thesis using assms(1) by blast
qed

lemma route_loop_fold:
  assumes "length rs \<le> 32"
  shows "route_loop pf rs vcid frame m k env =
    fold (\<lambda>i env. case tm_route_fn (rs ! i) of None \<Rightarrow> env
      | Some f \<Rightarrow> snd (t_route pf f vcid frame (tm_route_user_data (rs ! i)) env))
      (filter (bit m) [k..<length rs]) env"
proof (induction "length rs - k" arbitrary: m k env)
  case 0
  then show ?case by (subst route_loop.simps) simp
next
  case (Suc d)
  then have k: "k < length rs" by simp
  then have upt: "[k..<length rs] = k # [Suc k..<length rs]" by (simp add: upt_conv_Cons)
  have hit: "m AND push_bit k 1 = 0 \<longleftrightarrow> \<not> bit m k"
  proof
    assume "m AND push_bit k 1 = 0"
    then have "\<not> bit (m AND push_bit k 1) k" by simp
    then show "\<not> bit m k" using k assms by (simp add: bit_simps)
  next
    assume "\<not> bit m k"
    then show "m AND push_bit k 1 = 0" by (intro bit_word_eqI) (auto simp: bit_simps)
  qed
  have clear: "filter (bit (m AND NOT (push_bit k 1))) [Suc k..<length rs] = filter (bit m) [Suc k..<length rs]"
    using assms by (intro filter_cong) (auto simp: bit_simps)
  show ?case
  proof (cases "m = 0")
    case True
    then show ?thesis by (subst route_loop.simps) simp
  next
    case False
    then show ?thesis
      using Suc.hyps(1) [of "Suc k"] Suc.hyps(2) k hit clear
      by (subst route_loop.simps) (simp add: Let_def upt)
  qed
qed

section \<open>An instance of the pipe\<close>

definition list_pipe :: "(nat \<times> bytes) k_pipe_ops" where
  "list_pipe = \<lparr>
     k_pipe_init = (\<lambda>n. (n, [])),
     k_pipe_read = (\<lambda>(cap, c) n. if c = [] then (Inl EAGAIN, (cap, c)) else (Inr (take n c), (cap, drop n c))),
     k_pipe_write = (\<lambda>(cap, c) d t.
       let k = min (length d) (cap - length c)
       in if k = 0 then (Inl EAGAIN, (cap, c)) else (Inr k, (cap, c @ take k d)))\<rparr>"

lemma list_pipe_contract: "pipe_contract list_pipe snd"
  by (auto simp: pipe_contract_def list_pipe_def Let_def)

definition demo_tm_platform :: "(nat \<times> bytes, unit, unit, (nat \<times> bytes) list) tm_platform" where
  "demo_tm_platform = \<lparr>t_cfg = default_config\<lparr>CCSDS_RS := False, CCSDS_MAX_FRAME_LEN := 32, CCSDS_TM_QUEUE_DEPTH := 10,
       CCSDS_TM_MAX_SPACE_PACKET_LEN := 10\<rparr>,
     t_sdls_cfg = default_sdls_config, t_pipe = list_pipe, t_encrypt = (\<lambda>_ _ _ _. Inl PSA_ERROR_INVALID_SIGNATURE),
     t_route = (\<lambda>_ v frame _ env. (RC_OK, env @ [(v, frame)])), t_clcw = (\<lambda>_ _ env. (Inr 0, env))\<rparr>"

definition demo_tm_module :: "(nat \<times> bytes, unit, unit, unit) tm_module" where
  "demo_tm_module = ccsds_tm_frame_init demo_tm_platform \<lparr>
     vcs = replicate 8 \<lparr>pending = (0, []), pending_len = 0, packet_rem = 0, packet_is_idle = False, vcfc = 0,
       vc_route_mask = 0, vc_sdls_spi = 0\<rparr>,
     routes = [], clcw_provider = \<lparr>clcw_fn = None, clcw_user_data = None\<rparr>, mcfc = 0,
     generator_active_delay = K_NO_WAIT, generator_idle_delay = K_NO_WAIT, generator_last_vcid = 7,
     generator_running = False, generator_last_cycle_active = False, sdls_ctx = None\<rparr>"

definition demo_packet :: bytes where "demo_packet = [0x08, 1, 0xc0, 0, 0, 0, 7]"

definition demo_added :: "(nat \<times> bytes, unit, unit, unit) tm_module" where
  "demo_added = snd (ccsds_tm_frame_add demo_tm_platform demo_tm_module 0 demo_packet K_NO_WAIT RC_OK)"

lemma demo_add: "ccsds_tm_frame_add demo_tm_platform demo_tm_module 0 demo_packet K_NO_WAIT RC_OK = (RC_OK, demo_added)"
  unfolding demo_added_def
  by (subst prod_eq_iff) (simp, code_simp)

section \<open>Properties\<close>

text \<open>
  C40. Registering a route always returns: an invalid bit is refused and changes nothing, and
  for a valid one the search for its index ends, at one of the eight supported bits, and
  exactly that entry of the table is replaced.
\<close>

theorem register_route_returns:
  "(\<not> route_bit_is_valid b \<longrightarrow> ccsds_tm_frame_register_route tm b f u = Some (RC_ERR EINVAL, tm)) \<and>
   (route_bit_is_valid b \<longrightarrow>
     (\<exists>n\<in>{0, 1, 2, 3, 4, 16, 17, 18}. b = 2 ^ n \<and>
        ccsds_tm_frame_register_route tm b f u =
          Some (RC_OK, tm\<lparr>routes := (routes tm)[n := \<lparr>tm_route_fn = Some f, tm_route_user_data = u\<rparr>]\<rparr>)))"
proof (intro conjI impI)
  assume v: "route_bit_is_valid b"
  then obtain n where n: "n < 32" "b = 2 ^ n"
    by (auto simp: route_bit_is_valid_def elim: single_bit_word)
  with v have "n \<in> {0, 1, 2, 3, 4, 16, 17, 18}" by (intro supported_route_bits) (auto simp: route_bit_is_valid_def)
  moreover have "route_bit_index b = Some n" using n by (simp add: route_bit_index_def route_bit_loop_power)
  ultimately show "\<exists>n\<in>{0, 1, 2, 3, 4, 16, 17, 18}. b = 2 ^ n \<and> ccsds_tm_frame_register_route tm b f u =
      Some (RC_OK, tm\<lparr>routes := (routes tm)[n := \<lparr>tm_route_fn = Some f, tm_route_user_data = u\<rparr>]\<rparr>)"
    using v n(2) by (intro bexI [of _ n]) (simp_all add: ccsds_tm_frame_register_route_def)
qed (simp add: ccsds_tm_frame_register_route_def)

theorem register_route_returns_witness:
  "ccsds_tm_frame_register_route demo_tm_module 8 () None =
     Some (RC_OK, demo_tm_module\<lparr>routes := (routes demo_tm_module)[3 := \<lparr>tm_route_fn = Some (), tm_route_user_data = None\<rparr>]\<rparr>)"
proof -
  have "route_bit_is_valid 8" by code_simp
  then obtain n where n: "(8 :: u32) = 2 ^ n" "n \<in> {0, 1, 2, 3, 4, 16, 17, 18}"
      "ccsds_tm_frame_register_route demo_tm_module 8 () None =
        Some (RC_OK, demo_tm_module\<lparr>routes := (routes demo_tm_module)[n := \<lparr>tm_route_fn = Some (), tm_route_user_data = None\<rparr>]\<rparr>)"
    using register_route_returns [of 8 demo_tm_module "()" None] by blast
  then have "n = 3" by auto
  with n(3) show ?thesis by simp
qed

end
