(* ===== verification/Tm_Stream.thy ===== *)
theory Tm_Stream
  imports Tm_Frame "HOL-Library.Sublist"
begin

unbundle bit_operations_syntax

text \<open>
  What the telemetry generator promises to the ground: a reference receiver, which finds packet
  boundaries by the first header pointer and the packets' length fields, and the proof that it
  recovers every admitted packet, in order, from the generated frames, however adds and
  generator cycles are interleaved.  The link is an inductive relation, its invariant says
  where the receiver and the queue have cut the current packet.  The last sections show the
  reverse: an \<open>add\<close> that its timeout cuts short stops the generator.
\<close>

section \<open>Reference receiver\<close>

function rx_parse :: "bytes \<Rightarrow> bytes \<Rightarrow> bytes list \<times> bytes" where
  "rx_parse part d =
     (if d = [] then ([], part)
      else if part = [] then if length d < 6 then ([], []) else rx_parse (take 6 d) (drop 6 d)
      else let need = packet_total_len part - length part in
        if length d < need then ([], part @ d)
        else case rx_parse [] (drop need d) of (ps, r) \<Rightarrow> ((part @ take need d) # ps, r))"
  by pat_completeness auto
termination
  by (relation "measure (\<lambda>(part, d). 2 * length d + (if part = [] then 0 else 1))") auto

declare rx_parse.simps [simp del]

definition rx_frame :: "bytes \<Rightarrow> u16 \<Rightarrow> bytes \<Rightarrow> bytes list \<times> bytes" where
  "rx_frame part fhp d =
     (if fhp = CCSDS_TM_IDLE_FIRST_HEADER_POINTER then ([], part)
      else if fhp = CCSDS_TM_NO_FIRST_HEADER_POINTER then if part = [] then ([], []) else rx_parse part d
      else if part \<noteq> [] \<and> packet_total_len part - length part = unat fhp then rx_parse part d
      else rx_parse [] (drop (unat fhp) d))"

definition is_idle_packet :: "bytes \<Rightarrow> bool" where
  "is_idle_packet d \<longleftrightarrow> be16_at d 0 AND 0x7ff = 0x7ff"

section \<open>One frame\<close>

definition framed :: "bytes \<Rightarrow> bool" where
  "framed d \<longleftrightarrow> 7 \<le> length d \<and> packet_total_len d = length d"

definition queue_holds :: "('p \<Rightarrow> bytes) \<Rightarrow> 'p ccsds_tm_vc \<Rightarrow> bytes \<Rightarrow> bytes list \<Rightarrow> bool" where
  "queue_holds contents vc tail qs \<longleftrightarrow>
     contents (pending vc) = tail @ concat qs \<and> pending_len vc = length (contents (pending vc)) \<and>
     packet_rem vc = length tail \<and> (\<forall>q\<in>set qs. framed q)"

definition cut :: "bytes \<Rightarrow> bytes \<Rightarrow> bool" where
  "cut part tail \<longleftrightarrow> (tail = [] \<longleftrightarrow> part = []) \<and>
     (tail \<noteq> [] \<longrightarrow> 6 \<le> length part \<and> packet_total_len part = length part + length tail)"

definition current :: "bytes \<Rightarrow> bytes \<Rightarrow> bytes list" where
  "current part tail = (if tail = [] then [] else [part @ tail])"

lemma packet_total_len_take: "6 \<le> n \<Longrightarrow> 6 \<le> length d \<Longrightarrow> packet_total_len (take n d) = packet_total_len d"
  by (simp add: packet_total_len_def be16_at_def)

lemma packet_total_len_append: "6 \<le> length d \<Longrightarrow> packet_total_len (d @ x) = packet_total_len d"
  by (simp add: packet_total_len_def be16_at_def nth_append)

lemma rx_parse_piece:
  assumes "cut part tail" "tail = d @ tail'" "tail' \<noteq> []" 
  shows "rx_parse part d = ([], part @ d)" "cut (part @ d) tail'"
  using assms by (auto simp: rx_parse.simps cut_def packet_total_len_append)

lemma rx_parse_rest:
  assumes "cut part tail" "tail \<noteq> []"
  shows "rx_parse part (tail @ x) = (case rx_parse [] x of (ps, r) \<Rightarrow> ((part @ tail) # ps, r))"
  using assms by (subst rx_parse.simps) (auto simp: cut_def)

lemma rx_parse_header: "length h = 6 \<Longrightarrow> rx_parse [] (h @ x) = rx_parse h x"
  by (subst rx_parse.simps) auto

lemma cut_header: "framed q \<Longrightarrow> cut (take 6 q) (drop 6 q)"
  by (auto simp: cut_def framed_def packet_total_len_take)

text \<open>
  The filling loop: it lays down \<open>d\<close>, a prefix of the queue, until the field is full or the queue has
  nothing that can start in it; a receiver that reads \<open>d\<close> gets exactly the packets that end in it.
\<close>

definition laid ::
  "('p \<Rightarrow> bytes) \<Rightarrow> nat \<Rightarrow> bytes \<Rightarrow> bytes \<Rightarrow> bytes list \<Rightarrow> bytes \<Rightarrow> u16 \<Rightarrow>
     bytes \<Rightarrow> u16 \<Rightarrow> 'p ccsds_tm_vc \<Rightarrow> bytes \<Rightarrow> bytes \<Rightarrow> bytes list \<Rightarrow> bytes list \<Rightarrow> bool" where
  "laid contents data_len part tail qs data fhp d fhp' vc' part' tail' qs' outs \<longleftrightarrow>
     queue_holds contents vc' tail' qs' \<and> cut part' tail' \<and>
     outs @ current part' tail' @ qs' = current part tail @ qs \<and>
     tail @ concat qs = d @ tail' @ concat qs' \<and>
     length (data @ d) \<le> data_len \<and>
     (length (data @ d) < data_len \<longrightarrow> tail' = [] \<and> (data_len - length (data @ d) < 6 \<or> qs' = [])) \<and>
     (length d \<le> length tail \<longrightarrow> length tail = length d + length tail') \<and>
     fhp' = (if fhp \<noteq> CCSDS_TM_NO_FIRST_HEADER_POINTER then fhp
             else if length d \<le> length tail then CCSDS_TM_NO_FIRST_HEADER_POINTER
             else word_of_nat (length data + length tail)) \<and>
     (\<forall>x. x = [] \<or> tail' = [] \<longrightarrow>
        rx_parse part (d @ x) = (case rx_parse part' x of (o', r) \<Rightarrow> (outs @ o', r)))"

definition lays_down ::
  "('p \<Rightarrow> bytes) \<Rightarrow> nat \<Rightarrow> bytes \<Rightarrow> bytes \<Rightarrow> bytes list \<Rightarrow> bytes \<Rightarrow> u16 \<Rightarrow>
     (errno + bytes \<times> u16) \<times> 'p ccsds_tm_vc \<Rightarrow> bool" where
  "lays_down contents data_len part tail qs data fhp res \<longleftrightarrow>
     (\<exists>d fhp' vc' part' tail' qs' outs. res = (Inr (data @ d, fhp'), vc') \<and>
        laid contents data_len part tail qs data fhp d fhp' vc' part' tail' qs' outs)"

lemma rx_parse_Nil [simp]: "rx_parse part [] = ([], part)"
  by (simp add: rx_parse.simps)

lemma lays_down_stop:
  assumes "queue_holds contents vc tail qs" "cut part tail" "length data \<le> data_len"
    and "length data < data_len \<longrightarrow> tail = [] \<and> (data_len - length data < 6 \<or> qs = [])"
  shows "lays_down contents data_len part tail qs data fhp (Inr (data, fhp), vc)"
proof -
  have "laid contents data_len part tail qs data fhp [] fhp vc part tail qs []"
    using assms by (auto simp: laid_def)
  then show ?thesis unfolding lays_down_def by fastforce
qed

lemma laid_rx:
  "laid contents data_len part tail qs data fhp d fhp' vc' part' tail' qs' outs \<Longrightarrow> x = [] \<or> tail' = [] \<Longrightarrow>
     rx_parse part (d @ x) = (outs @ fst (rx_parse part' x), snd (rx_parse part' x))"
  by (simp only: laid_def case_prod_beta)

lemma laid_rest:
  assumes "laid contents data_len [] [] qs (data @ tail) fhp d fhp' vc' part' tail' qs' outs"
    and "cut part tail" "tail \<noteq> []"
  shows "laid contents data_len part tail qs data fhp (tail @ d) fhp' vc' part' tail' qs' ((part @ tail) # outs)"
proof -
  have "rx_parse part ((tail @ d) @ x) = (case rx_parse part' x of (o', r) \<Rightarrow> (((part @ tail) # outs) @ o', r))"
    if "x = [] \<or> tail' = []" for x
    using rx_parse_rest [OF assms(2,3), of "d @ x"] laid_rx [OF assms(1) that] by (simp add: case_prod_beta)
  with assms show ?thesis by (simp add: laid_def current_def)
qed

lemma laid_header:
  assumes "laid contents data_len (take 6 q) (drop 6 q) qs (data @ take 6 q)
      (if fhp = CCSDS_TM_NO_FIRST_HEADER_POINTER then word_of_nat (length data) else fhp)
      d fhp' vc' part' tail' qs' outs"
    and "framed q" "word_of_nat (length data) \<noteq> CCSDS_TM_NO_FIRST_HEADER_POINTER"
  shows "laid contents data_len [] [] (q # qs) data fhp (take 6 q @ d) fhp' vc' part' tail' qs' outs"
proof -
  have q: "drop 6 q \<noteq> []" "length (take 6 q) = 6" using assms(2) by (auto simp: framed_def)
  have "rx_parse [] ((take 6 q @ d) @ x) = (case rx_parse part' x of (o', r) \<Rightarrow> (outs @ o', r))"
    if "x = [] \<or> tail' = []" for x
    using rx_parse_header [OF q(2), of "d @ x"] laid_rx [OF assms(1) that] by (simp add: case_prod_beta)
  moreover have "drop 6 q @ concat qs = d @ tail' @ concat qs'" using assms(1) by (simp add: laid_def)
  then have "q @ concat qs = take 6 q @ d @ tail' @ concat qs'" by (metis append.assoc append_take_drop_id)
  ultimately show ?thesis using assms q by (simp add: laid_def current_def)
qed

lemma lays_down_part:
  assumes "queue_holds contents vc (drop k tail) qs" "cut part tail" "length data + k = data_len" "k < length tail" "0 < k"
  shows "lays_down contents data_len part tail qs data fhp (Inr (data @ take k tail, fhp), vc)"
proof -
  have t: "tail = take k tail @ drop k tail" "drop k tail \<noteq> []" using assms(4) by auto
  have "laid contents data_len part tail qs data fhp (take k tail) fhp vc (part @ take k tail) (drop k tail) qs []"
    using rx_parse_piece [OF assms(2) t] assms by (auto simp: laid_def current_def)
  then show ?thesis unfolding lays_down_def by fastforce
qed

lemma lays_down_rest:
  assumes "lays_down contents data_len [] [] qs (data @ tail) fhp res" "cut part tail" "tail \<noteq> []"
  shows "lays_down contents data_len part tail qs data fhp res"
  using assms(1) laid_rest [OF _ assms(2,3)] unfolding lays_down_def by (metis append.assoc)

lemma lays_down_header:
  assumes "lays_down contents data_len (take 6 q) (drop 6 q) qs (data @ take 6 q)
      (if fhp = CCSDS_TM_NO_FIRST_HEADER_POINTER then word_of_nat (length data) else fhp) res" "framed q"
    and "word_of_nat (length data) \<noteq> CCSDS_TM_NO_FIRST_HEADER_POINTER"
  shows "lays_down contents data_len [] [] (q # qs) data fhp res"
  using assms(1) laid_header [OF _ assms(2,3)] unfolding lays_down_def by (metis append.assoc)

lemma build_packet_loop_lays_down:
  assumes "pipe_contract ops contents" "data_len \<le> 2046"
    and "queue_holds contents vc tail qs" "cut part tail" "length data \<le> data_len"
  shows "lays_down contents data_len part tail qs data fhp (build_packet_loop ops data_len vc data fhp)"
  using assms(3-)
proof (induction "data_len - length data" arbitrary: vc tail qs part data fhp rule: less_induct)
  case less
  let ?loop = "build_packet_loop ops data_len vc data fhp"
  have c: "contents (pending vc) = tail @ concat qs" "pending_len vc = length (tail @ concat qs)"
      "packet_rem vc = length tail" "\<forall>q\<in>set qs. framed q"
    using less.prems(1) by (simp_all add: queue_holds_def)
  consider (full) "length data = data_len" | (tail) "length data < data_len" "tail \<noteq> []"
    | (drained) "length data < data_len" "tail = []" "qs = [] \<or> data_len - length data < 6"
    | (header) q qs' where "length data < data_len" "tail = []" "qs = q # qs'" "6 \<le> data_len - length data"
    using less.prems(3) by (metis le_neq_implies_less list.exhaust not_less)
  then show ?case
  proof cases
    case full
    then have "?loop = (Inr (data, fhp), vc)" by (subst build_packet_loop.simps) simp
    with lays_down_stop [OF less.prems] full show ?thesis by simp
  next
    case drained
    then have "?loop = (Inr (data, fhp), vc)" using c by (subst build_packet_loop.simps) auto
    with lays_down_stop [OF less.prems] drained show ?thesis by auto
  next
    case tail
    let ?k = "min (length tail) (data_len - length data)"
    have "?k \<le> length (tail @ concat qs)" by (simp add: min.coboundedI1)
    then obtain p where r: "read_pending_bytes ops vc ?k [] =
        (Inr (take ?k tail), vc\<lparr>pending := p, pending_len := pending_len vc - ?k\<rparr>)"
        "contents p = drop ?k (tail @ concat qs)"
      using read_pending_enough [OF assms(1), of ?k vc "[]"] by (auto simp: c(1) simp del: min.bounded_iff)
    let ?vc = "vc\<lparr>pending := p, pending_len := pending_len vc - ?k, packet_rem := length tail - ?k\<rparr>"
    have loop: "?loop = build_packet_loop ops data_len ?vc (data @ take ?k tail) fhp"
      using tail c(3) r(1) by (subst build_packet_loop.simps) (simp add: Let_def min.commute)
    have q: "queue_holds contents ?vc (drop ?k tail) qs"
      using r(2) c by (auto simp: queue_holds_def)
    show ?thesis
    proof (cases "length tail \<le> data_len - length data")
      case True
      then have k: "?k = length tail" by simp
      have "lays_down contents data_len [] [] qs (data @ tail) fhp (build_packet_loop ops data_len ?vc (data @ tail) fhp)"
        using tail less.prems(3) True q by (intro less.hyps) (auto simp: k cut_def intro!: diff_less_mono2)
      with lays_down_rest [OF _ less.prems(2) tail(2)] loop show ?thesis by (simp add: k)
    next
      case False
      then have k: "?k = data_len - length data" by simp
      have "build_packet_loop ops data_len ?vc (data @ take ?k tail) fhp = (Inr (data @ take ?k tail, fhp), ?vc)"
        using False tail by (subst build_packet_loop.simps) simp
      with lays_down_part [OF q less.prems(2)] loop False tail show ?thesis by (simp add: k)
    qed
  next
    case (header q qs')
    have q: "framed q" "7 \<le> length q" using c(4) header by (auto simp: framed_def)
    obtain p where r: "read_pending_bytes ops vc 6 [] =
        (Inr (take 6 q), vc\<lparr>pending := p, pending_len := pending_len vc - 6\<rparr>)"
        "contents p = drop 6 (q @ concat qs')"
      using read_pending_enough [OF assms(1), of 6 vc "[]"] c(1) header q by auto
    let ?vc = "vc\<lparr>pending := p, pending_len := pending_len vc - 6, packet_rem := packet_total_len (take 6 q) - 6\<rparr>"
    let ?fhp = "if fhp = CCSDS_TM_NO_FIRST_HEADER_POINTER then word_of_nat (length data) else fhp"
    have loop: "?loop = build_packet_loop ops data_len ?vc (data @ take 6 q) ?fhp"
      using header c q r(1) by (subst build_packet_loop.simps) (auto simp: Let_def)
    have "packet_total_len (take 6 q) = length q"
      using q by (simp add: framed_def packet_total_len_take)
    then have "queue_holds contents ?vc (drop 6 q) qs'"
      using r(2) c header q by (auto simp: queue_holds_def)
    then have "lays_down contents data_len (take 6 q) (drop 6 q) qs' (data @ take 6 q) ?fhp
        (build_packet_loop ops data_len ?vc (data @ take 6 q) ?fhp)"
      using header q cut_header [OF q(1)] by (intro less.hyps) auto
    moreover have "word_of_nat (length data) \<noteq> CCSDS_TM_NO_FIRST_HEADER_POINTER"
    proof
      assume "word_of_nat (length data) = CCSDS_TM_NO_FIRST_HEADER_POINTER"
      then have "unat (word_of_nat (length data) :: u16) = 2047" by (simp add: CCSDS_TM_NO_FIRST_HEADER_POINTER_def)
      with header(1) assms(2) show False by (simp add: unat_of_nat)
    qed
    ultimately have "lays_down contents data_len [] [] (q # qs') data fhp
        (build_packet_loop ops data_len ?vc (data @ take 6 q) ?fhp)"
      by (rule lays_down_header [OF _ q(1)])
    moreover have "part = []" using less.prems(2) header(2) by (simp add: cut_def)
    ultimately show ?thesis by (simp only: loop header(2,3))
  qed
qed

lemma length_fill_idle [simp]: "length (fill_idle_space_packet n) = n"
  by (simp add: fill_idle_space_packet_def) arith

lemma laidD:
  assumes "laid contents data_len part tail qs [] CCSDS_TM_NO_FIRST_HEADER_POINTER d fhp' vc' part' tail' qs' outs"
  shows "cut part' tail'" "queue_holds contents vc' tail' qs'" "length d \<le> data_len"
    "length d < data_len \<Longrightarrow> tail' = []" "length d \<le> length tail \<Longrightarrow> length tail = length d + length tail'"
    "fhp' = (if length d \<le> length tail then CCSDS_TM_NO_FIRST_HEADER_POINTER else word_of_nat (length tail))"
    "outs @ current part' tail' @ qs' = current part tail @ qs" "tail @ concat qs = d @ tail' @ concat qs'"
  using assms by (simp_all add: laid_def)

lemma fill_idle_framed:
  assumes "7 \<le> n" "n \<le> 2046"
  shows "framed (fill_idle_space_packet n)" "is_idle_packet (fill_idle_space_packet n)"
proof -
  have "unat (word_of_nat (n - 7) :: u16) = n - 7" using assms by (simp add: unat_of_nat del: of_nat_diff)
  moreover have "be16_at (fill_idle_space_packet n) 4 = word_of_nat (n - 7)"
    using assms by (simp add: fill_idle_space_packet_def be16_at_def put_be16_def)
  ultimately show "framed (fill_idle_space_packet n)"
    using assms by (simp add: framed_def packet_total_len_def)
  show "is_idle_packet (fill_idle_space_packet n)"
    using assms by (simp add: is_idle_packet_def fill_idle_space_packet_def be16_at_def put_be16_def
        get_be16_def CCSDS_APID_MAX_def)
qed

lemma rx_parse_whole: "framed q \<Longrightarrow> rx_parse [] q = ([q], [])"
  using rx_parse_header [of "take 6 q" "drop 6 q"] rx_parse_rest [OF cut_header, of q "[]"]
  by (simp add: framed_def)

definition idle_rest :: bytes where "idle_rest = replicate 6 0"

lemma rx_parse_fill:
  assumes "0 < n" "n \<le> 2046"
  shows "filter (\<lambda>q. \<not> is_idle_packet q) (fst (rx_parse [] (fill_idle_space_packet n))) = [] \<and>
    snd (rx_parse [] (fill_idle_space_packet n)) \<in> {[], idle_rest}"
proof (cases "7 \<le> n")
  case True
  with assms show ?thesis by (simp add: rx_parse_whole fill_idle_framed)
next
  case False
  show ?thesis
  proof (cases "n = 6")
    case True
    then show ?thesis using rx_parse_header [of "replicate 6 0" "[]"]
      by (simp add: fill_idle_space_packet_def idle_rest_def)
  next
    case False
    with \<open>\<not> 7 \<le> n\<close> assms show ?thesis by (simp add: fill_idle_space_packet_def rx_parse.simps)
  qed
qed

text \<open>The receiver is in step: it holds the first part of the packet the queue holds the rest of.\<close>

definition in_step :: "bytes \<Rightarrow> bytes \<Rightarrow> bool" where
  "in_step part tail \<longleftrightarrow> cut part tail \<or> tail = [] \<and> part = idle_rest"

definition real_part :: "bytes \<Rightarrow> bytes \<Rightarrow> bytes" where
  "real_part part tail = (if tail = [] then [] else part)"

lemma in_step_cut: "in_step part tail \<Longrightarrow> cut (real_part part tail) tail"
  by (auto simp: in_step_def real_part_def cut_def)

lemma pointer_value:
  assumes "n < 2046"
  shows "unat (word_of_nat n :: u16) = n" "word_of_nat n \<noteq> CCSDS_TM_NO_FIRST_HEADER_POINTER"
    "word_of_nat n \<noteq> CCSDS_TM_IDLE_FIRST_HEADER_POINTER" "(word_of_nat n :: u16) AND 0x7ff = word_of_nat n"
proof -
  show n: "unat (word_of_nat n :: u16) = n" using assms by (simp add: unat_of_nat)
  show "word_of_nat n \<noteq> CCSDS_TM_NO_FIRST_HEADER_POINTER"
    using n assms by (auto simp: CCSDS_TM_NO_FIRST_HEADER_POINTER_def)
  show "word_of_nat n \<noteq> CCSDS_TM_IDLE_FIRST_HEADER_POINTER"
    using n assms by (auto simp: CCSDS_TM_IDLE_FIRST_HEADER_POINTER_def)
  have "take_bit 11 (word_of_nat n :: u16) = word_of_nat n"
    using assms by (simp add: take_bit_of_nat take_bit_nat_eq_self)
  then show "(word_of_nat n :: u16) AND 0x7ff = word_of_nat n"
    by (simp add: take_bit_eq_mask mask_eq_exp_minus_1)
qed

text \<open>Whatever pointer the frame has, the receiver parses the field from where the sender cut it.\<close>

lemma rx_frame_parses:
  assumes "laid contents data_len (real_part part tail) tail qs [] CCSDS_TM_NO_FIRST_HEADER_POINTER
      d fhp' vc' part' tail' qs' outs"
    and "in_step part tail" "7 \<le> data_len" "data_len \<le> 2046"
  shows "rx_frame part (field_pointer data_len d fhp') (field_data data_len d) =
    rx_parse (real_part part tail) (field_data data_len d)"
proof -
  note l = laidD [OF assms(1)]
  show ?thesis
  proof (cases "length d \<le> length tail \<and> \<not> (length d < data_len \<and> data_len - length d \<ge> 7)")
    case True
    then have "field_pointer data_len d fhp' = CCSDS_TM_NO_FIRST_HEADER_POINTER" "tail \<noteq> []"
      using l assms(3) by (auto simp: field_pointer_def)
    with assms(2) show ?thesis
      by (auto simp: rx_frame_def real_part_def in_step_def cut_def CCSDS_TM_NO_FIRST_HEADER_POINTER_def
          CCSDS_TM_IDLE_FIRST_HEADER_POINTER_def)
  next
    case False
    then have lt: "length tail < data_len"
      using l(3,4,5) by (cases "length d \<le> length tail") auto
    then have n: "length tail < 2046" using assms(4) by simp
    have "field_pointer data_len d fhp' = word_of_nat (length tail)"
      using False l pointer_value(2) [OF n] by (auto simp: field_pointer_def)
    with pointer_value [OF n] assms(2) show ?thesis
      by (auto simp: rx_frame_def real_part_def in_step_def cut_def idle_rest_def packet_total_len_def
          be16_at_def get_be16_def)
  qed
qed

lemma frame_received:
  assumes "laid contents data_len (real_part part tail) tail qs [] CCSDS_TM_NO_FIRST_HEADER_POINTER
      d fhp' vc' part' tail' qs' outs"
    and "in_step part tail" "7 \<le> data_len" "data_len \<le> 2046"
  shows "\<exists>out part2. rx_frame part (field_pointer data_len d fhp') (field_data data_len d) = (out, part2) \<and>
    filter (\<lambda>q. \<not> is_idle_packet q) out = filter (\<lambda>q. \<not> is_idle_packet q) outs \<and>
    in_step part2 tail' \<and> real_part part2 tail' = real_part part' tail'"
proof -
  note l = laidD [OF assms(1)]
  show ?thesis
  proof (cases "length d < data_len")
    case True
    let ?f = "fill_idle_space_packet (data_len - length d)"
    have p: "tail' = []" "part' = []" using l True by (auto simp: cut_def)
    have "rx_parse (real_part part tail) (d @ ?f) = (outs @ fst (rx_parse [] ?f), snd (rx_parse [] ?f))"
      using laid_rx [OF assms(1), of ?f] p by simp
    moreover have "in_step (snd (rx_parse [] ?f)) []"
      using rx_parse_fill [of "data_len - length d"] True assms(4) by (auto simp: in_step_def cut_def)
    ultimately show ?thesis
      using rx_frame_parses [OF assms] rx_parse_fill [of "data_len - length d"] True assms(4) p
      by (simp add: field_data_def real_part_def)
  next
    case False
    with laid_rx [OF assms(1), of "[]"] rx_frame_parses [OF assms] l show ?thesis
      by (simp add: field_data_def in_step_def)
  qed
qed

section \<open>The bytes of a frame\<close>

lemma copy_into_at: "length a = off \<Longrightarrow> length b = length d \<Longrightarrow> copy_into (a @ b @ c) off d = a @ d @ c"
  by (simp add: copy_into_def)

lemma length_primary_header [simp]: "length (build_primary_header cfg mc vc vcid fhp) = 6"
  by (simp add: build_primary_header_def Let_def)

lemma append_ocf_bytes:
  assumes "length a = off" "length b = 4"
  shows "\<exists>ocf env'. append_ocf pf tm (a @ b @ c) off env = (a @ ocf @ c, env') \<and> length ocf = 4"
proof -
  have "copy_into (a @ b @ c) off d = a @ d @ c" if "length d = 4" for d
    using assms that by (intro copy_into_at) simp_all
  then show ?thesis
    using assms by (auto simp: append_ocf_def Let_def ccsds_sdls_fsr_encode_def split: option.split prod.split sum.split)
qed

lemma append_fecf_bytes:
  assumes "length z = CCSDS_TM_FRAME_LEN cfg - CCSDS_TM_FECF_LEN cfg" "length t = CCSDS_TM_FECF_LEN cfg"
  shows "\<exists>t'. append_fecf cfg (z @ t) = z @ t' \<and> length t' = CCSDS_TM_FECF_LEN cfg \<and>
    (CCSDS_TM_FECF cfg \<longrightarrow> ccsds_crc16_check (z @ t'))"
proof (cases "CCSDS_TM_FECF cfg")
  case True
  then show ?thesis
    using assms copy_into_at [of z "length z" t "put_be16 (ccsds_crc16_compute z)" "[]"]
    by (simp add: append_fecf_def Let_def crc16_append_check CCSDS_TM_FECF_LEN_def)
next
  case False
  with assms show ?thesis by (simp add: append_fecf_def)
qed

text \<open>A frame as a receiver takes it apart.\<close>

definition cadu_frame :: "ccsds_config \<Rightarrow> bytes \<Rightarrow> bytes" where
  "cadu_frame cfg cadu = take (CCSDS_TM_FRAME_LEN cfg)
     (if CCSDS_TM_RND cfg then ccsds_rnd_apply (drop 4 cadu) else drop 4 cadu)"

definition frame_pointer :: "bytes \<Rightarrow> u16" where
  "frame_pointer frame = be16_at frame 4 AND 0x7ff"

definition frame_field :: "ccsds_config \<Rightarrow> bytes \<Rightarrow> bytes" where
  "frame_field cfg frame = take (CCSDS_TM_FRAME_LEN cfg - 10 - CCSDS_TM_FECF_LEN cfg) (drop 6 frame)"

definition rx_cadu :: "ccsds_config \<Rightarrow> bytes \<Rightarrow> bytes \<Rightarrow> bytes list \<times> bytes" where
  "rx_cadu cfg part cadu =
     (let frame = cadu_frame cfg cadu in rx_frame part (frame_pointer frame) (frame_field cfg frame))"

lemma cadu_frame_code: "length frame = CCSDS_TM_FRAME_LEN cfg \<Longrightarrow> cadu_frame cfg (code_transfer_frame cfg frame) = frame"
  by (auto simp: cadu_frame_def code_transfer_frame_def Let_def rnd_apply_involution)

lemma frame_pointer_header: "frame_pointer (build_primary_header cfg mc vc vcid fhp @ x) = fhp AND 0x7ff"
proof -
  let ?w0 = "push_bit 4 (CCSDS_SPACECRAFT_ID cfg AND 0x3ff) OR push_bit 1 (word_of_nat vcid AND 0x7) OR 0x1"
  have "build_primary_header cfg mc vc vcid fhp @ x =
      (put_be16 ?w0 @ [mc, vc]) @ put_be16 (push_bit 11 3 OR (fhp AND 0x7ff)) @ x"
    by (simp add: build_primary_header_def Let_def)
  then have "be16_at (build_primary_header cfg mc vc vcid fhp @ x) 4 = push_bit 11 3 OR (fhp AND 0x7ff)"
    by (simp add: be16_at_put [of "put_be16 ?w0 @ [mc, vc]", simplified])
  moreover have "push_bit 11 3 AND 0x7ff = (0 :: u16)" by simp
  ultimately show ?thesis by (simp add: frame_pointer_def and.assoc bit.conj_disj_distrib2)
qed

definition frame_sizes_ok :: "ccsds_config \<Rightarrow> bool" where
  "frame_sizes_ok cfg \<longleftrightarrow> 17 + CCSDS_TM_FECF_LEN cfg \<le> CCSDS_TM_FRAME_LEN cfg \<and>
     CCSDS_TM_FRAME_LEN cfg \<le> 2056 + CCSDS_TM_FECF_LEN cfg"

lemma clear_data_len:
  assumes "sdls_ctx tm = None"
  shows "tm_data_len cfg tm vcid = CCSDS_TM_FRAME_LEN cfg - 10 - CCSDS_TM_FECF_LEN cfg"
    "security_overhead tm vcid = 0" "security_header_len tm vcid = 0" "\<not> security_enabled tm vcid"
  using assms by (simp_all add: tm_data_len_def security_overhead_def security_enabled_def security_header_len_def)

lemma finish_frame_bytes:
  assumes "length a = off" "length b = 4" "length t = CCSDS_TM_FECF_LEN cfg" "cfg = t_cfg pf"
    and "off + 4 + CCSDS_TM_FECF_LEN cfg = CCSDS_TM_FRAME_LEN cfg" "sdls_ctx tm = None"
  shows "\<exists>ocf fecf env'. finish_transfer_frame pf tm vcid (a @ b @ t) off env =
      (a @ ocf @ fecf, increment_frame_counters tm vcid, env') \<and>
    length ocf = 4 \<and> length fecf = CCSDS_TM_FECF_LEN cfg \<and> (CCSDS_TM_FECF cfg \<longrightarrow> ccsds_crc16_check (a @ ocf @ fecf))"
proof -
  obtain ocf env' where o: "append_ocf pf tm (a @ b @ t) off env = (a @ ocf @ t, env')" "length ocf = 4"
    using append_ocf_bytes [OF assms(1,2), of pf tm t env] by blast
  have "length (a @ ocf) = CCSDS_TM_FRAME_LEN cfg - CCSDS_TM_FECF_LEN cfg" using assms(1,5) o(2) by simp
  then obtain fecf where "append_fecf cfg ((a @ ocf) @ t) = (a @ ocf) @ fecf" "length fecf = CCSDS_TM_FECF_LEN cfg"
      "CCSDS_TM_FECF cfg \<longrightarrow> ccsds_crc16_check ((a @ ocf) @ fecf)"
    using append_fecf_bytes [of "a @ ocf" cfg t] assms(3) by blast
  with o assms show ?thesis
    by (auto simp: finish_transfer_frame_def complete_ocf_def)
qed

lemma length_field_data: "length d \<le> n \<Longrightarrow> length (field_data n d) = n"
  by (simp add: field_data_def)

definition clear_frame :: "ccsds_config \<Rightarrow> bytes \<Rightarrow> u16 \<Rightarrow> bytes \<Rightarrow> bool" where
  "clear_frame cfg frame fhp fdata \<longleftrightarrow> length frame = CCSDS_TM_FRAME_LEN cfg \<and>
     frame_pointer frame = fhp AND 0x7ff \<and> frame_field cfg frame = fdata \<and>
     (CCSDS_TM_FECF cfg \<longrightarrow> ccsds_crc16_check frame)"

lemma clear_frameI:
  assumes "length fdata = CCSDS_TM_FRAME_LEN cfg - 10 - CCSDS_TM_FECF_LEN cfg" "length ocf = 4"
    and "length fecf = CCSDS_TM_FECF_LEN cfg" "frame_sizes_ok cfg"
    and "CCSDS_TM_FECF cfg \<longrightarrow> ccsds_crc16_check ((build_primary_header cfg mc vc vcid fhp @ fdata) @ ocf @ fecf)"
  shows "clear_frame cfg ((build_primary_header cfg mc vc vcid fhp @ fdata) @ ocf @ fecf) fhp fdata"
  using assms by (simp add: clear_frame_def frame_pointer_header frame_field_def frame_sizes_ok_def)

lemma split_zero_frame:
  "6 + n + 4 + k = m \<Longrightarrow> replicate m (0 :: u8) = replicate 6 0 @ replicate n 0 @ (replicate 4 0 @ replicate k 0)"
  by (auto simp flip: replicate_add simp: algebra_simps)

lemma build_packet_clear:
  assumes "sdls_ctx tm = None" "vcid < length (vcs tm)" "frame_sizes_ok cfg" "cfg = t_cfg pf"
    and "n = CCSDS_TM_FRAME_LEN cfg - 10 - CCSDS_TM_FECF_LEN cfg"
    and "build_packet_loop (t_pipe pf) n (vcs tm ! vcid) [] CCSDS_TM_NO_FIRST_HEADER_POINTER = (Inr (d, fhp), vc)"
    and "length d \<le> n"
  shows "\<exists>frame env'. build_packet_transfer_frame pf tm vcid env =
      (Inr frame, increment_frame_counters (tm\<lparr>vcs := (vcs tm)[vcid := vc]\<rparr>) vcid, env') \<and>
    clear_frame cfg frame (field_pointer n d fhp) (field_data n d)"
proof -
  let ?tm = "tm\<lparr>vcs := (vcs tm)[vcid := vc]\<rparr>"
  let ?hdr = "build_primary_header cfg (mcfc tm) (vcfc vc) vcid (field_pointer n d fhp)"
  let ?z = "replicate (CCSDS_TM_FRAME_LEN cfg) (0 :: u8)"
  let ?zfecf = "replicate (CCSDS_TM_FECF_LEN cfg) (0 :: u8)"
  have len: "6 + n + 4 + CCSDS_TM_FECF_LEN cfg = CCSDS_TM_FRAME_LEN cfg"
    using assms(3,5) by (simp add: frame_sizes_ok_def)
  have "copy_into (copy_into ?z 6 (field_data n d)) 0 ?hdr =
      copy_into ([] @ replicate 6 0 @ field_data n d @ replicate 4 0 @ ?zfecf) 0 ?hdr"
    unfolding split_zero_frame [OF len] using length_field_data [OF assms(7)] by (subst copy_into_at) simp_all
  also have "\<dots> = [] @ ?hdr @ field_data n d @ replicate 4 0 @ ?zfecf"
    by (rule copy_into_at) simp_all
  finally have buf: "copy_into (copy_into ?z 6 (field_data n d)) 0 ?hdr =
      (?hdr @ field_data n d) @ replicate 4 0 @ ?zfecf" by simp
  have dl: "tm_data_len cfg tm vcid = n" using assms(1,5) by (simp add: clear_data_len)
  obtain ocf fecf env' where f: "finish_transfer_frame pf ?tm vcid ((?hdr @ field_data n d) @ replicate 4 0 @ ?zfecf) (6 + n) env =
      ((?hdr @ field_data n d) @ ocf @ fecf, increment_frame_counters ?tm vcid, env')"
      "length ocf = 4" "length fecf = CCSDS_TM_FECF_LEN cfg"
      "CCSDS_TM_FECF cfg \<longrightarrow> ccsds_crc16_check ((?hdr @ field_data n d) @ ocf @ fecf)"
    using finish_frame_bytes [of "?hdr @ field_data n d" "6 + n" "replicate 4 0" ?zfecf cfg pf ?tm vcid env]
      assms(1,4) len length_field_data [OF assms(7)] by auto
  have sec: "\<not> security_enabled ?tm vcid" using assms(1) by (simp add: clear_data_len)
  have build: "build_packet_transfer_frame pf tm vcid env =
      (Inr ((?hdr @ field_data n d) @ ocf @ fecf), increment_frame_counters ?tm vcid, env')"
    unfolding build_packet_transfer_frame_def Let_def
    using assms(6) f(1) sec clear_data_len [OF assms(1)] dl buf
    by (simp add: assms(4) [symmetric] del: append_assoc)
  moreover have "clear_frame cfg ((?hdr @ field_data n d) @ ocf @ fecf) (field_pointer n d fhp) (field_data n d)"
    by (rule clear_frameI) (use f length_field_data [OF assms(7)] assms in auto)
  ultimately show ?thesis by blast
qed

lemma build_idle_clear:
  assumes "sdls_ctx tm = None" "vcid < length (vcs tm)" "frame_sizes_ok cfg" "cfg = t_cfg pf"
  shows "\<exists>frame fdata env'. build_idle_transfer_frame pf tm vcid env =
      (Some frame, increment_frame_counters tm vcid, env') \<and>
    clear_frame cfg frame CCSDS_TM_IDLE_FIRST_HEADER_POINTER fdata"
proof -
  let ?n = "CCSDS_TM_FRAME_LEN cfg - 10 - CCSDS_TM_FECF_LEN cfg"
  let ?hdr = "build_primary_header cfg (mcfc tm) (vcfc (vcs tm ! vcid)) vcid CCSDS_TM_IDLE_FIRST_HEADER_POINTER"
  let ?zfecf = "replicate (CCSDS_TM_FECF_LEN cfg) (0 :: u8)"
  have len: "6 + ?n + 4 + CCSDS_TM_FECF_LEN cfg = CCSDS_TM_FRAME_LEN cfg"
    using assms(3) by (simp add: frame_sizes_ok_def)
  have buf: "copy_into (replicate (CCSDS_TM_FRAME_LEN cfg) 0) 0 ?hdr = (?hdr @ replicate ?n 0) @ replicate 4 0 @ ?zfecf"
    unfolding split_zero_frame [OF len]
    using copy_into_at [of "[]" 0 "replicate 6 0" ?hdr "replicate ?n 0 @ replicate 4 0 @ ?zfecf"] by simp
  obtain ocf fecf env' where f: "finish_transfer_frame pf tm vcid ((?hdr @ replicate ?n 0) @ replicate 4 0 @ ?zfecf) (6 + ?n) env =
      ((?hdr @ replicate ?n 0) @ ocf @ fecf, increment_frame_counters tm vcid, env')"
      "length ocf = 4" "length fecf = CCSDS_TM_FECF_LEN cfg"
      "CCSDS_TM_FECF cfg \<longrightarrow> ccsds_crc16_check ((?hdr @ replicate ?n 0) @ ocf @ fecf)"
    using finish_frame_bytes [of "?hdr @ replicate ?n 0" "6 + ?n" "replicate 4 0" ?zfecf cfg pf tm vcid env]
      assms(1,4) len by auto
  have "build_idle_transfer_frame pf tm vcid env =
      (Some ((?hdr @ replicate ?n 0) @ ocf @ fecf), increment_frame_counters tm vcid, env')"
    unfolding build_idle_transfer_frame_def Let_def
    using f(1) clear_data_len [OF assms(1)] buf by (simp add: assms(4) [symmetric] del: append_assoc)
  moreover have "clear_frame cfg ((?hdr @ replicate ?n 0) @ ocf @ fecf) CCSDS_TM_IDLE_FIRST_HEADER_POINTER (replicate ?n 0)"
    by (rule clear_frameI) (use f assms in auto)
  ultimately show ?thesis by blast
qed

lemma rx_cadu_frame:
  "clear_frame cfg frame fhp fdata \<Longrightarrow> rx_cadu cfg part (code_transfer_frame cfg frame) = rx_frame part (fhp AND 0x7ff) fdata"
  by (simp add: rx_cadu_def clear_frame_def cadu_frame_code)

section \<open>The telemetry link\<close>

text \<open>
  The generator's module and a receiver per channel that gets every frame: \<open>sent\<close> are the packets
  admitted, \<open>part\<close> the receivers' partial packets, \<open>got\<close> the packets they have delivered, idle packets
  left out.  An \<open>add\<close> that fails without queueing anything is no step.
\<close>

abbreviation real_packets :: "bytes list \<Rightarrow> bytes list" where
  "real_packets ps \<equiv> filter (\<lambda>q. \<not> is_idle_packet q) ps"

inductive tm_link ::
  "('p, 'f, 'u, 'env) tm_platform \<Rightarrow> ('p, 'f, 'u, 'cb) tm_module \<Rightarrow> (nat \<Rightarrow> bytes list) \<Rightarrow> (nat \<Rightarrow> bytes) \<Rightarrow>
     (nat \<Rightarrow> bytes list) \<Rightarrow> bool" for pf where
  init: "length (vcs tm) = 8 \<Longrightarrow> tm_link pf (ccsds_tm_frame_init pf tm) (\<lambda>_. []) (\<lambda>_. []) (\<lambda>_. [])"
| add: "tm_link pf tm sent part got \<Longrightarrow> ccsds_tm_frame_add pf tm v p t lock = (RC_OK, tm') \<Longrightarrow>
    tm_link pf tm' (sent(v := sent v @ [p])) part got"
| refused: "tm_link pf tm sent part got \<Longrightarrow> ccsds_tm_frame_add pf tm v p t lock = (RC_ERR e, tm') \<Longrightarrow>
    pending_len (vcs tm' ! v) = pending_len (vcs tm ! v) \<Longrightarrow> tm_link pf tm' sent part got"
| route: "tm_link pf tm sent part got \<Longrightarrow> ccsds_tm_frame_set_vc_route tm v rm = (ret, tm') \<Longrightarrow>
    tm_link pf tm' sent part got"
| clcw: "tm_link pf tm sent part got \<Longrightarrow> tm_link pf (ccsds_tm_frame_set_clcw_provider tm f u) sent part got"
| packets: "tm_link pf tm sent part got \<Longrightarrow> generator_select_active_vc tm = Some v \<Longrightarrow>
    build_packet_transfer_frame pf (tm\<lparr>generator_last_cycle_active := True, generator_last_vcid := v\<rparr>) v env =
      (Inr frame, tm', env') \<Longrightarrow>
    rx_cadu (t_cfg pf) (part v) (code_transfer_frame (t_cfg pf) frame) = (out, p') \<Longrightarrow>
    tm_link pf tm' sent (part(v := p')) (got(v := got v @ real_packets out))"
| idle: "tm_link pf tm sent part got \<Longrightarrow> generator_select_active_vc tm = None \<Longrightarrow>
    build_idle_transfer_frame pf (tm\<lparr>generator_last_cycle_active := False, generator_last_vcid := 7\<rparr>) 7 env =
      (Some frame, tm', env') \<Longrightarrow>
    rx_cadu (t_cfg pf) (part 7) (code_transfer_frame (t_cfg pf) frame) = (out, p') \<Longrightarrow>
    tm_link pf tm' sent (part(7 := p')) (got(7 := got 7 @ real_packets out))"

definition vc_linked :: "('p \<Rightarrow> bytes) \<Rightarrow> 'p ccsds_tm_vc \<Rightarrow> bytes list \<Rightarrow> bytes \<Rightarrow> bytes list \<Rightarrow> bool" where
  "vc_linked contents vc s p g \<longleftrightarrow>
     (\<exists>tail qs. queue_holds contents vc tail qs \<and> in_step p tail \<and>
        real_packets s = g @ real_packets (current (real_part p tail) tail @ qs))"

definition link_inv ::
  "('p \<Rightarrow> bytes) \<Rightarrow> ('p, 'f, 'u, 'cb) tm_module \<Rightarrow> (nat \<Rightarrow> bytes list) \<Rightarrow> (nat \<Rightarrow> bytes) \<Rightarrow>
     (nat \<Rightarrow> bytes list) \<Rightarrow> bool" where
  "link_inv contents tm sent part got \<longleftrightarrow> length (vcs tm) = 8 \<and> sdls_ctx tm = None \<and>
     (\<forall>v<8. vc_linked contents (vcs tm ! v) (sent v) (part v) (got v))"

lemma vc_linked_update [simp]:
  "vc_linked contents (vc\<lparr>vcfc := c\<rparr>) s p g \<longleftrightarrow> vc_linked contents vc s p g"
  "vc_linked contents (vc\<lparr>vc_route_mask := m\<rparr>) s p g \<longleftrightarrow> vc_linked contents vc s p g"
  by (simp_all add: vc_linked_def queue_holds_def)

lemma vc_linked_add:
  assumes "pipe_contract ops contents" "vc_linked contents vc s p g" "framed q"
    and "write_pending_bytes ops vc q t = (RC_OK, vc')"
  shows "vc_linked contents vc' (s @ [q]) p g"
proof -
  obtain tail qs where i: "queue_holds contents vc tail qs" "in_step p tail"
      "real_packets s = g @ real_packets (current (real_part p tail) tail @ qs)"
    using assms(2) by (auto simp: vc_linked_def)
  obtain p' where "vc' = vc\<lparr>pending := p', pending_len := pending_len vc + length q\<rparr>"
      "contents p' = contents (pending vc) @ q"
    using write_pending [OF assms(1), of vc q t] assms(4) by auto
  then have "queue_holds contents vc' tail (qs @ [q])" using i(1) assms(3) by (auto simp: queue_holds_def)
  with i(2,3) show ?thesis unfolding vc_linked_def by (intro exI [of _ tail] exI [of _ "qs @ [q]"]) auto
qed

lemma frame_data_len: "frame_sizes_ok cfg \<Longrightarrow> n = CCSDS_TM_FRAME_LEN cfg - 10 - CCSDS_TM_FECF_LEN cfg \<Longrightarrow> 7 \<le> n \<and> n \<le> 2046"
  by (auto simp: frame_sizes_ok_def)

lemma pointer_masked:
  assumes "laid contents n part tail qs [] CCSDS_TM_NO_FIRST_HEADER_POINTER d fhp vc' part' tail' qs' outs"
    and "n \<le> 2046"
  shows "field_pointer n d fhp AND 0x7ff = field_pointer n d fhp"
proof -
  note l = laidD [OF assms(1)]
  have "field_pointer n d fhp \<in> {CCSDS_TM_NO_FIRST_HEADER_POINTER} \<union> word_of_nat ` {..<2046}"
    using l assms(2) by (cases "length d \<le> length tail") (auto simp: field_pointer_def)
  then show ?thesis using pointer_value(4) by (auto simp: CCSDS_TM_NO_FIRST_HEADER_POINTER_def)
qed

text \<open>A packet-bearing cycle on a linked channel: it emits a frame, and the receiver stays in step.\<close>

lemma packet_cycle:
  assumes "pipe_contract (t_pipe pf) contents" "frame_sizes_ok (t_cfg pf)"
    and "sdls_ctx tm = None" "v < length (vcs tm)" "vc_linked contents (vcs tm ! v) s p g"
  shows "\<exists>frame tm' env' vc out p'. build_packet_transfer_frame pf tm v env = (Inr frame, tm', env') \<and>
    rx_cadu (t_cfg pf) p (code_transfer_frame (t_cfg pf) frame) = (out, p') \<and>
    tm' = increment_frame_counters (tm\<lparr>vcs := (vcs tm)[v := vc]\<rparr>) v \<and>
    vc_linked contents vc s p' (g @ real_packets out) \<and>
    (vc_has_pending_bytes tm v \<longrightarrow> pending_len vc < pending_len (vcs tm ! v))"
proof -
  let ?n = "CCSDS_TM_FRAME_LEN (t_cfg pf) - 10 - CCSDS_TM_FECF_LEN (t_cfg pf)"
  have n: "7 \<le> ?n" "?n \<le> 2046" using frame_data_len [OF assms(2) refl] by auto
  obtain tail qs where i: "queue_holds contents (vcs tm ! v) tail qs" "in_step p tail"
      "real_packets s = g @ real_packets (current (real_part p tail) tail @ qs)"
    using assms(5) by (auto simp: vc_linked_def)
  obtain d fhp vc part' tail' qs' outs where l: "build_packet_loop (t_pipe pf) ?n (vcs tm ! v) []
        CCSDS_TM_NO_FIRST_HEADER_POINTER = (Inr (d, fhp), vc)"
      "laid contents ?n (real_part p tail) tail qs [] CCSDS_TM_NO_FIRST_HEADER_POINTER d fhp vc part' tail' qs' outs"
    using build_packet_loop_lays_down [OF assms(1) n(2) i(1) in_step_cut [OF i(2)], of "[]"]
    unfolding lays_down_def by (metis append_Nil le0 list.size(3))
  note lD = laidD [OF l(2)]
  obtain frame env' where b: "build_packet_transfer_frame pf tm v env =
      (Inr frame, increment_frame_counters (tm\<lparr>vcs := (vcs tm)[v := vc]\<rparr>) v, env')"
      "clear_frame (t_cfg pf) frame (field_pointer ?n d fhp) (field_data ?n d)"
    using build_packet_clear [OF assms(3,4,2) refl refl l(1) lD(3), of env] by blast
  obtain out p' where r: "rx_frame p (field_pointer ?n d fhp) (field_data ?n d) = (out, p')"
      "real_packets out = real_packets outs" "in_step p' tail'" "real_part p' tail' = real_part part' tail'"
    using frame_received [OF l(2) i(2) n] by blast
  have rx: "rx_cadu (t_cfg pf) p (code_transfer_frame (t_cfg pf) frame) = (out, p')"
    using rx_cadu_frame [OF b(2)] pointer_masked [OF l(2) n(2)] r(1) by simp
  have "current (real_part p' tail') tail' = current part' tail'"
    using r(4) by (simp add: current_def real_part_def)
  with lD(7) i(3) r(2) have "real_packets s =
      (g @ real_packets out) @ real_packets (current (real_part p' tail') tail' @ qs')"
    by (metis append.assoc filter_append)
  with lD(2) r(3) have "vc_linked contents vc s p' (g @ real_packets out)" unfolding vc_linked_def by blast
  moreover have "pending_len vc < pending_len (vcs tm ! v)" if "vc_has_pending_bytes tm v"
  proof -
    have "tail \<noteq> [] \<or> qs \<noteq> []" using that i(1) by (auto simp: vc_has_pending_bytes_def queue_holds_def)
    moreover have "d = [] \<Longrightarrow> tail = [] \<and> qs = []"
      using laid_rx [OF l(2), of "[]"] lD n l(2) by (simp add: laid_def current_def split: if_splits)
    ultimately have "0 < length d" by auto
    moreover have "pending_len (vcs tm ! v) = length d + pending_len vc"
      using i(1) lD(2,8) by (simp add: queue_holds_def) 
    ultimately show ?thesis by simp
  qed
  ultimately show ?thesis using b(1) rx by blast
qed

lemma select_active: "generator_select_active_vc tm = Some v \<Longrightarrow> v < length (vcs tm) \<and> vc_has_pending_bytes tm v"
  by (auto simp: generator_select_active_vc_def find_Some_iff)

lemma counters_other: "v < length (vcs tm) \<Longrightarrow> vcs (increment_frame_counters tm v) ! w =
    (if w = v then (vcs tm ! v)\<lparr>vcfc := vcfc (vcs tm ! v) + 1\<rparr> else vcs tm ! w)"
  by (auto simp: increment_frame_counters_def nth_list_update)

lemma counters_simps [simp]:
  "length (vcs (increment_frame_counters tm v)) = length (vcs tm)"
  "sdls_ctx (increment_frame_counters tm v) = sdls_ctx tm"
  by (simp_all add: increment_frame_counters_def)

lemma link_inv_counters:
  "v < 8 \<Longrightarrow> link_inv contents (increment_frame_counters tm v) sent part got \<longleftrightarrow> link_inv contents tm sent part got"
  by (auto simp: link_inv_def counters_other split: if_splits)

lemma link_inv_init:
  assumes "pipe_contract (t_pipe pf) contents" "length (vcs tm) = 8"
  shows "link_inv contents (ccsds_tm_frame_init pf tm) (\<lambda>_. []) (\<lambda>_. []) (\<lambda>_. [])"
proof -
  have "contents (k_pipe_init (t_pipe pf) n) = []" for n using assms(1) by (simp add: pipe_contract_def)
  then have "vc_linked contents (vc\<lparr>pending := k_pipe_init (t_pipe pf) n, pending_len := 0, packet_rem := 0,
      packet_is_idle := False, vcfc := 0, vc_route_mask := 0\<rparr>) [] [] []" for vc n
    unfolding vc_linked_def
    by (intro exI [of _ "[]"]) (simp add: queue_holds_def in_step_def cut_def current_def)
  with assms(2) show ?thesis by (simp add: link_inv_def ccsds_tm_frame_init_def ccsds_tm_frame_stop_def)
qed

lemma link_inv_add:
  assumes "pipe_contract (t_pipe pf) contents" "link_inv contents tm sent part got"
    and "ccsds_tm_frame_add pf tm v p t lock = (RC_OK, tm')"
  shows "link_inv contents tm' (sent(v := sent v @ [p])) part got"
proof -
  from assms(3) obtain vc where a: "framed p" "v < 8" "write_pending_bytes (t_pipe pf) (vcs tm ! v) p t = (RC_OK, vc)"
      "tm' = tm\<lparr>vcs := (vcs tm)[v := vc]\<rparr>"
    by (auto simp: ccsds_tm_frame_add_def framed_def split: if_splits prod.splits)
  then have "vc_linked contents vc (sent v @ [p]) (part v) (got v)"
    using assms(2) by (intro vc_linked_add [OF assms(1)]) (simp_all add: link_inv_def)
  with a assms(2) show ?thesis by (auto simp: link_inv_def nth_list_update)
qed

lemma link_inv_refused:
  assumes "pipe_contract (t_pipe pf) contents" "link_inv contents tm sent part got"
    and "ccsds_tm_frame_add pf tm v p t lock = (RC_ERR e, tm')" "pending_len (vcs tm' ! v) = pending_len (vcs tm ! v)"
  shows "link_inv contents tm' sent part got"
proof (cases "tm' = tm")
  case False
  with assms(3) obtain vc where a: "v < 8" "write_pending_bytes (t_pipe pf) (vcs tm ! v) p t = (RC_ERR e, vc)"
      "tm' = tm\<lparr>vcs := (vcs tm)[v := vc]\<rparr>"
    by (auto simp: ccsds_tm_frame_add_def split: if_splits prod.splits)
  have v: "v < length (vcs tm)" using a(1) assms(2) by (simp add: link_inv_def)
  obtain q n where "vc = (vcs tm ! v)\<lparr>pending := q, pending_len := pending_len (vcs tm ! v) + n\<rparr>"
      "contents q = contents (pending (vcs tm ! v)) @ take n p"
    using write_pending [OF assms(1), of "vcs tm ! v" p t] a(2) by auto
  with assms(4) [unfolded a(3)] v have vc: "vc = (vcs tm ! v)\<lparr>pending := q\<rparr>" "contents q = contents (pending (vcs tm ! v))" by simp_all
  have "vc_linked contents vc s r g = vc_linked contents (vcs tm ! v) s r g" for s r g
    using vc(2) by (simp add: vc(1) vc_linked_def queue_holds_def)
  then have "vc_linked contents (vcs tm' ! w) s r g = vc_linked contents (vcs tm ! w) s r g" for w s r g
    using v by (cases "w = v") (simp_all add: a(3))
  with assms(2) a(3) show ?thesis by (simp add: link_inv_def)
qed (use assms(2) in simp)

lemma link_inv_packets:
  assumes "pipe_contract (t_pipe pf) contents" "frame_sizes_ok (t_cfg pf)" "link_inv contents tm sent part got"
    and "v < 8" "build_packet_transfer_frame pf tm v env = (Inr frame, tm', env')"
    and "rx_cadu (t_cfg pf) (part v) (code_transfer_frame (t_cfg pf) frame) = (out, p')"
  shows "link_inv contents tm' sent (part(v := p')) (got(v := got v @ real_packets out))"
proof -
  have i: "sdls_ctx tm = None" "v < length (vcs tm)" "vc_linked contents (vcs tm ! v) (sent v) (part v) (got v)"
    using assms(3,4) by (simp_all add: link_inv_def)
  obtain vc where "tm' = increment_frame_counters (tm\<lparr>vcs := (vcs tm)[v := vc]\<rparr>) v"
      "vc_linked contents vc (sent v) p' (got v @ real_packets out)"
    using packet_cycle [OF assms(1,2) i, of env] assms(5,6) by auto
  then show ?thesis
    using assms(3,4) by (simp add: link_inv_counters) (auto simp: link_inv_def nth_list_update)
qed

lemma link_inv_idle:
  assumes "frame_sizes_ok (t_cfg pf)" "link_inv contents tm sent part got"
    and "build_idle_transfer_frame pf tm 7 env = (Some frame, tm', env')"
    and "rx_cadu (t_cfg pf) (part 7) (code_transfer_frame (t_cfg pf) frame) = (out, p')"
  shows "link_inv contents tm' sent (part(7 := p')) (got(7 := got 7 @ real_packets out))"
proof -
  obtain fdata where b: "tm' = increment_frame_counters tm 7"
      "clear_frame (t_cfg pf) frame CCSDS_TM_IDLE_FIRST_HEADER_POINTER fdata"
    using build_idle_clear [OF _ _ assms(1) refl, of tm 7 env] assms(2,3) by (auto simp: link_inv_def)
  have "out = [] \<and> p' = part 7"
    using rx_cadu_frame [OF b(2), of "part 7"] assms(4)
    by (simp add: rx_frame_def CCSDS_TM_IDLE_FIRST_HEADER_POINTER_def)
  with assms(2) b(1) show ?thesis by (simp add: link_inv_counters)
qed

lemma link_inv_marks [simp]:
  "link_inv contents (tm\<lparr>generator_last_cycle_active := a, generator_last_vcid := v\<rparr>) sent part got \<longleftrightarrow>
     link_inv contents tm sent part got"
  by (simp add: link_inv_def)

lemma tm_link_inv:
  assumes "tm_link pf tm sent part got" "pipe_contract (t_pipe pf) contents" "frame_sizes_ok (t_cfg pf)"
  shows "link_inv contents tm sent part got"
  using assms(1)
proof induction
  case (init tm)
  then show ?case by (rule link_inv_init [OF assms(2)])
next
  case (add tm sent part got v p t lock tm')
  then show ?case by (intro link_inv_add [OF assms(2)])
next
  case (refused tm sent part got v p t lock e tm')
  show ?case by (rule link_inv_refused [OF assms(2) refused.IH refused.hyps(2,3)])
next
  case (route tm sent part got v rm ret tm')
  then have "tm' = tm \<or> v < 8 \<and> tm' = tm\<lparr>vcs := (vcs tm)[v := (vcs tm ! v)\<lparr>vc_route_mask := rm\<rparr>]\<rparr>"
    by (auto simp: ccsds_tm_frame_set_vc_route_def split: if_splits)
  with route.IH show ?case by (auto simp: link_inv_def nth_list_update)
next
  case (clcw tm sent part got f u)
  then show ?case by (simp add: link_inv_def ccsds_tm_frame_set_clcw_provider_def)
next
  case (packets tm sent part got v env frame tm' env' out p')
  from select_active [OF packets.hyps(2)] packets.IH have "v < 8" by (simp add: link_inv_def)
  with packets show ?case by (intro link_inv_packets [OF assms(2,3)]) auto
next
  case (idle tm sent part got env frame tm' env' out p')
  then show ?case by (intro link_inv_idle [OF assms(3)]) auto
qed

section \<open>A channel with a truncated packet\<close>

text \<open>
  What an \<open>add\<close> cut short by its timeout leaves once the generator has read what is there: either
  the rest of a packet is due and the pipe is empty, or fewer bytes than a header are queued.
\<close>

definition stalled :: "('p \<Rightarrow> bytes) \<Rightarrow> ('p, 'f, 'u, 'cb) tm_module \<Rightarrow> nat \<Rightarrow> bool" where
  "stalled contents tm v \<longleftrightarrow> v < length (vcs tm) \<and> sdls_ctx tm = None \<and> (\<forall>w<v. \<not> vc_has_pending_bytes tm w) \<and>
     (let vc = vcs tm ! v in
        (0 < packet_rem vc \<and> pending_len vc = 0 \<and> contents (pending vc) = []) \<or>
        (packet_rem vc = 0 \<and> 0 < pending_len vc \<and> pending_len vc < 6))"

lemma stalled_select: "stalled contents tm v \<Longrightarrow> generator_select_active_vc tm = Some v"
  by (auto simp: stalled_def generator_select_active_vc_def find_Some_iff vc_has_pending_bytes_def Let_def
      intro!: exI [of _ v])

lemma stalled_loop:
  assumes "pipe_contract ops contents" "6 \<le> n"
    and "(0 < packet_rem vc \<and> pending_len vc = 0 \<and> contents (pending vc) = []) \<or>
         (packet_rem vc = 0 \<and> 0 < pending_len vc \<and> pending_len vc < 6)"
  shows "\<exists>e p. build_packet_loop ops n vc [] fhp = (Inl e, vc\<lparr>pending := p\<rparr>) \<and> contents p = contents (pending vc)"
  using assms(3)
proof
  assume vc: "0 < packet_rem vc \<and> pending_len vc = 0 \<and> contents (pending vc) = []"
  then obtain e p where "read_pending_bytes ops vc (min (packet_rem vc) n) [] =
      (Inl e, vc\<lparr>pending := p, pending_len := pending_len vc - length (contents (pending vc))\<rparr>)" "contents p = []"
    using read_pending_short [OF assms(1), of vc "min (packet_rem vc) n" "[]"] assms(2) by auto
  with vc assms(2) show ?thesis
    by (subst build_packet_loop.simps) (auto simp: Let_def intro!: exI [of _ p])
next
  assume "packet_rem vc = 0 \<and> 0 < pending_len vc \<and> pending_len vc < 6"
  with assms(2) show ?thesis
    by (subst build_packet_loop.simps) (auto simp: Let_def intro!: exI [of _ "pending vc"])
qed

lemma stalled_build:
  assumes "pipe_contract (t_pipe pf) contents" "frame_sizes_ok (t_cfg pf)" "stalled contents tm v"
  shows "\<exists>e p. build_packet_transfer_frame pf tm v env =
      (Inl e, tm\<lparr>vcs := (vcs tm)[v := (vcs tm ! v)\<lparr>pending := p\<rparr>]\<rparr>, env) \<and>
    contents p = contents (pending (vcs tm ! v))"
proof -
  let ?n = "CCSDS_TM_FRAME_LEN (t_cfg pf) - 10 - CCSDS_TM_FECF_LEN (t_cfg pf)"
  have n: "6 \<le> ?n" using frame_data_len [OF assms(2) refl] by simp
  have st: "(0 < packet_rem (vcs tm ! v) \<and> pending_len (vcs tm ! v) = 0 \<and> contents (pending (vcs tm ! v)) = []) \<or>
      (packet_rem (vcs tm ! v) = 0 \<and> 0 < pending_len (vcs tm ! v) \<and> pending_len (vcs tm ! v) < 6)"
    using assms(3) by (simp add: stalled_def Let_def)
  obtain e p where "build_packet_loop (t_pipe pf) ?n (vcs tm ! v) [] CCSDS_TM_NO_FIRST_HEADER_POINTER =
      (Inl e, (vcs tm ! v)\<lparr>pending := p\<rparr>)" "contents p = contents (pending (vcs tm ! v))"
    using stalled_loop [OF assms(1) n st] by blast
  with assms(3) show ?thesis
    by (intro exI [of _ e] exI [of _ p]) (simp add: Let_def build_packet_transfer_frame_def clear_data_len stalled_def)
qed

lemma stalled_cycle:
  assumes "pipe_contract (t_pipe pf) contents" "frame_sizes_ok (t_cfg pf)" "stalled contents tm v"
  shows "\<exists>tm'. generator_cycle pf tm env = (True, tm', env) \<and> stalled contents tm' v"
proof -
  let ?tm = "tm\<lparr>generator_last_cycle_active := True, generator_last_vcid := v\<rparr>"
  have "stalled contents ?tm v" using assms(3) by (simp add: stalled_def vc_has_pending_bytes_def)
  then obtain e p where b: "build_packet_transfer_frame pf ?tm v env =
      (Inl e, ?tm\<lparr>vcs := (vcs tm)[v := (vcs tm ! v)\<lparr>pending := p\<rparr>]\<rparr>, env)"
      "contents p = contents (pending (vcs tm ! v))"
    using stalled_build [OF assms(1,2), of ?tm v env] by auto
  let ?tm' = "?tm\<lparr>vcs := (vcs tm)[v := (vcs tm ! v)\<lparr>pending := p\<rparr>]\<rparr>"
  have "generator_cycle pf tm env = (True, ?tm', env)"
    using stalled_select [OF assms(3)] b(1) by (simp add: generator_cycle_def Let_def)
  moreover have "stalled contents ?tm' v"
    using assms(3) b(2) by (auto simp: stalled_def Let_def vc_has_pending_bytes_def nth_list_update)
  ultimately show ?thesis by blast
qed

definition cycle_step ::
  "('p, 'f, 'u, 'env) tm_platform \<Rightarrow> ('p, 'f, 'u, 'cb) tm_module \<times> 'env \<Rightarrow> unit \<Rightarrow> ('p, 'f, 'u, 'cb) tm_module \<times> 'env" where
  "cycle_step pf s i = (case generator_cycle pf (fst s) (snd s) of (active, tm, env) \<Rightarrow> (tm, env))"

lemma stalled_run:
  assumes "pipe_contract (t_pipe pf) contents" "frame_sizes_ok (t_cfg pf)" "stalled contents tm v"
  shows "snd (run (cycle_step pf) (tm, env) cycles) = env \<and> stalled contents (fst (run (cycle_step pf) (tm, env) cycles)) v"
  using assms(3)
proof (induction cycles arbitrary: tm)
  case (Cons c cycles)
  obtain tm' where "generator_cycle pf tm env = (True, tm', env)" "stalled contents tm' v"
    using stalled_cycle [OF assms(1,2) Cons.prems] by blast
  with Cons.IH [of tm'] show ?case by (simp add: cycle_step_def)
qed simp

lemma demo_sizes: "frame_sizes_ok (t_cfg demo_tm_platform)" "t_pipe demo_tm_platform = list_pipe"
  by (simp_all add: frame_sizes_ok_def demo_tm_platform_def CCSDS_TM_FRAME_LEN_def CCSDS_TM_FECF_LEN_def default_config_def)

section \<open>Properties\<close>

text \<open>
  C16. Without SDLS, and as long as no add is cut short by its timeout, telemetry is delivered in
  order and without loss: however adds that succeed, adds that fail before they queue anything,
  route changes and generator cycles are interleaved, what the receiver of a channel has
  assembled from the frames of that channel, idle packets left out, is a prefix of the packets
  admitted to it; and once the channel's queue is empty it is all of them.
\<close>

theorem tm_stream_delivered:
  assumes "tm_link pf tm sent part got" "pipe_contract (t_pipe pf) contents" "frame_sizes_ok (t_cfg pf)" "v < 8"
  shows "prefix (got v) (real_packets (sent v)) \<and>
    (\<not> vc_has_pending_bytes tm v \<longrightarrow> got v = real_packets (sent v))"
proof -
  obtain tail qs where "queue_holds contents (vcs tm ! v) tail qs"
      "real_packets (sent v) = got v @ real_packets (current (real_part (part v) tail) tail @ qs)"
    using tm_link_inv [OF assms(1-3)] assms(4) by (auto simp: link_inv_def vc_linked_def)
  moreover have "tail = [] \<and> qs = []" if "\<not> vc_has_pending_bytes tm v"
    using calculation(1) that by (cases qs) (auto simp: queue_holds_def vc_has_pending_bytes_def framed_def)
  ultimately show ?thesis by (auto simp: current_def)
qed

theorem tm_stream_delivered_witness:
  "\<exists>(tm :: (nat \<times> bytes, unit, unit, unit) tm_module) part got.
     tm_link demo_tm_platform tm ((\<lambda>_. [])(0 := [demo_packet])) part got \<and> got 0 = [demo_packet]"
proof -
  let ?tm = "demo_added\<lparr>generator_last_cycle_active := True, generator_last_vcid := 0\<rparr>"
  have "tm_link demo_tm_platform demo_tm_module (\<lambda>_. []) (\<lambda>_. []) (\<lambda>_. [])"
    unfolding demo_tm_module_def by (rule tm_link.init) simp
  from tm_link.add [OF this demo_add] have link: "tm_link demo_tm_platform demo_added ((\<lambda>_. [])(0 := [demo_packet])) (\<lambda>_. []) (\<lambda>_. [])"
    by simp
  have sel: "generator_select_active_vc demo_added = Some 0" by code_simp
  have "case build_packet_transfer_frame demo_tm_platform ?tm 0 [] of
      (Inl e, tm, env) \<Rightarrow> False | (Inr frame, tm, env) \<Rightarrow> \<not> vc_has_pending_bytes tm 0" by code_simp
  then obtain frame tm env where b: "build_packet_transfer_frame demo_tm_platform ?tm 0 [] = (Inr frame, tm, env)"
      "\<not> vc_has_pending_bytes tm 0" by (auto split: prod.splits sum.splits)
  obtain out p where r: "rx_cadu (t_cfg demo_tm_platform) [] (code_transfer_frame (t_cfg demo_tm_platform) frame) = (out, p)"
    by fastforce
  note l = tm_link.packets [OF link sel b(1) r]
  have "real_packets [demo_packet] = [demo_packet]" by code_simp
  then have "real_packets out = [demo_packet]"
    using tm_stream_delivered [OF l, of snd 0] list_pipe_contract demo_sizes b(2) by simp
  then show ?thesis by (intro exI conjI) (rule l, simp)
qed

text \<open>
  C17. Without SDLS, and as long as no add has been cut short by its timeout, every generator
  cycle that selects a channel makes progress: the frame is built, without an error, the selected
  channel's queue gets strictly shorter, and the other channels keep theirs; so the queues drain.
\<close>

theorem tm_cycle_progress:
  assumes "tm_link pf tm sent part got" "pipe_contract (t_pipe pf) contents" "frame_sizes_ok (t_cfg pf)"
    and "generator_select_active_vc tm = Some v"
  shows "\<exists>frame tm' env'. build_packet_transfer_frame pf tm v env = (Inr frame, tm', env') \<and>
    pending_len (vcs tm' ! v) < pending_len (vcs tm ! v) \<and>
    (\<forall>w<8. w \<noteq> v \<longrightarrow> vcs tm' ! w = vcs tm ! w)"
proof -
  note i = tm_link_inv [OF assms(1-3)]
  note s = select_active [OF assms(4)]
  obtain frame env' vc where "build_packet_transfer_frame pf tm v env =
      (Inr frame, increment_frame_counters (tm\<lparr>vcs := (vcs tm)[v := vc]\<rparr>) v, env')"
      "pending_len vc < pending_len (vcs tm ! v)"
    using packet_cycle [OF assms(2,3), of tm v "sent v" "part v" "got v" env] i s by (auto simp: link_inv_def)
  with s show ?thesis by (auto simp: counters_other)
qed

theorem tm_cycle_progress_witness:
  "\<exists>frame tm' env'. build_packet_transfer_frame demo_tm_platform demo_added 0 [] = (Inr frame, tm', env') \<and>
    pending_len (vcs tm' ! 0) < 7"
proof -
  have "tm_link demo_tm_platform demo_tm_module (\<lambda>_. []) (\<lambda>_. []) (\<lambda>_. [])"
    unfolding demo_tm_module_def by (rule tm_link.init) simp
  note link = tm_link.add [OF this demo_add]
  have "generator_select_active_vc demo_added = Some 0" "pending_len (vcs demo_added ! 0) = 7" by code_simp+
  with tm_cycle_progress [OF link, of snd 0 "[]"] list_pipe_contract demo_sizes show ?thesis by auto
qed

text \<open>
  C35. An add cut short by its timeout can stop all telemetry.  Without SDLS, once a channel holds
  only a truncated packet and no channel before it has anything to send, every further generator
  cycle selects that channel again and fails to build its frame, so that no frame, of any channel
  and not even an idle one, reaches a route, for as many cycles as are run.
\<close>

theorem truncated_add_stops_telemetry:
  assumes "pipe_contract (t_pipe pf) contents" "frame_sizes_ok (t_cfg pf)" "stalled contents tm v"
  shows "let (tm', env') = run (cycle_step pf) (tm, env) cycles in
    env' = env \<and> generator_select_active_vc tm' = Some v \<and>
    (\<exists>e tm''. build_packet_transfer_frame pf tm' v env' = (Inl e, tm'', env'))"
proof -
  obtain tm' env' where r: "run (cycle_step pf) (tm, env) cycles = (tm', env')" by (rule prod.exhaust)
  with stalled_run [OF assms, of env cycles] have s: "env' = env" "stalled contents tm' v" by simp_all
  from stalled_build [OF assms(1,2) s(2), of env'] have "\<exists>e tm''. build_packet_transfer_frame pf tm' v env' = (Inl e, tm'', env')"
    by blast
  with stalled_select [OF s(2)] r s(1) show ?thesis by simp
qed

theorem truncated_add_stops_telemetry_witness:
  "let (ret, tm) = ccsds_tm_frame_add demo_tm_platform demo_added 0 demo_packet K_NO_WAIT RC_OK;
       (active, tm, env) = generator_cycle demo_tm_platform tm []
   in ret = RC_ERR EAGAIN \<and> env = [] \<and> snd (run (cycle_step demo_tm_platform) (tm, env) [(), (), ()]) = []"
proof -
  let ?add = "ccsds_tm_frame_add demo_tm_platform demo_added 0 demo_packet K_NO_WAIT RC_OK"
  let ?cycle = "generator_cycle demo_tm_platform (snd ?add) []"
  let ?tm = "fst (snd ?cycle)"
  have "stalled snd ?tm 0" by code_simp
  then have "snd (run (cycle_step demo_tm_platform) (?tm, []) [(), (), ()]) = []"
    using truncated_add_stops_telemetry [of demo_tm_platform snd ?tm 0 "[]" "[(), (), ()]"]
      list_pipe_contract demo_sizes by (auto split: prod.splits)
  moreover have "fst ?add = RC_ERR EAGAIN" "snd (snd ?cycle) = []" by code_simp+
  moreover have "?cycle = (fst ?cycle, ?tm, snd (snd ?cycle))" by simp
  ultimately show ?thesis by (metis (mono_tags, lifting) case_prod_beta fst_conv snd_conv)
qed

end
