(* ===== verification/Cfdp_Types.thy ===== *)
theory Cfdp_Types
  imports Ccsds_Prelude
begin

text \<open>
  Constants and enumerations shared by the CFDP components: the status codes of
  \<^verbatim>\<open>ccsds_cfdp_status.h\<close>, the checksum identifiers of \<^verbatim>\<open>ccsds_cfdp_types.h\<close> and the
  compile-time limits of \<^verbatim>\<open>ccsds_cfdp_config.h\<close>.
\<close>

datatype ccsds_cfdp_status =
    CCSDS_CFDP_STATUS_OK
  | CCSDS_CFDP_STATUS_INVALID_ARGUMENT
  | CCSDS_CFDP_STATUS_BUFFER_TOO_SMALL
  | CCSDS_CFDP_STATUS_MALFORMED_PDU
  | CCSDS_CFDP_STATUS_UNSUPPORTED
  | CCSDS_CFDP_STATUS_UNSUPPORTED_CHECKSUM
  | CCSDS_CFDP_STATUS_INVALID_TRANSMISSION_MODE
  | CCSDS_CFDP_STATUS_CHECKSUM_FAILURE
  | CCSDS_CFDP_STATUS_FILE_SIZE_ERROR
  | CCSDS_CFDP_STATUS_INACTIVITY_DETECTED
  | CCSDS_CFDP_STATUS_NAK_LIMIT_REACHED
  | CCSDS_CFDP_STATUS_CANCEL_REQUEST
  | CCSDS_CFDP_STATUS_FILESTORE_REJECTION
  | CCSDS_CFDP_STATUS_TRANSACTION_BUSY

text \<open>
  A checksum type is a four-bit field of the wire format, so a value outside the enumerators
  reaches the code; \<open>CHECKSUM_TYPE_OTHER\<close> stands for those.
\<close>

datatype ccsds_cfdp_checksum_type =
    CCSDS_CFDP_CHECKSUM_TYPE_MODULAR
  | CCSDS_CFDP_CHECKSUM_TYPE_CRC32C
  | CCSDS_CFDP_CHECKSUM_TYPE_IEEE_802_3_FCS
  | CCSDS_CFDP_CHECKSUM_TYPE_NULL
  | CHECKSUM_TYPE_OTHER u8

record cfdp_config =
  CCSDS_CFDP_MAX_ENTITY_ID_LEN :: nat
  CCSDS_CFDP_MAX_TRANS_SEQ_LEN :: nat
  CCSDS_CFDP_MAX_FILENAME_LEN :: nat
  CCSDS_CFDP_MAX_PDU_SIZE :: nat
  CCSDS_CFDP_MAX_SEGMENT_SIZE :: nat
  CCSDS_CFDP_MAX_NAK_RANGES :: nat
  CCSDS_CFDP_MAX_NAK_ROUNDS :: nat
  CCSDS_CFDP_RETRY_INTERVAL_MS :: nat

definition default_cfdp_config :: cfdp_config where
  "default_cfdp_config = \<lparr>
     CCSDS_CFDP_MAX_ENTITY_ID_LEN = 4,
     CCSDS_CFDP_MAX_TRANS_SEQ_LEN = 4,
     CCSDS_CFDP_MAX_FILENAME_LEN = 64,
     CCSDS_CFDP_MAX_PDU_SIZE = 512,
     CCSDS_CFDP_MAX_SEGMENT_SIZE = 384,
     CCSDS_CFDP_MAX_NAK_RANGES = 4,
     CCSDS_CFDP_MAX_NAK_ROUNDS = 4,
     CCSDS_CFDP_RETRY_INTERVAL_MS = 1000\<rparr>"

text \<open>The Kconfig ranges of the limits.\<close>

definition cfdp_config_ok :: "cfdp_config \<Rightarrow> bool" where
  "cfdp_config_ok cfg \<longleftrightarrow>
     1 \<le> CCSDS_CFDP_MAX_ENTITY_ID_LEN cfg \<and> CCSDS_CFDP_MAX_ENTITY_ID_LEN cfg \<le> 8 \<and>
     1 \<le> CCSDS_CFDP_MAX_TRANS_SEQ_LEN cfg \<and> CCSDS_CFDP_MAX_TRANS_SEQ_LEN cfg \<le> 8 \<and>
     CCSDS_CFDP_MAX_FILENAME_LEN cfg \<le> 255 \<and>
     64 \<le> CCSDS_CFDP_MAX_PDU_SIZE cfg \<and> CCSDS_CFDP_MAX_PDU_SIZE cfg \<le> 65535 \<and>
     1 \<le> CCSDS_CFDP_MAX_SEGMENT_SIZE cfg \<and> CCSDS_CFDP_MAX_SEGMENT_SIZE cfg \<le> 65535 \<and>
     1 \<le> CCSDS_CFDP_MAX_NAK_RANGES cfg \<and> CCSDS_CFDP_MAX_NAK_RANGES cfg \<le> 64 \<and>
     1 \<le> CCSDS_CFDP_MAX_NAK_ROUNDS cfg \<and> CCSDS_CFDP_MAX_NAK_ROUNDS cfg \<le> 255"

lemma cfdp_config_ok_default: "cfdp_config_ok default_cfdp_config"
  by (simp add: cfdp_config_ok_def default_cfdp_config_def)

end
