(* ===== verification/Cfdp_Ranges.thy ===== *)
theory Cfdp_Ranges
  imports Cfdp_Types
begin

text \<open>
  Received-range tracking of CFDP (\<^verbatim>\<open>src/ccsds_cfdp_ranges.c\<close>, \<^verbatim>\<open>ccsds_cfdp_ranges.h\<close>).  The
  state keeps the C layout: an array of \<^verbatim>\<open>CCSDS_CFDP_MAX_NAK_RANGES\<close> entries of which the
  first \<open>count\<close> are live, changed in place by the insertion and removal loops.  The abstract
  view is the set of file offsets the live ranges cover.
\<close>

section \<open>The code\<close>

record ccsds_cfdp_range =
  rstart :: u32
  rend :: u32

record ccsds_cfdp_ranges =
  ranges :: "ccsds_cfdp_range list"
  count :: nat

definition range_is_valid :: "u32 \<Rightarrow> u32 \<Rightarrow> bool" where
  "range_is_valid s e \<longleftrightarrow> s < e"

definition ccsds_cfdp_ranges_init :: "cfdp_config \<Rightarrow> ccsds_cfdp_ranges" where
  "ccsds_cfdp_ranges_init cfg =
     \<lparr>ranges = replicate (CCSDS_CFDP_MAX_NAK_RANGES cfg) \<lparr>rstart = 0, rend = 0\<rparr>, count = 0\<rparr>"

text \<open>The loops of the insertion, each on the array and the loop's own variables.\<close>

function find_first :: "ccsds_cfdp_range list \<Rightarrow> nat \<Rightarrow> u32 \<Rightarrow> nat \<Rightarrow> nat" where
  "find_first a n s i = (if i < n \<and> rend (a ! i) < s then find_first a n s (i + 1) else i)"
  by pat_completeness auto
termination by (relation "measure (\<lambda>(a, n, s, i). n - i)") auto

function merge_loop ::
  "ccsds_cfdp_range list \<Rightarrow> nat \<Rightarrow> u32 \<Rightarrow> nat \<Rightarrow> u32 \<Rightarrow> u32 \<Rightarrow> nat \<times> u32 \<times> u32" where
  "merge_loop a n e i merged_start merged_end =
     (if i < n \<and> rstart (a ! i) \<le> e then
        let ms = (if rstart (a ! i) < merged_start then rstart (a ! i) else merged_start);
            me = (if rend (a ! i) > merged_end then rend (a ! i) else merged_end)
        in merge_loop a n e (i + 1) ms me
      else (i, merged_start, merged_end))"
  by pat_completeness auto
termination by (relation "measure (\<lambda>(a, n, e, i, ms, me). n - i)") auto

function shift_up :: "'r list \<Rightarrow> nat \<Rightarrow> nat \<Rightarrow> 'r list" where
  "shift_up a first i = (if i > first then shift_up (a[i := a ! (i - 1)]) first (i - 1) else a)"
  by pat_completeness auto
termination by (relation "measure (\<lambda>(a, first, i). i - first)") auto

function shift_down :: "'r list \<Rightarrow> nat \<Rightarrow> nat \<Rightarrow> nat \<Rightarrow> nat \<Rightarrow> 'r list" where
  "shift_down a first lst n i =
     (if i < n then shift_down (a[first + 1 + i - lst := a ! i]) first lst n (i + 1) else a)"
  by pat_completeness auto
termination by (relation "measure (\<lambda>(a, first, lst, n, i). n - i)") auto

declare find_first.simps [simp del] merge_loop.simps [simp del] shift_up.simps [simp del]
  shift_down.simps [simp del]

definition ccsds_cfdp_ranges_add ::
  "cfdp_config \<Rightarrow> ccsds_cfdp_ranges \<Rightarrow> u32 \<Rightarrow> u32 \<Rightarrow> ccsds_cfdp_status \<times> ccsds_cfdp_ranges" where
  "ccsds_cfdp_ranges_add cfg state s e =
     (if \<not> range_is_valid s e \<or> count state > CCSDS_CFDP_MAX_NAK_RANGES cfg
      then (CCSDS_CFDP_STATUS_INVALID_ARGUMENT, state)
      else
        let first = find_first (ranges state) (count state) s 0;
            (lst, merged_start, merged_end) = merge_loop (ranges state) (count state) e first s e;
            remove_count = lst - first
        in if remove_count = 0 \<and> count state = CCSDS_CFDP_MAX_NAK_RANGES cfg
           then (CCSDS_CFDP_STATUS_BUFFER_TOO_SMALL, state)
           else
             let (a, n) =
               (if remove_count = 0
                then (shift_up (ranges state) first (count state), count state + 1)
                else if remove_count > 1
                then (shift_down (ranges state) first lst (count state) lst,
                      count state - (remove_count - 1))
                else (ranges state, count state))
             in (CCSDS_CFDP_STATUS_OK,
                 \<lparr>ranges = a[first := \<lparr>rstart = merged_start, rend = merged_end\<rparr>], count = n\<rparr>))"

function complete_loop :: "ccsds_cfdp_range list \<Rightarrow> nat \<Rightarrow> u32 \<Rightarrow> u32 \<Rightarrow> nat \<Rightarrow> bool" where
  "complete_loop a n s e i =
     (if i < n then
        if rstart (a ! i) > s then False
        else if rstart (a ! i) \<le> s \<and> rend (a ! i) \<ge> e then True
        else complete_loop a n s e (i + 1)
      else False)"
  by pat_completeness auto
termination by (relation "measure (\<lambda>(a, n, s, e, i). n - i)") auto

declare complete_loop.simps [simp del]

definition ccsds_cfdp_ranges_is_complete ::
  "cfdp_config \<Rightarrow> ccsds_cfdp_ranges \<Rightarrow> u32 \<Rightarrow> u32 \<Rightarrow> ccsds_cfdp_status + bool" where
  "ccsds_cfdp_ranges_is_complete cfg state s e =
     (if \<not> range_is_valid s e \<or> count state > CCSDS_CFDP_MAX_NAK_RANGES cfg
      then Inl CCSDS_CFDP_STATUS_INVALID_ARGUMENT
      else Inr (complete_loop (ranges state) (count state) s e 0))"

text \<open>The gap loop: from index \<open>i\<close> and \<open>cursor\<close>, with the list \<open>missing\<close> built so far.\<close>

function missing_loop ::
  "cfdp_config \<Rightarrow> ccsds_cfdp_range list \<Rightarrow> nat \<Rightarrow> u32 \<Rightarrow> nat \<Rightarrow> u32 \<Rightarrow> ccsds_cfdp_ranges \<Rightarrow>
     ccsds_cfdp_status + u32 \<times> ccsds_cfdp_ranges" where
  "missing_loop cfg a n e i cursor missing =
     (if i < n \<and> cursor < e then
        let received = a ! i in
        if rend received \<le> cursor then missing_loop cfg a n e (i + 1) cursor missing
        else if rstart received \<ge> e then Inr (cursor, missing)
        else
          let (status, missing') =
            (if rstart received > cursor
             then ccsds_cfdp_ranges_add cfg missing cursor
                    (if rstart received < e then rstart received else e)
             else (CCSDS_CFDP_STATUS_OK, missing))
          in if status \<noteq> CCSDS_CFDP_STATUS_OK then Inl status
             else missing_loop cfg a n e (i + 1)
                    (if rend received > cursor then rend received else cursor) missing'
      else Inr (cursor, missing))"
  by pat_completeness auto
termination by (relation "measure (\<lambda>(cfg, a, n, e, i, cursor, missing). n - i)") auto

declare missing_loop.simps [simp del]

definition ccsds_cfdp_ranges_missing ::
  "cfdp_config \<Rightarrow> ccsds_cfdp_ranges \<Rightarrow> u32 \<Rightarrow> u32 \<Rightarrow> ccsds_cfdp_status + ccsds_cfdp_ranges" where
  "ccsds_cfdp_ranges_missing cfg state s e =
     (if \<not> range_is_valid s e \<or> count state > CCSDS_CFDP_MAX_NAK_RANGES cfg
      then Inl CCSDS_CFDP_STATUS_INVALID_ARGUMENT
      else case missing_loop cfg (ranges state) (count state) e 0 s (ccsds_cfdp_ranges_init cfg) of
        Inl status \<Rightarrow> Inl status
      | Inr (cursor, missing) \<Rightarrow>
          if cursor < e then
            (case ccsds_cfdp_ranges_add cfg missing cursor e of
               (status, missing') \<Rightarrow>
                 if status \<noteq> CCSDS_CFDP_STATUS_OK then Inl status else Inr missing')
          else Inr missing)"

section \<open>The abstract view\<close>

definition live :: "ccsds_cfdp_ranges \<Rightarrow> ccsds_cfdp_range list" where
  "live state = take (count state) (ranges state)"

definition span :: "ccsds_cfdp_range \<Rightarrow> u32 set" where
  "span r = {rstart r ..< rend r}"

definition covered :: "ccsds_cfdp_range list \<Rightarrow> u32 set" where
  "covered rs = (\<Union>r\<in>set rs. span r)"

text \<open>Sorted and normalised: nonempty ranges, each ending strictly before the next begins.\<close>

definition normal :: "ccsds_cfdp_range list \<Rightarrow> bool" where
  "normal rs \<longleftrightarrow> (\<forall>r\<in>set rs. rstart r < rend r) \<and> sorted_wrt (\<lambda>a b. rend a < rstart b) rs"

definition ranges_inv :: "cfdp_config \<Rightarrow> ccsds_cfdp_ranges \<Rightarrow> bool" where
  "ranges_inv cfg state \<longleftrightarrow>
     length (ranges state) = CCSDS_CFDP_MAX_NAK_RANGES cfg \<and>
     count state \<le> CCSDS_CFDP_MAX_NAK_RANGES cfg \<and> normal (live state)"

section \<open>The loops on lists\<close>

fun merge_list :: "ccsds_cfdp_range list \<Rightarrow> u32 \<Rightarrow> u32 \<Rightarrow> u32 \<times> u32" where
  "merge_list [] ms me = (ms, me)"
| "merge_list (r # rs) ms me = merge_list rs (min (rstart r) ms) (max (rend r) me)"

lemma drop_take_Cons: "i < n \<Longrightarrow> n \<le> length a \<Longrightarrow> drop i (take n a) = a ! i # drop (Suc i) (take n a)"
  by (metis Cons_nth_drop_Suc length_take min.absorb2 nth_take)

lemma find_first_eq:
  "n \<le> length a \<Longrightarrow> i \<le> n \<Longrightarrow>
     find_first a n s i = i + length (takeWhile (\<lambda>r. rend r < s) (drop i (take n a)))"
proof (induction a n s i rule: find_first.induct)
  case (1 a n s i)
  show ?case
  proof (cases "i < n")
    case True
    with 1 show ?thesis by (subst find_first.simps) (simp add: drop_take_Cons)
  next
    case False
    with 1 show ?thesis by (subst find_first.simps) simp
  qed
qed

lemma merge_loop_eq:
  "n \<le> length a \<Longrightarrow> i \<le> n \<Longrightarrow> ys = takeWhile (\<lambda>r. rstart r \<le> e) (drop i (take n a)) \<Longrightarrow>
     merge_loop a n e i ms me = (i + length ys, merge_list ys ms me)"
proof (induction a n e i ms me arbitrary: ys rule: merge_loop.induct)
  case (1 a n e i ms me)
  have minmax: "(if rstart (a ! i) < ms then rstart (a ! i) else ms) = min (rstart (a ! i)) ms"
    "(if me < rend (a ! i) then rend (a ! i) else me) = max (rend (a ! i)) me"
    by (auto simp: min_def max_def)
  show ?case
  proof (cases "i < n \<and> rstart (a ! i) \<le> e")
    case True
    with 1 show ?thesis by (subst merge_loop.simps) (simp add: drop_take_Cons minmax Let_def)
  next
    case False
    then have "ys = []" using 1 by (cases "i < n") (auto simp: drop_take_Cons)
    with False show ?thesis by (subst merge_loop.simps) auto
  qed
qed

lemma length_shift_up [simp]: "length (shift_up a first i) = length a"
  by (induction a first i rule: shift_up.induct) (subst shift_up.simps, simp)

lemma shift_up_nth:
  "i < length a \<Longrightarrow> k < length a \<Longrightarrow>
     shift_up a first i ! k = (if first < k \<and> k \<le> i then a ! (k - 1) else a ! k)"
proof (induction a first i rule: shift_up.induct)
  case (1 a first i)
  show ?case
  proof (cases "i > first")
    case True
    with 1 show ?thesis by (subst shift_up.simps) (auto simp: nth_list_update)
  next
    case False
    with 1 show ?thesis by (subst shift_up.simps) auto
  qed
qed

lemma length_shift_down [simp]: "length (shift_down a first lst n i) = length a"
  by (induction a first lst n i rule: shift_down.induct) (subst shift_down.simps, simp)

lemma shift_down_nth:
  "n \<le> length a \<Longrightarrow> first + 1 < lst \<Longrightarrow> lst \<le> i \<Longrightarrow> i \<le> n \<Longrightarrow> k < length a \<Longrightarrow>
     shift_down a first lst n i ! k =
       (if first + 1 + i - lst \<le> k \<and> k < first + 1 + n - lst then a ! (k + lst - (first + 1)) else a ! k)"
proof (induction a first lst n i rule: shift_down.induct)
  case (1 a first lst n i)
  show ?case
  proof (cases "i < n")
    case True
    with 1 have "shift_down a first lst n i ! k =
      (let b = a[first + 1 + i - lst := a ! i] in
       if first + 1 + (i + 1) - lst \<le> k \<and> k < first + 1 + n - lst then b ! (k + lst - (first + 1)) else b ! k)"
      by (subst shift_down.simps) (simp add: Let_def)
    also have "\<dots> = (if first + 1 + i - lst \<le> k \<and> k < first + 1 + n - lst
        then a ! (k + lst - (first + 1)) else a ! k)"
      using True 1(2-) by (auto simp: nth_list_update Let_def)
    finally show ?thesis .
  next
    case False
    with 1 show ?thesis by (subst shift_down.simps) auto
  qed
qed

section \<open>Insertion\<close>

text \<open>The insertion on the list of live ranges: those before, those merged, those behind.\<close>

definition before :: "u32 \<Rightarrow> ccsds_cfdp_range list \<Rightarrow> ccsds_cfdp_range list" where
  "before s rs = takeWhile (\<lambda>r. rend r < s) rs"

definition touching :: "u32 \<Rightarrow> u32 \<Rightarrow> ccsds_cfdp_range list \<Rightarrow> ccsds_cfdp_range list" where
  "touching s e rs = takeWhile (\<lambda>r. rstart r \<le> e) (drop (length (before s rs)) rs)"

definition behind :: "u32 \<Rightarrow> u32 \<Rightarrow> ccsds_cfdp_range list \<Rightarrow> ccsds_cfdp_range list" where
  "behind s e rs = drop (length (before s rs) + length (touching s e rs)) rs"

definition merged :: "u32 \<Rightarrow> u32 \<Rightarrow> ccsds_cfdp_range list \<Rightarrow> ccsds_cfdp_range" where
  "merged s e rs = (case merge_list (touching s e rs) s e of (ms, me) \<Rightarrow> \<lparr>rstart = ms, rend = me\<rparr>)"

lemma before_eq: "before s rs = take (length (before s rs)) rs"
  unfolding before_def by (rule takeWhile_eq_take)

lemma touching_eq: "touching s e rs = take (length (touching s e rs)) (drop (length (before s rs)) rs)"
  unfolding touching_def by (rule takeWhile_eq_take)

lemma insertion_split: "rs = before s rs @ touching s e rs @ behind s e rs"
proof -
  have "drop (length (before s rs)) rs = touching s e rs @ behind s e rs"
    unfolding behind_def
    by (metis add.commute append_take_drop_id drop_drop touching_eq)
  then show ?thesis by (metis append_take_drop_id before_eq)
qed

lemma insertion_parts:
  assumes "normal rs" "s < e"
  shows "x \<in> set (before s rs) \<Longrightarrow> rend x < s"
    and "x \<in> set (touching s e rs) \<Longrightarrow> rstart x \<le> e \<and> s \<le> rend x"
    and "x \<in> set (behind s e rs) \<Longrightarrow> e < rstart x"
proof -
  show "x \<in> set (before s rs) \<Longrightarrow> rend x < s" by (auto simp: before_def dest: set_takeWhileD)
  have split: "drop (length (before s rs)) rs = touching s e rs @ behind s e rs"
    using insertion_split [of rs s e] by (metis append_eq_conv_conj)
  have drop_eq: "drop (length (before s rs)) rs = dropWhile (\<lambda>r. rend r < s) rs"
    unfolding before_def by (rule dropWhile_eq_drop [symmetric])
  have sorted: "normal (drop (length (before s rs)) rs)"
    using assms(1) set_drop_subset by (auto simp: normal_def sorted_wrt_drop dest: in_set_dropD)
  have ge: "s \<le> rend y" if y: "y \<in> set (drop (length (before s rs)) rs)" for y
  proof (cases "drop (length (before s rs)) rs")
    case (Cons h t)
    then have "s \<le> rend h" using drop_eq hd_dropWhile [of "\<lambda>r. rend r < s" rs] by (simp add: not_less)
    moreover have "y = h \<or> rend h < rstart y \<and> rstart y < rend y" using sorted Cons y by (auto simp: normal_def)
    ultimately show ?thesis by auto
  qed (use y in simp)
  show "rstart x \<le> e \<and> s \<le> rend x" if "x \<in> set (touching s e rs)"
  proof -
    from that have "x \<in> set (drop (length (before s rs)) rs) \<and> rstart x \<le> e"
      unfolding touching_def by (rule set_takeWhileD)
    with ge [of x] show ?thesis by blast
  qed
  have behind_eq: "behind s e rs = dropWhile (\<lambda>r. rstart r \<le> e) (drop (length (before s rs)) rs)"
    using split unfolding touching_def by (metis same_append_eq takeWhile_dropWhile_id)
  have "normal (behind s e rs)" using sorted split by (auto simp: normal_def sorted_wrt_append)
  then show "e < rstart x" if x: "x \<in> set (behind s e rs)"
  proof (cases "behind s e rs")
    case (Cons h t)
    then have "e < rstart h" using behind_eq hd_dropWhile by (metis list.distinct(1) list.sel(1) not_less)
    moreover have "x = h \<or> rend h < rstart x \<and> rstart h < rend h"
      using \<open>normal (behind s e rs)\<close> Cons x by (auto simp: normal_def)
    ultimately show ?thesis by auto
  qed (use x in simp)
qed

lemma merge_list_bounds:
  "merge_list ys ms me = (ms', me') \<Longrightarrow>
     (ms' = ms \<or> (\<exists>y\<in>set ys. ms' = rstart y)) \<and> (me' = me \<or> (\<exists>y\<in>set ys. me' = rend y)) \<and>
     ms' \<le> ms \<and> me \<le> me'"
  by (induction ys arbitrary: ms me) (fastforce simp: min_def max_def split: if_splits)+

lemma span_union:
  "a \<le> d \<Longrightarrow> c \<le> b \<Longrightarrow> a < b \<Longrightarrow> c < d \<Longrightarrow> {min a c ..< max b d} = {a ..< b} \<union> {c ..< (d :: u32)}"
  by (auto simp: min_def max_def)

lemma merge_list_covers:
  assumes "\<forall>y\<in>set ys. rstart y \<le> e \<and> s \<le> rend y \<and> rstart y < rend y" "ms \<le> s" "s < e" "e \<le> me"
  shows "(case merge_list ys ms me of (ms', me') \<Rightarrow> {ms' ..< me'}) = {ms ..< me} \<union> covered ys"
  using assms
proof (induction ys arbitrary: ms me)
  case (Cons y ys)
  have "{min (rstart y) ms ..< max (rend y) me} = {rstart y ..< rend y} \<union> {ms ..< me}"
    using Cons.prems by (intro span_union) auto
  with Cons show ?case by (auto simp: covered_def span_def min.coboundedI2 max.coboundedI2)
qed (simp add: covered_def)

lemma covered_append: "covered (xs @ ys) = covered xs \<union> covered ys"
  by (simp add: covered_def)

lemma insertion_covers:
  assumes "normal rs" "s < e"
  shows "covered (before s rs @ merged s e rs # behind s e rs) = covered rs \<union> {s ..< e}"
proof -
  have "\<forall>y\<in>set (touching s e rs). rstart y \<le> e \<and> s \<le> rend y \<and> rstart y < rend y"
    using insertion_parts(2) [OF assms] assms(1) insertion_split [of rs s e] unfolding normal_def
    by (metis Un_iff set_append)
  from merge_list_covers [OF this order_refl assms(2) order_refl]
  have "span (merged s e rs) = {s ..< e} \<union> covered (touching s e rs)"
    by (simp add: merged_def span_def split: prod.splits)
  moreover have "covered rs = covered (before s rs) \<union> covered (touching s e rs) \<union> covered (behind s e rs)"
    by (subst insertion_split [of rs s e]) (simp add: covered_append Un_assoc)
  ultimately show ?thesis by (auto simp: covered_def)
qed

lemma insertion_normal:
  assumes "normal rs" "s < e"
  shows "normal (before s rs @ merged s e rs # behind s e rs)"
proof -
  obtain ms me where m: "merge_list (touching s e rs) s e = (ms, me)" by fastforce
  note b = merge_list_bounds [OF m]
  have n: "normal (before s rs @ touching s e rs @ behind s e rs)"
    using assms(1) insertion_split [of rs s e] by simp
  then have sep: "rend x < rstart y" if "x \<in> set (before s rs)" "y \<in> set (touching s e rs)" for x y
    using that by (auto simp: normal_def sorted_wrt_append)
  have sep': "rend x < rstart y" if "x \<in> set (touching s e rs)" "y \<in> set (behind s e rs)" for x y
    using n that by (auto simp: normal_def sorted_wrt_append)
  have "rend x < ms" if "x \<in> set (before s rs)" for x
    using b insertion_parts(1) [OF assms that] sep [OF that] by blast
  moreover have "me < rstart y" if "y \<in> set (behind s e rs)" for y
    using b insertion_parts(3) [OF assms that] sep' [OF _ that] by blast
  moreover have "ms < me" using b assms(2) by auto
  ultimately show ?thesis
    using n by (auto simp: normal_def sorted_wrt_append merged_def m)
qed

section \<open>The array operations on the live list\<close>

text \<open>Overwriting slot \<open>first\<close> after each of the three moves leaves the spliced list.\<close>

lemma splice_insert:
  assumes "n < length a" "f \<le> n"
  shows "take (n + 1) ((shift_up a f n)[f := m]) = take f (take n a) @ m # drop f (take n a)"
  using assms
  by (intro nth_equalityI) (auto simp: nth_append nth_list_update shift_up_nth nth_Cons' intro!: arg_cong [where f = "nth a"])

lemma splice_replace:
  assumes "n \<le> length a" "f < n"
  shows "take n (a[f := m]) = take f (take n a) @ m # drop (f + 1) (take n a)"
  using assms by (simp add: upd_conv_take_nth_drop take_update_swap flip: take_take) (auto simp: min_def take_Cons' drop_take)

lemma splice_remove:
  assumes "n \<le> length a" "f + 1 < l" "l \<le> n"
  shows "take (n - (l - f - 1)) ((shift_down a f l n l)[f := m]) =
    take f (take n a) @ m # drop l (take n a)"
  using assms
  by (intro nth_equalityI)
    (auto simp: nth_append nth_list_update shift_down_nth nth_Cons' intro!: arg_cong [where f = "nth a"])

lemma ranges_add_eq:
  assumes inv: "ranges_inv cfg state" and "s < e"
  defines "rs \<equiv> live state"
  shows "if touching s e rs = [] \<and> count state = CCSDS_CFDP_MAX_NAK_RANGES cfg
    then ccsds_cfdp_ranges_add cfg state s e = (CCSDS_CFDP_STATUS_BUFFER_TOO_SMALL, state)
    else \<exists>state'. ccsds_cfdp_ranges_add cfg state s e = (CCSDS_CFDP_STATUS_OK, state') \<and>
      live state' = before s rs @ merged s e rs # behind s e rs \<and>
      length (ranges state') = CCSDS_CFDP_MAX_NAK_RANGES cfg \<and>
      count state' \<le> CCSDS_CFDP_MAX_NAK_RANGES cfg"
proof -
  let ?a = "ranges state" and ?n = "count state" and ?cap = "CCSDS_CFDP_MAX_NAK_RANGES cfg"
  define f where "f = length (before s rs)"
  define l where "l = f + length (touching s e rs)"
  obtain ms me where m: "merge_list (touching s e rs) s e = (ms, me)" by fastforce
  have len: "length ?a = ?cap" "?n \<le> ?cap" and rs: "rs = take ?n ?a" "length rs = ?n"
    using inv by (simp_all add: ranges_inv_def rs_def live_def)
  have "length rs = f + length (touching s e rs) + length (behind s e rs)"
    by (subst insertion_split [of rs s e]) (simp add: f_def)
  then have bounds: "f \<le> l" "l \<le> ?n" using rs(2) by (simp_all add: l_def)
  have ff: "find_first ?a ?n s 0 = f"
    using find_first_eq [of ?n ?a 0 s] len by (simp add: f_def before_def rs(1))
  have ml: "merge_loop ?a ?n e f s e = (l, ms, me)"
    using merge_loop_eq [of ?n ?a f "touching s e rs" e s e] len bounds m
    by (simp add: l_def touching_def f_def rs(1))
  have parts: "take f rs = before s rs" "drop l rs = behind s e rs" "merged s e rs = \<lparr>rstart = ms, rend = me\<rparr>"
    using before_eq [of s rs] by (simp_all add: f_def l_def behind_def merged_def m)
  let ?m = "\<lparr>rstart = ms, rend = me\<rparr>"
  have add: "ccsds_cfdp_ranges_add cfg state s e =
    (if l = f \<and> ?n = ?cap then (CCSDS_CFDP_STATUS_BUFFER_TOO_SMALL, state)
     else if l = f then (CCSDS_CFDP_STATUS_OK, \<lparr>ranges = (shift_up ?a f ?n)[f := ?m], count = ?n + 1\<rparr>)
     else if f + 1 < l
     then (CCSDS_CFDP_STATUS_OK, \<lparr>ranges = (shift_down ?a f l ?n l)[f := ?m], count = ?n - (l - f - 1)\<rparr>)
     else (CCSDS_CFDP_STATUS_OK, \<lparr>ranges = ?a[f := ?m], count = ?n\<rparr>))"
    using assms(2) len(2) bounds(1) by (auto simp: ccsds_cfdp_ranges_add_def range_is_valid_def ff ml Let_def)
  have empty: "touching s e rs = [] \<longleftrightarrow> l = f" by (simp add: l_def)
  consider (full) "l = f" "?n = ?cap" | (insert) "l = f" "?n < ?cap" | (one) "l = f + 1" | (many) "f + 1 < l"
    using bounds len by linarith
  then show ?thesis
  proof cases
    case full
    then show ?thesis by (simp add: add empty)
  next
    case insert
    with splice_insert [of ?n ?a f ?m] bounds len parts show ?thesis
      unfolding add empty by (simp add: live_def flip: rs(1))
  next
    case one
    with splice_replace [of ?n ?a f ?m] bounds len parts show ?thesis
      unfolding add empty by (simp add: live_def flip: rs(1))
  next
    case many
    with splice_remove [of ?n ?a f l ?m] bounds len parts show ?thesis
      unfolding add empty by (simp add: live_def flip: rs(1))
  qed
qed

lemma ranges_add_inv:
  assumes "ranges_inv cfg state"
  shows "ranges_inv cfg (snd (ccsds_cfdp_ranges_add cfg state s e))"
proof (cases "s < e")
  case True
  then show ?thesis
    using ranges_add_eq [OF assms True] assms insertion_normal [of "live state" s e]
    by (auto simp: ranges_inv_def split: if_splits)
next
  case False
  with assms show ?thesis by (simp add: ccsds_cfdp_ranges_add_def range_is_valid_def)
qed

lemma ranges_add_covered:
  assumes "ranges_inv cfg state" "s < e"
  shows "ccsds_cfdp_ranges_add cfg state s e = (CCSDS_CFDP_STATUS_BUFFER_TOO_SMALL, state) \<and>
      count state = CCSDS_CFDP_MAX_NAK_RANGES cfg \<or>
    (\<exists>state'. ccsds_cfdp_ranges_add cfg state s e = (CCSDS_CFDP_STATUS_OK, state') \<and>
      covered (live state') = covered (live state) \<union> {s ..< e})"
  using ranges_add_eq [OF assms] insertion_covers [of "live state" s e] assms
  by (auto simp: ranges_inv_def split: if_splits)

lemma ranges_init_inv: "ranges_inv cfg (ccsds_cfdp_ranges_init cfg)"
  by (simp add: ranges_inv_def ccsds_cfdp_ranges_init_def live_def normal_def)

lemma ranges_init_live: "live (ccsds_cfdp_ranges_init cfg) = []"
  by (simp add: ccsds_cfdp_ranges_init_def live_def)

section \<open>Completeness and gaps\<close>

lemma normal_Cons:
  "normal (r # rs) \<longleftrightarrow> rstart r < rend r \<and> (\<forall>x\<in>set rs. rend r < rstart x) \<and> normal rs"
  by (auto simp: normal_def)

lemma complete_loop_eq:
  "n \<le> length a \<Longrightarrow> normal (drop i (take n a)) \<Longrightarrow>
     complete_loop a n s e i \<longleftrightarrow> (\<exists>r\<in>set (drop i (take n a)). rstart r \<le> s \<and> e \<le> rend r)"
proof (induction a n s e i rule: complete_loop.induct)
  case (1 a n s e i)
  show ?case
  proof (cases "i < n")
    case True
    with 1 have d: "drop i (take n a) = a ! i # drop (Suc i) (take n a)" by (simp add: drop_take_Cons)
    then have n: "normal (drop (Suc i) (take n a))" "rstart (a ! i) < rend (a ! i)"
      "\<forall>x\<in>set (drop (Suc i) (take n a)). rend (a ! i) < rstart x"
      using 1(3) by (simp_all add: normal_Cons)
    have "s < rstart (a ! i) \<Longrightarrow> \<forall>x\<in>set (drop (Suc i) (take n a)). s < rstart x"
      using n(2,3) by (meson order.strict_trans)
    with 1(1) [OF True] 1(2) True n(1) show ?thesis
      unfolding d by (subst complete_loop.simps) (auto simp: not_less dest: leD)
  next
    case False
    then show ?thesis by (subst complete_loop.simps) simp
  qed
qed

lemma normal_covers_interval:
  assumes "normal rs" "s < e"
  shows "(\<exists>r\<in>set rs. rstart r \<le> s \<and> e \<le> rend r) \<longleftrightarrow> {s ..< e} \<subseteq> covered rs"
proof
  assume sub: "{s ..< e} \<subseteq> covered rs"
  have "s \<in> covered rs" using sub assms(2) by auto
  then obtain r where r: "r \<in> set rs" "rstart r \<le> s" "s < rend r" by (auto simp: covered_def span_def)
  have "e \<le> rend r"
  proof (rule ccontr)
    assume "\<not> e \<le> rend r"
    then have "rend r \<in> covered rs" using sub r by (intro subsetD [OF sub]) auto
    then obtain q where q: "q \<in> set rs" "rstart q \<le> rend r" "rend r < rend q"
      by (auto simp: covered_def span_def)
    then have "q \<noteq> r" by auto
    moreover have "rend r < rstart q \<or> rend q < rstart r \<or> q = r"
      using assms(1) r(1) q(1) unfolding normal_def by (auto simp: sorted_wrt_iff_nth_less in_set_conv_nth) (metis linorder_neqE_nat)
    ultimately show False using q r by auto
  qed
  with r show "\<exists>r\<in>set rs. rstart r \<le> s \<and> e \<le> rend r" by blast
qed (force simp: covered_def span_def)

lemma ranges_add_ok:
  assumes "ranges_inv cfg state" "s < e"
    and "ccsds_cfdp_ranges_add cfg state s e = (CCSDS_CFDP_STATUS_OK, state')"
  shows "ranges_inv cfg state' \<and> count state' \<le> count state + 1 \<and>
    covered (live state') = covered (live state) \<union> {s ..< e}"
proof -
  have inv': "ranges_inv cfg state'" using ranges_add_inv [OF assms(1), of s e] assms(3) by simp
  have l: "live state' = before s (live state) @ merged s e (live state) # behind s e (live state)"
    using ranges_add_eq [OF assms(1,2)] assms(3) by (auto split: if_splits)
  have "count state = length (live state)" "count state' = length (live state')"
    using assms(1) inv' by (simp_all add: live_def ranges_inv_def)
  moreover have "length (live state) = length (before s (live state)) + length (touching s e (live state)) +
      length (behind s e (live state))"
    by (subst insertion_split [of "live state" s e]) simp
  ultimately have "count state' \<le> count state + 1" using l by simp
  with inv' ranges_add_covered [OF assms(1,2)] assms(3) show ?thesis by auto
qed

lemma ranges_add_fail:
  assumes "ranges_inv cfg state" "s < e" "ccsds_cfdp_ranges_add cfg state s e = (status, state')"
    and "status \<noteq> CCSDS_CFDP_STATUS_OK"
  shows "status = CCSDS_CFDP_STATUS_BUFFER_TOO_SMALL \<and> state' = state \<and>
    count state = CCSDS_CFDP_MAX_NAK_RANGES cfg"
  using ranges_add_covered [OF assms(1,2)] assms(3,4) by auto

lemma gap_step:
  assumes "normal (r # rs)" "cursor < rend r" "rstart r < e"
  shows "{cursor ..< e} - covered (r # rs) =
    {cursor ..< rstart r} \<union> ({rend r ..< e} - covered rs)"
  using assms by (force simp: covered_def span_def normal_Cons not_less not_le)

lemma gap_skip:
  "rend r \<le> cursor \<Longrightarrow> {cursor ..< e} - covered (r # rs) = {cursor ..< e} - covered rs"
  by (auto simp: covered_def span_def)

lemma gap_stop:
  assumes "normal (r # rs)" "e \<le> rstart r"
  shows "{cursor ..< e} - covered (r # rs) = {cursor ..< e}"
proof -
  have "e \<le> rstart x" if "x \<in> set (r # rs)" for x
    using that assms by (auto simp: normal_Cons)
  then show ?thesis by (fastforce simp: covered_def span_def)
qed

text \<open>The branches of the gap loop.\<close>

lemma missing_loop_cases:
  "n \<le> i \<or> e \<le> cursor \<Longrightarrow> missing_loop cfg a n e i cursor missing = Inr (cursor, missing)"
  "i < n \<Longrightarrow> cursor < e \<Longrightarrow> rend (a ! i) \<le> cursor \<Longrightarrow>
     missing_loop cfg a n e i cursor missing = missing_loop cfg a n e (Suc i) cursor missing"
  "i < n \<Longrightarrow> cursor < e \<Longrightarrow> cursor < rend (a ! i) \<Longrightarrow> e \<le> rstart (a ! i) \<Longrightarrow>
     missing_loop cfg a n e i cursor missing = Inr (cursor, missing)"
  "i < n \<Longrightarrow> cursor < e \<Longrightarrow> cursor < rend (a ! i) \<Longrightarrow> rstart (a ! i) \<le> cursor \<Longrightarrow>
     missing_loop cfg a n e i cursor missing = missing_loop cfg a n e (Suc i) (rend (a ! i)) missing"
  "i < n \<Longrightarrow> cursor < rend (a ! i) \<Longrightarrow> rstart (a ! i) < e \<Longrightarrow> cursor < rstart (a ! i) \<Longrightarrow>
     missing_loop cfg a n e i cursor missing =
       (case ccsds_cfdp_ranges_add cfg missing cursor (rstart (a ! i)) of (status, missing') \<Rightarrow>
          if status \<noteq> CCSDS_CFDP_STATUS_OK then Inl status
          else missing_loop cfg a n e (Suc i) (rend (a ! i)) missing')"
  by (auto simp: missing_loop.simps [of cfg a n e i cursor missing] Let_def not_less [symmetric]
      split: prod.splits)

lemma missing_loop_ok:
  assumes "n \<le> length a" "i \<le> n" "rs = drop i (take n a)" "normal rs" "ranges_inv cfg missing"
  shows "(case missing_loop cfg a n e i cursor missing of
      Inl status \<Rightarrow> status = CCSDS_CFDP_STATUS_BUFFER_TOO_SMALL \<and>
        \<not> count missing + (n - i) \<le> CCSDS_CFDP_MAX_NAK_RANGES cfg
    | Inr (cursor', missing') \<Rightarrow> ranges_inv cfg missing' \<and>
        count missing' \<le> count missing + (n - i) \<and>
        covered (live missing') \<union> {cursor' ..< e} = covered (live missing) \<union> ({cursor ..< e} - covered rs))"
  using assms
proof (induction "n - i" arbitrary: i rs cursor missing)
  case 0
  then show ?case by (subst missing_loop.simps) (simp add: covered_def)
next
  case (Suc k)
  then have i: "i < n" by simp
  let ?r = "a ! i" and ?rs = "drop (Suc i) (take n a)"
  have rs: "rs = ?r # ?rs" using Suc.prems i by (simp add: drop_take_Cons)
  then have nrs: "normal ?rs" using Suc.prems by (simp add: normal_Cons)
  note IH = Suc.hyps(1) [OF _ Suc.prems(1) _ refl nrs]
  have k: "k = n - Suc i" "Suc i \<le> n" using Suc.hyps(2) by simp_all
  consider (finished) "e \<le> cursor" | (skip) "cursor < e" "rend ?r \<le> cursor"
    | (stop) "cursor < e" "cursor < rend ?r" "e \<le> rstart ?r"
    | (inside) "cursor < e" "cursor < rend ?r" "rstart ?r < e" "rstart ?r \<le> cursor"
    | (gap) "cursor < e" "cursor < rend ?r" "rstart ?r < e" "cursor < rstart ?r"
    by (meson not_le)
  then show ?case
  proof cases
    case finished
    with Suc.prems show ?thesis by (simp add: missing_loop_cases(1))
  next
    case skip
    with IH [OF k(1,2) Suc.prems(5), of cursor] i show ?thesis
      by (auto simp: missing_loop_cases(2) rs gap_skip split: sum.splits)
  next
    case stop
    with gap_stop [of ?r ?rs e cursor] Suc.prems(4,5) rs i show ?thesis
      by (simp add: missing_loop_cases(3))
  next
    case inside
    with gap_step [of ?r ?rs cursor e] Suc.prems(4) rs
    have "{cursor ..< e} - covered rs = {rend ?r ..< e} - covered ?rs" by simp
    with inside IH [OF k(1,2) Suc.prems(5), of "rend ?r"] i show ?thesis
      by (auto simp: missing_loop_cases(4) split: sum.splits)
  next
    case gap
    have g: "{cursor ..< e} - covered rs = {cursor ..< rstart ?r} \<union> ({rend ?r ..< e} - covered ?rs)"
      using gap_step [of ?r ?rs cursor e] Suc.prems(4) rs gap by simp
    note step = missing_loop_cases(5) [OF i gap(2,3,4)]
    obtain status missing' where add: "ccsds_cfdp_ranges_add cfg missing cursor (rstart ?r) = (status, missing')"
      by fastforce
    show ?thesis
    proof (cases "status = CCSDS_CFDP_STATUS_OK")
      case True
      note ok = ranges_add_ok [OF Suc.prems(5) gap(4) add [unfolded True]]
      with IH [OF k(1,2), of missing' "rend ?r"] i show ?thesis
        by (simp add: step add True g split: sum.splits) auto
    next
      case False
      with ranges_add_fail [OF Suc.prems(5) gap(4) add] i show ?thesis
        by (simp add: step add)
    qed
  qed
qed

section \<open>The interface: a store of intervals\<close>

text \<open>
  What the receiving entity relies on when it records file segments: an accepted segment
  adds exactly its offsets, a refused one changes nothing.  Over a whole reception the store
  then holds the union of the accepted segments, so the order of arrival and overlaps do not
  matter.
\<close>

locale interval_store =
  fixes add :: "'s \<Rightarrow> u32 \<times> u32 \<Rightarrow> ccsds_cfdp_status \<times> 's"
    and cov :: "'s \<Rightarrow> u32 set" and inv :: "'s \<Rightarrow> bool"
  assumes add_inv: "inv s \<Longrightarrow> inv (snd (add s r))"
    and add_cov: "inv s \<Longrightarrow> add s r = (CCSDS_CFDP_STATUS_OK, s') \<Longrightarrow> cov s' = cov s \<union> {fst r ..< snd r}"
    and add_refused: "inv s \<Longrightarrow> add s r = (st, s') \<Longrightarrow> st \<noteq> CCSDS_CFDP_STATUS_OK \<Longrightarrow> s' = s"
begin

lemma session_store:
  assumes "inv s" "session add s rs = (sts, s')"
  shows "inv s' \<and> length sts = length rs \<and>
    cov s' = cov s \<union> (\<Union>(r, st)\<in>set (zip rs sts). if st = CCSDS_CFDP_STATUS_OK then {fst r ..< snd r} else {})"
  using assms
proof (induction rs arbitrary: s sts)
  case (Cons r rs)
  obtain st s1 where st: "add s r = (st, s1)" by fastforce
  obtain sts1 where sts: "session add s1 rs = (sts1, s')" "sts = st # sts1"
    using Cons.prems(2) st by (auto split: prod.splits)
  have "inv s1" using add_inv [OF Cons.prems(1), of r] st by simp
  from Cons.IH [OF this sts(1)] show ?case
    using add_cov [OF Cons.prems(1), of r s1] add_refused [OF Cons.prems(1) st] st sts(2)
    by (cases "st = CCSDS_CFDP_STATUS_OK") auto
qed simp

lemma session_all_accepted:
  assumes "inv s" "session add s rs = (sts, s')" "\<forall>st\<in>set sts. st = CCSDS_CFDP_STATUS_OK"
  shows "cov s' = cov s \<union> (\<Union>r\<in>set rs. {fst r ..< snd r})"
proof -
  have len: "length sts = length rs" using session_store [OF assms(1,2)] by blast
  have "set rs = fst ` set (zip rs sts)" by (metis len map_fst_zip set_map)
  moreover have "st = CCSDS_CFDP_STATUS_OK" if "(r, st) \<in> set (zip rs sts)" for r st
    using that assms(3) by (auto dest: set_zip_rightD)
  ultimately show ?thesis using session_store [OF assms(1,2)] by (auto 4 3)
qed

end

definition ranges_step ::
  "cfdp_config \<Rightarrow> ccsds_cfdp_ranges \<Rightarrow> u32 \<times> u32 \<Rightarrow> ccsds_cfdp_status \<times> ccsds_cfdp_ranges" where
  "ranges_step cfg state r = ccsds_cfdp_ranges_add cfg state (fst r) (snd r)"

interpretation ranges: interval_store "ranges_step cfg" "\<lambda>s. covered (live s)" "ranges_inv cfg" for cfg
proof unfold_locales
  fix s r st s'
  assume inv: "ranges_inv cfg s"
  then show "ranges_inv cfg (snd (ranges_step cfg s r))" by (simp add: ranges_step_def ranges_add_inv)
  show "covered (live s') = covered (live s) \<union> {fst r ..< snd r}"
    if "ranges_step cfg s r = (CCSDS_CFDP_STATUS_OK, s')"
  proof (cases "fst r < snd r")
    case True
    with that show ?thesis using ranges_add_ok [OF inv True, of s'] by (simp add: ranges_step_def)
  next
    case False
    with that show ?thesis by (simp add: ranges_step_def ccsds_cfdp_ranges_add_def range_is_valid_def)
  qed
  show "s' = s" if "ranges_step cfg s r = (st, s')" "st \<noteq> CCSDS_CFDP_STATUS_OK"
  proof (cases "fst r < snd r")
    case True
    with that show ?thesis using ranges_add_fail [OF inv True, of st s'] by (simp add: ranges_step_def)
  next
    case False
    with that show ?thesis by (simp add: ranges_step_def ccsds_cfdp_ranges_add_def range_is_valid_def)
  qed
qed

section \<open>Properties\<close>

text \<open>
  The insertion: on a normalised state and a nonempty range, either the call succeeds,
  the state stays sorted, disjoint, non-adjacent and within capacity, and its covered offsets
  grow by exactly the new range; or the table is full and no live range overlaps or adjoins
  the new one, the status is \<open>BUFFER_TOO_SMALL\<close> and the state is unchanged.
\<close>

theorem ranges_add_correct:
  assumes "ranges_inv cfg state" "s < e"
  shows "(let full = (count state = CCSDS_CFDP_MAX_NAK_RANGES cfg \<and>
              (\<forall>r\<in>set (live state). rend r < s \<or> e < rstart r))
          in case ccsds_cfdp_ranges_add cfg state s e of (status, state') \<Rightarrow>
               if full then status = CCSDS_CFDP_STATUS_BUFFER_TOO_SMALL \<and> state' = state
               else status = CCSDS_CFDP_STATUS_OK \<and> ranges_inv cfg state' \<and>
                 covered (live state') = covered (live state) \<union> {s ..< e})"
proof -
  have "normal (live state)" using assms(1) by (simp add: ranges_inv_def)
  note parts = insertion_parts [OF this assms(2)]
  have touch: "touching s e (live state) = [] \<longleftrightarrow> (\<forall>r\<in>set (live state). rend r < s \<or> e < rstart r)"
  proof
    assume "touching s e (live state) = []"
    then have "set (live state) = set (before s (live state)) \<union> set (behind s e (live state))"
      using insertion_split [of "live state" s e] by (metis append_Nil set_append)
    then show "\<forall>r\<in>set (live state). rend r < s \<or> e < rstart r" using parts(1,3) by blast
  next
    assume sep: "\<forall>r\<in>set (live state). rend r < s \<or> e < rstart r"
    have "set (touching s e (live state)) \<subseteq> set (live state)"
      using insertion_split [of "live state" s e] by (metis Un_upper1 le_supI2 set_append)
    with sep parts(2) have "set (touching s e (live state)) = {}" by (metis leD subsetD subsetI subset_empty)
    then show "touching s e (live state) = []" by simp
  qed
  show ?thesis
    using ranges_add_eq [OF assms] ranges_add_ok [OF assms]
    by (auto simp: touch Let_def split: if_splits prod.splits)
qed

theorem ranges_add_correct_witness:
  "covered (live (snd (ccsds_cfdp_ranges_add default_cfdp_config
     (ccsds_cfdp_ranges_init default_cfdp_config) 3 9))) = {3 ..< 9}"
  using ranges_add_correct [OF ranges_init_inv, of 3 9 default_cfdp_config]
  by (simp add: Let_def live_def covered_def default_cfdp_config_def
      ccsds_cfdp_ranges_init_def split: prod.splits)

text \<open>
  C18. A whole reception: after any sequence of insertions from the initial state, the
  covered offsets are the union of the accepted ranges, in whatever order and with whatever
  overlaps they arrived, and the state is normalised.
\<close>

theorem ranges_session_covers:
  "case session (ranges_step cfg) (ccsds_cfdp_ranges_init cfg) rs of (sts, state) \<Rightarrow>
     ranges_inv cfg state \<and>
     covered (live state) =
       (\<Union>(r, st)\<in>set (zip rs sts). if st = CCSDS_CFDP_STATUS_OK then {fst r ..< snd r} else {})"
  using ranges.session_store [OF ranges_init_inv] by (auto simp: ranges_init_live covered_def split: prod.splits)

text \<open>
  Completeness: on a normalised state the query answers true exactly when every offset
  of the requested interval is covered.
\<close>

theorem ranges_is_complete_correct:
  assumes "ranges_inv cfg state" "s < e"
  shows "ccsds_cfdp_ranges_is_complete cfg state s e = Inr ({s ..< e} \<subseteq> covered (live state))"
  using assms complete_loop_eq [of "count state" "ranges state" 0 s e]
    normal_covers_interval [of "live state" s e]
  by (simp add: ccsds_cfdp_ranges_is_complete_def range_is_valid_def ranges_inv_def live_def)

theorem ranges_is_complete_correct_witness:
  "ccsds_cfdp_ranges_is_complete default_cfdp_config
     (ccsds_cfdp_ranges_init default_cfdp_config) 3 9 = Inr False"
proof -
  have "\<not> {3 ..< 9 :: u32} \<subseteq> {}" by auto
  then show ?thesis
    using ranges_is_complete_correct [OF ranges_init_inv, of 3 9 default_cfdp_config]
    by (simp add: ranges_init_live covered_def)
qed

text \<open>
  The gaps: when the query for missing data succeeds, the returned list is normalised
  and covers exactly the offsets of the interval that have not been received; it fails only
  for want of room in the output list, and never while the received list has a free slot.
\<close>

theorem ranges_missing_correct:
  assumes "ranges_inv cfg state" "s < e"
  shows "case ccsds_cfdp_ranges_missing cfg state s e of
      Inl status \<Rightarrow> status = CCSDS_CFDP_STATUS_BUFFER_TOO_SMALL \<and>
        count state = CCSDS_CFDP_MAX_NAK_RANGES cfg
    | Inr missing \<Rightarrow> ranges_inv cfg missing \<and>
        covered (live missing) = {s ..< e} - covered (live state)"
proof -
  have st: "count state \<le> length (ranges state)" "count state \<le> CCSDS_CFDP_MAX_NAK_RANGES cfg" "normal (live state)"
    using assms(1) by (simp_all add: ranges_inv_def)
  have c0: "count (ccsds_cfdp_ranges_init cfg) = 0" by (simp add: ccsds_cfdp_ranges_init_def)
  have live0: "live state = drop 0 (take (count state) (ranges state))" by (simp add: live_def)
  note loop = missing_loop_ok [OF st(1) le0 live0 st(3) ranges_init_inv, of cfg e s]
  show ?thesis
  proof (cases "missing_loop cfg (ranges state) (count state) e 0 s (ccsds_cfdp_ranges_init cfg)")
    case (Inl status)
    with loop st(2) c0 show ?thesis by simp
  next
    case (Inr p)
    obtain cursor m where p: "p = (cursor, m)" by fastforce
    have m: "ranges_inv cfg m" "count m \<le> count state"
      "covered (live m) \<union> {cursor ..< e} = {s ..< e} - covered (live state)"
      using loop Inr p c0 by (simp_all add: ranges_init_live covered_def)
    have def: "ccsds_cfdp_ranges_missing cfg state s e =
      (if cursor < e then case ccsds_cfdp_ranges_add cfg m cursor e of (status, m') \<Rightarrow>
         if status \<noteq> CCSDS_CFDP_STATUS_OK then Inl status else Inr m' else Inr m)"
      using assms(2) st(2) Inr p by (simp add: ccsds_cfdp_ranges_missing_def range_is_valid_def)
    show ?thesis
      using m def st(2) ranges_add_ok [of cfg m cursor e] ranges_add_fail [of cfg m cursor e]
      by (cases "cursor < e") (auto split: prod.splits if_splits)
  qed
qed

theorem ranges_missing_correct_witness:
  "\<exists>m. ccsds_cfdp_ranges_missing default_cfdp_config
     (ccsds_cfdp_ranges_init default_cfdp_config) 3 9 = Inr m \<and> covered (live m) = {3 ..< 9}"
  using ranges_missing_correct [OF ranges_init_inv, of 3 9 default_cfdp_config]
  by (auto simp: live_def covered_def default_cfdp_config_def
      ccsds_cfdp_ranges_init_def split: sum.splits)

end
