(* ===== verification/Cfdp_Checksum.thy ===== *)
theory Cfdp_Checksum
  imports Cfdp_Types "HOL-Library.Multiset"
begin

unbundle bit_operations_syntax

text \<open>
  CFDP file checksums (\<^verbatim>\<open>src/ccsds_cfdp_checksum.c\<close>, \<^verbatim>\<open>ccsds_cfdp_checksum.h\<close>).  The CRC
  primitives \<^verbatim>\<open>crc32_c\<close> and \<^verbatim>\<open>crc32_ieee_update\<close> belong to Zephyr and are parameters, as is the
  callback that reads the stored file; what is assumed of them is stated by the predicates
  \<open>crc32_ieee_incremental\<close>, \<open>crc32_c_incremental\<close> and \<open>reads_file\<close>.
\<close>

section \<open>The code\<close>

record ccsds_cfdp_checksum_state =
  cs_type :: ccsds_cfdp_checksum_type
  cs_value :: u32
  next_offset :: u32
  crc_started :: bool
  deferred :: bool

type_synonym crc32_c_fn = "u32 \<Rightarrow> bytes \<Rightarrow> bool \<Rightarrow> bool \<Rightarrow> u32"
type_synonym crc32_ieee_fn = "u32 \<Rightarrow> bytes \<Rightarrow> u32"

fun checksum_type_is_supported :: "ccsds_cfdp_checksum_type \<Rightarrow> bool" where
  "checksum_type_is_supported CCSDS_CFDP_CHECKSUM_TYPE_MODULAR = True"
| "checksum_type_is_supported CCSDS_CFDP_CHECKSUM_TYPE_CRC32C = True"
| "checksum_type_is_supported CCSDS_CFDP_CHECKSUM_TYPE_IEEE_802_3_FCS = True"
| "checksum_type_is_supported CCSDS_CFDP_CHECKSUM_TYPE_NULL = True"
| "checksum_type_is_supported (CHECKSUM_TYPE_OTHER _) = False"

definition update_range_is_valid :: "u32 \<Rightarrow> nat \<Rightarrow> bool" where
  "update_range_is_valid file_offset len \<longleftrightarrow> len \<le> 1 \<or> len - 1 \<le> 0xffffffff - unat file_offset"

definition ccsds_cfdp_checksum_supports_out_of_order :: "ccsds_cfdp_checksum_type \<Rightarrow> bool" where
  "ccsds_cfdp_checksum_supports_out_of_order t \<longleftrightarrow>
     t = CCSDS_CFDP_CHECKSUM_TYPE_MODULAR \<or> t = CCSDS_CFDP_CHECKSUM_TYPE_NULL"

definition ccsds_cfdp_checksum_init ::
  "ccsds_cfdp_checksum_type \<Rightarrow> ccsds_cfdp_status + ccsds_cfdp_checksum_state" where
  "ccsds_cfdp_checksum_init t =
     (if \<not> checksum_type_is_supported t then Inl CCSDS_CFDP_STATUS_UNSUPPORTED_CHECKSUM
      else Inr \<lparr>cs_type = t, cs_value = 0, next_offset = 0, crc_started = False, deferred = False\<rparr>)"

text \<open>The byte loop of the modular checksum, with the loop variable \<open>i\<close>.\<close>

fun modular_loop :: "u32 \<Rightarrow> nat \<Rightarrow> bytes \<Rightarrow> u32 \<Rightarrow> u32" where
  "modular_loop file_offset i [] v = v"
| "modular_loop file_offset i (b # bs) v =
     (let byte_lane = unat ((file_offset + word_of_nat i) AND 0x3);
          shift = (3 - byte_lane) * 8
      in modular_loop file_offset (i + 1) bs (v + push_bit shift (ucast b)))"

definition ccsds_cfdp_checksum_update ::
  "crc32_c_fn \<Rightarrow> crc32_ieee_fn \<Rightarrow> ccsds_cfdp_checksum_state \<Rightarrow> u32 \<Rightarrow> bytes \<Rightarrow>
     ccsds_cfdp_status \<times> ccsds_cfdp_checksum_state" where
  "ccsds_cfdp_checksum_update crc32_c crc32_ieee_update state file_offset d =
     (if \<not> checksum_type_is_supported (cs_type state)
      then (CCSDS_CFDP_STATUS_UNSUPPORTED_CHECKSUM, state)
      else if length d = 0 then (CCSDS_CFDP_STATUS_OK, state)
      else if \<not> update_range_is_valid file_offset (length d)
      then (CCSDS_CFDP_STATUS_INVALID_ARGUMENT, state)
      else case cs_type state of
        CCSDS_CFDP_CHECKSUM_TYPE_MODULAR \<Rightarrow>
          (CCSDS_CFDP_STATUS_OK, state\<lparr>cs_value := modular_loop file_offset 0 d (cs_value state)\<rparr>)
      | CCSDS_CFDP_CHECKSUM_TYPE_CRC32C \<Rightarrow>
          (CCSDS_CFDP_STATUS_OK,
           if file_offset \<noteq> next_offset state then state\<lparr>deferred := True\<rparr>
           else if \<not> deferred state
           then state\<lparr>cs_value := crc32_c (cs_value state) d (\<not> crc_started state) False,
                      next_offset := next_offset state + word_of_nat (length d),
                      crc_started := True\<rparr>
           else state)
      | CCSDS_CFDP_CHECKSUM_TYPE_IEEE_802_3_FCS \<Rightarrow>
          (CCSDS_CFDP_STATUS_OK,
           if file_offset \<noteq> next_offset state then state\<lparr>deferred := True\<rparr>
           else if \<not> deferred state
           then state\<lparr>cs_value := crc32_ieee_update (cs_value state) d,
                      next_offset := next_offset state + word_of_nat (length d)\<rparr>
           else state)
      | CCSDS_CFDP_CHECKSUM_TYPE_NULL \<Rightarrow> (CCSDS_CFDP_STATUS_OK, state)
      | CHECKSUM_TYPE_OTHER _ \<Rightarrow> (CCSDS_CFDP_STATUS_UNSUPPORTED_CHECKSUM, state))"

definition CCSDS_CFDP_CRC32C_XOR_OUT :: u32 where "CCSDS_CFDP_CRC32C_XOR_OUT = 0xffffffff"

definition ccsds_cfdp_checksum_finish :: "ccsds_cfdp_checksum_state \<Rightarrow> ccsds_cfdp_status + u32" where
  "ccsds_cfdp_checksum_finish state =
     (if \<not> checksum_type_is_supported (cs_type state) then Inl CCSDS_CFDP_STATUS_UNSUPPORTED_CHECKSUM
      else case cs_type state of
        CCSDS_CFDP_CHECKSUM_TYPE_NULL \<Rightarrow> Inr 0
      | CCSDS_CFDP_CHECKSUM_TYPE_CRC32C \<Rightarrow>
          if deferred state then Inl CCSDS_CFDP_STATUS_INVALID_ARGUMENT
          else Inr (if crc_started state then cs_value state XOR CCSDS_CFDP_CRC32C_XOR_OUT else 0)
      | CCSDS_CFDP_CHECKSUM_TYPE_IEEE_802_3_FCS \<Rightarrow>
          if deferred state then Inl CCSDS_CFDP_STATUS_INVALID_ARGUMENT
          else Inr (cs_value state)
      | _ \<Rightarrow> Inr (cs_value state))"

fun checksum_type_is_crc :: "ccsds_cfdp_checksum_type \<Rightarrow> bool" where
  "checksum_type_is_crc CCSDS_CFDP_CHECKSUM_TYPE_CRC32C = True"
| "checksum_type_is_crc CCSDS_CFDP_CHECKSUM_TYPE_IEEE_802_3_FCS = True"
| "checksum_type_is_crc _ = False"

text \<open>
  The read callback: from an offset and a capacity to a status or the bytes it stored (as
  many as the length it reported), with the callback's own state.
\<close>

type_synonym 'env cfdp_read_fn =
  "u32 \<Rightarrow> nat \<Rightarrow> 'env \<Rightarrow> (ccsds_cfdp_status + bytes) \<times> 'env"

lemma finish_file_decreases:
  assumes "offset < file_size" "0 < n" "n \<le> unat (file_size - offset)"
  shows "unat (file_size - (offset + word_of_nat n :: u32)) < unat (file_size - offset)"
proof -
  have "n < 2 ^ LENGTH(32)"
    using assms(3) unsigned_less [of "file_size - offset"] by (rule le_less_trans)
  then have u: "unat (word_of_nat n :: u32) = n" by (simp add: unsigned_of_nat take_bit_nat_eq_self)
  have "file_size - (offset + word_of_nat n) = file_size - offset - word_of_nat n" by simp
  moreover have "unat (file_size - offset - word_of_nat n :: u32) = unat (file_size - offset) - n"
    using assms(3) u by (subst unat_sub) (auto simp: word_le_nat_alt)
  ultimately have "unat (file_size - (offset + word_of_nat n)) = unat (file_size - offset) - n" by metis
  then show ?thesis using assms(2,3) by linarith
qed

function finish_file_loop ::
  "crc32_c_fn \<Rightarrow> crc32_ieee_fn \<Rightarrow> 'env cfdp_read_fn \<Rightarrow> u32 \<Rightarrow> nat \<Rightarrow> u32 \<Rightarrow>
     ccsds_cfdp_checksum_state \<Rightarrow> 'env \<Rightarrow> (ccsds_cfdp_status + ccsds_cfdp_checksum_state) \<times> 'env" where
  "finish_file_loop crc32_c crc32_ieee_update read file_size scratch_len offset recomputed env =
     (if offset < file_size then
        let remaining = unat (file_size - offset);
            request_len = (if remaining < scratch_len then remaining else scratch_len)
        in case read offset request_len env of
             (Inl status, env') \<Rightarrow> (Inl status, env')
           | (Inr chunk, env') \<Rightarrow>
               if length chunk = 0 \<or> length chunk > request_len \<or> length chunk > remaining
               then (Inl CCSDS_CFDP_STATUS_INVALID_ARGUMENT, env')
               else case ccsds_cfdp_checksum_update crc32_c crc32_ieee_update recomputed offset chunk of
                 (status, recomputed') \<Rightarrow>
                   if status \<noteq> CCSDS_CFDP_STATUS_OK then (Inl status, env')
                   else finish_file_loop crc32_c crc32_ieee_update read file_size scratch_len
                          (offset + word_of_nat (length chunk)) recomputed' env'
      else (Inr recomputed, env))"
  by pat_completeness auto
termination
  by (relation "measure (\<lambda>(c, u, r, file_size, n, offset, st, env). unat (file_size - offset))")
    (auto intro!: finish_file_decreases)

declare finish_file_loop.simps [simp del]

definition ccsds_cfdp_checksum_finish_file ::
  "crc32_c_fn \<Rightarrow> crc32_ieee_fn \<Rightarrow> ccsds_cfdp_checksum_state \<Rightarrow> 'env cfdp_read_fn \<Rightarrow> u32 \<Rightarrow> nat \<Rightarrow>
     'env \<Rightarrow> (ccsds_cfdp_status + u32) \<times> 'env" where
  "ccsds_cfdp_checksum_finish_file crc32_c crc32_ieee_update state read file_size scratch_len env =
     (if \<not> checksum_type_is_supported (cs_type state)
      then (Inl CCSDS_CFDP_STATUS_UNSUPPORTED_CHECKSUM, env)
      else if \<not> checksum_type_is_crc (cs_type state) then (ccsds_cfdp_checksum_finish state, env)
      else if \<not> deferred state \<and> next_offset state = file_size
      then (ccsds_cfdp_checksum_finish state, env)
      else case ccsds_cfdp_checksum_init (cs_type state) of
        Inl status \<Rightarrow> (Inl status, env)
      | Inr recomputed \<Rightarrow>
          (case finish_file_loop crc32_c crc32_ieee_update read file_size scratch_len 0 recomputed env of
             (Inl status, env') \<Rightarrow> (Inl status, env')
           | (Inr recomputed', env') \<Rightarrow> (ccsds_cfdp_checksum_finish recomputed', env')))"

section \<open>The modular checksum\<close>

text \<open>
  Reference: the sum of the file's aligned 32-bit big-endian words, the last one padded with
  zero bytes; and the same sum by bytes, each weighted by the position of its offset.
\<close>

fun modular_reference :: "bytes \<Rightarrow> u32" where
  "modular_reference (a # b # c # d # bs) = get_be32 a b c d + modular_reference bs"
| "modular_reference [a, b, c] = get_be32 a b c 0"
| "modular_reference [a, b] = get_be32 a b 0 0"
| "modular_reference [a] = get_be32 a 0 0 0"
| "modular_reference [] = 0"

definition lane :: "nat \<Rightarrow> u8 \<Rightarrow> u32" where
  "lane i b = push_bit ((3 - i mod 4) * 8) (ucast b)"

definition lane_sum :: "nat \<Rightarrow> bytes \<Rightarrow> u32" where
  "lane_sum off d = (\<Sum>i<length d. lane (off + i) (d ! i))"

lemma lane_sum_simps [simp]:
  "lane_sum off [] = 0" "lane_sum off (b # bs) = lane off b + lane_sum (Suc off) bs"
  by (simp_all add: lane_sum_def sum.lessThan_Suc_shift del: sum.lessThan_Suc)

lemma lane_sum_append: "lane_sum off (a @ b) = lane_sum off a + lane_sum (off + length a) b"
  by (induction a arbitrary: off) (simp_all add: add.assoc)

lemma lane_sum_shift4: "lane_sum (off + 4) d = lane_sum off d"
  by (simp add: lane_sum_def lane_def add.commute add.left_commute mod_add_self1 flip: add.assoc)

lemma disjoint_or_plus: "a AND b = 0 \<Longrightarrow> a OR b = a + (b :: u32)"
  by (simp add: disjunctive_add_eq_or)

lemma get_be32_plus:
  "get_be32 a b c d = push_bit 24 (ucast a) + (push_bit 16 (ucast b) + (push_bit 8 (ucast c) + ucast d))"
proof -
  have "push_bit 8 (ucast c) AND ucast d = (0 :: u32)"
    "push_bit 16 (ucast b) AND (push_bit 8 (ucast c) OR ucast d) = (0 :: u32)"
    "push_bit 24 (ucast a) AND (push_bit 16 (ucast b) OR push_bit 8 (ucast c) OR ucast d) = (0 :: u32)"
    by (rule bit_word_eqI; auto simp: bit_simps dest: bit_imp_le_length)+
  then show ?thesis by (simp add: get_be32_def disjoint_or_plus)
qed

lemma lane_values:
  "lane 0 b = push_bit 24 (ucast b)" "lane (Suc 0) b = push_bit 16 (ucast b)"
  "lane (Suc (Suc 0)) b = push_bit 8 (ucast b)" "lane (Suc (Suc (Suc 0))) b = ucast b"
  by (simp_all add: lane_def)

lemma lane_sum_reference: "lane_sum 0 d = modular_reference d"
proof (induction d rule: modular_reference.induct)
  case (1 a b c d bs)
  have "lane_sum (Suc (Suc (Suc (Suc 0)))) bs = lane_sum 0 bs"
    using lane_sum_shift4 [of 0 bs] by (simp add: eval_nat_numeral)
  with 1 show ?case by (simp add: lane_values get_be32_plus add.assoc)
qed (simp_all add: lane_values get_be32_plus add.assoc)

lemma unat_and_3: "unat (w AND 0x3 :: u32) = unat w mod 4"
proof -
  have "unat (take_bit 2 w) = take_bit 2 (unat w)" by (simp add: unsigned_take_bit_eq)
  then show ?thesis by (simp add: mask_simps take_bit_eq_mod)
qed

lemma modular_loop_sum: "modular_loop off i d v = v + lane_sum (unat off + i) d"
proof (induction d arbitrary: i v)
  case (Cons b d)
  have "unat ((off + word_of_nat i) AND 0x3) = (unat off + i) mod 4"
  proof -
    have "unat (off + word_of_nat i) = (unat off + i) mod 2 ^ 32"
      by (simp add: unat_word_ariths(1) unsigned_of_nat take_bit_eq_mod mod_add_right_eq)
    then show ?thesis unfolding unat_and_3 by (simp add: mod_mod_cancel)
  qed
  then show ?case by (simp add: Cons Let_def lane_def add.assoc)
qed simp

section \<open>Sessions of updates\<close>

definition checksum_step ::
  "crc32_c_fn \<Rightarrow> crc32_ieee_fn \<Rightarrow> ccsds_cfdp_checksum_state \<Rightarrow> u32 \<times> bytes \<Rightarrow>
     ccsds_cfdp_status \<times> ccsds_cfdp_checksum_state" where
  "checksum_step crc32_c crc32_ieee_update state seg =
     ccsds_cfdp_checksum_update crc32_c crc32_ieee_update state (fst seg) (snd seg)"

definition initial_checksum :: "ccsds_cfdp_checksum_type \<Rightarrow> ccsds_cfdp_checksum_state" where
  "initial_checksum t = \<lparr>cs_type = t, cs_value = 0, next_offset = 0, crc_started = False, deferred = False\<rparr>"

lemma checksum_init_eq: "checksum_type_is_supported t \<Longrightarrow> ccsds_cfdp_checksum_init t = Inr (initial_checksum t)"
  by (simp add: ccsds_cfdp_checksum_init_def initial_checksum_def)

text \<open>A segment of a file: an offset and the file's bytes from there on.\<close>

definition file_segment :: "bytes \<Rightarrow> u32 \<times> bytes \<Rightarrow> bool" where
  "file_segment file seg \<longleftrightarrow> unat (fst seg) + length (snd seg) \<le> length file \<and>
     snd seg = take (length (snd seg)) (drop (unat (fst seg)) file)"

definition seg_offsets :: "u32 \<times> bytes \<Rightarrow> nat list" where
  "seg_offsets seg = [unat (fst seg) ..< unat (fst seg) + length (snd seg)]"

lemma file_segment_range:
  "file_segment file seg \<Longrightarrow> length file \<le> 2 ^ 32 \<Longrightarrow> update_range_is_valid (fst seg) (length (snd seg))"
  by (auto simp: file_segment_def update_range_is_valid_def)

lemma modular_update:
  assumes "cs_type state = CCSDS_CFDP_CHECKSUM_TYPE_MODULAR" "update_range_is_valid (fst seg) (length (snd seg))"
  shows "checksum_step c u state seg =
    (CCSDS_CFDP_STATUS_OK, state\<lparr>cs_value := cs_value state + lane_sum (unat (fst seg)) (snd seg)\<rparr>)"
  using assms by (auto simp: checksum_step_def ccsds_cfdp_checksum_update_def modular_loop_sum)

lemma modular_session:
  assumes "cs_type state = CCSDS_CFDP_CHECKSUM_TYPE_MODULAR"
    and "\<forall>seg\<in>set segs. update_range_is_valid (fst seg) (length (snd seg))"
  shows "session (checksum_step c u) state segs =
    (replicate (length segs) CCSDS_CFDP_STATUS_OK,
     state\<lparr>cs_value := cs_value state + (\<Sum>seg\<leftarrow>segs. lane_sum (unat (fst seg)) (snd seg))\<rparr>)"
  using assms
proof (induction segs arbitrary: state)
  case (Cons seg segs)
  then show ?case by (simp add: modular_update add.assoc)
qed simp

lemma lane_sum_offsets:
  assumes "file_segment file seg"
  shows "lane_sum (unat (fst seg)) (snd seg) = (\<Sum>k\<leftarrow>seg_offsets seg. lane k (file ! k))"
proof -
  let ?o = "unat (fst seg)" and ?d = "snd seg"
  have d: "?d ! i = file ! (?o + i)" if "i < length ?d" for i
    using assms that unfolding file_segment_def by (metis nth_drop nth_take add_leD1)
  have "lane_sum ?o ?d = (\<Sum>i<length ?d. lane (?o + i) (file ! (?o + i)))"
    unfolding lane_sum_def by (intro sum.cong) (simp_all add: d)
  also have "\<dots> = (\<Sum>k\<leftarrow>[?o ..< ?o + length ?d]. lane k (file ! k))"
    by (simp add: sum_list_sum_nth atLeast0LessThan)
  finally show ?thesis by (simp add: seg_offsets_def)
qed

lemma sum_list_mset_cong: "mset xs = mset ys \<Longrightarrow> (\<Sum>x\<leftarrow>xs. f x :: u32) = (\<Sum>y\<leftarrow>ys. f y)"
  by (metis mset_map sum_mset_sum_list)

lemma lane_sum_partition:
  assumes "\<forall>seg\<in>set segs. file_segment file seg"
    and "mset (concat (map seg_offsets segs)) = mset [0 ..< length file]"
  shows "(\<Sum>seg\<leftarrow>segs. lane_sum (unat (fst seg)) (snd seg)) = modular_reference file"
proof -
  have "(\<Sum>seg\<leftarrow>segs. lane_sum (unat (fst seg)) (snd seg)) =
      (\<Sum>seg\<leftarrow>segs. \<Sum>k\<leftarrow>seg_offsets seg. lane k (file ! k))"
    using assms(1) by (intro arg_cong [where f = sum_list] map_cong) (simp_all add: lane_sum_offsets)
  also have "\<dots> = (\<Sum>k\<leftarrow>concat (map seg_offsets segs). lane k (file ! k))"
    by (induction segs) simp_all
  also have "\<dots> = (\<Sum>k\<leftarrow>[0 ..< length file]. lane k (file ! k))"
    using assms(2) by (rule sum_list_mset_cong)
  also have "\<dots> = lane_sum 0 file" by (simp add: lane_sum_def sum_list_sum_nth atLeast0LessThan)
  finally show ?thesis by (simp add: lane_sum_reference)
qed

section \<open>The CRC types\<close>

text \<open>
  What is relied on of Zephyr's CRC routines: feeding a buffer in pieces is feeding it whole,
  and \<^verbatim>\<open>crc32_c\<close> starts from all ones when its \<^verbatim>\<open>first_pkt\<close> argument is set.
\<close>

definition incremental :: "(u32 \<Rightarrow> bytes \<Rightarrow> u32) \<Rightarrow> bool" where
  "incremental upd \<longleftrightarrow> (\<forall>v. upd v [] = v) \<and> (\<forall>v a b. upd (upd v a) b = upd v (a @ b))"

definition crc32_c_incremental :: "crc32_c_fn \<Rightarrow> (u32 \<Rightarrow> bytes \<Rightarrow> u32) \<Rightarrow> bool" where
  "crc32_c_incremental crc32_c raw \<longleftrightarrow> incremental raw \<and>
     (\<forall>v d first. crc32_c v d first False = raw (if first then 0xffffffff else v) d)"

text \<open>The contract of the read callback: a nonempty piece of the stored file, within bounds.\<close>

definition reads_file :: "'env cfdp_read_fn \<Rightarrow> bytes \<Rightarrow> bool" where
  "reads_file read file \<longleftrightarrow> (\<forall>off cap env. unat off < length file \<longrightarrow> 0 < cap \<longrightarrow>
     (case read off cap env of
        (Inl _, _) \<Rightarrow> False
      | (Inr chunk, _) \<Rightarrow> 0 < length chunk \<and> length chunk \<le> cap \<and> file_segment file (off, chunk)))"

lemma reads_fileE:
  assumes "reads_file read file" "unat off < length file" "0 < cap"
  obtains chunk env' where "read off cap env = (Inr chunk, env')" "0 < length chunk"
    "length chunk \<le> cap" "file_segment file (off, chunk)"
proof -
  obtain r env' where r: "read off cap env = (r, env')" by fastforce
  note piece = assms(1) [unfolded reads_file_def, rule_format, OF assms(2,3), of env]
  with r that show thesis by (cases r) simp_all
qed

definition crc_reference ::
  "(u32 \<Rightarrow> bytes \<Rightarrow> u32) \<Rightarrow> (u32 \<Rightarrow> bytes \<Rightarrow> u32) \<Rightarrow> ccsds_cfdp_checksum_type \<Rightarrow> bytes \<Rightarrow> u32" where
  "crc_reference ieee raw t file =
     (if t = CCSDS_CFDP_CHECKSUM_TYPE_CRC32C then raw 0xffffffff file XOR 0xffffffff else ieee 0 file)"

text \<open>The state holds the CRC of the first \<open>k\<close> bytes of the file.\<close>

definition crc_at ::
  "(u32 \<Rightarrow> bytes \<Rightarrow> u32) \<Rightarrow> (u32 \<Rightarrow> bytes \<Rightarrow> u32) \<Rightarrow> ccsds_cfdp_checksum_type \<Rightarrow> bytes \<Rightarrow> nat \<Rightarrow>
     ccsds_cfdp_checksum_state \<Rightarrow> bool" where
  "crc_at ieee raw t file k st \<longleftrightarrow>
     cs_type st = t \<and> \<not> deferred st \<and> k \<le> length file \<and> next_offset st = word_of_nat k \<and>
     (if t = CCSDS_CFDP_CHECKSUM_TYPE_CRC32C
      then crc_started st = (0 < k) \<and> (0 < k \<longrightarrow> cs_value st = raw 0xffffffff (take k file))
      else cs_value st = ieee 0 (take k file))"

lemma crc_at_init:
  assumes "checksum_type_is_crc t" "incremental ieee" "incremental raw"
  shows "crc_at ieee raw t file 0 (initial_checksum t)"
  using assms by (cases t) (simp_all add: crc_at_def initial_checksum_def incremental_def)

lemma take_segment:
  assumes "file_segment file (off, d)"
  shows "take (unat off) file @ d = take (unat off + length d) file"
  using assms by (simp add: file_segment_def take_add)

lemma unat_offset:
  "length file < 2 ^ 32 \<Longrightarrow> k \<le> length file \<Longrightarrow> unat (word_of_nat k :: u32) = k"
  by (simp add: unsigned_of_nat take_bit_nat_eq_self)

lemma crc_at_update:
  assumes hyp: "crc32_c_incremental crc32_c raw" "incremental ieee" "checksum_type_is_crc t"
    and st: "crc_at ieee raw t file k st" and seg: "file_segment file (off, d)" "unat off = k" "d \<noteq> []"
    and len: "length file < 2 ^ 32"
  shows "\<exists>st'. ccsds_cfdp_checksum_update crc32_c ieee st off d = (CCSDS_CFDP_STATUS_OK, st') \<and>
    crc_at ieee raw t file (k + length d) st'"
proof -
  have off: "off = word_of_nat k" by (simp flip: seg(2))
  have tk: "take k file @ d = take (k + length d) file" using take_segment [OF seg(1)] seg(2) by simp
  have le: "k + length d \<le> length file" using seg(1,2) by (simp add: file_segment_def)
  have range: "update_range_is_valid off (length d)"
    using file_segment_range [OF seg(1)] len by simp
  show ?thesis
    using hyp st seg(3) tk le range off
    by (cases t) (auto simp: ccsds_cfdp_checksum_update_def crc_at_def crc32_c_incremental_def
        incremental_def)
qed

lemma crc_at_finish:
  assumes "checksum_type_is_crc t" "crc32_c_incremental crc32_c raw" "crc_at ieee raw t file (length file) st"
  shows "ccsds_cfdp_checksum_finish st = Inr (crc_reference ieee raw t file)"
  using assms
  by (cases t; cases "file = []")
    (auto simp: ccsds_cfdp_checksum_finish_def crc_at_def crc_reference_def crc32_c_incremental_def
      incremental_def CCSDS_CFDP_CRC32C_XOR_OUT_def)

lemma finish_file_loop_reads:
  assumes hyp: "crc32_c_incremental crc32_c raw" "incremental ieee" "checksum_type_is_crc t"
    and src: "reads_file read file" "length file < 2 ^ 32" "0 < scratch_len"
    and st: "crc_at ieee raw t file (unat offset) st"
  shows "\<exists>st' env'. finish_file_loop crc32_c ieee read (word_of_nat (length file)) scratch_len offset st env
      = (Inr st', env') \<and> crc_at ieee raw t file (length file) st'"
  using st
proof (induction "length file - unat offset" arbitrary: offset st env rule: less_induct)
  case less
  let ?size = "word_of_nat (length file) :: u32"
  have us: "unat ?size = length file" using src(2) by (rule unat_offset) simp
  have le: "unat offset \<le> length file" using less.prems by (simp add: crc_at_def)
  show ?case
  proof (cases "offset < ?size")
    case False
    then have "unat offset = length file" using le us by (simp add: word_less_nat_alt)
    with less.prems False show ?thesis by (subst finish_file_loop.simps) simp
  next
    case True
    then have lt: "unat offset < length file" by (simp add: word_less_nat_alt us)
    have rem: "unat (?size - offset) = length file - unat offset"
      using True us by (subst unat_sub) (auto simp: word_le_nat_alt word_less_nat_alt)
    let ?req = "if unat (?size - offset) < scratch_len then unat (?size - offset) else scratch_len"
    have "0 < ?req" using lt rem src(3) by simp
    from src(1) lt this obtain chunk env1 where chunk: "read offset ?req env = (Inr chunk, env1)"
      "0 < length chunk" "length chunk \<le> ?req" "file_segment file (offset, chunk)"
      by (rule reads_fileE)
    have chunk_rem: "length chunk \<le> unat (?size - offset)" using chunk(3) by (simp split: if_splits)
    obtain st1 where st1: "ccsds_cfdp_checksum_update crc32_c ieee st offset chunk = (CCSDS_CFDP_STATUS_OK, st1)"
      "crc_at ieee raw t file (unat offset + length chunk) st1"
      using crc_at_update [OF hyp less.prems chunk(4) refl _ src(2)] chunk(2) by auto
    have off1: "unat (offset + word_of_nat (length chunk)) = unat offset + length chunk"
      using chunk_rem rem lt src(2)
      by (simp add: unat_word_ariths(1) unsigned_of_nat take_bit_eq_mod mod_add_right_eq)
    have "length file - unat (offset + word_of_nat (length chunk)) < length file - unat offset"
      using off1 chunk(2) lt by linarith
    from less.hyps [OF this, of st1 env1] st1(2) off1 obtain st' env' where fin:
      "finish_file_loop crc32_c ieee read ?size scratch_len (offset + word_of_nat (length chunk)) st1 env1
        = (Inr st', env')" "crc_at ieee raw t file (length file) st'" by auto
    show ?thesis
      using True chunk st1(1) fin chunk_rem
      by (subst finish_file_loop.simps) (simp add: Let_def not_less)
  qed
qed

lemma checksum_step_type:
  "cs_type (snd (checksum_step c u st seg)) = cs_type st"
  by (auto simp: checksum_step_def ccsds_cfdp_checksum_update_def split: ccsds_cfdp_checksum_type.splits)

text \<open>Along any session of file segments the state is deferred or holds a prefix's CRC.\<close>

lemma crc_step:
  assumes hyp: "crc32_c_incremental crc32_c raw" "incremental ieee" "checksum_type_is_crc t"
    and len: "length file < 2 ^ 32" and seg: "file_segment file seg"
    and st: "cs_type st = t" "deferred st \<or> (\<exists>k. crc_at ieee raw t file k st)"
    and step: "checksum_step crc32_c ieee st seg = (status, st')"
  shows "status = CCSDS_CFDP_STATUS_OK \<and> cs_type st' = t \<and>
    (deferred st' \<or> (\<exists>k. crc_at ieee raw t file k st'))"
proof (cases "snd seg = [] \<or> deferred st \<or> fst seg \<noteq> next_offset st")
  case True
  have "update_range_is_valid (fst seg) (length (snd seg))" using seg len by (simp add: file_segment_range)
  with True hyp(3) st step show ?thesis
    by (cases t) (auto simp: checksum_step_def ccsds_cfdp_checksum_update_def split: if_splits)
next
  case False
  then obtain k where k: "crc_at ieee raw t file k st" using st(2) by auto
  then have "unat (fst seg) = k" using False len by (auto simp: crc_at_def unat_offset)
  with crc_at_update [OF hyp k _ _ _ len, of "fst seg" "snd seg"] seg False step
  show ?thesis by (auto simp: checksum_step_def crc_at_def)
qed

lemma crc_session:
  assumes hyp: "crc32_c_incremental crc32_c raw" "incremental ieee" "checksum_type_is_crc t"
    and len: "length file < 2 ^ 32" and segs: "\<forall>seg\<in>set segs. file_segment file seg"
    and st: "cs_type st = t" "deferred st \<or> (\<exists>k. crc_at ieee raw t file k st)"
  shows "case session (checksum_step crc32_c ieee) st segs of (sts, st') \<Rightarrow>
    set sts \<subseteq> {CCSDS_CFDP_STATUS_OK} \<and> cs_type st' = t \<and>
    (deferred st' \<or> (\<exists>k. crc_at ieee raw t file k st'))"
  using segs st
proof (induction segs arbitrary: st)
  case (Cons seg segs)
  obtain status st1 where step: "checksum_step crc32_c ieee st seg = (status, st1)" by fastforce
  have "file_segment file seg" using Cons.prems(1) by simp
  from crc_step [OF hyp len this Cons.prems(2,3) step] Cons.IH [of st1] Cons.prems(1)
  show ?case by (auto simp: step split: prod.splits)
qed simp

section \<open>Properties\<close>

text \<open>
  The modular checksum does not depend on the order of arrival: if the received segments
  are pieces of the file that together hold every byte exactly once, every update succeeds
  and the result is the sum of the file's big-endian 32-bit words, padded with zeros,
  modulo \<open>2^32\<close>.
\<close>

theorem modular_checksum_any_order:
  assumes "\<forall>seg\<in>set segs. file_segment file seg"
    and "mset (concat (map seg_offsets segs)) = mset [0 ..< length file]" "length file \<le> 2 ^ 32"
    and "session (checksum_step crc32_c ieee) (initial_checksum CCSDS_CFDP_CHECKSUM_TYPE_MODULAR) segs
      = (sts, state)"
  shows "(\<forall>st\<in>set sts. st = CCSDS_CFDP_STATUS_OK) \<and>
    ccsds_cfdp_checksum_finish state = Inr (modular_reference file)"
proof -
  have "\<forall>seg\<in>set segs. update_range_is_valid (fst seg) (length (snd seg))"
    using assms(1,3) file_segment_range by blast
  from modular_session [OF _ this, of "initial_checksum CCSDS_CFDP_CHECKSUM_TYPE_MODULAR" crc32_c ieee]
    lane_sum_partition [OF assms(1,2)] assms(4)
  show ?thesis by (auto simp: initial_checksum_def ccsds_cfdp_checksum_finish_def)
qed

theorem modular_checksum_any_order_witness:
  "ccsds_cfdp_checksum_finish (snd (session (checksum_step (\<lambda>v d f l. v) (\<lambda>v d. v))
     (initial_checksum CCSDS_CFDP_CHECKSUM_TYPE_MODULAR) [(3, [4, 5]), (0, [1, 2, 3])]))
   = Inr (0x01020304 + 0x05000000)"
proof -
  have "\<forall>seg\<in>set [(3, [4, 5]), (0, [1, 2, 3])]. file_segment [1, 2, 3, 4, 5] seg"
    by (simp add: file_segment_def)
  moreover have "mset (concat (map seg_offsets [(3, [4, 5]), (0, [1, 2, 3])])) = mset [0 ..< length [1, 2, 3, 4, 5 :: u8]]"
    by (simp add: seg_offsets_def upt_rec) (simp add: eval_nat_numeral)
  ultimately have "ccsds_cfdp_checksum_finish (snd (session (checksum_step (\<lambda>v d f l. v) (\<lambda>v d. v))
      (initial_checksum CCSDS_CFDP_CHECKSUM_TYPE_MODULAR) [(3, [4, 5]), (0, [1, 2, 3])]))
      = Inr (modular_reference [1, 2, 3, 4, 5])"
    using modular_checksum_any_order [OF _ _ _ prod.collapse [symmetric]] by fastforce
  then show ?thesis by (simp add: get_be32_def)
qed

text \<open>
  The CRC types end with the file's CRC: after any sequence of updates with pieces of
  the file (in order, out of order, overlapping or missing), all of which are accepted,
  finalisation returns the CRC of the whole file, streaming it if the pieces arrived in
  order and rereading the stored file otherwise.  The read loop always ends.
\<close>

theorem crc_checksum_finish_file:
  assumes "crc32_c_incremental crc32_c raw" "incremental ieee" "checksum_type_is_crc t"
    and "reads_file read file" "length file < 2 ^ 32" "0 < scratch_len"
    and "\<forall>seg\<in>set segs. file_segment file seg"
    and "session (checksum_step crc32_c ieee) (initial_checksum t) segs = (sts, state)"
  shows "set sts \<subseteq> {CCSDS_CFDP_STATUS_OK} \<and>
    fst (ccsds_cfdp_checksum_finish_file crc32_c ieee state read (word_of_nat (length file)) scratch_len env)
      = Inr (crc_reference ieee raw t file)"
proof -
  have raw: "incremental raw" using assms(1) by (simp add: crc32_c_incremental_def)
  note init = crc_at_init [OF assms(3,2) raw]
  have sess: "set sts \<subseteq> {CCSDS_CFDP_STATUS_OK}" "cs_type state = t"
    "deferred state \<or> (\<exists>k. crc_at ieee raw t file k state)"
    using crc_session [OF assms(1-3,5,7), of "initial_checksum t"] init [of "file"] assms(8)
    by (auto simp: initial_checksum_def)
  have sup: "checksum_type_is_supported t" using assms(3) by (cases t) simp_all
  obtain st' env' where loop: "finish_file_loop crc32_c ieee read (word_of_nat (length file)) scratch_len 0
      (initial_checksum t) env = (Inr st', env')" "crc_at ieee raw t file (length file) st'"
    using finish_file_loop_reads [OF assms(1-6), of 0 "initial_checksum t" env] init [of "file"] by auto
  have streamed: "ccsds_cfdp_checksum_finish state = Inr (crc_reference ieee raw t file)"
    if nd: "\<not> deferred state" and eof: "next_offset state = word_of_nat (length file)"
  proof -
    obtain k where k: "crc_at ieee raw t file k state" using nd sess(3) by blast
    then have "word_of_nat k = (word_of_nat (length file) :: u32)" "k \<le> length file"
      using eof by (simp_all add: crc_at_def)
    then have "k = length file" using unat_offset [OF assms(5)] by (metis order_refl)
    with k crc_at_finish [OF assms(3,1)] show ?thesis by blast
  qed
  show ?thesis
    using sess sup assms(3) streamed loop crc_at_finish [OF assms(3,1) loop(2)]
    by (simp add: ccsds_cfdp_checksum_finish_file_def checksum_init_eq)
qed

theorem crc_checksum_finish_file_witness:
  "fst (ccsds_cfdp_checksum_finish_file (\<lambda>v d f l. foldl (\<lambda>v b. v + ucast b) (if f then 0xffffffff else v) d)
      (foldl (\<lambda>v b. v + ucast b))
      (snd (session (checksum_step (\<lambda>v d f l. foldl (\<lambda>v b. v + ucast b) (if f then 0xffffffff else v) d)
        (foldl (\<lambda>v b. v + ucast b)))
        (initial_checksum CCSDS_CFDP_CHECKSUM_TYPE_IEEE_802_3_FCS) [(1, [8]), (0, [7])]))
      (\<lambda>off cap env. (Inr (take cap (drop (unat off) [7, 8, 9])), env)) 3 2 ())
   = Inr (7 + 8 + 9)"
proof -
  let ?u = "foldl (\<lambda>v b. v + ucast b) :: u32 \<Rightarrow> bytes \<Rightarrow> u32"
  have inc: "incremental ?u" by (simp add: incremental_def)
  then have c: "crc32_c_incremental (\<lambda>v d f l. ?u (if f then 0xffffffff else v) d) ?u"
    by (simp add: crc32_c_incremental_def)
  have r: "reads_file (\<lambda>off cap (env :: unit). (Inr (take cap (drop (unat off) [7, 8, 9])), env)) [7, 8, 9]"
    by (auto simp: reads_file_def file_segment_def min_def)
  from crc_checksum_finish_file [OF c inc _ r, of CCSDS_CFDP_CHECKSUM_TYPE_IEEE_802_3_FCS 2
      "[(1, [8]), (0, [7])]" _ _ "()"]
  show ?thesis by (simp add: file_segment_def crc_reference_def prod_eq_iff)
qed

end
