(* ===== verification/Cfdp_Pdu.thy ===== *)
theory Cfdp_Pdu
  imports Cfdp_Types Cfdp_Checksum
begin

unbundle bit_operations_syntax

text \<open>
  The CFDP PDU codec (\<^verbatim>\<open>src/ccsds_cfdp_pdu.c\<close>, \<^verbatim>\<open>ccsds_cfdp_pdu.h\<close>): header, LV and TLV fields and the
  six PDUs.  An encoder returns a status or the bytes it writes, a decoder a status or the PDU
  and the number of bytes consumed.  C enumerations are integers that arrive from bit fields,
  and the encoders check their ranges, so they are bytes here, with the enumerators as
  abbreviations.  A string view (pointer and length) is its list of bytes; the null pointer is
  the empty view.
\<close>

section \<open>Data\<close>

abbreviation (input) "CCSDS_CFDP_VERSION_1 \<equiv> 1 :: u8"
abbreviation (input) "CCSDS_CFDP_PDU_TYPE_FILE_DIRECTIVE \<equiv> 0 :: u8"
abbreviation (input) "CCSDS_CFDP_PDU_TYPE_FILE_DATA \<equiv> 1 :: u8"
abbreviation (input) "CCSDS_CFDP_DIRECTION_TOWARD_RECEIVER \<equiv> 0 :: u8"
abbreviation (input) "CCSDS_CFDP_DIRECTION_TOWARD_SENDER \<equiv> 1 :: u8"
abbreviation (input) "CCSDS_CFDP_TRANSMISSION_MODE_ACKNOWLEDGED \<equiv> 0 :: u8"
abbreviation (input) "CCSDS_CFDP_TRANSMISSION_MODE_UNACKNOWLEDGED \<equiv> 1 :: u8"
abbreviation (input) "CCSDS_CFDP_CRC_NOT_PRESENT \<equiv> 0 :: u8"
abbreviation (input) "CCSDS_CFDP_CRC_PRESENT \<equiv> 1 :: u8"
abbreviation (input) "CCSDS_CFDP_FILE_SIZE_SMALL \<equiv> 0 :: u8"
abbreviation (input) "CCSDS_CFDP_SEGMENTATION_RECORD_BOUNDARIES_NOT_PRESERVED \<equiv> 0 :: u8"
abbreviation (input) "CCSDS_CFDP_SEGMENTATION_RECORD_BOUNDARIES_PRESERVED \<equiv> 1 :: u8"
abbreviation (input) "CCSDS_CFDP_DIRECTIVE_EOF \<equiv> 4 :: u8"
abbreviation (input) "CCSDS_CFDP_DIRECTIVE_FINISHED \<equiv> 5 :: u8"
abbreviation (input) "CCSDS_CFDP_DIRECTIVE_ACK \<equiv> 6 :: u8"
abbreviation (input) "CCSDS_CFDP_DIRECTIVE_METADATA \<equiv> 7 :: u8"
abbreviation (input) "CCSDS_CFDP_DIRECTIVE_NAK \<equiv> 8 :: u8"
abbreviation (input) "CCSDS_CFDP_CONDITION_NO_ERROR \<equiv> 0 :: u8"
abbreviation (input) "CCSDS_CFDP_CONDITION_CANCEL_REQUEST_RECEIVED \<equiv> 15 :: u8"
abbreviation (input) "CCSDS_CFDP_DELIVERY_CODE_DATA_COMPLETE \<equiv> 0 :: u8"
abbreviation (input) "CCSDS_CFDP_DELIVERY_CODE_DATA_INCOMPLETE \<equiv> 1 :: u8"
abbreviation (input) "CCSDS_CFDP_FILE_STATUS_RETAINED \<equiv> 2 :: u8"
abbreviation (input) "CCSDS_CFDP_FILE_STATUS_UNREPORTED \<equiv> 3 :: u8"
abbreviation (input) "CCSDS_CFDP_ACK_DIRECTIVE_SUBTYPE_OTHER \<equiv> 0 :: u8"
abbreviation (input) "CCSDS_CFDP_ACK_DIRECTIVE_SUBTYPE_FINISHED \<equiv> 1 :: u8"
abbreviation (input) "CCSDS_CFDP_TRANSACTION_STATUS_UNRECOGNIZED \<equiv> 3 :: u8"

abbreviation (input) "UINT16_MAX \<equiv> 65535 :: nat"
abbreviation (input) "CCSDS_CFDP_FILEDATA_OFFSET_LEN \<equiv> 4 :: nat"
abbreviation (input) "CCSDS_CFDP_EOF_DATA_LEN \<equiv> 10 :: nat"
abbreviation (input) "CCSDS_CFDP_FINISHED_DATA_LEN \<equiv> 2 :: nat"
abbreviation (input) "CCSDS_CFDP_ACK_DATA_LEN \<equiv> 3 :: nat"
abbreviation (input) "CCSDS_CFDP_NAK_MIN_DATA_LEN \<equiv> 9 :: nat"
abbreviation (input) "CCSDS_CFDP_NAK_RANGE_LEN \<equiv> 8 :: nat"
abbreviation (input) "CCSDS_CFDP_METADATA_MIN_DATA_LEN \<equiv> 8 :: nat"
abbreviation (input) "CCSDS_CFDP_METADATA_CLOSURE_REQUESTED \<equiv> 0x40 :: u8"
abbreviation (input) "CCSDS_CFDP_METADATA_RESERVED_MASK \<equiv> 0xb0 :: u8"
abbreviation (input) "CCSDS_CFDP_METADATA_CHECKSUM_MASK \<equiv> 0xf :: u8"
abbreviation (input) "CCSDS_CFDP_EOF_CONDITION_MASK \<equiv> 0xf0 :: u8"
abbreviation (input) "CCSDS_CFDP_FINISHED_CONDITION_MASK \<equiv> 0xf0 :: u8"
abbreviation (input) "CCSDS_CFDP_FINISHED_SPARE_MASK \<equiv> 0x8 :: u8"
abbreviation (input) "CCSDS_CFDP_FINISHED_DELIVERY_MASK \<equiv> 0x4 :: u8"
abbreviation (input) "CCSDS_CFDP_FINISHED_FILE_STATUS_MASK \<equiv> 0x3 :: u8"
abbreviation (input) "CCSDS_CFDP_ACK_DIRECTIVE_MASK \<equiv> 0xf0 :: u8"
abbreviation (input) "CCSDS_CFDP_ACK_SUBTYPE_MASK \<equiv> 0xf :: u8"
abbreviation (input) "CCSDS_CFDP_ACK_CONDITION_MASK \<equiv> 0xf0 :: u8"
abbreviation (input) "CCSDS_CFDP_ACK_SPARE_MASK \<equiv> 0xc :: u8"
abbreviation (input) "CCSDS_CFDP_ACK_TRANSACTION_STATUS_MASK \<equiv> 0x3 :: u8"

record ccsds_cfdp_pdu_header =
  hdr_version :: u8
  pdu_type :: u8
  direction :: u8
  transmission_mode :: u8
  crc_flag :: u8
  file_size_mode :: u8
  pdu_data_field_len :: u16
  segmentation_control :: u8
  segment_metadata_present :: bool
  entity_id_len :: u8
  transaction_sequence_number_len :: u8
  source_entity_id :: u64
  transaction_sequence_number :: u64
  destination_entity_id :: u64

type_synonym ccsds_cfdp_lv = bytes

record ccsds_cfdp_tlv =
  tlv_type :: u8
  tlv_value :: bytes

record ccsds_cfdp_metadata_pdu =
  md_header :: ccsds_cfdp_pdu_header
  closure_requested :: bool
  md_checksum_type :: ccsds_cfdp_checksum_type
  md_file_size :: u32
  source_filename :: ccsds_cfdp_lv
  destination_filename :: ccsds_cfdp_lv

record ccsds_cfdp_filedata_pdu =
  fd_header :: ccsds_cfdp_pdu_header
  fd_offset :: u32
  fd_data :: bytes

record ccsds_cfdp_eof_pdu =
  eof_header :: ccsds_cfdp_pdu_header
  eof_condition_code :: u8
  file_checksum :: u32
  eof_file_size :: u32

record ccsds_cfdp_finished_pdu =
  fin_header :: ccsds_cfdp_pdu_header
  fin_condition_code :: u8
  delivery_code :: u8
  file_status :: u8

record ccsds_cfdp_ack_pdu =
  ack_header :: ccsds_cfdp_pdu_header
  acknowledged_directive :: u8
  directive_subtype :: u8
  ack_condition_code :: u8
  transaction_status :: u8

record ccsds_cfdp_nak_range =
  nak_start :: u32
  nak_end :: u32

record ccsds_cfdp_nak_pdu =
  nak_header :: ccsds_cfdp_pdu_header
  scope_start :: u32
  scope_end :: u32
  nak_ranges :: "ccsds_cfdp_nak_range list"

section \<open>Field helpers\<close>

definition get_be64 :: "bytes \<Rightarrow> u64" where
  "get_be64 bs = push_bit 32 (ucast (be32_at bs 0)) OR ucast (be32_at bs 4)"

definition encoded_int_len_is_valid :: "u8 \<Rightarrow> nat \<Rightarrow> bool" where
  "encoded_int_len_is_valid len max_len \<longleftrightarrow> len \<ge> 1 \<and> unat len \<le> max_len \<and> len \<le> 8"

definition header_lengths_are_valid :: "cfdp_config \<Rightarrow> ccsds_cfdp_pdu_header \<Rightarrow> bool" where
  "header_lengths_are_valid cfg header \<longleftrightarrow>
     encoded_int_len_is_valid (entity_id_len header) (CCSDS_CFDP_MAX_ENTITY_ID_LEN cfg) \<and>
     encoded_int_len_is_valid (transaction_sequence_number_len header) (CCSDS_CFDP_MAX_TRANS_SEQ_LEN cfg)"

definition value_fits_len :: "u64 \<Rightarrow> u8 \<Rightarrow> bool" where
  "value_fits_len value len \<longleftrightarrow> len \<ge> 8 \<or> drop_bit (unat len * 8) value = 0"

definition write_be_uint :: "u8 \<Rightarrow> u64 \<Rightarrow> bytes" where
  "write_be_uint len value = drop (8 - unat len) (put_be64 value)"

definition read_be_uint :: "bytes \<Rightarrow> u8 \<Rightarrow> u64" where
  "read_be_uint buf len = get_be64 (replicate (8 - unat len) 0 @ take (unat len) buf)"

definition filename_len_is_valid :: "cfdp_config \<Rightarrow> ccsds_cfdp_lv \<Rightarrow> bool" where
  "filename_len_is_valid cfg filename \<longleftrightarrow>
     length filename > 0 \<and> length filename \<le> CCSDS_CFDP_MAX_FILENAME_LEN cfg"

definition condition_code_is_valid :: "u8 \<Rightarrow> bool" where
  "condition_code_is_valid code \<longleftrightarrow>
     code \<ge> CCSDS_CFDP_CONDITION_NO_ERROR \<and> code \<le> CCSDS_CFDP_CONDITION_CANCEL_REQUEST_RECEIVED"

definition ack_directive_is_supported :: "u8 \<Rightarrow> bool" where
  "ack_directive_is_supported directive \<longleftrightarrow>
     directive = CCSDS_CFDP_DIRECTIVE_EOF \<or> directive = CCSDS_CFDP_DIRECTIVE_FINISHED"

definition ack_subtype_is_valid :: "u8 \<Rightarrow> u8 \<Rightarrow> bool" where
  "ack_subtype_is_valid directive subtype =
     (if directive = CCSDS_CFDP_DIRECTIVE_FINISHED then subtype = CCSDS_CFDP_ACK_DIRECTIVE_SUBTYPE_FINISHED
      else subtype = CCSDS_CFDP_ACK_DIRECTIVE_SUBTYPE_OTHER)"

text \<open>The four-bit checksum field.\<close>

definition checksum_type_of :: "u8 \<Rightarrow> ccsds_cfdp_checksum_type" where
  "checksum_type_of v =
     (if v = 0 then CCSDS_CFDP_CHECKSUM_TYPE_MODULAR
      else if v = 2 then CCSDS_CFDP_CHECKSUM_TYPE_CRC32C
      else if v = 3 then CCSDS_CFDP_CHECKSUM_TYPE_IEEE_802_3_FCS
      else if v = 15 then CCSDS_CFDP_CHECKSUM_TYPE_NULL
      else CHECKSUM_TYPE_OTHER v)"

fun checksum_type_value :: "ccsds_cfdp_checksum_type \<Rightarrow> u8" where
  "checksum_type_value CCSDS_CFDP_CHECKSUM_TYPE_MODULAR = 0"
| "checksum_type_value CCSDS_CFDP_CHECKSUM_TYPE_CRC32C = 2"
| "checksum_type_value CCSDS_CFDP_CHECKSUM_TYPE_IEEE_802_3_FCS = 3"
| "checksum_type_value CCSDS_CFDP_CHECKSUM_TYPE_NULL = 15"
| "checksum_type_value (CHECKSUM_TYPE_OTHER v) = v"

section \<open>Header\<close>

definition ccsds_cfdp_header_encoded_len :: "cfdp_config \<Rightarrow> ccsds_cfdp_pdu_header \<Rightarrow> nat" where
  "ccsds_cfdp_header_encoded_len cfg header =
     (if \<not> header_lengths_are_valid cfg header then 0
      else 4 + 2 * unat (entity_id_len header) + unat (transaction_sequence_number_len header))"

definition ccsds_cfdp_encode_header ::
  "cfdp_config \<Rightarrow> ccsds_cfdp_pdu_header \<Rightarrow> nat \<Rightarrow> ccsds_cfdp_status + bytes" where
  "ccsds_cfdp_encode_header cfg header cap =
     (if hdr_version header \<noteq> CCSDS_CFDP_VERSION_1 \<or> pdu_type header > CCSDS_CFDP_PDU_TYPE_FILE_DATA \<or>
         direction header > CCSDS_CFDP_DIRECTION_TOWARD_SENDER \<or>
         transmission_mode header > CCSDS_CFDP_TRANSMISSION_MODE_UNACKNOWLEDGED \<or>
         crc_flag header > CCSDS_CFDP_CRC_PRESENT \<or>
         segmentation_control header > CCSDS_CFDP_SEGMENTATION_RECORD_BOUNDARIES_PRESERVED
      then Inl CCSDS_CFDP_STATUS_INVALID_ARGUMENT
      else if file_size_mode header \<noteq> CCSDS_CFDP_FILE_SIZE_SMALL then Inl CCSDS_CFDP_STATUS_UNSUPPORTED
      else if \<not> header_lengths_are_valid cfg header \<or>
         \<not> value_fits_len (source_entity_id header) (entity_id_len header) \<or>
         \<not> value_fits_len (transaction_sequence_number header) (transaction_sequence_number_len header) \<or>
         \<not> value_fits_len (destination_entity_id header) (entity_id_len header)
      then Inl CCSDS_CFDP_STATUS_INVALID_ARGUMENT
      else if cap < ccsds_cfdp_header_encoded_len cfg header then Inl CCSDS_CFDP_STATUS_BUFFER_TOO_SMALL
      else Inr
        ([push_bit 5 (hdr_version header AND 0x7) OR push_bit 4 (pdu_type header AND 0x1) OR
          push_bit 3 (direction header AND 0x1) OR push_bit 2 (transmission_mode header AND 0x1) OR
          push_bit 1 (crc_flag header AND 0x1) OR (file_size_mode header AND 0x1)] @
         put_be16 (pdu_data_field_len header) @
         [push_bit 7 (segmentation_control header AND 0x1) OR
          push_bit 4 ((entity_id_len header - 1) AND 0x7) OR
          (if segment_metadata_present header then 0x08 else 0) OR
          ((transaction_sequence_number_len header - 1) AND 0x7)] @
         write_be_uint (entity_id_len header) (source_entity_id header) @
         write_be_uint (transaction_sequence_number_len header) (transaction_sequence_number header) @
         write_be_uint (entity_id_len header) (destination_entity_id header)))"

definition ccsds_cfdp_decode_header ::
  "cfdp_config \<Rightarrow> bytes \<Rightarrow> ccsds_cfdp_status + ccsds_cfdp_pdu_header \<times> nat" where
  "ccsds_cfdp_decode_header cfg buf =
     (if length buf < 4 then Inl CCSDS_CFDP_STATUS_MALFORMED_PDU
      else
        let version = drop_bit 5 (buf ! 0) AND 0x7; fsm = buf ! 0 AND 0x1 in
        if version \<noteq> CCSDS_CFDP_VERSION_1 then Inl CCSDS_CFDP_STATUS_UNSUPPORTED
        else if fsm \<noteq> CCSDS_CFDP_FILE_SIZE_SMALL then Inl CCSDS_CFDP_STATUS_UNSUPPORTED
        else
          let crc = drop_bit 1 (buf ! 0) AND 0x1;
              id_len = (drop_bit 4 (buf ! 3) AND 0x7) + 1;
              trans_seq_len = (buf ! 3 AND 0x7) + 1
          in if \<not> encoded_int_len_is_valid id_len (CCSDS_CFDP_MAX_ENTITY_ID_LEN cfg) \<or>
                \<not> encoded_int_len_is_valid trans_seq_len (CCSDS_CFDP_MAX_TRANS_SEQ_LEN cfg)
             then Inl CCSDS_CFDP_STATUS_UNSUPPORTED
             else
               let needed = 4 + 2 * unat id_len + unat trans_seq_len in
               if length buf < needed then Inl CCSDS_CFDP_STATUS_MALFORMED_PDU
               else Inr (\<lparr>
                 hdr_version = version,
                 pdu_type = drop_bit 4 (buf ! 0) AND 0x1,
                 direction = drop_bit 3 (buf ! 0) AND 0x1,
                 transmission_mode = drop_bit 2 (buf ! 0) AND 0x1,
                 crc_flag = crc,
                 file_size_mode = fsm,
                 pdu_data_field_len = be16_at buf 1,
                 segmentation_control = drop_bit 7 (buf ! 3) AND 0x1,
                 segment_metadata_present = (buf ! 3 AND 0x08 \<noteq> 0),
                 entity_id_len = id_len,
                 transaction_sequence_number_len = trans_seq_len,
                 source_entity_id = read_be_uint (drop 4 buf) id_len,
                 transaction_sequence_number = read_be_uint (drop (4 + unat id_len) buf) trans_seq_len,
                 destination_entity_id =
                   read_be_uint (drop (4 + unat id_len + unat trans_seq_len) buf) id_len\<rparr>, needed))"

section \<open>LV and TLV fields\<close>

definition ccsds_cfdp_lv_read :: "bytes \<Rightarrow> ccsds_cfdp_status + ccsds_cfdp_lv \<times> nat" where
  "ccsds_cfdp_lv_read buf =
     (if length buf < 1 then Inl CCSDS_CFDP_STATUS_MALFORMED_PDU
      else let value_len = unat (buf ! 0) in
        if length buf - 1 < value_len then Inl CCSDS_CFDP_STATUS_MALFORMED_PDU
        else Inr (take value_len (drop 1 buf), 1 + value_len))"

definition ccsds_cfdp_lv_write :: "bytes \<Rightarrow> nat \<Rightarrow> ccsds_cfdp_status + bytes" where
  "ccsds_cfdp_lv_write value cap =
     (if cap < 1 + length value then Inl CCSDS_CFDP_STATUS_BUFFER_TOO_SMALL
      else Inr (word_of_nat (length value) # value))"

definition ccsds_cfdp_tlv_read :: "bytes \<Rightarrow> ccsds_cfdp_status + ccsds_cfdp_tlv \<times> nat" where
  "ccsds_cfdp_tlv_read buf =
     (if length buf < 1 then Inl CCSDS_CFDP_STATUS_MALFORMED_PDU
      else if length buf < 2 then Inl CCSDS_CFDP_STATUS_MALFORMED_PDU
      else let value_len = unat (buf ! 1) in
        if length buf - 2 < value_len then Inl CCSDS_CFDP_STATUS_MALFORMED_PDU
        else Inr (\<lparr>tlv_type = buf ! 0, tlv_value = take value_len (drop 2 buf)\<rparr>, 2 + value_len))"

definition ccsds_cfdp_tlv_write :: "u8 \<Rightarrow> bytes \<Rightarrow> nat \<Rightarrow> ccsds_cfdp_status + bytes" where
  "ccsds_cfdp_tlv_write type value cap =
     (if cap < 2 + length value then Inl CCSDS_CFDP_STATUS_BUFFER_TOO_SMALL
      else Inr (type # word_of_nat (length value) # value))"

section \<open>Metadata PDU\<close>

definition ccsds_cfdp_encode_metadata ::
  "cfdp_config \<Rightarrow> ccsds_cfdp_metadata_pdu \<Rightarrow> nat \<Rightarrow> ccsds_cfdp_status + bytes" where
  "ccsds_cfdp_encode_metadata cfg metadata cap =
     (if pdu_type (md_header metadata) \<noteq> CCSDS_CFDP_PDU_TYPE_FILE_DIRECTIVE \<or>
         file_size_mode (md_header metadata) \<noteq> CCSDS_CFDP_FILE_SIZE_SMALL \<or>
         segment_metadata_present (md_header metadata)
      then Inl CCSDS_CFDP_STATUS_INVALID_ARGUMENT
      else if \<not> checksum_type_is_supported (md_checksum_type metadata)
      then Inl CCSDS_CFDP_STATUS_UNSUPPORTED_CHECKSUM
      else if \<not> filename_len_is_valid cfg (source_filename metadata) \<or>
              \<not> filename_len_is_valid cfg (destination_filename metadata)
      then Inl CCSDS_CFDP_STATUS_INVALID_ARGUMENT
      else
        let pdu_data_len = CCSDS_CFDP_METADATA_MIN_DATA_LEN + length (source_filename metadata) +
                           length (destination_filename metadata)
        in if pdu_data_len > UINT16_MAX then Inl CCSDS_CFDP_STATUS_INVALID_ARGUMENT
           else
             let header = (md_header metadata)\<lparr>pdu_data_field_len := word_of_nat pdu_data_len\<rparr> in
             case ccsds_cfdp_encode_header cfg header cap of
               Inl status \<Rightarrow> Inl status
             | Inr h \<Rightarrow>
                 if cap - length h < pdu_data_len then Inl CCSDS_CFDP_STATUS_BUFFER_TOO_SMALL
                 else
                   let buf = h @
                     [CCSDS_CFDP_DIRECTIVE_METADATA,
                      (if closure_requested metadata \<and>
                          transmission_mode header \<noteq> CCSDS_CFDP_TRANSMISSION_MODE_ACKNOWLEDGED
                       then CCSDS_CFDP_METADATA_CLOSURE_REQUESTED else 0) OR
                      (checksum_type_value (md_checksum_type metadata) AND CCSDS_CFDP_METADATA_CHECKSUM_MASK)] @
                     write_be_uint 4 (ucast (md_file_size metadata))
                   in case ccsds_cfdp_lv_write (source_filename metadata) (cap - length buf) of
                        Inl status \<Rightarrow> Inl status
                      | Inr src \<Rightarrow>
                          (case ccsds_cfdp_lv_write (destination_filename metadata) (cap - length (buf @ src)) of
                             Inl status \<Rightarrow> Inl status
                           | Inr dst \<Rightarrow> Inr (buf @ src @ dst)))"

definition ccsds_cfdp_decode_metadata ::
  "cfdp_config \<Rightarrow> bytes \<Rightarrow> ccsds_cfdp_status + ccsds_cfdp_metadata_pdu \<times> nat" where
  "ccsds_cfdp_decode_metadata cfg buf =
     (case ccsds_cfdp_decode_header cfg buf of
        Inl status \<Rightarrow> Inl status
      | Inr (header, header_len) \<Rightarrow>
          if pdu_type header \<noteq> CCSDS_CFDP_PDU_TYPE_FILE_DIRECTIVE \<or>
             file_size_mode header \<noteq> CCSDS_CFDP_FILE_SIZE_SMALL \<or> segment_metadata_present header
          then Inl CCSDS_CFDP_STATUS_MALFORMED_PDU
          else if unat (pdu_data_field_len header) < CCSDS_CFDP_METADATA_MIN_DATA_LEN \<or>
                  length buf - header_len < unat (pdu_data_field_len header)
          then Inl CCSDS_CFDP_STATUS_MALFORMED_PDU
          else
            let pdu_end = header_len + unat (pdu_data_field_len header); offset = header_len in
            if buf ! offset \<noteq> CCSDS_CFDP_DIRECTIVE_METADATA then Inl CCSDS_CFDP_STATUS_MALFORMED_PDU
            else
              let metadata_control = buf ! (offset + 1);
                  ctype = checksum_type_of (metadata_control AND CCSDS_CFDP_METADATA_CHECKSUM_MASK);
                  offset = offset + 2
              in if metadata_control AND CCSDS_CFDP_METADATA_RESERVED_MASK \<noteq> 0
                 then Inl CCSDS_CFDP_STATUS_MALFORMED_PDU
                 else if \<not> checksum_type_is_supported ctype then Inl CCSDS_CFDP_STATUS_UNSUPPORTED_CHECKSUM
                 else if pdu_end - offset < 4 then Inl CCSDS_CFDP_STATUS_MALFORMED_PDU
                 else
                   let size = ucast (read_be_uint (drop offset buf) 4); offset = offset + 4 in
                   case ccsds_cfdp_lv_read (take (pdu_end - offset) (drop offset buf)) of
                     Inl status \<Rightarrow> Inl status
                   | Inr (src, src_consumed) \<Rightarrow>
                       if \<not> filename_len_is_valid cfg src then Inl CCSDS_CFDP_STATUS_INVALID_ARGUMENT
                       else
                         let offset = offset + src_consumed in
                         case ccsds_cfdp_lv_read (take (pdu_end - offset) (drop offset buf)) of
                           Inl status \<Rightarrow> Inl status
                         | Inr (dst, dst_consumed) \<Rightarrow>
                             if \<not> filename_len_is_valid cfg dst then Inl CCSDS_CFDP_STATUS_INVALID_ARGUMENT
                             else
                               let offset = offset + dst_consumed in
                               if offset < pdu_end
                               then (case ccsds_cfdp_tlv_read (take (pdu_end - offset) (drop offset buf)) of
                                       Inl status \<Rightarrow> Inl status
                                     | Inr _ \<Rightarrow> Inl CCSDS_CFDP_STATUS_UNSUPPORTED)
                               else Inr (\<lparr>
                                 md_header = header,
                                 closure_requested =
                                   (metadata_control AND CCSDS_CFDP_METADATA_CLOSURE_REQUESTED \<noteq> 0),
                                 md_checksum_type = ctype,
                                 md_file_size = size,
                                 source_filename = src,
                                 destination_filename = dst\<rparr>, pdu_end))"

section \<open>File Data PDU\<close>

definition ccsds_cfdp_encode_filedata ::
  "cfdp_config \<Rightarrow> ccsds_cfdp_filedata_pdu \<Rightarrow> nat \<Rightarrow> ccsds_cfdp_status + bytes" where
  "ccsds_cfdp_encode_filedata cfg filedata cap =
     (if pdu_type (fd_header filedata) \<noteq> CCSDS_CFDP_PDU_TYPE_FILE_DATA \<or>
         segment_metadata_present (fd_header filedata)
      then Inl CCSDS_CFDP_STATUS_INVALID_ARGUMENT
      else if file_size_mode (fd_header filedata) \<noteq> CCSDS_CFDP_FILE_SIZE_SMALL
      then Inl CCSDS_CFDP_STATUS_UNSUPPORTED
      else if length (fd_data filedata) = 0 \<or>
              length (fd_data filedata) > UINT16_MAX - CCSDS_CFDP_FILEDATA_OFFSET_LEN
      then Inl CCSDS_CFDP_STATUS_INVALID_ARGUMENT
      else
        let pdu_data_len = CCSDS_CFDP_FILEDATA_OFFSET_LEN + length (fd_data filedata);
            header = (fd_header filedata)\<lparr>pdu_data_field_len := word_of_nat pdu_data_len\<rparr>
        in case ccsds_cfdp_encode_header cfg header cap of
             Inl status \<Rightarrow> Inl status
           | Inr h \<Rightarrow>
               if cap - length h < pdu_data_len then Inl CCSDS_CFDP_STATUS_BUFFER_TOO_SMALL
               else Inr (h @ put_be32 (fd_offset filedata) @ fd_data filedata))"

definition ccsds_cfdp_decode_filedata ::
  "cfdp_config \<Rightarrow> bytes \<Rightarrow> ccsds_cfdp_status + ccsds_cfdp_filedata_pdu \<times> nat" where
  "ccsds_cfdp_decode_filedata cfg buf =
     (case ccsds_cfdp_decode_header cfg buf of
        Inl status \<Rightarrow> Inl status
      | Inr (header, header_len) \<Rightarrow>
          if pdu_type header \<noteq> CCSDS_CFDP_PDU_TYPE_FILE_DATA \<or> segment_metadata_present header
          then Inl CCSDS_CFDP_STATUS_MALFORMED_PDU
          else if file_size_mode header \<noteq> CCSDS_CFDP_FILE_SIZE_SMALL then Inl CCSDS_CFDP_STATUS_UNSUPPORTED
          else if unat (pdu_data_field_len header) \<le> CCSDS_CFDP_FILEDATA_OFFSET_LEN \<or>
                  length buf - header_len < unat (pdu_data_field_len header)
          then Inl CCSDS_CFDP_STATUS_MALFORMED_PDU
          else
            let pdu_end = header_len + unat (pdu_data_field_len header); offset = header_len in
            if pdu_end - offset < CCSDS_CFDP_FILEDATA_OFFSET_LEN then Inl CCSDS_CFDP_STATUS_MALFORMED_PDU
            else
              let data_offset = offset + CCSDS_CFDP_FILEDATA_OFFSET_LEN in
              Inr (\<lparr>fd_header = header, fd_offset = be32_at buf offset,
                    fd_data = take (pdu_end - data_offset) (drop data_offset buf)\<rparr>, pdu_end))"

section \<open>EOF PDU\<close>

definition ccsds_cfdp_encode_eof ::
  "cfdp_config \<Rightarrow> ccsds_cfdp_eof_pdu \<Rightarrow> nat \<Rightarrow> ccsds_cfdp_status + bytes" where
  "ccsds_cfdp_encode_eof cfg eof cap =
     (if pdu_type (eof_header eof) \<noteq> CCSDS_CFDP_PDU_TYPE_FILE_DIRECTIVE \<or>
         segment_metadata_present (eof_header eof)
      then Inl CCSDS_CFDP_STATUS_INVALID_ARGUMENT
      else if file_size_mode (eof_header eof) \<noteq> CCSDS_CFDP_FILE_SIZE_SMALL
      then Inl CCSDS_CFDP_STATUS_UNSUPPORTED
      else if \<not> condition_code_is_valid (eof_condition_code eof) then Inl CCSDS_CFDP_STATUS_INVALID_ARGUMENT
      else
        let header = (eof_header eof)\<lparr>pdu_data_field_len := word_of_nat CCSDS_CFDP_EOF_DATA_LEN\<rparr> in
        case ccsds_cfdp_encode_header cfg header cap of
          Inl status \<Rightarrow> Inl status
        | Inr h \<Rightarrow>
            if cap - length h < CCSDS_CFDP_EOF_DATA_LEN then Inl CCSDS_CFDP_STATUS_BUFFER_TOO_SMALL
            else Inr (h @ [CCSDS_CFDP_DIRECTIVE_EOF, push_bit 4 (eof_condition_code eof AND 0x0f)] @
                      put_be32 (file_checksum eof) @ put_be32 (eof_file_size eof)))"

definition ccsds_cfdp_decode_eof ::
  "cfdp_config \<Rightarrow> bytes \<Rightarrow> ccsds_cfdp_status + ccsds_cfdp_eof_pdu \<times> nat" where
  "ccsds_cfdp_decode_eof cfg buf =
     (case ccsds_cfdp_decode_header cfg buf of
        Inl status \<Rightarrow> Inl status
      | Inr (header, header_len) \<Rightarrow>
          if pdu_type header \<noteq> CCSDS_CFDP_PDU_TYPE_FILE_DIRECTIVE \<or> segment_metadata_present header
          then Inl CCSDS_CFDP_STATUS_MALFORMED_PDU
          else if file_size_mode header \<noteq> CCSDS_CFDP_FILE_SIZE_SMALL then Inl CCSDS_CFDP_STATUS_UNSUPPORTED
          else if unat (pdu_data_field_len header) \<noteq> CCSDS_CFDP_EOF_DATA_LEN \<or>
                  length buf - header_len < unat (pdu_data_field_len header)
          then Inl CCSDS_CFDP_STATUS_MALFORMED_PDU
          else
            let pdu_end = header_len + unat (pdu_data_field_len header); offset = header_len in
            if pdu_end - offset < 1 then Inl CCSDS_CFDP_STATUS_MALFORMED_PDU
            else if buf ! offset \<noteq> CCSDS_CFDP_DIRECTIVE_EOF then Inl CCSDS_CFDP_STATUS_MALFORMED_PDU
            else if pdu_end - (offset + 1) < 1 then Inl CCSDS_CFDP_STATUS_MALFORMED_PDU
            else if pdu_end - (offset + 2) < 4 then Inl CCSDS_CFDP_STATUS_MALFORMED_PDU
            else if pdu_end - (offset + 6) < 4 then Inl CCSDS_CFDP_STATUS_MALFORMED_PDU
            else Inr (\<lparr>
              eof_header = header,
              eof_condition_code = drop_bit 4 (buf ! (offset + 1) AND CCSDS_CFDP_EOF_CONDITION_MASK),
              file_checksum = be32_at buf (offset + 2),
              eof_file_size = be32_at buf (offset + 6)\<rparr>, offset + 10))"

section \<open>Finished PDU\<close>

definition ccsds_cfdp_encode_finished ::
  "cfdp_config \<Rightarrow> ccsds_cfdp_finished_pdu \<Rightarrow> nat \<Rightarrow> ccsds_cfdp_status + bytes" where
  "ccsds_cfdp_encode_finished cfg finished cap =
     (if pdu_type (fin_header finished) \<noteq> CCSDS_CFDP_PDU_TYPE_FILE_DIRECTIVE \<or>
         segment_metadata_present (fin_header finished)
      then Inl CCSDS_CFDP_STATUS_INVALID_ARGUMENT
      else if file_size_mode (fin_header finished) \<noteq> CCSDS_CFDP_FILE_SIZE_SMALL
      then Inl CCSDS_CFDP_STATUS_UNSUPPORTED
      else if \<not> condition_code_is_valid (fin_condition_code finished) \<or>
              delivery_code finished > CCSDS_CFDP_DELIVERY_CODE_DATA_INCOMPLETE \<or>
              file_status finished > CCSDS_CFDP_FILE_STATUS_UNREPORTED
      then Inl CCSDS_CFDP_STATUS_INVALID_ARGUMENT
      else
        let header = (fin_header finished)\<lparr>pdu_data_field_len := word_of_nat CCSDS_CFDP_FINISHED_DATA_LEN\<rparr> in
        case ccsds_cfdp_encode_header cfg header cap of
          Inl status \<Rightarrow> Inl status
        | Inr h \<Rightarrow>
            if cap - length h < CCSDS_CFDP_FINISHED_DATA_LEN then Inl CCSDS_CFDP_STATUS_BUFFER_TOO_SMALL
            else Inr (h @
              [CCSDS_CFDP_DIRECTIVE_FINISHED,
               push_bit 4 (fin_condition_code finished AND 0x0f) OR
               push_bit 2 (delivery_code finished AND 0x01) OR
               (file_status finished AND CCSDS_CFDP_FINISHED_FILE_STATUS_MASK)]))"

definition ccsds_cfdp_decode_finished ::
  "cfdp_config \<Rightarrow> bytes \<Rightarrow> ccsds_cfdp_status + ccsds_cfdp_finished_pdu \<times> nat" where
  "ccsds_cfdp_decode_finished cfg buf =
     (case ccsds_cfdp_decode_header cfg buf of
        Inl status \<Rightarrow> Inl status
      | Inr (header, header_len) \<Rightarrow>
          if pdu_type header \<noteq> CCSDS_CFDP_PDU_TYPE_FILE_DIRECTIVE \<or> segment_metadata_present header
          then Inl CCSDS_CFDP_STATUS_MALFORMED_PDU
          else if file_size_mode header \<noteq> CCSDS_CFDP_FILE_SIZE_SMALL then Inl CCSDS_CFDP_STATUS_UNSUPPORTED
          else if unat (pdu_data_field_len header) \<noteq> CCSDS_CFDP_FINISHED_DATA_LEN \<or>
                  length buf - header_len < unat (pdu_data_field_len header)
          then Inl CCSDS_CFDP_STATUS_MALFORMED_PDU
          else
            let pdu_end = header_len + unat (pdu_data_field_len header); offset = header_len in
            if pdu_end - offset < 1 then Inl CCSDS_CFDP_STATUS_MALFORMED_PDU
            else if buf ! offset \<noteq> CCSDS_CFDP_DIRECTIVE_FINISHED then Inl CCSDS_CFDP_STATUS_MALFORMED_PDU
            else if pdu_end - (offset + 1) < 1 then Inl CCSDS_CFDP_STATUS_MALFORMED_PDU
            else
              let status_byte = buf ! (offset + 1);
                  condition_code = drop_bit 4 (status_byte AND CCSDS_CFDP_FINISHED_CONDITION_MASK)
              in if status_byte AND CCSDS_CFDP_FINISHED_SPARE_MASK \<noteq> 0 then Inl CCSDS_CFDP_STATUS_MALFORMED_PDU
                 else if \<not> condition_code_is_valid condition_code then Inl CCSDS_CFDP_STATUS_MALFORMED_PDU
                 else Inr (\<lparr>
                   fin_header = header,
                   fin_condition_code = condition_code,
                   delivery_code = drop_bit 2 (status_byte AND CCSDS_CFDP_FINISHED_DELIVERY_MASK),
                   file_status = status_byte AND CCSDS_CFDP_FINISHED_FILE_STATUS_MASK\<rparr>, offset + 2))"

section \<open>ACK PDU\<close>

definition ccsds_cfdp_encode_ack ::
  "cfdp_config \<Rightarrow> ccsds_cfdp_ack_pdu \<Rightarrow> nat \<Rightarrow> ccsds_cfdp_status + bytes" where
  "ccsds_cfdp_encode_ack cfg ack cap =
     (if pdu_type (ack_header ack) \<noteq> CCSDS_CFDP_PDU_TYPE_FILE_DIRECTIVE \<or>
         segment_metadata_present (ack_header ack) \<or>
         \<not> ack_directive_is_supported (acknowledged_directive ack) \<or>
         \<not> ack_subtype_is_valid (acknowledged_directive ack) (directive_subtype ack) \<or>
         \<not> condition_code_is_valid (ack_condition_code ack) \<or>
         transaction_status ack > CCSDS_CFDP_TRANSACTION_STATUS_UNRECOGNIZED
      then Inl CCSDS_CFDP_STATUS_INVALID_ARGUMENT
      else if file_size_mode (ack_header ack) \<noteq> CCSDS_CFDP_FILE_SIZE_SMALL
      then Inl CCSDS_CFDP_STATUS_UNSUPPORTED
      else
        let header = (ack_header ack)\<lparr>pdu_data_field_len := word_of_nat CCSDS_CFDP_ACK_DATA_LEN\<rparr> in
        case ccsds_cfdp_encode_header cfg header cap of
          Inl status \<Rightarrow> Inl status
        | Inr h \<Rightarrow>
            if cap - length h < CCSDS_CFDP_ACK_DATA_LEN then Inl CCSDS_CFDP_STATUS_BUFFER_TOO_SMALL
            else Inr (h @
              [CCSDS_CFDP_DIRECTIVE_ACK,
               push_bit 4 (acknowledged_directive ack AND 0x0f) OR (directive_subtype ack AND 0x0f),
               push_bit 4 (ack_condition_code ack AND 0x0f) OR
               (transaction_status ack AND CCSDS_CFDP_ACK_TRANSACTION_STATUS_MASK)]))"

definition ccsds_cfdp_decode_ack ::
  "cfdp_config \<Rightarrow> bytes \<Rightarrow> ccsds_cfdp_status + ccsds_cfdp_ack_pdu \<times> nat" where
  "ccsds_cfdp_decode_ack cfg buf =
     (case ccsds_cfdp_decode_header cfg buf of
        Inl status \<Rightarrow> Inl status
      | Inr (header, header_len) \<Rightarrow>
          if pdu_type header \<noteq> CCSDS_CFDP_PDU_TYPE_FILE_DIRECTIVE \<or> segment_metadata_present header
          then Inl CCSDS_CFDP_STATUS_MALFORMED_PDU
          else if file_size_mode header \<noteq> CCSDS_CFDP_FILE_SIZE_SMALL then Inl CCSDS_CFDP_STATUS_UNSUPPORTED
          else if unat (pdu_data_field_len header) \<noteq> CCSDS_CFDP_ACK_DATA_LEN \<or>
                  length buf - header_len < unat (pdu_data_field_len header)
          then Inl CCSDS_CFDP_STATUS_MALFORMED_PDU
          else
            let pdu_end = header_len + unat (pdu_data_field_len header); offset = header_len in
            if buf ! offset \<noteq> CCSDS_CFDP_DIRECTIVE_ACK then Inl CCSDS_CFDP_STATUS_MALFORMED_PDU
            else
              let directive_byte = buf ! (offset + 1);
                  directive = drop_bit 4 (directive_byte AND CCSDS_CFDP_ACK_DIRECTIVE_MASK);
                  subtype = directive_byte AND CCSDS_CFDP_ACK_SUBTYPE_MASK;
                  status_byte = buf ! (offset + 2);
                  condition_code = drop_bit 4 (status_byte AND CCSDS_CFDP_ACK_CONDITION_MASK)
              in if \<not> ack_directive_is_supported directive \<or> \<not> ack_subtype_is_valid directive subtype
                 then Inl CCSDS_CFDP_STATUS_UNSUPPORTED
                 else if status_byte AND CCSDS_CFDP_ACK_SPARE_MASK \<noteq> 0 then Inl CCSDS_CFDP_STATUS_MALFORMED_PDU
                 else if \<not> condition_code_is_valid condition_code then Inl CCSDS_CFDP_STATUS_MALFORMED_PDU
                 else Inr (\<lparr>
                   ack_header = header,
                   acknowledged_directive = directive,
                   directive_subtype = subtype,
                   ack_condition_code = condition_code,
                   transaction_status = status_byte AND CCSDS_CFDP_ACK_TRANSACTION_STATUS_MASK\<rparr>, pdu_end))"

section \<open>NAK PDU\<close>

text \<open>
  \<^verbatim>\<open>range_count\<close> is the length of the list of ranges.  The loops over the ranges are the
  recursions below.
\<close>

definition nak_range_is_valid :: "ccsds_cfdp_nak_pdu \<Rightarrow> ccsds_cfdp_nak_range \<Rightarrow> bool" where
  "nak_range_is_valid nak r \<longleftrightarrow>
     \<not> (nak_start r \<ge> nak_end r \<or> nak_start r < scope_start nak \<or> nak_end r > scope_end nak)"

definition nak_validate_ranges :: "cfdp_config \<Rightarrow> ccsds_cfdp_nak_pdu \<Rightarrow> ccsds_cfdp_status" where
  "nak_validate_ranges cfg nak =
     (if scope_start nak \<ge> scope_end nak \<or> length (nak_ranges nak) > CCSDS_CFDP_MAX_NAK_RANGES cfg
      then CCSDS_CFDP_STATUS_INVALID_ARGUMENT
      else if list_all (nak_range_is_valid nak) (nak_ranges nak) then CCSDS_CFDP_STATUS_OK
      else CCSDS_CFDP_STATUS_INVALID_ARGUMENT)"

fun put_nak_ranges :: "ccsds_cfdp_nak_range list \<Rightarrow> bytes" where
  "put_nak_ranges [] = []"
| "put_nak_ranges (r # rs) = put_be32 (nak_start r) @ put_be32 (nak_end r) @ put_nak_ranges rs"

fun get_nak_ranges :: "bytes \<Rightarrow> nat \<Rightarrow> nat \<Rightarrow> ccsds_cfdp_nak_range list" where
  "get_nak_ranges buf offset 0 = []"
| "get_nak_ranges buf offset (Suc n) =
     \<lparr>nak_start = be32_at buf offset, nak_end = be32_at buf (offset + 4)\<rparr> # get_nak_ranges buf (offset + 8) n"

definition ccsds_cfdp_encode_nak ::
  "cfdp_config \<Rightarrow> ccsds_cfdp_nak_pdu \<Rightarrow> nat \<Rightarrow> ccsds_cfdp_status + bytes" where
  "ccsds_cfdp_encode_nak cfg nak cap =
     (if pdu_type (nak_header nak) \<noteq> CCSDS_CFDP_PDU_TYPE_FILE_DIRECTIVE \<or>
         segment_metadata_present (nak_header nak)
      then Inl CCSDS_CFDP_STATUS_INVALID_ARGUMENT
      else if file_size_mode (nak_header nak) \<noteq> CCSDS_CFDP_FILE_SIZE_SMALL
      then Inl CCSDS_CFDP_STATUS_UNSUPPORTED
      else if nak_validate_ranges cfg nak \<noteq> CCSDS_CFDP_STATUS_OK then Inl (nak_validate_ranges cfg nak)
      else
        let pdu_data_len = CCSDS_CFDP_NAK_MIN_DATA_LEN + length (nak_ranges nak) * CCSDS_CFDP_NAK_RANGE_LEN in
        if pdu_data_len > UINT16_MAX then Inl CCSDS_CFDP_STATUS_INVALID_ARGUMENT
        else
          let header = (nak_header nak)\<lparr>pdu_data_field_len := word_of_nat pdu_data_len\<rparr> in
          case ccsds_cfdp_encode_header cfg header cap of
            Inl status \<Rightarrow> Inl status
          | Inr h \<Rightarrow>
              if cap - length h < pdu_data_len then Inl CCSDS_CFDP_STATUS_BUFFER_TOO_SMALL
              else Inr (h @ [CCSDS_CFDP_DIRECTIVE_NAK] @ put_be32 (scope_start nak) @
                        put_be32 (scope_end nak) @ put_nak_ranges (nak_ranges nak)))"

definition ccsds_cfdp_decode_nak ::
  "cfdp_config \<Rightarrow> bytes \<Rightarrow> ccsds_cfdp_status + ccsds_cfdp_nak_pdu \<times> nat" where
  "ccsds_cfdp_decode_nak cfg buf =
     (case ccsds_cfdp_decode_header cfg buf of
        Inl status \<Rightarrow> Inl status
      | Inr (header, header_len) \<Rightarrow>
          if pdu_type header \<noteq> CCSDS_CFDP_PDU_TYPE_FILE_DIRECTIVE \<or> segment_metadata_present header
          then Inl CCSDS_CFDP_STATUS_MALFORMED_PDU
          else if file_size_mode header \<noteq> CCSDS_CFDP_FILE_SIZE_SMALL then Inl CCSDS_CFDP_STATUS_UNSUPPORTED
          else if unat (pdu_data_field_len header) < CCSDS_CFDP_NAK_MIN_DATA_LEN \<or>
                  length buf - header_len < unat (pdu_data_field_len header)
          then Inl CCSDS_CFDP_STATUS_MALFORMED_PDU
          else
            let pdu_end = header_len + unat (pdu_data_field_len header);
                remaining = unat (pdu_data_field_len header) - CCSDS_CFDP_NAK_MIN_DATA_LEN
            in if remaining mod CCSDS_CFDP_NAK_RANGE_LEN \<noteq> 0 \<or>
                  remaining div CCSDS_CFDP_NAK_RANGE_LEN > CCSDS_CFDP_MAX_NAK_RANGES cfg
               then Inl CCSDS_CFDP_STATUS_MALFORMED_PDU
               else if buf ! header_len \<noteq> CCSDS_CFDP_DIRECTIVE_NAK then Inl CCSDS_CFDP_STATUS_MALFORMED_PDU
               else
                 let nak = \<lparr>
                   nak_header = header,
                   scope_start = be32_at buf (header_len + 1),
                   scope_end = be32_at buf (header_len + 5),
                   nak_ranges = get_nak_ranges buf (header_len + 9) (remaining div CCSDS_CFDP_NAK_RANGE_LEN)\<rparr>
                 in if nak_validate_ranges cfg nak \<noteq> CCSDS_CFDP_STATUS_OK then Inl CCSDS_CFDP_STATUS_MALFORMED_PDU
                    else Inr (nak, pdu_end))"

end
