(* ===== verification/Cfdp_Codec.thy ===== *)
theory Cfdp_Codec
  imports Cfdp_Pdu
begin

unbundle bit_operations_syntax

text \<open>
  What the PDU codec of \<open>Cfdp_Pdu\<close> promises.  The contract is the locale \<open>pdu_codec\<close>: what an encoder
  writes, the decoder reads back, whatever follows it, and what a decoder accepts can be
  encoded again.  It is interpreted on the six PDU codecs; the lemmas before it establish its
  laws from the variable-length integers, the header and the bit fields upwards.
\<close>

section \<open>Variable-length integers\<close>

lemma nth_put_be64: "i < 8 \<Longrightarrow> put_be64 w ! i = ucast (drop_bit (8 * (7 - i)) w)"
  by (drule less_8_cases) (auto simp: put_be64_def put_be32_def intro!: bit_word_eqI simp: bit_simps)

lemma bit_put_be64:
  assumes "k < 64" shows "bit w k = bit (put_be64 w ! (7 - k div 8)) (k mod 8)"
proof -
  have "k div 8 < 8" using assms by simp
  then have "7 - (7 - k div 8) = k div 8" by simp
  then show ?thesis by (simp add: nth_put_be64 bit_simps) 
qed

lemma length_8_cases: "length bs = 8 \<Longrightarrow> \<exists>a b c d e f g h. bs = [a, b, c, d, e, f, g, h]"
  by (auto simp: length_Suc_conv eval_nat_numeral)

lemma get_be64_halves:
  "ucast (drop_bit 32 (get_be64 bs)) = be32_at bs 0" "ucast (get_be64 bs) = be32_at bs 4"
  by (rule bit_word_eqI, auto simp: get_be64_def bit_simps dest: bit_imp_le_length)+

lemma put_get_be64: "length bs = 8 \<Longrightarrow> put_be64 (get_be64 bs) = bs"
  by (drule length_8_cases) (auto simp: put_be64_def get_be64_halves be32_at_def put_get_be32)

lemma get_put_be64 [simp]: "get_be64 (put_be64 w) = w"
  by (simp add: put_get_be64 flip: put_be64_inject)

lemma length_write_be_uint [simp]: "unat len \<le> 8 \<Longrightarrow> length (write_be_uint len v) = unat len"
  by (simp add: write_be_uint_def)

lemma value_fits_iff:
  assumes "unat len \<le> 8"
  shows "value_fits_len v len \<longleftrightarrow> take (8 - unat len) (put_be64 v) = replicate (8 - unat len) 0"
proof (cases "unat len = 8")
  case True
  then have "len \<ge> 8" by (simp add: word_le_nat_alt)
  with True show ?thesis by (simp add: value_fits_len_def)
next
  case False
  let ?n = "unat len"
  from False assms have n: "?n < 8" by simp
  then have fits: "value_fits_len v len \<longleftrightarrow> drop_bit (?n * 8) v = 0"
    by (simp add: value_fits_len_def word_le_nat_alt)
  show ?thesis
  proof
    assume "value_fits_len v len"
    then have z: "drop_bit (?n * 8) v = 0" by (simp add: fits)
    have "put_be64 v ! i = 0" if "i < 8 - ?n" for i
    proof -
      from that have "8 * (7 - i) = ?n * 8 + 8 * (7 - i - ?n)" by simp
      then have "drop_bit (8 * (7 - i)) v = drop_bit (8 * (7 - i - ?n)) (drop_bit (?n * 8) v)"
        by (simp add: add.commute)
      with z that show ?thesis by (simp add: nth_put_be64)
    qed
    then show "take (8 - ?n) (put_be64 v) = replicate (8 - ?n) 0"
      by (intro nth_equalityI) auto
  next
    assume t: "take (8 - ?n) (put_be64 v) = replicate (8 - ?n) 0"
    have "\<not> bit v k" if "?n * 8 \<le> k" "k < 64" for k
    proof -
      from that have i: "7 - k div 8 < 8 - ?n" by (simp add: less_eq_div_iff_mult_less_eq)
      from arg_cong [OF t, of "\<lambda>xs. xs ! (7 - k div 8)"] i have "put_be64 v ! (7 - k div 8) = 0" by simp
      with bit_put_be64 [OF that(2), of v] show ?thesis by simp
    qed
    then have "drop_bit (?n * 8) v = 0"
      by (intro bit_word_eqI) (use bit_imp_le_length in \<open>fastforce simp: bit_simps\<close>)
    then show "value_fits_len v len" by (simp add: fits)
  qed
qed

lemma read_write_be_uint:
  "unat len \<le> 8 \<Longrightarrow> value_fits_len v len \<Longrightarrow> read_be_uint (write_be_uint len v @ rest) len = v"
  by (simp add: read_be_uint_def write_be_uint_def value_fits_iff)
    (metis append_take_drop_id get_put_be64)

lemma write_read_be_uint:
  "unat len \<le> 8 \<Longrightarrow> unat len \<le> length buf \<Longrightarrow> write_be_uint len (read_be_uint buf len) = take (unat len) buf"
  by (simp add: read_be_uint_def write_be_uint_def put_get_be64)

lemma value_fits_read_be_uint:
  "unat len \<le> 8 \<Longrightarrow> unat len \<le> length buf \<Longrightarrow> value_fits_len (read_be_uint buf len) len"
  by (simp add: read_be_uint_def value_fits_iff put_get_be64)

section \<open>Header\<close>

lemma u8_le_1: "(x :: u8) \<le> 1 \<longleftrightarrow> x = 0 \<or> x = 1"
  by (auto simp: word_le_nat_alt le_Suc_eq word_unat_eq_iff)

lemma flag_byte:
  assumes "p \<le> 1" "d \<le> 1" "t \<le> 1" "c \<le> (1 :: u8)"
  defines "b \<equiv> push_bit 5 (1 AND 0x7) OR push_bit 4 (p AND 0x1) OR push_bit 3 (d AND 0x1) OR
               push_bit 2 (t AND 0x1) OR push_bit 1 (c AND 0x1) OR (0 AND 0x1 :: u8)"
  shows "drop_bit 5 b AND 0x7 = 1" "b AND 0x1 = 0" "drop_bit 4 b AND 0x1 = p" "drop_bit 3 b AND 0x1 = d"
    "drop_bit 2 b AND 0x1 = t" "drop_bit 1 b AND 0x1 = c"
  using assms(1-4) unfolding u8_le_1 b_def by (elim disjE; simp)+

lemma u8_length_field: "1 \<le> n \<Longrightarrow> n \<le> 8 \<Longrightarrow> ((n - 1) AND 0x7) + 1 = (n :: u8)"
proof -
  assume "1 \<le> n" "n \<le> 8"
  then have "n - 1 < 2 ^ 3" by (simp add: word_le_nat_alt word_less_nat_alt unat_sub)
  then show ?thesis by (simp add: mask_simps word_le_take_bit)
qed

lemma and_8_bit: "(w :: u8) AND 8 \<noteq> 0 \<longleftrightarrow> bit w 3"
  using and_exp_eq_0_iff_not_bit [of w 3] by simp

lemma bit_8_int: "bit (8 :: int) n \<longleftrightarrow> n = 3"
  using bit_exp_iff [of 3 n, where 'a = int] by auto

lemma length_byte:
  fixes s e q :: u8 and m :: bool
  assumes "s \<le> 1"
  defines "b \<equiv> push_bit 7 (s AND 0x1) OR push_bit 4 (e AND 0x7) OR (if m then 0x08 else 0) OR (q AND 0x7)"
  shows "drop_bit 7 b AND 0x1 = s" "drop_bit 4 b AND 0x7 = e AND 0x7" "b AND 0x7 = q AND 0x7"
    "b AND 0x08 \<noteq> 0 \<longleftrightarrow> m"
proof -
  have "bit b n \<longleftrightarrow> (if n < 3 then bit q n else if n = 3 then m else if n < 7 then bit e (n - 4)
      else n = 7 \<and> odd s)" if "n < 8" for n
    using that unfolding b_def by (auto simp: mask_simps bit_simps bit_8_int even_drop_bit_iff_not_bit)
  note bits = this
  from assms(1) show "drop_bit 7 b AND 0x1 = s"
    by (intro bit_word_eqI) (auto simp: mask_simps bit_simps bits u8_le_1 even_drop_bit_iff_not_bit)
  show "drop_bit 4 b AND 0x7 = e AND 0x7" "b AND 0x7 = q AND 0x7"
    by (auto intro!: bit_word_eqI simp: mask_simps bit_simps bits)
  show "b AND 0x08 \<noteq> 0 \<longleftrightarrow> m" by (simp add: and_8_bit bits)
qed

lemma bit_u8_eqI:
  fixes v w :: u8
  assumes "bit v 0 = bit w 0" "bit v 1 = bit w 1" "bit v 2 = bit w 2" "bit v 3 = bit w 3"
    "bit v 4 = bit w 4" "bit v 5 = bit w 5" "bit v 6 = bit w 6" "bit v 7 = bit w 7"
  shows "v = w"
proof (rule bit_word_eqI)
  fix n
  assume "n < LENGTH(8)"
  then have "n \<in> {0, 1, 2, 3, 4, 5, 6, 7}" by (intro less_8_cases) simp
  with assms show "bit v n = bit w n" by blast
qed

lemma flag_byte_rebuild:
  "push_bit 5 (drop_bit 5 b AND 0x7) OR push_bit 4 (drop_bit 4 b AND 0x1) OR push_bit 3 (drop_bit 3 b AND 0x1) OR
   push_bit 2 (drop_bit 2 b AND 0x1) OR push_bit 1 (drop_bit 1 b AND 0x1) OR (b AND 0x1) = (b :: u8)"
  by (rule bit_u8_eqI; simp only: mask_simps bit_or_iff bit_push_bit_iff bit_take_bit_iff bit_drop_bit_eq o_apply)
    (simp_all del: bit_0)

lemma length_byte_rebuild:
  "push_bit 7 (drop_bit 7 b AND 0x1) OR push_bit 4 (drop_bit 4 b AND 0x7) OR
   (if b AND 0x08 \<noteq> 0 then 0x08 else 0) OR (b AND 0x7) = (b :: u8)"
  unfolding and_8_bit by (rule bit_u8_eqI) (simp_all add: mask_simps bit_simps bit_8_int even_drop_bit_iff_not_bit)

lemmas header_encodable_defs = ccsds_cfdp_header_encoded_len_def header_lengths_are_valid_def encoded_int_len_is_valid_def

lemma encode_headerD:
  assumes "ccsds_cfdp_encode_header cfg h cap = Inr bs"
  shows "hdr_version h = 1" "pdu_type h \<le> 1" "direction h \<le> 1" "transmission_mode h \<le> 1" "crc_flag h \<le> 1"
    "segmentation_control h \<le> 1" "file_size_mode h = 0" "header_lengths_are_valid cfg h"
    "value_fits_len (source_entity_id h) (entity_id_len h)"
    "value_fits_len (transaction_sequence_number h) (transaction_sequence_number_len h)"
    "value_fits_len (destination_entity_id h) (entity_id_len h)"
    "ccsds_cfdp_header_encoded_len cfg h \<le> cap"
  using assms by (auto simp: ccsds_cfdp_encode_header_def not_le not_less split: if_splits)

lemma header_lengthsD:
  assumes "header_lengths_are_valid cfg h"
  shows "1 \<le> entity_id_len h" "entity_id_len h \<le> 8" "1 \<le> transaction_sequence_number_len h"
    "transaction_sequence_number_len h \<le> 8" "unat (entity_id_len h) \<le> 8"
    "unat (transaction_sequence_number_len h) \<le> 8"
  using assms by (auto simp: header_lengths_are_valid_def encoded_int_len_is_valid_def word_le_nat_alt)

lemma length_encode_header:
  assumes "ccsds_cfdp_encode_header cfg h cap = Inr bs"
  shows "length bs = ccsds_cfdp_header_encoded_len cfg h"
  using assms encode_headerD(8) [OF assms] header_lengthsD [OF encode_headerD(8) [OF assms]]
  by (auto simp: ccsds_cfdp_encode_header_def ccsds_cfdp_header_encoded_len_def split: if_splits)

lemma drop_more: "drop a xs = ys \<Longrightarrow> drop (a + b) xs = drop b ys"
  by (auto simp: add.commute)

lemma decode_encode_header:
  assumes enc: "ccsds_cfdp_encode_header cfg h cap = Inr bs"
  shows "ccsds_cfdp_decode_header cfg (bs @ rest) = Inr (h, length bs)"
proof -
  note f = encode_headerD [OF enc] and l = header_lengthsD [OF encode_headerD(8) [OF enc]]
  define e q where "e = entity_id_len h" and "q = transaction_sequence_number_len h"
  define b0 where "b0 = push_bit 5 (1 AND 0x7) OR push_bit 4 (pdu_type h AND 0x1) OR push_bit 3 (direction h AND 0x1) OR
      push_bit 2 (transmission_mode h AND 0x1) OR push_bit 1 (crc_flag h AND 0x1) OR (0 AND 0x1 :: u8)"
  define b3 where "b3 = push_bit 7 (segmentation_control h AND 0x1) OR push_bit 4 ((e - 1) AND 0x7) OR
      (if segment_metadata_present h then 0x08 else 0) OR ((q - 1) AND 0x7)"
  define S Q D where "S = write_be_uint e (source_entity_id h)"
    and "Q = write_be_uint q (transaction_sequence_number h)"
    and "D = write_be_uint e (destination_entity_id h)"
  have bs: "bs = [b0] @ put_be16 (pdu_data_field_len h) @ [b3] @ S @ Q @ D"
    using enc f unfolding b0_def b3_def e_def q_def S_def Q_def D_def
    by (auto simp: ccsds_cfdp_encode_header_def split: if_splits)
  have b0: "drop_bit 5 b0 AND 0x7 = 1" "b0 AND 0x1 = 0" "drop_bit 4 b0 AND 0x1 = pdu_type h"
    "drop_bit 3 b0 AND 0x1 = direction h" "drop_bit 2 b0 AND 0x1 = transmission_mode h"
    "drop_bit 1 b0 AND 0x1 = crc_flag h"
    unfolding b0_def by (rule flag_byte [OF f(2,3,4,5)])+
  have b3: "drop_bit 7 b3 AND 0x1 = segmentation_control h" "drop_bit 4 b3 AND 0x7 = (e - 1) AND 0x7"
    "b3 AND 0x7 = (q - 1) AND 0x7" "b3 AND 0x08 \<noteq> 0 \<longleftrightarrow> segment_metadata_present h"
    unfolding b3_def by (rule length_byte [OF f(6)])+
  have e: "((e - 1) AND 0x7) + 1 = e" and q: "((q - 1) AND 0x7) + 1 = q"
    unfolding e_def q_def by (rule u8_length_field [OF l(1,2)], rule u8_length_field [OF l(3,4)])
  have len: "length S = unat e" "length Q = unat q" "length D = unat e"
    using l unfolding S_def Q_def D_def e_def q_def by simp_all
  have reads: "read_be_uint (S @ Q @ D @ rest) e = source_entity_id h"
    "read_be_uint (Q @ D @ rest) q = transaction_sequence_number h"
    "read_be_uint (D @ rest) e = destination_entity_id h"
    unfolding S_def Q_def D_def e_def q_def by (intro read_write_be_uint l f)+
  obtain X where X: "X = bs @ rest" by simp
  have d4: "drop 4 X = S @ Q @ D @ rest" by (simp add: X bs put_be16_def)
  have de: "drop (4 + unat e) X = Q @ D @ rest" using drop_more [OF d4, of "unat e"] len by simp
  have dq: "drop (4 + unat e + unat q) X = D @ rest" using drop_more [OF de, of "unat q"] len by simp
  have valid: "encoded_int_len_is_valid e (CCSDS_CFDP_MAX_ENTITY_ID_LEN cfg)"
    "encoded_int_len_is_valid q (CCSDS_CFDP_MAX_TRANS_SEQ_LEN cfg)"
    using f(8) by (auto simp: header_lengths_are_valid_def e_def q_def)
  have n0: "X ! 0 = b0" and n3: "X ! 3 = b3" and n1: "be16_at X 1 = pdu_data_field_len h"
    by (simp_all add: X bs put_be16_def be16_at_def)
  have ln: "length bs = 4 + 2 * unat e + unat q" using len by (simp add: bs)
  show ?thesis
    unfolding ccsds_cfdp_decode_header_def Let_def X [symmetric] n0 n3 n1 b0 b3 e q d4 de dq reads
    using valid ln f by (simp add: e_def q_def X)
qed

lemma take_header_fields:
  assumes "4 + 2 * e + q \<le> length buf"
  shows "take (4 + 2 * e + q) buf =
    [buf ! 0] @ take 2 (drop 1 buf) @ [buf ! 3] @ take e (drop 4 buf) @ take q (drop (4 + e) buf) @
    take e (drop (4 + e + q) buf)"
proof -
  have "take (4 + 2 * e + q) buf = take 4 buf @ take e (drop 4 buf) @ take q (drop (4 + e) buf) @
      take e (drop (4 + e + q) buf)"
  proof -
    have "4 + 2 * e + q = 4 + (e + (q + e))" by simp
    then show ?thesis by (simp only: take_add drop_drop) (simp add: add_ac)
  qed
  moreover have "take 4 buf = [buf ! 0] @ take 2 (drop 1 buf) @ [buf ! 3]"
    using assms by (cases buf; cases "tl buf"; cases "tl (tl buf)"; cases "tl (tl (tl buf))") auto
  ultimately show ?thesis by simp
qed

lemma decode_headerD:
  assumes "ccsds_cfdp_decode_header cfg buf = Inr (h, n)"
  shows "header_lengths_are_valid cfg h" "n = 4 + 2 * unat (entity_id_len h) + unat (transaction_sequence_number_len h)"
    "n \<le> length buf" "hdr_version h = 1" "file_size_mode h = 0"
    "hdr_version h = drop_bit 5 (buf ! 0) AND 0x7" "pdu_type h = drop_bit 4 (buf ! 0) AND 0x1"
    "direction h = drop_bit 3 (buf ! 0) AND 0x1" "transmission_mode h = drop_bit 2 (buf ! 0) AND 0x1"
    "crc_flag h = drop_bit 1 (buf ! 0) AND 0x1" "file_size_mode h = buf ! 0 AND 0x1"
    "pdu_data_field_len h = be16_at buf 1" "segmentation_control h = drop_bit 7 (buf ! 3) AND 0x1"
    "segment_metadata_present h \<longleftrightarrow> buf ! 3 AND 0x08 \<noteq> 0" "entity_id_len h - 1 = drop_bit 4 (buf ! 3) AND 0x7"
    "transaction_sequence_number_len h - 1 = buf ! 3 AND 0x7"
    "source_entity_id h = read_be_uint (drop 4 buf) (entity_id_len h)"
    "transaction_sequence_number h =
       read_be_uint (drop (4 + unat (entity_id_len h)) buf) (transaction_sequence_number_len h)"
    "destination_entity_id h =
       read_be_uint (drop (4 + unat (entity_id_len h) + unat (transaction_sequence_number_len h)) buf) (entity_id_len h)"
  using assms by (auto simp: ccsds_cfdp_decode_header_def header_lengths_are_valid_def Let_def split: if_splits)

lemma encode_decode_header:
  assumes dec: "ccsds_cfdp_decode_header cfg buf = Inr (h, n)" and cap: "n \<le> cap"
  shows "ccsds_cfdp_encode_header cfg h cap = Inr (take n buf)"
proof -
  note D = decode_headerD [OF dec] and l = header_lengthsD [OF decode_headerD(1) [OF dec]]
  obtain e q where e: "e = entity_id_len h" and q: "q = transaction_sequence_number_len h" by simp
  have n: "n = 4 + 2 * unat e + unat q" using D(2) by (simp add: e q)
  note flds = D(6-19) [folded e q]
  have lens: "unat e \<le> 8" "unat q \<le> 8" "unat e \<le> length (drop 4 buf)" "unat q \<le> length (drop (4 + unat e) buf)"
      "unat e \<le> length (drop (4 + unat e + unat q) buf)"
    using l D(3) n by (simp_all add: e q)
  have small: "pdu_type h \<le> 1" "direction h \<le> 1" "transmission_mode h \<le> 1" "crc_flag h \<le> 1"
      "segmentation_control h \<le> 1"
    unfolding flds by (simp_all add: word_and_le1)
  have fits: "value_fits_len (source_entity_id h) e" "value_fits_len (transaction_sequence_number h) q"
      "value_fits_len (destination_entity_id h) e"
    unfolding flds by (rule value_fits_read_be_uint; rule lens)+
  have B0: "push_bit 5 (hdr_version h AND 0x7) OR push_bit 4 (pdu_type h AND 0x1) OR push_bit 3 (direction h AND 0x1) OR
      push_bit 2 (transmission_mode h AND 0x1) OR push_bit 1 (crc_flag h AND 0x1) OR (file_size_mode h AND 0x1) = buf ! 0"
    unfolding flds(1-6) by (simp only: and.right_idem flag_byte_rebuild)
  have B3: "push_bit 7 (segmentation_control h AND 0x1) OR push_bit 4 ((entity_id_len h - 1) AND 0x7) OR
      (if segment_metadata_present h then 0x08 else 0) OR ((transaction_sequence_number_len h - 1) AND 0x7) = buf ! 3"
    unfolding flds(8-11) [unfolded e q] by (simp only: and.right_idem length_byte_rebuild)
  have "ccsds_cfdp_encode_header cfg h cap = Inr
      ([buf ! 0] @ put_be16 (be16_at buf 1) @ [buf ! 3] @ write_be_uint e (source_entity_id h) @
       write_be_uint q (transaction_sequence_number h) @ write_be_uint e (destination_entity_id h))"
    unfolding ccsds_cfdp_encode_header_def B0 B3 unfolding e [symmetric] q [symmetric] flds(7)
    using small fits D(1,4,5) cap D(2) by (simp add: ccsds_cfdp_header_encoded_len_def e q not_less)
  also have "\<dots> = Inr (take n buf)"
    unfolding flds(12-14) using lens D(3) n
    by (simp add: take_header_fields write_read_be_uint put_be16_at)
  finally show ?thesis .
qed

section \<open>Nibbles\<close>

lemma nth_offset [simp]: "length h = n \<Longrightarrow> (h @ xs) ! (n + i) = xs ! i"
  by auto

lemma nth_offset_0 [simp]: "length h = n \<Longrightarrow> xs \<noteq> [] \<Longrightarrow> (h @ xs) ! n = hd xs"
  by (auto simp: nth_append hd_conv_nth)

lemma be32_at_offset [simp]: "length h = n \<Longrightarrow> be32_at (h @ xs) (n + i) = be32_at xs i"
  by (simp add: be32_at_def nth_append)

lemma hi_nibble: "drop_bit 4 (w AND 0xf0) = drop_bit 4 (w :: u8)"
  by (rule bit_u8_eqI) (simp_all add: bit_simps bit_u8_high)

lemma nibble_id: "c \<le> 15 \<Longrightarrow> c AND 0xf = (c :: u8)"
  using word_le_take_bit [of c 4] by (simp add: mask_simps word_less_nat_alt word_le_nat_alt)

lemma flag_id: "c \<le> 1 \<Longrightarrow> c AND 1 = (c :: u8)"
  by (auto simp: u8_le_1)

lemma pair_id: "c \<le> 3 \<Longrightarrow> c AND 3 = (c :: u8)"
  using word_le_take_bit [of c 2] by (simp add: mask_simps word_less_nat_alt word_le_nat_alt)

lemma nibbles:
  fixes c d :: u8
  shows "drop_bit 4 (push_bit 4 (c AND 0xf) OR (d AND 0xf)) = c AND 0xf"
    "(push_bit 4 (c AND 0xf) OR (d AND 0xf)) AND 0xf = d AND 0xf"
  by (rule bit_u8_eqI; simp add: mask_simps bit_simps bit_u8_high even_drop_bit_iff_not_bit)+

lemma finished_byte:
  fixes c d f :: u8
  defines "b \<equiv> push_bit 4 (c AND 0xf) OR push_bit 2 (d AND 1) OR (f AND 3)"
  shows "drop_bit 4 b = c AND 0xf" "b AND 8 = 0" "drop_bit 2 (b AND 4) = d AND 1" "b AND 3 = f AND 3"
  unfolding b_def by (rule bit_u8_eqI; simp add: mask_simps bit_simps bit_u8_high even_drop_bit_iff_not_bit)+

lemma ack_byte:
  fixes c t :: u8
  defines "b \<equiv> push_bit 4 (c AND 0xf) OR (t AND 3)"
  shows "drop_bit 4 b = c AND 0xf" "b AND 0xc = 0" "b AND 3 = t AND 3"
  unfolding b_def by (rule bit_u8_eqI; simp add: mask_simps bit_simps bit_u8_high even_drop_bit_iff_not_bit)+

section \<open>The fixed-size directives\<close>

definition eof_norm :: "ccsds_cfdp_eof_pdu \<Rightarrow> ccsds_cfdp_eof_pdu" where
  "eof_norm p = p\<lparr>eof_header := (eof_header p)\<lparr>pdu_data_field_len := 10\<rparr>\<rparr>"

definition finished_norm :: "ccsds_cfdp_finished_pdu \<Rightarrow> ccsds_cfdp_finished_pdu" where
  "finished_norm p = p\<lparr>fin_header := (fin_header p)\<lparr>pdu_data_field_len := 2\<rparr>\<rparr>"

definition ack_norm :: "ccsds_cfdp_ack_pdu \<Rightarrow> ccsds_cfdp_ack_pdu" where
  "ack_norm p = p\<lparr>ack_header := (ack_header p)\<lparr>pdu_data_field_len := 3\<rparr>\<rparr>"

lemma encode_eofD:
  assumes "ccsds_cfdp_encode_eof cfg p cap = Inr bs"
  obtains h where "ccsds_cfdp_encode_header cfg ((eof_header p)\<lparr>pdu_data_field_len := 10\<rparr>) cap = Inr h"
    "bs = h @ [4, push_bit 4 (eof_condition_code p AND 0xf)] @ put_be32 (file_checksum p) @ put_be32 (eof_file_size p)"
    "eof_condition_code p \<le> 15" "pdu_type (eof_header p) = 0" "\<not> segment_metadata_present (eof_header p)"
    "file_size_mode (eof_header p) = 0" "length bs \<le> cap"
  using assms by (auto simp: ccsds_cfdp_encode_eof_def condition_code_is_valid_def Let_def split: if_splits sum.splits)

lemma decode_encode_eof:
  assumes "ccsds_cfdp_encode_eof cfg p cap = Inr bs"
  shows "ccsds_cfdp_decode_eof cfg (bs @ rest) = Inr (eof_norm p, length bs)"
  using assms
proof (rule encode_eofD)
  fix h
  assume enc: "ccsds_cfdp_encode_header cfg ((eof_header p)\<lparr>pdu_data_field_len := 10\<rparr>) cap = Inr h"
    and bs: "bs = h @ [4, push_bit 4 (eof_condition_code p AND 0xf)] @ put_be32 (file_checksum p) @ put_be32 (eof_file_size p)"
    and ok: "eof_condition_code p \<le> 15" "pdu_type (eof_header p) = 0" "\<not> segment_metadata_present (eof_header p)"
      "file_size_mode (eof_header p) = 0"
  obtain b where b: "b = push_bit 4 (eof_condition_code p AND 0xf)" by simp
  have "drop_bit 4 (b AND 0xf0) = eof_condition_code p"
    using nibbles(1) [of "eof_condition_code p" 0] ok(1) unfolding b by (simp only: hi_nibble nibble_id) simp
  then show ?thesis
    using decode_encode_header [OF enc] ok
    by (auto simp: ccsds_cfdp_decode_eof_def bs [folded b] eof_norm_def nth_append be32_at_def put_be32_def
      intro: ccsds_cfdp_eof_pdu.equality)
qed

lemma encode_finishedD:
  assumes "ccsds_cfdp_encode_finished cfg p cap = Inr bs"
  obtains h where "ccsds_cfdp_encode_header cfg ((fin_header p)\<lparr>pdu_data_field_len := 2\<rparr>) cap = Inr h"
    "bs = h @ [5, push_bit 4 (fin_condition_code p AND 0xf) OR push_bit 2 (delivery_code p AND 1) OR (file_status p AND 3)]"
    "fin_condition_code p \<le> 15" "delivery_code p \<le> 1" "file_status p \<le> 3" "pdu_type (fin_header p) = 0"
    "\<not> segment_metadata_present (fin_header p)" "file_size_mode (fin_header p) = 0" "length bs \<le> cap"
  using assms by (auto simp: ccsds_cfdp_encode_finished_def condition_code_is_valid_def not_less Let_def
    split: if_splits sum.splits)

lemma decode_encode_finished:
  assumes "ccsds_cfdp_encode_finished cfg p cap = Inr bs"
  shows "ccsds_cfdp_decode_finished cfg (bs @ rest) = Inr (finished_norm p, length bs)"
  using assms
proof (rule encode_finishedD)
  fix h
  assume enc: "ccsds_cfdp_encode_header cfg ((fin_header p)\<lparr>pdu_data_field_len := 2\<rparr>) cap = Inr h"
    and bs: "bs = h @ [5, push_bit 4 (fin_condition_code p AND 0xf) OR push_bit 2 (delivery_code p AND 1) OR (file_status p AND 3)]"
    and ok: "fin_condition_code p \<le> 15" "delivery_code p \<le> 1" "file_status p \<le> 3" "pdu_type (fin_header p) = 0"
      "\<not> segment_metadata_present (fin_header p)" "file_size_mode (fin_header p) = 0"
  obtain b where b: "b = push_bit 4 (fin_condition_code p AND 0xf) OR push_bit 2 (delivery_code p AND 1) OR (file_status p AND 3)"
    by simp
  have "drop_bit 4 (b AND 0xf0) = fin_condition_code p" "b AND 8 = 0" "drop_bit 2 (b AND 4) = delivery_code p"
      "b AND 3 = file_status p"
    using finished_byte [of "fin_condition_code p" "delivery_code p" "file_status p", folded b] ok
    by (simp_all only: hi_nibble nibble_id flag_id pair_id)
  then show ?thesis
    using decode_encode_header [OF enc] ok
    by (auto simp: ccsds_cfdp_decode_finished_def bs [folded b] finished_norm_def condition_code_is_valid_def Let_def
      nth_append intro: ccsds_cfdp_finished_pdu.equality)
qed

lemma encode_ackD:
  assumes "ccsds_cfdp_encode_ack cfg p cap = Inr bs"
  obtains h where "ccsds_cfdp_encode_header cfg ((ack_header p)\<lparr>pdu_data_field_len := 3\<rparr>) cap = Inr h"
    "bs = h @ [6, push_bit 4 (acknowledged_directive p AND 0xf) OR (directive_subtype p AND 0xf),
                push_bit 4 (ack_condition_code p AND 0xf) OR (transaction_status p AND 3)]"
    "ack_directive_is_supported (acknowledged_directive p)"
    "ack_subtype_is_valid (acknowledged_directive p) (directive_subtype p)"
    "ack_condition_code p \<le> 15" "transaction_status p \<le> 3" "pdu_type (ack_header p) = 0"
    "\<not> segment_metadata_present (ack_header p)" "file_size_mode (ack_header p) = 0" "length bs \<le> cap"
  using assms by (auto simp: ccsds_cfdp_encode_ack_def condition_code_is_valid_def not_less Let_def
    split: if_splits sum.splits)

lemma decode_encode_ack:
  assumes "ccsds_cfdp_encode_ack cfg p cap = Inr bs"
  shows "ccsds_cfdp_decode_ack cfg (bs @ rest) = Inr (ack_norm p, length bs)"
  using assms
proof (rule encode_ackD)
  fix h
  assume enc: "ccsds_cfdp_encode_header cfg ((ack_header p)\<lparr>pdu_data_field_len := 3\<rparr>) cap = Inr h"
    and bs: "bs = h @ [6, push_bit 4 (acknowledged_directive p AND 0xf) OR (directive_subtype p AND 0xf),
                push_bit 4 (ack_condition_code p AND 0xf) OR (transaction_status p AND 3)]"
    and ok: "ack_directive_is_supported (acknowledged_directive p)"
      "ack_subtype_is_valid (acknowledged_directive p) (directive_subtype p)"
      "ack_condition_code p \<le> 15" "transaction_status p \<le> 3" "pdu_type (ack_header p) = 0"
      "\<not> segment_metadata_present (ack_header p)" "file_size_mode (ack_header p) = 0"
  obtain b c where b: "b = push_bit 4 (acknowledged_directive p AND 0xf) OR (directive_subtype p AND 0xf)"
    and c: "c = push_bit 4 (ack_condition_code p AND 0xf) OR (transaction_status p AND 3)" by simp
  have dir: "acknowledged_directive p \<le> 15" "directive_subtype p \<le> 15"
    using ok(1,2) by (auto simp: ack_directive_is_supported_def ack_subtype_is_valid_def)
  have "drop_bit 4 (b AND 0xf0) = acknowledged_directive p" "b AND 0xf = directive_subtype p"
    using nibbles [of "acknowledged_directive p" "directive_subtype p", folded b] dir
    by (simp_all only: hi_nibble nibble_id)
  moreover have "drop_bit 4 (c AND 0xf0) = ack_condition_code p" "c AND 0xc = 0" "c AND 3 = transaction_status p"
    using ack_byte [of "ack_condition_code p" "transaction_status p", folded c] ok(3,4)
    by (simp_all only: hi_nibble nibble_id pair_id)
  ultimately show ?thesis
    using decode_encode_header [OF enc] ok
    by (auto simp: ccsds_cfdp_decode_ack_def bs [folded b c] ack_norm_def condition_code_is_valid_def Let_def
      nth_append intro: ccsds_cfdp_ack_pdu.equality)
qed

section \<open>File Data\<close>

definition filedata_norm :: "ccsds_cfdp_filedata_pdu \<Rightarrow> ccsds_cfdp_filedata_pdu" where
  "filedata_norm p = p\<lparr>fd_header := (fd_header p)\<lparr>pdu_data_field_len := word_of_nat (4 + length (fd_data p))\<rparr>\<rparr>"

lemma encode_filedataD:
  assumes "ccsds_cfdp_encode_filedata cfg p cap = Inr bs"
  obtains h where
    "ccsds_cfdp_encode_header cfg ((fd_header p)\<lparr>pdu_data_field_len := word_of_nat (4 + length (fd_data p))\<rparr>) cap = Inr h"
    "bs = h @ put_be32 (fd_offset p) @ fd_data p"
    "0 < length (fd_data p)" "4 + length (fd_data p) \<le> 65535" "pdu_type (fd_header p) = 1"
    "\<not> segment_metadata_present (fd_header p)" "file_size_mode (fd_header p) = 0" "length bs \<le> cap"
  using assms by (fastforce simp: ccsds_cfdp_encode_filedata_def Let_def split: if_splits sum.splits)

lemma unat_u16_of_nat: "k \<le> 65535 \<Longrightarrow> unat (word_of_nat k :: u16) = k"
  by (simp add: unsigned_of_nat take_bit_nat_eq_self)

lemma decode_encode_filedata:
  assumes "ccsds_cfdp_encode_filedata cfg p cap = Inr bs"
  shows "ccsds_cfdp_decode_filedata cfg (bs @ rest) = Inr (filedata_norm p, length bs)"
  using assms
proof (rule encode_filedataD)
  fix h
  assume enc: "ccsds_cfdp_encode_header cfg
        ((fd_header p)\<lparr>pdu_data_field_len := word_of_nat (4 + length (fd_data p))\<rparr>) cap = Inr h"
    and bs: "bs = h @ put_be32 (fd_offset p) @ fd_data p"
    and ok: "0 < length (fd_data p)" "4 + length (fd_data p) \<le> 65535" "pdu_type (fd_header p) = 1"
      "\<not> segment_metadata_present (fd_header p)" "file_size_mode (fd_header p) = 0"
  show ?thesis
    using decode_encode_header [OF enc] ok unat_u16_of_nat [OF ok(2)]
    by (auto simp: ccsds_cfdp_decode_filedata_def bs filedata_norm_def intro: ccsds_cfdp_filedata_pdu.equality)
qed

section \<open>NAK\<close>

definition nak_norm :: "ccsds_cfdp_nak_pdu \<Rightarrow> ccsds_cfdp_nak_pdu" where
  "nak_norm p = p\<lparr>nak_header := (nak_header p)\<lparr>pdu_data_field_len := word_of_nat (9 + length (nak_ranges p) * 8)\<rparr>\<rparr>"

lemma length_put_nak_ranges [simp]: "length (put_nak_ranges rs) = length rs * 8"
  by (induction rs) auto

lemma length_get_nak_ranges [simp]: "length (get_nak_ranges buf off n) = n"
  by (induction n arbitrary: off) auto

lemma get_put_nak_ranges: "length xs = off \<Longrightarrow> get_nak_ranges (xs @ put_nak_ranges rs @ rest) off (length rs) = rs"
proof (induction rs arbitrary: xs off)
  case (Cons r rs)
  have "get_nak_ranges ((xs @ put_be32 (nak_start r) @ put_be32 (nak_end r)) @ put_nak_ranges rs @ rest) (off + 8)
      (length rs) = rs"
    by (rule Cons.IH) (simp add: Cons.prems)
  moreover have "be32_at ((xs @ put_be32 (nak_start r)) @ put_be32 (nak_end r) @ put_nak_ranges rs @ rest) (off + 4)
      = nak_end r"
    by (rule be32_at_put) (simp add: Cons.prems)
  ultimately show ?case using Cons.prems by simp
qed simp

lemma encode_nakD:
  assumes "ccsds_cfdp_encode_nak cfg p cap = Inr bs"
  obtains h where
    "ccsds_cfdp_encode_header cfg ((nak_header p)\<lparr>pdu_data_field_len := word_of_nat (9 + length (nak_ranges p) * 8)\<rparr>) cap = Inr h"
    "bs = h @ [8] @ put_be32 (scope_start p) @ put_be32 (scope_end p) @ put_nak_ranges (nak_ranges p)"
    "nak_validate_ranges cfg p = CCSDS_CFDP_STATUS_OK" "9 + length (nak_ranges p) * 8 \<le> 65535" "pdu_type (nak_header p) = 0"
    "\<not> segment_metadata_present (nak_header p)" "file_size_mode (nak_header p) = 0" "length bs \<le> cap"
  using assms by (fastforce simp: ccsds_cfdp_encode_nak_def Let_def split: if_splits sum.splits)

lemma nak_validate_norm [simp]: "nak_validate_ranges cfg (nak_norm p) = nak_validate_ranges cfg p"
proof -
  have "nak_range_is_valid (nak_norm p) = nak_range_is_valid p"
    by (auto simp: nak_range_is_valid_def nak_norm_def)
  then show ?thesis by (simp add: nak_validate_ranges_def) (simp add: nak_norm_def)
qed

lemma decode_encode_nak:
  assumes "ccsds_cfdp_encode_nak cfg p cap = Inr bs"
  shows "ccsds_cfdp_decode_nak cfg (bs @ rest) = Inr (nak_norm p, length bs)"
  using assms
proof (rule encode_nakD)
  fix h
  assume enc: "ccsds_cfdp_encode_header cfg
        ((nak_header p)\<lparr>pdu_data_field_len := word_of_nat (9 + length (nak_ranges p) * 8)\<rparr>) cap = Inr h"
    and bs: "bs = h @ [8] @ put_be32 (scope_start p) @ put_be32 (scope_end p) @ put_nak_ranges (nak_ranges p)"
    and ok: "nak_validate_ranges cfg p = CCSDS_CFDP_STATUS_OK" "9 + length (nak_ranges p) * 8 \<le> 65535"
      "pdu_type (nak_header p) = 0" "\<not> segment_metadata_present (nak_header p)" "file_size_mode (nak_header p) = 0"
  obtain B where B: "B = bs @ rest" by simp
  have count: "length (nak_ranges p) \<le> CCSDS_CFDP_MAX_NAK_RANGES cfg"
    using ok(1) by (auto simp: nak_validate_ranges_def split: if_splits)
  have "get_nak_ranges ((h @ [8] @ put_be32 (scope_start p) @ put_be32 (scope_end p)) @ put_nak_ranges (nak_ranges p) @ rest)
      (length h + 9) (length (nak_ranges p)) = nak_ranges p"
    by (rule get_put_nak_ranges) simp
  then have rs: "get_nak_ranges B (length h + 9) (length (nak_ranges p)) = nak_ranges p" by (simp add: B bs)
  have flds: "B ! length h = 8" "be32_at B (length h + 1) = scope_start p" "be32_at B (length h + 5) = scope_end p"
    by (simp_all add: B bs be32_at_def put_be32_def nth_append)
  have norm: "\<lparr>nak_header = (nak_header p)\<lparr>pdu_data_field_len := word_of_nat (9 + length (nak_ranges p) * 8)\<rparr>,
      scope_start = scope_start p, scope_end = scope_end p, nak_ranges = nak_ranges p\<rparr> = nak_norm p"
    by (auto simp: nak_norm_def intro: ccsds_cfdp_nak_pdu.equality)
  have dec: "ccsds_cfdp_decode_header cfg B =
      Inr ((nak_header p)\<lparr>pdu_data_field_len := word_of_nat (9 + length (nak_ranges p) * 8)\<rparr>, length h)"
    using decode_encode_header [OF enc] by (simp add: B bs)
  show ?thesis
    unfolding B [symmetric] ccsds_cfdp_decode_nak_def dec
    using ok count rs norm unat_u16_of_nat [OF ok(2)] flds by (simp add: Let_def) (simp add: B bs)
qed

section \<open>Metadata\<close>

definition metadata_len :: "ccsds_cfdp_metadata_pdu \<Rightarrow> nat" where
  "metadata_len p = 8 + length (source_filename p) + length (destination_filename p)"

definition metadata_norm :: "ccsds_cfdp_metadata_pdu \<Rightarrow> ccsds_cfdp_metadata_pdu" where
  "metadata_norm p = p\<lparr>md_header := (md_header p)\<lparr>pdu_data_field_len := word_of_nat (metadata_len p)\<rparr>,
     closure_requested :=
       closure_requested p \<and> transmission_mode (md_header p) \<noteq> CCSDS_CFDP_TRANSMISSION_MODE_ACKNOWLEDGED\<rparr>"

definition metadata_control :: "ccsds_cfdp_metadata_pdu \<Rightarrow> u8" where
  "metadata_control p =
     (if closure_requested p \<and> transmission_mode (md_header p) \<noteq> 0 then 0x40 else 0) OR
     (checksum_type_value (md_checksum_type p) AND 0xf)"

lemma metadata_control:
  assumes "checksum_type_is_supported (md_checksum_type p)"
  shows "metadata_control p AND 0xb0 = 0" "checksum_type_of (metadata_control p AND 0xf) = md_checksum_type p"
    "metadata_control p AND 0x40 \<noteq> 0 \<longleftrightarrow> closure_requested (metadata_norm p)"
  using assms
  by (cases "md_checksum_type p"; simp add: metadata_control_def metadata_norm_def checksum_type_of_def)+

lemma lv_read_write:
  "length v \<le> 255 \<Longrightarrow> ccsds_cfdp_lv_read (word_of_nat (length v) # v @ rest) = Inr (v, 1 + length v)"
  by (simp add: ccsds_cfdp_lv_read_def unsigned_of_nat take_bit_nat_eq_self)

lemma read_write_u32:
  "ucast (read_be_uint (write_be_uint 4 (ucast (w :: u32)) @ rest) 4) = w"
proof -
  have "value_fits_len (ucast w) 4"
    by (auto simp: value_fits_len_def bit_simps dest!: bit_imp_le_length [of w] intro!: bit_word_eqI)
  then show ?thesis by (simp add: read_write_be_uint) (rule bit_word_eqI, simp add: bit_simps)
qed

lemma encode_metadataD:
  assumes "ccsds_cfdp_encode_metadata cfg p cap = Inr bs"
  obtains h where
    "ccsds_cfdp_encode_header cfg ((md_header p)\<lparr>pdu_data_field_len := word_of_nat (metadata_len p)\<rparr>) cap = Inr h"
    "bs = h @ [7, metadata_control p] @ write_be_uint 4 (ucast (md_file_size p)) @
       (word_of_nat (length (source_filename p)) # source_filename p) @
       (word_of_nat (length (destination_filename p)) # destination_filename p)"
    "checksum_type_is_supported (md_checksum_type p)" "filename_len_is_valid cfg (source_filename p)"
    "filename_len_is_valid cfg (destination_filename p)" "metadata_len p \<le> 65535" "pdu_type (md_header p) = 0"
    "\<not> segment_metadata_present (md_header p)" "file_size_mode (md_header p) = 0" "length bs \<le> cap"
proof -
  from assms obtain h where
    enc: "ccsds_cfdp_encode_header cfg ((md_header p)\<lparr>pdu_data_field_len := word_of_nat (metadata_len p)\<rparr>) cap = Inr h"
    and ok: "checksum_type_is_supported (md_checksum_type p)" "filename_len_is_valid cfg (source_filename p)"
      "filename_len_is_valid cfg (destination_filename p)" "metadata_len p \<le> 65535" "pdu_type (md_header p) = 0"
      "\<not> segment_metadata_present (md_header p)" "file_size_mode (md_header p) = 0"
      "metadata_len p \<le> cap - length h"
    by (auto simp: ccsds_cfdp_encode_metadata_def metadata_len_def Let_def split: if_splits sum.splits)
  moreover from assms ok enc have "bs = h @ [7, metadata_control p] @ write_be_uint 4 (ucast (md_file_size p)) @
       (word_of_nat (length (source_filename p)) # source_filename p) @
       (word_of_nat (length (destination_filename p)) # destination_filename p)"
    by (auto simp: ccsds_cfdp_encode_metadata_def metadata_len_def metadata_control_def Let_def ccsds_cfdp_lv_write_def
      split: if_splits sum.splits)
  moreover have "length h + metadata_len p \<le> cap"
    using ok(8) by (simp add: metadata_len_def)
  ultimately show thesis by (intro that) (simp_all add: metadata_len_def)
qed

lemma drop_prefix: "length h = n \<Longrightarrow> drop (n + k) (h @ xs) = drop k xs"
  by simp

lemma decode_encode_metadata:
  assumes cfg: "cfdp_config_ok cfg" and "ccsds_cfdp_encode_metadata cfg p cap = Inr bs"
  shows "ccsds_cfdp_decode_metadata cfg (bs @ rest) = Inr (metadata_norm p, length bs)"
  using assms(2)
proof (rule encode_metadataD)
  fix h
  let ?H = "(md_header p)\<lparr>pdu_data_field_len := word_of_nat (metadata_len p)\<rparr>"
  let ?src = "source_filename p" and ?dst = "destination_filename p"
  assume enc: "ccsds_cfdp_encode_header cfg ?H cap = Inr h"
    and bs: "bs = h @ [7, metadata_control p] @ write_be_uint 4 (ucast (md_file_size p)) @
       (word_of_nat (length ?src) # ?src) @ (word_of_nat (length ?dst) # ?dst)"
    and ok: "checksum_type_is_supported (md_checksum_type p)" "filename_len_is_valid cfg ?src"
      "filename_len_is_valid cfg ?dst" "metadata_len p \<le> 65535" "pdu_type (md_header p) = 0"
      "\<not> segment_metadata_present (md_header p)" "file_size_mode (md_header p) = 0"
  have short: "length ?src \<le> 255" "length ?dst \<le> 255"
    using cfg ok(2,3) by (auto simp: cfdp_config_ok_def filename_len_is_valid_def)
  obtain B where B: "B = bs @ rest" by simp
  have len: "length bs = length h + metadata_len p" by (simp add: bs metadata_len_def)
  have dec: "ccsds_cfdp_decode_header cfg B = Inr (?H, length h)"
    using decode_encode_header [OF enc] by (simp add: B bs)
  have at: "B ! length h = 7" "B ! (length h + 1) = metadata_control p" by (simp_all add: B bs nth_append)
  have d2: "drop (length h + 2) B = write_be_uint 4 (ucast (md_file_size p)) @
      (word_of_nat (length ?src) # ?src) @ (word_of_nat (length ?dst) # ?dst) @ rest" by (simp add: B bs)
  have size: "ucast (read_be_uint (drop (length h + 2) B) 4) = md_file_size p"
    unfolding d2 by (rule read_write_u32)
  have d6: "drop (length h + 2 + 4) B = (word_of_nat (length ?src) # ?src) @ (word_of_nat (length ?dst) # ?dst) @ rest"
    by (subst drop_more [OF d2]) simp
  have dd: "drop (length h + 2 + 4 + (1 + length ?src)) B = (word_of_nat (length ?dst) # ?dst) @ rest"
    by (subst drop_more [OF d6]) simp
  have r1: "ccsds_cfdp_lv_read (take (length h + metadata_len p - (length h + 2 + 4)) (drop (length h + 2 + 4) B)) =
      Inr (?src, 1 + length ?src)"
    using lv_read_write [OF short(1), of "word_of_nat (length ?dst) # ?dst"] unfolding d6 by (simp add: metadata_len_def)
  have r2: "ccsds_cfdp_lv_read (take (length h + metadata_len p - (length h + 2 + 4 + (1 + length ?src)))
      (drop (length h + 2 + 4 + (1 + length ?src)) B)) = Inr (?dst, 1 + length ?dst)"
    using lv_read_write [OF short(2), of "[]"] unfolding dd by (simp add: metadata_len_def)
  have fl: "unat (pdu_data_field_len ?H) = metadata_len p" using unat_u16_of_nat [OF ok(4)] by simp
  have guards: "\<not> (length B - length h < metadata_len p)" "\<not> metadata_len p < 8"
    "\<not> length h + metadata_len p - (length h + 2) < 4"
    "\<not> length h + 2 + 4 + (1 + length ?src) + (1 + length ?dst) < length h + metadata_len p"
    by (auto simp: B bs metadata_len_def)
  have norm: "\<lparr>md_header = ?H, closure_requested = (metadata_control p AND 0x40 \<noteq> 0), md_checksum_type = md_checksum_type p,
      md_file_size = md_file_size p, source_filename = ?src, destination_filename = ?dst\<rparr> = metadata_norm p"
    unfolding metadata_control(3) [OF ok(1)] by (auto simp: metadata_norm_def intro: ccsds_cfdp_metadata_pdu.equality)
  show ?thesis
    unfolding B [symmetric] ccsds_cfdp_decode_metadata_def dec
    unfolding sum.case prod.case Let_def fl at size r1 r2 metadata_control(1,2) [OF ok(1)] norm len
    using ok guards by simp
qed

section \<open>Encoding what was decoded\<close>

lemma reencode_header:
  assumes "ccsds_cfdp_decode_header cfg buf = Inr (h, n)" "unat (pdu_data_field_len h) = k" "n \<le> cap"
  shows "ccsds_cfdp_encode_header cfg (h\<lparr>pdu_data_field_len := word_of_nat k\<rparr>) cap = Inr (take n buf)"
    "length (take n buf) = n"
proof -
  from assms(2) have "h\<lparr>pdu_data_field_len := word_of_nat k\<rparr> = h" by auto
  with encode_decode_header [OF assms(1,3)]
  show "ccsds_cfdp_encode_header cfg (h\<lparr>pdu_data_field_len := word_of_nat k\<rparr>) cap = Inr (take n buf)" by simp
  show "length (take n buf) = n" using decode_headerD(3) [OF assms(1)] by simp
qed

lemma condition_from_byte: "condition_code_is_valid (b AND 0xf)"
  by (simp add: condition_code_is_valid_def word_and_le1)

lemma reencode_eof:
  assumes "ccsds_cfdp_decode_eof cfg buf = Inr (p, n)"
  shows "n \<le> length buf" and "n \<le> cap \<Longrightarrow> \<exists>bs. ccsds_cfdp_encode_eof cfg p cap = Inr bs \<and> length bs = n"
proof -
  from assms obtain m where dec: "ccsds_cfdp_decode_header cfg buf = Inr (eof_header p, m)"
    and n: "n = m + 10" "unat (pdu_data_field_len (eof_header p)) = 10" "10 \<le> length buf - m"
    and ok: "pdu_type (eof_header p) = 0" "\<not> segment_metadata_present (eof_header p)" "file_size_mode (eof_header p) = 0"
      "condition_code_is_valid (eof_condition_code p)"
    by (auto simp: ccsds_cfdp_decode_eof_def Let_def condition_from_byte split: if_splits sum.splits prod.splits)
  show "n \<le> length buf" using n decode_headerD(3) [OF dec] by simp
  show "\<exists>bs. ccsds_cfdp_encode_eof cfg p cap = Inr bs \<and> length bs = n" if "n \<le> cap"
  proof -
    from that n have c: "m \<le> cap" "\<not> cap - m < 10" by auto
    show ?thesis
      using reencode_header [OF dec n(2) c(1)] ok c(2) n
      by (simp add: ccsds_cfdp_encode_eof_def Let_def not_less [symmetric])
  qed
qed

lemma reencode_finished:
  assumes "ccsds_cfdp_decode_finished cfg buf = Inr (p, n)"
  shows "n \<le> length buf" and "n \<le> cap \<Longrightarrow> \<exists>bs. ccsds_cfdp_encode_finished cfg p cap = Inr bs \<and> length bs = n"
proof -
  from assms obtain m where dec: "ccsds_cfdp_decode_header cfg buf = Inr (fin_header p, m)"
    and n: "n = m + 2" "unat (pdu_data_field_len (fin_header p)) = 2" "2 \<le> length buf - m"
    and ok: "pdu_type (fin_header p) = 0" "\<not> segment_metadata_present (fin_header p)" "file_size_mode (fin_header p) = 0"
      "condition_code_is_valid (fin_condition_code p)" "delivery_code p \<le> 1" "file_status p \<le> 3"
    by (auto simp: ccsds_cfdp_decode_finished_def Let_def condition_from_byte word_and_le1
      split: if_splits sum.splits prod.splits)
  show "n \<le> length buf" using n decode_headerD(3) [OF dec] by simp
  show "\<exists>bs. ccsds_cfdp_encode_finished cfg p cap = Inr bs \<and> length bs = n" if "n \<le> cap"
  proof -
    from that n have c: "m \<le> cap" "\<not> cap - m < 2" by auto
    show ?thesis
      using reencode_header [OF dec n(2) c(1)] ok c(2) n
      by (simp add: ccsds_cfdp_encode_finished_def Let_def not_less [symmetric])
  qed
qed

lemma reencode_ack:
  assumes "ccsds_cfdp_decode_ack cfg buf = Inr (p, n)"
  shows "n \<le> length buf" and "n \<le> cap \<Longrightarrow> \<exists>bs. ccsds_cfdp_encode_ack cfg p cap = Inr bs \<and> length bs = n"
proof -
  from assms obtain m where dec: "ccsds_cfdp_decode_header cfg buf = Inr (ack_header p, m)"
    and n: "n = m + 3" "unat (pdu_data_field_len (ack_header p)) = 3" "3 \<le> length buf - m"
    and ok: "pdu_type (ack_header p) = 0" "\<not> segment_metadata_present (ack_header p)" "file_size_mode (ack_header p) = 0"
      "condition_code_is_valid (ack_condition_code p)" "transaction_status p \<le> 3"
      "ack_directive_is_supported (acknowledged_directive p)"
      "ack_subtype_is_valid (acknowledged_directive p) (directive_subtype p)"
    by (auto simp: ccsds_cfdp_decode_ack_def Let_def condition_from_byte word_and_le1
      split: if_splits sum.splits prod.splits)
  show "n \<le> length buf" using n decode_headerD(3) [OF dec] by simp
  show "\<exists>bs. ccsds_cfdp_encode_ack cfg p cap = Inr bs \<and> length bs = n" if "n \<le> cap"
  proof -
    from that n have c: "m \<le> cap" "\<not> cap - m < 3" by auto
    show ?thesis
      using reencode_header [OF dec n(2) c(1)] ok c(2) n
      by (simp add: ccsds_cfdp_encode_ack_def Let_def not_less [symmetric])
  qed
qed

lemma reencode_filedata:
  assumes "ccsds_cfdp_decode_filedata cfg buf = Inr (p, n)"
  shows "n \<le> length buf" and "n \<le> cap \<Longrightarrow> \<exists>bs. ccsds_cfdp_encode_filedata cfg p cap = Inr bs \<and> length bs = n"
proof -
  from assms obtain m where dec: "ccsds_cfdp_decode_header cfg buf = Inr (fd_header p, m)"
    and n: "n = m + unat (pdu_data_field_len (fd_header p))" "unat (pdu_data_field_len (fd_header p)) \<le> length buf - m"
    and l: "unat (pdu_data_field_len (fd_header p)) = 4 + length (fd_data p)" "fd_data p \<noteq> []"
    and ok: "pdu_type (fd_header p) = 1" "\<not> segment_metadata_present (fd_header p)" "file_size_mode (fd_header p) = 0"
    by (auto simp: ccsds_cfdp_decode_filedata_def Let_def split: if_splits sum.splits prod.splits)
  have bound: "4 + length (fd_data p) \<le> 65535"
    using unat_u16_less [of "pdu_data_field_len (fd_header p)"] by (simp add: l)
  show "n \<le> length buf" using n l decode_headerD(3) [OF dec] by simp
  show "\<exists>bs. ccsds_cfdp_encode_filedata cfg p cap = Inr bs \<and> length bs = n" if "n \<le> cap"
  proof -
    from that n l have c: "m \<le> cap" "\<not> cap - m < 4 + length (fd_data p)" by auto
    show ?thesis
      using reencode_header [OF dec l(1) c(1)] ok c(2) n bound l
      by (simp add: ccsds_cfdp_encode_filedata_def Let_def not_less [symmetric])
  qed
qed

lemma reencode_nak:
  assumes "ccsds_cfdp_decode_nak cfg buf = Inr (p, n)"
  shows "n \<le> length buf" and "n \<le> cap \<Longrightarrow> \<exists>bs. ccsds_cfdp_encode_nak cfg p cap = Inr bs \<and> length bs = n"
proof -
  from assms obtain m where dec: "ccsds_cfdp_decode_header cfg buf = Inr (nak_header p, m)"
    and n: "n = m + unat (pdu_data_field_len (nak_header p))" "unat (pdu_data_field_len (nak_header p)) \<le> length buf - m"
    and l: "9 \<le> unat (pdu_data_field_len (nak_header p))" "(unat (pdu_data_field_len (nak_header p)) - 9) mod 8 = 0"
      "length (nak_ranges p) = (unat (pdu_data_field_len (nak_header p)) - 9) div 8"
    and ok: "pdu_type (nak_header p) = 0" "\<not> segment_metadata_present (nak_header p)" "file_size_mode (nak_header p) = 0"
      "nak_validate_ranges cfg p = CCSDS_CFDP_STATUS_OK"
    by (auto simp: ccsds_cfdp_decode_nak_def Let_def split: if_splits sum.splits prod.splits)
  from l have k: "unat (pdu_data_field_len (nak_header p)) = 9 + length (nak_ranges p) * 8"
    using div_mult_mod_eq [of "unat (pdu_data_field_len (nak_header p)) - 9" 8] by simp
  have bound: "9 + length (nak_ranges p) * 8 \<le> 65535"
    using unat_u16_less [of "pdu_data_field_len (nak_header p)"] by (simp add: k)
  show "n \<le> length buf" using n k decode_headerD(3) [OF dec] by simp
  show "\<exists>bs. ccsds_cfdp_encode_nak cfg p cap = Inr bs \<and> length bs = n" if "n \<le> cap"
  proof -
    from that n k have c: "m \<le> cap" "\<not> cap - m < 9 + length (nak_ranges p) * 8" by auto
    show ?thesis
      using reencode_header [OF dec k c(1)] ok c(2) n bound k
      by (simp add: ccsds_cfdp_encode_nak_def Let_def not_less [symmetric])
  qed
qed

lemma lv_readD:
  assumes "ccsds_cfdp_lv_read b = Inr (v, k)" shows "k = 1 + length v \<and> k \<le> length b"
  using assms by (cases b) (auto simp: ccsds_cfdp_lv_read_def Let_def split: if_splits)

lemma decode_metadataD:
  assumes "ccsds_cfdp_decode_metadata cfg buf = Inr (p, n)"
  obtains m where "ccsds_cfdp_decode_header cfg buf = Inr (md_header p, m)"
    "n = m + metadata_len p" "n \<le> length buf" "unat (pdu_data_field_len (md_header p)) = metadata_len p"
    "pdu_type (md_header p) = 0" "\<not> segment_metadata_present (md_header p)" "file_size_mode (md_header p) = 0"
    "checksum_type_is_supported (md_checksum_type p)" "filename_len_is_valid cfg (source_filename p)"
    "filename_len_is_valid cfg (destination_filename p)"
proof -
  obtain H m where dec: "ccsds_cfdp_decode_header cfg buf = Inr (H, m)"
    using assms by (cases "ccsds_cfdp_decode_header cfg buf") (auto simp: ccsds_cfdp_decode_metadata_def)
  let ?stop = "m + unat (pdu_data_field_len H)"
  obtain src i where src: "ccsds_cfdp_lv_read (take (?stop - (m + 2 + 4)) (drop (m + 2 + 4) buf)) = Inr (src, i)"
    using assms by (cases "ccsds_cfdp_lv_read (take (?stop - (m + 2 + 4)) (drop (m + 2 + 4) buf))")
      (auto simp: ccsds_cfdp_decode_metadata_def dec Let_def split: if_splits)
  obtain dst j where dst: "ccsds_cfdp_lv_read (take (?stop - (m + 2 + 4 + i)) (drop (m + 2 + 4 + i) buf)) = Inr (dst, j)"
    using assms unfolding ccsds_cfdp_decode_metadata_def dec Let_def sum.case prod.case src
    by (cases "ccsds_cfdp_lv_read (take (?stop - (m + 2 + 4 + i)) (drop (m + 2 + 4 + i) buf))") (auto split: if_splits)
  have all: "md_header p = H" "source_filename p = src" "destination_filename p = dst" "n = ?stop"
    "pdu_type H = 0" "\<not> segment_metadata_present H" "file_size_mode H = 0"
    "checksum_type_is_supported (md_checksum_type p)" "filename_len_is_valid cfg src" "filename_len_is_valid cfg dst"
    "8 \<le> unat (pdu_data_field_len H)" "unat (pdu_data_field_len H) \<le> length buf - m"
    "?stop \<le> m + 2 + 4 + i + j"
    using assms unfolding ccsds_cfdp_decode_metadata_def dec Let_def sum.case prod.case src dst
    by (auto simp del: drop_drop add_2_eq_Suc' split: if_splits sum.splits)
  have "m + metadata_len p = n"
    using lv_readD [OF src] lv_readD [OF dst] all by (simp add: metadata_len_def, arith)
  then show thesis using that dec all decode_headerD(3) [OF dec] by simp
qed

lemma reencode_metadata:
  assumes "ccsds_cfdp_decode_metadata cfg buf = Inr (p, n)"
  shows "n \<le> length buf" and "n \<le> cap \<Longrightarrow> \<exists>bs. ccsds_cfdp_encode_metadata cfg p cap = Inr bs \<and> length bs = n"
proof -
  from assms obtain m where dec: "ccsds_cfdp_decode_header cfg buf = Inr (md_header p, m)"
    and n: "n = m + metadata_len p" "n \<le> length buf" and k: "unat (pdu_data_field_len (md_header p)) = metadata_len p"
    and ok: "pdu_type (md_header p) = 0" "\<not> segment_metadata_present (md_header p)" "file_size_mode (md_header p) = 0"
    "checksum_type_is_supported (md_checksum_type p)" "filename_len_is_valid cfg (source_filename p)"
    "filename_len_is_valid cfg (destination_filename p)"
    by (rule decode_metadataD)
  have bound: "metadata_len p \<le> 65535" using unat_u16_less [of "pdu_data_field_len (md_header p)"] by (simp add: k)
  show "n \<le> length buf" using n decode_headerD(3) [OF dec] by simp
  show "\<exists>bs. ccsds_cfdp_encode_metadata cfg p cap = Inr bs \<and> length bs = n" if "n \<le> cap"
  proof -
    from that n have c: "m \<le> cap" "\<not> cap - m < metadata_len p" by auto
    from c(2) have "\<not> cap - (m + (7 + length (source_filename p))) < Suc (length (destination_filename p))"
      "\<not> cap - (m + 6) < Suc (length (source_filename p))"
      unfolding metadata_len_def by arith+
    then show ?thesis
      using reencode_header [OF dec k c(1)] ok c(2) n bound
      by (simp add: ccsds_cfdp_encode_metadata_def Let_def not_less [symmetric] ccsds_cfdp_lv_write_def metadata_len_def)
  qed
qed

section \<open>The codec contract\<close>

text \<open>
  What the entity relies on: an encoder that succeeds stays within its capacity and writes a PDU
  that the decoder reads back, whatever follows it; the decoder stays within its input, and
  what it accepts can be encoded again at the same length.  \<open>norm\<close> is what a PDU becomes on the
  wire: its data field length is the computed one.
\<close>

locale pdu_codec =
  fixes encode :: "'p \<Rightarrow> nat \<Rightarrow> ccsds_cfdp_status + bytes"
    and decode :: "bytes \<Rightarrow> ccsds_cfdp_status + 'p \<times> nat"
    and norm :: "'p \<Rightarrow> 'p"
  assumes encode_cap: "encode p cap = Inr bs \<Longrightarrow> length bs \<le> cap"
    and decode_encode: "encode p cap = Inr bs \<Longrightarrow> decode (bs @ rest) = Inr (norm p, length bs)"
    and decode_bound: "decode buf = Inr (p, n) \<Longrightarrow> n \<le> length buf"
    and reencode: "decode buf = Inr (p, n) \<Longrightarrow> n \<le> cap \<Longrightarrow> \<exists>bs. encode p cap = Inr bs \<and> length bs = n"
begin

lemma round_trip: "encode p cap = Inr bs \<Longrightarrow> decode (bs @ rest) = Inr (norm p, length bs) \<and> length bs \<le> cap"
  by (simp add: decode_encode encode_cap)

text \<open>No encoded PDU is a prefix of another one.\<close>

lemma prefix_free:
  assumes "encode p cap = Inr bs" "encode q cap' = Inr bs'" "bs @ rest = bs' @ rest'"
  shows "bs = bs' \<and> norm p = norm q"
  using decode_encode [OF assms(1), of rest] decode_encode [OF assms(2), of rest'] assms(3) by auto

text \<open>Forwarding a received PDU: it encodes again, and the copy decodes to the same PDU up to \<open>norm\<close>.\<close>

lemma forward:
  assumes "decode buf = Inr (p, n)"
  shows "n \<le> length buf \<and> (\<exists>bs. encode p n = Inr bs \<and> length bs = n \<and> decode bs = Inr (norm p, n))"
proof -
  from reencode [OF assms, of n] obtain bs where bs: "encode p n = Inr bs" "length bs = n" by auto
  with decode_encode [OF bs(1), of "[]"] decode_bound [OF assms] show ?thesis by auto
qed

end

interpretation eof: pdu_codec "ccsds_cfdp_encode_eof cfg" "ccsds_cfdp_decode_eof cfg" eof_norm for cfg
  by unfold_locales (auto intro: decode_encode_eof reencode_eof elim: encode_eofD)

interpretation finished: pdu_codec "ccsds_cfdp_encode_finished cfg" "ccsds_cfdp_decode_finished cfg" finished_norm for cfg
  by unfold_locales (auto intro: decode_encode_finished reencode_finished elim: encode_finishedD)

interpretation ack: pdu_codec "ccsds_cfdp_encode_ack cfg" "ccsds_cfdp_decode_ack cfg" ack_norm for cfg
  by unfold_locales (auto intro: decode_encode_ack reencode_ack elim: encode_ackD)

interpretation filedata: pdu_codec "ccsds_cfdp_encode_filedata cfg" "ccsds_cfdp_decode_filedata cfg" filedata_norm for cfg
  by unfold_locales (auto intro: decode_encode_filedata reencode_filedata elim: encode_filedataD)

interpretation nak: pdu_codec "ccsds_cfdp_encode_nak cfg" "ccsds_cfdp_decode_nak cfg" nak_norm for cfg
  by unfold_locales (auto intro: decode_encode_nak reencode_nak elim: encode_nakD)

text \<open>The Metadata codec needs the Kconfig range of the file name length: its LV length is one byte.\<close>

locale cfdp_build =
  fixes cfg :: cfdp_config
  assumes cfg_ok: "cfdp_config_ok cfg"

sublocale cfdp_build \<subseteq> metadata: pdu_codec "ccsds_cfdp_encode_metadata cfg" "ccsds_cfdp_decode_metadata cfg" metadata_norm
  by unfold_locales (auto intro: decode_encode_metadata [OF cfg_ok] reencode_metadata elim: encode_metadataD)

interpretation default_build: cfdp_build default_cfdp_config
  by unfold_locales (rule cfdp_config_ok_default)

section \<open>Properties\<close>

definition sample_cfdp_header :: ccsds_cfdp_pdu_header where
  "sample_cfdp_header = \<lparr>hdr_version = 1, pdu_type = 0, direction = 0, transmission_mode = 1, crc_flag = 0,
     file_size_mode = 0, pdu_data_field_len = 0, segmentation_control = 0, segment_metadata_present = False,
     entity_id_len = 2, transaction_sequence_number_len = 1, source_entity_id = 0x102,
     transaction_sequence_number = 7, destination_entity_id = 0x304\<rparr>"

lemmas codec_eval = ccsds_cfdp_encode_header_def sample_cfdp_header_def default_cfdp_config_def
  ccsds_cfdp_header_encoded_len_def header_lengths_are_valid_def encoded_int_len_is_valid_def value_fits_len_def
  write_be_uint_def put_be64_def put_be32_def put_be16_def filename_len_is_valid_def ccsds_cfdp_lv_write_def
  nak_validate_ranges_def nak_range_is_valid_def Let_def

text \<open>
  The PDU header codec is a bijection between the headers it can encode and the bytes it accepts:
  an encoded header decodes to itself whatever follows it, and a decoded header encodes
  to exactly the bytes it was read from.
\<close>

theorem header_round_trip:
  "(ccsds_cfdp_encode_header cfg h cap = Inr bs \<longrightarrow>
      ccsds_cfdp_decode_header cfg (bs @ rest) = Inr (h, length bs)) \<and>
   (ccsds_cfdp_decode_header cfg buf = Inr (g, n) \<and> n \<le> cap \<longrightarrow>
      ccsds_cfdp_encode_header cfg g cap = Inr (take n buf))"
  by (simp add: decode_encode_header encode_decode_header)

theorem header_round_trip_witness:
  "ccsds_cfdp_decode_header default_cfdp_config ([0x24, 0, 0, 0x10, 1, 2, 7, 3, 4] @ [9]) = Inr (sample_cfdp_header, 9) \<and>
   ccsds_cfdp_encode_header default_cfdp_config sample_cfdp_header 9 = Inr [0x24, 0, 0, 0x10, 1, 2, 7, 3, 4]"
proof -
  have e: "ccsds_cfdp_encode_header default_cfdp_config sample_cfdp_header 9 = Inr [0x24, 0, 0, 0x10, 1, 2, 7, 3, 4]"
    by code_simp
  show ?thesis
    using header_round_trip [of default_cfdp_config sample_cfdp_header 9 "[0x24, 0, 0, 0x10, 1, 2, 7, 3, 4]" "[9]"] e by simp
qed

context cfdp_build
begin

lemma metadata_both:
  "(ccsds_cfdp_encode_metadata cfg p cap = Inr bs \<longrightarrow>
      ccsds_cfdp_decode_metadata cfg (bs @ rest) = Inr (metadata_norm p, length bs) \<and> length bs \<le> cap) \<and>
   (ccsds_cfdp_decode_metadata cfg buf = Inr (q, n) \<longrightarrow> n \<le> length buf \<and>
      (\<exists>bs. ccsds_cfdp_encode_metadata cfg q n = Inr bs \<and> length bs = n \<and>
            ccsds_cfdp_decode_metadata cfg bs = Inr (metadata_norm q, n)))"
  using metadata.round_trip metadata.forward by blast

end

text \<open>
  Metadata PDUs: the encoder stays within its buffer and the decoder reads back the same PDU,
  whatever follows it, except that the header carries the computed data length and the
  closure flag is cleared in acknowledged mode.  The decoder never consumes more than it was given,
  and the PDU it returns encodes again at the same length and decodes to itself in that sense.
\<close>

theorem metadata_round_trip:
  "cfdp_config_ok cfg \<Longrightarrow>
   (ccsds_cfdp_encode_metadata cfg p cap = Inr bs \<longrightarrow>
      ccsds_cfdp_decode_metadata cfg (bs @ rest) = Inr (metadata_norm p, length bs) \<and> length bs \<le> cap) \<and>
   (ccsds_cfdp_decode_metadata cfg buf = Inr (q, n) \<longrightarrow> n \<le> length buf \<and>
      (\<exists>bs. ccsds_cfdp_encode_metadata cfg q n = Inr bs \<and> length bs = n \<and>
            ccsds_cfdp_decode_metadata cfg bs = Inr (metadata_norm q, n)))"
  by (rule cfdp_build.metadata_both) (rule cfdp_build.intro)

definition sample_metadata :: ccsds_cfdp_metadata_pdu where
  "sample_metadata = \<lparr>md_header = sample_cfdp_header, closure_requested = True,
     md_checksum_type = CCSDS_CFDP_CHECKSUM_TYPE_CRC32C, md_file_size = 0x10203,
     source_filename = [0x61], destination_filename = [0x62, 0x63]\<rparr>"

theorem metadata_round_trip_witness:
  "ccsds_cfdp_decode_metadata default_cfdp_config ([0x24, 0, 0xb, 0x10, 1, 2, 7, 3, 4, 7, 0x42, 0, 1, 2, 3, 1, 0x61, 2, 0x62, 0x63] @ [9]) =
     Inr (metadata_norm sample_metadata, 20)"
proof -
  have e: "ccsds_cfdp_encode_metadata default_cfdp_config sample_metadata 64 =
      Inr [0x24, 0, 0xb, 0x10, 1, 2, 7, 3, 4, 7, 0x42, 0, 1, 2, 3, 1, 0x61, 2, 0x62, 0x63]" 
    by (simp add: ccsds_cfdp_encode_metadata_def sample_metadata_def codec_eval)
  show ?thesis
    using metadata_round_trip [OF cfdp_config_ok_default, of sample_metadata 64
      "[0x24, 0, 0xb, 0x10, 1, 2, 7, 3, 4, 7, 0x42, 0, 1, 2, 3, 1, 0x61, 2, 0x62, 0x63]" "[9]"] e by simp
qed

text \<open>
  File Data PDUs: the encoder stays within its buffer and the decoder reads back the offset and
  the file bytes, whatever follows the PDU; the decoder never consumes more than it was given,
  and the PDU it returns encodes again at the same length and decodes to itself.
\<close>

theorem filedata_round_trip:
  "(ccsds_cfdp_encode_filedata cfg p cap = Inr bs \<longrightarrow>
      ccsds_cfdp_decode_filedata cfg (bs @ rest) = Inr (filedata_norm p, length bs) \<and> length bs \<le> cap) \<and>
   (ccsds_cfdp_decode_filedata cfg buf = Inr (q, n) \<longrightarrow> n \<le> length buf \<and>
      (\<exists>bs. ccsds_cfdp_encode_filedata cfg q n = Inr bs \<and> length bs = n \<and>
            ccsds_cfdp_decode_filedata cfg bs = Inr (filedata_norm q, n)))"
  using filedata.round_trip filedata.forward by blast

definition sample_filedata :: ccsds_cfdp_filedata_pdu where
  "sample_filedata = \<lparr>fd_header = sample_cfdp_header\<lparr>pdu_type := 1\<rparr>, fd_offset = 5, fd_data = [1, 2, 3]\<rparr>"

theorem filedata_round_trip_witness:
  "ccsds_cfdp_decode_filedata default_cfdp_config ([0x34, 0, 7, 0x10, 1, 2, 7, 3, 4, 0, 0, 0, 5, 1, 2, 3] @ [9]) =
     Inr (filedata_norm sample_filedata, 16)"
proof -
  have e: "ccsds_cfdp_encode_filedata default_cfdp_config sample_filedata 16 =
      Inr [0x34, 0, 7, 0x10, 1, 2, 7, 3, 4, 0, 0, 0, 5, 1, 2, 3]" 
    by (simp add: ccsds_cfdp_encode_filedata_def sample_filedata_def codec_eval)
  show ?thesis
    using filedata_round_trip [of default_cfdp_config sample_filedata 16
      "[0x34, 0, 7, 0x10, 1, 2, 7, 3, 4, 0, 0, 0, 5, 1, 2, 3]" "[9]"] e by simp
qed

text \<open>
  NAK PDUs: the same for the scope and the list of missing ranges, of any length the limit
  on ranges allows.
\<close>

theorem nak_round_trip:
  "(ccsds_cfdp_encode_nak cfg p cap = Inr bs \<longrightarrow>
      ccsds_cfdp_decode_nak cfg (bs @ rest) = Inr (nak_norm p, length bs) \<and> length bs \<le> cap) \<and>
   (ccsds_cfdp_decode_nak cfg buf = Inr (q, n) \<longrightarrow> n \<le> length buf \<and>
      (\<exists>bs. ccsds_cfdp_encode_nak cfg q n = Inr bs \<and> length bs = n \<and>
            ccsds_cfdp_decode_nak cfg bs = Inr (nak_norm q, n)))"
  using nak.round_trip nak.forward by blast

definition sample_nak :: ccsds_cfdp_nak_pdu where
  "sample_nak = \<lparr>nak_header = sample_cfdp_header, scope_start = 0, scope_end = 9,
     nak_ranges = [\<lparr>nak_start = 2, nak_end = 3\<rparr>, \<lparr>nak_start = 4, nak_end = 9\<rparr>]\<rparr>"

theorem nak_round_trip_witness:
  "ccsds_cfdp_decode_nak default_cfdp_config ([0x24, 0, 0x19, 0x10, 1, 2, 7, 3, 4, 8, 0, 0, 0, 0, 0, 0, 0, 9, 0, 0, 0, 2, 0, 0, 0, 3, 0, 0, 0, 4, 0, 0, 0, 9] @ [9]) =
     Inr (nak_norm sample_nak, 34)"
proof -
  have e: "ccsds_cfdp_encode_nak default_cfdp_config sample_nak 34 =
      Inr [0x24, 0, 0x19, 0x10, 1, 2, 7, 3, 4, 8, 0, 0, 0, 0, 0, 0, 0, 9, 0, 0, 0, 2, 0, 0, 0, 3, 0, 0, 0, 4, 0, 0, 0, 9]" 
    by (simp add: ccsds_cfdp_encode_nak_def sample_nak_def codec_eval)
  show ?thesis
    using nak_round_trip [of default_cfdp_config sample_nak 34
      "[0x24, 0, 0x19, 0x10, 1, 2, 7, 3, 4, 8, 0, 0, 0, 0, 0, 0, 0, 9, 0, 0, 0, 2, 0, 0, 0, 3, 0, 0, 0, 4, 0, 0, 0, 9]" "[9]"] e by simp
qed

text \<open>
  EOF, Finished and ACK PDUs: each encoder stays within its buffer and its decoder reads back
  every field, whatever follows the PDU.
\<close>

theorem directive_round_trip:
  "(ccsds_cfdp_encode_eof cfg e cap = Inr bs \<longrightarrow>
      ccsds_cfdp_decode_eof cfg (bs @ rest) = Inr (eof_norm e, length bs) \<and> length bs \<le> cap) \<and>
   (ccsds_cfdp_encode_finished cfg f cap = Inr bs \<longrightarrow>
      ccsds_cfdp_decode_finished cfg (bs @ rest) = Inr (finished_norm f, length bs) \<and> length bs \<le> cap) \<and>
   (ccsds_cfdp_encode_ack cfg a cap = Inr bs \<longrightarrow>
      ccsds_cfdp_decode_ack cfg (bs @ rest) = Inr (ack_norm a, length bs) \<and> length bs \<le> cap)"
  using eof.round_trip finished.round_trip ack.round_trip by blast

definition sample_ack :: ccsds_cfdp_ack_pdu where
  "sample_ack = \<lparr>ack_header = sample_cfdp_header, acknowledged_directive = 5, directive_subtype = 1,
     ack_condition_code = 15, transaction_status = 2\<rparr>"

theorem directive_round_trip_witness:
  "ccsds_cfdp_decode_ack default_cfdp_config ([0x24, 0, 3, 0x10, 1, 2, 7, 3, 4, 6, 0x51, 0xf2] @ [9]) =
     Inr (ack_norm sample_ack, 12)"
proof -
  have e: "ccsds_cfdp_encode_ack default_cfdp_config sample_ack 12 =
      Inr [0x24, 0, 3, 0x10, 1, 2, 7, 3, 4, 6, 0x51, 0xf2]" by code_simp
  show ?thesis
    using directive_round_trip [of default_cfdp_config undefined 12
      "[0x24, 0, 3, 0x10, 1, 2, 7, 3, 4, 6, 0x51, 0xf2]" "[9]" undefined sample_ack] e by simp
qed

end
