(* ===== verification/Cfdp_Entity.thy ===== *)
theory Cfdp_Entity
  imports Cfdp_Ranges Cfdp_Codec "HOL-Library.State_Monad"
begin

unbundle bit_operations_syntax

text \<open>
  The CFDP entity (\<^verbatim>\<open>src/ccsds_cfdp_entity.c\<close>, \<^verbatim>\<open>ccsds_cfdp_entity.h\<close>, \<^verbatim>\<open>ccsds_cfdp_filestore.h\<close>): one
  sending and one receiving transaction, driven by received PDUs, by polling and by put
  requests.

  The C functions change the entity and call out through pointers: the transport, the clock,
  the event callback and the filestore.  They are state-monad programs over a pair of an outside
  world and the entity, and every callback is an arbitrary program over the same pair, so a
  callback may enter the entity again, as a transport that delivers in place does; the code
  after a callback reads the entity the callback left.  The callbacks form the record
  \<open>cfdp_platform\<close>; a null function pointer is \<open>None\<close>, and the operations a function requires are
  those its guards have checked.  A filestore pointer is a name \<open>'f\<close> with \<open>fs_ops\<close> giving its
  operations.  Paths are C strings: byte lists without a zero byte where a pointer is passed, a
  fixed array in the transaction slot.
\<close>

section \<open>Data\<close>

abbreviation (input) "give \<equiv> State_Monad.return"

abbreviation (input) "CCSDS_CFDP_CONDITION_FILESTORE_REJECTION \<equiv> 4 :: u8"
abbreviation (input) "CCSDS_CFDP_CONDITION_FILE_CHECKSUM_FAILURE \<equiv> 5 :: u8"
abbreviation (input) "CCSDS_CFDP_CONDITION_FILE_SIZE_ERROR \<equiv> 6 :: u8"
abbreviation (input) "CCSDS_CFDP_CONDITION_NAK_LIMIT_REACHED \<equiv> 7 :: u8"
abbreviation (input) "CCSDS_CFDP_FILE_STATUS_DISCARDED_DELIBERATELY \<equiv> 0 :: u8"
abbreviation (input) "CCSDS_CFDP_FILE_STATUS_DISCARDED_FILESTORE_REJECTION \<equiv> 1 :: u8"
abbreviation (input) "CCSDS_CFDP_TRANSACTION_STATUS_ACTIVE \<equiv> 1 :: u8"
abbreviation (input) "CCSDS_CFDP_TRANSACTION_STATUS_TERMINATED \<equiv> 2 :: u8"

record ccsds_cfdp_transaction_id =
  id_source_entity_id :: u64
  id_transaction_sequence_number :: u64

datatype ccsds_cfdp_event_type =
    CCSDS_CFDP_EVENT_TRANSACTION_STARTED
  | CCSDS_CFDP_EVENT_METADATA_RECV
  | CCSDS_CFDP_EVENT_FILE_SEGMENT_RECV
  | CCSDS_CFDP_EVENT_EOF_RECV
  | CCSDS_CFDP_EVENT_NAK_SENT
  | CCSDS_CFDP_EVENT_NAK_RECV
  | CCSDS_CFDP_EVENT_RETRANSMIT
  | CCSDS_CFDP_EVENT_FINISHED_SENT
  | CCSDS_CFDP_EVENT_FINISHED_RECV
  | CCSDS_CFDP_EVENT_COMPLETE
  | CCSDS_CFDP_EVENT_FAILED

record ccsds_cfdp_event =
  event_type :: ccsds_cfdp_event_type
  event_transaction_id :: ccsds_cfdp_transaction_id
  event_status :: ccsds_cfdp_status

record ccsds_cfdp_entity_config =
  cfg_local_entity_id :: u64
  cfg_remote_entity_id :: u64
  cfg_entity_id_len :: u8
  cfg_transaction_sequence_number_len :: u8
  cfg_initial_transaction_sequence_number :: u64

record ('f, 'h) ccsds_cfdp_transaction_slot =
  active :: bool
  slot_id :: ccsds_cfdp_transaction_id
  peer_entity_id :: u64
  filestore :: "'f option"
  metadata_received :: bool
  file_handle_open :: bool
  file_handle :: "'h option"
  file_size :: u32
  eof_checksum :: u32
  checksum_type :: ccsds_cfdp_checksum_type
  slot_transmission_mode :: u8
  checksum_state :: ccsds_cfdp_checksum_state
  received_ranges :: ccsds_cfdp_ranges
  source_path :: bytes
  destination_path :: bytes
  slot_closure_requested :: bool
  eof_received :: bool
  finished_received :: bool
  recovery_pending :: bool
  waiting_for_finished_ack :: bool
  nak_retry_count :: u32
  retry_count :: u32
  retry_deadline_ms :: u64
  finished_status :: ccsds_cfdp_status

record ccsds_cfdp_put_request =
  req_source_path :: "bytes option"
  req_destination_path :: "bytes option"
  req_checksum_type :: ccsds_cfdp_checksum_type
  req_closure_requested :: bool
  acknowledged_mode :: bool

record ('f, 'h) ccsds_cfdp_entity =
  local_entity_id :: u64
  remote_entity_id :: u64
  ent_entity_id_len :: u8
  ent_transaction_sequence_number_len :: u8
  next_transaction_sequence_number :: u64
  sender :: "('f, 'h) ccsds_cfdp_transaction_slot"
  receiver :: "('f, 'h) ccsds_cfdp_transaction_slot"
  sender_completion_available :: bool
  sender_completion_status :: ccsds_cfdp_status
  pdu_buf :: bytes
  file_segment_buf :: bytes

type_synonym ('w, 'f, 'h) cfdp_state = "'w \<times> ('f, 'h) ccsds_cfdp_entity"
type_synonym ('w, 'f, 'h, 'a) cfdp = "(('w, 'f, 'h) cfdp_state, 'a) state"

text \<open>
  The filestore callbacks.  \<open>fs_read\<close> returns its return code, the bytes it stored into the buffer
  and the length it reported; the \<open>open\<close> callbacks return the handle they stored, and the size.
\<close>

record ('w, 'f, 'h) ccsds_cfdp_filestore_ops =
  fs_open_read :: "(bytes \<Rightarrow> ('w, 'f, 'h, int \<times> 'h option \<times> u32) cfdp) option"
  fs_open_write_tmp :: "(bytes \<Rightarrow> ('w, 'f, 'h, int \<times> 'h option) cfdp) option"
  fs_read :: "('h option \<Rightarrow> u32 \<Rightarrow> nat \<Rightarrow> ('w, 'f, 'h, int \<times> bytes \<times> nat) cfdp) option"
  fs_write :: "('h option \<Rightarrow> u32 \<Rightarrow> bytes \<Rightarrow> ('w, 'f, 'h, int) cfdp) option"
  fs_close :: "('h option \<Rightarrow> ('w, 'f, 'h, int) cfdp) option"
  fs_commit_tmp :: "(bytes \<Rightarrow> ('w, 'f, 'h, int) cfdp) option"
  fs_discard_tmp :: "(bytes \<Rightarrow> ('w, 'f, 'h, int) cfdp) option"

record ('w, 'f, 'h) cfdp_platform =
  send_pdu :: "(u64 \<Rightarrow> bytes \<Rightarrow> ('w, 'f, 'h, rc) cfdp) option"
  now_ms :: "('w, 'f, 'h, u64) cfdp option"
  event_cb :: "(ccsds_cfdp_event \<Rightarrow> ('w, 'f, 'h, unit) cfdp) option"
  fs_ops :: "'f \<Rightarrow> ('w, 'f, 'h) ccsds_cfdp_filestore_ops"
  crc32_c :: crc32_c_fn
  crc32_ieee_update :: crc32_ieee_fn

section \<open>Access to the entity\<close>

definition entity_get :: "('w, 'f, 'h, ('f, 'h) ccsds_cfdp_entity) cfdp" where
  "entity_get = do { s \<leftarrow> State_Monad.get; give (snd s) }"

definition modify_entity ::
  "(('f, 'h) ccsds_cfdp_entity \<Rightarrow> ('f, 'h) ccsds_cfdp_entity) \<Rightarrow> ('w, 'f, 'h, unit) cfdp" where
  "modify_entity f = do { s \<leftarrow> State_Monad.get; State_Monad.set (fst s, f (snd s)) }"

definition modify_sender ::
  "(('f, 'h) ccsds_cfdp_transaction_slot \<Rightarrow> ('f, 'h) ccsds_cfdp_transaction_slot) \<Rightarrow> ('w, 'f, 'h, unit) cfdp" where
  "modify_sender f = modify_entity (\<lambda>e. e\<lparr>sender := f (sender e)\<rparr>)"

definition modify_receiver ::
  "(('f, 'h) ccsds_cfdp_transaction_slot \<Rightarrow> ('f, 'h) ccsds_cfdp_transaction_slot) \<Rightarrow> ('w, 'f, 'h, unit) cfdp" where
  "modify_receiver f = modify_entity (\<lambda>e. e\<lparr>receiver := f (receiver e)\<rparr>)"

lemma run_entity_get [simp]: "run_state entity_get s = (snd s, s)"
  by (simp add: entity_get_def)

lemma run_modify_entity [simp]: "run_state (modify_entity f) s = ((), fst s, f (snd s))"
  by (simp add: modify_entity_def)

lemma run_modify_sender [simp]:
  "run_state (modify_sender f) s = ((), fst s, (snd s)\<lparr>sender := f (sender (snd s))\<rparr>)"
  by (simp add: modify_sender_def)

lemma run_modify_receiver [simp]:
  "run_state (modify_receiver f) s = ((), fst s, (snd s)\<lparr>receiver := f (receiver (snd s))\<rparr>)"
  by (simp add: modify_receiver_def)

text \<open>A C array of \<open>n\<close> zero bytes after \<^verbatim>\<open>memset\<close>, and the string a pointer to it denotes.\<close>

definition path_array :: "cfdp_config \<Rightarrow> bytes \<Rightarrow> bytes" where
  "path_array cfg s = copy_into (replicate (CCSDS_CFDP_MAX_FILENAME_LEN cfg + 1) 0) 0 s"

definition c_string :: "bytes \<Rightarrow> bytes" where
  "c_string = takeWhile (\<lambda>b. b \<noteq> 0)"

definition zero_slot :: "cfdp_config \<Rightarrow> ('f, 'h) ccsds_cfdp_transaction_slot" where
  "zero_slot cfg = \<lparr>
     active = False,
     slot_id = \<lparr>id_source_entity_id = 0, id_transaction_sequence_number = 0\<rparr>,
     peer_entity_id = 0,
     filestore = None,
     metadata_received = False,
     file_handle_open = False,
     file_handle = None,
     file_size = 0,
     eof_checksum = 0,
     checksum_type = CCSDS_CFDP_CHECKSUM_TYPE_MODULAR,
     slot_transmission_mode = 0,
     checksum_state = \<lparr>cs_type = CCSDS_CFDP_CHECKSUM_TYPE_MODULAR, cs_value = 0, next_offset = 0,
       crc_started = False, deferred = False\<rparr>,
     received_ranges = ccsds_cfdp_ranges_init cfg,
     source_path = path_array cfg [],
     destination_path = path_array cfg [],
     slot_closure_requested = False,
     eof_received = False,
     finished_received = False,
     recovery_pending = False,
     waiting_for_finished_ack = False,
     nak_retry_count = 0,
     retry_count = 0,
     retry_deadline_ms = 0,
     finished_status = CCSDS_CFDP_STATUS_OK\<rparr>"

section \<open>Transaction numbers and events\<close>

definition transaction_sequence_limit :: "u8 \<Rightarrow> u64" where
  "transaction_sequence_limit len = (if len \<ge> 8 then 0xffffffffffffffff else push_bit (unat len * 8) 1)"

definition advance_transaction_sequence_number ::
  "('f, 'h) ccsds_cfdp_entity \<Rightarrow> ('f, 'h) ccsds_cfdp_entity" where
  "advance_transaction_sequence_number entity =
     (let limit = transaction_sequence_limit (ent_transaction_sequence_number_len entity) in
      if limit = 0xffffffffffffffff
      then entity\<lparr>next_transaction_sequence_number := next_transaction_sequence_number entity + 1\<rparr>
      else entity\<lparr>next_transaction_sequence_number := (next_transaction_sequence_number entity + 1) mod limit\<rparr>)"

definition transaction_id_matches :: "ccsds_cfdp_transaction_id \<Rightarrow> ccsds_cfdp_transaction_id \<Rightarrow> bool" where
  "transaction_id_matches a b \<longleftrightarrow>
     id_source_entity_id a = id_source_entity_id b \<and>
     id_transaction_sequence_number a = id_transaction_sequence_number b"

definition emit_event ::
  "('w, 'f, 'h) cfdp_platform \<Rightarrow> ccsds_cfdp_event_type \<Rightarrow> ccsds_cfdp_transaction_id \<Rightarrow> ccsds_cfdp_status \<Rightarrow>
     ('w, 'f, 'h, unit) cfdp" where
  "emit_event plat type tid status =
     (case event_cb plat of
        None \<Rightarrow> give ()
      | Some cb \<Rightarrow> cb \<lparr>event_type = type, event_transaction_id = tid, event_status = status\<rparr>)"

definition emit_terminal_event ::
  "('w, 'f, 'h) cfdp_platform \<Rightarrow> ccsds_cfdp_transaction_id \<Rightarrow> ccsds_cfdp_status \<Rightarrow> ('w, 'f, 'h, unit) cfdp" where
  "emit_terminal_event plat tid status =
     emit_event plat (if status = CCSDS_CFDP_STATUS_OK then CCSDS_CFDP_EVENT_COMPLETE else CCSDS_CFDP_EVENT_FAILED)
       tid status"

text \<open>\<^verbatim>\<open>bounded_strlen\<close> scans until the terminator or past \<open>max_len\<close>.\<close>

fun bounded_strlen :: "bytes \<Rightarrow> nat \<Rightarrow> nat" where
  "bounded_strlen [] max_len = 0"
| "bounded_strlen (c # cs) 0 = 1"
| "bounded_strlen (c # cs) (Suc max_len) = Suc (bounded_strlen cs max_len)"

definition path_len_is_valid :: "cfdp_config \<Rightarrow> bytes option \<Rightarrow> nat option" where
  "path_len_is_valid cfg path =
     (case path of
        None \<Rightarrow> None
      | Some p \<Rightarrow>
          let path_len = bounded_strlen p (CCSDS_CFDP_MAX_FILENAME_LEN cfg) in
          if path_len = 0 \<or> path_len > CCSDS_CFDP_MAX_FILENAME_LEN cfg then None else Some path_len)"

section \<open>Sending PDUs\<close>

definition sender_header :: "('f, 'h) ccsds_cfdp_entity \<Rightarrow> u8 \<Rightarrow> ccsds_cfdp_pdu_header" where
  "sender_header entity type = \<lparr>
     hdr_version = CCSDS_CFDP_VERSION_1,
     pdu_type = type,
     direction = CCSDS_CFDP_DIRECTION_TOWARD_RECEIVER,
     transmission_mode = slot_transmission_mode (sender entity),
     crc_flag = CCSDS_CFDP_CRC_NOT_PRESENT,
     file_size_mode = CCSDS_CFDP_FILE_SIZE_SMALL,
     pdu_data_field_len = 0,
     segmentation_control = CCSDS_CFDP_SEGMENTATION_RECORD_BOUNDARIES_NOT_PRESERVED,
     segment_metadata_present = False,
     entity_id_len = ent_entity_id_len entity,
     transaction_sequence_number_len = ent_transaction_sequence_number_len entity,
     source_entity_id = id_source_entity_id (slot_id (sender entity)),
     transaction_sequence_number = id_transaction_sequence_number (slot_id (sender entity)),
     destination_entity_id = peer_entity_id (sender entity)\<rparr>"

text \<open>The encoders write into \<^verbatim>\<open>pdu_buf\<close>; the transport is given its first \<open>len\<close> bytes.\<close>

definition send_encoded_pdu_to ::
  "('w, 'f, 'h) cfdp_platform \<Rightarrow> u64 \<Rightarrow> nat \<Rightarrow> ('w, 'f, 'h, ccsds_cfdp_status) cfdp" where
  "send_encoded_pdu_to plat dest_entity_id len = do {
     entity \<leftarrow> entity_get;
     rc \<leftarrow> the (send_pdu plat) dest_entity_id (take len (pdu_buf entity));
     give (if rc = RC_OK then CCSDS_CFDP_STATUS_OK else CCSDS_CFDP_STATUS_INVALID_ARGUMENT)
   }"

definition send_encoded_pdu ::
  "('w, 'f, 'h) cfdp_platform \<Rightarrow> nat \<Rightarrow> ('w, 'f, 'h, ccsds_cfdp_status) cfdp" where
  "send_encoded_pdu plat len = do {
     entity \<leftarrow> entity_get;
     rc \<leftarrow> the (send_pdu plat) (peer_entity_id (sender entity)) (take len (pdu_buf entity));
     give (if rc = RC_OK then CCSDS_CFDP_STATUS_OK else CCSDS_CFDP_STATUS_INVALID_ARGUMENT)
   }"

definition store_pdu :: "bytes \<Rightarrow> ('w, 'f, 'h, unit) cfdp" where
  "store_pdu bs = modify_entity (\<lambda>e. e\<lparr>pdu_buf := copy_into (pdu_buf e) 0 bs\<rparr>)"

definition send_metadata ::
  "cfdp_config \<Rightarrow> ('w, 'f, 'h) cfdp_platform \<Rightarrow> ccsds_cfdp_put_request \<Rightarrow> nat \<Rightarrow> nat \<Rightarrow> u32 \<Rightarrow>
     ('w, 'f, 'h, ccsds_cfdp_status) cfdp" where
  "send_metadata cfg plat request source_len destination_len fsize = do {
     entity \<leftarrow> entity_get;
     case ccsds_cfdp_encode_metadata cfg \<lparr>
         md_header = sender_header entity CCSDS_CFDP_PDU_TYPE_FILE_DIRECTIVE,
         closure_requested = req_closure_requested request,
         md_checksum_type = req_checksum_type request,
         md_file_size = fsize,
         source_filename = take source_len (the (req_source_path request)),
         destination_filename = take destination_len (the (req_destination_path request))\<rparr>
         (CCSDS_CFDP_MAX_PDU_SIZE cfg) of
       Inl status \<Rightarrow> give status
     | Inr bs \<Rightarrow> do { store_pdu bs; send_encoded_pdu plat (length bs) }
   }"

definition send_filedata ::
  "cfdp_config \<Rightarrow> ('w, 'f, 'h) cfdp_platform \<Rightarrow> u32 \<Rightarrow> bytes \<Rightarrow> ('w, 'f, 'h, ccsds_cfdp_status) cfdp" where
  "send_filedata cfg plat offset data = do {
     entity \<leftarrow> entity_get;
     case ccsds_cfdp_encode_filedata cfg \<lparr>
         fd_header = sender_header entity CCSDS_CFDP_PDU_TYPE_FILE_DATA,
         fd_offset = offset,
         fd_data = data\<rparr>
         (CCSDS_CFDP_MAX_PDU_SIZE cfg) of
       Inl status \<Rightarrow> give status
     | Inr bs \<Rightarrow> do { store_pdu bs; send_encoded_pdu plat (length bs) }
   }"

definition send_eof ::
  "cfdp_config \<Rightarrow> ('w, 'f, 'h) cfdp_platform \<Rightarrow> u32 \<Rightarrow> u32 \<Rightarrow> ('w, 'f, 'h, ccsds_cfdp_status) cfdp" where
  "send_eof cfg plat checksum fsize = do {
     entity \<leftarrow> entity_get;
     case ccsds_cfdp_encode_eof cfg \<lparr>
         eof_header = sender_header entity CCSDS_CFDP_PDU_TYPE_FILE_DIRECTIVE,
         eof_condition_code = CCSDS_CFDP_CONDITION_NO_ERROR,
         file_checksum = checksum,
         eof_file_size = fsize\<rparr>
         (CCSDS_CFDP_MAX_PDU_SIZE cfg) of
       Inl status \<Rightarrow> give status
     | Inr bs \<Rightarrow> do { store_pdu bs; send_encoded_pdu plat (length bs) }
   }"

section \<open>Guards\<close>

definition filestore_is_valid :: "('w, 'f, 'h) cfdp_platform \<Rightarrow> 'f option \<Rightarrow> bool" where
  "filestore_is_valid plat fs =
     (case fs of
        None \<Rightarrow> False
      | Some f \<Rightarrow> fs_open_read (fs_ops plat f) \<noteq> None \<and> fs_read (fs_ops plat f) \<noteq> None \<and>
                 fs_close (fs_ops plat f) \<noteq> None)"

definition receive_filestore_is_valid :: "('w, 'f, 'h) cfdp_platform \<Rightarrow> 'f option \<Rightarrow> bool" where
  "receive_filestore_is_valid plat fs =
     (case fs of
        None \<Rightarrow> False
      | Some f \<Rightarrow> fs_open_write_tmp (fs_ops plat f) \<noteq> None \<and> fs_read (fs_ops plat f) \<noteq> None \<and>
                 fs_write (fs_ops plat f) \<noteq> None \<and> fs_close (fs_ops plat f) \<noteq> None \<and>
                 fs_commit_tmp (fs_ops plat f) \<noteq> None \<and> fs_discard_tmp (fs_ops plat f) \<noteq> None)"

definition incoming_header_is_supported :: "('f, 'h) ccsds_cfdp_entity \<Rightarrow> ccsds_cfdp_pdu_header \<Rightarrow> bool" where
  "incoming_header_is_supported entity header \<longleftrightarrow>
     destination_entity_id header = local_entity_id entity \<and>
     source_entity_id header = remote_entity_id entity \<and>
     entity_id_len header = ent_entity_id_len entity \<and>
     transaction_sequence_number_len header = ent_transaction_sequence_number_len entity \<and>
     direction header = CCSDS_CFDP_DIRECTION_TOWARD_RECEIVER \<and>
     transmission_mode header \<le> CCSDS_CFDP_TRANSMISSION_MODE_UNACKNOWLEDGED \<and>
     crc_flag header = CCSDS_CFDP_CRC_NOT_PRESENT"

definition incoming_finished_header_is_supported ::
  "('f, 'h) ccsds_cfdp_entity \<Rightarrow> ccsds_cfdp_pdu_header \<Rightarrow> bool" where
  "incoming_finished_header_is_supported entity header \<longleftrightarrow>
     source_entity_id header = local_entity_id entity \<and>
     destination_entity_id header = remote_entity_id entity \<and>
     entity_id_len header = ent_entity_id_len entity \<and>
     transaction_sequence_number_len header = ent_transaction_sequence_number_len entity \<and>
     direction header = CCSDS_CFDP_DIRECTION_TOWARD_SENDER \<and>
     transmission_mode header \<le> CCSDS_CFDP_TRANSMISSION_MODE_UNACKNOWLEDGED \<and>
     crc_flag header = CCSDS_CFDP_CRC_NOT_PRESENT"

definition transaction_id_from_header :: "ccsds_cfdp_pdu_header \<Rightarrow> ccsds_cfdp_transaction_id" where
  "transaction_id_from_header header = \<lparr>
     id_source_entity_id = source_entity_id header,
     id_transaction_sequence_number = transaction_sequence_number header\<rparr>"

definition sender_active_matches_header :: "('f, 'h) ccsds_cfdp_entity \<Rightarrow> ccsds_cfdp_pdu_header \<Rightarrow> bool" where
  "sender_active_matches_header entity header \<longleftrightarrow>
     active (sender entity) \<and>
     transaction_id_matches (slot_id (sender entity)) (transaction_id_from_header header)"

definition receiver_active_matches_header :: "('f, 'h) ccsds_cfdp_entity \<Rightarrow> ccsds_cfdp_pdu_header \<Rightarrow> bool" where
  "receiver_active_matches_header entity header \<longleftrightarrow>
     active (receiver entity) \<and>
     transaction_id_matches (slot_id (receiver entity)) (transaction_id_from_header header)"

definition receiver_response_header :: "('f, 'h) ccsds_cfdp_entity \<Rightarrow> ccsds_cfdp_pdu_header" where
  "receiver_response_header entity = \<lparr>
     hdr_version = CCSDS_CFDP_VERSION_1,
     pdu_type = CCSDS_CFDP_PDU_TYPE_FILE_DIRECTIVE,
     direction = CCSDS_CFDP_DIRECTION_TOWARD_SENDER,
     transmission_mode = slot_transmission_mode (receiver entity),
     crc_flag = CCSDS_CFDP_CRC_NOT_PRESENT,
     file_size_mode = CCSDS_CFDP_FILE_SIZE_SMALL,
     pdu_data_field_len = 0,
     segmentation_control = CCSDS_CFDP_SEGMENTATION_RECORD_BOUNDARIES_NOT_PRESERVED,
     segment_metadata_present = False,
     entity_id_len = ent_entity_id_len entity,
     transaction_sequence_number_len = ent_transaction_sequence_number_len entity,
     source_entity_id = id_source_entity_id (slot_id (receiver entity)),
     transaction_sequence_number = id_transaction_sequence_number (slot_id (receiver entity)),
     destination_entity_id = local_entity_id entity\<rparr>"

definition receiver_match_active ::
  "('f, 'h) ccsds_cfdp_entity \<Rightarrow> ccsds_cfdp_pdu_header \<Rightarrow> ccsds_cfdp_status" where
  "receiver_match_active entity header =
     (if \<not> active (receiver entity) \<or> \<not> metadata_received (receiver entity)
      then CCSDS_CFDP_STATUS_INVALID_ARGUMENT
      else if \<not> transaction_id_matches (slot_id (receiver entity)) (transaction_id_from_header header)
      then CCSDS_CFDP_STATUS_TRANSACTION_BUSY
      else CCSDS_CFDP_STATUS_OK)"

section \<open>The received file's checksum\<close>

text \<open>A \<^verbatim>\<open>read\<close> into \<^verbatim>\<open>file_segment_buf\<close>.\<close>

definition segment_read ::
  "('w, 'f, 'h) ccsds_cfdp_filestore_ops \<Rightarrow> 'h option \<Rightarrow> u32 \<Rightarrow> nat \<Rightarrow> ('w, 'f, 'h, int \<times> nat) cfdp" where
  "segment_read ops handle offset request_len = do {
     r \<leftarrow> the (fs_read ops) handle offset request_len;
     let (rc, stored, nread) = r;
     modify_entity (\<lambda>e. e\<lparr>file_segment_buf := copy_into (file_segment_buf e) 0 (take request_len stored)\<rparr>);
     give (rc, nread)
   }"

definition receiver_checksum_read ::
  "('w, 'f, 'h) ccsds_cfdp_filestore_ops \<Rightarrow> 'h option \<Rightarrow> u32 \<Rightarrow> nat \<Rightarrow>
     ('w, 'f, 'h, ccsds_cfdp_status \<times> nat) cfdp" where
  "receiver_checksum_read ops handle offset cap = do {
     r \<leftarrow> segment_read ops handle offset cap;
     give (if fst r \<noteq> 0 then CCSDS_CFDP_STATUS_FILESTORE_REJECTION else CCSDS_CFDP_STATUS_OK, snd r)
   }"

text \<open>
  The loops over a file read its size again in every round, which a callback may have
  changed; they end because the offset grows and never wraps.
\<close>

lemma offset_grows:
  assumes "offset < fsize" "0 < n" "n \<le> unat (fsize - offset)"
  shows "unat (0xffffffff - (offset + word_of_nat n) :: u32) < unat (0xffffffff - offset)"
proof -
  have u32: "unat x < 2 ^ 32" for x :: u32
  proof -
    have "unat x < 2 ^ LENGTH(32)" by (rule unsigned_less)
    then show ?thesis by simp
  qed
  have n32: "n < 2 ^ 32" using assms(3) u32 [of "fsize - offset"] by linarith
  have off: "unat offset + n \<le> unat fsize"
    using assms(1,3) by (simp add: unat_sub word_less_nat_alt word_le_nat_alt)
  then have sum: "unat (offset + word_of_nat n) = unat offset + n"
    using n32 u32 [of fsize] by (simp add: unat_word_ariths unsigned_of_nat take_bit_nat_eq_self)
  have top: "unat (0xffffffff - x :: u32) = 0xffffffff - unat x" for x :: u32
    using u32 [of x] by (simp add: unat_sub word_le_nat_alt)
  show ?thesis using off assms(2) u32 [of fsize] unfolding top sum by simp
qed

function receiver_checksum_loop ::
  "cfdp_config \<Rightarrow> ('w, 'f, 'h) cfdp_platform \<Rightarrow> ('w, 'f, 'h) ccsds_cfdp_filestore_ops \<Rightarrow> 'h option \<Rightarrow>
     u32 \<Rightarrow> ccsds_cfdp_checksum_state \<Rightarrow> ('w, 'f, 'h, ccsds_cfdp_status + ccsds_cfdp_checksum_state) cfdp" where
  "receiver_checksum_loop cfg plat ops handle offset cs = do {
     entity \<leftarrow> entity_get;
     if offset < file_size (receiver entity) then do {
       let remaining = unat (file_size (receiver entity) - offset);
       let request_len = (if remaining < CCSDS_CFDP_MAX_SEGMENT_SIZE cfg then remaining else CCSDS_CFDP_MAX_SEGMENT_SIZE cfg);
       r \<leftarrow> receiver_checksum_read ops handle offset request_len;
       let (status, nread) = r;
       if status \<noteq> CCSDS_CFDP_STATUS_OK then give (Inl status)
       else if nread = 0 \<or> nread > request_len \<or> nread > remaining then give (Inl CCSDS_CFDP_STATUS_FILE_SIZE_ERROR)
       else do {
         entity \<leftarrow> entity_get;
         (case ccsds_cfdp_checksum_update (crc32_c plat) (crc32_ieee_update plat) cs offset
             (take nread (file_segment_buf entity)) of
            (status, cs') \<Rightarrow>
              if status \<noteq> CCSDS_CFDP_STATUS_OK then give (Inl status)
              else receiver_checksum_loop cfg plat ops handle (offset + word_of_nat nread) cs')
       }
     } else give (Inr cs)
   }"
  by pat_completeness auto
termination
  by (relation "measure (\<lambda>(cfg, plat, ops, handle, offset, cs). unat (0xffffffff - offset))")
    (auto intro!: offset_grows)

declare receiver_checksum_loop.simps [simp del]

definition receiver_compute_checksum ::
  "cfdp_config \<Rightarrow> ('w, 'f, 'h) cfdp_platform \<Rightarrow> ('w, 'f, 'h) ccsds_cfdp_filestore_ops \<Rightarrow>
     ('w, 'f, 'h, ccsds_cfdp_status + u32) cfdp" where
  "receiver_compute_checksum cfg plat ops = do {
     entity \<leftarrow> entity_get;
     case ccsds_cfdp_checksum_init (checksum_type (receiver entity)) of
       Inl status \<Rightarrow> give (Inl status)
     | Inr cs \<Rightarrow> do {
         r \<leftarrow> receiver_checksum_loop cfg plat ops (file_handle (receiver entity)) 0 cs;
         give (case r of Inl status \<Rightarrow> Inl status | Inr cs' \<Rightarrow> ccsds_cfdp_checksum_finish cs')
       }
   }"

definition receiver_verify_complete_file ::
  "cfdp_config \<Rightarrow> ('w, 'f, 'h) cfdp_platform \<Rightarrow> ('w, 'f, 'h) ccsds_cfdp_filestore_ops \<Rightarrow> u32 \<Rightarrow>
     ('w, 'f, 'h, ccsds_cfdp_status) cfdp" where
  "receiver_verify_complete_file cfg plat ops expected_checksum = do {
     r \<leftarrow> receiver_compute_checksum cfg plat ops;
     give (case r of
            Inl status \<Rightarrow> status
          | Inr checksum \<Rightarrow>
              if checksum \<noteq> expected_checksum then CCSDS_CFDP_STATUS_CHECKSUM_FAILURE else CCSDS_CFDP_STATUS_OK)
   }"

section \<open>Responses\<close>

definition send_ack_eof ::
  "cfdp_config \<Rightarrow> ('w, 'f, 'h) cfdp_platform \<Rightarrow> u8 \<Rightarrow> ('w, 'f, 'h, ccsds_cfdp_status) cfdp" where
  "send_ack_eof cfg plat code = do {
     entity \<leftarrow> entity_get;
     case ccsds_cfdp_encode_ack cfg \<lparr>
         ack_header = receiver_response_header entity,
         acknowledged_directive = CCSDS_CFDP_DIRECTIVE_EOF,
         directive_subtype = CCSDS_CFDP_ACK_DIRECTIVE_SUBTYPE_OTHER,
         ack_condition_code = code,
         transaction_status = CCSDS_CFDP_TRANSACTION_STATUS_ACTIVE\<rparr>
         (CCSDS_CFDP_MAX_PDU_SIZE cfg) of
       Inl status \<Rightarrow> give status
     | Inr bs \<Rightarrow> do { store_pdu bs; send_encoded_pdu_to plat (peer_entity_id (receiver entity)) (length bs) }
   }"

definition send_ack_finished ::
  "cfdp_config \<Rightarrow> ('w, 'f, 'h) cfdp_platform \<Rightarrow> u8 \<Rightarrow> ('w, 'f, 'h, ccsds_cfdp_status) cfdp" where
  "send_ack_finished cfg plat code = do {
     entity \<leftarrow> entity_get;
     case ccsds_cfdp_encode_ack cfg \<lparr>
         ack_header = sender_header entity CCSDS_CFDP_PDU_TYPE_FILE_DIRECTIVE,
         acknowledged_directive = CCSDS_CFDP_DIRECTIVE_FINISHED,
         directive_subtype = CCSDS_CFDP_ACK_DIRECTIVE_SUBTYPE_FINISHED,
         ack_condition_code = code,
         transaction_status = CCSDS_CFDP_TRANSACTION_STATUS_TERMINATED\<rparr>
         (CCSDS_CFDP_MAX_PDU_SIZE cfg) of
       Inl status \<Rightarrow> give status
     | Inr bs \<Rightarrow> do { store_pdu bs; send_encoded_pdu plat (length bs) }
   }"

definition send_nak_for_missing_ranges ::
  "cfdp_config \<Rightarrow> ('w, 'f, 'h) cfdp_platform \<Rightarrow> ('w, 'f, 'h, ccsds_cfdp_status) cfdp" where
  "send_nak_for_missing_ranges cfg plat = do {
     entity \<leftarrow> entity_get;
     case ccsds_cfdp_ranges_missing cfg (received_ranges (receiver entity)) 0 (file_size (receiver entity)) of
       Inl status \<Rightarrow>
         give (if status = CCSDS_CFDP_STATUS_BUFFER_TOO_SMALL then CCSDS_CFDP_STATUS_NAK_LIMIT_REACHED else status)
     | Inr missing \<Rightarrow>
         (case ccsds_cfdp_encode_nak cfg \<lparr>
             nak_header = receiver_response_header entity,
             scope_start = 0,
             scope_end = file_size (receiver entity),
             nak_ranges = map (\<lambda>r. \<lparr>nak_start = rstart r, nak_end = rend r\<rparr>) (take (ccsds_cfdp_ranges.count missing) (ranges missing))\<rparr>
             (CCSDS_CFDP_MAX_PDU_SIZE cfg) of
            Inl status \<Rightarrow> give status
          | Inr bs \<Rightarrow> do { store_pdu bs; send_encoded_pdu_to plat (peer_entity_id (receiver entity)) (length bs) })
   }"

definition entity_now_ms :: "('w, 'f, 'h) cfdp_platform \<Rightarrow> ('w, 'f, 'h, u64) cfdp" where
  "entity_now_ms plat = (case now_ms plat of None \<Rightarrow> give 0 | Some clock \<Rightarrow> clock)"

definition arm_retry ::
  "cfdp_config \<Rightarrow> u64 \<Rightarrow> ('f, 'h) ccsds_cfdp_transaction_slot \<Rightarrow> ('f, 'h) ccsds_cfdp_transaction_slot" where
  "arm_retry cfg now slot = slot\<lparr>retry_deadline_ms := now + word_of_nat (CCSDS_CFDP_RETRY_INTERVAL_MS cfg)\<rparr>"

definition retry_due :: "('f, 'h) ccsds_cfdp_transaction_slot \<Rightarrow> u64 \<Rightarrow> bool" where
  "retry_due slot now \<longleftrightarrow> retry_deadline_ms slot = 0 \<or> now \<ge> retry_deadline_ms slot"

definition finished_condition_from_status :: "ccsds_cfdp_status \<Rightarrow> u8" where
  "finished_condition_from_status status =
     (if status = CCSDS_CFDP_STATUS_FILESTORE_REJECTION then CCSDS_CFDP_CONDITION_FILESTORE_REJECTION
      else if status = CCSDS_CFDP_STATUS_CHECKSUM_FAILURE then CCSDS_CFDP_CONDITION_FILE_CHECKSUM_FAILURE
      else if status = CCSDS_CFDP_STATUS_FILE_SIZE_ERROR then CCSDS_CFDP_CONDITION_FILE_SIZE_ERROR
      else if status = CCSDS_CFDP_STATUS_NAK_LIMIT_REACHED then CCSDS_CFDP_CONDITION_NAK_LIMIT_REACHED
      else if status = CCSDS_CFDP_STATUS_OK then CCSDS_CFDP_CONDITION_NO_ERROR
      else CCSDS_CFDP_CONDITION_CANCEL_REQUEST_RECEIVED)"

definition finished_file_status_from_status :: "ccsds_cfdp_status \<Rightarrow> u8" where
  "finished_file_status_from_status status =
     (if status = CCSDS_CFDP_STATUS_OK then CCSDS_CFDP_FILE_STATUS_RETAINED
      else if status = CCSDS_CFDP_STATUS_FILESTORE_REJECTION
      then CCSDS_CFDP_FILE_STATUS_DISCARDED_FILESTORE_REJECTION
      else CCSDS_CFDP_FILE_STATUS_DISCARDED_DELIBERATELY)"

definition send_finished_for_receiver_status ::
  "cfdp_config \<Rightarrow> ('w, 'f, 'h) cfdp_platform \<Rightarrow> ccsds_cfdp_status \<Rightarrow> ('w, 'f, 'h, ccsds_cfdp_status) cfdp" where
  "send_finished_for_receiver_status cfg plat status = do {
     entity \<leftarrow> entity_get;
     case ccsds_cfdp_encode_finished cfg \<lparr>
         fin_header = receiver_response_header entity,
         fin_condition_code = finished_condition_from_status status,
         delivery_code = (if status = CCSDS_CFDP_STATUS_OK then CCSDS_CFDP_DELIVERY_CODE_DATA_COMPLETE
                          else CCSDS_CFDP_DELIVERY_CODE_DATA_INCOMPLETE),
         file_status = finished_file_status_from_status status\<rparr>
         (CCSDS_CFDP_MAX_PDU_SIZE cfg) of
       Inl fstatus \<Rightarrow> give fstatus
     | Inr bs \<Rightarrow> do { store_pdu bs; send_encoded_pdu_to plat (peer_entity_id (receiver entity)) (length bs) }
   }"

section \<open>Ending transactions\<close>

definition close_sender_handle :: "('w, 'f, 'h) cfdp_platform \<Rightarrow> ('w, 'f, 'h, unit) cfdp" where
  "close_sender_handle plat = do {
     entity \<leftarrow> entity_get;
     _ \<leftarrow> (if file_handle_open (sender entity) then
              case filestore (sender entity) of
                None \<Rightarrow> give 0
              | Some f \<Rightarrow>
                  (case fs_close (fs_ops plat f) of
                     None \<Rightarrow> give 0
                   | Some close \<Rightarrow> close (file_handle (sender entity)))
            else give 0);
     modify_sender (\<lambda>s. s\<lparr>file_handle_open := False, file_handle := None\<rparr>)
   }"

definition ccsds_cfdp_entity_release_sender_transaction ::
  "cfdp_config \<Rightarrow> ('w, 'f, 'h) cfdp_platform \<Rightarrow> ('w, 'f, 'h, unit) cfdp" where
  "ccsds_cfdp_entity_release_sender_transaction cfg plat = do {
     close_sender_handle plat;
     modify_sender (\<lambda>_. zero_slot cfg)
   }"

definition ccsds_cfdp_entity_release_receiver_transaction :: "cfdp_config \<Rightarrow> ('w, 'f, 'h, unit) cfdp" where
  "ccsds_cfdp_entity_release_receiver_transaction cfg = modify_receiver (\<lambda>_. zero_slot cfg)"

definition close_discard_receiver :: "('w, 'f, 'h) cfdp_platform \<Rightarrow> ('w, 'f, 'h, unit) cfdp" where
  "close_discard_receiver plat = do {
     entity \<leftarrow> entity_get;
     case filestore (receiver entity) of
       None \<Rightarrow> give ()
     | Some f \<Rightarrow> do {
         _ \<leftarrow> (if file_handle_open (receiver entity) then
                  case fs_close (fs_ops plat f) of
                    None \<Rightarrow> give 0
                  | Some close \<Rightarrow> close (file_handle (receiver entity))
                else give 0);
         modify_receiver (\<lambda>s. s\<lparr>file_handle_open := False, file_handle := None\<rparr>);
         entity \<leftarrow> entity_get;
         _ \<leftarrow> (case filestore (receiver entity) of
                  None \<Rightarrow> give 0
                | Some g \<Rightarrow>
                    (case fs_discard_tmp (fs_ops plat g) of
                       None \<Rightarrow> give 0
                     | Some discard \<Rightarrow> discard (c_string (destination_path (receiver entity)))));
         give ()
       }
   }"

definition release_sender_terminal ::
  "cfdp_config \<Rightarrow> ('w, 'f, 'h) cfdp_platform \<Rightarrow> ccsds_cfdp_status \<Rightarrow> ('w, 'f, 'h, unit) cfdp" where
  "release_sender_terminal cfg plat status = do {
     entity \<leftarrow> entity_get;
     emit_terminal_event plat (slot_id (sender entity)) status;
     ccsds_cfdp_entity_release_sender_transaction cfg plat
   }"

definition release_receiver_terminal ::
  "cfdp_config \<Rightarrow> ('w, 'f, 'h) cfdp_platform \<Rightarrow> ccsds_cfdp_status \<Rightarrow> ('w, 'f, 'h, unit) cfdp" where
  "release_receiver_terminal cfg plat status = do {
     entity \<leftarrow> entity_get;
     emit_terminal_event plat (slot_id (receiver entity)) status;
     ccsds_cfdp_entity_release_receiver_transaction cfg
   }"

definition fail_receiver_active_transaction ::
  "cfdp_config \<Rightarrow> ('w, 'f, 'h) cfdp_platform \<Rightarrow> ccsds_cfdp_status \<Rightarrow> ('w, 'f, 'h, unit) cfdp" where
  "fail_receiver_active_transaction cfg plat status = do {
     entity \<leftarrow> entity_get;
     (if \<not> waiting_for_finished_ack (receiver entity) then close_discard_receiver plat else give ());
     release_receiver_terminal cfg plat status
   }"

section \<open>Receiving\<close>

text \<open>In these handlers \<open>fs\<close> is the filestore the caller passed, checked before they run.\<close>

definition receiver_finish ::
  "cfdp_config \<Rightarrow> ('w, 'f, 'h) cfdp_platform \<Rightarrow> 'f \<Rightarrow> ccsds_cfdp_status \<Rightarrow>
     ('w, 'f, 'h, ccsds_cfdp_status) cfdp" where
  "receiver_finish cfg plat fs status = do {
     let ops = fs_ops plat fs;
     entity \<leftarrow> entity_get;
     let closure = slot_closure_requested (receiver entity);
     status \<leftarrow> (if file_handle_open (receiver entity) then do {
                   rc \<leftarrow> the (fs_close ops) (file_handle (receiver entity));
                   give (if rc \<noteq> 0 \<and> status = CCSDS_CFDP_STATUS_OK then CCSDS_CFDP_STATUS_FILESTORE_REJECTION
                        else status)
                 } else give status);
     modify_receiver (\<lambda>s. s\<lparr>file_handle_open := False, file_handle := None\<rparr>);
     entity \<leftarrow> entity_get;
     status \<leftarrow> (if status = CCSDS_CFDP_STATUS_OK then do {
                   rc \<leftarrow> the (fs_commit_tmp ops) (c_string (destination_path (receiver entity)));
                   give (if rc \<noteq> 0 then CCSDS_CFDP_STATUS_FILESTORE_REJECTION else status)
                 } else do {
                   _ \<leftarrow> the (fs_discard_tmp ops) (c_string (destination_path (receiver entity)));
                   give status
                 });
     fstatus \<leftarrow> (if closure then do {
                   modify_receiver (\<lambda>s. s\<lparr>finished_status := status\<rparr>);
                   send_finished_for_receiver_status cfg plat status
                 } else give CCSDS_CFDP_STATUS_OK);
     entity \<leftarrow> entity_get;
     if closure \<and> \<not> active (receiver entity)
     then give (if status = CCSDS_CFDP_STATUS_OK then fstatus else status)
     else if slot_transmission_mode (receiver entity) = CCSDS_CFDP_TRANSMISSION_MODE_ACKNOWLEDGED
     then
       if fstatus = CCSDS_CFDP_STATUS_OK then do {
         modify_receiver (\<lambda>s. s\<lparr>recovery_pending := False, waiting_for_finished_ack := True, retry_count := 0\<rparr>);
         now \<leftarrow> entity_now_ms plat;
         modify_receiver (arm_retry cfg now);
         give status
       } else do {
         release_receiver_terminal cfg plat fstatus;
         give (if status = CCSDS_CFDP_STATUS_OK then fstatus else status)
       }
     else do {
       release_receiver_terminal cfg plat (if status = CCSDS_CFDP_STATUS_OK then fstatus else status);
       give (if status = CCSDS_CFDP_STATUS_OK then fstatus else status)
     }
   }"

definition receiver_handle_metadata ::
  "cfdp_config \<Rightarrow> ('w, 'f, 'h) cfdp_platform \<Rightarrow> 'f \<Rightarrow> bytes \<Rightarrow> ('w, 'f, 'h, ccsds_cfdp_status) cfdp" where
  "receiver_handle_metadata cfg plat fs pdu = do {
     entity \<leftarrow> entity_get;
     case ccsds_cfdp_decode_metadata cfg pdu of
       Inl status \<Rightarrow> give status
     | Inr (metadata, consumed) \<Rightarrow>
         if consumed \<noteq> length pdu \<or> \<not> incoming_header_is_supported entity (md_header metadata)
         then give CCSDS_CFDP_STATUS_UNSUPPORTED
         else
           let incoming = transaction_id_from_header (md_header metadata) in
           if active (receiver entity)
           then give (if \<not> transaction_id_matches (slot_id (receiver entity)) incoming
                     then CCSDS_CFDP_STATUS_TRANSACTION_BUSY else CCSDS_CFDP_STATUS_INVALID_ARGUMENT)
           else
             (case ccsds_cfdp_checksum_init (md_checksum_type metadata) of
                Inl status \<Rightarrow> give status
              | Inr cs \<Rightarrow> do {
                  modify_receiver (\<lambda>s. s\<lparr>
                    checksum_state := cs,
                    received_ranges := ccsds_cfdp_ranges_init cfg,
                    source_path := path_array cfg (source_filename metadata),
                    destination_path := path_array cfg (destination_filename metadata),
                    active := True,
                    metadata_received := True,
                    filestore := Some fs,
                    slot_id := incoming,
                    peer_entity_id := source_entity_id (md_header metadata),
                    file_size := md_file_size metadata,
                    checksum_type := md_checksum_type metadata,
                    slot_transmission_mode := transmission_mode (md_header metadata),
                    slot_closure_requested :=
                      (closure_requested metadata \<or>
                       transmission_mode (md_header metadata) = CCSDS_CFDP_TRANSMISSION_MODE_ACKNOWLEDGED)\<rparr>);
                  entity \<leftarrow> entity_get;
                  r \<leftarrow> the (fs_open_write_tmp (fs_ops plat fs)) (c_string (destination_path (receiver entity)));
                  modify_receiver (\<lambda>s. s\<lparr>file_handle := snd r\<rparr>);
                  if fst r \<noteq> 0 then do {
                    emit_terminal_event plat incoming CCSDS_CFDP_STATUS_FILESTORE_REJECTION;
                    modify_receiver (\<lambda>_. zero_slot cfg);
                    give CCSDS_CFDP_STATUS_FILESTORE_REJECTION
                  } else do {
                    modify_receiver (\<lambda>s. s\<lparr>file_handle_open := True\<rparr>);
                    give CCSDS_CFDP_STATUS_OK
                  }
                })
   }"

definition receiver_handle_filedata ::
  "cfdp_config \<Rightarrow> ('w, 'f, 'h) cfdp_platform \<Rightarrow> 'f \<Rightarrow> bytes \<Rightarrow> ('w, 'f, 'h, ccsds_cfdp_status) cfdp" where
  "receiver_handle_filedata cfg plat fs pdu = do {
     entity \<leftarrow> entity_get;
     case ccsds_cfdp_decode_filedata cfg pdu of
       Inl status \<Rightarrow> give status
     | Inr (filedata, consumed) \<Rightarrow>
         if consumed \<noteq> length pdu \<or> \<not> incoming_header_is_supported entity (fd_header filedata)
         then give CCSDS_CFDP_STATUS_UNSUPPORTED
         else if receiver_match_active entity (fd_header filedata) \<noteq> CCSDS_CFDP_STATUS_OK
         then give (receiver_match_active entity (fd_header filedata))
         else if length (fd_data filedata) > 0xffffffff \<or>
                 fd_offset filedata > 0xffffffff - word_of_nat (length (fd_data filedata))
         then give CCSDS_CFDP_STATUS_FILE_SIZE_ERROR
         else
           let data_end = fd_offset filedata + word_of_nat (length (fd_data filedata)) in
           if data_end > file_size (receiver entity) then give CCSDS_CFDP_STATUS_FILE_SIZE_ERROR
           else do {
             rc \<leftarrow> the (fs_write (fs_ops plat fs)) (file_handle (receiver entity)) (fd_offset filedata) (fd_data filedata);
             if rc \<noteq> 0 then give CCSDS_CFDP_STATUS_FILESTORE_REJECTION
             else do {
               entity \<leftarrow> entity_get;
               let (status, received) =
                 ccsds_cfdp_ranges_add cfg (received_ranges (receiver entity)) (fd_offset filedata) data_end;
               modify_receiver (\<lambda>s. s\<lparr>received_ranges := received\<rparr>);
               if status \<noteq> CCSDS_CFDP_STATUS_OK then give status
               else do {
                 let (status, cs) = ccsds_cfdp_checksum_update (crc32_c plat) (crc32_ieee_update plat)
                   (checksum_state (receiver entity)) (fd_offset filedata) (fd_data filedata);
                 modify_receiver (\<lambda>s. s\<lparr>checksum_state := cs\<rparr>);
                 if status \<noteq> CCSDS_CFDP_STATUS_OK then give status
                 else do {
                   entity \<leftarrow> entity_get;
                   if eof_received (receiver entity) \<and>
                      slot_transmission_mode (receiver entity) = CCSDS_CFDP_TRANSMISSION_MODE_ACKNOWLEDGED
                   then
                     (case ccsds_cfdp_ranges_is_complete cfg (received_ranges (receiver entity)) 0
                         (file_size (receiver entity)) of
                        Inl status \<Rightarrow> receiver_finish cfg plat fs status
                      | Inr complete \<Rightarrow>
                          if complete then do {
                            status \<leftarrow> receiver_verify_complete_file cfg plat (fs_ops plat fs)
                              (eof_checksum (receiver entity));
                            receiver_finish cfg plat fs status
                          } else give CCSDS_CFDP_STATUS_OK)
                   else give CCSDS_CFDP_STATUS_OK
                 }
               }
             }
           }
   }"

definition receiver_handle_eof ::
  "cfdp_config \<Rightarrow> ('w, 'f, 'h) cfdp_platform \<Rightarrow> 'f \<Rightarrow> bytes \<Rightarrow> ('w, 'f, 'h, ccsds_cfdp_status) cfdp" where
  "receiver_handle_eof cfg plat fs pdu = do {
     entity \<leftarrow> entity_get;
     case ccsds_cfdp_decode_eof cfg pdu of
       Inl status \<Rightarrow> give status
     | Inr (eof, consumed) \<Rightarrow>
         if consumed \<noteq> length pdu \<or> \<not> incoming_header_is_supported entity (eof_header eof)
         then give CCSDS_CFDP_STATUS_UNSUPPORTED
         else if receiver_match_active entity (eof_header eof) \<noteq> CCSDS_CFDP_STATUS_OK
         then give (receiver_match_active entity (eof_header eof))
         else if waiting_for_finished_ack (receiver entity)
         then send_finished_for_receiver_status cfg plat (finished_status (receiver entity))
         else do {
           modify_receiver (\<lambda>s. s\<lparr>eof_checksum := file_checksum eof\<rparr>);
           if eof_condition_code eof \<noteq> CCSDS_CFDP_CONDITION_NO_ERROR \<or>
              eof_file_size eof \<noteq> file_size (receiver entity)
           then do {
             _ \<leftarrow> (if slot_transmission_mode (receiver entity) = CCSDS_CFDP_TRANSMISSION_MODE_ACKNOWLEDGED
                   then send_ack_eof cfg plat (eof_condition_code eof) else give CCSDS_CFDP_STATUS_OK);
             receiver_finish cfg plat fs CCSDS_CFDP_STATUS_FILE_SIZE_ERROR
           } else do {
             status \<leftarrow> (if slot_transmission_mode (receiver entity) = CCSDS_CFDP_TRANSMISSION_MODE_ACKNOWLEDGED
                        then send_ack_eof cfg plat (eof_condition_code eof) else give CCSDS_CFDP_STATUS_OK);
             if status \<noteq> CCSDS_CFDP_STATUS_OK then give status
             else do {
               entity \<leftarrow> entity_get;
               case ccsds_cfdp_ranges_is_complete cfg (received_ranges (receiver entity)) 0 (eof_file_size eof) of
                 Inl status \<Rightarrow> receiver_finish cfg plat fs status
               | Inr complete \<Rightarrow>
                   if \<not> complete then
                     (if slot_transmission_mode (receiver entity) = CCSDS_CFDP_TRANSMISSION_MODE_ACKNOWLEDGED
                      then do {
                        modify_receiver (\<lambda>s. s\<lparr>eof_received := True, eof_checksum := file_checksum eof\<rparr>);
                        status \<leftarrow> send_nak_for_missing_ranges cfg plat;
                        if status \<noteq> CCSDS_CFDP_STATUS_OK then receiver_finish cfg plat fs status
                        else do {
                          modify_receiver (\<lambda>s. s\<lparr>recovery_pending := True, retry_count := 0\<rparr>);
                          now \<leftarrow> entity_now_ms plat;
                          modify_receiver (arm_retry cfg now);
                          give CCSDS_CFDP_STATUS_OK
                        }
                      } else receiver_finish cfg plat fs CCSDS_CFDP_STATUS_FILE_SIZE_ERROR)
                   else do {
                     status \<leftarrow> receiver_verify_complete_file cfg plat (fs_ops plat fs) (file_checksum eof);
                     receiver_finish cfg plat fs status
                   }
             }
           }
         }
   }"

definition receiver_handle_ack ::
  "cfdp_config \<Rightarrow> ('w, 'f, 'h) cfdp_platform \<Rightarrow> bytes \<Rightarrow> ('w, 'f, 'h, ccsds_cfdp_status) cfdp" where
  "receiver_handle_ack cfg plat pdu = do {
     entity \<leftarrow> entity_get;
     case ccsds_cfdp_decode_ack cfg pdu of
       Inl status \<Rightarrow> give status
     | Inr (ack, consumed) \<Rightarrow>
         if consumed \<noteq> length pdu \<or> \<not> incoming_header_is_supported entity (ack_header ack)
         then give CCSDS_CFDP_STATUS_UNSUPPORTED
         else if acknowledged_directive ack \<noteq> CCSDS_CFDP_DIRECTIVE_FINISHED \<or>
                 directive_subtype ack \<noteq> CCSDS_CFDP_ACK_DIRECTIVE_SUBTYPE_FINISHED \<or>
                 transmission_mode (ack_header ack) \<noteq> CCSDS_CFDP_TRANSMISSION_MODE_ACKNOWLEDGED
         then give CCSDS_CFDP_STATUS_UNSUPPORTED
         else if \<not> active (receiver entity) \<or>
                 \<not> transaction_id_matches (slot_id (receiver entity)) (transaction_id_from_header (ack_header ack))
         then give CCSDS_CFDP_STATUS_INVALID_ARGUMENT
         else do {
           release_receiver_terminal cfg plat (finished_status (receiver entity));
           give CCSDS_CFDP_STATUS_OK
         }
   }"

section \<open>Responses to the sender\<close>

definition sender_fail ::
  "cfdp_config \<Rightarrow> ('w, 'f, 'h) cfdp_platform \<Rightarrow> ccsds_cfdp_status \<Rightarrow> ('w, 'f, 'h, ccsds_cfdp_status) cfdp" where
  "sender_fail cfg plat status = do {
     modify_sender (\<lambda>s. s\<lparr>finished_status := status\<rparr>);
     close_sender_handle plat;
     release_sender_terminal cfg plat status;
     give status
   }"

definition sender_finished_status :: "ccsds_cfdp_finished_pdu \<Rightarrow> ccsds_cfdp_status" where
  "sender_finished_status finished =
     (if fin_condition_code finished = CCSDS_CFDP_CONDITION_NO_ERROR \<and>
         delivery_code finished = CCSDS_CFDP_DELIVERY_CODE_DATA_COMPLETE then CCSDS_CFDP_STATUS_OK
      else if fin_condition_code finished = CCSDS_CFDP_CONDITION_FILE_CHECKSUM_FAILURE
      then CCSDS_CFDP_STATUS_CHECKSUM_FAILURE
      else if fin_condition_code finished = CCSDS_CFDP_CONDITION_FILE_SIZE_ERROR
      then CCSDS_CFDP_STATUS_FILE_SIZE_ERROR
      else if fin_condition_code finished = CCSDS_CFDP_CONDITION_FILESTORE_REJECTION
      then CCSDS_CFDP_STATUS_FILESTORE_REJECTION
      else CCSDS_CFDP_STATUS_CANCEL_REQUEST)"

definition sender_handle_finished ::
  "cfdp_config \<Rightarrow> ('w, 'f, 'h) cfdp_platform \<Rightarrow> bytes \<Rightarrow> ('w, 'f, 'h, ccsds_cfdp_status) cfdp" where
  "sender_handle_finished cfg plat pdu = do {
     entity \<leftarrow> entity_get;
     case ccsds_cfdp_decode_finished cfg pdu of
       Inl status \<Rightarrow> give status
     | Inr (finished, consumed) \<Rightarrow>
         if consumed \<noteq> length pdu \<or> \<not> incoming_finished_header_is_supported entity (fin_header finished)
         then give CCSDS_CFDP_STATUS_UNSUPPORTED
         else if \<not> active (sender entity) \<or>
                 \<not> transaction_id_matches (slot_id (sender entity)) (transaction_id_from_header (fin_header finished))
         then give CCSDS_CFDP_STATUS_INVALID_ARGUMENT
         else do {
           let fstatus = sender_finished_status finished;
           modify_sender (\<lambda>s. s\<lparr>finished_received := True, finished_status := fstatus\<rparr>);
           modify_entity (\<lambda>e. e\<lparr>sender_completion_available := True, sender_completion_status := fstatus\<rparr>);
           if slot_transmission_mode (sender entity) = CCSDS_CFDP_TRANSMISSION_MODE_ACKNOWLEDGED then do {
             status \<leftarrow> send_ack_finished cfg plat (fin_condition_code finished);
             if status \<noteq> CCSDS_CFDP_STATUS_OK then sender_fail cfg plat status
             else do {
               release_sender_terminal cfg plat fstatus;
               give fstatus
             }
           } else give fstatus
         }
   }"

definition sender_handle_ack ::
  "cfdp_config \<Rightarrow> bytes \<Rightarrow> ('w, 'f, 'h, ccsds_cfdp_status) cfdp" where
  "sender_handle_ack cfg pdu = do {
     entity \<leftarrow> entity_get;
     case ccsds_cfdp_decode_ack cfg pdu of
       Inl status \<Rightarrow> give status
     | Inr (ack, consumed) \<Rightarrow>
         give (if consumed \<noteq> length pdu \<or> \<not> incoming_finished_header_is_supported entity (ack_header ack)
              then CCSDS_CFDP_STATUS_UNSUPPORTED
              else if acknowledged_directive ack \<noteq> CCSDS_CFDP_DIRECTIVE_EOF \<or>
                      directive_subtype ack \<noteq> CCSDS_CFDP_ACK_DIRECTIVE_SUBTYPE_OTHER \<or>
                      transmission_mode (ack_header ack) \<noteq> CCSDS_CFDP_TRANSMISSION_MODE_ACKNOWLEDGED
              then CCSDS_CFDP_STATUS_UNSUPPORTED
              else if \<not> active (sender entity) \<or>
                      \<not> transaction_id_matches (slot_id (sender entity)) (transaction_id_from_header (ack_header ack))
              then CCSDS_CFDP_STATUS_INVALID_ARGUMENT
              else CCSDS_CFDP_STATUS_OK)
   }"

definition sender_nak_header_is_supported :: "('f, 'h) ccsds_cfdp_entity \<Rightarrow> ccsds_cfdp_pdu_header \<Rightarrow> bool" where
  "sender_nak_header_is_supported entity header \<longleftrightarrow>
     incoming_finished_header_is_supported entity header \<and>
     transmission_mode header = CCSDS_CFDP_TRANSMISSION_MODE_ACKNOWLEDGED"

function sender_retransmit_range ::
  "cfdp_config \<Rightarrow> ('w, 'f, 'h) cfdp_platform \<Rightarrow> ('w, 'f, 'h) ccsds_cfdp_filestore_ops \<Rightarrow> u32 \<Rightarrow> u32 \<Rightarrow>
     ('w, 'f, 'h, ccsds_cfdp_status) cfdp" where
  "sender_retransmit_range cfg plat ops offset stop =
     (if offset < stop then do {
        let remaining = unat (stop - offset);
        let request_len = (if remaining < CCSDS_CFDP_MAX_SEGMENT_SIZE cfg then remaining else CCSDS_CFDP_MAX_SEGMENT_SIZE cfg);
        entity \<leftarrow> entity_get;
        r \<leftarrow> segment_read ops (file_handle (sender entity)) offset request_len;
        let (rc, nread) = r;
        if rc \<noteq> 0 then give CCSDS_CFDP_STATUS_FILESTORE_REJECTION
        else if nread = 0 \<or> nread > request_len \<or> nread > remaining then give CCSDS_CFDP_STATUS_FILE_SIZE_ERROR
        else do {
          entity \<leftarrow> entity_get;
          status \<leftarrow> send_filedata cfg plat offset (take nread (file_segment_buf entity));
          if status \<noteq> CCSDS_CFDP_STATUS_OK then give status
          else sender_retransmit_range cfg plat ops (offset + word_of_nat nread) stop
        }
      } else give CCSDS_CFDP_STATUS_OK)"
  by pat_completeness auto
termination
  by (relation "measure (\<lambda>(cfg, plat, ops, offset, stop). unat (0xffffffff - offset))")
    (auto intro!: offset_grows)

declare sender_retransmit_range.simps [simp del]

text \<open>The loop over the ranges of a NAK; \<open>None\<close> is its normal end, \<open>Some\<close> the status of a failure.\<close>

fun sender_nak_loop ::
  "cfdp_config \<Rightarrow> ('w, 'f, 'h) cfdp_platform \<Rightarrow> ('w, 'f, 'h) ccsds_cfdp_filestore_ops \<Rightarrow>
     ccsds_cfdp_nak_range list \<Rightarrow> ('w, 'f, 'h, ccsds_cfdp_status option) cfdp" where
  "sender_nak_loop cfg plat ops [] = give None"
| "sender_nak_loop cfg plat ops (r # rs) = do {
     entity \<leftarrow> entity_get;
     if nak_end r > file_size (sender entity) then do {
       status \<leftarrow> sender_fail cfg plat CCSDS_CFDP_STATUS_FILE_SIZE_ERROR;
       give (Some status)
     } else do {
       status \<leftarrow> sender_retransmit_range cfg plat ops (nak_start r) (nak_end r);
       if status \<noteq> CCSDS_CFDP_STATUS_OK then do {
         status \<leftarrow> sender_fail cfg plat status;
         give (Some status)
       } else sender_nak_loop cfg plat ops rs
     }
   }"

definition sender_handle_nak ::
  "cfdp_config \<Rightarrow> ('w, 'f, 'h) cfdp_platform \<Rightarrow> 'f option \<Rightarrow> bytes \<Rightarrow> ('w, 'f, 'h, ccsds_cfdp_status) cfdp" where
  "sender_handle_nak cfg plat fs pdu = do {
     entity \<leftarrow> entity_get;
     case ccsds_cfdp_decode_nak cfg pdu of
       Inl status \<Rightarrow> give status
     | Inr (nak, consumed) \<Rightarrow>
         if consumed \<noteq> length pdu \<or> \<not> sender_nak_header_is_supported entity (nak_header nak)
         then give CCSDS_CFDP_STATUS_UNSUPPORTED
         else if \<not> active (sender entity) \<or>
                 \<not> transaction_id_matches (slot_id (sender entity)) (transaction_id_from_header (nak_header nak))
         then give CCSDS_CFDP_STATUS_INVALID_ARGUMENT
         else if \<not> filestore_is_valid plat fs \<or> \<not> file_handle_open (sender entity) \<or>
                 file_handle (sender entity) = None
         then sender_fail cfg plat CCSDS_CFDP_STATUS_FILESTORE_REJECTION
         else if slot_transmission_mode (sender entity) \<noteq> CCSDS_CFDP_TRANSMISSION_MODE_ACKNOWLEDGED
         then sender_fail cfg plat CCSDS_CFDP_STATUS_INVALID_TRANSMISSION_MODE
         else do {
           modify_sender (\<lambda>s. s\<lparr>nak_retry_count := nak_retry_count s + 1\<rparr>);
           entity \<leftarrow> entity_get;
           if unat (nak_retry_count (sender entity)) > CCSDS_CFDP_MAX_NAK_ROUNDS cfg
           then sender_fail cfg plat CCSDS_CFDP_STATUS_NAK_LIMIT_REACHED
           else if scope_start nak \<noteq> 0 \<or> scope_end nak \<noteq> file_size (sender entity)
           then sender_fail cfg plat CCSDS_CFDP_STATUS_FILE_SIZE_ERROR
           else do {
             r \<leftarrow> sender_nak_loop cfg plat (fs_ops plat (the fs)) (nak_ranges nak);
             case r of
               Some status \<Rightarrow> give status
             | None \<Rightarrow> do {
                 entity \<leftarrow> entity_get;
                 status \<leftarrow> send_eof cfg plat (eof_checksum (sender entity)) (file_size (sender entity));
                 if status \<noteq> CCSDS_CFDP_STATUS_OK then sender_fail cfg plat status
                 else give CCSDS_CFDP_STATUS_OK
               }
           }
         }
   }"

section \<open>Entry points\<close>

definition ccsds_cfdp_entity_init ::
  "cfdp_config \<Rightarrow> ('w, 'f, 'h) cfdp_platform \<Rightarrow> ccsds_cfdp_entity_config \<Rightarrow>
     ccsds_cfdp_status + ('f, 'h) ccsds_cfdp_entity" where
  "ccsds_cfdp_entity_init cfg plat config =
     (if \<not> encoded_int_len_is_valid (cfg_entity_id_len config) (CCSDS_CFDP_MAX_ENTITY_ID_LEN cfg) \<or>
         \<not> encoded_int_len_is_valid (cfg_transaction_sequence_number_len config) (CCSDS_CFDP_MAX_TRANS_SEQ_LEN cfg) \<or>
         \<not> value_fits_len (cfg_local_entity_id config) (cfg_entity_id_len config) \<or>
         \<not> value_fits_len (cfg_remote_entity_id config) (cfg_entity_id_len config) \<or>
         \<not> value_fits_len (cfg_initial_transaction_sequence_number config)
             (cfg_transaction_sequence_number_len config) \<or>
         send_pdu plat = None
      then Inl CCSDS_CFDP_STATUS_INVALID_ARGUMENT
      else Inr \<lparr>
        local_entity_id = cfg_local_entity_id config,
        remote_entity_id = cfg_remote_entity_id config,
        ent_entity_id_len = cfg_entity_id_len config,
        ent_transaction_sequence_number_len = cfg_transaction_sequence_number_len config,
        next_transaction_sequence_number = cfg_initial_transaction_sequence_number config,
        sender = zero_slot cfg,
        receiver = zero_slot cfg,
        sender_completion_available = False,
        sender_completion_status = CCSDS_CFDP_STATUS_OK,
        pdu_buf = replicate (CCSDS_CFDP_MAX_PDU_SIZE cfg) 0,
        file_segment_buf = replicate (CCSDS_CFDP_MAX_SEGMENT_SIZE cfg) 0\<rparr>)"

definition ccsds_cfdp_entity_create_sender_transaction ::
  "('w, 'f, 'h, ccsds_cfdp_status + ccsds_cfdp_transaction_id) cfdp" where
  "ccsds_cfdp_entity_create_sender_transaction = do {
     entity \<leftarrow> entity_get;
     if active (sender entity) then give (Inl CCSDS_CFDP_STATUS_TRANSACTION_BUSY)
     else do {
       let allocated = \<lparr>id_source_entity_id = local_entity_id entity,
                        id_transaction_sequence_number = next_transaction_sequence_number entity\<rparr>;
       modify_entity advance_transaction_sequence_number;
       modify_sender (\<lambda>s. s\<lparr>
         active := True,
         slot_id := allocated,
         peer_entity_id := remote_entity_id entity,
         slot_transmission_mode := CCSDS_CFDP_TRANSMISSION_MODE_UNACKNOWLEDGED,
         finished_status := CCSDS_CFDP_STATUS_OK\<rparr>);
       give (Inr allocated)
     }
   }"

text \<open>
  The loop of \<^verbatim>\<open>ccsds_cfdp_entity_send_file\<close>: the checksum is taken from \<^verbatim>\<open>file_segment_buf\<close> after the
  segment was sent, so it sees what the transport left there.
\<close>

function send_file_loop ::
  "cfdp_config \<Rightarrow> ('w, 'f, 'h) cfdp_platform \<Rightarrow> ('w, 'f, 'h) ccsds_cfdp_filestore_ops \<Rightarrow> 'h option \<Rightarrow> u32 \<Rightarrow>
     u32 \<Rightarrow> ccsds_cfdp_checksum_state \<Rightarrow> ('w, 'f, 'h, ccsds_cfdp_status + ccsds_cfdp_checksum_state) cfdp" where
  "send_file_loop cfg plat ops handle fsize offset cs =
     (if offset < fsize then do {
        let remaining = unat (fsize - offset);
        let request_len = (if remaining < CCSDS_CFDP_MAX_SEGMENT_SIZE cfg then remaining else CCSDS_CFDP_MAX_SEGMENT_SIZE cfg);
        r \<leftarrow> segment_read ops handle offset request_len;
        let (rc, nread) = r;
        if rc \<noteq> 0 then give (Inl CCSDS_CFDP_STATUS_FILESTORE_REJECTION)
        else if nread = 0 \<or> nread > request_len \<or> nread > remaining then give (Inl CCSDS_CFDP_STATUS_FILE_SIZE_ERROR)
        else do {
          entity \<leftarrow> entity_get;
          status \<leftarrow> send_filedata cfg plat offset (take nread (file_segment_buf entity));
          if status \<noteq> CCSDS_CFDP_STATUS_OK then give (Inl status)
          else do {
            entity \<leftarrow> entity_get;
            (case ccsds_cfdp_checksum_update (crc32_c plat) (crc32_ieee_update plat) cs offset
                (take nread (file_segment_buf entity)) of
               (status, cs') \<Rightarrow>
                 if status \<noteq> CCSDS_CFDP_STATUS_OK then give (Inl status)
                 else send_file_loop cfg plat ops handle fsize (offset + word_of_nat nread) cs')
          }
        }
      } else give (Inr cs))"
  by pat_completeness auto
termination
  by (relation "measure (\<lambda>(cfg, plat, ops, handle, fsize, offset, cs). unat (0xffffffff - offset))")
    (auto intro!: offset_grows)

declare send_file_loop.simps [simp del]

text \<open>
  The part between the allocation of the transaction and the label \<^verbatim>\<open>out_release\<close>: the status, whether
  the handle was opened and whether the transaction stays active.
\<close>

definition send_file_body ::
  "cfdp_config \<Rightarrow> ('w, 'f, 'h) cfdp_platform \<Rightarrow> 'f \<Rightarrow> ccsds_cfdp_put_request \<Rightarrow> nat \<Rightarrow> nat \<Rightarrow>
     ccsds_cfdp_checksum_state \<Rightarrow> ('w, 'f, 'h, ccsds_cfdp_status \<times> bool \<times> bool) cfdp" where
  "send_file_body cfg plat fs request source_len destination_len cs = do {
     let ops = fs_ops plat fs;
     r \<leftarrow> the (fs_open_read ops) (the (req_source_path request));
     let (rc, handle, fsize) = r;
     if rc \<noteq> 0 then give (CCSDS_CFDP_STATUS_FILESTORE_REJECTION, False, False)
     else if handle = None \<and> fsize > 0 then give (CCSDS_CFDP_STATUS_FILESTORE_REJECTION, False, False)
     else do {
       modify_sender (\<lambda>s. s\<lparr>
         file_handle_open := True,
         file_handle := handle,
         filestore := Some fs,
         file_size := fsize,
         checksum_type := req_checksum_type request\<rparr>);
       status \<leftarrow> send_metadata cfg plat request source_len destination_len fsize;
       if status \<noteq> CCSDS_CFDP_STATUS_OK then give (status, True, False)
       else do {
         r \<leftarrow> send_file_loop cfg plat ops handle fsize 0 cs;
         case (case r of Inl status \<Rightarrow> Inl status | Inr cs' \<Rightarrow> ccsds_cfdp_checksum_finish cs') of
           Inl status \<Rightarrow> give (status, True, False)
         | Inr checksum \<Rightarrow> do {
             modify_sender (\<lambda>s. s\<lparr>eof_checksum := checksum\<rparr>);
             status \<leftarrow> send_eof cfg plat checksum fsize;
             entity \<leftarrow> entity_get;
             if status = CCSDS_CFDP_STATUS_OK \<and> acknowledged_mode request \<and> active (sender entity) \<and>
                \<not> finished_received (sender entity)
             then do {
               modify_sender (\<lambda>s. s\<lparr>retry_count := 0\<rparr>);
               now \<leftarrow> entity_now_ms plat;
               modify_sender (arm_retry cfg now);
               give (status, True, True)
             }
             else if status = CCSDS_CFDP_STATUS_OK \<and> req_closure_requested request \<and>
                     sender_completion_available entity
             then give (sender_completion_status entity, True, False)
             else if status = CCSDS_CFDP_STATUS_OK \<and> req_closure_requested request \<and>
                     finished_received (sender entity)
             then give (finished_status (sender entity), True, False)
             else if status = CCSDS_CFDP_STATUS_OK \<and> req_closure_requested request \<and> now_ms plat \<noteq> None
             then give (CCSDS_CFDP_STATUS_INACTIVITY_DETECTED, True, False)
             else give (status, True, False)
           }
       }
     }
   }"

text \<open>The result carries the transaction id the caller's output receives, if one was allocated.\<close>

definition ccsds_cfdp_entity_send_file ::
  "cfdp_config \<Rightarrow> ('w, 'f, 'h) cfdp_platform \<Rightarrow> 'f option \<Rightarrow> ccsds_cfdp_put_request \<Rightarrow>
     ('w, 'f, 'h, ccsds_cfdp_status \<times> ccsds_cfdp_transaction_id option) cfdp" where
  "ccsds_cfdp_entity_send_file cfg plat fs request =
     (case (path_len_is_valid cfg (req_source_path request), path_len_is_valid cfg (req_destination_path request)) of
        (Some source_len, Some destination_len) \<Rightarrow>
          if \<not> filestore_is_valid plat fs then give (CCSDS_CFDP_STATUS_INVALID_ARGUMENT, None)
          else
            (case ccsds_cfdp_checksum_init (req_checksum_type request) of
               Inl status \<Rightarrow> give (status, None)
             | Inr cs \<Rightarrow> do {
                 c \<leftarrow> ccsds_cfdp_entity_create_sender_transaction;
                 case c of
                   Inl status \<Rightarrow> give (status, None)
                 | Inr allocated \<Rightarrow> do {
                     modify_entity (\<lambda>e. e\<lparr>sender_completion_available := False,
                       sender_completion_status := CCSDS_CFDP_STATUS_OK\<rparr>);
                     modify_sender (\<lambda>s. s\<lparr>
                       slot_closure_requested := req_closure_requested request,
                       slot_transmission_mode :=
                         (if acknowledged_mode request then CCSDS_CFDP_TRANSMISSION_MODE_ACKNOWLEDGED
                          else CCSDS_CFDP_TRANSMISSION_MODE_UNACKNOWLEDGED),
                       source_path := path_array cfg (take source_len (the (req_source_path request))),
                       destination_path := path_array cfg (take destination_len (the (req_destination_path request)))\<rparr>);
                     r \<leftarrow> send_file_body cfg plat (the fs) request source_len destination_len cs;
                     let (status, handle_open, keep_sender_active) = r;
                     if keep_sender_active then give (status, Some allocated)
                     else do {
                       entity \<leftarrow> entity_get;
                       (if handle_open \<and> file_handle_open (sender entity) then close_sender_handle plat else give ());
                       entity \<leftarrow> entity_get;
                       (if active (sender entity) then release_sender_terminal cfg plat status else give ());
                       modify_entity (\<lambda>e. e\<lparr>sender_completion_available := False\<rparr>);
                       give (status, Some allocated)
                     }
                   }
               })
      | _ \<Rightarrow> give (CCSDS_CFDP_STATUS_INVALID_ARGUMENT, None))"

definition ccsds_cfdp_entity_receive_pdu ::
  "cfdp_config \<Rightarrow> ('w, 'f, 'h) cfdp_platform \<Rightarrow> 'f option \<Rightarrow> bytes \<Rightarrow> ('w, 'f, 'h, ccsds_cfdp_status) cfdp" where
  "ccsds_cfdp_entity_receive_pdu cfg plat fs pdu = do {
     entity \<leftarrow> entity_get;
     case ccsds_cfdp_decode_header cfg pdu of
       Inl status \<Rightarrow> give status
     | Inr (header, header_len) \<Rightarrow>
         if direction header = CCSDS_CFDP_DIRECTION_TOWARD_SENDER then
           if \<not> incoming_finished_header_is_supported entity header \<or>
              pdu_type header \<noteq> CCSDS_CFDP_PDU_TYPE_FILE_DIRECTIVE \<or>
              pdu_data_field_len header = 0 \<or> length pdu \<le> header_len
           then give CCSDS_CFDP_STATUS_UNSUPPORTED
           else do {
             let directive = pdu ! header_len;
             status \<leftarrow>
               (if directive = CCSDS_CFDP_DIRECTIVE_FINISHED then sender_handle_finished cfg plat pdu
                else if directive = CCSDS_CFDP_DIRECTIVE_ACK then sender_handle_ack cfg pdu
                else if directive = CCSDS_CFDP_DIRECTIVE_NAK
                then sender_handle_nak cfg plat (filestore (sender entity)) pdu
                else give CCSDS_CFDP_STATUS_UNSUPPORTED);
             entity \<leftarrow> entity_get;
             (if status \<noteq> CCSDS_CFDP_STATUS_OK \<and> sender_active_matches_header entity header
              then release_sender_terminal cfg plat status else give ());
             give status
           }
         else if \<not> incoming_header_is_supported entity header then give CCSDS_CFDP_STATUS_UNSUPPORTED
         else if \<not> receive_filestore_is_valid plat fs then give CCSDS_CFDP_STATUS_INVALID_ARGUMENT
         else if pdu_type header = CCSDS_CFDP_PDU_TYPE_FILE_DATA then do {
           status \<leftarrow> receiver_handle_filedata cfg plat (the fs) pdu;
           entity \<leftarrow> entity_get;
           (if status \<noteq> CCSDS_CFDP_STATUS_OK \<and> receiver_active_matches_header entity header
            then fail_receiver_active_transaction cfg plat status else give ());
           give status
         }
         else if pdu_data_field_len header = 0 \<or> length pdu \<le> header_len
         then give CCSDS_CFDP_STATUS_MALFORMED_PDU
         else do {
           let directive = pdu ! header_len;
           status \<leftarrow>
             (if directive = CCSDS_CFDP_DIRECTIVE_METADATA then receiver_handle_metadata cfg plat (the fs) pdu
              else if directive = CCSDS_CFDP_DIRECTIVE_EOF then receiver_handle_eof cfg plat (the fs) pdu
              else if directive = CCSDS_CFDP_DIRECTIVE_ACK then receiver_handle_ack cfg plat pdu
              else give CCSDS_CFDP_STATUS_UNSUPPORTED);
           entity \<leftarrow> entity_get;
           (if status \<noteq> CCSDS_CFDP_STATUS_OK \<and> receiver_active_matches_header entity header
            then fail_receiver_active_transaction cfg plat status else give ());
           give status
         }
   }"

text \<open>The three steps of \<^verbatim>\<open>ccsds_cfdp_entity_poll\<close>, in order.\<close>

definition poll_recovery :: "cfdp_config \<Rightarrow> ('w, 'f, 'h) cfdp_platform \<Rightarrow> u64 \<Rightarrow> ('w, 'f, 'h, unit) cfdp" where
  "poll_recovery cfg plat now = do {
     entity \<leftarrow> entity_get;
     if active (receiver entity) \<and>
        slot_transmission_mode (receiver entity) = CCSDS_CFDP_TRANSMISSION_MODE_ACKNOWLEDGED \<and>
        recovery_pending (receiver entity) \<and> retry_due (receiver entity) now
     then
       if unat (retry_count (receiver entity)) \<ge> CCSDS_CFDP_MAX_NAK_ROUNDS cfg then do {
         close_discard_receiver plat;
         release_receiver_terminal cfg plat CCSDS_CFDP_STATUS_INACTIVITY_DETECTED
       } else do {
         status \<leftarrow> send_nak_for_missing_ranges cfg plat;
         if status = CCSDS_CFDP_STATUS_OK
         then modify_receiver (\<lambda>s. arm_retry cfg now (s\<lparr>retry_count := retry_count s + 1\<rparr>))
         else do {
           close_discard_receiver plat;
           release_receiver_terminal cfg plat status
         }
       }
     else give ()
   }"

definition poll_finished :: "cfdp_config \<Rightarrow> ('w, 'f, 'h) cfdp_platform \<Rightarrow> u64 \<Rightarrow> ('w, 'f, 'h, unit) cfdp" where
  "poll_finished cfg plat now = do {
     entity \<leftarrow> entity_get;
     if active (receiver entity) \<and>
        slot_transmission_mode (receiver entity) = CCSDS_CFDP_TRANSMISSION_MODE_ACKNOWLEDGED \<and>
        waiting_for_finished_ack (receiver entity) \<and> retry_due (receiver entity) now
     then
       if unat (retry_count (receiver entity)) \<ge> CCSDS_CFDP_MAX_NAK_ROUNDS cfg
       then release_receiver_terminal cfg plat CCSDS_CFDP_STATUS_INACTIVITY_DETECTED
       else do {
         status \<leftarrow> send_finished_for_receiver_status cfg plat (finished_status (receiver entity));
         if status = CCSDS_CFDP_STATUS_OK
         then modify_receiver (\<lambda>s. arm_retry cfg now (s\<lparr>retry_count := retry_count s + 1\<rparr>))
         else release_receiver_terminal cfg plat status
       }
     else give ()
   }"

definition poll_sender :: "cfdp_config \<Rightarrow> ('w, 'f, 'h) cfdp_platform \<Rightarrow> u64 \<Rightarrow> ('w, 'f, 'h, unit) cfdp" where
  "poll_sender cfg plat now = do {
     entity \<leftarrow> entity_get;
     if active (sender entity) \<and>
        slot_transmission_mode (sender entity) = CCSDS_CFDP_TRANSMISSION_MODE_ACKNOWLEDGED \<and>
        \<not> finished_received (sender entity) \<and> retry_due (sender entity) now
     then
       if unat (retry_count (sender entity)) \<ge> CCSDS_CFDP_MAX_NAK_ROUNDS cfg then do {
         _ \<leftarrow> sender_fail cfg plat CCSDS_CFDP_STATUS_INACTIVITY_DETECTED;
         give ()
       } else do {
         status \<leftarrow> send_eof cfg plat (eof_checksum (sender entity)) (file_size (sender entity));
         if status = CCSDS_CFDP_STATUS_OK
         then modify_sender (\<lambda>s. arm_retry cfg now (s\<lparr>retry_count := retry_count s + 1\<rparr>))
         else do { _ \<leftarrow> sender_fail cfg plat status; give () }
       }
     else give ()
   }"

definition ccsds_cfdp_entity_poll ::
  "cfdp_config \<Rightarrow> ('w, 'f, 'h) cfdp_platform \<Rightarrow> u64 \<Rightarrow> ('w, 'f, 'h, unit) cfdp" where
  "ccsds_cfdp_entity_poll cfg plat now = do {
     poll_recovery cfg plat now;
     poll_finished cfg plat now;
     poll_sender cfg plat now
   }"

definition ccsds_cfdp_entity_match_or_create_receiver_transaction ::
  "cfdp_config \<Rightarrow> bytes \<Rightarrow> ('w, 'f, 'h, ccsds_cfdp_status + ccsds_cfdp_transaction_id) cfdp" where
  "ccsds_cfdp_entity_match_or_create_receiver_transaction cfg pdu = do {
     entity \<leftarrow> entity_get;
     case ccsds_cfdp_decode_header cfg pdu of
       Inl status \<Rightarrow> give (Inl status)
     | Inr (header, consumed) \<Rightarrow>
         if destination_entity_id header \<noteq> local_entity_id entity \<or>
            source_entity_id header \<noteq> remote_entity_id entity \<or>
            entity_id_len header \<noteq> ent_entity_id_len entity \<or>
            transaction_sequence_number_len header \<noteq> ent_transaction_sequence_number_len entity \<or>
            direction header \<noteq> CCSDS_CFDP_DIRECTION_TOWARD_RECEIVER
         then give (Inl CCSDS_CFDP_STATUS_UNSUPPORTED)
         else
           let incoming = transaction_id_from_header header in
           if active (receiver entity)
           then give (if \<not> transaction_id_matches (slot_id (receiver entity)) incoming
                     then Inl CCSDS_CFDP_STATUS_TRANSACTION_BUSY else Inr (slot_id (receiver entity)))
           else do {
             modify_receiver (\<lambda>s. s\<lparr>active := True, slot_id := incoming, peer_entity_id := source_entity_id header\<rparr>);
             give (Inr incoming)
           }
   }"

end
