(* ===== verification/Cfdp_Service.thy ===== *)
theory Cfdp_Service
  imports Cfdp_Entity Router
begin

unbundle bit_operations_syntax

text \<open>
  The CFDP service (\<^verbatim>\<open>src/ccsds_cfdp_service.c\<close>) and its Space Packet adapter (\<^verbatim>\<open>src/ccsds_cfdp_space_packet.c\<close>):
  the entity's transport puts a PDU into an unsegmented Space Packet for the remote APID, and the handler it
  registers for the local APID gives the payload of such a packet to the entity.

  The world of the entity is a pair of the application's world \<open>'x\<close> and the rest of the service: the adapter and the
  receive filestore; the entity itself is the other component of the state.  The adapter's \<^verbatim>\<open>receive_entity\<close> can
  only be null or point at the service's entity, so it is a flag.  The callbacks of the configuration are the record
  \<open>packet_callbacks\<close>.
\<close>

section \<open>The adapter\<close>

record 'f ccsds_cfdp_space_packet_adapter =
  ad_remote_entity_id :: u64
  ad_local_apid :: u16
  ad_remote_apid :: u16
  ad_packet_type :: ccsds_packet_type
  ad_sequence_count :: u16
  ad_receive_entity :: bool
  ad_receive_filestore :: "'f option"
  ad_packet_buf :: bytes

record 'f ccsds_cfdp_service =
  adapter :: "'f ccsds_cfdp_space_packet_adapter"
  service_receive_filestore :: "'f option"

type_synonym ('x, 'f, 'h, 'a) service_program = "('x \<times> 'f ccsds_cfdp_service, 'f, 'h, 'a) cfdp"
type_synonym ('x, 'f, 'h) service_platform = "('x \<times> 'f ccsds_cfdp_service, 'f, 'h) cfdp_platform"

record ('x, 'f, 'h) packet_callbacks =
  send_packet :: "(bytes \<Rightarrow> ('x, 'f, 'h, rc) service_program) option"
  packet_now_ms :: "('x, 'f, 'h, u64) service_program option"

record ccsds_cfdp_space_packet_adapter_config =
  acfg_remote_entity_id :: u64
  acfg_local_apid :: u16
  acfg_remote_apid :: u16
  acfg_packet_type :: ccsds_packet_type
  acfg_initial_sequence_count :: u16

definition adapter_get :: "('x, 'f, 'h, 'f ccsds_cfdp_space_packet_adapter) service_program" where
  "adapter_get = do { s \<leftarrow> State_Monad.get; give (adapter (snd (fst s))) }"

definition modify_adapter ::
  "('f ccsds_cfdp_space_packet_adapter \<Rightarrow> 'f ccsds_cfdp_space_packet_adapter) \<Rightarrow> ('x, 'f, 'h, unit) service_program" where
  "modify_adapter f = do {
     s \<leftarrow> State_Monad.get;
     State_Monad.set ((fst (fst s), (snd (fst s))\<lparr>adapter := f (adapter (snd (fst s)))\<rparr>), snd s)
   }"

lemma run_adapter_get [simp]: "run_state adapter_get s = (adapter (snd (fst s)), s)"
  by (simp add: adapter_get_def)

lemma run_modify_adapter [simp]:
  "run_state (modify_adapter f) s = ((), (fst (fst s), (snd (fst s))\<lparr>adapter := f (adapter (snd (fst s)))\<rparr>), snd s)"
  by (simp add: modify_adapter_def)

definition cfdp_space_packet_send_pdu ::
  "cfdp_config \<Rightarrow> ('x, 'f, 'h) packet_callbacks \<Rightarrow> u64 \<Rightarrow> bytes \<Rightarrow> ('x, 'f, 'h, rc) service_program" where
  "cfdp_space_packet_send_pdu cfg cb dest_entity_id pdu = do {
     ad \<leftarrow> adapter_get;
     if length pdu = 0 \<or> length pdu > CCSDS_CFDP_MAX_PDU_SIZE cfg \<or> dest_entity_id \<noteq> ad_remote_entity_id ad
     then give (RC_ERR EINVAL)
     else
       (case ccsds_space_packet_encode \<lparr>
           version = 0,
           packet_type = ad_packet_type ad,
           secondary_header = False,
           apid = ad_remote_apid ad,
           sequence_flags = CCSDS_SEQUENCE_UNSEGMENTED,
           sequence_count = ad_sequence_count ad,
           payload = pdu\<rparr> (length (ad_packet_buf ad)) of
          Inl err \<Rightarrow> give (RC_ERR err)
        | Inr bs \<Rightarrow> do {
            modify_adapter (\<lambda>a. a\<lparr>
              ad_packet_buf := copy_into (ad_packet_buf a) 0 bs,
              ad_sequence_count := (ad_sequence_count a + 1) AND 0x3fff\<rparr>);
            ad \<leftarrow> adapter_get;
            the (send_packet cb) (take (length bs) (ad_packet_buf ad))
          })
   }"

definition cfdp_space_packet_now_ms :: "('x, 'f, 'h) packet_callbacks \<Rightarrow> ('x, 'f, 'h, u64) service_program" where
  "cfdp_space_packet_now_ms cb = (case packet_now_ms cb of None \<Rightarrow> give 0 | Some clock \<Rightarrow> clock)"

text \<open>A packet handed to a handler carries its payload, so the null checks on it have no counterpart.\<close>

definition cfdp_space_packet_rx_handler ::
  "cfdp_config \<Rightarrow> ('x, 'f, 'h) service_platform \<Rightarrow> ccsds_space_packet \<Rightarrow> ('x, 'f, 'h, rc) service_program" where
  "cfdp_space_packet_rx_handler cfg plat packet = do {
     ad \<leftarrow> adapter_get;
     if \<not> ad_receive_entity ad \<or> version packet \<noteq> 0 \<or> secondary_header packet \<or>
        sequence_flags packet \<noteq> CCSDS_SEQUENCE_UNSEGMENTED \<or> length (payload packet) = 0 \<or>
        length (payload packet) > CCSDS_CFDP_MAX_PDU_SIZE cfg
     then give (RC_ERR EINVAL)
     else
       (case ccsds_cfdp_decode_header cfg (payload packet) of
          Inl status \<Rightarrow> give (RC_ERR EINVAL)
        | Inr (header, consumed) \<Rightarrow> do {
            status \<leftarrow> ccsds_cfdp_entity_receive_pdu cfg plat (ad_receive_filestore ad) (payload packet);
            give (if status = CCSDS_CFDP_STATUS_OK then RC_OK else RC_ERR EINVAL)
          })
   }"

definition ccsds_cfdp_space_packet_adapter_init ::
  "cfdp_config \<Rightarrow> ('x, 'f, 'h) packet_callbacks \<Rightarrow> ccsds_cfdp_space_packet_adapter_config \<Rightarrow>
     ccsds_cfdp_status + 'f ccsds_cfdp_space_packet_adapter" where
  "ccsds_cfdp_space_packet_adapter_init cfg cb config =
     (if acfg_local_apid config > CCSDS_APID_MAX \<or> acfg_remote_apid config > CCSDS_APID_MAX \<or>
         acfg_initial_sequence_count config > 0x3fff \<or> send_packet cb = None
      then Inl CCSDS_CFDP_STATUS_INVALID_ARGUMENT
      else Inr \<lparr>
        ad_remote_entity_id = acfg_remote_entity_id config,
        ad_local_apid = acfg_local_apid config,
        ad_remote_apid = acfg_remote_apid config,
        ad_packet_type = acfg_packet_type config,
        ad_sequence_count = acfg_initial_sequence_count config,
        ad_receive_entity = False,
        ad_receive_filestore = None,
        ad_packet_buf = replicate (6 + CCSDS_CFDP_MAX_PDU_SIZE cfg) 0\<rparr>)"

text \<open>The transport and the clock of the platform \<open>app\<close> are replaced by the adapter's.\<close>

definition ccsds_cfdp_space_packet_adapter_ut_ops ::
  "cfdp_config \<Rightarrow> ('x, 'f, 'h) packet_callbacks \<Rightarrow> ('x, 'f, 'h) service_platform \<Rightarrow> ('x, 'f, 'h) service_platform" where
  "ccsds_cfdp_space_packet_adapter_ut_ops cfg cb app = app\<lparr>
     send_pdu := Some (cfdp_space_packet_send_pdu cfg cb),
     now_ms := (if packet_now_ms cb = None then None else Some (cfdp_space_packet_now_ms cb))\<rparr>"

definition ccsds_cfdp_space_packet_adapter_register_rx ::
  "'f ccsds_cfdp_space_packet_adapter \<Rightarrow> ('r, 'u) ccsds_router \<Rightarrow> 'r \<Rightarrow> 'u option \<Rightarrow> 'f option \<Rightarrow>
     rc \<times> ('r, 'u) ccsds_router \<times> 'f ccsds_cfdp_space_packet_adapter" where
  "ccsds_cfdp_space_packet_adapter_register_rx ad router h user fs =
     (let ad' = ad\<lparr>ad_receive_entity := True, ad_receive_filestore := fs\<rparr>;
          (rc, router') = ccsds_router_register_apid router (ad_local_apid ad') h user
      in (rc, router', ad'))"

definition ccsds_cfdp_space_packet_max_payload_len :: "cfdp_config \<Rightarrow> nat" where
  "ccsds_cfdp_space_packet_max_payload_len cfg = CCSDS_CFDP_MAX_PDU_SIZE cfg"

section \<open>The service\<close>

record 'f ccsds_cfdp_service_config =
  scfg_local_entity_id :: u64
  scfg_remote_entity_id :: u64
  scfg_entity_id_len :: u8
  scfg_transaction_sequence_number_len :: u8
  scfg_initial_transaction_sequence_number :: u64
  scfg_local_apid :: u16
  scfg_remote_apid :: u16
  scfg_packet_type :: ccsds_packet_type
  scfg_initial_packet_sequence_count :: u16
  scfg_receive_filestore :: "'f option"

text \<open>The service's state after initialisation, as the two parts of the state: the adapter and the entity.\<close>

definition ccsds_cfdp_service_init ::
  "cfdp_config \<Rightarrow> ('x, 'f, 'h) packet_callbacks \<Rightarrow> ('x, 'f, 'h) service_platform \<Rightarrow> 'f ccsds_cfdp_service_config \<Rightarrow>
     ccsds_cfdp_status + 'f ccsds_cfdp_service \<times> ('f, 'h) ccsds_cfdp_entity" where
  "ccsds_cfdp_service_init cfg cb app config =
     (if scfg_local_entity_id config = 0 \<or> scfg_remote_entity_id config = 0 \<or> scfg_entity_id_len config = 0 \<or>
         scfg_transaction_sequence_number_len config = 0 \<or> scfg_local_apid config > 0x07ff \<or>
         scfg_remote_apid config > 0x07ff \<or> send_packet cb = None \<or> scfg_receive_filestore config = None
      then Inl CCSDS_CFDP_STATUS_INVALID_ARGUMENT
      else
        (case ccsds_cfdp_space_packet_adapter_init cfg cb \<lparr>
            acfg_remote_entity_id = scfg_remote_entity_id config,
            acfg_local_apid = scfg_local_apid config,
            acfg_remote_apid = scfg_remote_apid config,
            acfg_packet_type = scfg_packet_type config,
            acfg_initial_sequence_count = scfg_initial_packet_sequence_count config\<rparr> of
           Inl status \<Rightarrow> Inl status
         | Inr ad \<Rightarrow>
             (case ccsds_cfdp_entity_init cfg (ccsds_cfdp_space_packet_adapter_ut_ops cfg cb app) \<lparr>
                 cfg_local_entity_id = scfg_local_entity_id config,
                 cfg_remote_entity_id = scfg_remote_entity_id config,
                 cfg_entity_id_len = scfg_entity_id_len config,
                 cfg_transaction_sequence_number_len = scfg_transaction_sequence_number_len config,
                 cfg_initial_transaction_sequence_number = scfg_initial_transaction_sequence_number config\<rparr> of
                Inl status \<Rightarrow> Inl status
              | Inr entity \<Rightarrow>
                  Inr (\<lparr>adapter = ad, service_receive_filestore = scfg_receive_filestore config\<rparr>, entity))))"

definition ccsds_cfdp_service_register_rx ::
  "'f ccsds_cfdp_service \<Rightarrow> ('r, 'u) ccsds_router \<Rightarrow> 'r \<Rightarrow> 'u option \<Rightarrow> rc \<times> ('r, 'u) ccsds_router \<times> 'f ccsds_cfdp_service" where
  "ccsds_cfdp_service_register_rx service router h user =
     (let (rc, router', ad') = ccsds_cfdp_space_packet_adapter_register_rx (adapter service) router h user
            (service_receive_filestore service)
      in (rc, router', service\<lparr>adapter := ad'\<rparr>))"

definition ccsds_cfdp_service_send_file ::
  "cfdp_config \<Rightarrow> ('x, 'f, 'h) packet_callbacks \<Rightarrow> ('x, 'f, 'h) service_platform \<Rightarrow> 'f option \<Rightarrow> ccsds_cfdp_put_request \<Rightarrow>
     ('x, 'f, 'h, ccsds_cfdp_status \<times> ccsds_cfdp_transaction_id option) service_program" where
  "ccsds_cfdp_service_send_file cfg cb app fs request =
     ccsds_cfdp_entity_send_file cfg (ccsds_cfdp_space_packet_adapter_ut_ops cfg cb app) fs request"

definition ccsds_cfdp_service_poll ::
  "cfdp_config \<Rightarrow> ('x, 'f, 'h) packet_callbacks \<Rightarrow> ('x, 'f, 'h) service_platform \<Rightarrow> u64 \<Rightarrow> ('x, 'f, 'h, unit) service_program" where
  "ccsds_cfdp_service_poll cfg cb app now =
     ccsds_cfdp_entity_poll cfg (ccsds_cfdp_space_packet_adapter_ut_ops cfg cb app) now"

section \<open>From adapter to adapter\<close>

text \<open>What the initialisation establishes and sending keeps: the adapter can encode every packet it builds.\<close>

definition adapter_ok :: "cfdp_config \<Rightarrow> u64 \<Rightarrow> 'f ccsds_cfdp_space_packet_adapter \<Rightarrow> bool" where
  "adapter_ok cfg peer ad \<longleftrightarrow>
     ad_remote_entity_id ad = peer \<and> ad_remote_apid ad \<le> CCSDS_APID_MAX \<and> ad_local_apid ad \<le> CCSDS_APID_MAX \<and>
     ad_sequence_count ad \<le> 0x3fff \<and> 6 + CCSDS_CFDP_MAX_PDU_SIZE cfg \<le> length (ad_packet_buf ad)"

definition adapter_packet :: "'f ccsds_cfdp_space_packet_adapter \<Rightarrow> bytes \<Rightarrow> ccsds_space_packet" where
  "adapter_packet ad pdu = \<lparr>
     version = 0, packet_type = ad_packet_type ad, secondary_header = False, apid = ad_remote_apid ad,
     sequence_flags = CCSDS_SEQUENCE_UNSEGMENTED, sequence_count = ad_sequence_count ad, payload = pdu\<rparr>"

definition adapter_after ::
  "'f ccsds_cfdp_space_packet_adapter \<Rightarrow> bytes \<Rightarrow> 'f ccsds_cfdp_space_packet_adapter" where
  "adapter_after ad pdu = ad\<lparr>
     ad_packet_buf := copy_into (ad_packet_buf ad) 0 (packet_bytes (adapter_packet ad pdu)),
     ad_sequence_count := (ad_sequence_count ad + 1) AND 0x3fff\<rparr>"

lemma adapter_packet_ok:
  assumes "adapter_ok cfg peer ad" "cfdp_config_ok cfg" "pdu \<noteq> []" "length pdu \<le> CCSDS_CFDP_MAX_PDU_SIZE cfg"
  shows "packet_ok (adapter_packet ad pdu)"
  using assms by (simp add: packet_ok_def adapter_packet_def adapter_ok_def cfdp_config_ok_def)

lemma adapter_ok_after:
  assumes "adapter_ok cfg peer ad"
  shows "adapter_ok cfg peer (adapter_after ad pdu)"
proof -
  have "length buf \<le> length (copy_into buf 0 d)" for buf d :: bytes by (simp add: copy_into_def)
  from order.trans [OF _ this] assms show ?thesis
    by (simp add: adapter_ok_def adapter_after_def adapter_packet_def word_and_le1)
qed

lemma run_adapter_send:
  assumes "adapter_ok cfg peer (adapter svc)" "cfdp_config_ok cfg" "pdu \<noteq> []" "length pdu \<le> CCSDS_CFDP_MAX_PDU_SIZE cfg"
  shows "run_state (cfdp_space_packet_send_pdu cfg cb peer pdu) ((x, svc), e) =
    run_state (the (send_packet cb) (packet_bytes (adapter_packet (adapter svc) pdu)))
      ((x, svc\<lparr>adapter := adapter_after (adapter svc) pdu\<rparr>), e)"
proof -
  let ?p = "adapter_packet (adapter svc) pdu"
  have "ccsds_space_packet_encode ?p (length (ad_packet_buf (adapter svc))) = Inr (packet_bytes ?p)"
    using assms by (intro packet_encode_ok adapter_packet_ok) (simp_all add: adapter_packet_def adapter_ok_def)
  then show ?thesis
    using assms
    by (simp add: cfdp_space_packet_send_pdu_def adapter_ok_def adapter_after_def copy_into_def flip: adapter_packet_def)
qed

text \<open>A PDU with an unreadable header leaves the entity alone, so the handler's own check changes nothing.\<close>

lemma receive_unreadable:
  "ccsds_cfdp_decode_header cfg pdu = Inl status \<Longrightarrow> run_state (ccsds_cfdp_entity_receive_pdu cfg plat fs pdu) s = (status, s)"
  by (simp add: ccsds_cfdp_entity_receive_pdu_def)

lemma decode_header_not_ok: "ccsds_cfdp_decode_header cfg pdu \<noteq> Inl CCSDS_CFDP_STATUS_OK"
  by (simp add: ccsds_cfdp_decode_header_def Let_def)

lemma run_rx_handler:
  assumes "ad_receive_entity (adapter svc)" "pdu \<noteq> []" "length pdu \<le> CCSDS_CFDP_MAX_PDU_SIZE cfg"
  shows "run_state (cfdp_space_packet_rx_handler cfg plat (adapter_packet ad pdu)) ((x, svc), e) =
    apfst (\<lambda>st. if st = CCSDS_CFDP_STATUS_OK then RC_OK else RC_ERR EINVAL)
      (run_state (ccsds_cfdp_entity_receive_pdu cfg plat (ad_receive_filestore (adapter svc)) pdu) ((x, svc), e))"
proof (cases "ccsds_cfdp_decode_header cfg pdu")
  case (Inl status)
  with assms decode_header_not_ok [of cfg pdu] show ?thesis
    by (auto simp: cfdp_space_packet_rx_handler_def adapter_packet_def receive_unreadable)
next
  case (Inr h)
  with assms show ?thesis
    by (auto simp: cfdp_space_packet_rx_handler_def adapter_packet_def apfst_def map_prod_def split: prod.splits)
qed

text \<open>Registration binds the service's APID to its handler and arms the adapter.\<close>

lemma register_rx_binds:
  assumes "router_inv n router" "ccsds_cfdp_service_register_rx svc router h u = (RC_OK, router', svc')"
  shows "router_inv n router' \<and> router_map router' (ad_local_apid (adapter svc)) = Some (h, u) \<and>
    ad_receive_entity (adapter svc') \<and> ad_receive_filestore (adapter svc') = service_receive_filestore svc"
  using register_refines [OF assms(1), of "ad_local_apid (adapter svc)" h u] assms(2)
  by (auto simp: ccsds_cfdp_service_register_rx_def ccsds_cfdp_space_packet_adapter_register_rx_def Let_def prod_eq_iff
      split: prod.splits if_splits)

lemma run_rx_handler_routed:
  assumes "adapter_ok cfg peer (adapter a)" "cfdp_config_ok cfg" "pdu \<noteq> []" "length pdu \<le> CCSDS_CFDP_MAX_PDU_SIZE cfg"
    and "router_inv n router" "router_map router (ad_remote_apid (adapter a)) = Some (h, u)"
    and "ad_receive_entity (adapter b)"
  shows "ccsds_router_dispatch_bytes (\<lambda>h p u. run_state (cfdp_space_packet_rx_handler cfg plat p)) router
      (packet_bytes (adapter_packet (adapter a) pdu)) ((y, b), e) =
    apfst (\<lambda>st. if st = CCSDS_CFDP_STATUS_OK then RC_OK else RC_ERR EINVAL)
      (run_state (ccsds_cfdp_entity_receive_pdu cfg plat (ad_receive_filestore (adapter b)) pdu) ((y, b), e))"
proof -
  let ?p = "adapter_packet (adapter a) pdu"
  have "ccsds_space_packet_decode (packet_bytes ?p) = Inr ?p"
    using packet_decode_bytes [OF adapter_packet_ok [OF assms(1-4)], of "[]"] by simp
  moreover have "apid ?p = ad_remote_apid (adapter a)" "ad_remote_apid (adapter a) \<le> CCSDS_APID_MAX"
    using assms(1) by (simp_all add: adapter_packet_def adapter_ok_def)
  ultimately show ?thesis
    using run_rx_handler [OF assms(7,3,4), of plat "adapter a" y e] assms(6)
    by (simp add: ccsds_router_dispatch_bytes_def router_dispatch_map [OF assms(5)] leD)
qed

lemma adapter_count:
  assumes "adapter_ok cfg peer ad"
  shows "unat (ad_sequence_count (adapter_after ad pdu)) = (unat (ad_sequence_count ad) + 1) mod 2 ^ 14"
proof -
  have "ad_sequence_count ad \<le> 0x3fff" using assms by (simp add: adapter_ok_def)
  then have "unat (ad_sequence_count ad + 1) = unat (ad_sequence_count ad) + 1"
    by (simp add: unat_word_ariths word_le_nat_alt)
  then show ?thesis
    by (simp add: adapter_after_def mask_simps unsigned_take_bit_eq) (simp add: take_bit_eq_mod)
qed

end
