(* ===== verification/Cfdp_Receive.thy ===== *)
theory Cfdp_Receive
  imports Cfdp_Entity
begin

unbundle bit_operations_syntax

text \<open>
  Reception of a file by the CFDP entity.  The host of an entity, its transport, event callback, clock and
  filestore, is described by two locales: \<open>cfdp_link\<close> for what both directions use and \<open>cfdp_rx_host\<close> for the
  filestore of a receiver.  Inside them every handler is run on the PDU it accepts: Metadata opens the temporary file,
  File Data writes a segment and extends the coverage, EOF verifies the checksum and commits.  The last lemma composes
  them to the reception of a whole transfer, in any order of the segments.
\<close>

section \<open>The checksum of a whole file\<close>

definition file_sum ::
  "(u32 \<Rightarrow> bytes \<Rightarrow> u32) \<Rightarrow> (u32 \<Rightarrow> bytes \<Rightarrow> u32) \<Rightarrow> ccsds_cfdp_checksum_type \<Rightarrow> bytes \<Rightarrow> u32" where
  "file_sum ieee raw t file =
     (if t = CCSDS_CFDP_CHECKSUM_TYPE_MODULAR then modular_reference file
      else if t = CCSDS_CFDP_CHECKSUM_TYPE_NULL then 0
      else crc_reference ieee raw t file)"

text \<open>A checksum state that has taken in the first \<open>k\<close> bytes of the file.\<close>

definition sum_at ::
  "(u32 \<Rightarrow> bytes \<Rightarrow> u32) \<Rightarrow> (u32 \<Rightarrow> bytes \<Rightarrow> u32) \<Rightarrow> ccsds_cfdp_checksum_type \<Rightarrow> bytes \<Rightarrow> nat \<Rightarrow>
     ccsds_cfdp_checksum_state \<Rightarrow> bool" where
  "sum_at ieee raw t file k st \<longleftrightarrow>
     (if checksum_type_is_crc t then crc_at ieee raw t file k st
      else cs_type st = t \<and> k \<le> length file \<and>
        (t = CCSDS_CFDP_CHECKSUM_TYPE_MODULAR \<longrightarrow> cs_value st = lane_sum 0 (take k file)))"

lemma sum_at_init:
  assumes "crc32_c_incremental c raw" "incremental ieee"
  shows "sum_at ieee raw t file 0 (initial_checksum t)"
proof -
  have "incremental raw" using assms(1) by (simp add: crc32_c_incremental_def)
  with assms(2) show ?thesis
    using crc_at_init [of t ieee raw "file"] by (simp add: sum_at_def) (simp add: initial_checksum_def)
qed

lemma sum_at_update:
  assumes hyp: "crc32_c_incremental c raw" "incremental ieee" "checksum_type_is_supported t"
    and st: "sum_at ieee raw t file (unat off) st" and seg: "file_segment file (off, d)" "d \<noteq> []"
    and len: "length file < 2 ^ 32"
  shows "\<exists>st'. ccsds_cfdp_checksum_update c ieee st off d = (CCSDS_CFDP_STATUS_OK, st') \<and>
    sum_at ieee raw t file (unat off + length d) st'"
proof (cases "checksum_type_is_crc t")
  case True
  with crc_at_update [OF hyp(1,2) True _ seg(1) refl seg(2) len] st show ?thesis by (simp add: sum_at_def)
next
  case False
  have range: "update_range_is_valid off (length d)" using file_segment_range [OF seg(1)] len by simp
  have tk: "take (unat off) file @ d = take (unat off + length d) file" by (rule take_segment [OF seg(1)])
  have le: "unat off + length d \<le> length file" using seg(1) by (simp add: file_segment_def)
  have "lane_sum 0 (take (unat off + length d) file) = lane_sum 0 (take (unat off) file) + lane_sum (unat off) d"
    using le by (simp flip: tk add: lane_sum_append)
  with False hyp(3) st seg(2) range le show ?thesis
    by (cases t) (auto simp: sum_at_def ccsds_cfdp_checksum_update_def modular_loop_sum)
qed

lemma sum_at_finish:
  assumes hyp: "crc32_c_incremental c raw" "checksum_type_is_supported t"
    and st: "sum_at ieee raw t file (length file) st"
  shows "ccsds_cfdp_checksum_finish st = Inr (file_sum ieee raw t file)"
proof (cases "checksum_type_is_crc t")
  case True
  with st crc_at_finish [OF True hyp(1)] show ?thesis by (cases t) (simp_all add: sum_at_def file_sum_def)
next
  case False
  with hyp(2) st show ?thesis
    by (cases t) (auto simp: sum_at_def ccsds_cfdp_checksum_finish_def file_sum_def lane_sum_reference)
qed

lemma checksum_update_ok:
  assumes "checksum_type_is_supported (cs_type st)" "update_range_is_valid off (length d)"
  shows "fst (ccsds_cfdp_checksum_update c u st off d) = CCSDS_CFDP_STATUS_OK"
    "cs_type (snd (ccsds_cfdp_checksum_update c u st off d)) = cs_type st"
  using assms by (cases "cs_type st"; auto simp: ccsds_cfdp_checksum_update_def)+

section \<open>The host of a receiving entity\<close>

text \<open>
  What an entity relies on: a transport that accepts PDUs for its peer up to the maximal size, an event callback and a
  clock; none of them enters the entity again.  \<open>good\<close> is the host's own invariant, \<open>events\<close> its event log.
  A receiver also relies on a filestore whose operations succeed and keep what is written: \<open>tmp\<close> is the content
  of the temporary file, \<open>stored\<close> the committed files.
\<close>

definition overlay :: "u32 \<Rightarrow> bytes \<Rightarrow> (nat \<rightharpoonup> u8) \<Rightarrow> nat \<rightharpoonup> u8" where
  "overlay off d m = (\<lambda>i. if unat off \<le> i \<and> i < unat off + length d then Some (d ! (i - unat off)) else m i)"

definition file_map :: "bytes \<Rightarrow> nat \<rightharpoonup> u8" where
  "file_map F = (\<lambda>i. if i < length F then Some (F ! i) else None)"

locale cfdp_link =
  fixes cfg :: cfdp_config and plat :: "('w, 'f, 'h) cfdp_platform" and peer :: u64 and good :: "'w \<Rightarrow> bool"
    and h_send :: "bytes \<Rightarrow> 'w \<Rightarrow> 'w" and h_event :: "ccsds_cfdp_event \<Rightarrow> 'w \<Rightarrow> 'w" and h_now :: "'w \<Rightarrow> u64"
    and events :: "'w \<Rightarrow> ccsds_cfdp_event list"
  assumes config: "cfdp_config_ok cfg"
    and callbacks: "send_pdu plat \<noteq> None" "event_cb plat \<noteq> None"
    and run_send: "good w \<Longrightarrow> bs \<noteq> [] \<Longrightarrow> length bs \<le> CCSDS_CFDP_MAX_PDU_SIZE cfg \<Longrightarrow>
      run_state (the (send_pdu plat) peer bs) (w, e) = (RC_OK, h_send bs w, e)"
    and run_event: "good w \<Longrightarrow> run_state (the (event_cb plat) ev) (w, e) = ((), h_event ev w, e)"
    and run_now: "now_ms plat = Some ck \<Longrightarrow> run_state ck (w, e) = (h_now w, w, e)"
    and good_link: "good w \<Longrightarrow> good (h_send bs w)" "good w \<Longrightarrow> good (h_event ev w)"
    and events_link: "events (h_send bs w) = events w" "events (h_event ev w) = events w @ [ev]"
begin

lemma run_event_emitted:
  "good w \<Longrightarrow> run_state (emit_terminal_event plat tid st) (w, e) =
     ((), h_event \<lparr>event_type = (if st = CCSDS_CFDP_STATUS_OK then CCSDS_CFDP_EVENT_COMPLETE else CCSDS_CFDP_EVENT_FAILED),
       event_transaction_id = tid, event_status = st\<rparr> w, e)"
  using callbacks(2) run_event by (auto simp: emit_terminal_event_def emit_event_def)

lemma run_send_stored:
  assumes "good w" "bs \<noteq> []" "length bs \<le> CCSDS_CFDP_MAX_PDU_SIZE cfg"
  shows "run_state (send_encoded_pdu_to plat peer (length bs)) (w, e\<lparr>pdu_buf := copy_into (pdu_buf e) 0 bs\<rparr>) =
     (CCSDS_CFDP_STATUS_OK, h_send bs w, e\<lparr>pdu_buf := copy_into (pdu_buf e) 0 bs\<rparr>)"
  using assms by (simp add: send_encoded_pdu_to_def run_send copy_into_def)

definition clock :: "'w \<Rightarrow> u64" where
  "clock w = (if now_ms plat = None then 0 else h_now w)"

lemma run_entity_now: "run_state (entity_now_ms plat) (w, e) = (clock w, w, e)"
  using run_now by (cases "now_ms plat") (simp_all add: entity_now_ms_def clock_def)

end

locale cfdp_rx_host = cfdp_link +
  fixes fs :: 'b and hdl :: 'c
    and h_open :: "bytes \<Rightarrow> 'a \<Rightarrow> 'a" and h_write :: "u32 \<Rightarrow> bytes \<Rightarrow> 'a \<Rightarrow> 'a"
    and h_read :: "u32 \<Rightarrow> nat \<Rightarrow> 'a \<Rightarrow> bytes \<times> nat \<times> 'a" and h_close :: "'a \<Rightarrow> 'a"
    and h_commit :: "bytes \<Rightarrow> 'a \<Rightarrow> 'a" and h_discard :: "'a \<Rightarrow> 'a"
    and tmp :: "'a \<Rightarrow> nat \<rightharpoonup> u8" and stored :: "'a \<Rightarrow> bytes \<rightharpoonup> (nat \<rightharpoonup> u8)"
  assumes ops: "receive_filestore_is_valid plat (Some fs)"
    and run_open: "good w \<Longrightarrow> run_state (the (fs_open_write_tmp (fs_ops plat fs)) p) (w, e) = ((0, Some hdl), h_open p w, e)"
    and run_write: "good w \<Longrightarrow> run_state (the (fs_write (fs_ops plat fs)) (Some hdl) off d) (w, e) = (0, h_write off d w, e)"
    and run_read: "good w \<Longrightarrow> run_state (the (fs_read (fs_ops plat fs)) (Some hdl) off n) (w, e) =
      ((0, fst (h_read off n w), fst (snd (h_read off n w))), snd (snd (h_read off n w)), e)"
    and run_close: "good w \<Longrightarrow> run_state (the (fs_close (fs_ops plat fs)) (Some hdl)) (w, e) = (0, h_close w, e)"
    and run_commit: "good w \<Longrightarrow> run_state (the (fs_commit_tmp (fs_ops plat fs)) p) (w, e) = (0, h_commit p w, e)"
    and run_discard: "good w \<Longrightarrow> run_state (the (fs_discard_tmp (fs_ops plat fs)) p) (w, e) = (0, h_discard w, e)"
    and open_obs: "tmp (h_open p w) = Map.empty" "stored (h_open p w) = stored w" "events (h_open p w) = events w"
    and write_obs: "tmp (h_write off d w) = overlay off d (tmp w)" "stored (h_write off d w) = stored w"
      "events (h_write off d w) = events w"
    and read_obs: "0 < n \<Longrightarrow> (\<And>i. i < n \<Longrightarrow> tmp w (unat off + i) \<noteq> None) \<Longrightarrow> h_read off n w = (d, k, w') \<Longrightarrow>
      0 < k \<and> k \<le> n \<and> k \<le> length d \<and> (\<forall>i<k. tmp w (unat off + i) = Some (d ! i)) \<and>
      tmp w' = tmp w \<and> stored w' = stored w \<and> events w' = events w \<and> (good w \<longrightarrow> good w')"
    and close_obs: "tmp (h_close w) = tmp w" "stored (h_close w) = stored w" "events (h_close w) = events w"
    and commit_obs: "stored (h_commit p w) = (stored w)(p \<mapsto> tmp w)" "events (h_commit p w) = events w"
    and discard_obs: "stored (h_discard w) = stored w" "events (h_discard w) = events w"
    and send_obs: "tmp (h_send bs w) = tmp w" "stored (h_send bs w) = stored w"
    and event_obs: "tmp (h_event ev w) = tmp w" "stored (h_event ev w) = stored w"
    and good_files: "good w \<Longrightarrow> good (h_open p w)" "good w \<Longrightarrow> good (h_write off d w)" "good w \<Longrightarrow> good (h_close w)"
      "good w \<Longrightarrow> good (h_commit p w)" "good w \<Longrightarrow> good (h_discard w)"

lemma take_copy_into_0: "k \<le> n \<Longrightarrow> k \<le> length d \<Longrightarrow> take k (copy_into buf 0 (take n d)) = take k d"
  by (simp add: copy_into_def min_def)

lemma file_segment_of_map:
  assumes "k \<le> length d" "\<forall>i<k. file_map F (unat off + i) = Some (d ! i)" "0 < k"
  shows "file_segment F (off, take k d)"
proof -
  have lt: "unat off + i < length F" and nth: "F ! (unat off + i) = d ! i" if "i < k" for i
    using assms(2) that by (auto simp: file_map_def split: if_splits dest: spec [of _ i])
  have "unat off + (k - 1) < length F" using lt [of "k - 1"] assms(3) by simp
  then have le: "unat off + k \<le> length F" using assms(3) by linarith
  moreover have "take k d = take k (drop (unat off) F)"
    using assms(1) le nth by (intro nth_equalityI) auto
  ultimately show ?thesis using assms(1) by (simp add: file_segment_def min_absorb1)
qed

text \<open>The numbers a response of the receiver carries fit their fields.\<close>

definition receiver_ids_ok :: "cfdp_config \<Rightarrow> ('f, 'h) ccsds_cfdp_entity \<Rightarrow> bool" where
  "receiver_ids_ok cfg e \<longleftrightarrow>
     encoded_int_len_is_valid (ent_entity_id_len e) (CCSDS_CFDP_MAX_ENTITY_ID_LEN cfg) \<and>
     encoded_int_len_is_valid (ent_transaction_sequence_number_len e) (CCSDS_CFDP_MAX_TRANS_SEQ_LEN cfg) \<and>
     value_fits_len (local_entity_id e) (ent_entity_id_len e) \<and>
     value_fits_len (id_source_entity_id (slot_id (receiver e))) (ent_entity_id_len e) \<and>
     value_fits_len (id_transaction_sequence_number (slot_id (receiver e))) (ent_transaction_sequence_number_len e) \<and>
     slot_transmission_mode (receiver e) \<le> 1"

lemma response_header_encodes:
  assumes "receiver_ids_ok cfg e" "64 \<le> cap"
  obtains h where "ccsds_cfdp_encode_header cfg ((receiver_response_header e)\<lparr>pdu_data_field_len := n\<rparr>) cap = Inr h"
    "length h \<le> 28"
proof -
  let ?H = "(receiver_response_header e)\<lparr>pdu_data_field_len := n\<rparr>"
  have l: "unat (ent_entity_id_len e) \<le> 8" "unat (ent_transaction_sequence_number_len e) \<le> 8"
    using assms(1) by (auto simp: receiver_ids_ok_def encoded_int_len_is_valid_def word_le_nat_alt)
  have v: "header_lengths_are_valid cfg ?H" "ccsds_cfdp_header_encoded_len cfg ?H \<le> 28"
    using assms(1) l
    by (simp_all add: receiver_ids_ok_def receiver_response_header_def header_lengths_are_valid_def
        ccsds_cfdp_header_encoded_len_def)
  then have "\<exists>h. ccsds_cfdp_encode_header cfg ?H cap = Inr h"
    using assms by (auto simp: ccsds_cfdp_encode_header_def receiver_response_header_def receiver_ids_ok_def)
  with v(2) length_encode_header that show thesis by metis
qed

context cfdp_rx_host
begin

lemma run_segment_read:
  "good w \<Longrightarrow> run_state (segment_read (fs_ops plat fs) (Some hdl) off n) (w, e) =
     ((0, fst (snd (h_read off n w))), snd (snd (h_read off n w)),
      e\<lparr>file_segment_buf := copy_into (file_segment_buf e) 0 (take n (fst (h_read off n w)))\<rparr>)"
  by (simp add: segment_read_def run_read)

definition same_obs :: "'a \<Rightarrow> 'a \<Rightarrow> bool" where
  "same_obs w w' \<longleftrightarrow> (good w \<longrightarrow> good w') \<and> tmp w' = tmp w \<and> stored w' = stored w \<and> events w' = events w"

lemma checksum_loop_reads:
  assumes hyp: "crc32_c_incremental (crc32_c plat) raw" "incremental (crc32_ieee_update plat)" "checksum_type_is_supported t"
    and F: "length F < 2 ^ 32" and fsize: "file_size (receiver e) = word_of_nat (length F)"
    and st: "sum_at (crc32_ieee_update plat) raw t F (unat off) cs" "unat off \<le> length F" and content: "tmp w = file_map F" "good w"
  shows "\<exists>cs' w' b. run_state (receiver_checksum_loop cfg plat (fs_ops plat fs) (Some hdl) off cs) (w, e) =
      (Inr cs', w', e\<lparr>file_segment_buf := b\<rparr>) \<and>
    sum_at (crc32_ieee_update plat) raw t F (length F) cs' \<and> same_obs w w'"
  using fsize st content
proof (induction "length F - unat off" arbitrary: off cs w e rule: less_induct)
  case less
  let ?size = "word_of_nat (length F) :: u32"
  have us: "unat ?size = length F" using F by (rule unat_offset) simp
  show ?case
  proof (cases "off < ?size")
    case False
    then have "unat off = length F" using less.prems(3) us by (simp add: word_less_nat_alt)
    with less.prems False show ?thesis
      by (subst receiver_checksum_loop.simps) (auto simp: same_obs_def intro: exI [of _ "file_segment_buf e"])
  next
    case True
    then have lt: "unat off < length F" by (simp add: word_less_nat_alt us)
    have rem: "unat (?size - off) = length F - unat off"
      using True us by (subst unat_sub) (auto simp: word_le_nat_alt word_less_nat_alt)
    let ?req = "if unat (?size - off) < CCSDS_CFDP_MAX_SEGMENT_SIZE cfg then unat (?size - off)
      else CCSDS_CFDP_MAX_SEGMENT_SIZE cfg"
    obtain d k w1 where rd: "h_read off ?req w = (d, k, w1)" by (metis prod.exhaust)
    have req: "0 < ?req" "?req \<le> length F - unat off" using lt rem config by (auto simp: cfdp_config_ok_def)
    have "\<And>i. i < ?req \<Longrightarrow> tmp w (unat off + i) \<noteq> None"
      using req(2) less.prems(4) by (auto simp: file_map_def)
    from read_obs [OF req(1) this rd] have k: "0 < k" "k \<le> ?req" "k \<le> length d"
      "\<forall>i<k. tmp w (unat off + i) = Some (d ! i)" "same_obs w w1" by (auto simp: same_obs_def)
    have seg: "file_segment F (off, take k d)"
      using k(1,3,4) less.prems(4) by (intro file_segment_of_map) simp_all
    have len: "length (take k d) = k" using k(3) by simp
    from k(1) len have "take k d \<noteq> []" by auto
    from sum_at_update [OF hyp less.prems(2) seg this F] len obtain cs1 where cs1:
      "ccsds_cfdp_checksum_update (crc32_c plat) (crc32_ieee_update plat) cs off (take k d) = (CCSDS_CFDP_STATUS_OK, cs1)"
      "sum_at (crc32_ieee_update plat) raw t F (unat off + k) cs1" by auto
    have krem: "k \<le> unat (?size - off)" using k(2) req(2) rem by linarith
    have off1: "unat (off + word_of_nat k) = unat off + k"
      using krem rem lt F by (simp add: unat_word_ariths(1) unsigned_of_nat take_bit_eq_mod mod_add_right_eq)
    have dec: "length F - unat (off + word_of_nat k) < length F - unat off" using off1 k(1) lt by linarith
    let ?e1 = "e\<lparr>file_segment_buf := copy_into (file_segment_buf e) 0 (take ?req d)\<rparr>"
    have "tmp w1 = file_map F" "good w1" using k(5) less.prems(4,5) by (simp_all add: same_obs_def)
    moreover have "unat (off + word_of_nat k) \<le> length F" using off1 krem rem lt by linarith
    ultimately obtain cs' w' b where fin:
      "run_state (receiver_checksum_loop cfg plat (fs_ops plat fs) (Some hdl) (off + word_of_nat k) cs1) (w1, ?e1) =
        (Inr cs', w', ?e1\<lparr>file_segment_buf := b\<rparr>)"
      "sum_at (crc32_ieee_update plat) raw t F (length F) cs'" "same_obs w1 w'"
      using less.hyps [OF dec, of ?e1 cs1 w1] less.prems(1) cs1(2) off1 by auto
    have "take k (file_segment_buf ?e1) = take k d" using take_copy_into_0 [OF k(2,3)] by simp
    with fin(1) True less.prems(1,5) rd k(1,2) krem cs1(1)
    have "run_state (receiver_checksum_loop cfg plat (fs_ops plat fs) (Some hdl) off cs) (w, e) =
        (Inr cs', w', e\<lparr>file_segment_buf := b\<rparr>)"
      by (subst receiver_checksum_loop.simps) (simp add: receiver_checksum_read_def run_segment_read Let_def)
    with fin(2,3) k(5) show ?thesis by (auto simp: same_obs_def)
  qed
qed

lemma finished_sent:
  assumes "receiver_ids_ok cfg e" "peer_entity_id (receiver e) = peer" "good w"
  shows "\<exists>bs b. run_state (send_finished_for_receiver_status cfg plat st) (w, e) =
    (CCSDS_CFDP_STATUS_OK, h_send bs w, e\<lparr>pdu_buf := b\<rparr>)"
proof -
  have cap: "64 \<le> CCSDS_CFDP_MAX_PDU_SIZE cfg" using config by (simp add: cfdp_config_ok_def)
  obtain h where h: "ccsds_cfdp_encode_header cfg ((receiver_response_header e)\<lparr>pdu_data_field_len := 2\<rparr>)
      (CCSDS_CFDP_MAX_PDU_SIZE cfg) = Inr h" "length h \<le> 28"
    using response_header_encodes [OF assms(1) cap] by blast
  let ?p = "\<lparr>fin_header = receiver_response_header e, fin_condition_code = finished_condition_from_status st,
      delivery_code = (if st = CCSDS_CFDP_STATUS_OK then 0 else 1), file_status = finished_file_status_from_status st\<rparr>"
  have "condition_code_is_valid (finished_condition_from_status st)" "\<not> finished_file_status_from_status st > 3"
    by (auto simp: condition_code_is_valid_def finished_condition_from_status_def finished_file_status_from_status_def)
  then have "\<exists>bs. ccsds_cfdp_encode_finished cfg ?p (CCSDS_CFDP_MAX_PDU_SIZE cfg) = Inr bs \<and> bs \<noteq> [] \<and>
      length bs \<le> CCSDS_CFDP_MAX_PDU_SIZE cfg"
    using h cap by (simp add: ccsds_cfdp_encode_finished_def receiver_response_header_def)
  then obtain bs where "ccsds_cfdp_encode_finished cfg ?p (CCSDS_CFDP_MAX_PDU_SIZE cfg) = Inr bs" "bs \<noteq> []"
    "length bs \<le> CCSDS_CFDP_MAX_PDU_SIZE cfg" by blast
  then show ?thesis
    using run_send_stored [OF assms(3), of bs e] assms(2)
    by (auto simp: send_finished_for_receiver_status_def store_pdu_def)
qed

lemma eof_acknowledged:
  assumes "receiver_ids_ok cfg e" "peer_entity_id (receiver e) = peer" "good w" "condition_code_is_valid code"
  shows "\<exists>bs b. run_state (send_ack_eof cfg plat code) (w, e) =
    (CCSDS_CFDP_STATUS_OK, h_send bs w, e\<lparr>pdu_buf := b\<rparr>)"
proof -
  have cap: "64 \<le> CCSDS_CFDP_MAX_PDU_SIZE cfg" using config by (simp add: cfdp_config_ok_def)
  obtain h where h: "ccsds_cfdp_encode_header cfg ((receiver_response_header e)\<lparr>pdu_data_field_len := 3\<rparr>)
      (CCSDS_CFDP_MAX_PDU_SIZE cfg) = Inr h" "length h \<le> 28"
    using response_header_encodes [OF assms(1) cap] by blast
  let ?p = "\<lparr>ack_header = receiver_response_header e, acknowledged_directive = 4, directive_subtype = 0,
      ack_condition_code = code, transaction_status = 1\<rparr>"
  have "\<exists>bs. ccsds_cfdp_encode_ack cfg ?p (CCSDS_CFDP_MAX_PDU_SIZE cfg) = Inr bs \<and> bs \<noteq> [] \<and>
      length bs \<le> CCSDS_CFDP_MAX_PDU_SIZE cfg"
    using h cap assms(4)
    by (simp add: ccsds_cfdp_encode_ack_def receiver_response_header_def ack_directive_is_supported_def ack_subtype_is_valid_def)
  then obtain bs where "ccsds_cfdp_encode_ack cfg ?p (CCSDS_CFDP_MAX_PDU_SIZE cfg) = Inr bs" "bs \<noteq> []"
    "length bs \<le> CCSDS_CFDP_MAX_PDU_SIZE cfg" by blast
  then show ?thesis
    using run_send_stored [OF assms(3), of bs e] assms(2) by (auto simp: send_ack_eof_def store_pdu_def)
qed

lemma verified:
  assumes hyp: "crc32_c_incremental (crc32_c plat) raw" "incremental (crc32_ieee_update plat)"
      "checksum_type_is_supported (checksum_type (receiver e))"
    and F: "length F < 2 ^ 32" "file_size (receiver e) = word_of_nat (length F)"
    and content: "tmp w = file_map F" "good w" "file_handle (receiver e) = Some hdl"
  shows "\<exists>w' b. run_state (receiver_verify_complete_file cfg plat (fs_ops plat fs) c) (w, e) =
    (if c = file_sum (crc32_ieee_update plat) raw (checksum_type (receiver e)) F then CCSDS_CFDP_STATUS_OK
     else CCSDS_CFDP_STATUS_CHECKSUM_FAILURE, w', e\<lparr>file_segment_buf := b\<rparr>) \<and> same_obs w w'"
proof -
  have "sum_at (crc32_ieee_update plat) raw (checksum_type (receiver e)) F (unat (0 :: u32))
      (initial_checksum (checksum_type (receiver e)))"
    using sum_at_init [OF hyp(1,2)] by simp
  from checksum_loop_reads [OF hyp F this _ content(1,2)] obtain cs' w' b where
    loop: "run_state (receiver_checksum_loop cfg plat (fs_ops plat fs) (Some hdl) 0
        (initial_checksum (checksum_type (receiver e)))) (w, e) = (Inr cs', w', e\<lparr>file_segment_buf := b\<rparr>)"
      "sum_at (crc32_ieee_update plat) raw (checksum_type (receiver e)) F (length F) cs'" "same_obs w w'" by auto
  with content(3) hyp(3) sum_at_finish [OF hyp(1,3) loop(2)] show ?thesis
    by (auto simp: receiver_verify_complete_file_def receiver_compute_checksum_def checksum_init_eq)
qed

text \<open>
  A successful end: the file is committed under its name; in unacknowledged mode the transaction is
  released and reported complete, in acknowledged mode it waits for the acknowledgement of Finished.
\<close>

lemma finished_ok:
  assumes opn: "file_handle_open (receiver e)" "file_handle (receiver e) = Some hdl" "active (receiver e)"
    and closure: "slot_transmission_mode (receiver e) = 0 \<Longrightarrow> slot_closure_requested (receiver e)"
    and ok: "receiver_ids_ok cfg e" "peer_entity_id (receiver e) = peer" "good w"
  shows "\<exists>w' e'. run_state (receiver_finish cfg plat fs CCSDS_CFDP_STATUS_OK) (w, e) = (CCSDS_CFDP_STATUS_OK, w', e') \<and>
    stored w' = (stored w)(c_string (destination_path (receiver e)) \<mapsto> tmp w) \<and> good w' \<and>
    (if slot_transmission_mode (receiver e) = 0
     then active (receiver e') \<and> waiting_for_finished_ack (receiver e') \<and> slot_id (receiver e') = slot_id (receiver e) \<and>
       finished_status (receiver e') = CCSDS_CFDP_STATUS_OK \<and> events w' = events w
     else receiver e' = zero_slot cfg \<and>
       events w' = events w @ [\<lparr>event_type = CCSDS_CFDP_EVENT_COMPLETE, event_transaction_id = slot_id (receiver e),
         event_status = CCSDS_CFDP_STATUS_OK\<rparr>])"
proof -
  let ?dst = "c_string (destination_path (receiver e))"
  let ?e1 = "e\<lparr>receiver := (receiver e)\<lparr>file_handle_open := False, file_handle := None\<rparr>\<rparr>"
  let ?w1 = "h_commit ?dst (h_close w)"
  have obs1: "stored ?w1 = (stored w)(?dst \<mapsto> tmp w)" "events ?w1 = events w" "good (h_close w)" "good ?w1"
    using ok(3) by (simp_all add: commit_obs close_obs good_files)
  note laws = run_close run_commit release_receiver_terminal_def run_event_emitted Let_def run_entity_now
    ccsds_cfdp_entity_release_receiver_transaction_def event_obs events_link send_obs good_link obs1
  show ?thesis
  proof (cases "slot_closure_requested (receiver e)")
    case False
    with closure have "slot_transmission_mode (receiver e) \<noteq> 0" by auto
    with False opn show ?thesis
      using ok(3) by (simp add: receiver_finish_def laws)
  next
    case True
    let ?e2 = "e\<lparr>receiver := (receiver e)\<lparr>file_handle_open := False, file_handle := None,
      finished_status := CCSDS_CFDP_STATUS_OK\<rparr>\<rparr>"
    have "receiver_ids_ok cfg ?e2" using ok(1) by (simp add: receiver_ids_ok_def)
    from finished_sent [OF this _ obs1(4), of CCSDS_CFDP_STATUS_OK] ok(2) obtain bs b where
      sent: "run_state (send_finished_for_receiver_status cfg plat CCSDS_CFDP_STATUS_OK) (?w1, ?e2) =
        (CCSDS_CFDP_STATUS_OK, h_send bs ?w1, ?e2\<lparr>pdu_buf := b\<rparr>)" by auto
    show ?thesis
    proof (cases "slot_transmission_mode (receiver e) = 0")
      case ack: True
      show ?thesis
        using ack True opn sent ok(3) by (simp add: receiver_finish_def laws arm_retry_def)
    next
      case False
      with True opn sent ok(3) show ?thesis by (simp add: receiver_finish_def laws)
    qed
  qed
qed

end

section \<open>What a decoded PDU tells of its header\<close>

lemma decode_filedataD:
  assumes "ccsds_cfdp_decode_filedata cfg pdu = Inr (p, n)"
  obtains m where "ccsds_cfdp_decode_header cfg pdu = Inr (fd_header p, m)" "pdu_type (fd_header p) = 1" "fd_data p \<noteq> []"
    "length (fd_data p) \<le> 65535"
proof -
  from assms obtain m where dec: "ccsds_cfdp_decode_header cfg pdu = Inr (fd_header p, m)"
    and l: "unat (pdu_data_field_len (fd_header p)) = 4 + length (fd_data p)" "fd_data p \<noteq> []"
    and ty: "pdu_type (fd_header p) = 1"
    by (auto simp: ccsds_cfdp_decode_filedata_def Let_def split: if_splits sum.splits prod.splits)
  from l(1) unat_u16_less [of "pdu_data_field_len (fd_header p)"] have "length (fd_data p) \<le> 65535" by simp
  with dec l ty that show thesis by blast
qed

lemma decode_eofD:
  assumes "ccsds_cfdp_decode_eof cfg pdu = Inr (p, n)"
  obtains m where "ccsds_cfdp_decode_header cfg pdu = Inr (eof_header p, m)" "pdu_type (eof_header p) = 0" "pdu ! m = 4"
    "pdu_data_field_len (eof_header p) \<noteq> 0" "m < length pdu"
proof -
  from assms obtain m where dec: "ccsds_cfdp_decode_header cfg pdu = Inr (eof_header p, m)"
    "pdu_type (eof_header p) = 0" "pdu ! m = 4" "unat (pdu_data_field_len (eof_header p)) = 10" "10 \<le> length pdu - m"
    by (auto simp: ccsds_cfdp_decode_eof_def Let_def split: if_splits sum.splits prod.splits)
  then have "pdu_data_field_len (eof_header p) \<noteq> 0" by auto
  with dec that show thesis by auto
qed

lemma decode_metadata_directive:
  assumes "ccsds_cfdp_decode_metadata cfg pdu = Inr (p, n)"
  obtains m where "ccsds_cfdp_decode_header cfg pdu = Inr (md_header p, m)" "pdu_type (md_header p) = 0" "pdu ! m = 7"
    "pdu_data_field_len (md_header p) \<noteq> 0" "m < length pdu" "checksum_type_is_supported (md_checksum_type p)"
    "filename_len_is_valid cfg (destination_filename p)"
proof -
  from assms obtain m where m: "ccsds_cfdp_decode_header cfg pdu = Inr (md_header p, m)" "n = m + metadata_len p"
    "n \<le> length pdu" "unat (pdu_data_field_len (md_header p)) = metadata_len p" "pdu_type (md_header p) = 0"
    "checksum_type_is_supported (md_checksum_type p)" "filename_len_is_valid cfg (destination_filename p)"
    by (rule decode_metadataD)
  from assms m(1) have "pdu ! m = 7"
    by (auto simp: ccsds_cfdp_decode_metadata_def Let_def split: if_splits)
  moreover from m(4) have "pdu_data_field_len (md_header p) \<noteq> 0" by (auto simp: metadata_len_def)
  ultimately show thesis using m that by (auto simp: metadata_len_def)
qed

lemma c_string_path_array:
  assumes "0 \<notin> set s" "length s \<le> CCSDS_CFDP_MAX_FILENAME_LEN cfg"
  shows "c_string (path_array cfg s) = s"
proof -
  have "drop (length s) (replicate (CCSDS_CFDP_MAX_FILENAME_LEN cfg + 1) (0 :: u8)) =
      0 # replicate (CCSDS_CFDP_MAX_FILENAME_LEN cfg - length s) 0"
    using assms(2) by (simp only: drop_replicate) (simp add: Suc_diff_le)
  moreover have "takeWhile (\<lambda>b. b \<noteq> 0) (s @ 0 # ys) = s" for ys :: bytes
    using assms(1) by (induction s) auto
  ultimately show ?thesis unfolding c_string_def path_array_def copy_into_def by (simp only: take_0 append_Nil add_0)
qed

fun receive_pdus ::
  "cfdp_config \<Rightarrow> ('w, 'f, 'h) cfdp_platform \<Rightarrow> 'f option \<Rightarrow> bytes list \<Rightarrow> ('w, 'f, 'h, ccsds_cfdp_status list) cfdp" where
  "receive_pdus cfg plat fs [] = give []"
| "receive_pdus cfg plat fs (pdu # pdus) = do {
     status \<leftarrow> ccsds_cfdp_entity_receive_pdu cfg plat fs pdu;
     statuses \<leftarrow> receive_pdus cfg plat fs pdus;
     give (status # statuses)
   }"

context cfdp_rx_host
begin

definition receiving :: "bytes \<Rightarrow> u32 set \<Rightarrow> ('b, 'c) ccsds_cfdp_transaction_slot \<Rightarrow> 'a \<Rightarrow> bool" where
  "receiving F cov s w \<longleftrightarrow> good w \<and> peer_entity_id s = peer \<and>
     active s \<and> metadata_received s \<and> file_handle_open s \<and> file_handle s = Some hdl \<and>
     \<not> eof_received s \<and> \<not> waiting_for_finished_ack s \<and> file_size s = word_of_nat (length F) \<and>
     checksum_type_is_supported (checksum_type s) \<and> cs_type (checksum_state s) = checksum_type s \<and>
     ranges_inv cfg (received_ranges s) \<and> covered (live (received_ranges s)) = cov \<and>
     (\<forall>i\<in>cov. tmp w (unat i) = Some (F ! unat i)) \<and> (\<forall>i\<ge>length F. tmp w i = None)"

lemma receiving_complete:
  assumes "receiving F cov s w" "{0 ..< word_of_nat (length F)} \<subseteq> cov" "length F < 2 ^ 32"
  shows "tmp w = file_map F"
proof
  fix i
  show "tmp w i = file_map F i"
  proof (cases "i < length F")
    case True
    then have i: "unat (word_of_nat i :: u32) = i" "unat (word_of_nat (length F) :: u32) = length F"
      using assms(3) by (auto intro: unat_offset)
    then have "(word_of_nat i :: u32) \<in> cov" using assms(2) True by (auto simp: word_less_nat_alt)
    with assms(1) i True show ?thesis by (auto simp: receiving_def file_map_def)
  next
    case False
    with assms(1) show ?thesis by (simp add: receiving_def file_map_def)
  qed
qed

lemma ops_present:
  "fs_open_write_tmp (fs_ops plat fs) \<noteq> None" "fs_write (fs_ops plat fs) \<noteq> None" "receive_filestore_is_valid plat (Some fs)"
  using ops(1) by (simp_all add: receive_filestore_is_valid_def)

lemma metadata_opens:
  assumes dec: "ccsds_cfdp_decode_metadata cfg pdu = Inr (p, length pdu)"
    and hdr: "incoming_header_is_supported e (md_header p)" and idle: "receiver e = zero_slot cfg" "good w" "remote_entity_id e = peer"
    and F: "md_file_size p = word_of_nat (length F)"
  shows "\<exists>e'. run_state (ccsds_cfdp_entity_receive_pdu cfg plat (Some fs) pdu) (w, e) =
      (CCSDS_CFDP_STATUS_OK, h_open (c_string (path_array cfg (destination_filename p))) w, e') \<and>
    e' = e\<lparr>receiver := receiver e'\<rparr> \<and> receiving F {} (receiver e') (h_open (c_string (path_array cfg (destination_filename p))) w) \<and>
    slot_id (receiver e') = transaction_id_from_header (md_header p) \<and> checksum_type (receiver e') = md_checksum_type p \<and>
    slot_transmission_mode (receiver e') = transmission_mode (md_header p) \<and>
    (slot_transmission_mode (receiver e') = 0 \<longrightarrow> slot_closure_requested (receiver e')) \<and>
    destination_path (receiver e') = path_array cfg (destination_filename p) \<and>
    received_ranges (receiver e') = ccsds_cfdp_ranges_init cfg \<and> finished_status (receiver e') = CCSDS_CFDP_STATUS_OK"
proof -
  obtain m where m: "ccsds_cfdp_decode_header cfg pdu = Inr (md_header p, m)" "pdu_type (md_header p) = 0" "pdu ! m = 7"
    "pdu_data_field_len (md_header p) \<noteq> 0" "m < length pdu" "checksum_type_is_supported (md_checksum_type p)"
    using dec by (rule decode_metadata_directive)
  have dir: "direction (md_header p) = 0" "source_entity_id (md_header p) = peer"
    using hdr idle(3) by (simp_all add: incoming_header_is_supported_def)
  show ?thesis
    using m dir hdr dec F idle(2)
    by (simp add: ccsds_cfdp_entity_receive_pdu_def ops_present receiver_handle_metadata_def checksum_init_eq idle(1) good_files
        zero_slot_def run_open Let_def receiving_def open_obs initial_checksum_def ranges_init_inv ranges_init_live
        covered_def not_le)
qed

definition same_transaction :: "('b, 'c) ccsds_cfdp_transaction_slot \<Rightarrow> ('b, 'c) ccsds_cfdp_transaction_slot \<Rightarrow> bool" where
  "same_transaction s s' \<longleftrightarrow>
     slot_id s' = slot_id s \<and> checksum_type s' = checksum_type s \<and> slot_transmission_mode s' = slot_transmission_mode s \<and>
     slot_closure_requested s' = slot_closure_requested s \<and> destination_path s' = destination_path s"

lemma segment_words:
  assumes "file_segment F (off, d)" "length F < 2 ^ 32" "d \<noteq> []"
  shows "\<not> length d > 0xffffffff" "\<not> off > 0xffffffff - word_of_nat (length d)"
    "unat (off + word_of_nat (length d)) = unat off + length d" "off < off + word_of_nat (length d)"
    "off + word_of_nat (length d) \<le> word_of_nat (length F)"
proof -
  have le: "unat off + length d \<le> length F" using assms(1) by (simp add: file_segment_def)
  have d: "unat (word_of_nat (length d) :: u32) = length d" "unat (word_of_nat (length F) :: u32) = length F"
    using le assms(2) by (auto intro: unat_offset)
  have top: "unat (0xffffffff - word_of_nat (length d) :: u32) = 0xffffffff - length d"
    using d le assms(2) by (simp add: unat_sub word_le_nat_alt)
  show sum: "unat (off + word_of_nat (length d)) = unat off + length d"
    using le assms(2) d by (simp add: unat_word_ariths(1))
  show "\<not> length d > 0xffffffff" using le assms(2) by simp
  show "\<not> off > 0xffffffff - word_of_nat (length d)" using top le assms(2) by (simp add: word_less_nat_alt)
  show "off < off + word_of_nat (length d)" using sum assms(3) by (simp add: word_less_nat_alt)
  show "off + word_of_nat (length d) \<le> word_of_nat (length F)" using sum le d by (simp add: word_le_nat_alt)
qed

lemma receiving_write:
  assumes rec: "receiving F cov s w" and seg: "file_segment F (off, d)" "d \<noteq> []" and F: "length F < 2 ^ 32"
    and add: "ccsds_cfdp_ranges_add cfg (received_ranges s) off (off + word_of_nat (length d)) = (CCSDS_CFDP_STATUS_OK, r)"
    and cs: "cs_type c = checksum_type s"
  shows "receiving F (cov \<union> {off ..< off + word_of_nat (length d)}) (s\<lparr>received_ranges := r, checksum_state := c\<rparr>)
    (h_write off d w)"
proof -
  note sw = segment_words [OF seg(1) F seg(2)]
  have inv: "ranges_inv cfg (received_ranges s)" and cov: "covered (live (received_ranges s)) = cov"
    using rec by (simp_all add: receiving_def)
  note r = ranges_add_ok [OF inv sw(4) add]
  have le: "unat off + length d \<le> length F" and dn: "\<And>i. i < length d \<Longrightarrow> d ! i = F ! (unat off + i)"
    using seg(1) by (auto simp: file_segment_def) (metis nth_drop nth_take add_leD1)
  have "overlay off d (tmp w) (unat i) = Some (F ! unat i)"
    if "i \<in> cov \<union> {off ..< off + word_of_nat (length d)}" for i
  proof (cases "unat off \<le> unat i \<and> unat i < unat off + length d")
    case True
    then show ?thesis using dn [of "unat i - unat off"] by (auto simp: overlay_def)
  next
    case False
    with that sw(3) have "i \<in> cov" by (auto simp: word_le_nat_alt word_less_nat_alt)
    with rec False show ?thesis by (auto simp: overlay_def receiving_def)
  qed
  moreover have "overlay off d (tmp w) i = None" if "length F \<le> i" for i
    using that le rec by (auto simp: overlay_def receiving_def)
  ultimately show ?thesis using rec r cov cs by (simp add: receiving_def write_obs good_files)
qed

lemma filedata_stored:
  assumes dec: "ccsds_cfdp_decode_filedata cfg pdu = Inr (p, length pdu)"
    and hdr: "incoming_header_is_supported e (fd_header p)" "transaction_id_from_header (fd_header p) = slot_id (receiver e)"
    and rec: "receiving F cov (receiver e) w" and seg: "file_segment F (fd_offset p, fd_data p)" and F: "length F < 2 ^ 32"
    and add: "ccsds_cfdp_ranges_add cfg (received_ranges (receiver e)) (fd_offset p)
      (fd_offset p + word_of_nat (length (fd_data p))) = (CCSDS_CFDP_STATUS_OK, r)"
  shows "\<exists>e'. run_state (ccsds_cfdp_entity_receive_pdu cfg plat (Some fs) pdu) (w, e) =
      (CCSDS_CFDP_STATUS_OK, h_write (fd_offset p) (fd_data p) w, e') \<and>
    e' = e\<lparr>receiver := receiver e'\<rparr> \<and> received_ranges (receiver e') = r \<and> same_transaction (receiver e) (receiver e') \<and>
    receiving F (cov \<union> {fd_offset p ..< fd_offset p + word_of_nat (length (fd_data p))}) (receiver e')
      (h_write (fd_offset p) (fd_data p) w)"
proof -
  obtain m where m: "ccsds_cfdp_decode_header cfg pdu = Inr (fd_header p, m)" "pdu_type (fd_header p) = 1" "fd_data p \<noteq> []"
    using dec by (rule decode_filedataD)
  have dir: "direction (fd_header p) = 0" using hdr by (simp add: incoming_header_is_supported_def)
  note sw = segment_words [OF seg F m(3)]
  have range: "update_range_is_valid (fd_offset p) (length (fd_data p))" using file_segment_range [OF seg] F by simp
  have g: "good w" using rec by (simp add: receiving_def)
  have s: "active (receiver e)" "metadata_received (receiver e)" "file_handle (receiver e) = Some hdl" "\<not> eof_received (receiver e)"
    "file_size (receiver e) = word_of_nat (length F)" "checksum_type_is_supported (cs_type (checksum_state (receiver e)))"
    "cs_type (checksum_state (receiver e)) = checksum_type (receiver e)"
    using rec by (simp_all add: receiving_def)
  obtain c where upd: "ccsds_cfdp_checksum_update (crc32_c plat) (crc32_ieee_update plat) (checksum_state (receiver e))
      (fd_offset p) (fd_data p) = (CCSDS_CFDP_STATUS_OK, c)"
    using checksum_update_ok(1) [OF s(6) range] by (metis prod.collapse)
  have "cs_type c = checksum_type (receiver e)"
    using checksum_update_ok(2) [OF s(6) range, of "crc32_c plat" "crc32_ieee_update plat"] s(7) upd by simp
  note keep = receiving_write [OF rec seg m(3) F add this]
  have match: "receiver_match_active e (fd_header p) = CCSDS_CFDP_STATUS_OK"
    using s hdr(2) by (simp add: receiver_match_active_def transaction_id_matches_def)
  have inside: "\<not> word_of_nat (length F) < fd_offset p + word_of_nat (length (fd_data p))" using sw(5) by simp
  show ?thesis
    using m(1,2) dir hdr(1) dec match sw(1,2) inside s(3-5) keep g
    by (simp add: ccsds_cfdp_entity_receive_pdu_def ops_present receiver_handle_filedata_def run_write add upd Let_def
        same_transaction_def)
qed

text \<open>EOF after the last segment: both classes verify the file and commit it.\<close>

lemma eof_commits:
  assumes hyp: "crc32_c_incremental (crc32_c plat) raw" "incremental (crc32_ieee_update plat)"
    and dec: "ccsds_cfdp_decode_eof cfg pdu = Inr (p, length pdu)"
    and hdr: "incoming_header_is_supported e (eof_header p)" "transaction_id_from_header (eof_header p) = slot_id (receiver e)"
    and eof: "eof_condition_code p = 0" "eof_file_size p = word_of_nat (length F)"
      "file_checksum p = file_sum (crc32_ieee_update plat) raw (checksum_type (receiver e)) F"
    and rec: "receiving F cov (receiver e) w" "{0 ..< word_of_nat (length F)} \<subseteq> cov" and F: "length F < 2 ^ 32" "F \<noteq> []"
    and closure: "slot_transmission_mode (receiver e) = 0 \<longrightarrow> slot_closure_requested (receiver e)"
    and ids: "receiver_ids_ok cfg e"
  shows "\<exists>w' e'. run_state (ccsds_cfdp_entity_receive_pdu cfg plat (Some fs) pdu) (w, e) = (CCSDS_CFDP_STATUS_OK, w', e') \<and>
    stored w' = (stored w)(c_string (destination_path (receiver e)) \<mapsto> file_map F) \<and> good w' \<and>
    (if slot_transmission_mode (receiver e) = 0
     then active (receiver e') \<and> waiting_for_finished_ack (receiver e') \<and> slot_id (receiver e') = slot_id (receiver e) \<and>
       finished_status (receiver e') = CCSDS_CFDP_STATUS_OK \<and> events w' = events w
     else receiver e' = zero_slot cfg \<and>
       events w' = events w @ [\<lparr>event_type = CCSDS_CFDP_EVENT_COMPLETE, event_transaction_id = slot_id (receiver e),
         event_status = CCSDS_CFDP_STATUS_OK\<rparr>])"
proof -
  obtain m where m: "ccsds_cfdp_decode_header cfg pdu = Inr (eof_header p, m)" "pdu_type (eof_header p) = 0" "pdu ! m = 4"
    "pdu_data_field_len (eof_header p) \<noteq> 0" "m < length pdu"
    using dec by (rule decode_eofD)
  have dir: "direction (eof_header p) = 0" using hdr by (simp add: incoming_header_is_supported_def)
  have s: "active (receiver e)" "metadata_received (receiver e)" "file_handle_open (receiver e)"
    "file_handle (receiver e) = Some hdl" "\<not> waiting_for_finished_ack (receiver e)"
    "file_size (receiver e) = word_of_nat (length F)" "checksum_type_is_supported (checksum_type (receiver e))"
    "ranges_inv cfg (received_ranges (receiver e))" "covered (live (received_ranges (receiver e))) = cov"
    "good w" "peer_entity_id (receiver e) = peer"
    using rec(1) by (simp_all add: receiving_def)
  have match: "receiver_match_active e (eof_header p) = CCSDS_CFDP_STATUS_OK"
    using s hdr(2) by (simp add: receiver_match_active_def transaction_id_matches_def)
  have pos: "0 < (word_of_nat (length F) :: u32)"
    using F unat_offset [of F "length F"] by (simp add: word_less_nat_alt)
  have complete: "ccsds_cfdp_ranges_is_complete cfg (received_ranges (receiver e)) 0 (word_of_nat (length F)) = Inr True"
    using ranges_is_complete_correct [OF s(8) pos] rec(2) s(9) by simp
  let ?e1 = "e\<lparr>receiver := (receiver e)\<lparr>eof_checksum := file_checksum p\<rparr>\<rparr>"
  let ?ack = "if slot_transmission_mode (receiver e) = 0 then send_ack_eof cfg plat (eof_condition_code p) else give CCSDS_CFDP_STATUS_OK"
  have ids1: "receiver_ids_ok cfg ?e1" using ids by (simp add: receiver_ids_ok_def)
  have "condition_code_is_valid (eof_condition_code p)" by (simp add: eof(1) condition_code_is_valid_def)
  from eof_acknowledged [OF ids1 _ s(10) this] s(11) obtain bs b where
    "run_state (send_ack_eof cfg plat (eof_condition_code p)) (w, ?e1) = (CCSDS_CFDP_STATUS_OK, h_send bs w, ?e1\<lparr>pdu_buf := b\<rparr>)"
    by auto
  then obtain w2 b2 where ack: "run_state ?ack (w, ?e1) = (CCSDS_CFDP_STATUS_OK, w2, ?e1\<lparr>pdu_buf := b2\<rparr>)" "same_obs w w2"
    by (cases "slot_transmission_mode (receiver e) = 0")
      (auto simp: same_obs_def send_obs events_link good_link intro: that [of w "pdu_buf e"])
  let ?e2 = "?e1\<lparr>pdu_buf := b2\<rparr>"
  have "tmp w = file_map F" by (rule receiving_complete [OF rec F(1)])
  then have content: "tmp w2 = file_map F" "good w2" using ack(2) s(10) by (simp_all add: same_obs_def)
  have "checksum_type_is_supported (checksum_type (receiver ?e2))" using s(7) by simp
  from verified [OF hyp(1,2) this F(1) _ content, of "file_checksum p"] s eof(3) obtain w3 b3 where
    ver: "run_state (receiver_verify_complete_file cfg plat (fs_ops plat fs) (file_checksum p)) (w2, ?e2) =
      (CCSDS_CFDP_STATUS_OK, w3, ?e2\<lparr>file_segment_buf := b3\<rparr>)" "same_obs w2 w3" by auto
  let ?e3 = "?e2\<lparr>file_segment_buf := b3\<rparr>"
  have g3: "good w3" using content(2) ver(2) by (simp add: same_obs_def)
  have ids3: "receiver_ids_ok cfg ?e3" using ids by (simp add: receiver_ids_ok_def)
  obtain w' e' where fin: "run_state (receiver_finish cfg plat fs CCSDS_CFDP_STATUS_OK) (w3, ?e3) = (CCSDS_CFDP_STATUS_OK, w', e')"
    "stored w' = (stored w3)(c_string (destination_path (receiver e)) \<mapsto> tmp w3)" "good w'"
    "if slot_transmission_mode (receiver e) = 0
     then active (receiver e') \<and> waiting_for_finished_ack (receiver e') \<and> slot_id (receiver e') = slot_id (receiver e) \<and>
       finished_status (receiver e') = CCSDS_CFDP_STATUS_OK \<and> events w' = events w3
     else receiver e' = zero_slot cfg \<and>
       events w' = events w3 @ [\<lparr>event_type = CCSDS_CFDP_EVENT_COMPLETE, event_transaction_id = slot_id (receiver e),
         event_status = CCSDS_CFDP_STATUS_OK\<rparr>]"
    using finished_ok [OF _ _ _ _ ids3 _ g3] s closure by auto
  have obs3: "tmp w3 = file_map F" "stored w3 = stored w" "events w3 = events w"
    using content ver(2) ack(2) by (simp_all add: same_obs_def)
  have "run_state (receiver_handle_eof cfg plat fs pdu) (w, e) = (CCSDS_CFDP_STATUS_OK, w', e')"
    unfolding receiver_handle_eof_def
    using hdr(1) dec match s(4-6) eof(1,2) ack(1) complete ver(1) fin(1) by (simp split del: if_split)
  with m dir hdr(1)
  have "run_state (ccsds_cfdp_entity_receive_pdu cfg plat (Some fs) pdu) (w, e) = (CCSDS_CFDP_STATUS_OK, w', e')"
    by (simp add: ccsds_cfdp_entity_receive_pdu_def ops_present Let_def not_le)
  with fin(2-4) obs3 show ?thesis by auto
qed

end

section \<open>A whole reception\<close>

definition entity_ids_ok :: "cfdp_config \<Rightarrow> ('f, 'h) ccsds_cfdp_entity \<Rightarrow> bool" where
  "entity_ids_ok cfg e \<longleftrightarrow>
     encoded_int_len_is_valid (ent_entity_id_len e) (CCSDS_CFDP_MAX_ENTITY_ID_LEN cfg) \<and>
     encoded_int_len_is_valid (ent_transaction_sequence_number_len e) (CCSDS_CFDP_MAX_TRANS_SEQ_LEN cfg) \<and>
     value_fits_len (local_entity_id e) (ent_entity_id_len e) \<and>
     value_fits_len (remote_entity_id e) (ent_entity_id_len e) \<and>
     value_fits_len (next_transaction_sequence_number e) (ent_transaction_sequence_number_len e)"

lemma entity_init_ids: "ccsds_cfdp_entity_init cfg plat config = Inr e \<Longrightarrow> entity_ids_ok cfg e"
  by (auto simp: ccsds_cfdp_entity_init_def entity_ids_ok_def split: if_splits)

lemma decode_header_fits:
  assumes "ccsds_cfdp_decode_header cfg buf = Inr (h, n)"
  shows "value_fits_len (source_entity_id h) (entity_id_len h)"
    "value_fits_len (transaction_sequence_number h) (transaction_sequence_number_len h)"
    "value_fits_len (destination_entity_id h) (entity_id_len h)" "transmission_mode h \<le> 1"
proof -
  note D = decode_headerD [OF assms] and l = header_lengthsD [OF decode_headerD(1) [OF assms]]
  show "value_fits_len (source_entity_id h) (entity_id_len h)"
    "value_fits_len (transaction_sequence_number h) (transaction_sequence_number_len h)"
    "value_fits_len (destination_entity_id h) (entity_id_len h)"
    unfolding D(17-19) using l D(2,3) by (auto intro!: value_fits_read_be_uint)
  show "transmission_mode h \<le> 1" unfolding D(9) by (simp add: word_and_le1)
qed

lemma receive_pdus_append:
  "run_state (receive_pdus cfg pl f (xs @ ys)) s =
     (case run_state (receive_pdus cfg pl f xs) s of (as, s') \<Rightarrow>
        case run_state (receive_pdus cfg pl f ys) s' of (bs, s'') \<Rightarrow> (as @ bs, s''))"
  by (induction xs arbitrary: s) (auto split: prod.splits)

text \<open>A PDU that carries a segment of the file for transaction \<open>tid\<close>.\<close>

definition carries ::
  "cfdp_config \<Rightarrow> ('f, 'h) ccsds_cfdp_entity \<Rightarrow> ccsds_cfdp_transaction_id \<Rightarrow> bytes \<Rightarrow> u32 \<times> bytes \<Rightarrow> bool" where
  "carries cfg e tid pdu seg \<longleftrightarrow>
     (\<exists>p. ccsds_cfdp_decode_filedata cfg pdu = Inr (p, length pdu) \<and> incoming_header_is_supported e (fd_header p) \<and>
          transaction_id_from_header (fd_header p) = tid \<and> (fd_offset p, fd_data p) = seg)"

definition seg_range :: "u32 \<times> bytes \<Rightarrow> u32 \<times> u32" where
  "seg_range seg = (fst seg, fst seg + word_of_nat (length (snd seg)))"

lemma supported_receiver [simp]: "incoming_header_is_supported (e\<lparr>receiver := s\<rparr>) = incoming_header_is_supported e"
  by (rule ext) (simp add: incoming_header_is_supported_def)

lemma carries_receiver [simp]: "carries cfg (e\<lparr>receiver := s\<rparr>) = carries cfg e"
  by (intro ext) (simp add: carries_def)

text \<open>
  The PDUs of one transfer of \<open>F\<close>: Metadata, segments that the range table can hold and that together cover
  the file, and EOF.
\<close>

definition transfer_pdus ::
  "cfdp_config \<Rightarrow> ('f, 'h) ccsds_cfdp_entity \<Rightarrow> crc32_ieee_fn \<Rightarrow> (u32 \<Rightarrow> bytes \<Rightarrow> u32) \<Rightarrow> bytes \<Rightarrow> ccsds_cfdp_metadata_pdu \<Rightarrow> bytes list \<Rightarrow> bool" where
  "transfer_pdus cfg e ieee raw F md pdus \<longleftrightarrow>
     (\<exists>md_pdu seg_pdus segs eof_pdu eof sts r.
        pdus = md_pdu # seg_pdus @ [eof_pdu] \<and>
        ccsds_cfdp_decode_metadata cfg md_pdu = Inr (md, length md_pdu) \<and>
        incoming_header_is_supported e (md_header md) \<and> md_file_size md = word_of_nat (length F) \<and>
        0 \<notin> set (destination_filename md) \<and>
        list_all2 (carries cfg e (transaction_id_from_header (md_header md))) seg_pdus segs \<and>
        (\<forall>seg\<in>set segs. file_segment F seg) \<and>
        session (ranges_step cfg) (ccsds_cfdp_ranges_init cfg) (map seg_range segs) = (sts, r) \<and>
        set sts \<subseteq> {CCSDS_CFDP_STATUS_OK} \<and>
        {0 ..< word_of_nat (length F)} \<subseteq> (\<Union>seg\<in>set segs. {fst (seg_range seg) ..< snd (seg_range seg)}) \<and>
        ccsds_cfdp_decode_eof cfg eof_pdu = Inr (eof, length eof_pdu) \<and>
        incoming_header_is_supported e (eof_header eof) \<and>
        transaction_id_from_header (eof_header eof) = transaction_id_from_header (md_header md) \<and>
        eof_condition_code eof = CCSDS_CFDP_CONDITION_NO_ERROR \<and> eof_file_size eof = word_of_nat (length F) \<and>
        file_checksum eof = file_sum ieee raw (md_checksum_type md) F)"

context cfdp_rx_host
begin

lemma segments_stored:
  assumes "list_all2 (carries cfg e (slot_id (receiver e))) pdus segs" "\<forall>seg\<in>set segs. file_segment F seg"
    and "session (ranges_step cfg) (received_ranges (receiver e)) (map seg_range segs) = (sts, r)"
      "set sts \<subseteq> {CCSDS_CFDP_STATUS_OK}"
    and "receiving F cov (receiver e) w" "length F < 2 ^ 32"
  shows "\<exists>w' e'. run_state (receive_pdus cfg plat (Some fs) pdus) (w, e) =
      (replicate (length pdus) CCSDS_CFDP_STATUS_OK, w', e') \<and>
    e' = e\<lparr>receiver := receiver e'\<rparr> \<and> same_transaction (receiver e) (receiver e') \<and>
    receiving F (cov \<union> (\<Union>seg\<in>set segs. {fst (seg_range seg) ..< snd (seg_range seg)})) (receiver e') w' \<and>
    stored w' = stored w \<and> events w' = events w"
  using assms
proof (induction pdus arbitrary: segs e w cov sts)
  case Nil
  then show ?case by (simp add: same_transaction_def)
next
  case (Cons pdu pdus)
  obtain off d rest where segs: "segs = (off, d) # rest" "carries cfg e (slot_id (receiver e)) pdu (off, d)"
    "list_all2 (carries cfg e (slot_id (receiver e))) pdus rest"
    using Cons.prems(1) by (cases segs) (auto simp: list_all2_Cons1)
  obtain p where p: "ccsds_cfdp_decode_filedata cfg pdu = Inr (p, length pdu)" "incoming_header_is_supported e (fd_header p)"
    "transaction_id_from_header (fd_header p) = slot_id (receiver e)" "fd_offset p = off" "fd_data p = d"
    using segs(2) by (auto simp: carries_def)
  obtain st r1 where step: "ranges_step cfg (received_ranges (receiver e)) (seg_range (off, d)) = (st, r1)" by fastforce
  obtain sts1 where sts: "session (ranges_step cfg) r1 (map seg_range rest) = (sts1, r)" "sts = st # sts1"
    using Cons.prems(3) segs(1) step by (auto split: prod.splits)
  have ok: "st = CCSDS_CFDP_STATUS_OK" "set sts1 \<subseteq> {CCSDS_CFDP_STATUS_OK}" using Cons.prems(4) sts(2) by auto
  have add: "ccsds_cfdp_ranges_add cfg (received_ranges (receiver e)) (fd_offset p)
      (fd_offset p + word_of_nat (length (fd_data p))) = (CCSDS_CFDP_STATUS_OK, r1)"
    using step ok(1) p(4,5) by (simp add: ranges_step_def seg_range_def)
  have seg: "file_segment F (fd_offset p, fd_data p)" using Cons.prems(2) segs(1) p(4,5) by simp
  obtain e1 where e1: "run_state (ccsds_cfdp_entity_receive_pdu cfg plat (Some fs) pdu) (w, e) =
      (CCSDS_CFDP_STATUS_OK, h_write off d w, e1)" "e1 = e\<lparr>receiver := receiver e1\<rparr>" "received_ranges (receiver e1) = r1"
    "same_transaction (receiver e) (receiver e1)"
    "receiving F (cov \<union> {off ..< off + word_of_nat (length d)}) (receiver e1) (h_write off d w)"
    using filedata_stored [OF p(1-3) Cons.prems(5) seg Cons.prems(6) add] p(4,5) by auto
  have id1: "slot_id (receiver e1) = slot_id (receiver e)" using e1(4) by (simp add: same_transaction_def)
  have "list_all2 (carries cfg e1 (slot_id (receiver e1))) pdus rest"
    using segs(3) unfolding id1 by (subst e1(2)) simp
  moreover have "\<forall>seg\<in>set rest. file_segment F seg" using Cons.prems(2) segs(1) by simp
  ultimately obtain w' e' where w': "run_state (receive_pdus cfg plat (Some fs) pdus) (h_write off d w, e1) =
      (replicate (length pdus) CCSDS_CFDP_STATUS_OK, w', e')" "e' = e1\<lparr>receiver := receiver e'\<rparr>"
    "same_transaction (receiver e1) (receiver e')"
    "receiving F (cov \<union> {off ..< off + word_of_nat (length d)} \<union>
      (\<Union>seg\<in>set rest. {fst (seg_range seg) ..< snd (seg_range seg)})) (receiver e') w'"
    "stored w' = stored (h_write off d w)" "events w' = events (h_write off d w)"
    using Cons.IH [of e1 rest sts1, OF _ _ _ ok(2) e1(5) Cons.prems(6)] e1(3) sts(1) by blast
  have "e' = e\<lparr>receiver := receiver e'\<rparr>" by (subst w'(2), subst e1(2)) simp
  moreover have "same_transaction (receiver e) (receiver e')"
    using e1(4) w'(3) by (simp add: same_transaction_def)
  ultimately show ?case
    using e1(1) w'(1,4-6) segs(1) by (simp add: write_obs seg_range_def Un_assoc)
qed

lemma reception_delivers:
  assumes hyp: "crc32_c_incremental (crc32_c plat) raw" "incremental (crc32_ieee_update plat)"
    and F: "length F < 2 ^ 32" "F \<noteq> []" and ent: "entity_ids_ok cfg e" "receiver e = zero_slot cfg" "good w" "remote_entity_id e = peer"
    and pdus: "transfer_pdus cfg e (crc32_ieee_update plat) raw F md pdus"
  shows "\<exists>w' e'. run_state (receive_pdus cfg plat (Some fs) pdus) (w, e) =
      (replicate (length pdus) CCSDS_CFDP_STATUS_OK, w', e') \<and>
    stored w' = (stored w)(destination_filename md \<mapsto> file_map F) \<and> good w' \<and>
    (if transmission_mode (md_header md) = CCSDS_CFDP_TRANSMISSION_MODE_ACKNOWLEDGED
     then active (receiver e') \<and> waiting_for_finished_ack (receiver e') \<and>
       slot_id (receiver e') = transaction_id_from_header (md_header md) \<and>
       finished_status (receiver e') = CCSDS_CFDP_STATUS_OK \<and> events w' = events w
     else receiver e' = zero_slot cfg \<and>
       events w' = events w @ [\<lparr>event_type = CCSDS_CFDP_EVENT_COMPLETE,
         event_transaction_id = transaction_id_from_header (md_header md), event_status = CCSDS_CFDP_STATUS_OK\<rparr>])"
proof -
  from pdus obtain md_pdu seg_pdus segs eof_pdu eof sts r where
    p: "pdus = md_pdu # seg_pdus @ [eof_pdu]" "ccsds_cfdp_decode_metadata cfg md_pdu = Inr (md, length md_pdu)"
      "incoming_header_is_supported e (md_header md)" "md_file_size md = word_of_nat (length F)"
      "0 \<notin> set (destination_filename md)"
    and segs: "list_all2 (carries cfg e (transaction_id_from_header (md_header md))) seg_pdus segs"
      "\<forall>seg\<in>set segs. file_segment F seg"
      "session (ranges_step cfg) (ccsds_cfdp_ranges_init cfg) (map seg_range segs) = (sts, r)"
      "set sts \<subseteq> {CCSDS_CFDP_STATUS_OK}"
      "{0 ..< word_of_nat (length F)} \<subseteq> (\<Union>seg\<in>set segs. {fst (seg_range seg) ..< snd (seg_range seg)})"
    and eof: "ccsds_cfdp_decode_eof cfg eof_pdu = Inr (eof, length eof_pdu)" "incoming_header_is_supported e (eof_header eof)"
      "transaction_id_from_header (eof_header eof) = transaction_id_from_header (md_header md)"
      "eof_condition_code eof = 0" "eof_file_size eof = word_of_nat (length F)"
      "file_checksum eof = file_sum (crc32_ieee_update plat) raw (md_checksum_type md) F"
    unfolding transfer_pdus_def by blast
  obtain m where m: "ccsds_cfdp_decode_header cfg md_pdu = Inr (md_header md, m)"
    "filename_len_is_valid cfg (destination_filename md)"
    using p(2) by (rule decode_metadata_directive)
  have dst: "c_string (path_array cfg (destination_filename md)) = destination_filename md"
    using p(5) m(2) by (simp add: c_string_path_array filename_len_is_valid_def)
  let ?w1 = "h_open (destination_filename md) w"
  obtain e1 where e1: "run_state (ccsds_cfdp_entity_receive_pdu cfg plat (Some fs) md_pdu) (w, e) = (CCSDS_CFDP_STATUS_OK, ?w1, e1)"
    "e1 = e\<lparr>receiver := receiver e1\<rparr>" "receiving F {} (receiver e1) ?w1"
    "slot_id (receiver e1) = transaction_id_from_header (md_header md)" "checksum_type (receiver e1) = md_checksum_type md"
    "slot_transmission_mode (receiver e1) = transmission_mode (md_header md)"
    "slot_transmission_mode (receiver e1) = 0 \<longrightarrow> slot_closure_requested (receiver e1)"
    "destination_path (receiver e1) = path_array cfg (destination_filename md)"
    "received_ranges (receiver e1) = ccsds_cfdp_ranges_init cfg"
    using metadata_opens [OF p(2,3) ent(2-4) p(4)] unfolding dst by blast
  have c1: "list_all2 (carries cfg e1 (slot_id (receiver e1))) seg_pdus segs"
    using segs(1) unfolding e1(4) by (subst e1(2)) simp
  have s1: "session (ranges_step cfg) (received_ranges (receiver e1)) (map seg_range segs) = (sts, r)"
    using segs(3) e1(9) by simp
  obtain w2 e2 where e2: "run_state (receive_pdus cfg plat (Some fs) seg_pdus) (?w1, e1) =
      (replicate (length seg_pdus) CCSDS_CFDP_STATUS_OK, w2, e2)" "e2 = e1\<lparr>receiver := receiver e2\<rparr>"
    "same_transaction (receiver e1) (receiver e2)"
    "receiving F (\<Union>seg\<in>set segs. {fst (seg_range seg) ..< snd (seg_range seg)}) (receiver e2) w2"
    "stored w2 = stored w" "events w2 = events w"
    using segments_stored [OF c1 segs(2) s1 segs(4) e1(3) F(1)] by (auto simp: open_obs)
  have e2e: "e2 = e\<lparr>receiver := receiver e2\<rparr>" by (subst e2(2), subst e1(2)) simp
  have slot: "slot_id (receiver e2) = transaction_id_from_header (md_header md)" "checksum_type (receiver e2) = md_checksum_type md"
    "slot_transmission_mode (receiver e2) = transmission_mode (md_header md)"
    "slot_transmission_mode (receiver e2) = 0 \<longrightarrow> slot_closure_requested (receiver e2)"
    "destination_path (receiver e2) = path_array cfg (destination_filename md)"
    using e2(3) e1(4-8) by (simp_all add: same_transaction_def)
  have hdr2: "incoming_header_is_supported e2 (eof_header eof)" using eof(2) by (subst e2e) simp
  have ids: "receiver_ids_ok cfg e2"
    using ent(1) slot decode_header_fits [OF m(1)] p(3)
    by (subst e2e) (auto simp: receiver_ids_ok_def entity_ids_ok_def incoming_header_is_supported_def
        transaction_id_from_header_def)
  have cov2: "transaction_id_from_header (eof_header eof) = slot_id (receiver e2)"
    "file_checksum eof = file_sum (crc32_ieee_update plat) raw (checksum_type (receiver e2)) F"
    using eof(3,6) slot by simp_all
  note end3 = eof_commits [OF hyp eof(1) hdr2 cov2(1) eof(4,5) cov2(2) e2(4) segs(5) F slot(4) ids]
  then obtain w' e' where fin: "run_state (ccsds_cfdp_entity_receive_pdu cfg plat (Some fs) eof_pdu) (w2, e2) =
      (CCSDS_CFDP_STATUS_OK, w', e')" "stored w' = (stored w)(destination_filename md \<mapsto> file_map F)" "good w'"
    "if transmission_mode (md_header md) = 0
     then active (receiver e') \<and> waiting_for_finished_ack (receiver e') \<and>
       slot_id (receiver e') = transaction_id_from_header (md_header md) \<and>
       finished_status (receiver e') = CCSDS_CFDP_STATUS_OK \<and> events w' = events w
     else receiver e' = zero_slot cfg \<and>
       events w' = events w @ [\<lparr>event_type = CCSDS_CFDP_EVENT_COMPLETE,
         event_transaction_id = transaction_id_from_header (md_header md), event_status = CCSDS_CFDP_STATUS_OK\<rparr>]"
    unfolding slot(1,3,5) dst e2(5,6) by blast
  have run: "run_state (receive_pdus cfg plat (Some fs) pdus) (w, e) = (replicate (length pdus) CCSDS_CFDP_STATUS_OK, w', e')"
    using e1(1) e2(1) fin(1) by (simp add: p(1) receive_pdus_append replicate_append_same)
  with fin(2-4) show ?thesis by auto
qed

end

end
