(* ===== verification/Cfdp_Send.thy ===== *)
theory Cfdp_Send
  imports Cfdp_Receive
begin

unbundle bit_operations_syntax

text \<open>
  Transmission of a file by the CFDP entity.  The locale \<open>cfdp_tx_host\<close> extends the link of
  \<open>Cfdp_Receive\<close> by the filestore of a sender; in it \<open>ccsds_cfdp_entity_send_file\<close> is run to its end and shown to
  give the transport Metadata, the segments of the file in order, and EOF with the checksum of the file.  Such a
  sequence of PDUs is one that the peer entity accepts as a whole transfer.
\<close>

section \<open>Segments in order\<close>

text \<open>Segments that follow each other without a gap from byte \<open>k\<close> to byte \<open>n\<close>.\<close>

fun chain :: "nat \<Rightarrow> (u32 \<times> bytes) list \<Rightarrow> nat \<Rightarrow> bool" where
  "chain k [] n = (k = n)"
| "chain k (seg # segs) n = (unat (fst seg) = k \<and> snd seg \<noteq> [] \<and> chain (k + length (snd seg)) segs n)"

lemma chain_le: "chain k segs n \<Longrightarrow> k \<le> n"
  by (induction segs arbitrary: k) force+

lemma ranges_add_next:
  assumes inv: "ranges_inv cfg r" "1 \<le> CCSDS_CFDP_MAX_NAK_RANGES cfg" and "s < e"
    and live: "live r = (if s = 0 then [] else [\<lparr>rstart = 0, rend = s\<rparr>])"
  shows "\<exists>r'. ccsds_cfdp_ranges_add cfg r s e = (CCSDS_CFDP_STATUS_OK, r') \<and> ranges_inv cfg r' \<and>
    live r' = [\<lparr>rstart = 0, rend = e\<rparr>]"
proof -
  have cnt: "ccsds_cfdp_ranges.count r = length (live r)" using inv(1) by (simp add: live_def ranges_inv_def)
  have nonzero: "e \<noteq> 0" using assms(3) by auto
  have "\<not> (touching s e (live r) = [] \<and> ccsds_cfdp_ranges.count r = CCSDS_CFDP_MAX_NAK_RANGES cfg)"
    "before s (live r) @ merged s e (live r) # behind s e (live r) = [\<lparr>rstart = 0, rend = e\<rparr>]"
    using inv(2) assms(3) by (auto simp: cnt live before_def touching_def behind_def merged_def)
  with ranges_add_eq [OF inv(1) assms(3)] ranges_add_inv [OF inv(1), of s e] show ?thesis by auto
qed

lemma chain_accepted:
  assumes "chain k segs n" "n < 2 ^ 32" "ranges_inv cfg r" "1 \<le> CCSDS_CFDP_MAX_NAK_RANGES cfg"
    and "live r = (if k = 0 then [] else [\<lparr>rstart = 0, rend = word_of_nat k\<rparr>])"
  shows "\<exists>sts r'. session (ranges_step cfg) r (map seg_range segs) = (sts, r') \<and> set sts \<subseteq> {CCSDS_CFDP_STATUS_OK} \<and>
    {word_of_nat k ..< word_of_nat n} \<subseteq> (\<Union>seg\<in>set segs. {fst (seg_range seg) ..< snd (seg_range seg)})"
  using assms(1,3,5)
proof (induction segs arbitrary: k r)
  case Nil
  then show ?case by simp
next
  case (Cons seg segs)
  obtain off d where seg: "seg = (off, d)" by force
  have k: "unat off = k" "d \<noteq> []" "chain (k + length d) segs n" using Cons.prems(1) by (simp_all add: seg)
  have le: "k + length d \<le> n" using k(3) by (rule chain_le)
  have off: "off = word_of_nat k" by (simp flip: k(1))
  have stop: "unat (off + word_of_nat (length d)) = k + length d"
    using le assms(2) k(1) by (simp add: unat_word_ariths(1) unsigned_of_nat take_bit_eq_mod mod_add_right_eq)
  have lt: "off < off + word_of_nat (length d)" using stop k(1,2) by (simp add: word_less_nat_alt)
  have zero: "off = 0 \<longleftrightarrow> k = 0" using k(1) off by (cases "k = 0") auto
  obtain r1 where r1: "ccsds_cfdp_ranges_add cfg r off (off + word_of_nat (length d)) = (CCSDS_CFDP_STATUS_OK, r1)"
    "ranges_inv cfg r1" "live r1 = [\<lparr>rstart = 0, rend = off + word_of_nat (length d)\<rparr>]"
    using ranges_add_next [OF Cons.prems(2) assms(4) lt] Cons.prems(3) zero off by auto
  have w: "off + word_of_nat (length d) = word_of_nat (k + length d)" by (simp add: off)
  have "live r1 = (if k + length d = 0 then [] else [\<lparr>rstart = 0, rend = word_of_nat (k + length d)\<rparr>])"
    using r1(3) k(2) w by simp
  from Cons.IH [OF k(3) r1(2) this] obtain sts r' where IH:
    "session (ranges_step cfg) r1 (map seg_range segs) = (sts, r')" "set sts \<subseteq> {CCSDS_CFDP_STATUS_OK}"
    "{word_of_nat (k + length d) ..< word_of_nat n} \<subseteq> (\<Union>seg\<in>set segs. {fst (seg_range seg) ..< snd (seg_range seg)})"
    by blast
  have "session (ranges_step cfg) r (map seg_range (seg # segs)) = (CCSDS_CFDP_STATUS_OK # sts, r')"
    using r1(1) IH(1) by (simp add: seg seg_range_def ranges_step_def)
  moreover have "{word_of_nat k ..< word_of_nat n} \<subseteq> (\<Union>seg\<in>set (seg # segs). {fst (seg_range seg) ..< snd (seg_range seg)})"
  proof
    fix x
    assume x: "x \<in> {word_of_nat k ..< word_of_nat n :: u32}"
    show "x \<in> (\<Union>seg\<in>set (seg # segs). {fst (seg_range seg) ..< snd (seg_range seg)})"
    proof (cases "x < off + word_of_nat (length d)")
      case True
      with x show ?thesis by (simp add: seg seg_range_def off)
    next
      case False
      then have "x \<in> {word_of_nat (k + length d) ..< word_of_nat n}" using x unfolding w by (simp add: not_less)
      with IH(3) have "x \<in> (\<Union>seg\<in>set segs. {fst (seg_range seg) ..< snd (seg_range seg)})" by blast
      then show ?thesis by simp
    qed
  qed
  moreover have "set (CCSDS_CFDP_STATUS_OK # sts) \<subseteq> {CCSDS_CFDP_STATUS_OK}" using IH(2) by simp
  ultimately show ?case by blast
qed

section \<open>The PDUs of a sender\<close>

text \<open>The Kconfig defaults leave room in a PDU for the largest segment and the longest file names.\<close>

definition cfdp_config_fits :: "cfdp_config \<Rightarrow> bool" where
  "cfdp_config_fits cfg \<longleftrightarrow>
     32 + CCSDS_CFDP_MAX_SEGMENT_SIZE cfg \<le> CCSDS_CFDP_MAX_PDU_SIZE cfg \<and>
     36 + 2 * CCSDS_CFDP_MAX_FILENAME_LEN cfg \<le> CCSDS_CFDP_MAX_PDU_SIZE cfg"

lemma cfdp_config_fits_default: "cfdp_config_fits default_cfdp_config"
  by (simp add: cfdp_config_fits_def default_cfdp_config_def)

definition sender_ids_ok :: "cfdp_config \<Rightarrow> ('f, 'h) ccsds_cfdp_entity \<Rightarrow> bool" where
  "sender_ids_ok cfg e \<longleftrightarrow> entity_ids_ok cfg e \<and> peer_entity_id (sender e) = remote_entity_id e \<and>
     id_source_entity_id (slot_id (sender e)) = local_entity_id e \<and>
     value_fits_len (id_transaction_sequence_number (slot_id (sender e))) (ent_transaction_sequence_number_len e) \<and>
     slot_transmission_mode (sender e) \<le> 1"

text \<open>The entity at the other end of the link.\<close>

definition peers :: "('f, 'h) ccsds_cfdp_entity \<Rightarrow> ('g, 'k) ccsds_cfdp_entity \<Rightarrow> bool" where
  "peers a b \<longleftrightarrow> local_entity_id b = remote_entity_id a \<and> remote_entity_id b = local_entity_id a \<and>
     ent_entity_id_len b = ent_entity_id_len a \<and>
     ent_transaction_sequence_number_len b = ent_transaction_sequence_number_len a"

lemma sender_header_supported:
  assumes "sender_ids_ok cfg a" "peers a b"
  shows "incoming_header_is_supported b ((sender_header a ty)\<lparr>pdu_data_field_len := n\<rparr>)"
    "transaction_id_from_header ((sender_header a ty)\<lparr>pdu_data_field_len := n\<rparr>) = slot_id (sender a)"
  using assms
  by (simp_all add: sender_ids_ok_def peers_def incoming_header_is_supported_def sender_header_def transaction_id_from_header_def)

lemma sender_header_encodes:
  assumes "sender_ids_ok cfg e" "32 \<le> cap" "ty \<le> 1"
  obtains h where "ccsds_cfdp_encode_header cfg ((sender_header e ty)\<lparr>pdu_data_field_len := n\<rparr>) cap = Inr h"
    "length h \<le> 28"
proof -
  let ?H = "(sender_header e ty)\<lparr>pdu_data_field_len := n\<rparr>"
  have l: "unat (ent_entity_id_len e) \<le> 8" "unat (ent_transaction_sequence_number_len e) \<le> 8"
    using assms(1) by (auto simp: sender_ids_ok_def entity_ids_ok_def encoded_int_len_is_valid_def word_le_nat_alt)
  have v: "header_lengths_are_valid cfg ?H" "ccsds_cfdp_header_encoded_len cfg ?H \<le> 28"
    using assms(1) l
    by (simp_all add: sender_ids_ok_def entity_ids_ok_def sender_header_def header_lengths_are_valid_def
        ccsds_cfdp_header_encoded_len_def)
  then have "\<exists>h. ccsds_cfdp_encode_header cfg ?H cap = Inr h"
    using assms by (auto simp: ccsds_cfdp_encode_header_def sender_header_def sender_ids_ok_def entity_ids_ok_def)
  with v(2) length_encode_header that show thesis by metis
qed

definition metadata_for ::
  "('f, 'h) ccsds_cfdp_entity \<Rightarrow> ccsds_cfdp_put_request \<Rightarrow> bytes \<Rightarrow> bytes \<Rightarrow> bytes \<Rightarrow> ccsds_cfdp_metadata_pdu" where
  "metadata_for e req src dst F = \<lparr>
     md_header = sender_header e CCSDS_CFDP_PDU_TYPE_FILE_DIRECTIVE,
     closure_requested = req_closure_requested req,
     md_checksum_type = req_checksum_type req,
     md_file_size = word_of_nat (length F),
     source_filename = src,
     destination_filename = dst\<rparr>"

definition filedata_for :: "('f, 'h) ccsds_cfdp_entity \<Rightarrow> u32 \<times> bytes \<Rightarrow> ccsds_cfdp_filedata_pdu" where
  "filedata_for e seg = \<lparr>
     fd_header = sender_header e CCSDS_CFDP_PDU_TYPE_FILE_DATA, fd_offset = fst seg, fd_data = snd seg\<rparr>"

definition eof_for :: "('f, 'h) ccsds_cfdp_entity \<Rightarrow> u32 \<Rightarrow> bytes \<Rightarrow> ccsds_cfdp_eof_pdu" where
  "eof_for e c F = \<lparr>
     eof_header = sender_header e CCSDS_CFDP_PDU_TYPE_FILE_DIRECTIVE,
     eof_condition_code = CCSDS_CFDP_CONDITION_NO_ERROR, file_checksum = c, eof_file_size = word_of_nat (length F)\<rparr>"

lemma metadata_encodes:
  assumes ids: "sender_ids_ok cfg e" and cfg: "cfdp_config_ok cfg" "cfdp_config_fits cfg"
    and names: "filename_len_is_valid cfg src" "filename_len_is_valid cfg dst" "checksum_type_is_supported (req_checksum_type req)"
  obtains bs where "ccsds_cfdp_encode_metadata cfg (metadata_for e req src dst F) (CCSDS_CFDP_MAX_PDU_SIZE cfg) = Inr bs" "bs \<noteq> []"
proof -
  let ?cap = "CCSDS_CFDP_MAX_PDU_SIZE cfg" and ?n = "8 + length src + length dst"
  have len: "length src \<le> CCSDS_CFDP_MAX_FILENAME_LEN cfg" "length dst \<le> CCSDS_CFDP_MAX_FILENAME_LEN cfg"
    "length src \<le> 255" "length dst \<le> 255" "28 + ?n \<le> ?cap" "?n \<le> 65535"
    using names cfg by (auto simp: filename_len_is_valid_def cfdp_config_ok_def cfdp_config_fits_def)
  obtain h where h: "ccsds_cfdp_encode_header cfg ((sender_header e 0)\<lparr>pdu_data_field_len := word_of_nat ?n\<rparr>) ?cap = Inr h"
    "length h \<le> 28"
    using sender_header_encodes [OF ids, of ?cap 0] len(5) by auto
  have room: "\<not> ?cap - (length h + (7 + length src)) < Suc (length dst)" "\<not> ?cap - (length h + 6) < Suc (length src)"
    "\<not> ?cap - length h < 8 + length src + length dst" using len(5) h(2) by linarith+
  have "\<exists>bs. ccsds_cfdp_encode_metadata cfg (metadata_for e req src dst F) ?cap = Inr bs \<and> bs \<noteq> []"
    using h len names room
    by (simp add: ccsds_cfdp_encode_metadata_def metadata_for_def sender_header_def ccsds_cfdp_lv_write_def Let_def)
  with that show thesis by blast
qed

lemma filedata_encodes:
  assumes ids: "sender_ids_ok cfg e" and cfg: "cfdp_config_ok cfg" "cfdp_config_fits cfg"
    and d: "snd seg \<noteq> []" "length (snd seg) \<le> CCSDS_CFDP_MAX_SEGMENT_SIZE cfg"
  obtains bs where "ccsds_cfdp_encode_filedata cfg (filedata_for e seg) (CCSDS_CFDP_MAX_PDU_SIZE cfg) = Inr bs" "bs \<noteq> []"
proof -
  let ?cap = "CCSDS_CFDP_MAX_PDU_SIZE cfg" and ?n = "4 + length (snd seg)"
  have len: "28 + ?n \<le> ?cap" "?n \<le> 65535"
    using d cfg by (auto simp: cfdp_config_ok_def cfdp_config_fits_def)
  obtain h where h: "ccsds_cfdp_encode_header cfg ((sender_header e 1)\<lparr>pdu_data_field_len := word_of_nat ?n\<rparr>) ?cap = Inr h"
    "length h \<le> 28"
    using sender_header_encodes [OF ids, of ?cap 1] len(1) by auto
  have "\<exists>bs. ccsds_cfdp_encode_filedata cfg (filedata_for e seg) ?cap = Inr bs \<and> bs \<noteq> []"
    using h len d by (simp add: ccsds_cfdp_encode_filedata_def filedata_for_def sender_header_def Let_def)
  with that show thesis by blast
qed

lemma eof_encodes:
  assumes ids: "sender_ids_ok cfg e" and cfg: "cfdp_config_ok cfg"
  obtains bs where "ccsds_cfdp_encode_eof cfg (eof_for e c F) (CCSDS_CFDP_MAX_PDU_SIZE cfg) = Inr bs" "bs \<noteq> []"
proof -
  let ?cap = "CCSDS_CFDP_MAX_PDU_SIZE cfg"
  have cap: "64 \<le> ?cap" using cfg by (auto simp: cfdp_config_ok_def)
  obtain h where h: "ccsds_cfdp_encode_header cfg ((sender_header e 0)\<lparr>pdu_data_field_len := 10\<rparr>) ?cap = Inr h"
    "length h \<le> 28"
    using sender_header_encodes [OF ids, of ?cap 0] cap by auto
  have "\<exists>bs. ccsds_cfdp_encode_eof cfg (eof_for e c F) ?cap = Inr bs \<and> bs \<noteq> []"
    using h cap
    by (simp add: ccsds_cfdp_encode_eof_def eof_for_def sender_header_def Let_def condition_code_is_valid_def)
  with that show thesis by blast
qed

section \<open>The host of a sending entity\<close>

text \<open>
  A sender reads its files through the filestore: \<open>source\<close> gives the files of the host, \<open>opened\<close> the content
  behind the handle, and \<open>sent\<close> the PDUs given to the transport.
\<close>

locale cfdp_tx_host = cfdp_link +
  fixes fs :: 'b and hdl :: 'c
    and h_open :: "bytes \<Rightarrow> 'a \<Rightarrow> 'a" and h_read :: "u32 \<Rightarrow> nat \<Rightarrow> 'a \<Rightarrow> bytes \<times> nat \<times> 'a" and h_close :: "'a \<Rightarrow> 'a"
    and source :: "'a \<Rightarrow> bytes \<rightharpoonup> bytes" and opened :: "'a \<Rightarrow> bytes" and sent :: "'a \<Rightarrow> bytes list"
  assumes ops: "filestore_is_valid plat (Some fs)"
    and run_open: "good w \<Longrightarrow> source w p = Some F \<Longrightarrow> length F < 2 ^ 32 \<Longrightarrow>
      run_state (the (fs_open_read (fs_ops plat fs)) p) (w, e) = ((0, Some hdl, word_of_nat (length F)), h_open p w, e)"
    and run_read: "good w \<Longrightarrow> run_state (the (fs_read (fs_ops plat fs)) (Some hdl) off n) (w, e) =
      ((0, fst (h_read off n w), fst (snd (h_read off n w))), snd (snd (h_read off n w)), e)"
    and run_close: "good w \<Longrightarrow> run_state (the (fs_close (fs_ops plat fs)) (Some hdl)) (w, e) = (0, h_close w, e)"
    and open_obs: "source w p = Some F \<Longrightarrow> opened (h_open p w) = F" "sent (h_open p w) = sent w" "events (h_open p w) = events w"
    and read_obs: "0 < n \<Longrightarrow> unat off + n \<le> length (opened w) \<Longrightarrow> h_read off n w = (d, k, w') \<Longrightarrow>
      0 < k \<and> k \<le> n \<and> k \<le> length d \<and> take k d = take k (drop (unat off) (opened w)) \<and>
      opened w' = opened w \<and> sent w' = sent w \<and> events w' = events w \<and> (good w \<longrightarrow> good w')"
    and close_obs: "sent (h_close w) = sent w" "events (h_close w) = events w"
    and send_obs: "opened (h_send bs w) = opened w"
    and sent_obs: "good w \<Longrightarrow> bs \<noteq> [] \<Longrightarrow> length bs \<le> CCSDS_CFDP_MAX_PDU_SIZE cfg \<Longrightarrow> sent (h_send bs w) = sent w @ [bs]"
    and event_obs: "sent (h_event ev w) = sent w"
    and good_files: "good w \<Longrightarrow> source w p \<noteq> None \<Longrightarrow> good (h_open p w)" "good w \<Longrightarrow> good (h_close w)"
begin

lemma run_segment_read:
  "good w \<Longrightarrow> run_state (segment_read (fs_ops plat fs) (Some hdl) off n) (w, e) =
     ((0, fst (snd (h_read off n w))), snd (snd (h_read off n w)),
      e\<lparr>file_segment_buf := copy_into (file_segment_buf e) 0 (take n (fst (h_read off n w)))\<rparr>)"
  by (simp add: segment_read_def run_read split: prod.splits)

lemma run_send_own:
  assumes "good w" "bs \<noteq> []" "length bs \<le> CCSDS_CFDP_MAX_PDU_SIZE cfg" "peer_entity_id (sender e) = peer"
  shows "run_state (send_encoded_pdu plat (length bs)) (w, e\<lparr>pdu_buf := copy_into (pdu_buf e) 0 bs\<rparr>) =
     (CCSDS_CFDP_STATUS_OK, h_send bs w, e\<lparr>pdu_buf := copy_into (pdu_buf e) 0 bs\<rparr>)"
  using assms by (simp add: send_encoded_pdu_def run_send copy_into_def)

text \<open>A sender of the link: its numbers fit and the transport's peer is its own.\<close>

definition sending :: "('b, 'c) ccsds_cfdp_entity \<Rightarrow> bool" where
  "sending e \<longleftrightarrow> sender_ids_ok cfg e \<and> remote_entity_id e = peer"

lemma sending_buffers [simp]:
  "sending (e\<lparr>pdu_buf := b\<rparr>) = sending e" "sending (e\<lparr>file_segment_buf := b\<rparr>) = sending e"
  by (simp_all add: sending_def sender_ids_ok_def entity_ids_ok_def)

lemma sending_peer: "sending e \<Longrightarrow> peer_entity_id (sender e) = peer"
  by (simp add: sending_def sender_ids_ok_def)

text \<open>The PDU of each kind is encoded and given to the transport.\<close>

lemma metadata_sent:
  assumes "sending e" "good w" "cfdp_config_fits cfg"
    and names: "filename_len_is_valid cfg src" "filename_len_is_valid cfg dst" "checksum_type_is_supported (req_checksum_type req)"
    and req: "take m (the (req_source_path req)) = src" "take n (the (req_destination_path req)) = dst"
  shows "\<exists>bs b. ccsds_cfdp_encode_metadata cfg (metadata_for e req src dst F) (CCSDS_CFDP_MAX_PDU_SIZE cfg) = Inr bs \<and>
    run_state (send_metadata cfg plat req m n (word_of_nat (length F))) (w, e) =
      (CCSDS_CFDP_STATUS_OK, h_send bs w, e\<lparr>pdu_buf := b\<rparr>) \<and>
    sent (h_send bs w) = sent w @ [bs]"
proof -
  have ids: "sender_ids_ok cfg e" using assms(1) by (simp add: sending_def)
  obtain bs where bs: "ccsds_cfdp_encode_metadata cfg (metadata_for e req src dst F) (CCSDS_CFDP_MAX_PDU_SIZE cfg) = Inr bs" "bs \<noteq> []"
    using metadata_encodes [OF ids config assms(3) names] by blast
  then have le: "length bs \<le> CCSDS_CFDP_MAX_PDU_SIZE cfg" by (elim encode_metadataD)
  with bs sent_obs [OF assms(2) bs(2) le] run_send_own [OF assms(2) bs(2) _ sending_peer [OF assms(1)]] req show ?thesis
    by (auto simp: send_metadata_def store_pdu_def metadata_for_def)
qed

lemma filedata_sent:
  assumes "sending e" "good w" "cfdp_config_fits cfg" "d \<noteq> []" "length d \<le> CCSDS_CFDP_MAX_SEGMENT_SIZE cfg"
  shows "\<exists>bs b. ccsds_cfdp_encode_filedata cfg (filedata_for e (off, d)) (CCSDS_CFDP_MAX_PDU_SIZE cfg) = Inr bs \<and>
    run_state (send_filedata cfg plat off d) (w, e) = (CCSDS_CFDP_STATUS_OK, h_send bs w, e\<lparr>pdu_buf := b\<rparr>) \<and>
    sent (h_send bs w) = sent w @ [bs]"
proof -
  have ids: "sender_ids_ok cfg e" using assms(1) by (simp add: sending_def)
  obtain bs where bs: "ccsds_cfdp_encode_filedata cfg (filedata_for e (off, d)) (CCSDS_CFDP_MAX_PDU_SIZE cfg) = Inr bs" "bs \<noteq> []"
    using filedata_encodes [OF ids config assms(3), of "(off, d)"] assms(4,5) by auto
  then have le: "length bs \<le> CCSDS_CFDP_MAX_PDU_SIZE cfg" by (elim encode_filedataD)
  with bs sent_obs [OF assms(2) bs(2) le] run_send_own [OF assms(2) bs(2) _ sending_peer [OF assms(1)]] show ?thesis
    by (auto simp: send_filedata_def store_pdu_def filedata_for_def)
qed

lemma eof_sent:
  assumes "sending e" "good w"
  shows "\<exists>bs b. ccsds_cfdp_encode_eof cfg (eof_for e c F) (CCSDS_CFDP_MAX_PDU_SIZE cfg) = Inr bs \<and>
    run_state (send_eof cfg plat c (word_of_nat (length F))) (w, e) = (CCSDS_CFDP_STATUS_OK, h_send bs w, e\<lparr>pdu_buf := b\<rparr>) \<and>
    sent (h_send bs w) = sent w @ [bs]"
proof -
  have ids: "sender_ids_ok cfg e" using assms(1) by (simp add: sending_def)
  obtain bs where bs: "ccsds_cfdp_encode_eof cfg (eof_for e c F) (CCSDS_CFDP_MAX_PDU_SIZE cfg) = Inr bs" "bs \<noteq> []"
    using eof_encodes [OF ids config] by blast
  then have le: "length bs \<le> CCSDS_CFDP_MAX_PDU_SIZE cfg" by (elim encode_eofD)
  with bs sent_obs [OF assms(2) bs(2) le] run_send_own [OF assms(2) bs(2) _ sending_peer [OF assms(1)]] show ?thesis
    by (auto simp: send_eof_def store_pdu_def eof_for_def)
qed

text \<open>The loop over the file: segments in order, one File Data PDU each, and the checksum of the file.\<close>

definition file_pdus :: "('b, 'c) ccsds_cfdp_entity \<Rightarrow> bytes list \<Rightarrow> (u32 \<times> bytes) list \<Rightarrow> bool" where
  "file_pdus e pdus segs \<longleftrightarrow> list_all2 (\<lambda>pdu seg.
     ccsds_cfdp_encode_filedata cfg (filedata_for e seg) (CCSDS_CFDP_MAX_PDU_SIZE cfg) = Inr pdu) pdus segs"

lemma filedata_for_buffers [simp]:
  "filedata_for (e\<lparr>pdu_buf := b\<rparr>) = filedata_for e" "filedata_for (e\<lparr>file_segment_buf := b\<rparr>) = filedata_for e"
  by (auto simp: filedata_for_def sender_header_def)

lemma file_pdus_buffers [simp]:
  "file_pdus (e\<lparr>pdu_buf := b\<rparr>) = file_pdus e" "file_pdus (e\<lparr>file_segment_buf := b\<rparr>) = file_pdus e"
  by (intro ext, simp add: file_pdus_def)+

lemma send_loop_emits:
  assumes hyp: "crc32_c_incremental (crc32_c plat) raw" "incremental (crc32_ieee_update plat)" "checksum_type_is_supported t"
    and fits: "cfdp_config_fits cfg" and F: "length F < 2 ^ 32"
    and st: "sum_at (crc32_ieee_update plat) raw t F (unat off) cs" "unat off \<le> length F"
    and w: "opened w = F" "good w" "sending e"
  shows "\<exists>cs' w' b b' pdus segs.
    run_state (send_file_loop cfg plat (fs_ops plat fs) (Some hdl) (word_of_nat (length F)) off cs) (w, e) =
      (Inr cs', w', e\<lparr>pdu_buf := b, file_segment_buf := b'\<rparr>) \<and>
    sum_at (crc32_ieee_update plat) raw t F (length F) cs' \<and> good w' \<and> sent w' = sent w @ pdus \<and> events w' = events w \<and>
    file_pdus e pdus segs \<and> chain (unat off) segs (length F) \<and> (\<forall>seg\<in>set segs. file_segment F seg)"
  using st w
proof (induction "length F - unat off" arbitrary: off cs w e rule: less_induct)
  case less
  let ?size = "word_of_nat (length F) :: u32"
  have us: "unat ?size = length F" using F by (rule unat_offset) simp
  show ?case
  proof (cases "off < ?size")
    case False
    then have o: "unat off = length F" using less.prems(2) us by (simp add: word_less_nat_alt)
    have "run_state (send_file_loop cfg plat (fs_ops plat fs) (Some hdl) ?size off cs) (w, e) =
        (Inr cs, w, e\<lparr>pdu_buf := pdu_buf e, file_segment_buf := file_segment_buf e\<rparr>)"
      using False by (subst send_file_loop.simps) simp
    moreover have "file_pdus e [] []" "chain (unat off) [] (length F)" using o by (simp_all add: file_pdus_def)
    moreover have "sum_at (crc32_ieee_update plat) raw t F (length F) cs" using less.prems(1) o by simp
    ultimately show ?thesis using less.prems(4) by (metis append_Nil2 empty_iff empty_set)
  next
    case True
    then have lt: "unat off < length F" by (simp add: word_less_nat_alt us)
    have rem: "unat (?size - off) = length F - unat off"
      using True us by (subst unat_sub) (auto simp: word_le_nat_alt word_less_nat_alt)
    let ?req = "if unat (?size - off) < CCSDS_CFDP_MAX_SEGMENT_SIZE cfg then unat (?size - off)
      else CCSDS_CFDP_MAX_SEGMENT_SIZE cfg"
    obtain d k w1 where rd: "h_read off ?req w = (d, k, w1)" by (metis prod.exhaust)
    have req: "0 < ?req" "unat off + ?req \<le> length (opened w)" "?req \<le> CCSDS_CFDP_MAX_SEGMENT_SIZE cfg"
      using lt rem config less.prems(3) by (auto simp: cfdp_config_ok_def)
    from read_obs [OF req(1,2) rd] less.prems(3,4) have k: "0 < k" "k \<le> ?req" "k \<le> length d"
      "take k d = take k (drop (unat off) F)" "opened w1 = F" "sent w1 = sent w" "events w1 = events w" "good w1" by simp_all
    have len: "length (take k d) = k" using k(3) by simp
    then have ne: "take k d \<noteq> []" using k(1) by auto
    have kreq: "unat off + k \<le> length F" using k(2) req(2) less.prems(3) by simp
    have seg: "file_segment F (off, take k d)" using kreq k(4) len by (simp add: file_segment_def)
    from sum_at_update [OF hyp less.prems(1) seg ne F] len obtain cs1 where cs1:
      "ccsds_cfdp_checksum_update (crc32_c plat) (crc32_ieee_update plat) cs off (take k d) = (CCSDS_CFDP_STATUS_OK, cs1)"
      "sum_at (crc32_ieee_update plat) raw t F (unat off + k) cs1" by auto
    have krem: "k \<le> unat (?size - off)" using kreq rem by linarith
    have off1: "unat (off + word_of_nat k) = unat off + k"
      using kreq F by (simp add: unat_word_ariths(1) unsigned_of_nat take_bit_eq_mod mod_add_right_eq)
    have dec: "length F - unat (off + word_of_nat k) < length F - unat off" using off1 k(1) lt by linarith
    let ?e1 = "e\<lparr>file_segment_buf := copy_into (file_segment_buf e) 0 (take ?req d)\<rparr>"
    have "sending ?e1" using less.prems(5) by simp
    moreover have "length (take k d) \<le> CCSDS_CFDP_MAX_SEGMENT_SIZE cfg" using len k(2) req(3) by linarith
    ultimately obtain bs b where fd: "ccsds_cfdp_encode_filedata cfg (filedata_for ?e1 (off, take k d)) (CCSDS_CFDP_MAX_PDU_SIZE cfg) = Inr bs"
      "run_state (send_filedata cfg plat off (take k d)) (w1, ?e1) = (CCSDS_CFDP_STATUS_OK, h_send bs w1, ?e1\<lparr>pdu_buf := b\<rparr>)"
      "sent (h_send bs w1) = sent w1 @ [bs]"
      using filedata_sent [OF _ k(8) fits ne] by blast
    let ?w2 = "h_send bs w1" and ?e2 = "?e1\<lparr>pdu_buf := b\<rparr>"
    have w2: "opened ?w2 = F" "good ?w2" "sending ?e2" using k(5,8) less.prems(5) by (simp_all add: send_obs good_link)
    have st2: "sum_at (crc32_ieee_update plat) raw t F (unat (off + word_of_nat k)) cs1"
      "unat (off + word_of_nat k) \<le> length F" using cs1(2) off1 kreq by simp_all
    obtain cs' w' b2 b3 pdus segs where fin:
      "run_state (send_file_loop cfg plat (fs_ops plat fs) (Some hdl) ?size (off + word_of_nat k) cs1) (?w2, ?e2) =
        (Inr cs', w', ?e2\<lparr>pdu_buf := b2, file_segment_buf := b3\<rparr>)"
      "sum_at (crc32_ieee_update plat) raw t F (length F) cs'" "good w'" "sent w' = sent ?w2 @ pdus" "events w' = events ?w2"
      "file_pdus ?e2 pdus segs" "chain (unat off + k) segs (length F)" "\<forall>seg\<in>set segs. file_segment F seg"
      using less.hyps [OF dec st2 w2] unfolding off1 by blast
    have "take k (file_segment_buf ?e1) = take k d" using take_copy_into_0 [OF k(2,3)] by simp
    with fin(1) True less.prems(4) rd k(1,2) krem cs1(1) fd(2)
    have "run_state (send_file_loop cfg plat (fs_ops plat fs) (Some hdl) ?size off cs) (w, e) =
        (Inr cs', w', e\<lparr>pdu_buf := b2, file_segment_buf := b3\<rparr>)"
      by (subst send_file_loop.simps) (simp add: run_segment_read Let_def)
    moreover have "file_pdus e (bs # pdus) ((off, take k d) # segs)" using fd(1) fin(6) by (simp add: file_pdus_def)
    moreover have "chain (unat off) ((off, take k d) # segs) (length F)" using fin(7) ne len by simp
    moreover have "sent w' = sent w @ (bs # pdus)" "events w' = events w"
      using fin(4,5) k(6,7) fd(3) by (simp_all add: events_link)
    moreover have "\<forall>s\<in>set ((off, take k d) # segs). file_segment F s" using fin(8) seg by simp
    moreover note fin(2,3)
    ultimately show ?thesis by blast
  qed
qed

end

section \<open>A whole transmission\<close>

lemma bounded_strlen_eq: "length p \<le> n \<Longrightarrow> bounded_strlen p n = length p"
  by (induction p n rule: bounded_strlen.induct) auto

lemma path_len_valid: "filename_len_is_valid cfg p \<Longrightarrow> path_len_is_valid cfg (Some p) = Some (length p)"
  by (auto simp: path_len_is_valid_def filename_len_is_valid_def bounded_strlen_eq)

text \<open>What a request to send the file \<open>F\<close> under the name \<open>dst\<close> must satisfy.\<close>

definition request_ok :: "cfdp_config \<Rightarrow> ccsds_cfdp_put_request \<Rightarrow> bytes \<Rightarrow> bytes \<Rightarrow> bool" where
  "request_ok cfg req src dst \<longleftrightarrow>
     req_source_path req = Some src \<and> req_destination_path req = Some dst \<and>
     filename_len_is_valid cfg src \<and> filename_len_is_valid cfg dst \<and> 0 \<notin> set dst \<and>
     checksum_type_is_supported (req_checksum_type req)"

text \<open>The entity once the transaction is set up.\<close>

definition started ::
  "cfdp_config \<Rightarrow> ('f, 'h) ccsds_cfdp_entity \<Rightarrow> ccsds_cfdp_put_request \<Rightarrow> bytes \<Rightarrow> bytes \<Rightarrow> ('f, 'h) ccsds_cfdp_entity" where
  "started cfg e req src dst = (advance_transaction_sequence_number e)\<lparr>
     sender_completion_available := False,
     sender_completion_status := CCSDS_CFDP_STATUS_OK,
     sender := (sender e)\<lparr>
       active := True,
       slot_id := \<lparr>id_source_entity_id = local_entity_id e,
         id_transaction_sequence_number = next_transaction_sequence_number e\<rparr>,
       peer_entity_id := remote_entity_id e,
       finished_status := CCSDS_CFDP_STATUS_OK,
       slot_closure_requested := req_closure_requested req,
       slot_transmission_mode := (if acknowledged_mode req then 0 else 1),
       source_path := path_array cfg src,
       destination_path := path_array cfg dst\<rparr>\<rparr>"

lemma advance_same [simp]:
  "local_entity_id (advance_transaction_sequence_number e) = local_entity_id e"
  "remote_entity_id (advance_transaction_sequence_number e) = remote_entity_id e"
  "ent_entity_id_len (advance_transaction_sequence_number e) = ent_entity_id_len e"
  "ent_transaction_sequence_number_len (advance_transaction_sequence_number e) = ent_transaction_sequence_number_len e"
  "sender (advance_transaction_sequence_number e) = sender e"
  by (simp_all add: advance_transaction_sequence_number_def Let_def)

text \<open>The PDUs of a transmission: Metadata, the segments of the file in order, EOF.\<close>

definition emission ::
  "cfdp_config \<Rightarrow> ('f, 'h) ccsds_cfdp_entity \<Rightarrow> ccsds_cfdp_put_request \<Rightarrow> bytes \<Rightarrow> bytes \<Rightarrow> u32 \<Rightarrow> bytes \<Rightarrow> bytes list \<Rightarrow> bool" where
  "emission cfg e req src dst c F pdus \<longleftrightarrow>
     (\<exists>md fds segs eof.
        pdus = md # fds @ [eof] \<and>
        ccsds_cfdp_encode_metadata cfg (metadata_for e req src dst F) (CCSDS_CFDP_MAX_PDU_SIZE cfg) = Inr md \<and>
        list_all2 (\<lambda>pdu seg. ccsds_cfdp_encode_filedata cfg (filedata_for e seg) (CCSDS_CFDP_MAX_PDU_SIZE cfg) = Inr pdu) fds segs \<and>
        chain 0 segs (length F) \<and> (\<forall>seg\<in>set segs. file_segment F seg) \<and>
        ccsds_cfdp_encode_eof cfg (eof_for e c F) (CCSDS_CFDP_MAX_PDU_SIZE cfg) = Inr eof)"

text \<open>The sequence numbers count modulo the width of their field.\<close>

lemma bytes_power: "(256 :: nat) ^ n = 2 ^ (n * 8)"
proof -
  have "(256 :: nat) = 2 ^ 8" by simp
  then show ?thesis by (metis mult.commute power_mult)
qed

lemma value_fits_lt: "unat len \<le> 8 \<Longrightarrow> value_fits_len v len \<longleftrightarrow> unat v < 256 ^ unat len"
proof -
  assume len: "unat len \<le> 8"
  have "drop_bit n v = 0 \<longleftrightarrow> unat v < 2 ^ n" for n
  proof -
    have "drop_bit n v = 0 \<longleftrightarrow> unat (drop_bit n v) = 0" by (metis unsigned_0 unsigned_word_eqI)
    also have "\<dots> \<longleftrightarrow> unat v < 2 ^ n" by (simp only: unat_drop_bit_eq) (simp only: drop_bit_eq_div, simp add: div_eq_0_iff)
    finally show ?thesis .
  qed
  moreover have "unat v < 2 ^ (8 * 8)" using unsigned_less [of v, where 'a = nat] by simp
  ultimately show ?thesis using len unfolding bytes_power value_fits_len_def
    by (cases "unat len = 8") (auto simp: word_le_nat_alt)
qed

lemma advance_sequence:
  assumes "entity_ids_ok cfg e"
  shows "unat (next_transaction_sequence_number (advance_transaction_sequence_number e)) =
    (unat (next_transaction_sequence_number e) + 1) mod 256 ^ unat (ent_transaction_sequence_number_len e)"
proof -
  let ?len = "ent_transaction_sequence_number_len e" and ?v = "next_transaction_sequence_number e"
  have len: "1 \<le> unat ?len" "unat ?len \<le> 8"
    using assms by (auto simp: entity_ids_ok_def encoded_int_len_is_valid_def word_le_nat_alt)
  show ?thesis
  proof (cases "unat ?len = 8")
    case True
    then have "unat ?len = unat (8 :: u8)" by simp
    then have "?len = 8" by (rule unsigned_word_eqI)
    then show ?thesis
      by (simp add: advance_transaction_sequence_number_def transaction_sequence_limit_def unat_word_ariths)
  next
    case False
    then have lt: "unat ?len * 8 < 64" "\<not> 8 \<le> ?len" using len by (auto simp: word_le_nat_alt)
    let ?L = "push_bit (unat ?len * 8) 1 :: u64"
    have L: "unat ?L = 256 ^ unat ?len"
      using lt(1) unfolding bytes_power
      by (simp only: unsigned_push_bit_eq) (simp add: push_bit_eq_mult take_bit_nat_eq_self)
    have small: "(256 :: nat) ^ unat ?len \<le> 256 ^ 7" using lt(1) by (intro power_increasing) auto
    have "?L \<noteq> 0xffffffffffffffff"
    proof
      assume "?L = 0xffffffffffffffff"
      then have "unat ?L = unat (0xffffffffffffffff :: u64)" by simp
      with L small show False by simp
    qed
    moreover have "unat ?v < 256 ^ unat ?len"
      using assms value_fits_lt [OF len(2), of ?v] by (simp add: entity_ids_ok_def)
    then have "unat (?v + 1) = unat ?v + 1"
      using small by (simp add: unat_word_ariths)
    ultimately show ?thesis
      using lt(2) L by (simp add: advance_transaction_sequence_number_def transaction_sequence_limit_def Let_def unat_mod)
  qed
qed
lemma value_fits_advance:
  assumes "entity_ids_ok cfg e"
  shows "entity_ids_ok cfg (advance_transaction_sequence_number e)"
proof -
  have len: "unat (ent_transaction_sequence_number_len e) \<le> 8"
    using assms by (auto simp: entity_ids_ok_def encoded_int_len_is_valid_def word_le_nat_alt)
  have "value_fits_len (next_transaction_sequence_number (advance_transaction_sequence_number e))
      (ent_transaction_sequence_number_len e)"
    unfolding value_fits_lt [OF len] advance_sequence [OF assms] by simp
  with assms show ?thesis by (simp add: entity_ids_ok_def)
qed

lemma started_ids_ok: "entity_ids_ok cfg e \<Longrightarrow> sender_ids_ok cfg (started cfg e req src dst)"
  using value_fits_advance [of cfg e]
  by (simp add: started_def sender_ids_ok_def entity_ids_ok_def)

context cfdp_tx_host
begin

lemma body_emits:
  assumes hyp: "crc32_c_incremental (crc32_c plat) raw" "incremental (crc32_ieee_update plat)"
    and fits: "cfdp_config_fits cfg" and F: "length F < 2 ^ 32" "source w src = Some F"
    and req: "request_ok cfg req src dst" and e: "sending e" "good w" "active (sender e)" "\<not> finished_received (sender e)"
      "\<not> sender_completion_available e" "slot_transmission_mode (sender e) = (if acknowledged_mode req then 0 else 1)"
    and c: "c = file_sum (crc32_ieee_update plat) raw (req_checksum_type req) F"
  shows "\<exists>pdus w' e' st.
    run_state (send_file_body cfg plat fs req (length src) (length dst) (initial_checksum (req_checksum_type req))) (w, e) =
      ((st, True, acknowledged_mode req), w', e') \<and>
    st = (if \<not> acknowledged_mode req \<and> req_closure_requested req \<and> now_ms plat \<noteq> None
          then CCSDS_CFDP_STATUS_INACTIVITY_DETECTED else CCSDS_CFDP_STATUS_OK) \<and>
    emission cfg e req src dst c F pdus \<and> sent w' = sent w @ pdus \<and> good w' \<and> events w' = events w \<and>
    e' = e\<lparr>sender := sender e', pdu_buf := pdu_buf e', file_segment_buf := file_segment_buf e'\<rparr> \<and>
    active (sender e') \<and> slot_id (sender e') = slot_id (sender e) \<and> file_handle_open (sender e') \<and>
    file_handle (sender e') = Some hdl \<and> filestore (sender e') = Some fs \<and> eof_checksum (sender e') = c \<and>
    file_size (sender e') = word_of_nat (length F)"
proof -
  note r = req [unfolded request_ok_def]
  let ?w1 = "h_open src w"
  let ?e1 = "e\<lparr>sender := (sender e)\<lparr>file_handle_open := True, file_handle := Some hdl, filestore := Some fs,
    file_size := word_of_nat (length F), checksum_type := req_checksum_type req\<rparr>\<rparr>"
  have w1: "opened ?w1 = F" "good ?w1" using F e(2) by (simp_all add: open_obs good_files)
  have s1: "sending ?e1" using e(1) by (auto simp: sending_def sender_ids_ok_def entity_ids_ok_def)
  have hdr: "sender_header ?e1 = sender_header e" by (rule ext) (simp add: sender_header_def)
  obtain md b1 where md: "ccsds_cfdp_encode_metadata cfg (metadata_for e req src dst F) (CCSDS_CFDP_MAX_PDU_SIZE cfg) = Inr md"
    "run_state (send_metadata cfg plat req (length src) (length dst) (word_of_nat (length F))) (?w1, ?e1) =
      (CCSDS_CFDP_STATUS_OK, h_send md ?w1, ?e1\<lparr>pdu_buf := b1\<rparr>)"
    "sent (h_send md ?w1) = sent ?w1 @ [md]"
    using metadata_sent [OF s1 w1(2) fits, of src dst req "length src" "length dst" F] r by (auto simp: metadata_for_def hdr)
  let ?w2 = "h_send md ?w1" and ?e2 = "?e1\<lparr>pdu_buf := b1\<rparr>"
  have w2: "opened ?w2 = F" "good ?w2" "sending ?e2" using w1 s1 by (simp_all add: send_obs good_link)
  have st0: "sum_at (crc32_ieee_update plat) raw (req_checksum_type req) F (unat (0 :: u32)) (initial_checksum (req_checksum_type req))"
    using sum_at_init [OF hyp] by simp
  have supp: "checksum_type_is_supported (req_checksum_type req)" and le: "unat (0 :: u32) \<le> length F" using r by simp_all
  obtain cs' w3 b2 b3 fds segs where loop:
    "run_state (send_file_loop cfg plat (fs_ops plat fs) (Some hdl) (word_of_nat (length F)) 0 (initial_checksum (req_checksum_type req)))
      (?w2, ?e2) = (Inr cs', w3, ?e2\<lparr>pdu_buf := b2, file_segment_buf := b3\<rparr>)"
    "sum_at (crc32_ieee_update plat) raw (req_checksum_type req) F (length F) cs'" "good w3" "sent w3 = sent ?w2 @ fds"
    "events w3 = events ?w2" "file_pdus ?e2 fds segs" "chain (unat (0 :: u32)) segs (length F)" "\<forall>seg\<in>set segs. file_segment F seg"
    using send_loop_emits [OF hyp supp fits F(1) st0 le w2] by blast
  have fin: "ccsds_cfdp_checksum_finish cs' = Inr c" using sum_at_finish [OF hyp(1) _ loop(2)] r c by simp
  let ?e3 = "?e2\<lparr>pdu_buf := b2, file_segment_buf := b3, sender := (sender ?e2)\<lparr>eof_checksum := c\<rparr>\<rparr>"
  have s3: "sending ?e3" using s1 by (auto simp: sending_def sender_ids_ok_def entity_ids_ok_def)
  have eof3: "eof_for ?e3 c F = eof_for e c F" by (simp add: eof_for_def sender_header_def)
  obtain eof b4 where eof: "ccsds_cfdp_encode_eof cfg (eof_for e c F) (CCSDS_CFDP_MAX_PDU_SIZE cfg) = Inr eof"
    "run_state (send_eof cfg plat c (word_of_nat (length F))) (w3, ?e3) = (CCSDS_CFDP_STATUS_OK, h_send eof w3, ?e3\<lparr>pdu_buf := b4\<rparr>)"
    "sent (h_send eof w3) = sent w3 @ [eof]"
    using eof_sent [OF s3 loop(3), of c F] unfolding eof3 by blast
  have "list_all2 (\<lambda>pdu seg. ccsds_cfdp_encode_filedata cfg (filedata_for e seg) (CCSDS_CFDP_MAX_PDU_SIZE cfg) = Inr pdu) fds segs"
    using loop(6) by (simp add: file_pdus_def filedata_for_def hdr sender_header_def)
  then have em: "emission cfg e req src dst c F (md # fds @ [eof])"
    unfolding emission_def using md(1) eof(1) loop(7,8) by auto
  have obs: "sent (h_send eof w3) = sent w @ md # fds @ [eof]" "good (h_send eof w3)" "events (h_send eof w3) = events w"
    using loop(3-5) md(3) eof(3) by (simp_all add: open_obs events_link good_link)
  let ?e4 = "?e3\<lparr>pdu_buf := b4\<rparr>"
  note steps = r run_open [OF e(2) F(2,1)] md(2) loop(1) fin eof(2) e
  show ?thesis
  proof (cases "acknowledged_mode req")
    case True
    let ?e5 = "?e4\<lparr>sender := arm_retry cfg (clock (h_send eof w3)) ((sender ?e4)\<lparr>retry_count := 0\<rparr>)\<rparr>"
    have "run_state (send_file_body cfg plat fs req (length src) (length dst) (initial_checksum (req_checksum_type req))) (w, e) =
        ((CCSDS_CFDP_STATUS_OK, True, True), h_send eof w3, ?e5)"
      using True steps by (simp add: send_file_body_def Let_def run_entity_now)
    with True em obs e(3) show ?thesis by (simp add: arm_retry_def)
  next
    case False
    have "run_state (send_file_body cfg plat fs req (length src) (length dst) (initial_checksum (req_checksum_type req))) (w, e) =
        ((if req_closure_requested req \<and> now_ms plat \<noteq> None then CCSDS_CFDP_STATUS_INACTIVITY_DETECTED
          else CCSDS_CFDP_STATUS_OK, True, False), h_send eof w3, ?e4)"
      using False steps by (simp add: send_file_body_def Let_def)
    with False em obs e(3) show ?thesis by simp
  qed
qed

end

lemma emission_transfer:
  assumes cfg: "cfdp_config_ok cfg" and em: "emission cfg a req src dst c F pdus"
    and a: "sender_ids_ok cfg a" "peers a b" and req: "request_ok cfg req src dst" and F: "length F < 2 ^ 32"
    and c: "c = file_sum ieee raw (req_checksum_type req) F"
  shows "transfer_pdus cfg b ieee raw F (metadata_norm (metadata_for a req src dst F)) pdus"
proof -
  let ?cap = "CCSDS_CFDP_MAX_PDU_SIZE cfg" and ?md = "metadata_for a req src dst F"
  from em obtain md fds segs eof where p: "pdus = md # fds @ [eof]" "ccsds_cfdp_encode_metadata cfg ?md ?cap = Inr md"
    "list_all2 (\<lambda>pdu seg. ccsds_cfdp_encode_filedata cfg (filedata_for a seg) ?cap = Inr pdu) fds segs"
    "chain 0 segs (length F)" "\<forall>seg\<in>set segs. file_segment F seg" "ccsds_cfdp_encode_eof cfg (eof_for a c F) ?cap = Inr eof"
    unfolding emission_def by blast
  note sup = sender_header_supported [OF a]
  have md: "ccsds_cfdp_decode_metadata cfg md = Inr (metadata_norm ?md, length md)"
    using decode_encode_metadata [OF cfg p(2), of "[]"] by simp
  have dec: "ccsds_cfdp_decode_eof cfg eof = Inr (eof_norm (eof_for a c F), length eof)"
    using decode_encode_eof [OF p(6), of "[]"] by simp
  have fds: "list_all2 (carries cfg b (slot_id (sender a))) fds segs"
    using p(3)
  proof (rule list_all2_mono)
    fix pdu seg
    assume "ccsds_cfdp_encode_filedata cfg (filedata_for a seg) ?cap = Inr pdu"
    from decode_encode_filedata [OF this, of "[]"]
    have "ccsds_cfdp_decode_filedata cfg pdu = Inr (filedata_norm (filedata_for a seg), length pdu)" by simp
    with sup show "carries cfg b (slot_id (sender a)) pdu seg"
      by (simp add: carries_def filedata_norm_def filedata_for_def)
  qed
  have one: "1 \<le> CCSDS_CFDP_MAX_NAK_RANGES cfg" using cfg by (simp add: cfdp_config_ok_def)
  obtain sts r where ses: "session (ranges_step cfg) (ccsds_cfdp_ranges_init cfg) (map seg_range segs) = (sts, r)"
    "set sts \<subseteq> {CCSDS_CFDP_STATUS_OK}"
    "{word_of_nat 0 ..< word_of_nat (length F)} \<subseteq> (\<Union>seg\<in>set segs. {fst (seg_range seg) ..< snd (seg_range seg)})"
    using chain_accepted [OF p(4) F ranges_init_inv one] by (auto simp: ranges_init_live)
  have hdr: "incoming_header_is_supported b (md_header (metadata_norm ?md))"
    "transaction_id_from_header (md_header (metadata_norm ?md)) = slot_id (sender a)"
    "incoming_header_is_supported b (eof_header (eof_norm (eof_for a c F)))"
    "transaction_id_from_header (eof_header (eof_norm (eof_for a c F))) = slot_id (sender a)"
    using sup by (simp_all add: metadata_norm_def metadata_for_def eof_norm_def eof_for_def)
  have vals: "md_file_size (metadata_norm ?md) = word_of_nat (length F)" "destination_filename (metadata_norm ?md) = dst"
    "md_checksum_type (metadata_norm ?md) = req_checksum_type req" "eof_condition_code (eof_norm (eof_for a c F)) = 0"
    "eof_file_size (eof_norm (eof_for a c F)) = word_of_nat (length F)" "file_checksum (eof_norm (eof_for a c F)) = c"
    by (simp_all add: metadata_norm_def metadata_for_def eof_norm_def eof_for_def)
  show ?thesis
    unfolding transfer_pdus_def
    by (rule exI [of _ md], rule exI [of _ fds], rule exI [of _ segs], rule exI [of _ eof],
        rule exI [of _ "eof_norm (eof_for a c F)"], rule exI [of _ sts], rule exI [of _ r])
      (use p(1,5) md dec fds ses hdr vals req c in \<open>simp add: request_ok_def\<close>)
qed

context cfdp_tx_host
begin

lemma close_present: "fs_close (fs_ops plat fs) \<noteq> None"
  using ops by (simp add: filestore_is_valid_def)

lemma run_close_sender:
  assumes "good w" "file_handle_open (sender e)" "file_handle (sender e) = Some hdl" "filestore (sender e) = Some fs"
  shows "run_state (close_sender_handle plat) (w, e) =
    ((), h_close w, e\<lparr>sender := (sender e)\<lparr>file_handle_open := False, file_handle := None\<rparr>\<rparr>)"
  using assms close_present run_close [OF assms(1)] by (auto simp: close_sender_handle_def)

lemma run_release_sender:
  assumes "good w" "\<not> file_handle_open (sender e)"
  shows "run_state (release_sender_terminal cfg plat st) (w, e) =
    ((), h_event \<lparr>event_type = (if st = CCSDS_CFDP_STATUS_OK then CCSDS_CFDP_EVENT_COMPLETE else CCSDS_CFDP_EVENT_FAILED),
       event_transaction_id = slot_id (sender e), event_status = st\<rparr> w, e\<lparr>sender := zero_slot cfg\<rparr>)"
  using assms
  by (simp add: release_sender_terminal_def run_event_emitted ccsds_cfdp_entity_release_sender_transaction_def
      close_sender_handle_def)

lemma send_file_emits:
  assumes hyp: "crc32_c_incremental (crc32_c plat) raw" "incremental (crc32_ieee_update plat)"
    and fits: "cfdp_config_fits cfg" and F: "length F < 2 ^ 32" "source w src = Some F"
    and req: "request_ok cfg req src dst" and e: "entity_ids_ok cfg e" "remote_entity_id e = peer" "sender e = zero_slot cfg"
    and w: "good w" and c: "c = file_sum (crc32_ieee_update plat) raw (req_checksum_type req) F"
  shows "\<exists>pdus w' e' st.
    run_state (ccsds_cfdp_entity_send_file cfg plat (Some fs) req) (w, e) =
      ((st, Some (slot_id (sender (started cfg e req src dst)))), w', e') \<and>
    st = (if \<not> acknowledged_mode req \<and> req_closure_requested req \<and> now_ms plat \<noteq> None
          then CCSDS_CFDP_STATUS_INACTIVITY_DETECTED else CCSDS_CFDP_STATUS_OK) \<and>
    emission cfg (started cfg e req src dst) req src dst c F pdus \<and> sent w' = sent w @ pdus \<and> good w' \<and>
    (if acknowledged_mode req
     then active (sender e') \<and> slot_id (sender e') = slot_id (sender (started cfg e req src dst)) \<and> events w' = events w
     else sender e' = zero_slot cfg \<and>
       events w' = events w @ [\<lparr>event_type = (if st = CCSDS_CFDP_STATUS_OK then CCSDS_CFDP_EVENT_COMPLETE else CCSDS_CFDP_EVENT_FAILED),
         event_transaction_id = slot_id (sender (started cfg e req src dst)), event_status = st\<rparr>])"
proof -
  let ?s = "started cfg e req src dst"
  let ?tid = "\<lparr>id_source_entity_id = local_entity_id e, id_transaction_sequence_number = next_transaction_sequence_number e\<rparr>"
  have tid: "slot_id (sender ?s) = ?tid" by (simp add: started_def)
  have s: "sending ?s" "active (sender ?s)" "\<not> finished_received (sender ?s)" "\<not> sender_completion_available ?s"
    "slot_transmission_mode (sender ?s) = (if acknowledged_mode req then 0 else 1)"
    using started_ids_ok [OF e(1), of req src dst] e(2,3)
    by (simp_all add: sending_def started_def zero_slot_def)
  obtain pdus w' e' st where b:
    "run_state (send_file_body cfg plat fs req (length src) (length dst) (initial_checksum (req_checksum_type req))) (w, ?s) =
      ((st, True, acknowledged_mode req), w', e')"
    "st = (if \<not> acknowledged_mode req \<and> req_closure_requested req \<and> now_ms plat \<noteq> None
          then CCSDS_CFDP_STATUS_INACTIVITY_DETECTED else CCSDS_CFDP_STATUS_OK)"
    "emission cfg ?s req src dst c F pdus" "sent w' = sent w @ pdus" "good w'" "events w' = events w"
    "active (sender e')" "slot_id (sender e') = slot_id (sender ?s)" "file_handle_open (sender e')"
    "file_handle (sender e') = Some hdl" "filestore (sender e') = Some fs"
    using body_emits [OF hyp fits F req s(1) w s(2-5) c] by blast
  have idle: "\<not> active (sender e)" by (simp add: e(3) zero_slot_def)
  have start: "run_state (ccsds_cfdp_entity_send_file cfg plat (Some fs) req) (w, e) =
    run_state (do {
      r \<leftarrow> send_file_body cfg plat fs req (length src) (length dst) (initial_checksum (req_checksum_type req));
      let (status, handle_open, keep_sender_active) = r;
      if keep_sender_active then give (status, Some ?tid)
      else do {
        entity \<leftarrow> entity_get;
        (if handle_open \<and> file_handle_open (sender entity) then close_sender_handle plat else give ());
        entity \<leftarrow> entity_get;
        (if active (sender entity) then release_sender_terminal cfg plat status else give ());
        modify_entity (\<lambda>e. e\<lparr>sender_completion_available := False\<rparr>);
        give (status, Some ?tid)
      }
    }) (w, ?s)"
    using req idle ops
    by (simp add: ccsds_cfdp_entity_send_file_def request_ok_def path_len_valid checksum_init_eq
        ccsds_cfdp_entity_create_sender_transaction_def started_def Let_def split del: if_split)
  show ?thesis
  proof (cases "acknowledged_mode req")
    case True
    with start b show ?thesis by (simp add: tid)
  next
    case False
    let ?e1 = "e'\<lparr>sender := (sender e')\<lparr>file_handle_open := False, file_handle := None\<rparr>\<rparr>"
    have good: "good (h_close w')" using b(5) by (rule good_files(2))
    note close = run_close_sender [OF b(5,9-11)] and rel = run_release_sender [OF good, of ?e1 st]
    have "run_state (ccsds_cfdp_entity_send_file cfg plat (Some fs) req) (w, e) = ((st, Some (slot_id (sender ?s))),
        h_event \<lparr>event_type = (if st = CCSDS_CFDP_STATUS_OK then CCSDS_CFDP_EVENT_COMPLETE else CCSDS_CFDP_EVENT_FAILED),
          event_transaction_id = slot_id (sender ?s), event_status = st\<rparr> (h_close w'),
        e'\<lparr>sender := zero_slot cfg, sender_completion_available := False\<rparr>)"
      using False b(1,7-9) close rel unfolding start by (simp add: tid)
    with False b(2-6) good show ?thesis by (simp add: event_obs close_obs events_link good_link)
  qed
qed

end

end
