(* ===== verification/Cfdp_Reject.thy ===== *)
theory Cfdp_Reject
  imports Cfdp_Receive
begin

unbundle bit_operations_syntax

text \<open>
  How a reception ends without success: the failure path of \<open>receiver_finish\<close>, the complete decision an EOF PDU
  makes in unacknowledged mode, and what an acknowledgement of Finished does to a transaction that never sent one.
\<close>

definition terminal_event :: "ccsds_cfdp_transaction_id \<Rightarrow> ccsds_cfdp_status \<Rightarrow> ccsds_cfdp_event" where
  "terminal_event tid st = \<lparr>
     event_type = (if st = CCSDS_CFDP_STATUS_OK then CCSDS_CFDP_EVENT_COMPLETE else CCSDS_CFDP_EVENT_FAILED),
     event_transaction_id = tid, event_status = st\<rparr>"

text \<open>The status that EOF ends an unacknowledged reception with: \<open>F\<close> is the announced file and \<open>cov\<close> what was received of it.\<close>

definition eof_verdict ::
  "crc32_ieee_fn \<Rightarrow> (u32 \<Rightarrow> bytes \<Rightarrow> u32) \<Rightarrow> ccsds_cfdp_checksum_type \<Rightarrow> bytes \<Rightarrow> u32 set \<Rightarrow> ccsds_cfdp_eof_pdu \<Rightarrow>
     ccsds_cfdp_status" where
  "eof_verdict ieee raw t F cov eof =
     (if eof_condition_code eof \<noteq> CCSDS_CFDP_CONDITION_NO_ERROR \<or> eof_file_size eof \<noteq> word_of_nat (length F)
      then CCSDS_CFDP_STATUS_FILE_SIZE_ERROR
      else if F = [] then CCSDS_CFDP_STATUS_INVALID_ARGUMENT
      else if \<not> {0 ..< word_of_nat (length F)} \<subseteq> cov then CCSDS_CFDP_STATUS_FILE_SIZE_ERROR
      else if file_checksum eof \<noteq> file_sum ieee raw t F then CCSDS_CFDP_STATUS_CHECKSUM_FAILURE
      else CCSDS_CFDP_STATUS_OK)"

text \<open>A slot in the middle of a reception of \<open>F\<close>: \<open>cov\<close> was received, \<open>content\<close> is in the temporary file.\<close>

definition slot_receiving ::
  "cfdp_config \<Rightarrow> u64 \<Rightarrow> 'h \<Rightarrow> bytes \<Rightarrow> u32 set \<Rightarrow> ('f, 'h) ccsds_cfdp_transaction_slot \<Rightarrow> (nat \<rightharpoonup> u8) \<Rightarrow> bool" where
  "slot_receiving cfg peer hdl F cov s content \<longleftrightarrow> peer_entity_id s = peer \<and>
     active s \<and> metadata_received s \<and> file_handle_open s \<and> file_handle s = Some hdl \<and>
     \<not> eof_received s \<and> \<not> waiting_for_finished_ack s \<and> file_size s = word_of_nat (length F) \<and>
     checksum_type_is_supported (checksum_type s) \<and> cs_type (checksum_state s) = checksum_type s \<and>
     ranges_inv cfg (received_ranges s) \<and> covered (live (received_ranges s)) = cov \<and>
     (\<forall>i\<in>cov. content (unat i) = Some (F ! unat i)) \<and> (\<forall>i\<ge>length F. content i = None)"

lemma decode_ackD:
  assumes "ccsds_cfdp_decode_ack cfg pdu = Inr (p, n)"
  obtains m where "ccsds_cfdp_decode_header cfg pdu = Inr (ack_header p, m)" "pdu_type (ack_header p) = 0" "pdu ! m = 6"
    "pdu_data_field_len (ack_header p) \<noteq> 0" "m < length pdu"
proof -
  from assms obtain m where dec: "ccsds_cfdp_decode_header cfg pdu = Inr (ack_header p, m)"
    "pdu_type (ack_header p) = 0" "pdu ! m = 6" "unat (pdu_data_field_len (ack_header p)) = 3" "3 \<le> length pdu - m"
    by (auto simp: ccsds_cfdp_decode_ack_def Let_def split: if_splits sum.splits prod.splits)
  then have "pdu_data_field_len (ack_header p) \<noteq> 0" by auto
  with dec that show thesis by auto
qed

context cfdp_link
begin

lemma run_release_receiver:
  assumes "good w"
  shows "run_state (release_receiver_terminal cfg plat st) (w, e) =
    ((), h_event (terminal_event (slot_id (receiver e)) st) w, e\<lparr>receiver := zero_slot cfg\<rparr>)"
  using assms
  by (simp add: release_receiver_terminal_def run_event_emitted ccsds_cfdp_entity_release_receiver_transaction_def
      terminal_event_def)

lemma ack_finished_releases:
  assumes dec: "ccsds_cfdp_decode_ack cfg pdu = Inr (p, length pdu)"
    and hdr: "incoming_header_is_supported e (ack_header p)" "transmission_mode (ack_header p) = 0"
      "transaction_id_from_header (ack_header p) = slot_id (receiver e)"
    and ack: "acknowledged_directive p = 5" "directive_subtype p = 1"
    and w: "active (receiver e)" "good w" "receive_filestore_is_valid plat (Some f)"
  shows "run_state (ccsds_cfdp_entity_receive_pdu cfg plat (Some f) pdu) (w, e) =
    (CCSDS_CFDP_STATUS_OK, h_event (terminal_event (slot_id (receiver e)) (finished_status (receiver e))) w,
     e\<lparr>receiver := zero_slot cfg\<rparr>)"
proof -
  obtain m where m: "ccsds_cfdp_decode_header cfg pdu = Inr (ack_header p, m)" "pdu_type (ack_header p) = 0" "pdu ! m = 6"
    "pdu_data_field_len (ack_header p) \<noteq> 0" "m < length pdu"
    using dec by (rule decode_ackD)
  have "direction (ack_header p) = 0" using hdr by (simp add: incoming_header_is_supported_def)
  then show ?thesis
    using dec m hdr ack w
    by (simp add: ccsds_cfdp_entity_receive_pdu_def receiver_handle_ack_def transaction_id_matches_def run_release_receiver not_le)
qed

end

context cfdp_rx_host
begin

lemma receiving_iff: "receiving F cov s w \<longleftrightarrow> good w \<and> slot_receiving cfg peer hdl F cov s (tmp w)"
  by (auto simp: receiving_def slot_receiving_def)

lemma finished_failed:
  assumes opn: "file_handle_open (receiver e)" "file_handle (receiver e) = Some hdl" "active (receiver e)"
    and mode: "slot_transmission_mode (receiver e) \<noteq> 0" and st: "st \<noteq> CCSDS_CFDP_STATUS_OK"
    and ok: "receiver_ids_ok cfg e" "peer_entity_id (receiver e) = peer" "good w"
  shows "\<exists>w' e'. run_state (receiver_finish cfg plat fs st) (w, e) = (st, w', e') \<and>
    stored w' = stored w \<and> events w' = events w @ [terminal_event (slot_id (receiver e)) st] \<and>
    receiver e' = zero_slot cfg"
proof -
  let ?w1 = "h_discard (h_close w)"
  have obs1: "stored ?w1 = stored w" "events ?w1 = events w" "good (h_close w)" "good ?w1"
    using ok(3) by (simp_all add: discard_obs close_obs good_files)
  note laws = run_close run_discard run_release_receiver Let_def event_obs events_link send_obs good_link obs1
  show ?thesis
  proof (cases "slot_closure_requested (receiver e)")
    case False
    with opn mode st ok(3) show ?thesis by (simp add: receiver_finish_def laws)
  next
    case True
    let ?e2 = "e\<lparr>receiver := (receiver e)\<lparr>file_handle_open := False, file_handle := None, finished_status := st\<rparr>\<rparr>"
    have "receiver_ids_ok cfg ?e2" using ok(1) by (simp add: receiver_ids_ok_def)
    from finished_sent [OF this _ obs1(4), of st] ok(2) obtain bs b where
      sent: "run_state (send_finished_for_receiver_status cfg plat st) (?w1, ?e2) =
        (CCSDS_CFDP_STATUS_OK, h_send bs ?w1, ?e2\<lparr>pdu_buf := b\<rparr>)" by auto
    from True mode st opn sent ok(3) show ?thesis by (simp add: receiver_finish_def laws)
  qed
qed

lemma eof_decides:
  assumes hyp: "crc32_c_incremental (crc32_c plat) raw" "incremental (crc32_ieee_update plat)"
    and dec: "ccsds_cfdp_decode_eof cfg pdu = Inr (p, length pdu)"
    and hdr: "incoming_header_is_supported e (eof_header p)" "transaction_id_from_header (eof_header p) = slot_id (receiver e)"
    and rec: "receiving F cov (receiver e) w" and F: "length F < 2 ^ 32"
    and mode: "slot_transmission_mode (receiver e) \<noteq> 0" and ids: "receiver_ids_ok cfg e"
    and st: "st = eof_verdict (crc32_ieee_update plat) raw (checksum_type (receiver e)) F cov p"
  shows "\<exists>w' e'. run_state (ccsds_cfdp_entity_receive_pdu cfg plat (Some fs) pdu) (w, e) = (st, w', e') \<and>
    stored w' = (if st = CCSDS_CFDP_STATUS_OK then (stored w)(c_string (destination_path (receiver e)) \<mapsto> file_map F) else stored w) \<and>
    events w' = events w @ [terminal_event (slot_id (receiver e)) st] \<and> receiver e' = zero_slot cfg"
proof (cases "st = CCSDS_CFDP_STATUS_OK")
  case True
  then have ok: "eof_condition_code p = 0" "eof_file_size p = word_of_nat (length F)" "F \<noteq> []"
    "{0 ..< word_of_nat (length F)} \<subseteq> cov" "file_checksum p = file_sum (crc32_ieee_update plat) raw (checksum_type (receiver e)) F"
    using st by (auto simp: eof_verdict_def split: if_splits)
  from eof_commits [OF hyp dec hdr ok(1,2,5) rec ok(4) F ok(3) _ ids] mode True show ?thesis
    by (auto simp: terminal_event_def)
next
  case False
  obtain m where m: "ccsds_cfdp_decode_header cfg pdu = Inr (eof_header p, m)" "pdu_type (eof_header p) = 0" "pdu ! m = 4"
    "pdu_data_field_len (eof_header p) \<noteq> 0" "m < length pdu"
    using dec by (rule decode_eofD)
  have dir: "direction (eof_header p) = 0" using hdr by (simp add: incoming_header_is_supported_def)
  have s: "active (receiver e)" "metadata_received (receiver e)" "file_handle_open (receiver e)"
    "file_handle (receiver e) = Some hdl" "\<not> waiting_for_finished_ack (receiver e)"
    "file_size (receiver e) = word_of_nat (length F)" "checksum_type_is_supported (checksum_type (receiver e))"
    "ranges_inv cfg (received_ranges (receiver e))" "covered (live (received_ranges (receiver e))) = cov"
    "good w" "peer_entity_id (receiver e) = peer"
    using rec by (simp_all add: receiving_def)
  have match: "receiver_match_active e (eof_header p) = CCSDS_CFDP_STATUS_OK"
    using s hdr(2) by (simp add: receiver_match_active_def transaction_id_matches_def)
  let ?e1 = "e\<lparr>receiver := (receiver e)\<lparr>eof_checksum := file_checksum p\<rparr>\<rparr>"
  obtain w1 b1 where fin: "run_state (receiver_handle_eof cfg plat fs pdu) (w, e) =
      run_state (receiver_finish cfg plat fs st) (w1, ?e1\<lparr>file_segment_buf := b1\<rparr>)" "same_obs w w1"
  proof -
    have compl: "ccsds_cfdp_ranges_is_complete cfg (received_ranges (receiver e)) 0 (word_of_nat (length F)) =
        (if F = [] then Inl CCSDS_CFDP_STATUS_INVALID_ARGUMENT else Inr ({0 ..< word_of_nat (length F)} \<subseteq> cov))"
      if "length F < 2 ^ 32"
    proof (cases "F = []")
      case True
      then show ?thesis by (simp add: ccsds_cfdp_ranges_is_complete_def range_is_valid_def)
    next
      case False
      then have "0 < (word_of_nat (length F) :: u32)"
        using that unat_offset [of F "length F"] by (simp add: word_less_nat_alt)
      with ranges_is_complete_correct [OF s(8) this] False s(9) show ?thesis by simp
    qed
    note compl = compl [OF F]
    have self: "run_state (receiver_finish cfg plat fs st) (w, ?e1) =
        run_state (receiver_finish cfg plat fs st) (w, ?e1\<lparr>file_segment_buf := file_segment_buf e\<rparr>)" by simp
    note start = hdr(1) dec match
    consider (size) "eof_condition_code p \<noteq> 0 \<or> eof_file_size p \<noteq> word_of_nat (length F)" "st = CCSDS_CFDP_STATUS_FILE_SIZE_ERROR"
      | (empty) "eof_condition_code p = 0" "eof_file_size p = word_of_nat (length F)" "F = []" "st = CCSDS_CFDP_STATUS_INVALID_ARGUMENT"
      | (gap) "eof_condition_code p = 0" "eof_file_size p = word_of_nat (length F)" "F \<noteq> []"
          "\<not> {0 ..< word_of_nat (length F)} \<subseteq> cov" "st = CCSDS_CFDP_STATUS_FILE_SIZE_ERROR"
      | (sum) "eof_condition_code p = 0" "eof_file_size p = word_of_nat (length F)" "F \<noteq> []" "{0 ..< word_of_nat (length F)} \<subseteq> cov"
          "file_checksum p \<noteq> file_sum (crc32_ieee_update plat) raw (checksum_type (receiver e)) F" "st = CCSDS_CFDP_STATUS_CHECKSUM_FAILURE"
      using False st by (auto simp: eof_verdict_def split: if_splits)
    then show thesis
    proof cases
      case size
      then have "run_state (receiver_handle_eof cfg plat fs pdu) (w, e) = run_state (receiver_finish cfg plat fs st) (w, ?e1)"
        using start s mode by (simp add: receiver_handle_eof_def)
      with self that [of w "file_segment_buf e"] show thesis by (simp add: same_obs_def)
    next
      case empty
      then have "run_state (receiver_handle_eof cfg plat fs pdu) (w, e) = run_state (receiver_finish cfg plat fs st) (w, ?e1)"
        using start s mode compl by (simp add: receiver_handle_eof_def)
      with self that [of w "file_segment_buf e"] show thesis by (simp add: same_obs_def)
    next
      case gap
      then have "run_state (receiver_handle_eof cfg plat fs pdu) (w, e) = run_state (receiver_finish cfg plat fs st) (w, ?e1)"
        using start s mode compl by (simp add: receiver_handle_eof_def)
      with self that [of w "file_segment_buf e"] show thesis by (simp add: same_obs_def)
    next
      case sum
      have "tmp w = file_map F" by (rule receiving_complete [OF rec sum(4) F])
      with verified [OF hyp, of ?e1 F w "file_checksum p"] s F sum(5) obtain w' b where
        ver: "run_state (receiver_verify_complete_file cfg plat (fs_ops plat fs) (file_checksum p)) (w, ?e1) =
          (CCSDS_CFDP_STATUS_CHECKSUM_FAILURE, w', ?e1\<lparr>file_segment_buf := b\<rparr>)" "same_obs w w'" by auto
      from sum have "run_state (receiver_handle_eof cfg plat fs pdu) (w, e) =
          run_state (receiver_finish cfg plat fs st) (w', ?e1\<lparr>file_segment_buf := b\<rparr>)"
        using start s mode compl ver(1) by (simp add: receiver_handle_eof_def)
      with ver(2) that show thesis by blast
    qed
  qed
  let ?e2 = "?e1\<lparr>file_segment_buf := b1\<rparr>"
  have "receiver_ids_ok cfg ?e2" "good w1" using ids fin(2) s(10) by (simp_all add: receiver_ids_ok_def same_obs_def)
  from finished_failed [OF _ _ _ _ False this(1) _ this(2)] s mode obtain w' e' where
    res: "run_state (receiver_finish cfg plat fs st) (w1, ?e2) = (st, w', e')" "stored w' = stored w1"
      "events w' = events w1 @ [terminal_event (slot_id (receiver e)) st]" "receiver e' = zero_slot cfg" by auto
  have "\<not> active (receiver e')" by (simp add: res(4) zero_slot_def)
  with m dir hdr(1) fin(1) res(1)
  have "run_state (ccsds_cfdp_entity_receive_pdu cfg plat (Some fs) pdu) (w, e) = (st, w', e')"
    by (simp add: ccsds_cfdp_entity_receive_pdu_def ops_present Let_def not_le receiver_active_matches_header_def)
  with res fin(2) False show ?thesis by (simp add: same_obs_def)
qed

end

end
