(* ===== verification/Cfdp_Transfer.thy ===== *)
theory Cfdp_Transfer
  imports Cfdp_Service Cfdp_Send Cfdp_Reject
begin

unbundle bit_operations_syntax

text \<open>
  Complete CFDP transfers.  The service of \<open>Cfdp_Service\<close>, with its Space Packet adapter as the transport, is shown to be
  a host in the sense of \<open>Cfdp_Receive\<close> and \<open>Cfdp_Send\<close> when the application gives it a filestore in memory; the
  properties of whole transfers hold for every host.
\<close>

section \<open>An application with its files in memory\<close>

record mem_app =
  mem_source :: "bytes \<rightharpoonup> bytes"
  mem_opened :: bytes
  mem_tmp :: "nat \<rightharpoonup> u8"
  mem_stored :: "bytes \<rightharpoonup> (nat \<rightharpoonup> u8)"
  mem_packets :: "bytes list"
  mem_events :: "ccsds_cfdp_event list"

datatype mem_handle = Source_Handle | Tmp_Handle

text \<open>A program that only touches the application's part of the state.\<close>

definition app_program :: "('x \<Rightarrow> 'a \<times> 'x) \<Rightarrow> ('x, 'f, 'h, 'a) service_program" where
  "app_program f = do {
     s \<leftarrow> State_Monad.get;
     let (a, x) = f (fst (fst s));
     State_Monad.set ((x, snd (fst s)), snd s);
     give a
   }"

lemma run_app_program [simp]:
  "run_state (app_program f) ((x, svc), e) = (fst (f x), (snd (f x), svc), e)"
  by (simp add: app_program_def split: prod.splits)

definition mem_open_read :: "bytes \<Rightarrow> mem_app \<Rightarrow> (int \<times> mem_handle option \<times> u32) \<times> mem_app" where
  "mem_open_read p x =
     (case mem_source x p of
        None \<Rightarrow> ((- 2, None, 0), x)
      | Some F \<Rightarrow> ((0, Some Source_Handle, word_of_nat (length F)), x\<lparr>mem_opened := F\<rparr>))"

fun defined_prefix :: "(nat \<rightharpoonup> u8) \<Rightarrow> nat \<Rightarrow> nat \<Rightarrow> bytes" where
  "defined_prefix m off 0 = []"
| "defined_prefix m off (Suc n) = (case m off of None \<Rightarrow> [] | Some b \<Rightarrow> b # defined_prefix m (Suc off) n)"

definition mem_read :: "mem_handle option \<Rightarrow> u32 \<Rightarrow> nat \<Rightarrow> mem_app \<Rightarrow> (int \<times> bytes \<times> nat) \<times> mem_app" where
  "mem_read h off n x =
     (case h of
        None \<Rightarrow> ((- 22, [], 0), x)
      | Some k \<Rightarrow>
          let d = (case k of Source_Handle \<Rightarrow> take n (drop (unat off) (mem_opened x))
                   | Tmp_Handle \<Rightarrow> defined_prefix (mem_tmp x) (unat off) n)
          in ((0, d, length d), x))"

definition mem_write :: "u32 \<Rightarrow> bytes \<Rightarrow> mem_app \<Rightarrow> mem_app" where
  "mem_write off d x = x\<lparr>mem_tmp := overlay off d (mem_tmp x)\<rparr>"

definition mem_commit :: "bytes \<Rightarrow> mem_app \<Rightarrow> mem_app" where
  "mem_commit p x = x\<lparr>mem_stored := (mem_stored x)(p \<mapsto> mem_tmp x), mem_tmp := Map.empty\<rparr>"

definition mem_fs_ops :: "(mem_app \<times> unit ccsds_cfdp_service, unit, mem_handle) ccsds_cfdp_filestore_ops" where
  "mem_fs_ops = \<lparr>
     fs_open_read = Some (\<lambda>p. app_program (mem_open_read p)),
     fs_open_write_tmp = Some (\<lambda>p. app_program (\<lambda>x. ((0, Some Tmp_Handle), x\<lparr>mem_tmp := Map.empty\<rparr>))),
     fs_read = Some (\<lambda>h off n. app_program (mem_read h off n)),
     fs_write = Some (\<lambda>h off d. app_program (\<lambda>x. (0, mem_write off d x))),
     fs_close = Some (\<lambda>h. app_program (\<lambda>x. (0, x))),
     fs_commit_tmp = Some (\<lambda>p. app_program (\<lambda>x. (0, mem_commit p x))),
     fs_discard_tmp = Some (\<lambda>p. app_program (\<lambda>x. (0, x\<lparr>mem_tmp := Map.empty\<rparr>)))\<rparr>"

definition mem_callbacks :: "(mem_app, unit, mem_handle) packet_callbacks" where
  "mem_callbacks = \<lparr>
     send_packet = Some (\<lambda>bs. app_program (\<lambda>x. (RC_OK, x\<lparr>mem_packets := mem_packets x @ [bs]\<rparr>))),
     packet_now_ms = None\<rparr>"

text \<open>Routines for the CRC checksum types: any that can be run segment by segment serve.\<close>

definition sum_crc :: "u32 \<Rightarrow> bytes \<Rightarrow> u32" where
  "sum_crc = foldl (\<lambda>v b. v + ucast b)"

definition mem_platform :: "cfdp_config \<Rightarrow> (mem_app, unit, mem_handle) service_platform" where
  "mem_platform cfg = ccsds_cfdp_space_packet_adapter_ut_ops cfg mem_callbacks \<lparr>
     send_pdu = None,
     now_ms = None,
     event_cb = Some (\<lambda>ev. app_program (\<lambda>x. ((), x\<lparr>mem_events := mem_events x @ [ev]\<rparr>))),
     fs_ops = (\<lambda>_. mem_fs_ops),
     crc32_c = (\<lambda>v d f l. sum_crc (if f then 0xffffffff else v) d),
     crc32_ieee_update = sum_crc\<rparr>"

lemma sum_crc_incremental: "incremental sum_crc" "crc32_c_incremental (crc32_c (mem_platform cfg)) sum_crc"
  "crc32_ieee_update (mem_platform cfg) = sum_crc"
proof -
  show inc: "incremental sum_crc" by (simp add: incremental_def sum_crc_def)
  show "crc32_ieee_update (mem_platform cfg) = sum_crc"
    by (simp add: mem_platform_def ccsds_cfdp_space_packet_adapter_ut_ops_def)
  show "crc32_c_incremental (crc32_c (mem_platform cfg)) sum_crc"
    using inc by (simp add: crc32_c_incremental_def mem_platform_def ccsds_cfdp_space_packet_adapter_ut_ops_def)
qed

section \<open>The service is a host\<close>

type_synonym mem_world = "mem_app \<times> unit ccsds_cfdp_service"

definition on_app :: "(mem_app \<Rightarrow> mem_app) \<Rightarrow> mem_world \<Rightarrow> mem_world" where
  "on_app f w = (f (fst w), snd w)"

definition world_send :: "bytes \<Rightarrow> mem_world \<Rightarrow> mem_world" where
  "world_send pdu w =
     ((fst w)\<lparr>mem_packets := mem_packets (fst w) @ [packet_bytes (adapter_packet (adapter (snd w)) pdu)]\<rparr>,
      (snd w)\<lparr>adapter := adapter_after (adapter (snd w)) pdu\<rparr>)"

definition world_event :: "ccsds_cfdp_event \<Rightarrow> mem_world \<Rightarrow> mem_world" where
  "world_event ev = on_app (\<lambda>x. x\<lparr>mem_events := mem_events x @ [ev]\<rparr>)"

definition world_open_tmp :: "bytes \<Rightarrow> mem_world \<Rightarrow> mem_world" where
  "world_open_tmp p = on_app (\<lambda>x. x\<lparr>mem_tmp := Map.empty\<rparr>)"

definition world_read :: "mem_handle \<Rightarrow> u32 \<Rightarrow> nat \<Rightarrow> mem_world \<Rightarrow> bytes \<times> nat \<times> mem_world" where
  "world_read h off n w = (case fst (mem_read (Some h) off n (fst w)) of (_, d, k) \<Rightarrow> (d, k, w))"

definition world_open_read :: "bytes \<Rightarrow> mem_world \<Rightarrow> mem_world" where
  "world_open_read p = on_app (\<lambda>x. snd (mem_open_read p x))"

definition packet_payload :: "bytes \<Rightarrow> bytes" where
  "packet_payload bs = (case ccsds_space_packet_decode bs of Inl _ \<Rightarrow> [] | Inr p \<Rightarrow> payload p)"

lemmas world_defs = on_app_def world_send_def world_event_def world_open_tmp_def world_open_read_def
lemmas mem_defs = mem_platform_def ccsds_cfdp_space_packet_adapter_ut_ops_def mem_fs_ops_def mem_callbacks_def

interpretation mem_link: cfdp_link default_cfdp_config "mem_platform default_cfdp_config" peer
  "\<lambda>w. adapter_ok default_cfdp_config peer (adapter (snd w))" world_send world_event "\<lambda>w. 0" "\<lambda>w. mem_events (fst w)" for peer
proof unfold_locales
  fix w :: mem_world and e :: "(unit, mem_handle) ccsds_cfdp_entity" and bs ev
  obtain x svc where w: "w = (x, svc)" by force
  assume "adapter_ok default_cfdp_config peer (adapter (snd w))"
  then show "run_state (the (event_cb (mem_platform default_cfdp_config)) ev) (w, e) = ((), world_event ev w, e)"
    by (simp add: mem_defs world_defs w)
next
  fix w :: mem_world and e :: "(unit, mem_handle) ccsds_cfdp_entity" and bs :: bytes
  obtain x svc where w: "w = (x, svc)" by force
  assume "adapter_ok default_cfdp_config peer (adapter (snd w))" "bs \<noteq> []"
    "length bs \<le> CCSDS_CFDP_MAX_PDU_SIZE default_cfdp_config"
  from run_adapter_send [of default_cfdp_config peer svc bs mem_callbacks x e, OF _ cfdp_config_ok_default this(2,3)] this(1)
  show "run_state (the (send_pdu (mem_platform default_cfdp_config)) peer bs) (w, e) = (RC_OK, world_send bs w, e)"
    by (simp add: mem_defs world_defs w)
qed (auto simp: cfdp_config_ok_default mem_defs world_defs adapter_ok_after)

lemma defined_prefix_eq:
  "(\<And>i. i < n \<Longrightarrow> m (off + i) \<noteq> None) \<Longrightarrow> defined_prefix m off n = map (\<lambda>i. the (m (off + i))) [0 ..< n]"
proof (induction n arbitrary: off)
  case (Suc n)
  have "m (Suc off + i) \<noteq> None" if "i < n" for i using Suc.prems [of "Suc i"] that by simp
  with Suc.IH have "defined_prefix m (Suc off) n = map (\<lambda>i. the (m (Suc off + i))) [0 ..< n]" by blast
  moreover have "m off \<noteq> None" using Suc.prems [of 0] by simp
  ultimately show ?case by (auto simp: upt_conv_Cons map_Suc_upt [symmetric] simp del: upt_Suc)
qed simp

interpretation mem_rx: cfdp_rx_host default_cfdp_config "mem_platform default_cfdp_config" peer
  "\<lambda>w. adapter_ok default_cfdp_config peer (adapter (snd w))" world_send world_event "\<lambda>w. 0" "\<lambda>w. mem_events (fst w)"
  "()" Tmp_Handle world_open_tmp "\<lambda>off d. on_app (mem_write off d)" "world_read Tmp_Handle" "\<lambda>w. w" "\<lambda>p. on_app (mem_commit p)"
  "on_app (\<lambda>x. x\<lparr>mem_tmp := Map.empty\<rparr>)"
  "\<lambda>w. mem_tmp (fst w)" "\<lambda>w. mem_stored (fst w)" for peer
proof unfold_locales
  fix n :: nat and w w' :: mem_world and off :: u32 and d k
  assume n: "0 < n" "\<And>i. i < n \<Longrightarrow> mem_tmp (fst w) (unat off + i) \<noteq> None" "world_read Tmp_Handle off n w = (d, k, w')"
  have "defined_prefix (mem_tmp (fst w)) (unat off) n = map (\<lambda>i. the (mem_tmp (fst w) (unat off + i))) [0 ..< n]"
    using n(2) by (rule defined_prefix_eq)
  with n show "0 < k \<and> k \<le> n \<and> k \<le> length d \<and> (\<forall>i<k. mem_tmp (fst w) (unat off + i) = Some (d ! i)) \<and>
      mem_tmp (fst w') = mem_tmp (fst w) \<and> mem_stored (fst w') = mem_stored (fst w) \<and>
      mem_events (fst w') = mem_events (fst w) \<and>
      (adapter_ok default_cfdp_config peer (adapter (snd w)) \<longrightarrow> adapter_ok default_cfdp_config peer (adapter (snd w')))"
    by (auto simp: world_read_def mem_read_def Let_def)
qed (auto simp: mem_defs world_defs receive_filestore_is_valid_def world_read_def mem_read_def Let_def mem_write_def mem_commit_def)

lemma payload_of_adapter_packet:
  assumes "adapter_ok cfg peer ad" "cfdp_config_ok cfg" "pdu \<noteq> []" "length pdu \<le> CCSDS_CFDP_MAX_PDU_SIZE cfg"
  shows "packet_payload (packet_bytes (adapter_packet ad pdu)) = pdu"
  using packet_decode_bytes [OF adapter_packet_ok [OF assms], of "[]"] by (simp add: packet_payload_def adapter_packet_def)

interpretation mem_tx: cfdp_tx_host default_cfdp_config "mem_platform default_cfdp_config" peer
  "\<lambda>w. adapter_ok default_cfdp_config peer (adapter (snd w))" world_send world_event "\<lambda>w. 0" "\<lambda>w. mem_events (fst w)"
  "()" Source_Handle world_open_read "world_read Source_Handle" "\<lambda>w. w"
  "\<lambda>w. mem_source (fst w)" "\<lambda>w. mem_opened (fst w)" "\<lambda>w. map packet_payload (mem_packets (fst w))" for peer
proof unfold_locales
  fix n :: nat and w w' :: mem_world and off :: u32 and d k
  assume "0 < n" "unat off + n \<le> length (mem_opened (fst w))" "world_read Source_Handle off n w = (d, k, w')"
  then show "0 < k \<and> k \<le> n \<and> k \<le> length d \<and> take k d = take k (drop (unat off) (mem_opened (fst w))) \<and>
      mem_opened (fst w') = mem_opened (fst w) \<and>
      map packet_payload (mem_packets (fst w')) = map packet_payload (mem_packets (fst w)) \<and>
      mem_events (fst w') = mem_events (fst w) \<and>
      (adapter_ok default_cfdp_config peer (adapter (snd w)) \<longrightarrow> adapter_ok default_cfdp_config peer (adapter (snd w')))"
    by (auto simp: world_read_def mem_read_def Let_def)
next
  fix w :: mem_world and bs :: bytes
  assume "adapter_ok default_cfdp_config peer (adapter (snd w))" "bs \<noteq> []" "length bs \<le> CCSDS_CFDP_MAX_PDU_SIZE default_cfdp_config"
  then show "map packet_payload (mem_packets (fst (world_send bs w))) = map packet_payload (mem_packets (fst w)) @ [bs]"
    using payload_of_adapter_packet [OF _ cfdp_config_ok_default] by (auto simp: world_send_def)
qed (auto simp: mem_defs world_defs filestore_is_valid_def world_read_def mem_read_def Let_def mem_open_read_def split: option.split)

section \<open>Properties\<close>

text \<open>
  C3. Reception of a file.  On every host whose filestore keeps what is written and whose transport accepts PDUs, an
  idle entity that is given Metadata, File Data PDUs whose segments are pieces of the file \<open>F\<close> and together cover it, in
  any order and with any overlaps the range table can hold, and EOF with the file's size and checksum, accepts every
  PDU and stores exactly \<open>F\<close> under the destination name.  In unacknowledged mode it then reports completion and is idle
  again; in acknowledged mode it waits for the acknowledgement of its Finished PDU.
\<close>

theorem cfdp_receive_delivers:
  assumes host: "cfdp_rx_host cfg plat peer good h_send h_event h_now events fs hdl h_open h_write h_read h_close h_commit h_discard tmp stored"
    and crc: "crc32_c_incremental (crc32_c plat) raw" "incremental (crc32_ieee_update plat)"
    and F: "length F < 2 ^ 32" "F \<noteq> []"
    and ent: "entity_ids_ok cfg e" "receiver e = zero_slot cfg" "good w" "remote_entity_id e = peer"
    and pdus: "transfer_pdus cfg e (crc32_ieee_update plat) raw F md pdus"
  shows "\<exists>w' e'. run_state (receive_pdus cfg plat (Some fs) pdus) (w, e) =
      (replicate (length pdus) CCSDS_CFDP_STATUS_OK, w', e') \<and>
    stored w' = (stored w)(destination_filename md \<mapsto> file_map F) \<and>
    (if transmission_mode (md_header md) = CCSDS_CFDP_TRANSMISSION_MODE_ACKNOWLEDGED
     then ccsds_cfdp_transaction_slot.active (receiver e') \<and> waiting_for_finished_ack (receiver e') \<and>
       slot_id (receiver e') = transaction_id_from_header (md_header md) \<and>
       finished_status (receiver e') = CCSDS_CFDP_STATUS_OK \<and> events w' = events w
     else receiver e' = zero_slot cfg \<and>
       events w' = events w @ [\<lparr>event_type = CCSDS_CFDP_EVENT_COMPLETE,
         event_transaction_id = transaction_id_from_header (md_header md), event_status = CCSDS_CFDP_STATUS_OK\<rparr>])"
  using cfdp_rx_host.reception_delivers [OF host crc F ent pdus] by blast

text \<open>
  C2. A whole transfer.  Two entities that are each other's peer, on any two hosts: a put request for a non-empty file
  of the sending host gives its transport a sequence of PDUs, and when these are received in order, every one is accepted
  and the receiving host ends up with exactly the file's content under the requested name.  The put request itself
  succeeds, except that a request for closure in unacknowledged mode on a platform with a clock ends with
  \<^verbatim>\<open>INACTIVITY_DETECTED\<close>.
\<close>

theorem cfdp_transfer_delivers:
  assumes a_host: "cfdp_tx_host cfg pa a_peer a_good a_send a_event a_now a_events a_fs a_hdl a_open a_read a_close source opened sent"
    and b_host: "cfdp_rx_host cfg pb b_peer b_good b_send b_event b_now b_events b_fs b_hdl b_open b_write b_read b_close b_commit b_discard tmp stored"
    and crc: "crc32_c_incremental (crc32_c pa) raw" "crc32_c_incremental (crc32_c pb) raw" "incremental (crc32_ieee_update pa)"
      "crc32_ieee_update pb = crc32_ieee_update pa"
    and fits: "cfdp_config_fits cfg" and F: "length F < 2 ^ 32" "F \<noteq> []" "source wa src = Some F"
    and req: "request_ok cfg req src dst"
    and a: "entity_ids_ok cfg a" "remote_entity_id a = a_peer" "sender a = zero_slot cfg" "a_good wa"
    and b: "entity_ids_ok cfg b" "receiver b = zero_slot cfg" "b_good wb" "remote_entity_id b = b_peer"
    and peers: "peers a b"
  shows "\<exists>status tid wa' a' pdus wb' b'.
    run_state (ccsds_cfdp_entity_send_file cfg pa (Some a_fs) req) (wa, a) = ((status, Some tid), wa', a') \<and>
    status = (if \<not> acknowledged_mode req \<and> req_closure_requested req \<and> now_ms pa \<noteq> None
      then CCSDS_CFDP_STATUS_INACTIVITY_DETECTED else CCSDS_CFDP_STATUS_OK) \<and>
    sent wa' = sent wa @ pdus \<and>
    run_state (receive_pdus cfg pb (Some b_fs) pdus) (wb, b) = (replicate (length pdus) CCSDS_CFDP_STATUS_OK, wb', b') \<and>
    stored wb' = (stored wb)(dst \<mapsto> file_map F)"
proof -
  let ?c = "file_sum (crc32_ieee_update pa) raw (req_checksum_type req) F"
  let ?s = "started cfg a req src dst"
  let ?md = "metadata_norm (metadata_for ?s req src dst F)"
  obtain pdus wa' a' status where tx:
    "run_state (ccsds_cfdp_entity_send_file cfg pa (Some a_fs) req) (wa, a) = ((status, Some (slot_id (sender ?s))), wa', a')"
    "status = (if \<not> acknowledged_mode req \<and> req_closure_requested req \<and> now_ms pa \<noteq> None
      then CCSDS_CFDP_STATUS_INACTIVITY_DETECTED else CCSDS_CFDP_STATUS_OK)"
    "emission cfg ?s req src dst ?c F pdus" "sent wa' = sent wa @ pdus"
    using cfdp_tx_host.send_file_emits [OF a_host crc(1,3) fits F(1,3) req a refl] by blast
  have link: "cfdp_config_ok cfg"
    using b_host by (simp add: cfdp_rx_host_def cfdp_link_def)
  have "peers ?s b" using peers by (simp add: peers_def started_def)
  from emission_transfer [OF link tx(3) started_ids_ok [OF a(1)] this req F(1) refl]
  have "transfer_pdus cfg b (crc32_ieee_update pb) raw F ?md pdus" by (simp add: crc(4))
  moreover have "destination_filename ?md = dst" by (simp add: metadata_norm_def metadata_for_def)
  moreover have "incremental (crc32_ieee_update pb)" using crc(3,4) by simp
  ultimately obtain wb' b' where
    "run_state (receive_pdus cfg pb (Some b_fs) pdus) (wb, b) = (replicate (length pdus) CCSDS_CFDP_STATUS_OK, wb', b')"
    "stored wb' = (stored wb)(dst \<mapsto> file_map F)"
    using cfdp_rx_host.reception_delivers [OF b_host crc(2) _ F(1,2) b] by metis
  with tx show ?thesis by blast
qed

section \<open>Services from their initialisation\<close>

text \<open>
  C21. What initialisation establishes.  When \<^verbatim>\<open>ccsds_cfdp_service_init\<close> succeeds, the adapter can encode every packet for
  its peer, the entity's numbers fit their fields, both transaction slots are free and the sequence numbers start at the
  configured values: the state every transfer starts from.
\<close>

theorem service_init_ready:
  assumes "ccsds_cfdp_service_init cfg cb app config = Inr (svc, e)"
  shows "adapter_ok cfg (remote_entity_id e) (adapter svc) \<and> entity_ids_ok cfg e \<and>
    sender e = zero_slot cfg \<and> receiver e = zero_slot cfg \<and> \<not> sender_completion_available e \<and>
    local_entity_id e = scfg_local_entity_id config \<and> remote_entity_id e = scfg_remote_entity_id config \<and>
    next_transaction_sequence_number e = scfg_initial_transaction_sequence_number config \<and>
    ad_sequence_count (adapter svc) = scfg_initial_packet_sequence_count config"
  using assms
  by (auto simp: ccsds_cfdp_service_init_def ccsds_cfdp_space_packet_adapter_init_def ccsds_cfdp_entity_init_def
      adapter_ok_def entity_ids_ok_def split: if_splits sum.splits)

definition node_config :: "u64 \<Rightarrow> u64 \<Rightarrow> u16 \<Rightarrow> u16 \<Rightarrow> unit ccsds_cfdp_service_config" where
  "node_config l r la ra = \<lparr>
     scfg_local_entity_id = l, scfg_remote_entity_id = r, scfg_entity_id_len = 1,
     scfg_transaction_sequence_number_len = 2, scfg_initial_transaction_sequence_number = 7,
     scfg_local_apid = la, scfg_remote_apid = ra, scfg_packet_type = CCSDS_PACKET_TYPE_TM,
     scfg_initial_packet_sequence_count = 0x3fff, scfg_receive_filestore = Some ()\<rparr>"

definition mem_node :: "u64 \<Rightarrow> u64 \<Rightarrow> u16 \<Rightarrow> u16 \<Rightarrow> unit ccsds_cfdp_service \<times> (unit, mem_handle) ccsds_cfdp_entity" where
  "mem_node l r la ra =
     projr (ccsds_cfdp_service_init default_cfdp_config mem_callbacks (mem_platform default_cfdp_config) (node_config l r la ra))"

definition mem_app_with :: "(bytes \<rightharpoonup> bytes) \<Rightarrow> mem_app" where
  "mem_app_with files = \<lparr>mem_source = files, mem_opened = [], mem_tmp = Map.empty, mem_stored = Map.empty,
     mem_packets = [], mem_events = []\<rparr>"

lemmas node_defs = ccsds_cfdp_service_init_def ccsds_cfdp_space_packet_adapter_init_def ccsds_cfdp_entity_init_def
  node_config_def mem_callbacks_def ccsds_cfdp_space_packet_adapter_ut_ops_def default_cfdp_config_def
  encoded_int_len_is_valid_def value_fits_len_def CCSDS_APID_MAX_def

lemma mem_nodes:
  "ccsds_cfdp_service_init default_cfdp_config mem_callbacks (mem_platform default_cfdp_config) (node_config 1 2 10 20) =
     Inr (mem_node 1 2 10 20)"
  "ccsds_cfdp_service_init default_cfdp_config mem_callbacks (mem_platform default_cfdp_config) (node_config 2 1 20 10) =
     Inr (mem_node 2 1 20 10)"
  by (simp_all add: mem_node_def node_defs)

lemma mem_nodes_peers: "peers (snd (mem_node 1 2 10 20)) (snd (mem_node 2 1 20 10))"
  by (simp add: mem_node_def node_defs peers_def)

lemma mem_nodes_ready:
  "adapter_ok default_cfdp_config 2 (adapter (fst (mem_node 1 2 10 20)))" "adapter_ok default_cfdp_config 1 (adapter (fst (mem_node 2 1 20 10)))"
  "entity_ids_ok default_cfdp_config (snd (mem_node 1 2 10 20))" "entity_ids_ok default_cfdp_config (snd (mem_node 2 1 20 10))"
  "remote_entity_id (snd (mem_node 1 2 10 20)) = 2" "remote_entity_id (snd (mem_node 2 1 20 10)) = 1"
  "sender (snd (mem_node 1 2 10 20)) = zero_slot default_cfdp_config" "receiver (snd (mem_node 2 1 20 10)) = zero_slot default_cfdp_config"
  by (simp_all add: mem_node_def node_defs adapter_ok_def entity_ids_ok_def)

theorem service_init_ready_witness:
  "adapter_ok default_cfdp_config 2 (adapter (fst (mem_node 1 2 10 20))) \<and>
   next_transaction_sequence_number (snd (mem_node 1 2 10 20)) = 7 \<and>
   ad_sequence_count (adapter (fst (mem_node 1 2 10 20))) = 0x3fff"
proof -
  obtain svc e where n: "mem_node 1 2 10 20 = (svc, e)" by force
  from service_init_ready [OF mem_nodes(1) [unfolded n]] show ?thesis by (auto simp: n node_config_def)
qed

definition sample_request :: ccsds_cfdp_put_request where
  "sample_request = \<lparr>req_source_path = Some [65], req_destination_path = Some [66],
     req_checksum_type = CCSDS_CFDP_CHECKSUM_TYPE_MODULAR, req_closure_requested = False, acknowledged_mode = True\<rparr>"

lemma sample_request_ok: "request_ok default_cfdp_config sample_request [65] [66]"
  by (simp add: request_ok_def sample_request_def filename_len_is_valid_def default_cfdp_config_def)

theorem cfdp_transfer_delivers_witness:
  "\<exists>tid wa' a' pdus wb' b'.
    run_state (ccsds_cfdp_entity_send_file default_cfdp_config (mem_platform default_cfdp_config) (Some ()) sample_request)
      ((mem_app_with [[65] \<mapsto> [1, 2, 3]], fst (mem_node 1 2 10 20)), snd (mem_node 1 2 10 20)) =
        ((CCSDS_CFDP_STATUS_OK, Some tid), wa', a') \<and>
    map packet_payload (mem_packets (fst wa')) = pdus \<and>
    run_state (receive_pdus default_cfdp_config (mem_platform default_cfdp_config) (Some ()) pdus)
      ((mem_app_with Map.empty, fst (mem_node 2 1 20 10)), snd (mem_node 2 1 20 10)) =
        (replicate (length pdus) CCSDS_CFDP_STATUS_OK, wb', b') \<and>
    mem_stored (fst wb') = [[66] \<mapsto> file_map [1, 2, 3]]"
  using cfdp_transfer_delivers [OF mem_tx.cfdp_tx_host_axioms mem_rx.cfdp_rx_host_axioms sum_crc_incremental(2,2) _ _
      cfdp_config_fits_default _ _ _ sample_request_ok mem_nodes_ready(3,5,7) _ mem_nodes_ready(4,8) _ mem_nodes_ready(6) mem_nodes_peers,
      of "[1, 2, 3]" "(mem_app_with [[65] \<mapsto> [1, 2, 3]], fst (mem_node 1 2 10 20))" "(mem_app_with Map.empty, fst (mem_node 2 1 20 10))"]
  by (auto simp: sum_crc_incremental mem_nodes_ready mem_app_with_def sample_request_def)

definition sample_header :: "u8 \<Rightarrow> u16 \<Rightarrow> ccsds_cfdp_pdu_header" where
  "sample_header ty n = \<lparr>hdr_version = 1, pdu_type = ty, direction = 0, transmission_mode = 1, crc_flag = 0,
     file_size_mode = 0, pdu_data_field_len = n, segmentation_control = 0, segment_metadata_present = False,
     entity_id_len = 1, transaction_sequence_number_len = 2, source_entity_id = 1, transaction_sequence_number = 7,
     destination_entity_id = 2\<rparr>"

lemmas pdu_eval = ccsds_cfdp_encode_header_def sample_header_def default_cfdp_config_def header_lengths_are_valid_def
  encoded_int_len_is_valid_def value_fits_len_def ccsds_cfdp_header_encoded_len_def write_be_uint_def put_be64_def
  put_be32_def put_be16_def

lemma sample_pdus:
  "ccsds_cfdp_encode_metadata default_cfdp_config \<lparr>md_header = sample_header 0 10, closure_requested = False,
     md_checksum_type = CCSDS_CFDP_CHECKSUM_TYPE_MODULAR, md_file_size = 3, source_filename = [65], destination_filename = [66]\<rparr> 512 =
   Inr [0x24, 0, 10, 1, 1, 0, 7, 2, 7, 0, 0, 0, 0, 3, 1, 65, 1, 66]"
  "ccsds_cfdp_encode_filedata default_cfdp_config \<lparr>fd_header = sample_header 1 5, fd_offset = 2, fd_data = [3]\<rparr> 512 =
   Inr [0x34, 0, 5, 1, 1, 0, 7, 2, 0, 0, 0, 2, 3]"
  "ccsds_cfdp_encode_filedata default_cfdp_config \<lparr>fd_header = sample_header 1 6, fd_offset = 0, fd_data = [1, 2]\<rparr> 512 =
   Inr [0x34, 0, 6, 1, 1, 0, 7, 2, 0, 0, 0, 0, 1, 2]"
  "ccsds_cfdp_encode_eof default_cfdp_config \<lparr>eof_header = sample_header 0 10, eof_condition_code = 0,
     file_checksum = 0x01020300, eof_file_size = 3\<rparr> 512 =
   Inr [0x24, 0, 10, 1, 1, 0, 7, 2, 4, 0, 1, 2, 3, 0, 0, 0, 0, 3]"
  by (simp_all add: pdu_eval ccsds_cfdp_encode_metadata_def ccsds_cfdp_encode_filedata_def ccsds_cfdp_encode_eof_def
      ccsds_cfdp_lv_write_def filename_len_is_valid_def condition_code_is_valid_def)

abbreviation (input) "sample_md \<equiv> [0x24, 0, 10, 1, 1, 0, 7, 2, 7, 0, 0, 0, 0, 3, 1, 65, 1, 66] :: bytes"
abbreviation (input) "sample_fd_2 \<equiv> [0x34, 0, 5, 1, 1, 0, 7, 2, 0, 0, 0, 2, 3] :: bytes"
abbreviation (input) "sample_fd_0 \<equiv> [0x34, 0, 6, 1, 1, 0, 7, 2, 0, 0, 0, 0, 1, 2] :: bytes"
abbreviation (input) "sample_eof \<equiv> [0x24, 0, 10, 1, 1, 0, 7, 2, 4, 0, 1, 2, 3, 0, 0, 0, 0, 3] :: bytes"

definition sample_md_pdu :: ccsds_cfdp_metadata_pdu where
  "sample_md_pdu = \<lparr>md_header = sample_header 0 10, closure_requested = False,
     md_checksum_type = CCSDS_CFDP_CHECKSUM_TYPE_MODULAR, md_file_size = 3, source_filename = [65], destination_filename = [66]\<rparr>"

lemma sample_decoded:
  "ccsds_cfdp_decode_metadata default_cfdp_config sample_md = Inr (sample_md_pdu, length sample_md)"
  "ccsds_cfdp_decode_filedata default_cfdp_config sample_fd_2 =
     Inr (\<lparr>fd_header = sample_header 1 5, fd_offset = 2, fd_data = [3]\<rparr>, length sample_fd_2)"
  "ccsds_cfdp_decode_filedata default_cfdp_config sample_fd_0 =
     Inr (\<lparr>fd_header = sample_header 1 6, fd_offset = 0, fd_data = [1, 2]\<rparr>, length sample_fd_0)"
  "ccsds_cfdp_decode_eof default_cfdp_config sample_eof =
     Inr (\<lparr>eof_header = sample_header 0 10, eof_condition_code = 0, file_checksum = 0x01020300, eof_file_size = 3\<rparr>, length sample_eof)"
  using decode_encode_metadata [OF cfdp_config_ok_default sample_pdus(1), of "[]"] decode_encode_filedata [OF sample_pdus(2), of "[]"]
    decode_encode_filedata [OF sample_pdus(3), of "[]"] decode_encode_eof [OF sample_pdus(4), of "[]"]
  by (simp_all add: metadata_norm_def filedata_norm_def eof_norm_def sample_header_def metadata_len_def sample_md_pdu_def)

lemma sample_session:
  "fst (session (ranges_step default_cfdp_config) (ccsds_cfdp_ranges_init default_cfdp_config) [(2, 3), (0, 2)]) =
     [CCSDS_CFDP_STATUS_OK, CCSDS_CFDP_STATUS_OK]"
  by code_simp

lemma sample_transfer:
  "transfer_pdus default_cfdp_config (snd (mem_node 2 1 20 10)) sum_crc sum_crc [1, 2, 3] sample_md_pdu
     [sample_md, sample_fd_2, sample_fd_0, sample_eof]"
proof -
  let ?b = "snd (mem_node 2 1 20 10)"
  have sup: "incoming_header_is_supported ?b (sample_header ty n)"
    "transaction_id_from_header (sample_header ty n) = \<lparr>id_source_entity_id = 1, id_transaction_sequence_number = 7\<rparr>" for ty n
    by (simp_all add: mem_node_def node_defs incoming_header_is_supported_def sample_header_def transaction_id_from_header_def)
  obtain r where ses: "session (ranges_step default_cfdp_config) (ccsds_cfdp_ranges_init default_cfdp_config) [(2, 3), (0, 2)] =
      ([CCSDS_CFDP_STATUS_OK, CCSDS_CFDP_STATUS_OK], r)"
    using sample_session by (metis prod.collapse)
  have cover: "{0 ..< 3 :: u32} \<subseteq> {2 ..< 3} \<union> {0 ..< 2}" by auto
  have sum: "file_sum sum_crc sum_crc CCSDS_CFDP_CHECKSUM_TYPE_MODULAR [1, 2, 3] = 0x01020300"
    unfolding file_sum_def by code_simp
  show ?thesis
    unfolding transfer_pdus_def
    by (rule exI [of _ sample_md], rule exI [of _ "[sample_fd_2, sample_fd_0]"], rule exI [of _ "[(2, [3]), (0, [1, 2])]"],
        rule exI [of _ sample_eof], rule exI [of _ "\<lparr>eof_header = sample_header 0 10, eof_condition_code = 0,
          file_checksum = 0x01020300, eof_file_size = 3\<rparr>"],
        rule exI [of _ "[CCSDS_CFDP_STATUS_OK, CCSDS_CFDP_STATUS_OK]"], rule exI [of _ r])
      (use cover in \<open>simp add: sup sample_decoded ses sum sample_md_pdu_def carries_def file_segment_def seg_range_def del: session.simps\<close>)
qed

lemma sample_transfer_mem:
  "transfer_pdus default_cfdp_config (snd (mem_node 2 1 20 10)) (crc32_ieee_update (mem_platform default_cfdp_config)) sum_crc
     [1, 2, 3] sample_md_pdu [sample_md, sample_fd_2, sample_fd_0, sample_eof]"
  using sample_transfer by (simp add: sum_crc_incremental)

theorem cfdp_receive_delivers_witness:
  "\<exists>w' e'. run_state (receive_pdus default_cfdp_config (mem_platform default_cfdp_config) (Some ())
      [sample_md, sample_fd_2, sample_fd_0, sample_eof])
      ((mem_app_with Map.empty, fst (mem_node 2 1 20 10)), snd (mem_node 2 1 20 10)) =
      ([CCSDS_CFDP_STATUS_OK, CCSDS_CFDP_STATUS_OK, CCSDS_CFDP_STATUS_OK, CCSDS_CFDP_STATUS_OK], w', e') \<and>
    mem_stored (fst w') = [[66] \<mapsto> file_map [1, 2, 3]] \<and> receiver e' = zero_slot default_cfdp_config \<and>
    mem_events (fst w') = [\<lparr>event_type = CCSDS_CFDP_EVENT_COMPLETE,
      event_transaction_id = \<lparr>id_source_entity_id = 1, id_transaction_sequence_number = 7\<rparr>,
      event_status = CCSDS_CFDP_STATUS_OK\<rparr>]"
  using cfdp_receive_delivers [OF mem_rx.cfdp_rx_host_axioms sum_crc_incremental(2) _ _ _ mem_nodes_ready(4,8) _ mem_nodes_ready(6)
      sample_transfer_mem,
      of "(mem_app_with Map.empty, fst (mem_node 2 1 20 10))"]
  by (auto simp: sum_crc_incremental mem_nodes_ready mem_app_with_def sample_md_pdu_def sample_header_def
      transaction_id_from_header_def)

text \<open>
  C20. The adapters carry a PDU unchanged from entity to entity.  After the receiving service has registered with a
  router for the APID the sender addresses, what the sending entity gives its transport reaches the application's
  \<^verbatim>\<open>send_packet\<close> as one Space Packet, and dispatching that packet gives exactly the PDU to the receiving entity; the
  handler returns 0 if and only if the entity accepted it.  The sending adapter stays able to send, its sequence count
  advanced modulo \<open>2 ^ 14\<close>.
\<close>

theorem adapter_delivers_pdu:
  assumes "adapter_ok cfg peer (adapter a)" "cfdp_config_ok cfg" "pdu \<noteq> []" "length pdu \<le> CCSDS_CFDP_MAX_PDU_SIZE cfg"
    and "router_inv n router0" "ccsds_cfdp_service_register_rx b0 router0 h u = (RC_OK, router, b)"
    and "ad_local_apid (adapter b0) = ad_remote_apid (adapter a)"
  shows "\<exists>packet a'.
    (\<forall>x e. run_state (cfdp_space_packet_send_pdu cfg cb peer pdu) ((x, a), e) =
       run_state (the (send_packet cb) packet) ((x, a'), e)) \<and>
    adapter_ok cfg peer (adapter a') \<and>
    unat (ad_sequence_count (adapter a')) = (unat (ad_sequence_count (adapter a)) + 1) mod 2 ^ 14 \<and>
    ccsds_router_dispatch_bytes (\<lambda>h p u. run_state (cfdp_space_packet_rx_handler cfg plat p)) router packet ((y, b), e) =
      apfst (\<lambda>st. if st = CCSDS_CFDP_STATUS_OK then RC_OK else RC_ERR EINVAL)
        (run_state (ccsds_cfdp_entity_receive_pdu cfg plat (service_receive_filestore b0) pdu) ((y, b), e))"
proof -
  note reg = register_rx_binds [OF assms(5,6)]
  have map: "router_map router (ad_remote_apid (adapter a)) = Some (h, u)" using reg assms(7) by simp
  have inv: "router_inv n router" "ad_receive_entity (adapter b)" using reg by simp_all
  let ?packet = "packet_bytes (adapter_packet (adapter a) pdu)" and ?a = "a\<lparr>adapter := adapter_after (adapter a) pdu\<rparr>"
  have "\<forall>x e. run_state (cfdp_space_packet_send_pdu cfg cb peer pdu) ((x, a), e) =
       run_state (the (send_packet cb) ?packet) ((x, ?a), e)"
    by (intro allI) (rule run_adapter_send [OF assms(1-4)])
  moreover have "adapter_ok cfg peer (adapter ?a)" using adapter_ok_after [OF assms(1)] by simp
  moreover have "unat (ad_sequence_count (adapter ?a)) = (unat (ad_sequence_count (adapter a)) + 1) mod 2 ^ 14"
    using adapter_count [OF assms(1)] by simp
  moreover note run_rx_handler_routed [OF assms(1-4) inv(1) map inv(2), of plat y e] 
  ultimately show ?thesis using reg by metis
qed

theorem adapter_delivers_pdu_witness:
  "\<exists>packet router b.
     ccsds_cfdp_service_register_rx (fst (mem_node 2 1 20 10)) (ccsds_router_init default_config) () (Some ()) = (RC_OK, router, b) \<and>
     ccsds_router_dispatch_bytes (\<lambda>h p u. run_state (cfdp_space_packet_rx_handler default_cfdp_config
       (mem_platform default_cfdp_config) p)) router packet ((mem_app_with Map.empty, b), snd (mem_node 2 1 20 10)) =
     apfst (\<lambda>st. if st = CCSDS_CFDP_STATUS_OK then RC_OK else RC_ERR EINVAL)
       (run_state (ccsds_cfdp_entity_receive_pdu default_cfdp_config (mem_platform default_cfdp_config) (Some ()) sample_md)
         ((mem_app_with Map.empty, b), snd (mem_node 2 1 20 10)))"
proof -
  let ?b0 = "fst (mem_node 2 1 20 10)"
  obtain rc router b where reg: "ccsds_cfdp_service_register_rx ?b0 (ccsds_router_init default_config) () (Some ()) = (rc, router, b)"
    by (metis prod.exhaust)
  have la: "ad_local_apid (adapter ?b0) = 20" by (simp add: mem_node_def node_defs)
  have rc: "rc = RC_OK"
    using register_refines [OF router_init_inv, of default_config 20 "()" "Some ()"] reg
    by (auto simp: ccsds_cfdp_service_register_rx_def ccsds_cfdp_space_packet_adapter_register_rx_def la Let_def
        router_init_map CCSDS_APID_MAX_def default_config_def prod_eq_iff split: prod.splits)
  have ids: "ad_local_apid (adapter ?b0) = ad_remote_apid (adapter (fst (mem_node 1 2 10 20)))" "service_receive_filestore ?b0 = Some ()"
    by (simp_all add: mem_node_def node_defs)
  have "length sample_md \<le> CCSDS_CFDP_MAX_PDU_SIZE default_cfdp_config" by (simp add: default_cfdp_config_def)
  from adapter_delivers_pdu [OF mem_nodes_ready(1) cfdp_config_ok_default _ this router_init_inv reg [unfolded rc] ids(1),
      of mem_callbacks "mem_platform default_cfdp_config" "mem_app_with Map.empty" "snd (mem_node 2 1 20 10)"] reg rc ids(2)
  show ?thesis by auto
qed

section \<open>Receptions that fail\<close>

lemma sample_empty_pdus:
  "ccsds_cfdp_encode_metadata default_cfdp_config (sample_md_pdu\<lparr>md_file_size := 0\<rparr>) 512 =
     Inr [0x24, 0, 10, 1, 1, 0, 7, 2, 7, 0, 0, 0, 0, 0, 1, 65, 1, 66]"
  "ccsds_cfdp_encode_metadata default_cfdp_config
     (sample_md_pdu\<lparr>md_header := (sample_header 0 10)\<lparr>transmission_mode := 0\<rparr>\<rparr>) 512 =
     Inr [0x20, 0, 10, 1, 1, 0, 7, 2, 7, 0, 0, 0, 0, 3, 1, 65, 1, 66]"
  "ccsds_cfdp_encode_eof default_cfdp_config \<lparr>eof_header = sample_header 0 10, eof_condition_code = 0,
     file_checksum = 0, eof_file_size = 0\<rparr> 512 =
     Inr [0x24, 0, 10, 1, 1, 0, 7, 2, 4, 0, 0, 0, 0, 0, 0, 0, 0, 0]"
  "ccsds_cfdp_encode_ack default_cfdp_config \<lparr>ack_header = (sample_header 0 3)\<lparr>transmission_mode := 0\<rparr>,
     acknowledged_directive = 5, directive_subtype = 1, ack_condition_code = 0, transaction_status = 2\<rparr> 512 =
     Inr [0x20, 0, 3, 1, 1, 0, 7, 2, 6, 0x51, 2]"
  by (simp_all add: pdu_eval sample_md_pdu_def ccsds_cfdp_encode_metadata_def ccsds_cfdp_encode_ack_def ccsds_cfdp_encode_eof_def
      ccsds_cfdp_lv_write_def filename_len_is_valid_def condition_code_is_valid_def ack_directive_is_supported_def
      ack_subtype_is_valid_def)

abbreviation (input) "empty_md \<equiv> [0x24, 0, 10, 1, 1, 0, 7, 2, 7, 0, 0, 0, 0, 0, 1, 65, 1, 66] :: bytes"
abbreviation (input) "empty_eof \<equiv> [0x24, 0, 10, 1, 1, 0, 7, 2, 4, 0, 0, 0, 0, 0, 0, 0, 0, 0] :: bytes"
abbreviation (input) "acked_md \<equiv> [0x20, 0, 10, 1, 1, 0, 7, 2, 7, 0, 0, 0, 0, 3, 1, 65, 1, 66] :: bytes"
abbreviation (input) "early_ack \<equiv> [0x20, 0, 3, 1, 1, 0, 7, 2, 6, 0x51, 2] :: bytes"

lemma sample_empty_decoded:
  "ccsds_cfdp_decode_metadata default_cfdp_config empty_md = Inr (sample_md_pdu\<lparr>md_file_size := 0\<rparr>, length empty_md)"
  "ccsds_cfdp_decode_metadata default_cfdp_config acked_md =
     Inr (sample_md_pdu\<lparr>md_header := (sample_header 0 10)\<lparr>transmission_mode := 0\<rparr>\<rparr>, length acked_md)"
  "ccsds_cfdp_decode_eof default_cfdp_config empty_eof =
     Inr (\<lparr>eof_header = sample_header 0 10, eof_condition_code = 0, file_checksum = 0, eof_file_size = 0\<rparr>, length empty_eof)"
  "ccsds_cfdp_decode_ack default_cfdp_config early_ack =
     Inr (\<lparr>ack_header = (sample_header 0 3)\<lparr>transmission_mode := 0\<rparr>,
       acknowledged_directive = 5, directive_subtype = 1, ack_condition_code = 0, transaction_status = 2\<rparr>, length early_ack)"
  using decode_encode_metadata [OF cfdp_config_ok_default sample_empty_pdus(1), of "[]"]
    decode_encode_metadata [OF cfdp_config_ok_default sample_empty_pdus(2), of "[]"]
    decode_encode_eof [OF sample_empty_pdus(3), of "[]"] decode_encode_ack [OF sample_empty_pdus(4), of "[]"]
  by (simp_all add: metadata_norm_def eof_norm_def ack_norm_def sample_header_def metadata_len_def sample_md_pdu_def)

lemma sample_headers_supported:
  "incoming_header_is_supported (snd (mem_node 2 1 20 10)) (sample_header ty n)"
  "transmission_mode (sample_header ty n) = 1"
  "incoming_header_is_supported (snd (mem_node 2 1 20 10)) ((sample_header ty n)\<lparr>transmission_mode := 0\<rparr>)"
  "transaction_id_from_header (sample_header ty n) = \<lparr>id_source_entity_id = 1, id_transaction_sequence_number = 7\<rparr>"
  "transaction_id_from_header ((sample_header ty n)\<lparr>transmission_mode := 0\<rparr>) =
     \<lparr>id_source_entity_id = 1, id_transaction_sequence_number = 7\<rparr>"
  by (simp_all add: mem_node_def node_defs incoming_header_is_supported_def sample_header_def transaction_id_from_header_def)

lemma incoming_supported_receiver [simp]:
  "incoming_header_is_supported (e\<lparr>receiver := s\<rparr>) h = incoming_header_is_supported e h"
  by (simp add: incoming_header_is_supported_def)

text \<open>The state of the sample node after it accepted a Metadata PDU.\<close>

lemma sample_opened:
  assumes "ccsds_cfdp_decode_metadata default_cfdp_config pdu = Inr (md, length pdu)"
    "incoming_header_is_supported (snd (mem_node 2 1 20 10)) (md_header md)" "md_file_size md = word_of_nat (length F)"
    "transaction_id_from_header (md_header md) = \<lparr>id_source_entity_id = 1, id_transaction_sequence_number = 7\<rparr>"
    "transmission_mode (md_header md) \<le> 1"
  obtains w e where
    "run_state (ccsds_cfdp_entity_receive_pdu default_cfdp_config (mem_platform default_cfdp_config) (Some ()) pdu)
       ((mem_app_with Map.empty, fst (mem_node 2 1 20 10)), snd (mem_node 2 1 20 10)) = (CCSDS_CFDP_STATUS_OK, w, e)"
    "e = (snd (mem_node 2 1 20 10))\<lparr>receiver := receiver e\<rparr>"
    "slot_receiving default_cfdp_config 1 Tmp_Handle F {} (receiver e) (mem_tmp (fst w))"
    "mem_stored (fst w) = Map.empty" "mem_events (fst w) = []"
    "adapter_ok default_cfdp_config 1 (adapter (snd w))"
    "slot_id (receiver e) = \<lparr>id_source_entity_id = 1, id_transaction_sequence_number = 7\<rparr>"
    "checksum_type (receiver e) = md_checksum_type md" "slot_transmission_mode (receiver e) = transmission_mode (md_header md)"
    "finished_status (receiver e) = CCSDS_CFDP_STATUS_OK" "receiver_ids_ok default_cfdp_config e"
proof -
  let ?b = "snd (mem_node 2 1 20 10)" and ?w = "(mem_app_with Map.empty, fst (mem_node 2 1 20 10))"
  obtain e where e: "run_state (ccsds_cfdp_entity_receive_pdu default_cfdp_config (mem_platform default_cfdp_config) (Some ()) pdu) (?w, ?b) =
      (CCSDS_CFDP_STATUS_OK, world_open_tmp (c_string (path_array default_cfdp_config (destination_filename md))) ?w, e)"
    and eq: "e = ?b\<lparr>receiver := receiver e\<rparr>"
    and rec: "mem_rx.receiving 1 F {} (receiver e) (world_open_tmp (c_string (path_array default_cfdp_config (destination_filename md))) ?w)"
    and slot: "slot_id (receiver e) = transaction_id_from_header (md_header md)" "checksum_type (receiver e) = md_checksum_type md"
    "slot_transmission_mode (receiver e) = transmission_mode (md_header md)" "finished_status (receiver e) = CCSDS_CFDP_STATUS_OK"
    using mem_rx.metadata_opens [OF assms(1,2) mem_nodes_ready(8) _ mem_nodes_ready(6) assms(3), of ?w] mem_nodes_ready(2) by auto
  have "receiver_ids_ok default_cfdp_config e"
    by (subst eq, simp add: receiver_ids_ok_def slot assms(4,5)) (simp add: mem_node_def node_defs)
  moreover note e eq slot
  moreover note rec [unfolded mem_rx.receiving_iff]
  ultimately show thesis
    by (intro that [OF e eq]) (simp_all add: assms(4) world_defs mem_app_with_def mem_nodes_ready)
qed

text \<open>
  C19. What EOF decides.  In unacknowledged mode the EOF PDU of a reception whose announced file is \<open>F\<close> and whose received part
  is \<open>cov\<close> ends the transaction with the status \<open>eof_verdict\<close> says: a size or condition other than announced and a gap are
  file size errors, a wrong checksum is a checksum failure, and an empty file is an invalid argument.  The file is stored
  exactly when that status is success; in every case one terminal event carries the status, and the slot is free again.
\<close>

theorem unacknowledged_eof_decides:
  assumes host: "cfdp_rx_host cfg plat peer good h_send h_event h_now events fs hdl h_open h_write h_read h_close h_commit h_discard tmp stored"
    and crc: "crc32_c_incremental (crc32_c plat) raw" "incremental (crc32_ieee_update plat)"
    and dec: "ccsds_cfdp_decode_eof cfg pdu = Inr (p, length pdu)"
    and hdr: "incoming_header_is_supported e (eof_header p)" "transaction_id_from_header (eof_header p) = slot_id (receiver e)"
    and rec: "slot_receiving cfg peer hdl F cov (receiver e) (tmp w)" "good w" "length F < 2 ^ 32"
    and mode: "slot_transmission_mode (receiver e) = CCSDS_CFDP_TRANSMISSION_MODE_UNACKNOWLEDGED" "receiver_ids_ok cfg e"
  shows "let st = eof_verdict (crc32_ieee_update plat) raw (checksum_type (receiver e)) F cov p in
    \<exists>w' e'. run_state (ccsds_cfdp_entity_receive_pdu cfg plat (Some fs) pdu) (w, e) = (st, w', e') \<and>
      stored w' = (if st = CCSDS_CFDP_STATUS_OK then (stored w)(c_string (destination_path (receiver e)) \<mapsto> file_map F) else stored w) \<and>
      events w' = events w @ [terminal_event (slot_id (receiver e)) st] \<and> receiver e' = zero_slot cfg"
  unfolding Let_def
  by (rule cfdp_rx_host.eof_decides [OF host crc dec hdr _ rec(3) _ mode(2) refl])
    (use rec mode(1) in \<open>simp_all add: cfdp_rx_host.receiving_iff [OF host]\<close>)

theorem unacknowledged_eof_decides_witness:
  "\<exists>w e w' e'.
     run_state (ccsds_cfdp_entity_receive_pdu default_cfdp_config (mem_platform default_cfdp_config) (Some ()) empty_md)
       ((mem_app_with Map.empty, fst (mem_node 2 1 20 10)), snd (mem_node 2 1 20 10)) = (CCSDS_CFDP_STATUS_OK, w, e) \<and>
     run_state (ccsds_cfdp_entity_receive_pdu default_cfdp_config (mem_platform default_cfdp_config) (Some ()) empty_eof) (w, e) =
       (CCSDS_CFDP_STATUS_INVALID_ARGUMENT, w', e') \<and>
     mem_stored (fst w') = Map.empty \<and> receiver e' = zero_slot default_cfdp_config \<and>
     mem_events (fst w') = [\<lparr>event_type = CCSDS_CFDP_EVENT_FAILED,
       event_transaction_id = \<lparr>id_source_entity_id = 1, id_transaction_sequence_number = 7\<rparr>,
       event_status = CCSDS_CFDP_STATUS_INVALID_ARGUMENT\<rparr>]"
proof -
  let ?p = "\<lparr>eof_header = sample_header 0 10, eof_condition_code = 0, file_checksum = 0, eof_file_size = 0\<rparr>"
  obtain w e where o: "run_state (ccsds_cfdp_entity_receive_pdu default_cfdp_config (mem_platform default_cfdp_config) (Some ()) empty_md)
       ((mem_app_with Map.empty, fst (mem_node 2 1 20 10)), snd (mem_node 2 1 20 10)) = (CCSDS_CFDP_STATUS_OK, w, e)"
    and eq: "e = (snd (mem_node 2 1 20 10))\<lparr>receiver := receiver e\<rparr>"
    and st: "slot_receiving default_cfdp_config 1 Tmp_Handle [] {} (receiver e) (mem_tmp (fst w))"
      "mem_stored (fst w) = Map.empty" "mem_events (fst w) = []" "adapter_ok default_cfdp_config 1 (adapter (snd w))"
      "slot_id (receiver e) = \<lparr>id_source_entity_id = 1, id_transaction_sequence_number = 7\<rparr>"
      "slot_transmission_mode (receiver e) = 1" "receiver_ids_ok default_cfdp_config e"
    by (rule sample_opened [OF sample_empty_decoded(1), of "[]"])
      (simp_all add: sample_md_pdu_def sample_headers_supported)
  have "incoming_header_is_supported e (eof_header ?p)"
    by (subst eq) (simp add: sample_headers_supported)
  from unacknowledged_eof_decides [OF mem_rx.cfdp_rx_host_axioms sum_crc_incremental(2) _ sample_empty_decoded(3) this _ st(1,4) _ _ st(7)]
    o st show ?thesis
    by (auto simp: sum_crc_incremental sample_headers_supported eof_verdict_def Let_def terminal_event_def)
qed

text \<open>
  An acknowledgement that answers nothing.  An ACK of Finished for the transaction in progress, in acknowledged mode, ends the
  reception at any moment, whether or not a Finished PDU was sent: nothing is closed, discarded or committed, and the
  event reports the status the slot holds, which is success from the Metadata PDU on.
\<close>

theorem early_ack_completes:
  assumes host: "cfdp_link cfg plat peer good h_send h_event h_now events"
    and dec: "ccsds_cfdp_decode_ack cfg pdu = Inr (p, length pdu)"
    and hdr: "incoming_header_is_supported e (ack_header p)"
      "transmission_mode (ack_header p) = CCSDS_CFDP_TRANSMISSION_MODE_ACKNOWLEDGED"
      "transaction_id_from_header (ack_header p) = slot_id (receiver e)"
    and ack: "acknowledged_directive p = CCSDS_CFDP_DIRECTIVE_FINISHED" "directive_subtype p = CCSDS_CFDP_ACK_DIRECTIVE_SUBTYPE_FINISHED"
    and w: "ccsds_cfdp_transaction_slot.active (receiver e)" "good w" "receive_filestore_is_valid plat (Some f)"
  shows "run_state (ccsds_cfdp_entity_receive_pdu cfg plat (Some f) pdu) (w, e) =
    (CCSDS_CFDP_STATUS_OK, h_event (terminal_event (slot_id (receiver e)) (finished_status (receiver e))) w,
     e\<lparr>receiver := zero_slot cfg\<rparr>)"
  by (rule cfdp_link.ack_finished_releases [OF host dec hdr ack w])

theorem early_ack_completes_witness:
  "\<exists>w e w' e'.
     run_state (ccsds_cfdp_entity_receive_pdu default_cfdp_config (mem_platform default_cfdp_config) (Some ()) acked_md)
       ((mem_app_with Map.empty, fst (mem_node 2 1 20 10)), snd (mem_node 2 1 20 10)) = (CCSDS_CFDP_STATUS_OK, w, e) \<and>
     run_state (ccsds_cfdp_entity_receive_pdu default_cfdp_config (mem_platform default_cfdp_config) (Some ()) early_ack) (w, e) =
       (CCSDS_CFDP_STATUS_OK, w', e') \<and>
     mem_stored (fst w') = Map.empty \<and> receiver e' = zero_slot default_cfdp_config \<and>
     mem_events (fst w') = [\<lparr>event_type = CCSDS_CFDP_EVENT_COMPLETE,
       event_transaction_id = \<lparr>id_source_entity_id = 1, id_transaction_sequence_number = 7\<rparr>,
       event_status = CCSDS_CFDP_STATUS_OK\<rparr>]"
proof -
  let ?p = "\<lparr>ack_header = (sample_header 0 3)\<lparr>transmission_mode := 0\<rparr>, acknowledged_directive = 5, directive_subtype = 1,
    ack_condition_code = 0, transaction_status = 2\<rparr>"
  obtain w e where o: "run_state (ccsds_cfdp_entity_receive_pdu default_cfdp_config (mem_platform default_cfdp_config) (Some ()) acked_md)
       ((mem_app_with Map.empty, fst (mem_node 2 1 20 10)), snd (mem_node 2 1 20 10)) = (CCSDS_CFDP_STATUS_OK, w, e)"
    and eq: "e = (snd (mem_node 2 1 20 10))\<lparr>receiver := receiver e\<rparr>"
    and st: "slot_receiving default_cfdp_config 1 Tmp_Handle [1, 2, 3] {} (receiver e) (mem_tmp (fst w))"
      "mem_stored (fst w) = Map.empty" "mem_events (fst w) = []" "adapter_ok default_cfdp_config 1 (adapter (snd w))"
      "slot_id (receiver e) = \<lparr>id_source_entity_id = 1, id_transaction_sequence_number = 7\<rparr>"
      "finished_status (receiver e) = CCSDS_CFDP_STATUS_OK"
    by (rule sample_opened [OF sample_empty_decoded(2), of "[1, 2, 3]"])
      (simp_all add: sample_md_pdu_def sample_headers_supported)
  have "incoming_header_is_supported e (ack_header ?p)"
    by (subst eq) (simp add: sample_headers_supported)
  moreover have "ccsds_cfdp_transaction_slot.active (receiver e)" using st(1) by (simp add: slot_receiving_def)
  moreover have "receive_filestore_is_valid (mem_platform default_cfdp_config) (Some ())" by (rule mem_rx.ops)
  ultimately have "run_state (ccsds_cfdp_entity_receive_pdu default_cfdp_config (mem_platform default_cfdp_config) (Some ()) early_ack) (w, e) =
    (CCSDS_CFDP_STATUS_OK, world_event (terminal_event (slot_id (receiver e)) (finished_status (receiver e))) w,
     e\<lparr>receiver := zero_slot default_cfdp_config\<rparr>)"
    using st by (intro early_ack_completes [OF mem_link.cfdp_link_axioms sample_empty_decoded(4)])
      (simp_all add: sample_headers_supported)
  with o st show ?thesis by (auto simp: terminal_event_def world_defs)
qed

end
