(* ===== verification/Sdls_Ep_Pdu.thy ===== *)
theory Sdls_Ep_Pdu
  imports Sdls
begin

unbundle bit_operations_syntax

text \<open>
  The PDUs of the SDLS extended procedures (\<^verbatim>\<open>src/ccsds_sdls_ep.c\<close>, first half): the common header and the encoder and
  decoder of every command and reply.  An array with its count is a list.  Encoders return the bytes they write;
  their \<^verbatim>\<open>__ASSERT\<close>ed contracts are the predicates named \<open>_ok\<close>.  Each pair is an instance of the contract
  \<open>ep_codec\<close>: the decoder accepts exactly the encodings.
\<close>

section \<open>Sizes and codes\<close>

definition CCSDS_SDLS_EP_MAX_OTAR_KEYS :: "sdls_config \<Rightarrow> nat" where
  "CCSDS_SDLS_EP_MAX_OTAR_KEYS cfg = CCSDS_SDLS_MAX_KEYS cfg - CCSDS_SDLS_SESSION_KEY_BASE cfg"

definition CCSDS_SDLS_EP_OTAR_DATA_MAX :: "sdls_config \<Rightarrow> nat" where
  "CCSDS_SDLS_EP_OTAR_DATA_MAX cfg = 2 + 12 + CCSDS_SDLS_EP_MAX_OTAR_KEYS cfg * 34 + 16"

definition CCSDS_SDLS_EP_OTAR_PDU_MAX :: "sdls_config \<Rightarrow> nat" where
  "CCSDS_SDLS_EP_OTAR_PDU_MAX cfg = 3 + CCSDS_SDLS_EP_OTAR_DATA_MAX cfg"

definition CCSDS_SDLS_EP_VERIFY_REPLY_PDU_MAX :: "sdls_config \<Rightarrow> nat" where
  "CCSDS_SDLS_EP_VERIFY_REPLY_PDU_MAX cfg = 3 + 46 * CCSDS_SDLS_MAX_KEYS cfg"

definition CCSDS_SDLS_EP_KEY_INVENTORY_REPLY_PDU_MAX :: "sdls_config \<Rightarrow> nat" where
  "CCSDS_SDLS_EP_KEY_INVENTORY_REPLY_PDU_MAX cfg = 3 + 2 + 3 * CCSDS_SDLS_MAX_KEYS cfg"

definition CCSDS_SDLS_EP_DUMP_LOG_PDU_MAX :: "sdls_config \<Rightarrow> nat" where
  "CCSDS_SDLS_EP_DUMP_LOG_PDU_MAX cfg = 3 + CCSDS_SDLS_EVENT_LOG_CAPACITY cfg * 10"

definition CCSDS_SDLS_EP_REPLY_PDU_MAX :: "sdls_config \<Rightarrow> nat" where
  "CCSDS_SDLS_EP_REPLY_PDU_MAX cfg =
     max (max (CCSDS_SDLS_EP_VERIFY_REPLY_PDU_MAX cfg) (CCSDS_SDLS_EP_KEY_INVENTORY_REPLY_PDU_MAX cfg))
       (CCSDS_SDLS_EP_DUMP_LOG_PDU_MAX cfg)"

text \<open>The build assertions of the header beside those of \<open>sdls_config_ok\<close>.\<close>

definition ep_config_ok :: "sdls_config \<Rightarrow> bool" where
  "ep_config_ok cfg \<longleftrightarrow> sdls_config_ok cfg \<and> CCSDS_SDLS_EP_OTAR_DATA_MAX cfg \<le> 65535 div 8 \<and>
     CCSDS_SDLS_EP_VERIFY_REPLY_PDU_MAX cfg - 3 \<le> 65535 div 8 \<and> CCSDS_SDLS_EP_DUMP_LOG_PDU_MAX cfg - 3 \<le> 65535 div 8"

lemmas ep_sizes = CCSDS_SDLS_EP_MAX_OTAR_KEYS_def CCSDS_SDLS_EP_OTAR_DATA_MAX_def CCSDS_SDLS_EP_OTAR_PDU_MAX_def
  CCSDS_SDLS_EP_VERIFY_REPLY_PDU_MAX_def CCSDS_SDLS_EP_KEY_INVENTORY_REPLY_PDU_MAX_def CCSDS_SDLS_EP_DUMP_LOG_PDU_MAX_def
  CCSDS_SDLS_EP_REPLY_PDU_MAX_def

lemma ep_config_ok_default: "ep_config_ok default_sdls_config"
  by (simp add: ep_config_ok_def sdls_config_ok_def default_sdls_config_def ep_sizes)

abbreviation (input) CCSDS_SDLS_EP_COMMAND :: u8 where "CCSDS_SDLS_EP_COMMAND \<equiv> 0"
abbreviation (input) CCSDS_SDLS_EP_REPLY :: u8 where "CCSDS_SDLS_EP_REPLY \<equiv> 1"

abbreviation (input) CCSDS_SDLS_EP_KEY_MANAGEMENT :: u8 where "CCSDS_SDLS_EP_KEY_MANAGEMENT \<equiv> 0"
abbreviation (input) CCSDS_SDLS_EP_SA_MANAGEMENT :: u8 where "CCSDS_SDLS_EP_SA_MANAGEMENT \<equiv> 1"
abbreviation (input) CCSDS_SDLS_EP_SECURITY_MONITORING :: u8 where "CCSDS_SDLS_EP_SECURITY_MONITORING \<equiv> 3"

abbreviation (input) CCSDS_SDLS_EP_OTAR :: u8 where "CCSDS_SDLS_EP_OTAR \<equiv> 1"
abbreviation (input) CCSDS_SDLS_EP_KEY_ACTIVATION :: u8 where "CCSDS_SDLS_EP_KEY_ACTIVATION \<equiv> 2"
abbreviation (input) CCSDS_SDLS_EP_KEY_DEACTIVATION :: u8 where "CCSDS_SDLS_EP_KEY_DEACTIVATION \<equiv> 3"
abbreviation (input) CCSDS_SDLS_EP_KEY_VERIFICATION :: u8 where "CCSDS_SDLS_EP_KEY_VERIFICATION \<equiv> 4"
abbreviation (input) CCSDS_SDLS_EP_KEY_INVENTORY :: u8 where "CCSDS_SDLS_EP_KEY_INVENTORY \<equiv> 7"

abbreviation (input) CCSDS_SDLS_EP_READ_ARSN :: u8 where "CCSDS_SDLS_EP_READ_ARSN \<equiv> 0"
abbreviation (input) CCSDS_SDLS_EP_SET_ARSN_WINDOW :: u8 where "CCSDS_SDLS_EP_SET_ARSN_WINDOW \<equiv> 5"
abbreviation (input) CCSDS_SDLS_EP_REKEY_SA :: u8 where "CCSDS_SDLS_EP_REKEY_SA \<equiv> 6"
abbreviation (input) CCSDS_SDLS_EP_EXPIRE_SA :: u8 where "CCSDS_SDLS_EP_EXPIRE_SA \<equiv> 9"
abbreviation (input) CCSDS_SDLS_EP_SET_ARSN :: u8 where "CCSDS_SDLS_EP_SET_ARSN \<equiv> 10"
abbreviation (input) CCSDS_SDLS_EP_START_SA :: u8 where "CCSDS_SDLS_EP_START_SA \<equiv> 11"
abbreviation (input) CCSDS_SDLS_EP_STOP_SA :: u8 where "CCSDS_SDLS_EP_STOP_SA \<equiv> 14"
abbreviation (input) CCSDS_SDLS_EP_SA_STATUS :: u8 where "CCSDS_SDLS_EP_SA_STATUS \<equiv> 15"

abbreviation (input) CCSDS_SDLS_EP_PING :: u8 where "CCSDS_SDLS_EP_PING \<equiv> 1"
abbreviation (input) CCSDS_SDLS_EP_LOG_STATUS :: u8 where "CCSDS_SDLS_EP_LOG_STATUS \<equiv> 2"
abbreviation (input) CCSDS_SDLS_EP_DUMP_LOG :: u8 where "CCSDS_SDLS_EP_DUMP_LOG \<equiv> 3"
abbreviation (input) CCSDS_SDLS_EP_ERASE_LOG :: u8 where "CCSDS_SDLS_EP_ERASE_LOG \<equiv> 4"
abbreviation (input) CCSDS_SDLS_EP_SELF_TEST :: u8 where "CCSDS_SDLS_EP_SELF_TEST \<equiv> 5"
abbreviation (input) CCSDS_SDLS_EP_ALARM_FLAG_RESET :: u8 where "CCSDS_SDLS_EP_ALARM_FLAG_RESET \<equiv> 7"

definition CCSDS_SDLS_SELF_TEST_OK :: u8 where "CCSDS_SDLS_SELF_TEST_OK = 0"
definition CCSDS_SDLS_SELF_TEST_NOT_OK :: u8 where "CCSDS_SDLS_SELF_TEST_NOT_OK = 0x80"
definition CCSDS_SDLS_EVENT_TAG_LOCAL :: u8 where "CCSDS_SDLS_EVENT_TAG_LOCAL = 0xfe"

fun event_code_value :: "ccsds_sdls_event_code \<Rightarrow> u8" where
  "event_code_value CCSDS_SDLS_EVENT_FORMAT = 1"
| "event_code_value CCSDS_SDLS_EVENT_AUTHENTICATION = 2"
| "event_code_value CCSDS_SDLS_EVENT_STALE_ARSN = 3"
| "event_code_value CCSDS_SDLS_EVENT_ARSN_GAP = 4"
| "event_code_value CCSDS_SDLS_EVENT_UNKNOWN_SA = 5"
| "event_code_value CCSDS_SDLS_EVENT_SA_STATE = 6"
| "event_code_value CCSDS_SDLS_EVENT_KEY_ID = 7"
| "event_code_value CCSDS_SDLS_EVENT_KEY_STATE = 8"
| "event_code_value CCSDS_SDLS_EVENT_KEY_TRANSITION = 9"
| "event_code_value CCSDS_SDLS_EVENT_SA_TRANSITION = 10"
| "event_code_value CCSDS_SDLS_EVENT_OTAR_AUTHENTICATION = 11"
| "event_code_value CCSDS_SDLS_EVENT_SELF_TEST = 12"
| "event_code_value CCSDS_SDLS_EVENT_PSA = 13"
| "event_code_value CCSDS_SDLS_EVENT_UNSUPPORTED = 14"
| "event_code_value CCSDS_SDLS_EVENT_CAPACITY = 15"

fun key_state_value :: "ccsds_sdls_key_state \<Rightarrow> u8" where
  "key_state_value CCSDS_SDLS_KEY_PREACTIVE = 0"
| "key_state_value CCSDS_SDLS_KEY_ACTIVE = 1"
| "key_state_value CCSDS_SDLS_KEY_DEACTIVATED = 2"

section \<open>The common header\<close>

record ccsds_sdls_ep_pdu =
  pdu_data :: bytes
  service_group :: u8
  ep_procedure :: u8
  ep_type :: u8

definition procedure_supported :: "u8 \<Rightarrow> u8 \<Rightarrow> u8 \<Rightarrow> bool" where
  "procedure_supported type service procedure =
     (if service = CCSDS_SDLS_EP_KEY_MANAGEMENT then
        let known = (procedure \<ge> CCSDS_SDLS_EP_OTAR \<and> procedure \<le> CCSDS_SDLS_EP_KEY_VERIFICATION) \<or>
              procedure = CCSDS_SDLS_EP_KEY_INVENTORY;
            reply = (procedure = CCSDS_SDLS_EP_KEY_VERIFICATION \<or> procedure = CCSDS_SDLS_EP_KEY_INVENTORY)
        in known \<and> (type = CCSDS_SDLS_EP_COMMAND \<or> (type = CCSDS_SDLS_EP_REPLY \<and> reply))
      else if service = CCSDS_SDLS_EP_SA_MANAGEMENT then
        let known = (procedure = CCSDS_SDLS_EP_READ_ARSN \<or> procedure = CCSDS_SDLS_EP_SET_ARSN_WINDOW \<or>
              procedure = CCSDS_SDLS_EP_REKEY_SA \<or> procedure = CCSDS_SDLS_EP_EXPIRE_SA \<or>
              procedure = CCSDS_SDLS_EP_SET_ARSN \<or> procedure = CCSDS_SDLS_EP_START_SA \<or>
              procedure = CCSDS_SDLS_EP_STOP_SA \<or> procedure = CCSDS_SDLS_EP_SA_STATUS);
            reply = (procedure = CCSDS_SDLS_EP_READ_ARSN \<or> procedure = CCSDS_SDLS_EP_SA_STATUS)
        in known \<and> (type = CCSDS_SDLS_EP_COMMAND \<or> (type = CCSDS_SDLS_EP_REPLY \<and> reply))
      else if service = CCSDS_SDLS_EP_SECURITY_MONITORING then
        let known = (procedure \<ge> CCSDS_SDLS_EP_PING \<and> procedure \<le> CCSDS_SDLS_EP_SELF_TEST) \<or>
              procedure = CCSDS_SDLS_EP_ALARM_FLAG_RESET
        in known \<and> (type = CCSDS_SDLS_EP_COMMAND \<or>
                    (type = CCSDS_SDLS_EP_REPLY \<and> procedure \<noteq> CCSDS_SDLS_EP_ALARM_FLAG_RESET))
      else False)"

definition encode_header :: "u8 \<Rightarrow> u8 \<Rightarrow> u8 \<Rightarrow> nat \<Rightarrow> bytes" where
  "encode_header type service procedure data_len =
     ((if type = CCSDS_SDLS_EP_REPLY then 0x80 else 0) OR (push_bit 4 service AND 0x30) OR procedure) #
     put_be16 (word_of_nat (data_len * 8))"

definition ccsds_sdls_ep_pdu_decode :: "sdls_config \<Rightarrow> bytes \<Rightarrow> sdls_error + ccsds_sdls_ep_pdu" where
  "ccsds_sdls_ep_pdu_decode cfg encoded =
     (if length encoded < 3 then Inl CCSDS_SDLS_ERR_FORMAT
      else let tag = encoded ! 0 in
      if tag AND 0x40 \<noteq> 0 then Inl CCSDS_SDLS_ERR_UNSUPPORTED
      else
        let service = drop_bit 4 (tag AND 0x30);
            procedure = tag AND 0x0f;
            type = (if tag AND 0x80 \<noteq> 0 then CCSDS_SDLS_EP_REPLY else CCSDS_SDLS_EP_COMMAND)
        in if \<not> procedure_supported type service procedure then Inl CCSDS_SDLS_ERR_UNSUPPORTED
        else
          let bit_len = be16_at encoded 1 in
          if bit_len AND 7 \<noteq> 0 then Inl CCSDS_SDLS_ERR_FORMAT
          else
            let data_len = unat bit_len div 8 in
            if length encoded \<noteq> 3 + data_len then Inl CCSDS_SDLS_ERR_FORMAT
            else if length encoded > CCSDS_SDLS_EP_REPLY_PDU_MAX cfg \<and> length encoded > CCSDS_SDLS_EP_OTAR_PDU_MAX cfg
            then Inl CCSDS_SDLS_ERR_CAPACITY
            else Inr \<lparr>pdu_data = drop 3 encoded, service_group = service, ep_procedure = procedure, ep_type = type\<rparr>)"

text \<open>The tag octet and its fields determine each other.\<close>

lemma tag_fields_checked:
  "\<forall>n\<in>set [0 ..< 256]. let t = word_of_nat n :: u8 in t AND 0x40 = 0 \<longrightarrow>
     ((if (if t AND 0x80 \<noteq> 0 then 1 else 0 :: u8) = 1 then 0x80 else 0) OR (push_bit 4 (drop_bit 4 (t AND 0x30)) AND 0x30) OR (t AND 0xf)) = t"
  by code_simp

lemma tag_of_fields:
  "(t :: u8) AND 0x40 = 0 \<Longrightarrow>
     ((if (if t AND 0x80 \<noteq> 0 then 1 else 0 :: u8) = 1 then 0x80 else 0) OR (push_bit 4 (drop_bit 4 (t AND 0x30)) AND 0x30) OR (t AND 0xf)) = t"
proof -
  have "unat t \<in> set [0 ..< 256]" using unat_u8_less [of t] by simp
  from tag_fields_checked [rule_format, OF this] show "t AND 0x40 = 0 \<Longrightarrow> ?thesis" by (simp add: Let_def)
qed

lemma fields_of_tag_checked:
  "\<forall>r\<in>{0, 1}. \<forall>g\<in>set [0 ..< 4]. \<forall>p\<in>set [0 ..< 16].
     let t = (if (word_of_nat r :: u8) = 1 then 0x80 else 0) OR (push_bit 4 (word_of_nat g) AND 0x30) OR word_of_nat p :: u8
     in t AND 0x40 = 0 \<and> drop_bit 4 (t AND 0x30) = word_of_nat g \<and> t AND 0x0f = word_of_nat p \<and>
        (if t AND 0x80 \<noteq> 0 then 1 else 0 :: u8) = word_of_nat r"
  by code_simp

lemma fields_of_tag:
  assumes "r \<in> {0, 1}" "g < 4" "p < 16" "t = (if r = 1 then 0x80 else 0) OR (push_bit 4 g AND 0x30) OR p"
  shows "(t :: u8) AND 0x40 = 0 \<and> drop_bit 4 (t AND 0x30) = g \<and> t AND 0x0f = p \<and> (if t AND 0x80 \<noteq> 0 then 1 else 0 :: u8) = r"
proof -
  have "unat r \<in> {0, 1}" "unat g \<in> set [0 ..< 4]" "unat p \<in> set [0 ..< 16]"
    using assms(1-3) by (auto simp: word_less_nat_alt)
  from fields_of_tag_checked [rule_format, OF this] show ?thesis by (simp add: Let_def assms(4))
qed

lemma procedure_supported_range:
  assumes "procedure_supported r g p"
  shows "r \<in> {0, 1}" "g < 4" "p < 16"
proof -
  have "p \<le> 4 \<Longrightarrow> p < 16" "p \<le> 5 \<Longrightarrow> p < 16" by (erule order.strict_trans1, simp)+
  with assms show "r \<in> {0, 1}" "g < 4" "p < 16"
    by (auto simp: procedure_supported_def Let_def split: if_splits)
qed

text \<open>A PDU with the given header fields and data, when it fits.\<close>

definition ep_frame :: "u8 \<Rightarrow> u8 \<Rightarrow> u8 \<Rightarrow> bytes \<Rightarrow> bytes" where
  "ep_frame type service procedure d = encode_header type service procedure (length d) @ d"

definition ep_fits :: "sdls_config \<Rightarrow> nat \<Rightarrow> bool" where
  "ep_fits cfg n \<longleftrightarrow> n \<le> 65535 div 8 \<and>
     (3 + n \<le> CCSDS_SDLS_EP_REPLY_PDU_MAX cfg \<or> 3 + n \<le> CCSDS_SDLS_EP_OTAR_PDU_MAX cfg)"

lemma decode_frame:
  assumes "procedure_supported r g p" "ep_fits cfg (length d)"
  shows "ccsds_sdls_ep_pdu_decode cfg (ep_frame r g p d) =
    Inr \<lparr>pdu_data = d, service_group = g, ep_procedure = p, ep_type = r\<rparr>"
proof -
  obtain t where t: "t = (if r = 1 then 0x80 else 0) OR (push_bit 4 g AND 0x30) OR p" by simp
  note f = fields_of_tag [OF procedure_supported_range [OF assms(1)] t]
  have n: "length d * 8 \<le> 65535" using assms(2) by (simp add: ep_fits_def)
  then have len: "unat (word_of_nat (length d * 8) :: u16) = length d * 8"
    by (simp add: unsigned_of_nat take_bit_nat_eq_self del: of_nat_mult)
  have bits: "(word_of_nat (length d * 8) :: u16) AND 7 = 0"
  proof -
    have "unat ((word_of_nat (length d * 8) :: u16) AND 7) = 0"
      using len by (simp add: mask_simps take_bit_eq_mod unat_mod del: of_nat_mult)
    then show ?thesis by (simp only: unat_eq_0)
  qed
  have frame: "ep_frame r g p d = t # put_be16 (word_of_nat (length d * 8)) @ d"
    by (simp add: ep_frame_def encode_header_def t)
  have "be16_at (ep_frame r g p d) 1 = word_of_nat (length d * 8)"
    using be16_at_put [of "[t]" 1 "word_of_nat (length d * 8)" d] by (simp add: frame)
  with f bits len assms show ?thesis
    by (auto simp: ccsds_sdls_ep_pdu_decode_def frame Let_def ep_fits_def)
qed

lemma decode_frame_iff:
  "ccsds_sdls_ep_pdu_decode cfg bs = Inr pdu \<longleftrightarrow>
     bs = ep_frame (ep_type pdu) (service_group pdu) (ep_procedure pdu) (pdu_data pdu) \<and>
     procedure_supported (ep_type pdu) (service_group pdu) (ep_procedure pdu) \<and> ep_fits cfg (length (pdu_data pdu))"
proof
  assume dec: "ccsds_sdls_ep_pdu_decode cfg bs = Inr pdu"
  then have "\<not> length bs < 3" by (auto simp: ccsds_sdls_ep_pdu_decode_def)
  then obtain t a b d where bs: "bs = t # a # b # d"
    by (cases bs; cases "tl bs"; cases "tl (tl bs)") auto
  have at: "be16_at (t # a # b # d) (Suc 0) = get_be16 a b" by (simp add: be16_at_def)
  from dec have c: "t AND 0x40 = 0" "get_be16 a b AND 7 = 0" "3 + unat (get_be16 a b) div 8 = length bs"
    and p: "pdu = \<lparr>pdu_data = d, service_group = drop_bit 4 (t AND 0x30), ep_procedure = t AND 0x0f,
      ep_type = (if t AND 0x80 \<noteq> 0 then 1 else 0)\<rparr>"
    and s: "procedure_supported (ep_type pdu) (service_group pdu) (ep_procedure pdu)"
    and m: "3 + length d \<le> CCSDS_SDLS_EP_REPLY_PDU_MAX cfg \<or> 3 + length d \<le> CCSDS_SDLS_EP_OTAR_PDU_MAX cfg"
    by (auto simp: ccsds_sdls_ep_pdu_decode_def Let_def at bs split: if_splits)
  have n: "length d = unat (get_be16 a b) div 8" using c(3) by (simp add: bs)
  have "unat (get_be16 a b AND 7) = 0" using c(2) by simp
  then have "unat (get_be16 a b) mod 8 = 0" by (simp add: mask_simps take_bit_eq_mod unat_mod)
  then have "length d * 8 = unat (get_be16 a b)" using n by presburger
  then have "put_be16 (word_of_nat (length d * 8)) = [a, b]" by (simp add: put_be16_def)
  then have "bs = ep_frame (ep_type pdu) (service_group pdu) (ep_procedure pdu) (pdu_data pdu)"
    using tag_of_fields [OF c(1)] by (simp add: ep_frame_def encode_header_def p bs)
  moreover have "length d \<le> 65535 div 8" using n unat_u16_less [of "get_be16 a b"] by (simp add: div_le_mono)
  ultimately show "bs = ep_frame (ep_type pdu) (service_group pdu) (ep_procedure pdu) (pdu_data pdu) \<and>
     procedure_supported (ep_type pdu) (service_group pdu) (ep_procedure pdu) \<and> ep_fits cfg (length (pdu_data pdu))"
    using s m by (simp add: ep_fits_def p)
qed (auto simp: decode_frame)

section \<open>Commands and replies\<close>

text \<open>What every decoder opens with: the header is that of the PDU expected.\<close>

definition expect_pdu :: "sdls_config \<Rightarrow> u8 \<Rightarrow> u8 \<Rightarrow> u8 \<Rightarrow> bytes \<Rightarrow> sdls_error + bytes" where
  "expect_pdu cfg type service procedure encoded =
     (case ccsds_sdls_ep_pdu_decode cfg encoded of
        Inl ret \<Rightarrow> Inl ret
      | Inr pdu \<Rightarrow>
          if ep_type pdu \<noteq> type \<or> service_group pdu \<noteq> service \<or> ep_procedure pdu \<noteq> procedure
          then Inl CCSDS_SDLS_ERR_UNSUPPORTED else Inr (pdu_data pdu))"

record ccsds_sdls_ep_otar =
  encrypted_key_blocks :: bytes
  otar_iv :: bytes
  otar_tag :: bytes
  master_key_id :: u16
  otar_key_count :: nat

definition ccsds_sdls_ep_otar_encode :: "ccsds_sdls_ep_otar \<Rightarrow> bytes" where
  "ccsds_sdls_ep_otar_encode otar =
     (let clear_len = otar_key_count otar * 34;
          data_len = 2 + 12 + clear_len + 16
      in encode_header CCSDS_SDLS_EP_COMMAND CCSDS_SDLS_EP_KEY_MANAGEMENT CCSDS_SDLS_EP_OTAR data_len @
         put_be16 (master_key_id otar) @ take 12 (otar_iv otar) @ take clear_len (encrypted_key_blocks otar) @
         take 16 (otar_tag otar))"

definition ccsds_sdls_ep_otar_decode :: "sdls_config \<Rightarrow> bytes \<Rightarrow> sdls_error + ccsds_sdls_ep_otar" where
  "ccsds_sdls_ep_otar_decode cfg encoded =
     (case expect_pdu cfg CCSDS_SDLS_EP_COMMAND CCSDS_SDLS_EP_KEY_MANAGEMENT CCSDS_SDLS_EP_OTAR encoded of
        Inl ret \<Rightarrow> Inl ret
      | Inr d \<Rightarrow>
          if length d < 2 + 12 + 16 + 34 then Inl CCSDS_SDLS_ERR_FORMAT
          else let encrypted_len = length d - 2 - 12 - 16 in
          if encrypted_len mod 34 \<noteq> 0 then Inl CCSDS_SDLS_ERR_FORMAT
          else let key_count = encrypted_len div 34 in
          if key_count > CCSDS_SDLS_EP_MAX_OTAR_KEYS cfg then Inl CCSDS_SDLS_ERR_CAPACITY
          else Inr \<lparr>encrypted_key_blocks = take encrypted_len (drop 14 d), otar_iv = take 12 (drop 2 d),
            otar_tag = take 16 (drop (14 + encrypted_len) d), master_key_id = be16_at d 0, otar_key_count = key_count\<rparr>)"

definition ccsds_sdls_ep_key_command_encode :: "u8 \<Rightarrow> u16 list \<Rightarrow> bytes" where
  "ccsds_sdls_ep_key_command_encode procedure key_ids =
     encode_header CCSDS_SDLS_EP_COMMAND CCSDS_SDLS_EP_KEY_MANAGEMENT procedure (length key_ids * 2) @
     concat (map put_be16 key_ids)"

definition ccsds_sdls_ep_key_command_decode :: "sdls_config \<Rightarrow> u8 \<Rightarrow> bytes \<Rightarrow> sdls_error + u16 list" where
  "ccsds_sdls_ep_key_command_decode cfg expected_procedure encoded =
     (case expect_pdu cfg CCSDS_SDLS_EP_COMMAND CCSDS_SDLS_EP_KEY_MANAGEMENT expected_procedure encoded of
        Inl ret \<Rightarrow> Inl ret
      | Inr d \<Rightarrow>
          if length d = 0 \<or> length d mod 2 \<noteq> 0 then Inl CCSDS_SDLS_ERR_FORMAT
          else let key_count = length d div 2 in
          if key_count > CCSDS_SDLS_MAX_KEYS cfg then Inl CCSDS_SDLS_ERR_CAPACITY
          else Inr (map (\<lambda>i. be16_at d (i * 2)) [0 ..< key_count]))"

record ccsds_sdls_ep_key_inventory_command =
  first_key_id :: u16
  last_key_id :: u16

definition ccsds_sdls_ep_key_inventory_command_encode :: "ccsds_sdls_ep_key_inventory_command \<Rightarrow> bytes" where
  "ccsds_sdls_ep_key_inventory_command_encode command =
     encode_header CCSDS_SDLS_EP_COMMAND CCSDS_SDLS_EP_KEY_MANAGEMENT CCSDS_SDLS_EP_KEY_INVENTORY 4 @
     put_be16 (first_key_id command) @ put_be16 (last_key_id command)"

definition ccsds_sdls_ep_key_inventory_command_decode ::
  "sdls_config \<Rightarrow> bytes \<Rightarrow> sdls_error + ccsds_sdls_ep_key_inventory_command" where
  "ccsds_sdls_ep_key_inventory_command_decode cfg encoded =
     (case expect_pdu cfg CCSDS_SDLS_EP_COMMAND CCSDS_SDLS_EP_KEY_MANAGEMENT CCSDS_SDLS_EP_KEY_INVENTORY encoded of
        Inl ret \<Rightarrow> Inl ret
      | Inr d \<Rightarrow>
          if length d \<noteq> 4 then Inl CCSDS_SDLS_ERR_FORMAT
          else let command = \<lparr>first_key_id = be16_at d 0, last_key_id = be16_at d 2\<rparr> in
          if first_key_id command > last_key_id command then Inl CCSDS_SDLS_ERR_KEY else Inr command)"

record ccsds_sdls_ep_key_inventory_entry =
  inventory_key_id :: u16
  inventory_state :: u8

definition inventory_entry_bytes :: "ccsds_sdls_ep_key_inventory_entry \<Rightarrow> bytes" where
  "inventory_entry_bytes entry = put_be16 (inventory_key_id entry) @ [inventory_state entry]"

definition inventory_entry_bad :: "ccsds_sdls_ep_key_inventory_entry list \<Rightarrow> nat \<Rightarrow> bool" where
  "inventory_entry_bad entries i \<longleftrightarrow>
     inventory_state (entries ! i) > key_state_value CCSDS_SDLS_KEY_DEACTIVATED \<or>
     (i \<noteq> 0 \<and> inventory_key_id (entries ! (i - 1)) \<ge> inventory_key_id (entries ! i))"

definition ccsds_sdls_ep_key_inventory_reply_encode ::
  "sdls_config \<Rightarrow> ccsds_sdls_ep_key_inventory_entry list \<Rightarrow> nat \<Rightarrow> sdls_error + bytes" where
  "ccsds_sdls_ep_key_inventory_reply_encode cfg entries out_capacity =
     (if length entries > CCSDS_SDLS_MAX_KEYS cfg then Inl CCSDS_SDLS_ERR_CAPACITY
      else let data_len = 2 + length entries * 3 in
      if out_capacity < 3 + data_len then Inl CCSDS_SDLS_ERR_CAPACITY
      else if \<exists>i\<in>set [0 ..< length entries]. inventory_entry_bad entries i then Inl CCSDS_SDLS_ERR_FORMAT
      else Inr (encode_header CCSDS_SDLS_EP_REPLY CCSDS_SDLS_EP_KEY_MANAGEMENT CCSDS_SDLS_EP_KEY_INVENTORY data_len @
        put_be16 (word_of_nat (length entries)) @ concat (map inventory_entry_bytes entries)))"

definition ccsds_sdls_ep_key_inventory_reply_decode ::
  "sdls_config \<Rightarrow> bytes \<Rightarrow> sdls_error + ccsds_sdls_ep_key_inventory_entry list" where
  "ccsds_sdls_ep_key_inventory_reply_decode cfg encoded =
     (case expect_pdu cfg CCSDS_SDLS_EP_REPLY CCSDS_SDLS_EP_KEY_MANAGEMENT CCSDS_SDLS_EP_KEY_INVENTORY encoded of
        Inl ret \<Rightarrow> Inl ret
      | Inr d \<Rightarrow>
          if length d < 2 then Inl CCSDS_SDLS_ERR_FORMAT
          else let key_count = unat (be16_at d 0) in
          if key_count > CCSDS_SDLS_MAX_KEYS cfg then Inl CCSDS_SDLS_ERR_CAPACITY
          else if length d \<noteq> 2 + key_count * 3 then Inl CCSDS_SDLS_ERR_FORMAT
          else let entries = map (\<lambda>i. \<lparr>inventory_key_id = be16_at d (2 + i * 3), inventory_state = d ! (2 + i * 3 + 2)\<rparr>)
                 [0 ..< key_count] in
          if \<exists>i\<in>set [0 ..< key_count]. inventory_entry_bad entries i then Inl CCSDS_SDLS_ERR_FORMAT
          else Inr entries)"

record ccsds_sdls_ep_verify_command_entry =
  challenge :: bytes
  vc_key_id :: u16

definition verify_command_entry_bytes :: "ccsds_sdls_ep_verify_command_entry \<Rightarrow> bytes" where
  "verify_command_entry_bytes entry = put_be16 (vc_key_id entry) @ take 16 (challenge entry)"

definition ccsds_sdls_ep_verify_command_encode :: "ccsds_sdls_ep_verify_command_entry list \<Rightarrow> bytes" where
  "ccsds_sdls_ep_verify_command_encode entries =
     encode_header CCSDS_SDLS_EP_COMMAND CCSDS_SDLS_EP_KEY_MANAGEMENT CCSDS_SDLS_EP_KEY_VERIFICATION (length entries * 18) @
     concat (map verify_command_entry_bytes entries)"

definition ccsds_sdls_ep_verify_command_decode ::
  "sdls_config \<Rightarrow> bytes \<Rightarrow> sdls_error + ccsds_sdls_ep_verify_command_entry list" where
  "ccsds_sdls_ep_verify_command_decode cfg encoded =
     (case expect_pdu cfg CCSDS_SDLS_EP_COMMAND CCSDS_SDLS_EP_KEY_MANAGEMENT CCSDS_SDLS_EP_KEY_VERIFICATION encoded of
        Inl ret \<Rightarrow> Inl ret
      | Inr d \<Rightarrow>
          if length d = 0 \<or> length d mod 18 \<noteq> 0 then Inl CCSDS_SDLS_ERR_FORMAT
          else let key_count = length d div 18 in
          if key_count > CCSDS_SDLS_MAX_KEYS cfg then Inl CCSDS_SDLS_ERR_CAPACITY
          else Inr (map (\<lambda>i. \<lparr>challenge = take 16 (drop (i * 18 + 2) d), vc_key_id = be16_at d (i * 18)\<rparr>) [0 ..< key_count]))"

record ccsds_sdls_ep_verify_reply_entry =
  vr_iv :: bytes
  encrypted_challenge :: bytes
  vr_tag :: bytes
  vr_key_id :: u16

definition verify_reply_entry_bytes :: "ccsds_sdls_ep_verify_reply_entry \<Rightarrow> bytes" where
  "verify_reply_entry_bytes entry =
     put_be16 (vr_key_id entry) @ take 12 (vr_iv entry) @ take 16 (encrypted_challenge entry) @ take 16 (vr_tag entry)"

definition ccsds_sdls_ep_verify_reply_encode :: "ccsds_sdls_ep_verify_reply_entry list \<Rightarrow> bytes" where
  "ccsds_sdls_ep_verify_reply_encode entries =
     encode_header CCSDS_SDLS_EP_REPLY CCSDS_SDLS_EP_KEY_MANAGEMENT CCSDS_SDLS_EP_KEY_VERIFICATION (length entries * 46) @
     concat (map verify_reply_entry_bytes entries)"

definition ccsds_sdls_ep_verify_reply_decode ::
  "sdls_config \<Rightarrow> bytes \<Rightarrow> sdls_error + ccsds_sdls_ep_verify_reply_entry list" where
  "ccsds_sdls_ep_verify_reply_decode cfg encoded =
     (case expect_pdu cfg CCSDS_SDLS_EP_REPLY CCSDS_SDLS_EP_KEY_MANAGEMENT CCSDS_SDLS_EP_KEY_VERIFICATION encoded of
        Inl ret \<Rightarrow> Inl ret
      | Inr d \<Rightarrow>
          if length d = 0 \<or> length d mod 46 \<noteq> 0 then Inl CCSDS_SDLS_ERR_FORMAT
          else let key_count = length d div 46 in
          if key_count > CCSDS_SDLS_MAX_KEYS cfg then Inl CCSDS_SDLS_ERR_CAPACITY
          else Inr (map (\<lambda>i. \<lparr>vr_iv = take 12 (drop (i * 46 + 2) d), encrypted_challenge = take 16 (drop (i * 46 + 14) d),
            vr_tag = take 16 (drop (i * 46 + 30) d), vr_key_id = be16_at d (i * 46)\<rparr>) [0 ..< key_count]))"

text \<open>SA management.\<close>

definition decode_sa_pdu :: "sdls_config \<Rightarrow> bytes \<Rightarrow> u8 \<Rightarrow> u8 \<Rightarrow> nat \<Rightarrow> sdls_error + bytes" where
  "decode_sa_pdu cfg encoded type procedure data_len =
     (case expect_pdu cfg type CCSDS_SDLS_EP_SA_MANAGEMENT procedure encoded of
        Inl ret \<Rightarrow> Inl ret
      | Inr d \<Rightarrow> if length d = data_len then Inr d else Inl CCSDS_SDLS_ERR_FORMAT)"

record ccsds_sdls_ep_start_sa =
  start_spi :: u16
  associations :: "u32 list"

definition ccsds_sdls_ep_start_sa_encode :: "ccsds_sdls_ep_start_sa \<Rightarrow> bytes" where
  "ccsds_sdls_ep_start_sa_encode command =
     encode_header CCSDS_SDLS_EP_COMMAND CCSDS_SDLS_EP_SA_MANAGEMENT CCSDS_SDLS_EP_START_SA
       (2 + 4 * length (associations command)) @
     put_be16 (start_spi command) @ concat (map put_be32 (associations command))"

definition ccsds_sdls_ep_start_sa_decode :: "sdls_config \<Rightarrow> bytes \<Rightarrow> sdls_error + ccsds_sdls_ep_start_sa" where
  "ccsds_sdls_ep_start_sa_decode cfg encoded =
     (case expect_pdu cfg CCSDS_SDLS_EP_COMMAND CCSDS_SDLS_EP_SA_MANAGEMENT CCSDS_SDLS_EP_START_SA encoded of
        Inl ret \<Rightarrow> Inl ret
      | Inr d \<Rightarrow>
          if length d < 2 \<or> (length d - 2) mod 4 \<noteq> 0 then Inl CCSDS_SDLS_ERR_FORMAT
          else let count = (length d - 2) div 4 in
          if count > CCSDS_SDLS_MAX_SA cfg then Inl CCSDS_SDLS_ERR_CAPACITY
          else Inr \<lparr>start_spi = be16_at d 0, associations = map (\<lambda>i. be32_at d (2 + i * 4)) [0 ..< count]\<rparr>)"

definition ccsds_sdls_ep_sa_command_encode :: "u8 \<Rightarrow> u16 \<Rightarrow> bytes" where
  "ccsds_sdls_ep_sa_command_encode procedure spi =
     encode_header CCSDS_SDLS_EP_COMMAND CCSDS_SDLS_EP_SA_MANAGEMENT procedure 2 @ put_be16 spi"

definition ccsds_sdls_ep_sa_command_decode :: "sdls_config \<Rightarrow> u8 \<Rightarrow> bytes \<Rightarrow> sdls_error + u16" where
  "ccsds_sdls_ep_sa_command_decode cfg expected_procedure encoded =
     map_sum id (\<lambda>d. be16_at d 0) (decode_sa_pdu cfg encoded CCSDS_SDLS_EP_COMMAND expected_procedure 2)"

record ccsds_sdls_ep_rekey_sa =
  rekey_rx_arsn :: u32
  rekey_spi :: u16
  rekey_key_id :: u16
  has_rx_arsn :: bool

definition ccsds_sdls_ep_rekey_sa_encode :: "ccsds_sdls_ep_rekey_sa \<Rightarrow> bytes" where
  "ccsds_sdls_ep_rekey_sa_encode command =
     encode_header CCSDS_SDLS_EP_COMMAND CCSDS_SDLS_EP_SA_MANAGEMENT CCSDS_SDLS_EP_REKEY_SA
       (if has_rx_arsn command then 8 else 4) @
     put_be16 (rekey_spi command) @ put_be16 (rekey_key_id command) @
     (if has_rx_arsn command then put_be32 (rekey_rx_arsn command) else [])"

definition ccsds_sdls_ep_rekey_sa_decode :: "sdls_config \<Rightarrow> bytes \<Rightarrow> sdls_error + ccsds_sdls_ep_rekey_sa" where
  "ccsds_sdls_ep_rekey_sa_decode cfg encoded =
     (case expect_pdu cfg CCSDS_SDLS_EP_COMMAND CCSDS_SDLS_EP_SA_MANAGEMENT CCSDS_SDLS_EP_REKEY_SA encoded of
        Inl ret \<Rightarrow> Inl ret
      | Inr d \<Rightarrow>
          if length d \<noteq> 4 \<and> length d \<noteq> 8 then Inl CCSDS_SDLS_ERR_FORMAT
          else Inr \<lparr>rekey_rx_arsn = (if length d = 8 then be32_at d 4 else 0), rekey_spi = be16_at d 0,
            rekey_key_id = be16_at d 2, has_rx_arsn = (length d = 8)\<rparr>)"

definition set_u32_encode :: "u8 \<Rightarrow> u16 \<Rightarrow> u32 \<Rightarrow> bytes" where
  "set_u32_encode procedure spi v =
     encode_header CCSDS_SDLS_EP_COMMAND CCSDS_SDLS_EP_SA_MANAGEMENT procedure 6 @ put_be16 spi @ put_be32 v"

definition ccsds_sdls_ep_set_arsn_encode :: "u16 \<times> u32 \<Rightarrow> bytes" where
  "ccsds_sdls_ep_set_arsn_encode command = set_u32_encode CCSDS_SDLS_EP_SET_ARSN (fst command) (snd command)"

definition ccsds_sdls_ep_set_arsn_decode :: "sdls_config \<Rightarrow> bytes \<Rightarrow> sdls_error + u16 \<times> u32" where
  "ccsds_sdls_ep_set_arsn_decode cfg encoded =
     map_sum id (\<lambda>d. (be16_at d 0, be32_at d 2)) (decode_sa_pdu cfg encoded CCSDS_SDLS_EP_COMMAND CCSDS_SDLS_EP_SET_ARSN 6)"

definition ccsds_sdls_ep_set_arsn_window_encode :: "u16 \<times> u32 \<Rightarrow> bytes" where
  "ccsds_sdls_ep_set_arsn_window_encode command =
     set_u32_encode CCSDS_SDLS_EP_SET_ARSN_WINDOW (fst command) (snd command)"

definition ccsds_sdls_ep_set_arsn_window_decode :: "sdls_config \<Rightarrow> bytes \<Rightarrow> sdls_error + u16 \<times> u32" where
  "ccsds_sdls_ep_set_arsn_window_decode cfg encoded =
     map_sum id (\<lambda>d. (be16_at d 0, be32_at d 2))
       (decode_sa_pdu cfg encoded CCSDS_SDLS_EP_COMMAND CCSDS_SDLS_EP_SET_ARSN_WINDOW 6)"

definition ccsds_sdls_ep_read_arsn_reply_encode :: "u16 \<times> u32 \<Rightarrow> bytes" where
  "ccsds_sdls_ep_read_arsn_reply_encode reply =
     encode_header CCSDS_SDLS_EP_REPLY CCSDS_SDLS_EP_SA_MANAGEMENT CCSDS_SDLS_EP_READ_ARSN 6 @
     put_be16 (fst reply) @ put_be32 (snd reply)"

definition ccsds_sdls_ep_read_arsn_reply_decode :: "sdls_config \<Rightarrow> bytes \<Rightarrow> sdls_error + u16 \<times> u32" where
  "ccsds_sdls_ep_read_arsn_reply_decode cfg encoded =
     map_sum id (\<lambda>d. (be16_at d 0, be32_at d 2)) (decode_sa_pdu cfg encoded CCSDS_SDLS_EP_REPLY CCSDS_SDLS_EP_READ_ARSN 6)"

definition ccsds_sdls_ep_sa_status_reply_encode :: "u16 \<times> u8 \<Rightarrow> bytes" where
  "ccsds_sdls_ep_sa_status_reply_encode reply =
     encode_header CCSDS_SDLS_EP_REPLY CCSDS_SDLS_EP_SA_MANAGEMENT CCSDS_SDLS_EP_SA_STATUS 3 @
     put_be16 (fst reply) @ [snd reply]"

definition ccsds_sdls_ep_sa_status_reply_decode :: "sdls_config \<Rightarrow> bytes \<Rightarrow> sdls_error + u16 \<times> u8" where
  "ccsds_sdls_ep_sa_status_reply_decode cfg encoded =
     map_sum id (\<lambda>d. (be16_at d 0, d ! 2)) (decode_sa_pdu cfg encoded CCSDS_SDLS_EP_REPLY CCSDS_SDLS_EP_SA_STATUS 3)"

text \<open>Monitoring.\<close>

definition ccsds_sdls_ep_alarm_flag_reset_encode :: bytes where
  "ccsds_sdls_ep_alarm_flag_reset_encode =
     encode_header CCSDS_SDLS_EP_COMMAND CCSDS_SDLS_EP_SECURITY_MONITORING CCSDS_SDLS_EP_ALARM_FLAG_RESET 0"

definition ccsds_sdls_ep_monitoring_command_encode :: "u8 \<Rightarrow> bytes" where
  "ccsds_sdls_ep_monitoring_command_encode procedure =
     encode_header CCSDS_SDLS_EP_COMMAND CCSDS_SDLS_EP_SECURITY_MONITORING procedure 0"

definition decode_empty_monitoring_command :: "sdls_config \<Rightarrow> bytes \<Rightarrow> u8 \<Rightarrow> sdls_error option" where
  "decode_empty_monitoring_command cfg encoded procedure =
     (case expect_pdu cfg CCSDS_SDLS_EP_COMMAND CCSDS_SDLS_EP_SECURITY_MONITORING procedure encoded of
        Inl ret \<Rightarrow> Some ret
      | Inr d \<Rightarrow> if length d = 0 then None else Some CCSDS_SDLS_ERR_FORMAT)"

definition encode_log_summary :: "u8 \<Rightarrow> u16 \<Rightarrow> u16 \<Rightarrow> bytes" where
  "encode_log_summary procedure retained remaining =
     encode_header CCSDS_SDLS_EP_REPLY CCSDS_SDLS_EP_SECURITY_MONITORING procedure 4 @
     put_be16 retained @ put_be16 remaining"

definition ccsds_sdls_ep_log_status_reply_decode :: "sdls_config \<Rightarrow> u8 \<Rightarrow> bytes \<Rightarrow> sdls_error + u16 \<times> u16" where
  "ccsds_sdls_ep_log_status_reply_decode cfg procedure encoded =
     (if procedure \<noteq> CCSDS_SDLS_EP_LOG_STATUS \<and> procedure \<noteq> CCSDS_SDLS_EP_ERASE_LOG then Inl CCSDS_SDLS_ERR_UNSUPPORTED
      else case expect_pdu cfg CCSDS_SDLS_EP_REPLY CCSDS_SDLS_EP_SECURITY_MONITORING procedure encoded of
        Inl ret \<Rightarrow> Inl ret
      | Inr d \<Rightarrow> if length d \<noteq> 4 then Inl CCSDS_SDLS_ERR_FORMAT else Inr (be16_at d 0, be16_at d 2))"

definition event_bytes :: "ccsds_sdls_event \<Rightarrow> bytes" where
  "event_bytes event =
     pdu_or_event_tag event # put_be16 7 @
     (case event_code event of None \<Rightarrow> 0 | Some code \<Rightarrow> event_code_value code) #
     put_be16 (event_spi event) @ put_be32 (event_arsn event)"

definition ccsds_sdls_ep_dump_log_reply_encode :: "sdls_config \<Rightarrow> 'cb ccsds_sdls_ctx \<Rightarrow> nat \<Rightarrow> sdls_error + bytes" where
  "ccsds_sdls_ep_dump_log_reply_encode cfg ctx out_capacity =
     (let data_len = event_count ctx * 10 in
      if out_capacity < 3 + data_len then Inl CCSDS_SDLS_ERR_CAPACITY
      else Inr (encode_header CCSDS_SDLS_EP_REPLY CCSDS_SDLS_EP_SECURITY_MONITORING CCSDS_SDLS_EP_DUMP_LOG data_len @
        concat (map (\<lambda>i. event_bytes
            (events ctx ! ((event_read_index ctx + i) mod CCSDS_SDLS_EVENT_LOG_CAPACITY cfg)))
          [0 ..< event_count ctx])))"

definition ccsds_sdls_ep_self_test_reply_decode :: "sdls_config \<Rightarrow> bytes \<Rightarrow> sdls_error + u8" where
  "ccsds_sdls_ep_self_test_reply_decode cfg encoded =
     (case expect_pdu cfg CCSDS_SDLS_EP_REPLY CCSDS_SDLS_EP_SECURITY_MONITORING CCSDS_SDLS_EP_SELF_TEST encoded of
        Inl ret \<Rightarrow> Inl ret
      | Inr d \<Rightarrow>
          if length d \<noteq> 1 then Inl CCSDS_SDLS_ERR_FORMAT
          else if d ! 0 \<noteq> CCSDS_SDLS_SELF_TEST_OK \<and> d ! 0 \<noteq> CCSDS_SDLS_SELF_TEST_NOT_OK then Inl CCSDS_SDLS_ERR_FORMAT
          else Inr (d ! 0))"

section \<open>The contract of the codecs\<close>

text \<open>
  \<open>ok\<close> is what the encoder's caller promises; the decoder accepts exactly the encodings of such objects.
\<close>

locale ep_codec =
  fixes decode :: "bytes \<Rightarrow> sdls_error + 'p" and encode :: "'p \<Rightarrow> bytes" and ok :: "'p \<Rightarrow> bool"
  assumes decode_iff: "decode bs = Inr p \<longleftrightarrow> ok p \<and> bs = encode p"
begin

lemma round_trip: "ok p \<Longrightarrow> decode (encode p) = Inr p"
  by (simp add: decode_iff)

lemma canonical: "decode bs = Inr p \<Longrightarrow> encode p = bs \<and> ok p"
  using decode_iff [of bs p] by blast

lemma encode_injective: "ok p \<Longrightarrow> ok q \<Longrightarrow> encode p = encode q \<Longrightarrow> p = q"
  by (metis round_trip sum.inject(2))

end

lemma expect_pdu_iff:
  "expect_pdu cfg r g p bs = Inr d \<longleftrightarrow> procedure_supported r g p \<and> ep_fits cfg (length d) \<and> bs = ep_frame r g p d"
proof
  assume "expect_pdu cfg r g p bs = Inr d"
  then obtain pdu where "ccsds_sdls_ep_pdu_decode cfg bs = Inr pdu" "ep_type pdu = r" "service_group pdu = g"
      "ep_procedure pdu = p" "pdu_data pdu = d"
    by (auto simp: expect_pdu_def split: sum.splits if_splits)
  then show "procedure_supported r g p \<and> ep_fits cfg (length d) \<and> bs = ep_frame r g p d"
    by (simp add: decode_frame_iff)
qed (auto simp: expect_pdu_def decode_frame)

lemma ep_frame_inject [simp]: "ep_frame r g p d = ep_frame r g p d' \<longleftrightarrow> d = d'"
proof
  assume "ep_frame r g p d = ep_frame r g p d'"
  then have "drop 3 (ep_frame r g p d) = drop 3 (ep_frame r g p d')" by simp
  then show "d = d'" by (simp add: ep_frame_def encode_header_def)
qed simp

lemma codec_iff:
  assumes "\<And>bs. dec bs = (case expect_pdu cfg r g pr bs of Inl ret \<Rightarrow> Inl ret | Inr d \<Rightarrow> parse d)"
    and "\<And>d p. parse d = Inr p \<longleftrightarrow> well p \<and> d = payload p"
    and "\<And>p. well p \<Longrightarrow> enc p = ep_frame r g pr (payload p)"
  shows "dec bs = Inr p \<longleftrightarrow>
    (procedure_supported r g pr \<and> well p \<and> ep_fits cfg (length (payload p))) \<and> bs = enc p"
proof
  assume "dec bs = Inr p"
  then obtain d where "expect_pdu cfg r g pr bs = Inr d" "parse d = Inr p"
    by (auto simp: assms(1) split: sum.splits)
  then show "(procedure_supported r g pr \<and> well p \<and> ep_fits cfg (length (payload p))) \<and> bs = enc p"
    by (auto simp: assms(2,3) expect_pdu_iff)
next
  assume p: "(procedure_supported r g pr \<and> well p \<and> ep_fits cfg (length (payload p))) \<and> bs = enc p"
  then have "expect_pdu cfg r g pr bs = Inr (payload p)" by (simp add: expect_pdu_iff assms(3))
  moreover have "parse (payload p) = Inr p" using p by (simp add: assms(2))
  ultimately show "dec bs = Inr p" by (simp add: assms(1))
qed

lemma take_drop_join: "take n (drop i d) @ drop (i + n) d = drop i d"
  by (metis add.commute append_take_drop_id drop_drop)

lemma put_be_join:
  "i + 2 \<le> length d \<Longrightarrow> put_be16 (be16_at d i) @ drop (i + 2) d = drop i d"
  "i + 4 \<le> length d \<Longrightarrow> put_be32 (be32_at d i) @ drop (i + 4) d = drop i d"
  using take_drop_join [of 2 i d] take_drop_join [of 4 i d] by (simp_all only: put_be16_at put_be32_at)

lemma put_be16_join: "2 \<le> length d \<Longrightarrow> put_be16 (be16_at d 0) @ drop 2 d = d"
  using put_be_join(1) [of 0 d] by (simp only: add_0 drop_0)

lemma be_at_put_end [simp]: "length xs = i \<Longrightarrow> be32_at (xs @ put_be32 w) i = w" "length xs = i \<Longrightarrow> be16_at (xs @ put_be16 v) i = v"
  using be32_at_put [of xs i w "[]"] be16_at_put [of xs i v "[]"] by simp_all

text \<open>Payloads of fixed size.\<close>

lemma payload_2: "length d = 2 \<and> be16_at d 0 = v \<longleftrightarrow> d = put_be16 v"
  using put_be16_join [of d] by auto

lemma payload_4: "length d = 4 \<and> be16_at d 0 = v \<and> be16_at d 2 = w \<longleftrightarrow> d = put_be16 v @ put_be16 w"
proof
  assume "length d = 4 \<and> be16_at d 0 = v \<and> be16_at d 2 = w"
  then show "d = put_be16 v @ put_be16 w"
    using put_be16_join [of d] put_be_join(1) [of 2 d] by auto
qed auto

lemma payload_6: "length d = 6 \<and> be16_at d 0 = v \<and> be32_at d 2 = w \<longleftrightarrow> d = put_be16 v @ put_be32 w"
proof
  assume "length d = 6 \<and> be16_at d 0 = v \<and> be32_at d 2 = w"
  then show "d = put_be16 v @ put_be32 w"
    using put_be16_join [of d] put_be_join(2) [of 2 d] by auto
qed auto

lemma payload_8: "length d = 8 \<and> be16_at d 0 = u \<and> be16_at d 2 = v \<and> be32_at d 4 = w \<longleftrightarrow> d = put_be16 u @ put_be16 v @ put_be32 w"
proof
  assume "length d = 8 \<and> be16_at d 0 = u \<and> be16_at d 2 = v \<and> be32_at d 4 = w"
  then show "d = put_be16 u @ put_be16 v @ put_be32 w"
    using put_be16_join [of d] put_be_join(1) [of 2 d] put_be_join(2) [of 4 d] by auto
qed (use be_at_put_end(1) [of "put_be16 u @ put_be16 v" 4 w] in auto)

lemma concat_be16:
  assumes "length d = 2 * n"
  shows "concat (map put_be16 (map (\<lambda>i. be16_at d (i * 2)) [0 ..< n])) = d"
proof -
  have "map put_be16 (map (\<lambda>i. be16_at d (i * 2)) [0 ..< n]) = map (\<lambda>i. take 2 (drop (i * 2) d)) [0 ..< n]"
    using assms by (auto simp: put_be16_at)
  then show ?thesis using concat_chunks [of 2 n d] assms by (simp only:)
qed

lemma be16_chunks: "i < length xs \<Longrightarrow> be16_at (concat (map put_be16 xs)) (i * 2) = xs ! i"
  using be_at_drop(1) [of "i * 2" "concat (map put_be16 xs)" 0] drop_chunks [of xs put_be16 2 i]
    length_chunks [of xs put_be16 2] by simp

lemma be16_list_iff:
  "length d = 2 * n \<and> map (\<lambda>i. be16_at d (i * 2)) [0 ..< n] = xs \<longleftrightarrow> length xs = n \<and> d = concat (map put_be16 xs)"
proof
  assume "length xs = n \<and> d = concat (map put_be16 xs)"
  then show "length d = 2 * n \<and> map (\<lambda>i. be16_at d (i * 2)) [0 ..< n] = xs"
    using length_chunks [of xs put_be16 2] by (auto simp: be16_chunks intro!: nth_equalityI)
qed (use concat_be16 in auto)

section \<open>Key management PDUs\<close>

definition otar_ok :: "sdls_config \<Rightarrow> ccsds_sdls_ep_otar \<Rightarrow> bool" where
  "otar_ok cfg otar \<longleftrightarrow> 0 < otar_key_count otar \<and> otar_key_count otar \<le> CCSDS_SDLS_EP_MAX_OTAR_KEYS cfg \<and>
     length (otar_iv otar) = 12 \<and> length (otar_tag otar) = 16 \<and> length (encrypted_key_blocks otar) = otar_key_count otar * 34"

definition otar_payload :: "ccsds_sdls_ep_otar \<Rightarrow> bytes" where
  "otar_payload otar = put_be16 (master_key_id otar) @ otar_iv otar @ encrypted_key_blocks otar @ otar_tag otar"

lemma otar_parse:
  "(if length d < 2 + 12 + 16 + 34 then Inl CCSDS_SDLS_ERR_FORMAT
    else let encrypted_len = length d - 2 - 12 - 16 in
    if encrypted_len mod 34 \<noteq> 0 then Inl CCSDS_SDLS_ERR_FORMAT
    else let key_count = encrypted_len div 34 in
    if key_count > CCSDS_SDLS_EP_MAX_OTAR_KEYS cfg then Inl CCSDS_SDLS_ERR_CAPACITY
    else Inr \<lparr>encrypted_key_blocks = take encrypted_len (drop 14 d), otar_iv = take 12 (drop 2 d),
      otar_tag = take 16 (drop (14 + encrypted_len) d), master_key_id = be16_at d 0, otar_key_count = key_count\<rparr>) = Inr otar \<longleftrightarrow>
   otar_ok cfg otar \<and> d = otar_payload otar" (is "?p = _ \<longleftrightarrow> _")
proof
  assume dec: "?p = Inr otar"
  then have "\<not> length d < 64" "(length d - 30) mod 34 = 0" by (auto simp: Let_def split: if_splits)
  then have len: "64 \<le> length d" and "34 dvd length d - 30" by (simp_all add: mod_eq_0_iff_dvd)
  then obtain k where "length d - 30 = 34 * k" by (elim dvdE)
  with len have k: "length d = 30 + k * 34" "0 < k" by (simp, cases k, simp_all)
  with dec have m: "k \<le> CCSDS_SDLS_EP_MAX_OTAR_KEYS cfg"
    and o: "otar = \<lparr>encrypted_key_blocks = take (k * 34) (drop 14 d), otar_iv = take 12 (drop 2 d),
      otar_tag = take 16 (drop (14 + k * 34) d), master_key_id = be16_at d 0, otar_key_count = k\<rparr>"
    by (auto simp: Let_def split: if_splits)
  have "otar_payload otar = drop 0 d"
    using k put_be16_join [of d] take_drop_join [of 12 2 d] take_drop_join [of "k * 34" 14 d]
      take_drop_join [of 16 "14 + k * 34" d]
    by (simp add: o otar_payload_def)
  with k m show "otar_ok cfg otar \<and> d = otar_payload otar" by (simp add: otar_ok_def o)
next
  assume "otar_ok cfg otar \<and> d = otar_payload otar"
  then show "?p = Inr otar"
    by (simp add: otar_ok_def otar_payload_def Let_def)
qed

lemma otar_decode_iff:
  "ccsds_sdls_ep_otar_decode cfg bs = Inr otar \<longleftrightarrow>
     (procedure_supported 0 0 1 \<and> otar_ok cfg otar \<and> ep_fits cfg (length (otar_payload otar))) \<and> bs = ccsds_sdls_ep_otar_encode otar"
  by (rule codec_iff [where well = "otar_ok cfg" and payload = otar_payload, OF ccsds_sdls_ep_otar_decode_def])
    (rule otar_parse, simp add: ccsds_sdls_ep_otar_encode_def ep_frame_def otar_payload_def otar_ok_def Let_def add.assoc)

lemma key_command_parse:
  "(if length d = 0 \<or> length d mod 2 \<noteq> 0 then Inl CCSDS_SDLS_ERR_FORMAT
    else let key_count = length d div 2 in
    if key_count > CCSDS_SDLS_MAX_KEYS cfg then Inl CCSDS_SDLS_ERR_CAPACITY
    else Inr (map (\<lambda>i. be16_at d (i * 2)) [0 ..< key_count])) = Inr ids \<longleftrightarrow>
   (0 < length ids \<and> length ids \<le> CCSDS_SDLS_MAX_KEYS cfg) \<and> d = concat (map put_be16 ids)" (is "?p = _ \<longleftrightarrow> ?q")
proof
  assume dec: "?p = Inr ids"
  then have "d \<noteq> []" and len: "length d = 2 * (length d div 2)" and n: "length d div 2 \<le> CCSDS_SDLS_MAX_KEYS cfg"
    and ids: "map (\<lambda>i. be16_at d (i * 2)) [0 ..< length d div 2] = ids"
    by (auto simp: Let_def split: if_splits)
  from \<open>d \<noteq> []\<close> len have "0 < length d div 2" by (metis gr0I length_0_conv mult_0_right)
  with n len ids be16_list_iff [of d "length d div 2" ids] show ?q by metis
next
  assume "?q"
  moreover from this have "length d = 2 * length ids \<and> map (\<lambda>i. be16_at d (i * 2)) [0 ..< length ids] = ids"
    by (simp add: be16_list_iff)
  ultimately show "?p = Inr ids" by (auto simp: Let_def)
qed

lemma key_command_decode_iff:
  "ccsds_sdls_ep_key_command_decode cfg pr bs = Inr ids \<longleftrightarrow>
     (procedure_supported 0 0 pr \<and> (0 < length ids \<and> length ids \<le> CCSDS_SDLS_MAX_KEYS cfg) \<and>
      ep_fits cfg (length (concat (map put_be16 ids)))) \<and> bs = ccsds_sdls_ep_key_command_encode pr ids"
  by (rule codec_iff [where well = "\<lambda>ids. 0 < length ids \<and> length ids \<le> CCSDS_SDLS_MAX_KEYS cfg"
      and payload = "\<lambda>ids. concat (map put_be16 ids)", OF ccsds_sdls_ep_key_command_decode_def])
    (rule key_command_parse, simp add: ccsds_sdls_ep_key_command_encode_def ep_frame_def length_chunks)

lemma key_inventory_command_decode_iff:
  "ccsds_sdls_ep_key_inventory_command_decode cfg bs = Inr p \<longleftrightarrow>
     (procedure_supported 0 0 7 \<and> first_key_id p \<le> last_key_id p \<and>
      ep_fits cfg (length (put_be16 (first_key_id p) @ put_be16 (last_key_id p)))) \<and>
     bs = ccsds_sdls_ep_key_inventory_command_encode p"
proof (rule codec_iff [where well = "\<lambda>p. first_key_id p \<le> last_key_id p"
    and payload = "\<lambda>p. put_be16 (first_key_id p) @ put_be16 (last_key_id p)", OF ccsds_sdls_ep_key_inventory_command_decode_def])
  fix d :: bytes and p :: ccsds_sdls_ep_key_inventory_command
  show "(if length d \<noteq> 4 then Inl CCSDS_SDLS_ERR_FORMAT
     else let command = \<lparr>first_key_id = be16_at d 0, last_key_id = be16_at d 2\<rparr>
       in if last_key_id command < first_key_id command then Inl CCSDS_SDLS_ERR_KEY else Inr command) = Inr p \<longleftrightarrow>
    first_key_id p \<le> last_key_id p \<and> d = put_be16 (first_key_id p) @ put_be16 (last_key_id p)"
    unfolding payload_4 [symmetric] by (cases p) auto
qed (simp add: ccsds_sdls_ep_key_inventory_command_encode_def ep_frame_def)

section \<open>SA management PDUs\<close>

lemma sa_decode_eq:
  "map_sum id f (decode_sa_pdu cfg bs ty pr n) =
     (case expect_pdu cfg ty 1 pr bs of Inl ret \<Rightarrow> Inl ret
      | Inr d \<Rightarrow> if length d = n then Inr (f d) else Inl CCSDS_SDLS_ERR_FORMAT)"
  by (simp add: decode_sa_pdu_def split: sum.split)

lemma sa_command_decode_iff:
  "ccsds_sdls_ep_sa_command_decode cfg pr bs = Inr spi \<longleftrightarrow>
     (procedure_supported 0 1 pr \<and> True \<and> ep_fits cfg (length (put_be16 spi))) \<and> bs = ccsds_sdls_ep_sa_command_encode pr spi"
  by (rule codec_iff [where well = "\<lambda>_. True" and payload = put_be16, OF trans [OF ccsds_sdls_ep_sa_command_decode_def sa_decode_eq]])
    (auto simp: payload_2 [symmetric] ccsds_sdls_ep_sa_command_encode_def ep_frame_def)

lemma u32_payload_parse:
  "(if length d = 6 then Inr (be16_at d 0, be32_at d 2) else Inl CCSDS_SDLS_ERR_FORMAT) = Inr p \<longleftrightarrow>
     True \<and> d = put_be16 (fst p) @ put_be32 (snd p)"
  unfolding payload_6 [symmetric] by (cases p) auto

lemma set_arsn_decode_iff:
  "ccsds_sdls_ep_set_arsn_decode cfg bs = Inr p \<longleftrightarrow>
     (procedure_supported 0 1 10 \<and> True \<and> ep_fits cfg (length (put_be16 (fst p) @ put_be32 (snd p)))) \<and>
     bs = ccsds_sdls_ep_set_arsn_encode p"
  by (rule codec_iff [where well = "\<lambda>_. True" and payload = "\<lambda>p. put_be16 (fst p) @ put_be32 (snd p)",
        OF trans [OF ccsds_sdls_ep_set_arsn_decode_def sa_decode_eq]])
    (rule u32_payload_parse, simp add: ccsds_sdls_ep_set_arsn_encode_def set_u32_encode_def ep_frame_def)

lemma set_arsn_window_decode_iff:
  "ccsds_sdls_ep_set_arsn_window_decode cfg bs = Inr p \<longleftrightarrow>
     (procedure_supported 0 1 5 \<and> True \<and> ep_fits cfg (length (put_be16 (fst p) @ put_be32 (snd p)))) \<and>
     bs = ccsds_sdls_ep_set_arsn_window_encode p"
  by (rule codec_iff [where well = "\<lambda>_. True" and payload = "\<lambda>p. put_be16 (fst p) @ put_be32 (snd p)",
        OF trans [OF ccsds_sdls_ep_set_arsn_window_decode_def sa_decode_eq]])
    (rule u32_payload_parse, simp add: ccsds_sdls_ep_set_arsn_window_encode_def set_u32_encode_def ep_frame_def)

lemma read_arsn_reply_decode_iff:
  "ccsds_sdls_ep_read_arsn_reply_decode cfg bs = Inr p \<longleftrightarrow>
     (procedure_supported 1 1 0 \<and> True \<and> ep_fits cfg (length (put_be16 (fst p) @ put_be32 (snd p)))) \<and>
     bs = ccsds_sdls_ep_read_arsn_reply_encode p"
  by (rule codec_iff [where well = "\<lambda>_. True" and payload = "\<lambda>p. put_be16 (fst p) @ put_be32 (snd p)",
        OF trans [OF ccsds_sdls_ep_read_arsn_reply_decode_def sa_decode_eq]])
    (rule u32_payload_parse, simp add: ccsds_sdls_ep_read_arsn_reply_encode_def ep_frame_def)

lemma sa_status_reply_decode_iff:
  "ccsds_sdls_ep_sa_status_reply_decode cfg bs = Inr p \<longleftrightarrow>
     (procedure_supported 1 1 15 \<and> True \<and> ep_fits cfg (length (put_be16 (fst p) @ [snd p]))) \<and>
     bs = ccsds_sdls_ep_sa_status_reply_encode p"
proof (rule codec_iff [where well = "\<lambda>_. True" and payload = "\<lambda>p. put_be16 (fst p) @ [snd p]",
      OF trans [OF ccsds_sdls_ep_sa_status_reply_decode_def sa_decode_eq]])
  fix d :: bytes and p :: "u16 \<times> u8"
  have "drop 2 d = [d ! 2]" if "length d = 3" using that by (auto simp: length_Suc_conv eval_nat_numeral)
  then have "length d = 3 \<Longrightarrow> d = put_be16 (be16_at d 0) @ [d ! 2]" using put_be16_join [of d] by simp
  then show "(if length d = 3 then Inr (be16_at d 0, d ! 2) else Inl CCSDS_SDLS_ERR_FORMAT) = Inr p \<longleftrightarrow>
      True \<and> d = put_be16 (fst p) @ [snd p]"
    by (cases p) (auto simp: nth_append)
qed (simp add: ccsds_sdls_ep_sa_status_reply_encode_def ep_frame_def)

definition rekey_payload :: "ccsds_sdls_ep_rekey_sa \<Rightarrow> bytes" where
  "rekey_payload c = put_be16 (rekey_spi c) @ put_be16 (rekey_key_id c) @ (if has_rx_arsn c then put_be32 (rekey_rx_arsn c) else [])"

lemma rekey_decode_iff:
  "ccsds_sdls_ep_rekey_sa_decode cfg bs = Inr c \<longleftrightarrow>
     (procedure_supported 0 1 6 \<and> (has_rx_arsn c \<or> rekey_rx_arsn c = 0) \<and> ep_fits cfg (length (rekey_payload c))) \<and>
     bs = ccsds_sdls_ep_rekey_sa_encode c"
proof (rule codec_iff [where well = "\<lambda>c. has_rx_arsn c \<or> rekey_rx_arsn c = 0" and payload = rekey_payload,
      OF ccsds_sdls_ep_rekey_sa_decode_def])
  fix d :: bytes and c :: ccsds_sdls_ep_rekey_sa
  show "(if length d \<noteq> 4 \<and> length d \<noteq> 8 then Inl CCSDS_SDLS_ERR_FORMAT
     else Inr \<lparr>rekey_rx_arsn = (if length d = 8 then be32_at d 4 else 0), rekey_spi = be16_at d 0,
       rekey_key_id = be16_at d 2, has_rx_arsn = (length d = 8)\<rparr>) = Inr c \<longleftrightarrow>
    (has_rx_arsn c \<or> rekey_rx_arsn c = 0) \<and> d = rekey_payload c"
    using payload_8 [of d "rekey_spi c" "rekey_key_id c" "rekey_rx_arsn c"] payload_4 [of d "rekey_spi c" "rekey_key_id c"]
    by (cases c; cases "has_rx_arsn c") (auto simp: rekey_payload_def)
qed (simp add: ccsds_sdls_ep_rekey_sa_encode_def ep_frame_def rekey_payload_def eval_nat_numeral)

section \<open>PDUs that are lists of records\<close>

text \<open>Records of \<open>n\<close> bytes: \<open>wr\<close> writes one, \<open>rd\<close> reads one.\<close>

lemma chunk_list_iff:
  assumes wr: "\<And>x. well x \<Longrightarrow> length (wr x) = n" "\<And>x. well x \<Longrightarrow> rd (wr x) = x"
    and rd: "\<And>c. length c = n \<Longrightarrow> wr (rd c) = c \<and> well (rd c)"
  shows "length d = k * n \<and> map (\<lambda>i. rd (take n (drop (i * n) d))) [0 ..< k] = xs \<longleftrightarrow>
    length xs = k \<and> (\<forall>x\<in>set xs. well x) \<and> d = concat (map wr xs)"
proof
  assume l: "length d = k * n \<and> map (\<lambda>i. rd (take n (drop (i * n) d))) [0 ..< k] = xs"
  have c: "length (take n (drop (i * n) d)) = n" if "i < k" for i
  proof -
    have "Suc i * n \<le> k * n" using that by (intro mult_le_mono1) simp
    with l show ?thesis by simp
  qed
  have "map wr xs = map (\<lambda>i. take n (drop (i * n) d)) [0 ..< k]" using l rd c by (auto simp: comp_def)
  moreover have "n * k = length d" using l by (simp add: mult.commute)
  ultimately have "concat (map wr xs) = d" using concat_chunks [of n k d] by simp
  moreover have "\<forall>x\<in>set (map (\<lambda>i. rd (take n (drop (i * n) d))) [0 ..< k]). well x" using rd c by auto
  moreover have "length xs = k" using l by auto
  ultimately show "length xs = k \<and> (\<forall>x\<in>set xs. well x) \<and> d = concat (map wr xs)" using l by metis
next
  assume r: "length xs = k \<and> (\<forall>x\<in>set xs. well x) \<and> d = concat (map wr xs)"
  then have "length (concat (map wr xs)) = length xs * n" using wr(1) by (intro length_chunks) auto
  moreover have "take n (drop (i * n) d) = wr (xs ! i)" if "i < k" for i
  proof -
    have "drop (i * n) (concat (map wr xs)) = wr (xs ! i) @ concat (map wr (drop (Suc i) xs))"
      using r wr(1) that by (intro drop_chunks) auto
    with r wr(1) that show ?thesis by simp
  qed
  ultimately show "length d = k * n \<and> map (\<lambda>i. rd (take n (drop (i * n) d))) [0 ..< k] = xs"
    using r wr(2) by (auto intro!: nth_equalityI)
qed

text \<open>The way every decoder of such a list checks its length.\<close>

lemma chunk_parse:
  assumes "\<And>x. well x \<Longrightarrow> length (wr x) = n" "\<And>x. well x \<Longrightarrow> rd (wr x) = x"
    and "\<And>c. length c = n \<Longrightarrow> wr (rd c) = c \<and> well (rd c)" and n: "0 < n"
    and f: "\<And>k. length d = k * n \<Longrightarrow> map f [0 ..< k] = map (\<lambda>i. rd (take n (drop (i * n) d))) [0 ..< k]"
  shows "(if length d = 0 \<or> length d mod n \<noteq> 0 then Inl e1
      else let key_count = length d div n in if key_count > bound then Inl e2 else Inr (map f [0 ..< key_count])) = Inr xs \<longleftrightarrow>
    ((\<forall>x\<in>set xs. well x) \<and> 0 < length xs \<and> length xs \<le> bound) \<and> d = concat (map wr xs)" (is "?p = _ \<longleftrightarrow> ?q")
proof
  note iff = chunk_list_iff [of well wr n rd, OF assms(1-3)]
  {
    assume dec: "?p = Inr xs"
    then have "d \<noteq> []" "length d = length d div n * n" "length d div n \<le> bound" "map f [0 ..< length d div n] = xs"
      by (auto simp: Let_def split: if_splits)
    moreover from this have "0 < length d div n" by (metis gr0I length_0_conv mult_0)
    ultimately show ?q using iff [of d "length d div n" xs] f [of "length d div n"] by metis
  }
  assume "?q"
  moreover from this have l: "length d = length xs * n" and m: "map (\<lambda>i. rd (take n (drop (i * n) d))) [0 ..< length xs] = xs"
    using iff [of d "length xs" xs] by blast+
  ultimately show "?p = Inr xs" using n f [OF l] by (auto simp: Let_def)
qed

lemma be16_record: "k + 2 \<le> n \<Longrightarrow> j + n \<le> length d \<Longrightarrow> be16_at d (j + k) = be16_at (take n (drop j d)) k"
  by (simp add: be16_at_def add.assoc)

definition verify_command_read :: "bytes \<Rightarrow> ccsds_sdls_ep_verify_command_entry" where
  "verify_command_read c = \<lparr>challenge = take 16 (drop 2 c), vc_key_id = be16_at c 0\<rparr>"

lemma verify_command_decode_iff:
  "ccsds_sdls_ep_verify_command_decode cfg bs = Inr entries \<longleftrightarrow>
     (procedure_supported 0 0 4 \<and>
      ((\<forall>x\<in>set entries. length (challenge x) = 16) \<and> 0 < length entries \<and> length entries \<le> CCSDS_SDLS_MAX_KEYS cfg) \<and>
      ep_fits cfg (length (concat (map verify_command_entry_bytes entries)))) \<and>
     bs = ccsds_sdls_ep_verify_command_encode entries"
proof (rule codec_iff [where well = "\<lambda>entries. (\<forall>x\<in>set entries. length (challenge x) = 16) \<and> 0 < length entries \<and>
      length entries \<le> CCSDS_SDLS_MAX_KEYS cfg" and payload = "\<lambda>entries. concat (map verify_command_entry_bytes entries)",
      OF ccsds_sdls_ep_verify_command_decode_def], goal_cases)
  case (1 d entries)
  show ?case
  proof (rule chunk_parse [where rd = verify_command_read])
    fix c :: bytes
    assume "length c = 18"
    then show "verify_command_entry_bytes (verify_command_read c) = c \<and> length (challenge (verify_command_read c)) = 16"
      using put_be16_join [of c] by (simp add: verify_command_entry_bytes_def verify_command_read_def)
  next
    fix k
    assume l: "length d = k * 18"
    have "i * 18 + 18 \<le> length d" if "i < k" for i using that l mult_le_mono1 [of "Suc i" k 18] by simp
    then show "map (\<lambda>i. \<lparr>challenge = take 16 (drop (i * 18 + 2) d), vc_key_id = be16_at d (i * 18)\<rparr>) [0 ..< k] =
        map (\<lambda>i. verify_command_read (take 18 (drop (i * 18) d))) [0 ..< k]"
      using be16_record [of 0 18] by (auto simp: verify_command_read_def drop_take)
  qed (auto simp: verify_command_entry_bytes_def verify_command_read_def)
next
  case (2 entries)
  then have "length (concat (map verify_command_entry_bytes entries)) = length entries * 18"
    by (intro length_chunks) (auto simp: verify_command_entry_bytes_def)
  then show ?case by (simp add: ccsds_sdls_ep_verify_command_encode_def ep_frame_def)
qed

definition verify_reply_read :: "bytes \<Rightarrow> ccsds_sdls_ep_verify_reply_entry" where
  "verify_reply_read c = \<lparr>vr_iv = take 12 (drop 2 c), encrypted_challenge = take 16 (drop 14 c), vr_tag = take 16 (drop 30 c),
     vr_key_id = be16_at c 0\<rparr>"

definition verify_reply_entry_ok :: "ccsds_sdls_ep_verify_reply_entry \<Rightarrow> bool" where
  "verify_reply_entry_ok x \<longleftrightarrow> length (vr_iv x) = 12 \<and> length (encrypted_challenge x) = 16 \<and> length (vr_tag x) = 16"

lemma verify_reply_decode_iff:
  "ccsds_sdls_ep_verify_reply_decode cfg bs = Inr entries \<longleftrightarrow>
     (procedure_supported 1 0 4 \<and>
      ((\<forall>x\<in>set entries. verify_reply_entry_ok x) \<and> 0 < length entries \<and> length entries \<le> CCSDS_SDLS_MAX_KEYS cfg) \<and>
      ep_fits cfg (length (concat (map verify_reply_entry_bytes entries)))) \<and>
     bs = ccsds_sdls_ep_verify_reply_encode entries"
proof (rule codec_iff [where well = "\<lambda>entries. (\<forall>x\<in>set entries. verify_reply_entry_ok x) \<and> 0 < length entries \<and>
      length entries \<le> CCSDS_SDLS_MAX_KEYS cfg" and payload = "\<lambda>entries. concat (map verify_reply_entry_bytes entries)",
      OF ccsds_sdls_ep_verify_reply_decode_def], goal_cases)
  case (1 d entries)
  show ?case
  proof (rule chunk_parse [where rd = verify_reply_read])
    fix c :: bytes
    assume "length c = 46"
    then show "verify_reply_entry_bytes (verify_reply_read c) = c \<and> verify_reply_entry_ok (verify_reply_read c)"
      using put_be16_join [of c] take_drop_join [of 12 2 c] take_drop_join [of 16 14 c]
      by (simp add: verify_reply_entry_bytes_def verify_reply_read_def verify_reply_entry_ok_def)
  next
    fix k
    assume l: "length d = k * 46"
    have "i * 46 + 46 \<le> length d" if "i < k" for i using that l mult_le_mono1 [of "Suc i" k 46] by simp
    then show "map (\<lambda>i. \<lparr>vr_iv = take 12 (drop (i * 46 + 2) d), encrypted_challenge = take 16 (drop (i * 46 + 14) d),
          vr_tag = take 16 (drop (i * 46 + 30) d), vr_key_id = be16_at d (i * 46)\<rparr>) [0 ..< k] =
        map (\<lambda>i. verify_reply_read (take 46 (drop (i * 46) d))) [0 ..< k]"
      using be16_record [of 0 46] by (auto simp: verify_reply_read_def drop_take add.commute)
  qed (auto simp: verify_reply_entry_bytes_def verify_reply_read_def verify_reply_entry_ok_def)
next
  case (2 entries)
  then have "length (concat (map verify_reply_entry_bytes entries)) = length entries * 46"
    by (intro length_chunks) (auto simp: verify_reply_entry_bytes_def verify_reply_entry_ok_def)
  then show ?case by (simp add: ccsds_sdls_ep_verify_reply_encode_def ep_frame_def)
qed

lemma be32_record: "k + 4 \<le> n \<Longrightarrow> j + n \<le> length d \<Longrightarrow> be32_at d (j + k) = be32_at (take n (drop j d)) k"
  by (simp add: be32_at_def add.assoc)

definition start_sa_payload :: "ccsds_sdls_ep_start_sa \<Rightarrow> bytes" where
  "start_sa_payload c = put_be16 (start_spi c) @ concat (map put_be32 (associations c))"

lemma associations_iff:
  "length d = k * 4 \<and> map (\<lambda>i. be32_at d (i * 4)) [0 ..< k] = xs \<longleftrightarrow> length xs = k \<and> d = concat (map put_be32 xs)"
proof -
  have iff: "length d = k * 4 \<and> map (\<lambda>i. be32_at (take 4 (drop (i * 4) d)) 0) [0 ..< k] = xs \<longleftrightarrow>
      length xs = k \<and> (\<forall>x\<in>set xs. True) \<and> d = concat (map put_be32 xs)"
  proof (rule chunk_list_iff)
    fix c :: bytes
    assume "length c = 4"
    then show "put_be32 (be32_at c 0) = c \<and> True" using put_be32_at [of 0 c] by simp
  qed (use be_at_put_0 in auto)
  have "map (\<lambda>i. be32_at d (i * 4)) [0 ..< k] = map (\<lambda>i. be32_at (take 4 (drop (i * 4) d)) 0) [0 ..< k]" if "length d = k * 4"
  proof -
    have "i * 4 + 4 \<le> length d" if "i < k" for i using that \<open>length d = k * 4\<close> by simp
    then show ?thesis using be32_record [of 0 4] by auto
  qed
  with iff show ?thesis by auto
qed

lemma start_sa_decode_iff:
  "ccsds_sdls_ep_start_sa_decode cfg bs = Inr c \<longleftrightarrow>
     (procedure_supported 0 1 11 \<and> length (associations c) \<le> CCSDS_SDLS_MAX_SA cfg \<and> ep_fits cfg (length (start_sa_payload c))) \<and>
     bs = ccsds_sdls_ep_start_sa_encode c"
proof (rule codec_iff [where well = "\<lambda>c. length (associations c) \<le> CCSDS_SDLS_MAX_SA cfg" and payload = start_sa_payload,
      OF ccsds_sdls_ep_start_sa_decode_def], goal_cases)
  case (1 d c)
  let ?p = "if length d < 2 \<or> (length d - 2) mod 4 \<noteq> 0 then Inl CCSDS_SDLS_ERR_FORMAT
      else let count = (length d - 2) div 4
           in if CCSDS_SDLS_MAX_SA cfg < count then Inl CCSDS_SDLS_ERR_CAPACITY
              else Inr \<lparr>start_spi = be16_at d 0, associations = map (\<lambda>i. be32_at d (2 + i * 4)) [0 ..< count]\<rparr>"
  have shift: "be32_at d (Suc (Suc j)) = be32_at (drop 2 d) j" if "2 \<le> length d" for j
    using be_at_drop(2) [OF that, of j] by simp
  show "?p = Inr c \<longleftrightarrow> length (associations c) \<le> CCSDS_SDLS_MAX_SA cfg \<and> d = start_sa_payload c"
  proof
    assume "?p = Inr c"
    then have len: "2 \<le> length d" "length (drop 2 d) = (length d - 2) div 4 * 4" "(length d - 2) div 4 \<le> CCSDS_SDLS_MAX_SA cfg"
      and c: "c = \<lparr>start_spi = be16_at d 0, associations = map (\<lambda>i. be32_at (drop 2 d) (i * 4)) [0 ..< (length d - 2) div 4]\<rparr>"
      by (auto simp: Let_def shift split: if_splits)
    with associations_iff [of "drop 2 d" "(length d - 2) div 4" "associations c"] put_be16_join [of d]
    show "length (associations c) \<le> CCSDS_SDLS_MAX_SA cfg \<and> d = start_sa_payload c" by (simp add: start_sa_payload_def)
  next
    assume r: "length (associations c) \<le> CCSDS_SDLS_MAX_SA cfg \<and> d = start_sa_payload c"
    then have d: "drop 2 d = concat (map put_be32 (associations c))" "2 \<le> length d" "be16_at d 0 = start_spi c"
      by (simp_all add: start_sa_payload_def)
    then have l: "length d - 2 = length (associations c) * 4"
        "map (\<lambda>i. be32_at (drop 2 d) (i * 4)) [0 ..< length (associations c)] = associations c"
      using associations_iff [of "drop 2 d" "length (associations c)" "associations c"] by (simp flip: length_drop, metis)
    then have "map (\<lambda>i. be32_at d (Suc (Suc (i * 4)))) [0 ..< length (associations c)] = associations c"
      by (simp add: shift d(2))
    with l d conjunct1 [OF r] show "?p = Inr c" by (simp add: Let_def)
  qed
next
  case (2 c)
  then show ?case using length_chunks [of "associations c" put_be32 4]
    by (simp add: ccsds_sdls_ep_start_sa_encode_def ep_frame_def start_sa_payload_def mult.commute)
qed

definition inventory_read :: "bytes \<Rightarrow> ccsds_sdls_ep_key_inventory_entry" where
  "inventory_read c = \<lparr>inventory_key_id = be16_at c 0, inventory_state = c ! 2\<rparr>"

definition inventory_ok :: "sdls_config \<Rightarrow> ccsds_sdls_ep_key_inventory_entry list \<Rightarrow> bool" where
  "inventory_ok cfg entries \<longleftrightarrow> length entries \<le> CCSDS_SDLS_MAX_KEYS cfg \<and> length entries < 65536 \<and>
     (\<forall>i\<in>set [0 ..< length entries]. \<not> inventory_entry_bad entries i)"

definition inventory_payload :: "ccsds_sdls_ep_key_inventory_entry list \<Rightarrow> bytes" where
  "inventory_payload entries = put_be16 (word_of_nat (length entries)) @ concat (map inventory_entry_bytes entries)"

lemma length_inventory_payload: "length (inventory_payload entries) = 2 + length entries * 3"
  using length_chunks [of entries inventory_entry_bytes 3] by (simp add: inventory_payload_def inventory_entry_bytes_def)

lemma inventory_list_iff:
  "length d = k * 3 \<and> map (\<lambda>i. \<lparr>inventory_key_id = be16_at d (i * 3), inventory_state = d ! (i * 3 + 2)\<rparr>) [0 ..< k] = xs \<longleftrightarrow>
     length xs = k \<and> d = concat (map inventory_entry_bytes xs)"
proof -
  have iff: "length d = k * 3 \<and> map (\<lambda>i. inventory_read (take 3 (drop (i * 3) d))) [0 ..< k] = xs \<longleftrightarrow>
      length xs = k \<and> (\<forall>x\<in>set xs. True) \<and> d = concat (map inventory_entry_bytes xs)"
  proof (rule chunk_list_iff)
    fix c :: bytes
    assume c: "length c = 3"
    then have "drop 2 c = [c ! 2]" by (auto simp: length_Suc_conv eval_nat_numeral)
    with put_be16_join [of c] c show "inventory_entry_bytes (inventory_read c) = c \<and> True"
      by (simp add: inventory_entry_bytes_def inventory_read_def)
  qed (auto simp: inventory_entry_bytes_def inventory_read_def nth_append)
  have "map (\<lambda>i. \<lparr>inventory_key_id = be16_at d (i * 3), inventory_state = d ! (i * 3 + 2)\<rparr>) [0 ..< k] =
      map (\<lambda>i. inventory_read (take 3 (drop (i * 3) d))) [0 ..< k]" if "length d = k * 3"
  proof -
    have "i * 3 + 3 \<le> length d" "i * 3 \<le> length d" if "i < k" for i using that \<open>length d = k * 3\<close> by simp_all
    then show ?thesis using be16_record [of 0 3] by (auto simp: inventory_read_def)
  qed
  with iff show ?thesis by auto
qed

lemma inventory_reply_decode_iff:
  "ccsds_sdls_ep_key_inventory_reply_decode cfg bs = Inr entries \<longleftrightarrow>
     (procedure_supported 1 0 7 \<and> inventory_ok cfg entries \<and> ep_fits cfg (length (inventory_payload entries))) \<and>
     bs = ep_frame 1 0 7 (inventory_payload entries)"
proof (rule codec_iff [where well = "inventory_ok cfg" and payload = inventory_payload,
      OF ccsds_sdls_ep_key_inventory_reply_decode_def], goal_cases)
  case (1 d entries)
  let ?f = "\<lambda>d i. \<lparr>inventory_key_id = be16_at d (i * 3), inventory_state = d ! (i * 3 + 2)\<rparr>"
  let ?p = "if length d < 2 then Inl CCSDS_SDLS_ERR_FORMAT
     else let key_count = unat (be16_at d 0)
       in if CCSDS_SDLS_MAX_KEYS cfg < key_count then Inl CCSDS_SDLS_ERR_CAPACITY
          else if length d \<noteq> 2 + key_count * 3 then Inl CCSDS_SDLS_ERR_FORMAT
          else let entries = map (\<lambda>i. \<lparr>inventory_key_id = be16_at d (2 + i * 3), inventory_state = d ! (2 + i * 3 + 2)\<rparr>)
                   [0 ..< key_count]
            in if \<exists>i\<in>set [0 ..< key_count]. inventory_entry_bad entries i then Inl CCSDS_SDLS_ERR_FORMAT else Inr entries"
  have shift: "be16_at d (Suc (Suc j)) = be16_at (drop 2 d) j" if "2 \<le> length d" for j
    using be_at_drop(1) [OF that, of j] by simp
  show "?p = Inr entries \<longleftrightarrow> inventory_ok cfg entries \<and> d = inventory_payload entries"
  proof
    assume dec: "?p = Inr entries"
    let ?k = "unat (be16_at d 0)"
    from dec have len: "2 \<le> length d" "?k \<le> CCSDS_SDLS_MAX_KEYS cfg" "length d = 2 + ?k * 3"
      by (auto simp: Let_def split: if_splits)
    with dec have e: "entries = map (?f (drop 2 d)) [0 ..< ?k]" and bad: "\<forall>i\<in>set [0 ..< ?k]. \<not> inventory_entry_bad entries i"
      by (auto simp: Let_def shift simp del: set_upt split: if_splits)
    from len have "length (drop 2 d) = ?k * 3" by simp
    with e inventory_list_iff [of "drop 2 d" ?k entries]
    have "length entries = ?k" "drop 2 d = concat (map inventory_entry_bytes entries)" by simp_all
    with len bad put_be16_join [of d] unat_u16_less [of "be16_at d 0"]
    show "inventory_ok cfg entries \<and> d = inventory_payload entries"
      by (simp add: inventory_ok_def inventory_payload_def)
  next
    assume r: "inventory_ok cfg entries \<and> d = inventory_payload entries"
    then have k: "unat (be16_at d 0) = length entries" and l: "length d = 2 + length entries * 3"
      using length_inventory_payload [of entries]
      by (simp_all add: inventory_payload_def inventory_ok_def unsigned_of_nat take_bit_nat_eq_self)
    have "drop 2 d = concat (map inventory_entry_bytes entries)" using r by (simp add: inventory_payload_def)
    then have "map (?f (drop 2 d)) [0 ..< length entries] = entries"
      using inventory_list_iff [of "drop 2 d" "length entries" entries] by blast
    with r k l shift show "?p = Inr entries" by (simp add: Let_def inventory_ok_def del: set_upt)
  qed
qed simp

lemma inventory_reply_encode_ok:
  "inventory_ok cfg entries \<Longrightarrow> 5 + length entries * 3 \<le> cap \<Longrightarrow>
     ccsds_sdls_ep_key_inventory_reply_encode cfg entries cap = Inr (ep_frame 1 0 7 (inventory_payload entries))"
  by (auto simp: ccsds_sdls_ep_key_inventory_reply_encode_def inventory_ok_def ep_frame_def length_inventory_payload Let_def)
    (simp add: inventory_payload_def)

section \<open>The codecs are instances of the contract\<close>

lemma supported_commands [simp]:
  "procedure_supported 0 0 1" "procedure_supported 0 0 2" "procedure_supported 0 0 3" "procedure_supported 0 0 4"
  "procedure_supported 0 0 7" "procedure_supported 0 1 0" "procedure_supported 0 1 5" "procedure_supported 0 1 6"
  "procedure_supported 0 1 9" "procedure_supported 0 1 10" "procedure_supported 0 1 11" "procedure_supported 0 1 14"
  "procedure_supported 0 1 15" "procedure_supported 0 3 1" "procedure_supported 0 3 2" "procedure_supported 0 3 3"
  "procedure_supported 0 3 4" "procedure_supported 0 3 5" "procedure_supported 0 3 7"
  by (simp_all add: procedure_supported_def Let_def word_le_nat_alt)

lemma supported_replies [simp]:
  "procedure_supported 1 0 4" "procedure_supported 1 0 7" "procedure_supported 1 1 0" "procedure_supported 1 1 15"
  "procedure_supported 1 3 1" "procedure_supported 1 3 2" "procedure_supported 1 3 3" "procedure_supported 1 3 4"
  "procedure_supported 1 3 5"
  by (simp_all add: procedure_supported_def Let_def word_le_nat_alt)

definition key_ids_ok :: "sdls_config \<Rightarrow> u16 list \<Rightarrow> bool" where
  "key_ids_ok cfg ids \<longleftrightarrow> 0 < length ids \<and> length ids \<le> CCSDS_SDLS_MAX_KEYS cfg \<and> ep_fits cfg (2 * length ids)"

definition verify_command_ok :: "sdls_config \<Rightarrow> ccsds_sdls_ep_verify_command_entry list \<Rightarrow> bool" where
  "verify_command_ok cfg entries \<longleftrightarrow> (\<forall>x\<in>set entries. length (challenge x) = 16) \<and> 0 < length entries \<and>
     length entries \<le> CCSDS_SDLS_MAX_KEYS cfg \<and> ep_fits cfg (18 * length entries)"

definition verify_reply_ok :: "sdls_config \<Rightarrow> ccsds_sdls_ep_verify_reply_entry list \<Rightarrow> bool" where
  "verify_reply_ok cfg entries \<longleftrightarrow> (\<forall>x\<in>set entries. verify_reply_entry_ok x) \<and> 0 < length entries \<and>
     length entries \<le> CCSDS_SDLS_MAX_KEYS cfg \<and> ep_fits cfg (46 * length entries)"

lemma length_verify_entries:
  "\<forall>x\<in>set cs. length (challenge x) = 16 \<Longrightarrow> length (concat (map verify_command_entry_bytes cs)) = 18 * length cs"
  "\<forall>x\<in>set rs. verify_reply_entry_ok x \<Longrightarrow> length (concat (map verify_reply_entry_bytes rs)) = 46 * length rs"
  using length_chunks [of cs verify_command_entry_bytes 18] length_chunks [of rs verify_reply_entry_bytes 46]
  by (simp_all add: verify_command_entry_bytes_def verify_reply_entry_bytes_def verify_reply_entry_ok_def)

interpretation ep_otar: ep_codec "ccsds_sdls_ep_otar_decode cfg" ccsds_sdls_ep_otar_encode
  "\<lambda>p. otar_ok cfg p \<and> ep_fits cfg (length (otar_payload p))" for cfg
  by unfold_locales (simp add: otar_decode_iff)

interpretation ep_key_activation: ep_codec "ccsds_sdls_ep_key_command_decode cfg 2"
  "ccsds_sdls_ep_key_command_encode 2" "key_ids_ok cfg" for cfg
  using length_chunks [of _ put_be16 2] by unfold_locales (simp add: key_command_decode_iff key_ids_ok_def mult.commute)

interpretation ep_key_deactivation: ep_codec "ccsds_sdls_ep_key_command_decode cfg 3"
  "ccsds_sdls_ep_key_command_encode 3" "key_ids_ok cfg" for cfg
  using length_chunks [of _ put_be16 2] by unfold_locales (simp add: key_command_decode_iff key_ids_ok_def mult.commute)

interpretation ep_key_inventory: ep_codec "ccsds_sdls_ep_key_inventory_command_decode cfg" ccsds_sdls_ep_key_inventory_command_encode
  "\<lambda>p. first_key_id p \<le> last_key_id p \<and> ep_fits cfg 4" for cfg
  by unfold_locales (simp add: key_inventory_command_decode_iff)

interpretation ep_verify: ep_codec "ccsds_sdls_ep_verify_command_decode cfg" ccsds_sdls_ep_verify_command_encode
  "verify_command_ok cfg" for cfg
  by unfold_locales (auto simp: verify_command_decode_iff verify_command_ok_def length_verify_entries)

interpretation ep_verify_reply: ep_codec "ccsds_sdls_ep_verify_reply_decode cfg" ccsds_sdls_ep_verify_reply_encode
  "verify_reply_ok cfg" for cfg
  by unfold_locales (auto simp: verify_reply_decode_iff verify_reply_ok_def length_verify_entries)

interpretation ep_start_sa: ep_codec "ccsds_sdls_ep_start_sa_decode cfg" ccsds_sdls_ep_start_sa_encode
  "\<lambda>p. length (associations p) \<le> CCSDS_SDLS_MAX_SA cfg \<and> ep_fits cfg (length (start_sa_payload p))" for cfg
  by unfold_locales (simp add: start_sa_decode_iff)

interpretation ep_sa_command: ep_codec "ccsds_sdls_ep_sa_command_decode cfg pr" "ccsds_sdls_ep_sa_command_encode pr"
  "\<lambda>spi. procedure_supported 0 1 pr \<and> ep_fits cfg 2" for cfg pr
  by unfold_locales (simp add: sa_command_decode_iff)

interpretation ep_rekey: ep_codec "ccsds_sdls_ep_rekey_sa_decode cfg" ccsds_sdls_ep_rekey_sa_encode
  "\<lambda>c. (has_rx_arsn c \<or> rekey_rx_arsn c = 0) \<and> ep_fits cfg (length (rekey_payload c))" for cfg
  by unfold_locales (simp add: rekey_decode_iff)

interpretation ep_set_arsn: ep_codec "ccsds_sdls_ep_set_arsn_decode cfg" ccsds_sdls_ep_set_arsn_encode "\<lambda>p. ep_fits cfg 6" for cfg
  by unfold_locales (simp add: set_arsn_decode_iff)

interpretation ep_set_arsn_window: ep_codec "ccsds_sdls_ep_set_arsn_window_decode cfg" ccsds_sdls_ep_set_arsn_window_encode
  "\<lambda>p. ep_fits cfg 6" for cfg
  by unfold_locales (simp add: set_arsn_window_decode_iff)

interpretation ep_read_arsn: ep_codec "ccsds_sdls_ep_read_arsn_reply_decode cfg" ccsds_sdls_ep_read_arsn_reply_encode
  "\<lambda>p. ep_fits cfg 6" for cfg
  by unfold_locales (simp add: read_arsn_reply_decode_iff)

interpretation ep_sa_status: ep_codec "ccsds_sdls_ep_sa_status_reply_decode cfg" ccsds_sdls_ep_sa_status_reply_encode
  "\<lambda>p. ep_fits cfg 3" for cfg
  by unfold_locales (simp add: sa_status_reply_decode_iff)

text \<open>In a valid configuration the small PDUs, and every list the key procedures bound, fit.\<close>

lemma ep_fits_config:
  assumes "ep_config_ok cfg"
  shows "n \<le> 46 * CCSDS_SDLS_MAX_KEYS cfg \<Longrightarrow> ep_fits cfg n" "n \<le> CCSDS_SDLS_EP_OTAR_DATA_MAX cfg \<Longrightarrow> ep_fits cfg n"
    "n \<le> 10 * CCSDS_SDLS_EVENT_LOG_CAPACITY cfg \<Longrightarrow> ep_fits cfg n"
  using assms by (auto simp: ep_config_ok_def ep_fits_def ep_sizes)

lemma event_bytes_length: "length (event_bytes e) = 10"
  by (simp add: event_bytes_def)

section \<open>Properties\<close>

text \<open>
  C33. The command decoders accept exactly the encodings.  For each command (OTAR, Key Activation,
  Key Deactivation, Key Inventory, Key Verification, Start SA, Rekey SA, the commands that name one
  SPI, Set ARSN and Set ARSN Window) and for the replies to Key Verification, Read ARSN and SA
  Status: the decoder returns an object if and only if the object is within the profile's bounds
  and the input is, byte for byte, its encoding.  So no such object has two encodings and no input
  two meanings, and a PDU that is accepted can be rebuilt from what was decoded.
\<close>

theorem ep_codecs_canonical:
  "(ccsds_sdls_ep_otar_decode cfg bs = Inr a \<longleftrightarrow>
      otar_ok cfg a \<and> ep_fits cfg (length (otar_payload a)) \<and> bs = ccsds_sdls_ep_otar_encode a) \<and>
   (ccsds_sdls_ep_key_command_decode cfg CCSDS_SDLS_EP_KEY_ACTIVATION bs = Inr ids \<longleftrightarrow>
      key_ids_ok cfg ids \<and> bs = ccsds_sdls_ep_key_command_encode CCSDS_SDLS_EP_KEY_ACTIVATION ids) \<and>
   (ccsds_sdls_ep_key_command_decode cfg CCSDS_SDLS_EP_KEY_DEACTIVATION bs = Inr ids \<longleftrightarrow>
      key_ids_ok cfg ids \<and> bs = ccsds_sdls_ep_key_command_encode CCSDS_SDLS_EP_KEY_DEACTIVATION ids) \<and>
   (ccsds_sdls_ep_key_inventory_command_decode cfg bs = Inr kr \<longleftrightarrow>
      first_key_id kr \<le> last_key_id kr \<and> ep_fits cfg 4 \<and> bs = ccsds_sdls_ep_key_inventory_command_encode kr) \<and>
   (ccsds_sdls_ep_verify_command_decode cfg bs = Inr vs \<longleftrightarrow>
      verify_command_ok cfg vs \<and> bs = ccsds_sdls_ep_verify_command_encode vs) \<and>
   (ccsds_sdls_ep_verify_reply_decode cfg bs = Inr rs \<longleftrightarrow>
      verify_reply_ok cfg rs \<and> bs = ccsds_sdls_ep_verify_reply_encode rs) \<and>
   (ccsds_sdls_ep_start_sa_decode cfg bs = Inr c \<longleftrightarrow>
      length (associations c) \<le> CCSDS_SDLS_MAX_SA cfg \<and> ep_fits cfg (length (start_sa_payload c)) \<and>
      bs = ccsds_sdls_ep_start_sa_encode c) \<and>
   (ccsds_sdls_ep_rekey_sa_decode cfg bs = Inr k \<longleftrightarrow>
      (has_rx_arsn k \<or> rekey_rx_arsn k = 0) \<and> ep_fits cfg (length (rekey_payload k)) \<and>
      bs = ccsds_sdls_ep_rekey_sa_encode k) \<and>
   (ccsds_sdls_ep_sa_command_decode cfg pr bs = Inr spi \<longleftrightarrow>
      procedure_supported CCSDS_SDLS_EP_COMMAND CCSDS_SDLS_EP_SA_MANAGEMENT pr \<and> ep_fits cfg 2 \<and>
      bs = ccsds_sdls_ep_sa_command_encode pr spi) \<and>
   (ccsds_sdls_ep_set_arsn_decode cfg bs = Inr n \<longleftrightarrow> ep_fits cfg 6 \<and> bs = ccsds_sdls_ep_set_arsn_encode n) \<and>
   (ccsds_sdls_ep_set_arsn_window_decode cfg bs = Inr n \<longleftrightarrow> ep_fits cfg 6 \<and> bs = ccsds_sdls_ep_set_arsn_window_encode n) \<and>
   (ccsds_sdls_ep_read_arsn_reply_decode cfg bs = Inr n \<longleftrightarrow> ep_fits cfg 6 \<and> bs = ccsds_sdls_ep_read_arsn_reply_encode n) \<and>
   (ccsds_sdls_ep_sa_status_reply_decode cfg bs = Inr st \<longleftrightarrow> ep_fits cfg 3 \<and> bs = ccsds_sdls_ep_sa_status_reply_encode st)"
  by (simp only: ep_otar.decode_iff ep_key_activation.decode_iff ep_key_deactivation.decode_iff
      ep_key_inventory.decode_iff ep_verify.decode_iff ep_verify_reply.decode_iff ep_start_sa.decode_iff
      ep_rekey.decode_iff ep_sa_command.decode_iff ep_set_arsn.decode_iff ep_set_arsn_window.decode_iff
      ep_read_arsn.decode_iff ep_sa_status.decode_iff conj_assoc simp_thms)

text \<open>
  Dump Log reports the event ring.  With room for it, the reply is a PDU the peer's header decoder accepts whose data
  field is the retained events, oldest first, each as its ten-octet TLV; the TLVs determine the events.
\<close>

theorem dump_log_reports_ring:
  assumes "ep_config_ok cfg" "sdls_inv cfg ctx" "3 + 10 * event_count ctx \<le> out_capacity"
  shows "\<exists>reply. ccsds_sdls_ep_dump_log_reply_encode cfg ctx out_capacity = Inr reply \<and>
    ccsds_sdls_ep_pdu_decode cfg reply = Inr \<lparr>pdu_data = concat (map event_bytes (event_log cfg ctx)),
      service_group = CCSDS_SDLS_EP_SECURITY_MONITORING, ep_procedure = CCSDS_SDLS_EP_DUMP_LOG, ep_type = CCSDS_SDLS_EP_REPLY\<rparr> \<and>
    map (\<lambda>i. take 10 (drop (i * 10) (concat (map event_bytes (event_log cfg ctx))))) [0 ..< event_count ctx] =
      map event_bytes (event_log cfg ctx)"
proof -
  let ?log = "event_log cfg ctx"
  have n: "length ?log = event_count ctx" by (simp add: event_log_def)
  have len: "length (concat (map event_bytes ?log)) = event_count ctx * 10"
    using length_chunks [of ?log event_bytes 10] event_bytes_length n by simp
  have "event_count ctx \<le> CCSDS_SDLS_EVENT_LOG_CAPACITY cfg" using assms(2) by (simp add: sdls_inv_def)
  then have fits: "ep_fits cfg (length (concat (map event_bytes ?log)))"
    using ep_fits_config(3) [OF assms(1)] len by simp
  have "ccsds_sdls_ep_dump_log_reply_encode cfg ctx out_capacity = Inr (ep_frame 1 3 3 (concat (map event_bytes ?log)))"
    using assms(3) len by (simp add: ccsds_sdls_ep_dump_log_reply_encode_def ep_frame_def event_log_def comp_def)
  moreover have "take 10 (drop (i * 10) (concat (map event_bytes ?log))) = event_bytes (?log ! i)" if "i < event_count ctx" for i
    using drop_chunks [of ?log event_bytes 10 i] that n event_bytes_length by simp
  ultimately show ?thesis
    using decode_frame [OF supported_replies(7) fits] n by (auto intro!: nth_equalityI)
qed

theorem dump_log_reports_ring_witness:
  "\<exists>reply. ccsds_sdls_ep_dump_log_reply_encode default_sdls_config
     (ccsds_sdls_event_record default_sdls_config (ccsds_sdls_init default_sdls_config [] [] :: unit ccsds_sdls_ctx) 0xff
       CCSDS_SDLS_EVENT_STALE_ARSN 2 7) 83 = Inr reply"
proof -
  let ?ctx = "ccsds_sdls_event_record default_sdls_config (ccsds_sdls_init default_sdls_config [] [] :: unit ccsds_sdls_ctx) 0xff
       CCSDS_SDLS_EVENT_STALE_ARSN 2 7"
  have cap: "0 < CCSDS_SDLS_EVENT_LOG_CAPACITY default_sdls_config" by (simp add: default_sdls_config_def)
  have inv: "sdls_inv default_sdls_config ?ctx" by (rule event_record_log(1) [OF sdls_init_inv [OF cap] cap refl])
  then have "3 + 10 * event_count ?ctx \<le> 83" by (simp add: sdls_inv_def default_sdls_config_def)
  from dump_log_reports_ring [OF ep_config_ok_default inv this] show ?thesis by blast
qed

end
