(* ===== verification/Sdls_Ep.thy ===== *)
theory Sdls_Ep
  imports Sdls_Ep_Pdu
begin

unbundle bit_operations_syntax

text \<open>
  The recipient of the SDLS extended procedures (\<^verbatim>\<open>src/ccsds_sdls_ep.c\<close>, second half): key management, SA management and
  monitoring, and \<^verbatim>\<open>ccsds_sdls_ep_process_pdu\<close>, which dispatches them, records failures and hands back the reply.  The state is
  the SDLS context and the PSA key store \<open>'k\<close>; the PSA calls and the self test callback are the record \<open>psa_ops\<close>.
  The workspace and the stack copies that the code wipes do not appear, and a reply buffer is only changed on
  success, so a procedure returns its reply or an error.  Key and SA states are datatypes, so the range checks on
  their octets cannot fail and are left out.
\<close>

section \<open>The PSA key store\<close>

datatype psa_key_type = PSA_KEY_TYPE_AES | PSA_KEY_TYPE_OTHER
datatype psa_algorithm = PSA_ALG_GCM | PSA_ALG_OTHER
datatype psa_key_usage = PSA_KEY_USAGE_ENCRYPT | PSA_KEY_USAGE_DECRYPT | PSA_KEY_USAGE_OTHER

record psa_key_attributes =
  psa_type :: psa_key_type
  psa_bits :: nat
  psa_alg :: psa_algorithm
  psa_usage :: "psa_key_usage set"
  psa_volatile :: bool

record ('k, 'cb) psa_ops =
  psa_get_key_attributes :: "'k \<Rightarrow> u32 \<Rightarrow> psa_key_attributes option"
  psa_import_key :: "psa_key_attributes \<Rightarrow> bytes \<Rightarrow> 'k \<Rightarrow> u32 option \<times> 'k"
  psa_destroy_key :: "u32 \<Rightarrow> 'k \<Rightarrow> 'k"
  psa_aead_encrypt :: "'k \<Rightarrow> psa_aead"
  psa_aead_decrypt :: "'k \<Rightarrow> psa_aead"
  run_self_test :: "'cb \<Rightarrow> u8 \<Rightarrow> 'k \<Rightarrow> (int \<times> u8) \<times> 'k"

definition validate_key :: "('k, 'cb) psa_ops \<Rightarrow> 'k \<Rightarrow> u32 \<Rightarrow> psa_key_usage set \<Rightarrow> sdls_error option" where
  "validate_key psa ks kid required_usage =
     (case psa_get_key_attributes psa ks kid of
        None \<Rightarrow> Some CCSDS_SDLS_ERR_PSA
      | Some attributes \<Rightarrow>
          if psa_type attributes \<noteq> PSA_KEY_TYPE_AES \<or> psa_bits attributes \<noteq> 256 \<or> psa_alg attributes \<noteq> PSA_ALG_GCM \<or>
             \<not> required_usage \<subseteq> psa_usage attributes
          then Some CCSDS_SDLS_ERR_KEY else None)"

definition destroy_replaced_volatile_key :: "('k, 'cb) psa_ops \<Rightarrow> 'k \<Rightarrow> u32 \<Rightarrow> 'k" where
  "destroy_replaced_volatile_key psa ks kid =
     (case psa_get_key_attributes psa ks kid of
        None \<Rightarrow> ks
      | Some attributes \<Rightarrow> if psa_volatile attributes then psa_destroy_key psa kid ks else ks)"

section \<open>Over-the-air rekeying\<close>

fun otar_destinations_check ::
  "sdls_config \<Rightarrow> 'cb ccsds_sdls_ctx \<Rightarrow> u16 list \<Rightarrow> u16 list \<Rightarrow> sdls_error option" where
  "otar_destinations_check cfg ctx seen [] = None"
| "otar_destinations_check cfg ctx seen (kid # rest) =
     (if unat kid < CCSDS_SDLS_SESSION_KEY_BASE cfg \<or> unat kid \<ge> CCSDS_SDLS_MAX_KEYS cfg then Some CCSDS_SDLS_ERR_KEY
      else if kid \<in> set seen then Some CCSDS_SDLS_ERR_FORMAT
      else if psa_key_id (keys ctx ! unat kid) \<noteq> PSA_KEY_ID_NULL \<and> key_state (keys ctx ! unat kid) = CCSDS_SDLS_KEY_ACTIVE
      then Some CCSDS_SDLS_ERR_KEY_STATE
      else otar_destinations_check cfg ctx (kid # seen) rest)"

definition otar_attributes :: psa_key_attributes where
  "otar_attributes = \<lparr>psa_type = PSA_KEY_TYPE_AES, psa_bits = 256, psa_alg = PSA_ALG_GCM,
     psa_usage = {PSA_KEY_USAGE_ENCRYPT, PSA_KEY_USAGE_DECRYPT}, psa_volatile = True\<rparr>"

text \<open>The imports: the identifiers of the keys imported so far, and whether all of them were.\<close>

fun otar_import :: "('k, 'cb) psa_ops \<Rightarrow> 'k \<Rightarrow> bytes list \<Rightarrow> u32 list \<times> bool \<times> 'k" where
  "otar_import psa ks [] = ([], True, ks)"
| "otar_import psa ks (material # rest) =
     (case psa_import_key psa otar_attributes material ks of
        (None, ks') \<Rightarrow> ([], False, ks')
      | (Some kid, ks') \<Rightarrow>
          let (imported, ok, ks'') = otar_import psa ks' rest in (kid # imported, ok, ks''))"

text \<open>The commit: the identifiers that were replaced, and the new key table.\<close>

fun otar_commit :: "(u16 \<times> u32) list \<Rightarrow> ccsds_sdls_key list \<Rightarrow> u32 list \<times> ccsds_sdls_key list" where
  "otar_commit [] table = ([], table)"
| "otar_commit ((destination, kid) # rest) table =
     (let key = table ! unat destination;
          (replaced, table') = otar_commit rest (table[unat destination :=
            key\<lparr>psa_key_id := kid, key_state := CCSDS_SDLS_KEY_PREACTIVE, tx_arsn := 0\<rparr>])
      in (psa_key_id key # replaced, table'))"

definition ccsds_sdls_ep_process_otar ::
  "sdls_config \<Rightarrow> ('k, 'cb) psa_ops \<Rightarrow> 'cb ccsds_sdls_ctx \<Rightarrow> 'k \<Rightarrow> bytes \<Rightarrow> sdls_error option \<times> 'cb ccsds_sdls_ctx \<times> 'k" where
  "ccsds_sdls_ep_process_otar cfg psa ctx ks encoded =
     (case ccsds_sdls_ep_otar_decode cfg encoded of
        Inl ret \<Rightarrow> (Some ret, ctx, ks)
      | Inr otar \<Rightarrow>
          if unat (master_key_id otar) \<ge> CCSDS_SDLS_SESSION_KEY_BASE cfg then (Some CCSDS_SDLS_ERR_KEY, ctx, ks)
          else case ccsds_sdls_key_lookup cfg ctx (master_key_id otar) of
            Inl _ \<Rightarrow> (Some CCSDS_SDLS_ERR_KEY, ctx, ks)
          | Inr master \<Rightarrow>
              if key_state master \<noteq> CCSDS_SDLS_KEY_ACTIVE then (Some CCSDS_SDLS_ERR_KEY, ctx, ks)
              else case validate_key psa ks (psa_key_id master) {PSA_KEY_USAGE_DECRYPT} of
                Some ret \<Rightarrow> (Some ret, ctx, ks)
              | None \<Rightarrow>
                  let plaintext_len = otar_key_count otar * 34 in
                  case psa_aead_decrypt psa ks (psa_key_id master) (take 12 (drop 5 encoded)) (take 5 encoded)
                      (take (plaintext_len + 16) (drop 17 encoded)) of
                    Inl status \<Rightarrow>
                      (Some (if status = PSA_ERROR_INVALID_SIGNATURE then CCSDS_SDLS_ERR_AUTHENTICATION
                             else CCSDS_SDLS_ERR_PSA), ctx, ks)
                  | Inr plaintext \<Rightarrow>
                      if length plaintext \<noteq> plaintext_len then (Some CCSDS_SDLS_ERR_PSA, ctx, ks)
                      else
                        let destinations = map (\<lambda>i. be16_at plaintext (i * 34)) [0 ..< otar_key_count otar] in
                        case otar_destinations_check cfg ctx [] destinations of
                          Some ret \<Rightarrow> (Some ret, ctx, ks)
                        | None \<Rightarrow>
                            case otar_import psa ks
                                (map (\<lambda>i. take 32 (drop (i * 34 + 2) plaintext)) [0 ..< otar_key_count otar]) of
                              (imported, False, ks') \<Rightarrow>
                                (Some CCSDS_SDLS_ERR_PSA, ctx,
                                 fold (psa_destroy_key psa) (filter (\<lambda>kid. kid \<noteq> PSA_KEY_ID_NULL) imported) ks')
                            | (imported, True, ks') \<Rightarrow>
                                let (replaced, table) = otar_commit (zip destinations imported) (keys ctx) in
                                (None, ctx\<lparr>keys := table\<rparr>,
                                 fold (\<lambda>kid ks. destroy_replaced_volatile_key psa ks kid)
                                   (filter (\<lambda>kid. kid \<noteq> PSA_KEY_ID_NULL) replaced) ks'))"

section \<open>Key life cycle, inventory and verification\<close>

fun lifecycle_check ::
  "sdls_config \<Rightarrow> ('k, 'cb) psa_ops \<Rightarrow> 'k \<Rightarrow> 'cb ccsds_sdls_ctx \<Rightarrow> u8 \<Rightarrow> u16 list \<Rightarrow> u16 list \<Rightarrow> sdls_error option" where
  "lifecycle_check cfg psa ks ctx procedure seen [] = None"
| "lifecycle_check cfg psa ks ctx procedure seen (kid # rest) =
     (if unat kid < CCSDS_SDLS_SESSION_KEY_BASE cfg \<or> unat kid \<ge> CCSDS_SDLS_MAX_KEYS cfg \<or> kid \<in> set seen
      then Some CCSDS_SDLS_ERR_KEY
      else case ccsds_sdls_key_lookup cfg ctx kid of
        Inl _ \<Rightarrow> Some CCSDS_SDLS_ERR_KEY
      | Inr key \<Rightarrow>
          if (if procedure = CCSDS_SDLS_EP_KEY_DEACTIVATION
              then key_state key \<noteq> CCSDS_SDLS_KEY_ACTIVE \<and> key_state key \<noteq> CCSDS_SDLS_KEY_PREACTIVE
              else key_state key \<noteq> (if procedure = CCSDS_SDLS_EP_KEY_ACTIVATION then CCSDS_SDLS_KEY_PREACTIVE
                                    else CCSDS_SDLS_KEY_ACTIVE))
          then Some CCSDS_SDLS_ERR_KEY_STATE
          else case validate_key psa ks (psa_key_id key) {PSA_KEY_USAGE_ENCRYPT, PSA_KEY_USAGE_DECRYPT} of
            Some ret \<Rightarrow> Some ret
          | None \<Rightarrow> lifecycle_check cfg psa ks ctx procedure (kid # seen) rest)"

definition process_lifecycle ::
  "sdls_config \<Rightarrow> ('k, 'cb) psa_ops \<Rightarrow> 'k \<Rightarrow> 'cb ccsds_sdls_ctx \<Rightarrow> bytes \<Rightarrow> u8 \<Rightarrow>
     sdls_error option \<times> 'cb ccsds_sdls_ctx" where
  "process_lifecycle cfg psa ks ctx encoded procedure =
     (case ccsds_sdls_ep_key_command_decode cfg procedure encoded of
        Inl ret \<Rightarrow> (Some ret, ctx)
      | Inr ids \<Rightarrow>
          case lifecycle_check cfg psa ks ctx procedure [] ids of
            Some ret \<Rightarrow> (Some ret, ctx)
          | None \<Rightarrow>
              (None, ctx\<lparr>keys := fold (\<lambda>kid table. table[unat kid := (table ! unat kid)\<lparr>key_state :=
                 (if procedure = CCSDS_SDLS_EP_KEY_ACTIVATION then CCSDS_SDLS_KEY_ACTIVE
                  else CCSDS_SDLS_KEY_DEACTIVATED)\<rparr>]) ids (keys ctx)\<rparr>))"

definition ccsds_sdls_ep_process_key_activation ::
  "sdls_config \<Rightarrow> ('k, 'cb) psa_ops \<Rightarrow> 'k \<Rightarrow> 'cb ccsds_sdls_ctx \<Rightarrow> bytes \<Rightarrow> sdls_error option \<times> 'cb ccsds_sdls_ctx" where
  "ccsds_sdls_ep_process_key_activation cfg psa ks ctx encoded =
     process_lifecycle cfg psa ks ctx encoded CCSDS_SDLS_EP_KEY_ACTIVATION"

definition ccsds_sdls_ep_process_key_deactivation ::
  "sdls_config \<Rightarrow> ('k, 'cb) psa_ops \<Rightarrow> 'k \<Rightarrow> 'cb ccsds_sdls_ctx \<Rightarrow> bytes \<Rightarrow> sdls_error option \<times> 'cb ccsds_sdls_ctx" where
  "ccsds_sdls_ep_process_key_deactivation cfg psa ks ctx encoded =
     process_lifecycle cfg psa ks ctx encoded CCSDS_SDLS_EP_KEY_DEACTIVATION"

fun inventory_loop ::
  "sdls_config \<Rightarrow> ('k, 'cb) psa_ops \<Rightarrow> 'k \<Rightarrow> 'cb ccsds_sdls_ctx \<Rightarrow> nat list \<Rightarrow> ccsds_sdls_ep_key_inventory_entry list \<Rightarrow>
     sdls_error + ccsds_sdls_ep_key_inventory_entry list" where
  "inventory_loop cfg psa ks ctx [] entries = Inr entries"
| "inventory_loop cfg psa ks ctx (kid # rest) entries =
     (let key = keys ctx ! kid in
      if psa_key_id key = PSA_KEY_ID_NULL then inventory_loop cfg psa ks ctx rest entries
      else case validate_key psa ks (psa_key_id key) {PSA_KEY_USAGE_ENCRYPT, PSA_KEY_USAGE_DECRYPT} of
        Some ret \<Rightarrow> Inl ret
      | None \<Rightarrow>
          if length entries = CCSDS_SDLS_MAX_KEYS cfg then Inl CCSDS_SDLS_ERR_CAPACITY
          else inventory_loop cfg psa ks ctx rest
            (entries @ [\<lparr>inventory_key_id = word_of_nat kid, inventory_state = key_state_value (key_state key)\<rparr>]))"

definition ccsds_sdls_ep_process_key_inventory ::
  "sdls_config \<Rightarrow> ('k, 'cb) psa_ops \<Rightarrow> 'k \<Rightarrow> 'cb ccsds_sdls_ctx \<Rightarrow> bytes \<Rightarrow> nat \<Rightarrow> sdls_error + bytes" where
  "ccsds_sdls_ep_process_key_inventory cfg psa ks ctx encoded reply_capacity =
     (if \<not> authenticated_rx_valid ctx then Inl CCSDS_SDLS_ERR_AUTHENTICATION
      else case ccsds_sdls_ep_key_inventory_command_decode cfg encoded of
        Inl ret \<Rightarrow> Inl ret
      | Inr command \<Rightarrow>
          if unat (last_key_id command) \<ge> CCSDS_SDLS_MAX_KEYS cfg then Inl CCSDS_SDLS_ERR_KEY
          else case inventory_loop cfg psa ks ctx [unat (first_key_id command) ..< Suc (unat (last_key_id command))] [] of
            Inl ret \<Rightarrow> Inl ret
          | Inr entries \<Rightarrow>
              case ccsds_sdls_ep_key_inventory_reply_encode cfg entries (CCSDS_SDLS_EP_KEY_INVENTORY_REPLY_PDU_MAX cfg) of
                Inl ret \<Rightarrow> Inl ret
              | Inr reply \<Rightarrow> if reply_capacity < length reply then Inl CCSDS_SDLS_ERR_CAPACITY else Inr reply)"

fun verify_check ::
  "sdls_config \<Rightarrow> ('k, 'cb) psa_ops \<Rightarrow> 'k \<Rightarrow> 'cb ccsds_sdls_ctx \<Rightarrow> u16 list \<Rightarrow> u16 list \<Rightarrow> sdls_error option" where
  "verify_check cfg psa ks ctx seen [] = None"
| "verify_check cfg psa ks ctx seen (kid # rest) =
     (if unat kid < CCSDS_SDLS_SESSION_KEY_BASE cfg \<or> unat kid \<ge> CCSDS_SDLS_MAX_KEYS cfg \<or> kid \<in> set seen
      then Some CCSDS_SDLS_ERR_KEY
      else case ccsds_sdls_key_lookup cfg ctx kid of
        Inl _ \<Rightarrow> Some CCSDS_SDLS_ERR_KEY
      | Inr key \<Rightarrow>
          if key_state key = CCSDS_SDLS_KEY_DEACTIVATED then Some CCSDS_SDLS_ERR_KEY_STATE
          else case validate_key psa ks (psa_key_id key) {PSA_KEY_USAGE_ENCRYPT} of
            Some ret \<Rightarrow> Some ret
          | None \<Rightarrow> verify_check cfg psa ks ctx (kid # seen) rest)"

fun verify_encrypt ::
  "('k, 'cb) psa_ops \<Rightarrow> 'k \<Rightarrow> 'cb ccsds_sdls_ctx \<Rightarrow> u64 \<Rightarrow> ccsds_sdls_ep_verify_command_entry list \<Rightarrow>
     sdls_error + ccsds_sdls_ep_verify_reply_entry list \<times> u64" where
  "verify_encrypt psa ks ctx next_iv [] = Inr ([], next_iv)"
| "verify_encrypt psa ks ctx next_iv (entry # rest) =
     (let key = keys ctx ! unat (vc_key_id entry);
          iv = ccsds_sdls_construct_iv next_iv (tx_arsn key)
      in case psa_aead_encrypt psa ks (psa_key_id key) iv [] (challenge entry) of
        Inl status \<Rightarrow> Inl CCSDS_SDLS_ERR_PSA
      | Inr c \<Rightarrow>
          if length c \<noteq> 16 + 16 then Inl CCSDS_SDLS_ERR_PSA
          else case verify_encrypt psa ks ctx (next_iv + CCSDS_SDLS_IV_STRIDE) rest of
            Inl ret \<Rightarrow> Inl ret
          | Inr (replies, final_iv) \<Rightarrow>
              Inr (\<lparr>vr_iv = iv, encrypted_challenge = take 16 c, vr_tag = drop 16 c, vr_key_id = vc_key_id entry\<rparr> # replies,
                   final_iv))"

definition ccsds_sdls_ep_process_key_verification ::
  "sdls_config \<Rightarrow> ('k, 'cb) psa_ops \<Rightarrow> 'k \<Rightarrow> 'cb ccsds_sdls_ctx \<Rightarrow> bytes \<Rightarrow> (sdls_error + bytes) \<times> 'cb ccsds_sdls_ctx" where
  "ccsds_sdls_ep_process_key_verification cfg psa ks ctx encoded =
     (case ccsds_sdls_ep_verify_command_decode cfg encoded of
        Inl ret \<Rightarrow> (Inl ret, ctx)
      | Inr entries \<Rightarrow>
          case verify_check cfg psa ks ctx [] (map vc_key_id entries) of
            Some ret \<Rightarrow> (Inl ret, ctx)
          | None \<Rightarrow>
              case verify_encrypt psa ks ctx (tx_iv ctx) entries of
                Inl ret \<Rightarrow> (Inl ret, ctx)
              | Inr (replies, next_iv) \<Rightarrow>
                  (Inr (ccsds_sdls_ep_verify_reply_encode replies),
                   ctx\<lparr>keys := fold (\<lambda>entry table. table[unat (vc_key_id entry) :=
                         (table ! unat (vc_key_id entry))\<lparr>tx_arsn := tx_arsn (table ! unat (vc_key_id entry)) + 1\<rparr>])
                       entries (keys ctx),
                       tx_iv := next_iv\<rparr>))"

fun check_verification_loop ::
  "sdls_config \<Rightarrow> ('k, 'cb) psa_ops \<Rightarrow> 'k \<Rightarrow> 'cb ccsds_sdls_ctx \<Rightarrow> u16 list \<Rightarrow>
     (ccsds_sdls_ep_verify_command_entry \<times> ccsds_sdls_ep_verify_reply_entry) list \<Rightarrow> sdls_error option" where
  "check_verification_loop cfg psa ks ctx seen [] = None"
| "check_verification_loop cfg psa ks ctx seen ((command, reply) # rest) =
     (if vr_key_id reply \<noteq> vc_key_id command \<or> unat (vr_key_id reply) < CCSDS_SDLS_SESSION_KEY_BASE cfg \<or>
         unat (vr_key_id reply) \<ge> CCSDS_SDLS_MAX_KEYS cfg \<or> vr_key_id reply \<in> set seen
      then Some CCSDS_SDLS_ERR_KEY
      else case ccsds_sdls_key_lookup cfg ctx (vr_key_id reply) of
        Inl _ \<Rightarrow> Some CCSDS_SDLS_ERR_KEY
      | Inr key \<Rightarrow>
          case validate_key psa ks (psa_key_id key) {PSA_KEY_USAGE_DECRYPT} of
            Some ret \<Rightarrow> Some ret
          | None \<Rightarrow>
              case psa_aead_decrypt psa ks (psa_key_id key) (vr_iv reply) [] (encrypted_challenge reply @ vr_tag reply) of
                Inl status \<Rightarrow> Some (if status = PSA_ERROR_INVALID_SIGNATURE then CCSDS_SDLS_ERR_AUTHENTICATION
                                   else CCSDS_SDLS_ERR_PSA)
              | Inr clear \<Rightarrow>
                  if length clear \<noteq> 16 \<or> clear \<noteq> challenge command then Some CCSDS_SDLS_ERR_AUTHENTICATION
                  else check_verification_loop cfg psa ks ctx (vr_key_id reply # seen) rest)"

definition ccsds_sdls_ep_check_key_verification ::
  "sdls_config \<Rightarrow> ('k, 'cb) psa_ops \<Rightarrow> 'k \<Rightarrow> 'cb ccsds_sdls_ctx \<Rightarrow> bytes \<Rightarrow> bytes \<Rightarrow> sdls_error option" where
  "ccsds_sdls_ep_check_key_verification cfg psa ks ctx command_encoded reply_encoded =
     (case ccsds_sdls_ep_verify_command_decode cfg command_encoded of
        Inl ret \<Rightarrow> Some ret
      | Inr command \<Rightarrow>
          case ccsds_sdls_ep_verify_reply_decode cfg reply_encoded of
            Inl ret \<Rightarrow> Some ret
          | Inr reply \<Rightarrow>
              if length reply \<noteq> length command then Some CCSDS_SDLS_ERR_FORMAT
              else check_verification_loop cfg psa ks ctx [] (zip command reply))"

section \<open>SA management\<close>

definition sa_role_is_rx :: "ccsds_sdls_sa_role \<Rightarrow> bool" where
  "sa_role_is_rx role \<longleftrightarrow> role = CCSDS_SDLS_SA_EP_COMMAND_RX \<or> role = CCSDS_SDLS_SA_OPERATIONAL_TC_RX"

definition sa_role_is_tx :: "ccsds_sdls_sa_role \<Rightarrow> bool" where
  "sa_role_is_tx role \<longleftrightarrow> role = CCSDS_SDLS_SA_EP_REPLY_TX \<or> role = CCSDS_SDLS_SA_OPERATIONAL_TM_TX"

definition managed_sa :: "sdls_config \<Rightarrow> 'cb ccsds_sdls_ctx \<Rightarrow> u16 \<Rightarrow> sdls_error + nat" where
  "managed_sa cfg ctx spi =
     (if spi = 0 \<or> spi = 0xffff \<or> isl (ccsds_sdls_sa_lookup cfg ctx spi) then Inl CCSDS_SDLS_ERR_UNKNOWN_SA
      else Inr (unat spi - 1))"

definition validate_sa_key ::
  "sdls_config \<Rightarrow> ('k, 'cb) psa_ops \<Rightarrow> 'k \<Rightarrow> 'cb ccsds_sdls_ctx \<Rightarrow> nat \<Rightarrow> u16 \<Rightarrow> bool \<Rightarrow> sdls_error option" where
  "validate_sa_key cfg psa ks ctx slot kid session_only =
     (let tx = sa_role_is_tx (sa_roles ctx ! slot);
          usage = (if tx then PSA_KEY_USAGE_ENCRYPT else PSA_KEY_USAGE_DECRYPT)
      in if kid = 0 \<or> unat kid \<ge> CCSDS_SDLS_MAX_KEYS cfg \<or> (session_only \<and> unat kid < CCSDS_SDLS_SESSION_KEY_BASE cfg)
      then Some CCSDS_SDLS_ERR_KEY
      else case ccsds_sdls_key_lookup cfg ctx kid of
        Inl _ \<Rightarrow> Some CCSDS_SDLS_ERR_KEY
      | Inr key \<Rightarrow>
          if key_state key \<noteq> CCSDS_SDLS_KEY_ACTIVE then Some CCSDS_SDLS_ERR_KEY_STATE
          else case validate_key psa ks (psa_key_id key) {usage} of
            Some ret \<Rightarrow> Some ret
          | None \<Rightarrow>
              if \<exists>i\<in>set [0 ..< CCSDS_SDLS_MAX_SA cfg].
                   \<not> (i = slot \<or> \<not> configured (sas ctx ! i) \<or> ucast (key_slot (sas ctx ! i)) \<noteq> kid) \<and>
                   (sa_role_is_tx (sa_roles ctx ! i) \<noteq> tx \<or> sa_modes ctx ! i \<noteq> sa_modes ctx ! slot)
              then Some CCSDS_SDLS_ERR_KEY else None)"

text \<open>A write through the pointer to the SA.\<close>

definition set_sa :: "nat \<Rightarrow> (ccsds_sdls_sa \<Rightarrow> ccsds_sdls_sa) \<Rightarrow> 'cb ccsds_sdls_ctx \<Rightarrow> 'cb ccsds_sdls_ctx" where
  "set_sa slot f ctx = ctx\<lparr>sas := (sas ctx)[slot := f (sas ctx ! slot)]\<rparr>"

definition ccsds_sdls_ep_process_start_sa ::
  "sdls_config \<Rightarrow> ('k, 'cb) psa_ops \<Rightarrow> 'k \<Rightarrow> 'cb ccsds_sdls_ctx \<Rightarrow> bytes \<Rightarrow> sdls_error option \<times> 'cb ccsds_sdls_ctx" where
  "ccsds_sdls_ep_process_start_sa cfg psa ks ctx encoded =
     (case ccsds_sdls_ep_start_sa_decode cfg encoded of
        Inl ret \<Rightarrow> (Some ret, ctx)
      | Inr command \<Rightarrow>
          case managed_sa cfg ctx (start_spi command) of
            Inl ret \<Rightarrow> (Some ret, ctx)
          | Inr slot \<Rightarrow>
              if sa_state (sas ctx ! slot) \<noteq> CCSDS_SDLS_SA_STOPPED then (Some CCSDS_SDLS_ERR_SA_STATE, ctx)
              else case (if sa_modes ctx ! slot = CCSDS_SDLS_MODE_CLEAR then
                           if \<not> authenticated_rx_valid ctx \<or> authenticated_rx_spi ctx = start_spi command
                           then Some CCSDS_SDLS_ERR_AUTHENTICATION else None
                         else validate_sa_key cfg psa ks ctx slot (ucast (key_slot (sas ctx ! slot))) False) of
                Some ret \<Rightarrow> (Some ret, ctx)
              | None \<Rightarrow> (None, set_sa slot (\<lambda>sa. sa\<lparr>sa_state := CCSDS_SDLS_SA_OPERATIONAL,
                  last_procedure := push_bit 4 CCSDS_SDLS_EP_SA_MANAGEMENT OR CCSDS_SDLS_EP_START_SA\<rparr>) ctx))"

definition process_sa_transition ::
  "sdls_config \<Rightarrow> 'cb ccsds_sdls_ctx \<Rightarrow> bytes \<Rightarrow> u8 \<Rightarrow> ccsds_sdls_sa_state \<Rightarrow> ccsds_sdls_sa_state \<Rightarrow>
     sdls_error option \<times> 'cb ccsds_sdls_ctx" where
  "process_sa_transition cfg ctx encoded procedure from to =
     (case ccsds_sdls_ep_sa_command_decode cfg procedure encoded of
        Inl ret \<Rightarrow> (Some ret, ctx)
      | Inr spi \<Rightarrow>
          case managed_sa cfg ctx spi of
            Inl ret \<Rightarrow> (Some ret, ctx)
          | Inr slot \<Rightarrow>
              if sa_state (sas ctx ! slot) \<noteq> from then (Some CCSDS_SDLS_ERR_SA_STATE, ctx)
              else (None, set_sa slot (\<lambda>sa. sa\<lparr>sa_state := to,
                last_procedure := push_bit 4 CCSDS_SDLS_EP_SA_MANAGEMENT OR procedure\<rparr>) ctx))"

definition ccsds_sdls_ep_process_stop_sa ::
  "sdls_config \<Rightarrow> 'cb ccsds_sdls_ctx \<Rightarrow> bytes \<Rightarrow> sdls_error option \<times> 'cb ccsds_sdls_ctx" where
  "ccsds_sdls_ep_process_stop_sa cfg ctx encoded =
     process_sa_transition cfg ctx encoded CCSDS_SDLS_EP_STOP_SA CCSDS_SDLS_SA_OPERATIONAL CCSDS_SDLS_SA_STOPPED"

definition ccsds_sdls_ep_process_expire_sa ::
  "sdls_config \<Rightarrow> 'cb ccsds_sdls_ctx \<Rightarrow> bytes \<Rightarrow> sdls_error option \<times> 'cb ccsds_sdls_ctx" where
  "ccsds_sdls_ep_process_expire_sa cfg ctx encoded =
     process_sa_transition cfg ctx encoded CCSDS_SDLS_EP_EXPIRE_SA CCSDS_SDLS_SA_STOPPED CCSDS_SDLS_SA_EXPIRED"

definition ccsds_sdls_ep_process_rekey_sa ::
  "sdls_config \<Rightarrow> ('k, 'cb) psa_ops \<Rightarrow> 'k \<Rightarrow> 'cb ccsds_sdls_ctx \<Rightarrow> bytes \<Rightarrow> sdls_error option \<times> 'cb ccsds_sdls_ctx" where
  "ccsds_sdls_ep_process_rekey_sa cfg psa ks ctx encoded =
     (case ccsds_sdls_ep_rekey_sa_decode cfg encoded of
        Inl ret \<Rightarrow> (Some ret, ctx)
      | Inr command \<Rightarrow>
          case managed_sa cfg ctx (rekey_spi command) of
            Inl ret \<Rightarrow> (Some ret, ctx)
          | Inr slot \<Rightarrow>
              if sa_state (sas ctx ! slot) \<noteq> CCSDS_SDLS_SA_EXPIRED then (Some CCSDS_SDLS_ERR_SA_STATE, ctx)
              else if sa_modes ctx ! slot = CCSDS_SDLS_MODE_CLEAR then (Some CCSDS_SDLS_ERR_SA_STATE, ctx)
              else let rx = sa_role_is_rx (sa_roles ctx ! slot) in
              if rx = (\<not> has_rx_arsn command) then (Some CCSDS_SDLS_ERR_FORMAT, ctx)
              else case validate_sa_key cfg psa ks ctx slot (rekey_key_id command) True of
                Some ret \<Rightarrow> (Some ret, ctx)
              | None \<Rightarrow>
                  (None, set_sa slot (\<lambda>sa.
                     (if rx then sa\<lparr>rx_arsn := rekey_rx_arsn command, rx_arsn_initialized := True\<rparr> else sa)
                       \<lparr>key_slot := ucast (rekey_key_id command), sa_state := CCSDS_SDLS_SA_STOPPED,
                        last_procedure := push_bit 4 CCSDS_SDLS_EP_SA_MANAGEMENT OR CCSDS_SDLS_EP_REKEY_SA\<rparr>) ctx))"

definition mutable_rx_sa :: "sdls_config \<Rightarrow> 'cb ccsds_sdls_ctx \<Rightarrow> u16 \<Rightarrow> sdls_error + nat" where
  "mutable_rx_sa cfg ctx spi =
     (case managed_sa cfg ctx spi of
        Inl ret \<Rightarrow> Inl ret
      | Inr slot \<Rightarrow>
          if \<not> sa_role_is_rx (sa_roles ctx ! slot) then Inl CCSDS_SDLS_ERR_SA_STATE
          else if sa_modes ctx ! slot = CCSDS_SDLS_MODE_CLEAR then Inl CCSDS_SDLS_ERR_SA_STATE
          else if sa_state (sas ctx ! slot) = CCSDS_SDLS_SA_EXPIRED then Inl CCSDS_SDLS_ERR_SA_STATE
          else Inr slot)"

definition ccsds_sdls_ep_process_set_arsn ::
  "sdls_config \<Rightarrow> 'cb ccsds_sdls_ctx \<Rightarrow> bytes \<Rightarrow> sdls_error option \<times> 'cb ccsds_sdls_ctx" where
  "ccsds_sdls_ep_process_set_arsn cfg ctx encoded =
     (case ccsds_sdls_ep_set_arsn_decode cfg encoded of
        Inl ret \<Rightarrow> (Some ret, ctx)
      | Inr (spi, arsn) \<Rightarrow>
          case mutable_rx_sa cfg ctx spi of
            Inl ret \<Rightarrow> (Some ret, ctx)
          | Inr slot \<Rightarrow>
              if rx_arsn_initialized (sas ctx ! slot) \<and> arsn < rx_arsn (sas ctx ! slot)
              then (Some CCSDS_SDLS_ERR_REPLAY, ctx)
              else (None, set_sa slot (\<lambda>sa. sa\<lparr>rx_arsn := arsn, rx_arsn_initialized := True,
                last_procedure := push_bit 4 CCSDS_SDLS_EP_SA_MANAGEMENT OR CCSDS_SDLS_EP_SET_ARSN\<rparr>) ctx))"

definition ccsds_sdls_ep_process_set_arsn_window ::
  "sdls_config \<Rightarrow> 'cb ccsds_sdls_ctx \<Rightarrow> bytes \<Rightarrow> sdls_error option \<times> 'cb ccsds_sdls_ctx" where
  "ccsds_sdls_ep_process_set_arsn_window cfg ctx encoded =
     (case ccsds_sdls_ep_set_arsn_window_decode cfg encoded of
        Inl ret \<Rightarrow> (Some ret, ctx)
      | Inr (spi, window) \<Rightarrow>
          if window = 0 \<or> window > CCSDS_SDLS_ARSN_WINDOW cfg then (Some CCSDS_SDLS_ERR_CAPACITY, ctx)
          else case mutable_rx_sa cfg ctx spi of
            Inl ret \<Rightarrow> (Some ret, ctx)
          | Inr slot \<Rightarrow>
              (None, set_sa slot (\<lambda>sa. sa\<lparr>rx_window := window,
                last_procedure := push_bit 4 CCSDS_SDLS_EP_SA_MANAGEMENT OR CCSDS_SDLS_EP_SET_ARSN_WINDOW\<rparr>) ctx))"

definition ccsds_sdls_ep_process_read_arsn :: "sdls_config \<Rightarrow> 'cb ccsds_sdls_ctx \<Rightarrow> bytes \<Rightarrow> sdls_error + bytes" where
  "ccsds_sdls_ep_process_read_arsn cfg ctx encoded =
     (case ccsds_sdls_ep_sa_command_decode cfg CCSDS_SDLS_EP_READ_ARSN encoded of
        Inl ret \<Rightarrow> Inl ret
      | Inr spi \<Rightarrow>
          case mutable_rx_sa cfg ctx spi of
            Inl ret \<Rightarrow> Inl ret
          | Inr slot \<Rightarrow> Inr (ccsds_sdls_ep_read_arsn_reply_encode (spi, rx_arsn (sas ctx ! slot))))"

definition ccsds_sdls_ep_process_sa_status :: "sdls_config \<Rightarrow> 'cb ccsds_sdls_ctx \<Rightarrow> bytes \<Rightarrow> sdls_error + bytes" where
  "ccsds_sdls_ep_process_sa_status cfg ctx encoded =
     (case ccsds_sdls_ep_sa_command_decode cfg CCSDS_SDLS_EP_SA_STATUS encoded of
        Inl ret \<Rightarrow> Inl ret
      | Inr spi \<Rightarrow>
          case managed_sa cfg ctx spi of
            Inl ret \<Rightarrow> Inl ret
          | Inr slot \<Rightarrow> Inr (ccsds_sdls_ep_sa_status_reply_encode (spi, last_procedure (sas ctx ! slot))))"

section \<open>Monitoring\<close>

definition ccsds_sdls_set_self_test :: "'cb ccsds_sdls_ctx \<Rightarrow> 'cb option \<Rightarrow> 'cb ccsds_sdls_ctx" where
  "ccsds_sdls_set_self_test ctx callback = ctx\<lparr>self_test := callback\<rparr>"

fun event_code_from_error :: "sdls_error \<Rightarrow> ccsds_sdls_event_code" where
  "event_code_from_error CCSDS_SDLS_ERR_FORMAT = CCSDS_SDLS_EVENT_FORMAT"
| "event_code_from_error CCSDS_SDLS_ERR_AUTHENTICATION = CCSDS_SDLS_EVENT_AUTHENTICATION"
| "event_code_from_error CCSDS_SDLS_ERR_REPLAY = CCSDS_SDLS_EVENT_STALE_ARSN"
| "event_code_from_error CCSDS_SDLS_ERR_UNKNOWN_SA = CCSDS_SDLS_EVENT_UNKNOWN_SA"
| "event_code_from_error CCSDS_SDLS_ERR_SA_STATE = CCSDS_SDLS_EVENT_SA_STATE"
| "event_code_from_error CCSDS_SDLS_ERR_KEY = CCSDS_SDLS_EVENT_KEY_ID"
| "event_code_from_error CCSDS_SDLS_ERR_KEY_STATE = CCSDS_SDLS_EVENT_KEY_STATE"
| "event_code_from_error CCSDS_SDLS_ERR_PSA = CCSDS_SDLS_EVENT_PSA"
| "event_code_from_error CCSDS_SDLS_ERR_UNSUPPORTED = CCSDS_SDLS_EVENT_UNSUPPORTED"
| "event_code_from_error CCSDS_SDLS_ERR_CAPACITY = CCSDS_SDLS_EVENT_CAPACITY"

text \<open>\<open>None\<close> is a PDU whose header did not decode (\<^verbatim>\<open>pdu_valid\<close> false).\<close>

definition ep_event_code :: "ccsds_sdls_ep_pdu option \<Rightarrow> sdls_error \<Rightarrow> ccsds_sdls_event_code" where
  "ep_event_code decoded err =
     (case decoded of
        None \<Rightarrow> event_code_from_error err
      | Some pdu \<Rightarrow>
          if service_group pdu = CCSDS_SDLS_EP_KEY_MANAGEMENT \<and> ep_procedure pdu = CCSDS_SDLS_EP_OTAR \<and>
             err = CCSDS_SDLS_ERR_AUTHENTICATION
          then CCSDS_SDLS_EVENT_OTAR_AUTHENTICATION
          else if service_group pdu = CCSDS_SDLS_EP_KEY_MANAGEMENT \<and>
             (ep_procedure pdu = CCSDS_SDLS_EP_KEY_ACTIVATION \<or> ep_procedure pdu = CCSDS_SDLS_EP_KEY_DEACTIVATION)
          then CCSDS_SDLS_EVENT_KEY_TRANSITION
          else if service_group pdu = CCSDS_SDLS_EP_SA_MANAGEMENT then CCSDS_SDLS_EVENT_SA_TRANSITION
          else if service_group pdu = CCSDS_SDLS_EP_SECURITY_MONITORING \<and> ep_procedure pdu = CCSDS_SDLS_EP_SELF_TEST
          then CCSDS_SDLS_EVENT_SELF_TEST
          else event_code_from_error err)"

definition ccsds_sdls_ep_process_alarm_flag_reset ::
  "sdls_config \<Rightarrow> 'cb ccsds_sdls_ctx \<Rightarrow> bytes \<Rightarrow> sdls_error option \<times> 'cb ccsds_sdls_ctx" where
  "ccsds_sdls_ep_process_alarm_flag_reset cfg ctx encoded =
     (case expect_pdu cfg CCSDS_SDLS_EP_COMMAND CCSDS_SDLS_EP_SECURITY_MONITORING CCSDS_SDLS_EP_ALARM_FLAG_RESET encoded of
        Inl ret \<Rightarrow> (Some ret, ctx)
      | Inr d \<Rightarrow>
          if length d \<noteq> 0 then (Some CCSDS_SDLS_ERR_FORMAT, ctx)
          else (None, ctx\<lparr>fsr := (fsr ctx)\<lparr>alarm := False, bad_sequence := False, bad_mac := False, bad_sa := False\<rparr>\<rparr>))"

text \<open>The tail of the self test: the reply, and the event of a failed test.\<close>

definition self_test_reply :: "sdls_config \<Rightarrow> 'cb ccsds_sdls_ctx \<Rightarrow> bytes \<Rightarrow> u8 \<Rightarrow> bytes \<times> 'cb ccsds_sdls_ctx" where
  "self_test_reply cfg ctx encoded result =
     (encode_header CCSDS_SDLS_EP_REPLY CCSDS_SDLS_EP_SECURITY_MONITORING CCSDS_SDLS_EP_SELF_TEST 1 @ [result],
      if result = CCSDS_SDLS_SELF_TEST_NOT_OK
      then ccsds_sdls_event_record cfg ctx (if authenticated_rx_valid ctx then encoded ! 0 else CCSDS_SDLS_EVENT_TAG_LOCAL)
        CCSDS_SDLS_EVENT_SELF_TEST (if authenticated_rx_valid ctx then authenticated_rx_spi ctx else 0)
        (if authenticated_rx_valid ctx then authenticated_rx_arsn ctx else 0)
      else ctx)"

definition process_monitoring ::
  "sdls_config \<Rightarrow> ('k, 'cb) psa_ops \<Rightarrow> 'cb ccsds_sdls_ctx \<Rightarrow> 'k \<Rightarrow> ccsds_sdls_ep_pdu \<Rightarrow> bytes \<Rightarrow> nat \<Rightarrow>
     (sdls_error + bytes) \<times> 'cb ccsds_sdls_ctx \<times> 'k" where
  "process_monitoring cfg psa ctx ks pdu encoded reply_capacity =
     (if ep_type pdu \<noteq> CCSDS_SDLS_EP_COMMAND then (Inl CCSDS_SDLS_ERR_UNSUPPORTED, ctx, ks)
      else case decode_empty_monitoring_command cfg encoded (ep_procedure pdu) of
        Some ret \<Rightarrow> (Inl ret, ctx, ks)
      | None \<Rightarrow>
          if ep_procedure pdu = CCSDS_SDLS_EP_PING then
            (if reply_capacity < 3 then Inl CCSDS_SDLS_ERR_CAPACITY
             else Inr (encode_header CCSDS_SDLS_EP_REPLY CCSDS_SDLS_EP_SECURITY_MONITORING CCSDS_SDLS_EP_PING 0), ctx, ks)
          else if ep_procedure pdu = CCSDS_SDLS_EP_LOG_STATUS then
            (if reply_capacity < 7 then Inl CCSDS_SDLS_ERR_CAPACITY
             else Inr (encode_log_summary CCSDS_SDLS_EP_LOG_STATUS (word_of_nat (event_count ctx))
               (word_of_nat (CCSDS_SDLS_EVENT_LOG_CAPACITY cfg - event_count ctx))), ctx, ks)
          else if ep_procedure pdu = CCSDS_SDLS_EP_DUMP_LOG then
            (ccsds_sdls_ep_dump_log_reply_encode cfg ctx reply_capacity, ctx, ks)
          else if ep_procedure pdu = CCSDS_SDLS_EP_ERASE_LOG then
            if reply_capacity < 7 then (Inl CCSDS_SDLS_ERR_CAPACITY, ctx, ks)
            else (Inr (encode_log_summary CCSDS_SDLS_EP_ERASE_LOG 0 (word_of_nat (CCSDS_SDLS_EVENT_LOG_CAPACITY cfg))),
              ctx\<lparr>events := replicate (length (events ctx))
                    \<lparr>pdu_or_event_tag = 0, event_code = None, event_spi = 0, event_arsn = 0\<rparr>,
                  event_count := 0, event_read_index := 0, event_write_index := 0, event_overwrites := 0\<rparr>, ks)
          else if ep_procedure pdu = CCSDS_SDLS_EP_SELF_TEST then
            if reply_capacity < 4 then (Inl CCSDS_SDLS_ERR_CAPACITY, ctx, ks)
            else case self_test ctx of
              None \<Rightarrow>
                let (reply, ctx') = self_test_reply cfg ctx encoded CCSDS_SDLS_SELF_TEST_NOT_OK in (Inr reply, ctx', ks)
            | Some callback \<Rightarrow>
                (case run_self_test psa callback CCSDS_SDLS_SELF_TEST_NOT_OK ks of
                   ((ret, result), ks') \<Rightarrow>
                     if ret = 0 \<and> result \<noteq> CCSDS_SDLS_SELF_TEST_OK \<and> result \<noteq> CCSDS_SDLS_SELF_TEST_NOT_OK
                     then (Inl CCSDS_SDLS_ERR_FORMAT, ctx, ks')
                     else
                       let (reply, ctx') = self_test_reply cfg ctx encoded
                             (if ret \<noteq> 0 then CCSDS_SDLS_SELF_TEST_NOT_OK else result)
                       in (Inr reply, ctx', ks'))
          else if ep_procedure pdu = CCSDS_SDLS_EP_ALARM_FLAG_RESET then
            (case ccsds_sdls_ep_process_alarm_flag_reset cfg ctx encoded of
               (Some ret, ctx') \<Rightarrow> (Inl ret, ctx', ks)
             | (None, ctx') \<Rightarrow> (Inr [], ctx', ks))
          else (Inl CCSDS_SDLS_ERR_UNSUPPORTED, ctx, ks))"

section \<open>The packet service\<close>

text \<open>A procedure without a reply, as the dispatcher sees it.\<close>

definition no_reply ::
  "sdls_error option \<times> 'cb ccsds_sdls_ctx \<Rightarrow> 'k \<Rightarrow> (sdls_error + bytes) \<times> 'cb ccsds_sdls_ctx \<times> 'k" where
  "no_reply r ks = (case r of (Some ret, ctx) \<Rightarrow> (Inl ret, ctx, ks) | (None, ctx) \<Rightarrow> (Inr [], ctx, ks))"

definition dispatch_procedure ::
  "sdls_config \<Rightarrow> ('k, 'cb) psa_ops \<Rightarrow> 'cb ccsds_sdls_ctx \<Rightarrow> 'k \<Rightarrow> ccsds_sdls_ep_pdu \<Rightarrow> bytes \<Rightarrow> nat \<Rightarrow>
     (sdls_error + bytes) \<times> 'cb ccsds_sdls_ctx \<times> 'k" where
  "dispatch_procedure cfg psa ctx ks pdu encoded reply_capacity =
     (let p = ep_procedure pdu in
      if service_group pdu = CCSDS_SDLS_EP_KEY_MANAGEMENT then
        if p = CCSDS_SDLS_EP_OTAR then
          (case ccsds_sdls_ep_process_otar cfg psa ctx ks encoded of (r, ctx', ks') \<Rightarrow> no_reply (r, ctx') ks')
        else if p = CCSDS_SDLS_EP_KEY_ACTIVATION then no_reply (ccsds_sdls_ep_process_key_activation cfg psa ks ctx encoded) ks
        else if p = CCSDS_SDLS_EP_KEY_DEACTIVATION
        then no_reply (ccsds_sdls_ep_process_key_deactivation cfg psa ks ctx encoded) ks
        else if p = CCSDS_SDLS_EP_KEY_VERIFICATION then
          (case ccsds_sdls_ep_process_key_verification cfg psa ks ctx encoded of (r, ctx') \<Rightarrow> (r, ctx', ks))
        else if p = CCSDS_SDLS_EP_KEY_INVENTORY
        then (ccsds_sdls_ep_process_key_inventory cfg psa ks ctx encoded reply_capacity, ctx, ks)
        else (Inl CCSDS_SDLS_ERR_UNSUPPORTED, ctx, ks)
      else if service_group pdu = CCSDS_SDLS_EP_SA_MANAGEMENT then
        if p = CCSDS_SDLS_EP_START_SA then no_reply (ccsds_sdls_ep_process_start_sa cfg psa ks ctx encoded) ks
        else if p = CCSDS_SDLS_EP_STOP_SA then no_reply (ccsds_sdls_ep_process_stop_sa cfg ctx encoded) ks
        else if p = CCSDS_SDLS_EP_REKEY_SA then no_reply (ccsds_sdls_ep_process_rekey_sa cfg psa ks ctx encoded) ks
        else if p = CCSDS_SDLS_EP_EXPIRE_SA then no_reply (ccsds_sdls_ep_process_expire_sa cfg ctx encoded) ks
        else if p = CCSDS_SDLS_EP_SET_ARSN then no_reply (ccsds_sdls_ep_process_set_arsn cfg ctx encoded) ks
        else if p = CCSDS_SDLS_EP_SET_ARSN_WINDOW then no_reply (ccsds_sdls_ep_process_set_arsn_window cfg ctx encoded) ks
        else if p = CCSDS_SDLS_EP_READ_ARSN then (ccsds_sdls_ep_process_read_arsn cfg ctx encoded, ctx, ks)
        else if p = CCSDS_SDLS_EP_SA_STATUS then (ccsds_sdls_ep_process_sa_status cfg ctx encoded, ctx, ks)
        else (Inl CCSDS_SDLS_ERR_UNSUPPORTED, ctx, ks)
      else if service_group pdu = CCSDS_SDLS_EP_SECURITY_MONITORING
      then process_monitoring cfg psa ctx ks pdu encoded reply_capacity
      else (Inl CCSDS_SDLS_ERR_UNSUPPORTED, ctx, ks))"

definition ccsds_sdls_ep_process_pdu ::
  "sdls_config \<Rightarrow> ('k, 'cb) psa_ops \<Rightarrow> 'cb ccsds_sdls_ctx \<Rightarrow> 'k \<Rightarrow> bytes \<Rightarrow> nat \<Rightarrow>
     (sdls_error + bytes) \<times> 'cb ccsds_sdls_ctx \<times> 'k" where
  "ccsds_sdls_ep_process_pdu cfg psa ctx ks encoded reply_capacity =
     (let carrier_valid = authenticated_rx_valid ctx;
          carrier_spi = (if carrier_valid then authenticated_rx_spi ctx else 0);
          carrier_arsn = (if carrier_valid then authenticated_rx_arsn ctx else 0);
          event_tag = (if carrier_valid \<and> length encoded \<noteq> 0 then encoded ! 0 else CCSDS_SDLS_EVENT_TAG_LOCAL);
          decoded = ccsds_sdls_ep_pdu_decode cfg encoded;
          (ret, ctx', ks') = (case decoded of
             Inl ret \<Rightarrow> (Inl ret, ctx, ks)
           | Inr pdu \<Rightarrow> dispatch_procedure cfg psa ctx ks pdu encoded reply_capacity);
          ctx' = (case ret of
             Inr reply \<Rightarrow> ctx'
           | Inl err \<Rightarrow>
               if \<not> isl decoded \<and> err = CCSDS_SDLS_ERR_CAPACITY then ctx'
               else ccsds_sdls_event_record cfg ctx' event_tag
                 (ep_event_code (case decoded of Inl _ \<Rightarrow> None | Inr pdu \<Rightarrow> Some pdu) err) carrier_spi carrier_arsn)
      in (ret,
          (if authenticated_rx_dispatching ctx' then ctx'
           else ctx'\<lparr>authenticated_rx_spi := 0, authenticated_rx_arsn := 0, authenticated_rx_valid := False\<rparr>), ks'))"

end
