(* ===== verification/Sdls_Ep_Safety.thy ===== *)
theory Sdls_Ep_Safety
  imports Sdls_Ep
begin

unbundle bit_operations_syntax

text \<open>
  What an extended procedure can do to the security state.  Two step relations describe it: \<open>sa_step\<close> for one Security Association
  and \<open>key_step\<close> for one key.  Every PDU performs at most one \<open>sa_step\<close>, or \<open>key_step\<close>s on distinct session keys, and a rejected
  PDU performs none.
\<close>

section \<open>Steps of a Security Association\<close>

definition key_shared_ok :: "sdls_config \<Rightarrow> 'cb ccsds_sdls_ctx \<Rightarrow> nat \<Rightarrow> u8 \<Rightarrow> bool" where
  "key_shared_ok cfg ctx slot k \<longleftrightarrow>
     (\<forall>i<CCSDS_SDLS_MAX_SA cfg. i \<noteq> slot \<longrightarrow> configured (sas ctx ! i) \<longrightarrow> key_slot (sas ctx ! i) = k \<longrightarrow>
        sa_role_is_tx (sa_roles ctx ! i) = sa_role_is_tx (sa_roles ctx ! slot) \<and> sa_modes ctx ! i = sa_modes ctx ! slot)"

inductive sa_step :: "sdls_config \<Rightarrow> 'cb ccsds_sdls_ctx \<Rightarrow> nat \<Rightarrow> u8 \<Rightarrow> ccsds_sdls_sa \<Rightarrow> bool"
  for cfg :: sdls_config and ctx :: "'cb ccsds_sdls_ctx" and slot :: nat where
  start: "sa_state (sas ctx ! slot) = CCSDS_SDLS_SA_STOPPED \<Longrightarrow>
    sa_step cfg ctx slot CCSDS_SDLS_EP_START_SA ((sas ctx ! slot)\<lparr>sa_state := CCSDS_SDLS_SA_OPERATIONAL, last_procedure := 0x1b\<rparr>)"
| stop: "sa_state (sas ctx ! slot) = CCSDS_SDLS_SA_OPERATIONAL \<Longrightarrow>
    sa_step cfg ctx slot CCSDS_SDLS_EP_STOP_SA ((sas ctx ! slot)\<lparr>sa_state := CCSDS_SDLS_SA_STOPPED, last_procedure := 0x1e\<rparr>)"
| expire: "sa_state (sas ctx ! slot) = CCSDS_SDLS_SA_STOPPED \<Longrightarrow>
    sa_step cfg ctx slot CCSDS_SDLS_EP_EXPIRE_SA ((sas ctx ! slot)\<lparr>sa_state := CCSDS_SDLS_SA_EXPIRED, last_procedure := 0x19\<rparr>)"
| rekey: "sa_state (sas ctx ! slot) = CCSDS_SDLS_SA_EXPIRED \<Longrightarrow> sa_modes ctx ! slot \<noteq> CCSDS_SDLS_MODE_CLEAR \<Longrightarrow>
    unat k < CCSDS_SDLS_MAX_KEYS cfg \<Longrightarrow> CCSDS_SDLS_SESSION_KEY_BASE cfg \<le> unat k \<Longrightarrow>
    psa_key_id (keys ctx ! unat k) \<noteq> PSA_KEY_ID_NULL \<Longrightarrow> key_state (keys ctx ! unat k) = CCSDS_SDLS_KEY_ACTIVE \<Longrightarrow>
    key_shared_ok cfg ctx slot k \<Longrightarrow>
    sa = (if sa_role_is_rx (sa_roles ctx ! slot) then (sas ctx ! slot)\<lparr>rx_arsn := a, rx_arsn_initialized := True\<rparr>
      else sas ctx ! slot) \<Longrightarrow>
    sa_step cfg ctx slot CCSDS_SDLS_EP_REKEY_SA (sa\<lparr>key_slot := k, sa_state := CCSDS_SDLS_SA_STOPPED, last_procedure := 0x16\<rparr>)"
| set_arsn: "sa_state (sas ctx ! slot) \<noteq> CCSDS_SDLS_SA_EXPIRED \<Longrightarrow> sa_role_is_rx (sa_roles ctx ! slot) \<Longrightarrow>
    (rx_arsn_initialized (sas ctx ! slot) \<Longrightarrow> rx_arsn (sas ctx ! slot) \<le> a) \<Longrightarrow>
    sa_step cfg ctx slot CCSDS_SDLS_EP_SET_ARSN ((sas ctx ! slot)\<lparr>rx_arsn := a, rx_arsn_initialized := True, last_procedure := 0x1a\<rparr>)"
| set_window: "sa_state (sas ctx ! slot) \<noteq> CCSDS_SDLS_SA_EXPIRED \<Longrightarrow> sa_role_is_rx (sa_roles ctx ! slot) \<Longrightarrow>
    0 < w \<Longrightarrow> w \<le> CCSDS_SDLS_ARSN_WINDOW cfg \<Longrightarrow>
    sa_step cfg ctx slot CCSDS_SDLS_EP_SET_ARSN_WINDOW ((sas ctx ! slot)\<lparr>rx_window := w, last_procedure := 0x15\<rparr>)"

inductive_cases sa_stepE: "sa_step cfg ctx slot pr sa"

text \<open>What a PDU does to the table of SAs: nothing, or one step of one configured SA.\<close>

definition sas_step :: "sdls_config \<Rightarrow> 'cb ccsds_sdls_ctx \<Rightarrow> u16 \<Rightarrow> u8 \<Rightarrow> 'cb ccsds_sdls_ctx \<Rightarrow> bool" where
  "sas_step cfg ctx spi pr ctx' \<longleftrightarrow>
     (\<exists>sa. 0 < unat spi \<and> unat spi \<le> CCSDS_SDLS_MAX_SA cfg \<and> configured (sas ctx ! (unat spi - 1)) \<and>
       sa_step cfg ctx (unat spi - 1) pr sa \<and> ctx' = ctx\<lparr>sas := (sas ctx)[unat spi - 1 := sa]\<rparr>)"

lemma managed_saD:
  assumes "managed_sa cfg ctx spi = Inr slot"
  shows "slot = unat spi - 1 \<and> 0 < unat spi \<and> unat spi \<le> CCSDS_SDLS_MAX_SA cfg \<and> configured (sas ctx ! (unat spi - 1))"
  using assms by (auto simp: managed_sa_def ccsds_sdls_sa_lookup_def unat_gt_0 split: if_splits)

lemma validate_sa_keyD:
  assumes "validate_sa_key cfg psa ks ctx slot kid True = None" "CCSDS_SDLS_MAX_KEYS cfg \<le> 255"
  shows "unat (ucast kid :: u8) = unat kid" "unat kid < CCSDS_SDLS_MAX_KEYS cfg" "CCSDS_SDLS_SESSION_KEY_BASE cfg \<le> unat kid"
    "psa_key_id (keys ctx ! unat kid) \<noteq> PSA_KEY_ID_NULL" "key_state (keys ctx ! unat kid) = CCSDS_SDLS_KEY_ACTIVE"
    "key_shared_ok cfg ctx slot (ucast kid)"
proof -
  have v: "unat kid < CCSDS_SDLS_MAX_KEYS cfg" "CCSDS_SDLS_SESSION_KEY_BASE cfg \<le> unat kid"
      "psa_key_id (keys ctx ! unat kid) \<noteq> PSA_KEY_ID_NULL" "key_state (keys ctx ! unat kid) = CCSDS_SDLS_KEY_ACTIVE"
      "\<forall>i\<in>set [0 ..< CCSDS_SDLS_MAX_SA cfg]. i = slot \<or> \<not> configured (sas ctx ! i) \<or> ucast (key_slot (sas ctx ! i)) \<noteq> kid \<or>
         sa_role_is_tx (sa_roles ctx ! i) = sa_role_is_tx (sa_roles ctx ! slot) \<and> sa_modes ctx ! i = sa_modes ctx ! slot"
    using assms(1) by (auto simp: validate_sa_key_def ccsds_sdls_key_lookup_def Let_def split: if_splits option.splits)
  show u: "unat (ucast kid :: u8) = unat kid"
    using v(1) assms(2) by (simp add: unsigned_ucast_eq take_bit_nat_eq_self)
  show "unat kid < CCSDS_SDLS_MAX_KEYS cfg" "CCSDS_SDLS_SESSION_KEY_BASE cfg \<le> unat kid"
    "psa_key_id (keys ctx ! unat kid) \<noteq> PSA_KEY_ID_NULL" "key_state (keys ctx ! unat kid) = CCSDS_SDLS_KEY_ACTIVE"
    by (fact v)+
  have "(ucast (ucast kid :: u8) :: u16) = kid"
    unfolding word_unat_eq_iff
    by (subst unsigned_ucast_eq) (simp only: u, rule take_bit_nat_eq_self, use unat_u16_less [of kid] in simp)
  then show "key_shared_ok cfg ctx slot (ucast kid)"
    using v(5) unfolding key_shared_ok_def by (metis atLeast0LessThan lessThan_iff set_upt)
qed

lemma start_sa_effect:
  assumes "ccsds_sdls_ep_process_start_sa cfg psa ks ctx encoded = (r, ctx')"
  shows "if r = None then \<exists>c. ccsds_sdls_ep_start_sa_decode cfg encoded = Inr c \<and> sas_step cfg ctx (start_spi c) 11 ctx' else ctx' = ctx"
  using assms
  by (auto simp: ccsds_sdls_ep_process_start_sa_def set_sa_def sas_step_def dest!: managed_saD
      split: sum.splits option.splits if_splits; blast intro: sa_step.start)

lemma sa_transition_effect:
  assumes "process_sa_transition cfg ctx encoded pr from to = (r, ctx')"
  shows "if r = None then \<exists>spi. ccsds_sdls_ep_sa_command_decode cfg pr encoded = Inr spi \<and> 0 < unat spi \<and>
      unat spi \<le> CCSDS_SDLS_MAX_SA cfg \<and> configured (sas ctx ! (unat spi - 1)) \<and> sa_state (sas ctx ! (unat spi - 1)) = from \<and>
      ctx' = ctx\<lparr>sas := (sas ctx)[unat spi - 1 :=
        (sas ctx ! (unat spi - 1))\<lparr>sa_state := to, last_procedure := push_bit 4 1 OR pr\<rparr>]\<rparr>
    else ctx' = ctx"
  using assms
  by (auto simp: process_sa_transition_def set_sa_def dest!: managed_saD split: sum.splits if_splits)

lemma stop_sa_effect:
  assumes "ccsds_sdls_ep_process_stop_sa cfg ctx encoded = (r, ctx')"
  shows "if r = None then \<exists>spi. ccsds_sdls_ep_sa_command_decode cfg 14 encoded = Inr spi \<and> sas_step cfg ctx spi 14 ctx' else ctx' = ctx"
  using sa_transition_effect [OF assms [unfolded ccsds_sdls_ep_process_stop_sa_def]]
  by (auto simp: sas_step_def intro!: sa_step.stop split: if_splits)

lemma expire_sa_effect:
  assumes "ccsds_sdls_ep_process_expire_sa cfg ctx encoded = (r, ctx')"
  shows "if r = None then \<exists>spi. ccsds_sdls_ep_sa_command_decode cfg 9 encoded = Inr spi \<and> sas_step cfg ctx spi 9 ctx' else ctx' = ctx"
  using sa_transition_effect [OF assms [unfolded ccsds_sdls_ep_process_expire_sa_def]]
  by (auto simp: sas_step_def intro!: sa_step.expire split: if_splits)

lemma rekey_sa_effect:
  assumes "ccsds_sdls_ep_process_rekey_sa cfg psa ks ctx encoded = (r, ctx')" "CCSDS_SDLS_MAX_KEYS cfg \<le> 255"
  shows "if r = None then \<exists>c. ccsds_sdls_ep_rekey_sa_decode cfg encoded = Inr c \<and> sas_step cfg ctx (rekey_spi c) 6 ctx' else ctx' = ctx"
proof (cases r)
  case (Some e)
  with assms(1) show ?thesis
    by (auto simp: ccsds_sdls_ep_process_rekey_sa_def Let_def split: sum.splits option.splits if_splits)
next
  case None
  with assms(1) obtain c slot where c: "ccsds_sdls_ep_rekey_sa_decode cfg encoded = Inr c"
    "managed_sa cfg ctx (rekey_spi c) = Inr slot" "sa_state (sas ctx ! slot) = CCSDS_SDLS_SA_EXPIRED"
    "sa_modes ctx ! slot \<noteq> CCSDS_SDLS_MODE_CLEAR" "validate_sa_key cfg psa ks ctx slot (rekey_key_id c) True = None"
    "ctx' = set_sa slot (\<lambda>sa. (if sa_role_is_rx (sa_roles ctx ! slot) then sa\<lparr>rx_arsn := rekey_rx_arsn c, rx_arsn_initialized := True\<rparr>
        else sa)\<lparr>key_slot := ucast (rekey_key_id c), sa_state := CCSDS_SDLS_SA_STOPPED, last_procedure := push_bit 4 1 OR 6\<rparr>) ctx"
    by (auto simp: ccsds_sdls_ep_process_rekey_sa_def Let_def split: sum.splits option.splits if_splits)
  note v = validate_sa_keyD [OF c(5) assms(2)] and m = managed_saD [OF c(2)]
  have "sa_step cfg ctx slot 6 ((if sa_role_is_rx (sa_roles ctx ! slot)
      then (sas ctx ! slot)\<lparr>rx_arsn := rekey_rx_arsn c, rx_arsn_initialized := True\<rparr> else sas ctx ! slot)
      \<lparr>key_slot := ucast (rekey_key_id c), sa_state := CCSDS_SDLS_SA_STOPPED, last_procedure := 0x16\<rparr>)"
    using c(3,4) v by (intro sa_step.rekey [OF _ _ _ _ _ _ _ refl]) simp_all
  with None c(1,6) m show ?thesis by (auto simp: sas_step_def set_sa_def simp del: if_split)
qed

lemma mutable_rx_saD:
  assumes "mutable_rx_sa cfg ctx spi = Inr slot"
  shows "managed_sa cfg ctx spi = Inr slot" "sa_role_is_rx (sa_roles ctx ! slot)" "sa_state (sas ctx ! slot) \<noteq> CCSDS_SDLS_SA_EXPIRED"
  using assms by (auto simp: mutable_rx_sa_def split: sum.splits if_splits)

lemma set_arsn_effect:
  assumes "ccsds_sdls_ep_process_set_arsn cfg ctx encoded = (r, ctx')"
  shows "if r = None then \<exists>c. ccsds_sdls_ep_set_arsn_decode cfg encoded = Inr c \<and> sas_step cfg ctx (fst c) 10 ctx' else ctx' = ctx"
proof (cases r)
  case (Some e)
  with assms show ?thesis by (auto simp: ccsds_sdls_ep_process_set_arsn_def split: sum.splits if_splits prod.splits)
next
  case None
  with assms obtain spi a slot where c: "ccsds_sdls_ep_set_arsn_decode cfg encoded = Inr (spi, a)" "mutable_rx_sa cfg ctx spi = Inr slot"
    "\<not> (rx_arsn_initialized (sas ctx ! slot) \<and> a < rx_arsn (sas ctx ! slot))"
    "ctx' = set_sa slot (\<lambda>sa. sa\<lparr>rx_arsn := a, rx_arsn_initialized := True, last_procedure := 0x1a\<rparr>) ctx"
    by (auto simp: ccsds_sdls_ep_process_set_arsn_def split: sum.splits if_splits prod.splits)
  note m = mutable_rx_saD [OF c(2)]
  have "sa_step cfg ctx slot 10 ((sas ctx ! slot)\<lparr>rx_arsn := a, rx_arsn_initialized := True, last_procedure := 0x1a\<rparr>)"
    using m c(3) by (intro sa_step.set_arsn) auto
  with None c(1,4) managed_saD [OF m(1)] show ?thesis by (auto simp: sas_step_def set_sa_def)
qed

lemma set_window_effect:
  assumes "ccsds_sdls_ep_process_set_arsn_window cfg ctx encoded = (r, ctx')"
  shows "if r = None then \<exists>c. ccsds_sdls_ep_set_arsn_window_decode cfg encoded = Inr c \<and> sas_step cfg ctx (fst c) 5 ctx' else ctx' = ctx"
proof (cases r)
  case (Some e)
  with assms show ?thesis by (auto simp: ccsds_sdls_ep_process_set_arsn_window_def split: sum.splits if_splits prod.splits)
next
  case None
  with assms obtain spi w slot where c: "ccsds_sdls_ep_set_arsn_window_decode cfg encoded = Inr (spi, w)" "mutable_rx_sa cfg ctx spi = Inr slot"
    "w \<noteq> 0" "w \<le> CCSDS_SDLS_ARSN_WINDOW cfg"
    "ctx' = set_sa slot (\<lambda>sa. sa\<lparr>rx_window := w, last_procedure := 0x15\<rparr>) ctx"
    by (auto simp: ccsds_sdls_ep_process_set_arsn_window_def not_less split: sum.splits if_splits prod.splits)
  note m = mutable_rx_saD [OF c(2)]
  have "sa_step cfg ctx slot 5 ((sas ctx ! slot)\<lparr>rx_window := w, last_procedure := 0x15\<rparr>)"
    using m c(3,4) by (intro sa_step.set_window) (auto simp: word_neq_0_conv)
  with None c(1,5) managed_saD [OF m(1)] show ?thesis by (auto simp: sas_step_def set_sa_def)
qed

section \<open>Steps of a key\<close>

inductive key_step :: "ccsds_sdls_key \<Rightarrow> ccsds_sdls_key \<Rightarrow> bool" where
  activate: "psa_key_id k \<noteq> PSA_KEY_ID_NULL \<Longrightarrow> key_state k = CCSDS_SDLS_KEY_PREACTIVE \<Longrightarrow>
    key_step k (k\<lparr>key_state := CCSDS_SDLS_KEY_ACTIVE\<rparr>)"
| deactivate: "psa_key_id k \<noteq> PSA_KEY_ID_NULL \<Longrightarrow> key_state k \<noteq> CCSDS_SDLS_KEY_DEACTIVATED \<Longrightarrow>
    key_step k (k\<lparr>key_state := CCSDS_SDLS_KEY_DEACTIVATED\<rparr>)"
| verify: "psa_key_id k \<noteq> PSA_KEY_ID_NULL \<Longrightarrow> key_state k \<noteq> CCSDS_SDLS_KEY_DEACTIVATED \<Longrightarrow>
    key_step k (k\<lparr>tx_arsn := tx_arsn k + 1\<rparr>)"
| load: "psa_key_id k = PSA_KEY_ID_NULL \<or> key_state k \<noteq> CCSDS_SDLS_KEY_ACTIVE \<Longrightarrow>
    key_step k (k\<lparr>psa_key_id := kid, key_state := CCSDS_SDLS_KEY_PREACTIVE, tx_arsn := 0\<rparr>)"

inductive_cases key_stepE: "key_step k k'"

definition keys_step :: "sdls_config \<Rightarrow> ccsds_sdls_key list \<Rightarrow> ccsds_sdls_key list \<Rightarrow> bool" where
  "keys_step cfg ks ks' \<longleftrightarrow> length ks' = length ks \<and>
     (\<forall>i<length ks. ks' ! i = ks ! i \<or>
       (CCSDS_SDLS_SESSION_KEY_BASE cfg \<le> i \<and> i < CCSDS_SDLS_MAX_KEYS cfg \<and> key_step (ks ! i) (ks' ! i)))"

lemma fold_update_nth:
  assumes "distinct (map f xs)" "i < length t"
  shows "(\<forall>x\<in>set xs. f x = i \<longrightarrow> fold (\<lambda>x t. t[f x := g x (t ! f x)]) xs t ! i = g x (t ! i)) \<and>
    (i \<notin> f ` set xs \<longrightarrow> fold (\<lambda>x t. t[f x := g x (t ! f x)]) xs t ! i = t ! i) \<and>
    length (fold (\<lambda>x t. t[f x := g x (t ! f x)]) xs t) = length t"
  using assms
proof (induction xs arbitrary: t)
  case (Cons y ys)
  let ?t = "t[f y := g y (t ! f y)]"
  have IH: "(\<forall>x\<in>set ys. f x = i \<longrightarrow> fold (\<lambda>x t. t[f x := g x (t ! f x)]) ys ?t ! i = g x (?t ! i)) \<and>
    (i \<notin> f ` set ys \<longrightarrow> fold (\<lambda>x t. t[f x := g x (t ! f x)]) ys ?t ! i = ?t ! i) \<and>
    length (fold (\<lambda>x t. t[f x := g x (t ! f x)]) ys ?t) = length ?t"
    using Cons by (intro Cons.IH) simp_all
  have d: "f y \<notin> f ` set ys" using Cons.prems(1) by simp
  show ?case
  proof (cases "f y = i")
    case True
    with IH d Cons.prems(2) show ?thesis by (auto simp: image_iff)
  next
    case False
    with IH Cons.prems(2) show ?thesis by auto
  qed
qed simp

lemma keys_step_fold:
  assumes "distinct (map f xs)"
    and "\<And>x. x \<in> set xs \<Longrightarrow> CCSDS_SDLS_SESSION_KEY_BASE cfg \<le> f x \<and> f x < CCSDS_SDLS_MAX_KEYS cfg \<and> key_step (t ! f x) (g x (t ! f x))"
  shows "keys_step cfg t (fold (\<lambda>x t. t[f x := g x (t ! f x)]) xs t)"
proof -
  have len: "length (fold (\<lambda>x t. t[f x := g x (t ! f x)]) xs t) = length t" by (induction xs arbitrary: t) simp_all
  have "fold (\<lambda>x t. t[f x := g x (t ! f x)]) xs t ! i = t ! i \<or>
     (CCSDS_SDLS_SESSION_KEY_BASE cfg \<le> i \<and> i < CCSDS_SDLS_MAX_KEYS cfg \<and>
      key_step (t ! i) (fold (\<lambda>x t. t[f x := g x (t ! f x)]) xs t ! i))" if "i < length t" for i
  proof (cases "i \<in> f ` set xs")
    case True
    then obtain x where x: "x \<in> set xs" "f x = i" by blast
    with fold_update_nth [OF assms(1) that, of g] have "fold (\<lambda>x t. t[f x := g x (t ! f x)]) xs t ! i = g x (t ! i)" by blast
    with assms(2) [OF x(1)] x(2) show ?thesis by simp
  next
    case False
    with fold_update_nth [OF assms(1) that, of g] show ?thesis by blast
  qed
  with len show ?thesis by (simp add: keys_step_def)
qed

lemma distinct_map_unat: "distinct (map unat (ids :: u16 list)) = distinct ids"
  by (simp add: distinct_map inj_on_def word_unat_eq_iff)

lemma key_lookupD:
  "ccsds_sdls_key_lookup cfg ctx kid = Inr key \<Longrightarrow>
     unat kid < CCSDS_SDLS_MAX_KEYS cfg \<and> psa_key_id (keys ctx ! unat kid) \<noteq> PSA_KEY_ID_NULL \<and> key = keys ctx ! unat kid"
  by (auto simp: ccsds_sdls_key_lookup_def split: if_splits)

lemma lifecycle_checkD:
  "lifecycle_check cfg psa ks ctx pr seen ids = None \<Longrightarrow> distinct ids \<and> set ids \<inter> set seen = {} \<and>
     (\<forall>kid\<in>set ids. CCSDS_SDLS_SESSION_KEY_BASE cfg \<le> unat kid \<and> unat kid < CCSDS_SDLS_MAX_KEYS cfg \<and>
        psa_key_id (keys ctx ! unat kid) \<noteq> PSA_KEY_ID_NULL \<and>
        (if pr = 3 then key_state (keys ctx ! unat kid) \<noteq> CCSDS_SDLS_KEY_DEACTIVATED
         else if pr = 2 then key_state (keys ctx ! unat kid) = CCSDS_SDLS_KEY_PREACTIVE
         else key_state (keys ctx ! unat kid) = CCSDS_SDLS_KEY_ACTIVE))"
proof (induction cfg psa ks ctx pr seen ids rule: lifecycle_check.induct)
  case (2 cfg psa ks ctx pr seen kid rest)
  from 2(2) obtain key where key: "ccsds_sdls_key_lookup cfg ctx kid = Inr key" "kid \<notin> set seen"
    "CCSDS_SDLS_SESSION_KEY_BASE cfg \<le> unat kid" "unat kid < CCSDS_SDLS_MAX_KEYS cfg"
    and st: "if pr = 3 then key_state key = CCSDS_SDLS_KEY_ACTIVE \<or> key_state key = CCSDS_SDLS_KEY_PREACTIVE
        else key_state key = (if pr = 2 then CCSDS_SDLS_KEY_PREACTIVE else CCSDS_SDLS_KEY_ACTIVE)"
    and rest: "lifecycle_check cfg psa ks ctx pr (kid # seen) rest = None"
    by (auto simp: not_le not_less split: sum.splits option.splits if_splits)
  have "distinct rest \<and> set rest \<inter> set (kid # seen) = {} \<and>
     (\<forall>kid\<in>set rest. CCSDS_SDLS_SESSION_KEY_BASE cfg \<le> unat kid \<and> unat kid < CCSDS_SDLS_MAX_KEYS cfg \<and>
        psa_key_id (keys ctx ! unat kid) \<noteq> PSA_KEY_ID_NULL \<and>
        (if pr = 3 then key_state (keys ctx ! unat kid) \<noteq> CCSDS_SDLS_KEY_DEACTIVATED
         else if pr = 2 then key_state (keys ctx ! unat kid) = CCSDS_SDLS_KEY_PREACTIVE
         else key_state (keys ctx ! unat kid) = CCSDS_SDLS_KEY_ACTIVE))"
    using 2(1) 2(2) key rest by (auto split: sum.splits option.splits if_splits)
  with key(2-) key_lookupD [OF key(1)] st show ?case by (auto split: if_splits)
qed simp

lemma lifecycle_effect:
  assumes "process_lifecycle cfg psa ks ctx encoded pr = (r, ctx')" "pr = 2 \<or> pr = 3"
  shows "if r = None then ctx' = ctx\<lparr>keys := keys ctx'\<rparr> \<and> keys_step cfg (keys ctx) (keys ctx') else ctx' = ctx"
proof (cases r)
  case (Some e)
  with assms(1) show ?thesis by (auto simp: process_lifecycle_def split: sum.splits option.splits)
next
  case None
  with assms(1) obtain ids where ids: "lifecycle_check cfg psa ks ctx pr [] ids = None"
    "ctx' = ctx\<lparr>keys := fold (\<lambda>kid table. table[unat kid := (table ! unat kid)\<lparr>key_state :=
       (if pr = 2 then CCSDS_SDLS_KEY_ACTIVE else CCSDS_SDLS_KEY_DEACTIVATED)\<rparr>]) ids (keys ctx)\<rparr>"
    by (auto simp: process_lifecycle_def split: sum.splits option.splits)
  note c = lifecycle_checkD [OF ids(1)]
  have "keys_step cfg (keys ctx) (fold (\<lambda>kid table. table[unat kid := (table ! unat kid)\<lparr>key_state :=
       (if pr = 2 then CCSDS_SDLS_KEY_ACTIVE else CCSDS_SDLS_KEY_DEACTIVATED)\<rparr>]) ids (keys ctx))"
    by (rule keys_step_fold [of unat ids cfg "keys ctx" "\<lambda>_ k. k\<lparr>key_state :=
       (if pr = 2 then CCSDS_SDLS_KEY_ACTIVE else CCSDS_SDLS_KEY_DEACTIVATED)\<rparr>"])
      (use c assms(2) in \<open>auto simp: distinct_map_unat intro: key_step.activate key_step.deactivate\<close>)
  with None ids(2) show ?thesis by simp
qed

lemma verify_checkD:
  "verify_check cfg psa ks ctx seen ids = None \<Longrightarrow> distinct ids \<and> set ids \<inter> set seen = {} \<and>
     (\<forall>kid\<in>set ids. CCSDS_SDLS_SESSION_KEY_BASE cfg \<le> unat kid \<and> unat kid < CCSDS_SDLS_MAX_KEYS cfg \<and>
        psa_key_id (keys ctx ! unat kid) \<noteq> PSA_KEY_ID_NULL \<and>
        key_state (keys ctx ! unat kid) \<noteq> CCSDS_SDLS_KEY_DEACTIVATED \<and>
        validate_key psa ks (psa_key_id (keys ctx ! unat kid)) {PSA_KEY_USAGE_ENCRYPT} = None)"
proof (induction cfg psa ks ctx seen ids rule: verify_check.induct)
  case (2 cfg psa ks ctx seen kid rest)
  from 2(2) obtain key where key: "ccsds_sdls_key_lookup cfg ctx kid = Inr key" "kid \<notin> set seen"
    "CCSDS_SDLS_SESSION_KEY_BASE cfg \<le> unat kid" "unat kid < CCSDS_SDLS_MAX_KEYS cfg"
    and st: "key_state key \<noteq> CCSDS_SDLS_KEY_DEACTIVATED" "validate_key psa ks (psa_key_id key) {PSA_KEY_USAGE_ENCRYPT} = None"
    and rest: "verify_check cfg psa ks ctx (kid # seen) rest = None"
    by (auto simp: not_le not_less split: sum.splits option.splits if_splits)
  have "distinct rest \<and> set rest \<inter> set (kid # seen) = {} \<and>
     (\<forall>kid\<in>set rest. CCSDS_SDLS_SESSION_KEY_BASE cfg \<le> unat kid \<and> unat kid < CCSDS_SDLS_MAX_KEYS cfg \<and>
        psa_key_id (keys ctx ! unat kid) \<noteq> PSA_KEY_ID_NULL \<and>
        key_state (keys ctx ! unat kid) \<noteq> CCSDS_SDLS_KEY_DEACTIVATED \<and>
        validate_key psa ks (psa_key_id (keys ctx ! unat kid)) {PSA_KEY_USAGE_ENCRYPT} = None)"
    using 2(1) 2(2) key st rest by auto
  with key(2-) key_lookupD [OF key(1)] st show ?case by auto
qed simp

lemma verification_effect:
  assumes "ccsds_sdls_ep_process_key_verification cfg psa ks ctx encoded = (r, ctx')"
  shows "if isl r then ctx' = ctx
    else ctx' = ctx\<lparr>keys := keys ctx', tx_iv := tx_iv ctx'\<rparr> \<and> keys_step cfg (keys ctx) (keys ctx')"
proof (cases r)
  case (Inl e)
  with assms show ?thesis
    by (auto simp: ccsds_sdls_ep_process_key_verification_def split: sum.splits option.splits prod.splits)
next
  case (Inr reply)
  with assms obtain entries replies iv where e: "verify_check cfg psa ks ctx [] (map vc_key_id entries) = None"
    "verify_encrypt psa ks ctx (tx_iv ctx) entries = Inr (replies, iv)"
    "ctx' = ctx\<lparr>keys := fold (\<lambda>entry table. table[unat (vc_key_id entry) :=
                         (table ! unat (vc_key_id entry))\<lparr>tx_arsn := tx_arsn (table ! unat (vc_key_id entry)) + 1\<rparr>])
                       entries (keys ctx), tx_iv := iv\<rparr>"
    by (simp add: ccsds_sdls_ep_process_key_verification_def split: sum.splits option.splits prod.splits)
  note c = verify_checkD [OF e(1)]
  have d: "distinct (map (\<lambda>x. unat (vc_key_id x)) entries)"
    using c distinct_map_unat [of "map vc_key_id entries"] by (simp add: comp_def)
  have "keys_step cfg (keys ctx) (fold (\<lambda>entry table. table[unat (vc_key_id entry) :=
                         (table ! unat (vc_key_id entry))\<lparr>tx_arsn := tx_arsn (table ! unat (vc_key_id entry)) + 1\<rparr>])
                       entries (keys ctx))"
    by (rule keys_step_fold [of "\<lambda>x. unat (vc_key_id x)" entries cfg "keys ctx" "\<lambda>_ k. k\<lparr>tx_arsn := tx_arsn k + 1\<rparr>"])
      (use c d in \<open>auto intro: key_step.verify\<close>)
  with Inr e(3) show ?thesis by simp
qed

lemma otar_checkD:
  "otar_destinations_check cfg ctx seen ids = None \<Longrightarrow> distinct ids \<and> set ids \<inter> set seen = {} \<and>
     (\<forall>kid\<in>set ids. CCSDS_SDLS_SESSION_KEY_BASE cfg \<le> unat kid \<and> unat kid < CCSDS_SDLS_MAX_KEYS cfg \<and>
        (psa_key_id (keys ctx ! unat kid) = PSA_KEY_ID_NULL \<or> key_state (keys ctx ! unat kid) \<noteq> CCSDS_SDLS_KEY_ACTIVE))"
proof (induction cfg ctx seen ids rule: otar_destinations_check.induct)
  case (2 cfg ctx seen kid rest)
  have "distinct rest \<and> set rest \<inter> set (kid # seen) = {} \<and>
     (\<forall>kid\<in>set rest. CCSDS_SDLS_SESSION_KEY_BASE cfg \<le> unat kid \<and> unat kid < CCSDS_SDLS_MAX_KEYS cfg \<and>
        (psa_key_id (keys ctx ! unat kid) = PSA_KEY_ID_NULL \<or> key_state (keys ctx ! unat kid) \<noteq> CCSDS_SDLS_KEY_ACTIVE))"
    using 2(1) 2(2) by (simp split: if_splits)
  moreover have "CCSDS_SDLS_SESSION_KEY_BASE cfg \<le> unat kid" "unat kid < CCSDS_SDLS_MAX_KEYS cfg" "kid \<notin> set seen"
    "psa_key_id (keys ctx ! unat kid) = PSA_KEY_ID_NULL \<or> key_state (keys ctx ! unat kid) \<noteq> CCSDS_SDLS_KEY_ACTIVE"
    using 2(2) by (simp_all add: not_le not_less split: if_splits)
  ultimately show ?case by auto
qed simp

definition loaded :: "u32 \<Rightarrow> ccsds_sdls_key \<Rightarrow> ccsds_sdls_key" where
  "loaded kid k = k\<lparr>psa_key_id := kid, key_state := CCSDS_SDLS_KEY_PREACTIVE, tx_arsn := 0\<rparr>"

lemma otar_commit_eq:
  "distinct (map fst ps) \<Longrightarrow>
     otar_commit ps table = (map (\<lambda>p. psa_key_id (table ! unat (fst p))) ps,
       fold (\<lambda>p t. t[unat (fst p) := loaded (snd p) (t ! unat (fst p))]) ps table)"
proof (induction ps table rule: otar_commit.induct)
  case (2 d kid rest table)
  have "unat (fst p) \<noteq> unat d" if "p \<in> set rest" for p
    using 2(2) that by (auto simp: word_unat_eq_iff [symmetric])
  then have "map (\<lambda>p. psa_key_id (table[unat d := loaded kid (table ! unat d)] ! unat (fst p))) rest =
      map (\<lambda>p. psa_key_id (table ! unat (fst p))) rest" by (intro map_cong refl) (metis nth_list_update_neq)
  moreover have "distinct (map fst rest)" using 2(2) by simp
  ultimately show ?case using 2(1) [OF refl] by (simp add: loaded_def [symmetric] Let_def)
qed simp

lemma otar_import_length:
  "otar_import psa ks ms = (ids, True, ks') \<Longrightarrow> length ids = length ms"
  by (induction psa ks ms arbitrary: ids ks' rule: otar_import.induct) (auto split: prod.splits option.splits)

lemma otar_failure:
  assumes "ccsds_sdls_ep_process_otar cfg psa ctx ks encoded = (Some e, ctx', ks')"
  shows "ctx' = ctx"
  using assms unfolding ccsds_sdls_ep_process_otar_def Let_def
  by (simp split: sum.split_asm option.split_asm prod.split_asm if_split_asm bool.split_asm)

definition otar_destinations :: "bytes \<Rightarrow> nat \<Rightarrow> u16 list" where
  "otar_destinations plaintext n = map (\<lambda>i. be16_at plaintext (i * 34)) [0 ..< n]"

definition otar_materials :: "bytes \<Rightarrow> nat \<Rightarrow> bytes list" where
  "otar_materials plaintext n = map (\<lambda>i. take 32 (drop (i * 34 + 2) plaintext)) [0 ..< n]"

lemma otar_lengths [simp]:
  "length (otar_destinations plaintext n) = n" "length (otar_materials plaintext n) = n"
  by (simp_all add: otar_destinations_def otar_materials_def)

lemma otar_success:
  assumes "ccsds_sdls_ep_process_otar cfg psa ctx ks encoded = (None, ctx', ks')"
  obtains otar master plaintext imported ks1 where
    "ccsds_sdls_ep_otar_decode cfg encoded = Inr otar"
    "unat (master_key_id otar) < CCSDS_SDLS_SESSION_KEY_BASE cfg"
    "ccsds_sdls_key_lookup cfg ctx (master_key_id otar) = Inr master" "key_state master = CCSDS_SDLS_KEY_ACTIVE"
    "psa_aead_decrypt psa ks (psa_key_id master) (take 12 (drop 5 encoded)) (take 5 encoded)
       (take (otar_key_count otar * 34 + 16) (drop 17 encoded)) = Inr plaintext"
    "length plaintext = otar_key_count otar * 34"
    "otar_destinations_check cfg ctx [] (otar_destinations plaintext (otar_key_count otar)) = None"
    "otar_import psa ks (otar_materials plaintext (otar_key_count otar)) = (imported, True, ks1)"
    "ctx' = ctx\<lparr>keys := snd (otar_commit (zip (otar_destinations plaintext (otar_key_count otar)) imported) (keys ctx))\<rparr>"
    "ks' = fold (\<lambda>kid ks. destroy_replaced_volatile_key psa ks kid) (filter (\<lambda>kid. kid \<noteq> PSA_KEY_ID_NULL)
       (fst (otar_commit (zip (otar_destinations plaintext (otar_key_count otar)) imported) (keys ctx)))) ks1"
  using assms unfolding ccsds_sdls_ep_process_otar_def Let_def otar_destinations_def [symmetric] otar_materials_def [symmetric]
  by (simp split: sum.split_asm option.split_asm prod.split_asm if_split_asm bool.split_asm add: not_le)

lemma otar_effect:
  assumes "ccsds_sdls_ep_process_otar cfg psa ctx ks encoded = (r, ctx', ks')"
  shows "if r = None then ctx' = ctx\<lparr>keys := keys ctx'\<rparr> \<and> keys_step cfg (keys ctx) (keys ctx') else ctx' = ctx"
proof (cases r)
  case (Some e)
  with otar_failure [OF assms [unfolded Some]] show ?thesis by simp
next
  case None
  from assms [unfolded None] show ?thesis
  proof (rule otar_success)
    fix otar master plaintext imported ks1
    let ?ds = "otar_destinations plaintext (otar_key_count otar)"
    assume check: "otar_destinations_check cfg ctx [] ?ds = None"
      and import: "otar_import psa ks (otar_materials plaintext (otar_key_count otar)) = (imported, True, ks1)"
      and ctx': "ctx' = ctx\<lparr>keys := snd (otar_commit (zip ?ds imported) (keys ctx))\<rparr>"
    have len: "length imported = length ?ds" using otar_import_length [OF import] by simp
    note d = otar_checkD [OF check]
    have m: "map fst (zip ?ds imported) = ?ds" using len by simp
    have "keys_step cfg (keys ctx) (fold (\<lambda>p t. t[unat (fst p) := loaded (snd p) (t ! unat (fst p))]) (zip ?ds imported) (keys ctx))"
    proof (rule keys_step_fold [of "\<lambda>p. unat (fst p)" _ cfg "keys ctx" "\<lambda>p. loaded (snd p)"])
      show "distinct (map (\<lambda>p. unat (fst p)) (zip ?ds imported))"
        using d distinct_map_unat [of ?ds] len by (metis (no_types, lifting) m map_map comp_apply map_cong)
      fix p assume "p \<in> set (zip ?ds imported)"
      then have "fst p \<in> set ?ds" by (metis (no_types) in_set_zipE prod.collapse)
      with d show "CCSDS_SDLS_SESSION_KEY_BASE cfg \<le> unat (fst p) \<and> unat (fst p) < CCSDS_SDLS_MAX_KEYS cfg \<and>
          key_step (keys ctx ! unat (fst p)) (loaded (snd p) (keys ctx ! unat (fst p)))"
        by (auto simp: loaded_def intro!: key_step.load)
    qed
    moreover have "snd (otar_commit (zip ?ds imported) (keys ctx)) =
        fold (\<lambda>p t. t[unat (fst p) := loaded (snd p) (t ! unat (fst p))]) (zip ?ds imported) (keys ctx)"
      using otar_commit_eq [of "zip ?ds imported" "keys ctx"] d m by simp
    ultimately show ?thesis using None ctx' by simp
  qed
qed

section \<open>One extended procedure PDU\<close>

definition same_security :: "'cb ccsds_sdls_ctx \<Rightarrow> 'cb ccsds_sdls_ctx \<Rightarrow> bool" where
  "same_security ctx ctx' \<longleftrightarrow> sas ctx' = sas ctx \<and> keys ctx' = keys ctx \<and> sa_roles ctx' = sa_roles ctx \<and>
     sa_modes ctx' = sa_modes ctx \<and> tx_iv ctx' = tx_iv ctx"

inductive ep_step :: "sdls_config \<Rightarrow> bytes \<Rightarrow> 'cb ccsds_sdls_ctx \<Rightarrow> 'cb ccsds_sdls_ctx \<Rightarrow> bool"
  for cfg :: sdls_config and encoded :: bytes and ctx :: "'cb ccsds_sdls_ctx" where
  query: "same_security ctx ctx' \<Longrightarrow> ep_step cfg encoded ctx ctx'"
| sa: "sas_step cfg ctx spi pr ctx1 \<Longrightarrow> same_security ctx1 ctx' \<Longrightarrow>
    (pr = CCSDS_SDLS_EP_REKEY_SA \<Longrightarrow> \<exists>c. ccsds_sdls_ep_rekey_sa_decode cfg encoded = Inr c \<and> rekey_spi c = spi) \<Longrightarrow>
    ep_step cfg encoded ctx ctx'"
| key: "keys_step cfg (keys ctx) ks \<Longrightarrow> same_security (ctx\<lparr>keys := ks, tx_iv := iv\<rparr>) ctx' \<Longrightarrow> ep_step cfg encoded ctx ctx'"

inductive_cases ep_stepE: "ep_step cfg encoded ctx ctx'"

lemma same_security_refl [simp]: "same_security ctx ctx" by (simp add: same_security_def)

lemma same_security_trans: "same_security a b \<Longrightarrow> same_security b c \<Longrightarrow> same_security a c"
  by (simp add: same_security_def)

lemma ep_step_same: "ep_step cfg encoded ctx c \<Longrightarrow> same_security c ctx' \<Longrightarrow> ep_step cfg encoded ctx ctx'"
  by (erule ep_step.cases) (blast intro: ep_step.intros same_security_trans)+

lemma ep_step_sa:
  "sas_step cfg ctx spi pr ctx' \<Longrightarrow>
     (pr = CCSDS_SDLS_EP_REKEY_SA \<Longrightarrow> \<exists>c. ccsds_sdls_ep_rekey_sa_decode cfg encoded = Inr c \<and> rekey_spi c = spi) \<Longrightarrow>
     ep_step cfg encoded ctx ctx'"
  by (rule ep_step.sa [OF _ same_security_refl])

lemma ep_step_key: "keys_step cfg (keys ctx) (keys ctx') \<Longrightarrow> ctx' = ctx\<lparr>keys := keys ctx', tx_iv := tx_iv ctx'\<rparr> \<Longrightarrow> ep_step cfg encoded ctx ctx'"
  by (rule ep_step.key [of _ _ "keys ctx'" "tx_iv ctx'"]) simp_all

lemma alarm_reset_effect:
  assumes "ccsds_sdls_ep_process_alarm_flag_reset cfg ctx encoded = (r, ctx')"
  shows "if r = None then same_security ctx ctx' \<and> sdls_inv cfg ctx' = sdls_inv cfg ctx else ctx' = ctx"
  using assms by (auto simp: ccsds_sdls_ep_process_alarm_flag_reset_def same_security_def split: sum.splits if_splits)

lemma same_security_event [simp]: "same_security ctx (ccsds_sdls_event_record cfg ctx tag code spi arsn)"
  by (simp add: same_security_def)

lemma self_test_reply_effect:
  assumes "self_test_reply cfg ctx encoded result = (reply, ctx')"
  shows "same_security ctx ctx'" "sdls_inv cfg ctx \<Longrightarrow> 0 < CCSDS_SDLS_EVENT_LOG_CAPACITY cfg \<Longrightarrow> sdls_inv cfg ctx'"
  using assms by (auto simp: self_test_reply_def event_record_log(1) split: if_splits)

lemma erase_inv:
  "sdls_inv cfg ctx \<Longrightarrow> 0 < CCSDS_SDLS_EVENT_LOG_CAPACITY cfg \<Longrightarrow>
     sdls_inv cfg (ctx\<lparr>events := replicate (length (events ctx)) e, event_count := 0, event_read_index := 0,
       event_write_index := 0, event_overwrites := 0\<rparr>)"
  by (simp add: sdls_inv_def)

lemma monitoring_effect:
  assumes "process_monitoring cfg psa ctx ks pdu encoded cap = (r, ctx', ks')"
  shows "if isl r then ctx' = ctx else same_security ctx ctx'"
    and "sdls_inv cfg ctx \<Longrightarrow> 0 < CCSDS_SDLS_EVENT_LOG_CAPACITY cfg \<Longrightarrow> sdls_inv cfg ctx'"
proof -
  have "(if isl r then ctx' = ctx else same_security ctx ctx') \<and>
    (sdls_inv cfg ctx \<longrightarrow> 0 < CCSDS_SDLS_EVENT_LOG_CAPACITY cfg \<longrightarrow> sdls_inv cfg ctx')"
    using assms unfolding process_monitoring_def
    by (simp split: option.split_asm if_split_asm prod.split_asm)
      (auto dest: self_test_reply_effect alarm_reset_effect intro: erase_inv simp: same_security_def)
  then show "if isl r then ctx' = ctx else same_security ctx ctx'"
    "sdls_inv cfg ctx \<Longrightarrow> 0 < CCSDS_SDLS_EVENT_LOG_CAPACITY cfg \<Longrightarrow> sdls_inv cfg ctx'" by blast+
qed

lemma no_reply_effect:
  assumes "no_reply p ks = (r, ctx', ks')"
    and "\<And>q c. p = (q, c) \<Longrightarrow> if q = None then P c else c = ctx"
  shows "if isl r then ctx' = ctx else P ctx'"
  using assms by (cases p) (auto simp: no_reply_def split: option.splits if_splits)

text \<open>A step that also keeps the invariant of the context.\<close>

definition good_step :: "sdls_config \<Rightarrow> bytes \<Rightarrow> 'cb ccsds_sdls_ctx \<Rightarrow> 'cb ccsds_sdls_ctx \<Rightarrow> bool" where
  "good_step cfg encoded ctx ctx' \<longleftrightarrow> ep_step cfg encoded ctx ctx' \<and>
     (sdls_inv cfg ctx \<longrightarrow> 0 < CCSDS_SDLS_EVENT_LOG_CAPACITY cfg \<longrightarrow> sdls_inv cfg ctx')"

lemma good_step_refl: "good_step cfg encoded ctx ctx"
  by (simp add: good_step_def ep_step.query)

lemma good_step_sa:
  assumes "sas_step cfg ctx spi pr ctx'"
    "pr = CCSDS_SDLS_EP_REKEY_SA \<Longrightarrow> \<exists>c. ccsds_sdls_ep_rekey_sa_decode cfg encoded = Inr c \<and> rekey_spi c = spi"
  shows "good_step cfg encoded ctx ctx'"
proof -
  have "sdls_inv cfg ctx \<longrightarrow> sdls_inv cfg ctx'" using assms(1) by (auto simp: sas_step_def)
  with ep_step_sa [OF assms] show ?thesis by (simp add: good_step_def)
qed

lemma good_step_key:
  assumes "keys_step cfg (keys ctx) (keys ctx')" "ctx' = ctx\<lparr>keys := keys ctx', tx_iv := tx_iv ctx'\<rparr>"
  shows "good_step cfg encoded ctx ctx'"
proof -
  have "length (keys ctx') = length (keys ctx)" using assms(1) by (simp add: keys_step_def)
  then have "sdls_inv cfg ctx \<longrightarrow> sdls_inv cfg (ctx\<lparr>keys := keys ctx', tx_iv := tx_iv ctx'\<rparr>)" by simp
  with ep_step_key [OF assms] assms(2) show ?thesis by (simp add: good_step_def)
qed

lemma good_step_keys:
  assumes "keys_step cfg (keys ctx) (keys ctx')" "ctx' = ctx\<lparr>keys := keys ctx'\<rparr>"
  shows "good_step cfg encoded ctx ctx'"
proof -
  have "good_step cfg encoded ctx (ctx\<lparr>keys := t\<rparr>)" if t: "keys_step cfg (keys ctx) t" for t
  proof -
    have "same_security (ctx\<lparr>keys := t, tx_iv := tx_iv ctx\<rparr>) (ctx\<lparr>keys := t\<rparr>)" by (simp add: same_security_def)
    with t have "ep_step cfg encoded ctx (ctx\<lparr>keys := t\<rparr>)" by (rule ep_step.key)
    moreover have "length t = length (keys ctx)" using t by (simp add: keys_step_def)
    ultimately show ?thesis by (simp add: good_step_def)
  qed
  from this [OF assms(1)] show ?thesis using assms(2) by metis
qed

lemma otar_good:
  "ccsds_sdls_ep_process_otar cfg psa ctx ks encoded = (r, c, ks') \<Longrightarrow> if r = None then good_step cfg encoded ctx c else c = ctx"
  using otar_effect [of cfg psa ctx ks encoded r c ks'] by (auto intro: good_step_keys split: if_splits)

lemma activation_good:
  "ccsds_sdls_ep_process_key_activation cfg psa ks ctx encoded = (r, c) \<Longrightarrow> if r = None then good_step cfg encoded ctx c else c = ctx"
  unfolding ccsds_sdls_ep_process_key_activation_def
  using lifecycle_effect [of cfg psa ks ctx encoded 2 r c] by (auto intro: good_step_keys split: if_splits)

lemma deactivation_good:
  "ccsds_sdls_ep_process_key_deactivation cfg psa ks ctx encoded = (r, c) \<Longrightarrow> if r = None then good_step cfg encoded ctx c else c = ctx"
  unfolding ccsds_sdls_ep_process_key_deactivation_def
  using lifecycle_effect [of cfg psa ks ctx encoded 3 r c] by (auto intro: good_step_keys split: if_splits)

lemma verification_good:
  "ccsds_sdls_ep_process_key_verification cfg psa ks ctx encoded = (r, c) \<Longrightarrow> if isl r then c = ctx else good_step cfg encoded ctx c"
  using verification_effect [of cfg psa ks ctx encoded r c] by (auto intro: good_step_key split: if_splits)

lemma sa_good:
  "ccsds_sdls_ep_process_start_sa cfg psa ks ctx encoded = (r, c) \<Longrightarrow> if r = None then good_step cfg encoded ctx c else c = ctx"
  "ccsds_sdls_ep_process_stop_sa cfg ctx encoded = (r, c) \<Longrightarrow> if r = None then good_step cfg encoded ctx c else c = ctx"
  "ccsds_sdls_ep_process_expire_sa cfg ctx encoded = (r, c) \<Longrightarrow> if r = None then good_step cfg encoded ctx c else c = ctx"
  "ccsds_sdls_ep_process_set_arsn cfg ctx encoded = (r, c) \<Longrightarrow> if r = None then good_step cfg encoded ctx c else c = ctx"
  "ccsds_sdls_ep_process_set_arsn_window cfg ctx encoded = (r, c) \<Longrightarrow> if r = None then good_step cfg encoded ctx c else c = ctx"
  "ccsds_sdls_ep_process_rekey_sa cfg psa ks ctx encoded = (r, c) \<Longrightarrow> CCSDS_SDLS_MAX_KEYS cfg \<le> 255 \<Longrightarrow>
     if r = None then good_step cfg encoded ctx c else c = ctx"
  using start_sa_effect [of cfg psa ks ctx encoded r c] stop_sa_effect [of cfg ctx encoded r c]
    expire_sa_effect [of cfg ctx encoded r c] set_arsn_effect [of cfg ctx encoded r c]
    set_window_effect [of cfg ctx encoded r c] rekey_sa_effect [of cfg psa ks ctx encoded r c]
  by (auto intro: good_step_sa split: if_splits)

lemma otar_reply:
  assumes "(case ccsds_sdls_ep_process_otar cfg psa ctx ks encoded of (q, c, ks1) \<Rightarrow> no_reply (q, c) ks1) = (r, ctx', ks')"
  shows "if isl r then ctx' = ctx else good_step cfg encoded ctx ctx'"
proof -
  obtain q c ks1 where p: "ccsds_sdls_ep_process_otar cfg psa ctx ks encoded = (q, c, ks1)" by (metis prod.exhaust)
  with assms have "no_reply (q, c) ks1 = (r, ctx', ks')" by simp
  then show ?thesis by (rule no_reply_effect) (use otar_good [OF p] in blast)
qed

lemma verification_reply:
  assumes "(case ccsds_sdls_ep_process_key_verification cfg psa ks ctx encoded of (q, c) \<Rightarrow> (q, c, ks)) = (r, ctx', ks')"
  shows "if isl r then ctx' = ctx else good_step cfg encoded ctx ctx'"
  using assms verification_good [of cfg psa ks ctx encoded r ctx'] by (simp split: prod.split_asm)

lemma query_effect: "(r, c, k) = (r', ctx', k') \<Longrightarrow> c = ctx \<Longrightarrow> if isl r' then ctx' = ctx else good_step cfg encoded ctx ctx'"
  by (simp add: good_step_refl)

lemma monitoring_reply:
  "process_monitoring cfg psa ctx ks pdu encoded cap = (r, ctx', ks') \<Longrightarrow> if isl r then ctx' = ctx else good_step cfg encoded ctx ctx'"
  using monitoring_effect [of cfg psa ctx ks pdu encoded cap r ctx' ks']
  by (auto simp: good_step_def intro: ep_step.query split: if_splits)

lemma dispatch_good:
  assumes "dispatch_procedure cfg psa ctx ks pdu encoded cap = (r, ctx', ks')" "CCSDS_SDLS_MAX_KEYS cfg \<le> 255"
  shows "if isl r then ctx' = ctx else good_step cfg encoded ctx ctx'"
  using assms(1) unfolding dispatch_procedure_def Let_def
  by (simp only: split: if_split_asm)
    (erule otar_reply verification_reply monitoring_reply
     | erule no_reply_effect, erule activation_good deactivation_good sa_good(1-5) sa_good(6) [OF _ assms(2)]
     | erule query_effect, rule refl)+

definition forget_carrier :: "'cb ccsds_sdls_ctx \<Rightarrow> 'cb ccsds_sdls_ctx" where
  "forget_carrier ctx = (if authenticated_rx_dispatching ctx then ctx
     else ctx\<lparr>authenticated_rx_spi := 0, authenticated_rx_arsn := 0, authenticated_rx_valid := False\<rparr>)"

lemma forget_carrier_frame [simp]:
  "same_security ctx (forget_carrier ctx)" "fsr (forget_carrier ctx) = fsr ctx"
  "event_log cfg (forget_carrier ctx) = event_log cfg ctx" "sdls_inv cfg (forget_carrier ctx) = sdls_inv cfg ctx"
  by (simp_all add: forget_carrier_def same_security_def event_log_def)

text \<open>What the rejection of a PDU writes to the event log.\<close>

definition ep_rejection :: "sdls_config \<Rightarrow> 'cb ccsds_sdls_ctx \<Rightarrow> bytes \<Rightarrow> sdls_error \<Rightarrow> 'cb ccsds_sdls_ctx" where
  "ep_rejection cfg ctx encoded err =
     (let decoded = ccsds_sdls_ep_pdu_decode cfg encoded; valid = authenticated_rx_valid ctx in
      if \<not> isl decoded \<and> err = CCSDS_SDLS_ERR_CAPACITY then ctx
      else ccsds_sdls_event_record cfg ctx (if valid \<and> length encoded \<noteq> 0 then encoded ! 0 else CCSDS_SDLS_EVENT_TAG_LOCAL)
        (ep_event_code (case decoded of Inl _ \<Rightarrow> None | Inr pdu \<Rightarrow> Some pdu) err)
        (if valid then authenticated_rx_spi ctx else 0) (if valid then authenticated_rx_arsn ctx else 0))"

lemma process_pdu_cases:
  assumes "ccsds_sdls_ep_process_pdu cfg psa ctx ks encoded cap = (r, ctx', ks')" "CCSDS_SDLS_MAX_KEYS cfg \<le> 255"
  shows "case r of Inl e \<Rightarrow> ctx' = forget_carrier (ep_rejection cfg ctx encoded e)
    | Inr reply \<Rightarrow> \<exists>pdu ctx1. ccsds_sdls_ep_pdu_decode cfg encoded = Inr pdu \<and>
        dispatch_procedure cfg psa ctx ks pdu encoded cap = (Inr reply, ctx1, ks') \<and>
        good_step cfg encoded ctx ctx1 \<and> ctx' = forget_carrier ctx1"
proof (cases "ccsds_sdls_ep_pdu_decode cfg encoded")
  case (Inl e)
  with assms(1) show ?thesis
    by (auto simp: ccsds_sdls_ep_process_pdu_def ep_rejection_def forget_carrier_def Let_def)
next
  case (Inr pdu)
  obtain q c k where d: "dispatch_procedure cfg psa ctx ks pdu encoded cap = (q, c, k)" by (metis prod.exhaust)
  note g = dispatch_good [OF d assms(2)]
  show ?thesis
  proof (cases q)
    case (Inl e)
    with g have "c = ctx" by simp
    with assms(1) Inr d Inl show ?thesis
      by (auto simp: ccsds_sdls_ep_process_pdu_def ep_rejection_def forget_carrier_def Let_def)
  next
    case r: (Inr reply)
    with assms(1) Inr d g show ?thesis
      by (auto simp: ccsds_sdls_ep_process_pdu_def forget_carrier_def Let_def)
  qed
qed

lemma ep_rejection_frame [simp]:
  "same_security ctx (ep_rejection cfg ctx encoded e)" "fsr (ep_rejection cfg ctx encoded e) = fsr ctx"
  by (simp_all add: ep_rejection_def Let_def)

lemma ep_rejection_inv:
  "sdls_inv cfg ctx \<Longrightarrow> 0 < CCSDS_SDLS_EVENT_LOG_CAPACITY cfg \<Longrightarrow> sdls_inv cfg (ep_rejection cfg ctx encoded e)"
  by (simp add: ep_rejection_def Let_def event_record_log(1))

lemma process_pdu_good:
  assumes "ccsds_sdls_ep_process_pdu cfg psa ctx ks encoded cap = (r, ctx', ks')" "CCSDS_SDLS_MAX_KEYS cfg \<le> 255"
  shows "ep_step cfg encoded ctx ctx'" "isl r \<Longrightarrow> same_security ctx ctx' \<and> fsr ctx' = fsr ctx"
    "sdls_inv cfg ctx \<Longrightarrow> 0 < CCSDS_SDLS_EVENT_LOG_CAPACITY cfg \<Longrightarrow> sdls_inv cfg ctx'"
proof -
  have "ep_step cfg encoded ctx ctx' \<and> (isl r \<longrightarrow> same_security ctx ctx' \<and> fsr ctx' = fsr ctx) \<and>
     (sdls_inv cfg ctx \<longrightarrow> 0 < CCSDS_SDLS_EVENT_LOG_CAPACITY cfg \<longrightarrow> sdls_inv cfg ctx')"
  proof (cases r)
    case (Inl e)
    with process_pdu_cases [OF assms] have c: "ctx' = forget_carrier (ep_rejection cfg ctx encoded e)" by simp
    have "same_security ctx ctx'" unfolding c by (rule same_security_trans [OF ep_rejection_frame(1) forget_carrier_frame(1)])
    with c Inl show ?thesis by (simp add: ep_step.query ep_rejection_inv)
  next
    case (Inr reply)
    with process_pdu_cases [OF assms] obtain ctx1 where c: "good_step cfg encoded ctx ctx1" "ctx' = forget_carrier ctx1" by auto
    then have "ep_step cfg encoded ctx ctx'" by (auto simp: good_step_def intro: ep_step_same)
    with c Inr show ?thesis by (simp add: good_step_def)
  qed
  then show "ep_step cfg encoded ctx ctx'" "isl r \<Longrightarrow> same_security ctx ctx' \<and> fsr ctx' = fsr ctx"
    "sdls_inv cfg ctx \<Longrightarrow> 0 < CCSDS_SDLS_EVENT_LOG_CAPACITY cfg \<Longrightarrow> sdls_inv cfg ctx'" by blast+
qed

lemma ep_rejection_log:
  assumes "sdls_inv cfg ctx" "0 < CCSDS_SDLS_EVENT_LOG_CAPACITY cfg"
  shows "event_log cfg (ccsds_sdls_event_record cfg ctx tag code spi arsn) =
    drop (Suc (event_count ctx) - CCSDS_SDLS_EVENT_LOG_CAPACITY cfg)
      (event_log cfg ctx @ [\<lparr>pdu_or_event_tag = tag, event_code = Some code, event_spi = spi, event_arsn = arsn\<rparr>])"
proof -
  have len: "length (event_log cfg ctx) = event_count ctx" "event_count ctx \<le> CCSDS_SDLS_EVENT_LOG_CAPACITY cfg"
    using assms(1) by (simp_all add: event_log_def sdls_inv_def)
  then have "event_count ctx = CCSDS_SDLS_EVENT_LOG_CAPACITY cfg \<Longrightarrow> event_log cfg ctx \<noteq> []" using assms(2) by auto
  moreover have "Suc 0 - CCSDS_SDLS_EVENT_LOG_CAPACITY cfg = 0" using assms(2) by simp
  ultimately show ?thesis
    using len event_record_log(2) [OF assms refl, of tag code spi arsn]
    by (cases "event_count ctx < CCSDS_SDLS_EVENT_LOG_CAPACITY cfg") (auto simp: drop_Suc)
qed

section \<open>Properties\<close>

text \<open>A PSA store without keys operations for the witnesses: every key is a usable AES-256 key and nothing can be imported.\<close>

definition demo_psa :: "(unit, unit) psa_ops" where
  "demo_psa = \<lparr>psa_get_key_attributes = \<lambda>_ _. Some otar_attributes, psa_import_key = \<lambda>_ _ ks. (None, ks),
     psa_destroy_key = \<lambda>_ ks. ks, psa_aead_encrypt = \<lambda>_. demo_encrypt, psa_aead_decrypt = \<lambda>_. demo_decrypt,
     run_self_test = \<lambda>_ _ ks. ((0, 0), ks)\<rparr>"

lemma demo_inv: "sdls_inv default_sdls_config (demo_ctx role)"
  unfolding demo_ctx_def by (rule sdls_init_inv) (simp add: default_sdls_config_def)

lemma default_bounds [simp]:
  "CCSDS_SDLS_MAX_KEYS default_sdls_config \<le> 255" "0 < CCSDS_SDLS_EVENT_LOG_CAPACITY default_sdls_config"
  "CCSDS_SDLS_MAX_SA default_sdls_config = 4"
  by (simp_all add: default_sdls_config_def)

text \<open>
  C11. A rejected PDU changes no security state: the associations, the keys, the IV generator and the frame security report
  are as before.  It leaves exactly one record in the event log, with the code of the failure and the SPI and ARSN of the frame that
  carried the PDU (zero without one) - except that a PDU that decodes and fails for capacity leaves none.
\<close>

theorem ep_rejected_keeps_state:
  assumes "ccsds_sdls_ep_process_pdu cfg psa ctx ks encoded cap = (Inl e, ctx', ks')" "CCSDS_SDLS_MAX_KEYS cfg \<le> 255"
    and "sdls_inv cfg ctx" "0 < CCSDS_SDLS_EVENT_LOG_CAPACITY cfg"
    and "decoded = ccsds_sdls_ep_pdu_decode cfg encoded" "valid = authenticated_rx_valid ctx"
  shows "sas ctx' = sas ctx \<and> keys ctx' = keys ctx \<and> tx_iv ctx' = tx_iv ctx \<and> fsr ctx' = fsr ctx \<and>
    event_log cfg ctx' =
      (if \<not> isl decoded \<and> e = CCSDS_SDLS_ERR_CAPACITY then event_log cfg ctx
       else drop (Suc (event_count ctx) - CCSDS_SDLS_EVENT_LOG_CAPACITY cfg) (event_log cfg ctx @
         [\<lparr>pdu_or_event_tag = (if valid \<and> encoded \<noteq> [] then encoded ! 0 else CCSDS_SDLS_EVENT_TAG_LOCAL),
           event_code = Some (ep_event_code (case decoded of Inl _ \<Rightarrow> None | Inr pdu \<Rightarrow> Some pdu) e),
           event_spi = (if valid then authenticated_rx_spi ctx else 0),
           event_arsn = (if valid then authenticated_rx_arsn ctx else 0)\<rparr>]))"
proof -
  have "same_security ctx ctx' \<and> fsr ctx' = fsr ctx" using process_pdu_good(2) [OF assms(1,2)] by simp
  moreover have "ctx' = forget_carrier (ep_rejection cfg ctx encoded e)" using process_pdu_cases [OF assms(1,2)] by simp
  ultimately show ?thesis
    using ep_rejection_log [OF assms(3,4)] assms(5,6) by (auto simp: same_security_def ep_rejection_def Let_def)
qed

theorem ep_rejected_keeps_state_witness:
  "event_log default_sdls_config (fst (snd (ccsds_sdls_ep_process_pdu default_sdls_config demo_psa
     (demo_ctx CCSDS_SDLS_SA_OPERATIONAL_TC_RX) () [0x19, 0, 0x10, 0, 1] 64))) =
   [\<lparr>pdu_or_event_tag = 0xfe, event_code = Some CCSDS_SDLS_EVENT_SA_TRANSITION, event_spi = 0, event_arsn = 0\<rparr>]"
proof -
  let ?c = "demo_ctx CCSDS_SDLS_SA_OPERATIONAL_TC_RX"
  let ?p = "ccsds_sdls_ep_process_pdu default_sdls_config demo_psa ?c () [0x19, 0, 0x10, 0, 1] 64"
  have f: "authenticated_rx_valid ?c = False" "event_count ?c = 0" "event_log default_sdls_config ?c = []"
    by (simp_all add: event_log_def demo_ctx_def ccsds_sdls_init_def init_sa_def init_key_def zero_ctx_def)
  have "configured (sas ?c ! 0)" by (simp add: demo_ctx_fields)
  have dec: "ccsds_sdls_ep_pdu_decode default_sdls_config [0x19, 0, 0x10, 0, 1] = Inr \<lparr>pdu_data = [0, 1], service_group = 1,
      ep_procedure = 9, ep_type = 0\<rparr>" by code_simp
  have cmd: "ccsds_sdls_ep_sa_command_decode default_sdls_config 9 [0x19, 0, 0x10, 0, 1] = Inr 1" by code_simp
  have p: "?p = (Inl CCSDS_SDLS_ERR_SA_STATE, fst (snd ?p), snd (snd ?p))"
    by (simp add: ccsds_sdls_ep_process_pdu_def dec dispatch_procedure_def ccsds_sdls_ep_process_expire_sa_def
        process_sa_transition_def cmd managed_sa_def ccsds_sdls_sa_lookup_def demo_ctx_fields no_reply_def Let_def)
  show ?thesis
    using ep_rejected_keeps_state [OF p _ demo_inv _ refl refl]
    by (simp add: f dec ep_event_code_def CCSDS_SDLS_EVENT_TAG_LOCAL_def) (simp add: default_sdls_config_def)
qed

lemma sa_step_summary:
  assumes "sa_step cfg ctx i pr sa'" "sa = sas ctx ! i"
  shows "configured sa' = configured sa \<and>
    (sa_state sa, sa_state sa') \<in> {(CCSDS_SDLS_SA_STOPPED, CCSDS_SDLS_SA_OPERATIONAL), (CCSDS_SDLS_SA_OPERATIONAL, CCSDS_SDLS_SA_STOPPED),
      (CCSDS_SDLS_SA_STOPPED, CCSDS_SDLS_SA_EXPIRED), (CCSDS_SDLS_SA_EXPIRED, CCSDS_SDLS_SA_STOPPED),
      (CCSDS_SDLS_SA_STOPPED, CCSDS_SDLS_SA_STOPPED), (CCSDS_SDLS_SA_OPERATIONAL, CCSDS_SDLS_SA_OPERATIONAL)} \<and>
    (sa_state sa = CCSDS_SDLS_SA_EXPIRED \<and> CCSDS_SDLS_SESSION_KEY_BASE cfg \<le> unat (key_slot sa') \<and>
       key_state (keys ctx ! unat (key_slot sa')) = CCSDS_SDLS_KEY_ACTIVE \<and> key_shared_ok cfg ctx i (key_slot sa') \<or>
     key_slot sa' = key_slot sa \<and>
       (rx_arsn_initialized sa \<longrightarrow> rx_arsn_initialized sa' \<and> rx_arsn sa \<le> rx_arsn sa'))"
  using assms(1) unfolding assms(2)
  by (cases rule: sa_step.cases) (cases "sa_state (sas ctx ! i)"; simp)+

text \<open>
  C9. The life cycle of a Security Association: if a PDU, whatever its bytes, changes an association, then it was accepted, it changes
  only this one and no key, and the association makes one of the documented steps: Stopped to Operational and back, Stopped to Expired,
  Expired to Stopped, or a change of replay state in its place.  Its key, and a receive sequence number to a smaller one, change
  only on the way from Expired to Stopped, and the new key is an active session key that every other association using it uses in
  the same direction and mode.
\<close>

theorem ep_sa_lifecycle:
  assumes "ccsds_sdls_ep_process_pdu cfg psa ctx ks encoded cap = (r, ctx', ks')" "sdls_config_ok cfg" "sdls_inv cfg ctx"
    and "i < CCSDS_SDLS_MAX_SA cfg" "sas ctx' ! i \<noteq> sas ctx ! i" "sa = sas ctx ! i" "sa' = sas ctx' ! i"
  shows "isl r = False \<and> keys ctx' = keys ctx \<and> configured sa \<and> configured sa' \<and>
    (\<forall>j. j = i \<or> sas ctx' ! j = sas ctx ! j) \<and> sa_roles ctx' = sa_roles ctx \<and> sa_modes ctx' = sa_modes ctx \<and>
    (sa_state sa, sa_state sa') \<in> {(CCSDS_SDLS_SA_STOPPED, CCSDS_SDLS_SA_OPERATIONAL), (CCSDS_SDLS_SA_OPERATIONAL, CCSDS_SDLS_SA_STOPPED),
      (CCSDS_SDLS_SA_STOPPED, CCSDS_SDLS_SA_EXPIRED), (CCSDS_SDLS_SA_EXPIRED, CCSDS_SDLS_SA_STOPPED),
      (CCSDS_SDLS_SA_STOPPED, CCSDS_SDLS_SA_STOPPED), (CCSDS_SDLS_SA_OPERATIONAL, CCSDS_SDLS_SA_OPERATIONAL)} \<and>
    (sa_state sa = CCSDS_SDLS_SA_EXPIRED \<and> CCSDS_SDLS_SESSION_KEY_BASE cfg \<le> unat (key_slot sa') \<and>
       key_state (keys ctx ! unat (key_slot sa')) = CCSDS_SDLS_KEY_ACTIVE \<and> key_shared_ok cfg ctx i (key_slot sa') \<or>
     key_slot sa' = key_slot sa \<and>
       (rx_arsn_initialized sa \<longrightarrow> rx_arsn_initialized sa' \<and> rx_arsn sa \<le> rx_arsn sa'))"
proof -
  have keys: "CCSDS_SDLS_MAX_KEYS cfg \<le> 255" using assms(2) by (simp add: sdls_config_ok_def)
  note step = process_pdu_good(1) [OF assms(1) keys] and err = process_pdu_good(2) [OF assms(1) keys]
  from step show ?thesis
  proof (cases rule: ep_step.cases)
    case query
    with assms(5) show ?thesis by (simp add: same_security_def)
  next
    case (key ks iv)
    with assms(5) show ?thesis by (simp add: same_security_def)
  next
    case (sa spi pr ctx1)
    from sa(1) obtain sa1 where s: "configured (sas ctx ! (unat spi - 1))" "sa_step cfg ctx (unat spi - 1) pr sa1"
      "ctx1 = ctx\<lparr>sas := (sas ctx)[unat spi - 1 := sa1]\<rparr>" unfolding sas_step_def by blast
    with sa(2) have sas: "sas ctx' = (sas ctx)[unat spi - 1 := sa1]"
      and rest: "keys ctx' = keys ctx" "sa_roles ctx' = sa_roles ctx" "sa_modes ctx' = sa_modes ctx"
      by (simp_all add: same_security_def)
    have i: "i = unat spi - 1" using assms(5) sas by (metis nth_list_update_neq)
    have len: "i < length (sas ctx)" using assms(3,4) by (simp add: sdls_inv_def)
    have acc: "isl r = False" using err assms(5) by (auto simp: same_security_def)
    have new: "sa' = sa1" using sas i len assms(7) by simp
    have others: "\<forall>j. j = i \<or> sas ctx' ! j = sas ctx ! j" using sas i by (metis nth_list_update_neq)
    have "sa_step cfg ctx i pr sa'" using s(2) i new by simp
    with sa_step_summary [OF _ assms(6)] s(1) i assms(6) rest others acc show ?thesis by simp
  qed
qed

theorem ep_sa_lifecycle_witness:
  "keys (fst (snd (ccsds_sdls_ep_process_pdu default_sdls_config demo_psa
     (demo_ctx CCSDS_SDLS_SA_OPERATIONAL_TC_RX) () [0x1e, 0, 0x10, 0, 1] 64))) = keys (demo_ctx CCSDS_SDLS_SA_OPERATIONAL_TC_RX)"
proof -
  let ?c = "demo_ctx CCSDS_SDLS_SA_OPERATIONAL_TC_RX"
  let ?p = "ccsds_sdls_ep_process_pdu default_sdls_config demo_psa ?c () [0x1e, 0, 0x10, 0, 1] 64"
  have eq: "?p = (fst ?p, fst (snd ?p), snd (snd ?p))" by (simp only: prod.collapse)
  have dec: "ccsds_sdls_ep_pdu_decode default_sdls_config [0x1e, 0, 0x10, 0, 1] = Inr \<lparr>pdu_data = [0, 1], service_group = 1,
      ep_procedure = 14, ep_type = 0\<rparr>" by code_simp
  have cmd: "ccsds_sdls_ep_sa_command_decode default_sdls_config 14 [0x1e, 0, 0x10, 0, 1] = Inr 1" by code_simp
  have len: "length (sas ?c) = 4" using demo_inv [of CCSDS_SDLS_SA_OPERATIONAL_TC_RX] by (simp add: sdls_inv_def)
  have "sa_state (sas (fst (snd ?p)) ! 0) = CCSDS_SDLS_SA_STOPPED"
    using len by (simp add: ccsds_sdls_ep_process_pdu_def dec dispatch_procedure_def ccsds_sdls_ep_process_stop_sa_def
        process_sa_transition_def cmd managed_sa_def ccsds_sdls_sa_lookup_def demo_ctx_fields no_reply_def set_sa_def)
  then have "sas (fst (snd ?p)) ! 0 \<noteq> sas ?c ! 0" by (auto simp: demo_ctx_fields)
  moreover have "sdls_config_ok default_sdls_config" by (simp add: sdls_config_ok_def default_sdls_config_def)
  ultimately show ?thesis
    using ep_sa_lifecycle [OF eq _ demo_inv _ _ refl refl, of 0]
    by simp
qed

lemma key_step_summary:
  assumes "key_step k k'"
  shows "if psa_key_id k \<noteq> PSA_KEY_ID_NULL \<and> key_state k = CCSDS_SDLS_KEY_ACTIVE
     then psa_key_id k' = psa_key_id k \<and> key_state k' \<in> {CCSDS_SDLS_KEY_ACTIVE, CCSDS_SDLS_KEY_DEACTIVATED} \<and>
       tx_arsn k' \<in> {tx_arsn k, tx_arsn k + 1}
     else if key_state k' = CCSDS_SDLS_KEY_ACTIVE
     then psa_key_id k \<noteq> PSA_KEY_ID_NULL \<and> key_state k = CCSDS_SDLS_KEY_PREACTIVE \<and> k' = k\<lparr>key_state := CCSDS_SDLS_KEY_ACTIVE\<rparr>
     else key_state k' = CCSDS_SDLS_KEY_PREACTIVE \<and> tx_arsn k' = 0 \<or>
       psa_key_id k' = psa_key_id k \<and> key_state k = CCSDS_SDLS_KEY_PREACTIVE \<and> tx_arsn k' \<in> {tx_arsn k, tx_arsn k + 1}"
  using assms by (cases rule: key_step.cases) (cases "key_state k"; simp)+

text \<open>
  C10. The life cycle of a key: if a PDU changes an entry of the key table, then it was accepted, the entry is a session key (master keys
  never change), and no association changes.  The material of an active key is never replaced; a key becomes active
  only from Pre-Activation with the material it has; a deactivated entry comes back only by loading, as a pre-active key with
  transmit sequence number zero; and otherwise the transmit sequence number only counts up.
\<close>

theorem ep_key_lifecycle:
  assumes "ccsds_sdls_ep_process_pdu cfg psa ctx ks encoded cap = (r, ctx', ks')" "sdls_config_ok cfg" "sdls_inv cfg ctx"
    and "i < CCSDS_SDLS_MAX_KEYS cfg" "keys ctx' ! i \<noteq> keys ctx ! i" "k = keys ctx ! i" "k' = keys ctx' ! i"
  shows "isl r = False \<and> sas ctx' = sas ctx \<and> CCSDS_SDLS_SESSION_KEY_BASE cfg \<le> i \<and>
    (if psa_key_id k \<noteq> PSA_KEY_ID_NULL \<and> key_state k = CCSDS_SDLS_KEY_ACTIVE
     then psa_key_id k' = psa_key_id k \<and> key_state k' \<in> {CCSDS_SDLS_KEY_ACTIVE, CCSDS_SDLS_KEY_DEACTIVATED} \<and>
       tx_arsn k' \<in> {tx_arsn k, tx_arsn k + 1}
     else if key_state k' = CCSDS_SDLS_KEY_ACTIVE
     then psa_key_id k \<noteq> PSA_KEY_ID_NULL \<and> key_state k = CCSDS_SDLS_KEY_PREACTIVE \<and> k' = k\<lparr>key_state := CCSDS_SDLS_KEY_ACTIVE\<rparr>
     else key_state k' = CCSDS_SDLS_KEY_PREACTIVE \<and> tx_arsn k' = 0 \<or>
       psa_key_id k' = psa_key_id k \<and> key_state k = CCSDS_SDLS_KEY_PREACTIVE \<and> tx_arsn k' \<in> {tx_arsn k, tx_arsn k + 1})"
proof -
  have keys: "CCSDS_SDLS_MAX_KEYS cfg \<le> 255" using assms(2) by (simp add: sdls_config_ok_def)
  note step = process_pdu_good(1) [OF assms(1) keys] and err = process_pdu_good(2) [OF assms(1) keys]
  have acc: "isl r = False" using err assms(5) by (auto simp: same_security_def)
  from step show ?thesis
  proof (cases rule: ep_step.cases)
    case query
    with assms(5) show ?thesis by (simp add: same_security_def)
  next
    case (sa spi pr ctx1)
    with assms(5) show ?thesis by (auto simp: same_security_def sas_step_def)
  next
    case (key t iv)
    then have t: "keys ctx' = t" "sas ctx' = sas ctx" by (simp_all add: same_security_def)
    have len: "i < length (keys ctx)" using assms(3,4) by (simp add: sdls_inv_def)
    with key(1) assms(5-7) t have s: "CCSDS_SDLS_SESSION_KEY_BASE cfg \<le> i" "key_step k k'" by (auto simp: keys_step_def)
    with key_step_summary [OF s(2)] acc t(2) show ?thesis by blast
  qed
qed

theorem ep_key_lifecycle_witness:
  "sas (fst (snd (ccsds_sdls_ep_process_pdu default_sdls_config demo_psa
     (demo_ctx CCSDS_SDLS_SA_OPERATIONAL_TC_RX) () [0x03, 0, 0x10, 0, 5] 64))) = sas (demo_ctx CCSDS_SDLS_SA_OPERATIONAL_TC_RX)"
proof -
  let ?c = "demo_ctx CCSDS_SDLS_SA_OPERATIONAL_TC_RX"
  let ?p = "ccsds_sdls_ep_process_pdu default_sdls_config demo_psa ?c () [0x03, 0, 0x10, 0, 5] 64"
  have eq: "?p = (fst ?p, fst (snd ?p), snd (snd ?p))" by (simp only: prod.collapse)
  have dec: "ccsds_sdls_ep_pdu_decode default_sdls_config [0x03, 0, 0x10, 0, 5] = Inr \<lparr>pdu_data = [0, 5], service_group = 0,
      ep_procedure = 3, ep_type = 0\<rparr>" by code_simp
  have cmd: "ccsds_sdls_ep_key_command_decode default_sdls_config 3 [0x03, 0, 0x10, 0, 5] = Inr [5]" by code_simp
  have len: "length (keys ?c) = 8"
    using demo_inv [of CCSDS_SDLS_SA_OPERATIONAL_TC_RX] by (simp add: sdls_inv_def default_sdls_config_def)
  have check: "lifecycle_check default_sdls_config demo_psa () ?c 3 [] [5] = None"
    by (simp add: ccsds_sdls_key_lookup_def demo_ctx_fields PSA_KEY_ID_NULL_def validate_key_def demo_psa_def otar_attributes_def)
      (simp add: default_sdls_config_def)
  have "key_state (keys (fst (snd ?p)) ! 5) = CCSDS_SDLS_KEY_DEACTIVATED"
    using len by (simp add: ccsds_sdls_ep_process_pdu_def dec dispatch_procedure_def ccsds_sdls_ep_process_key_deactivation_def
        process_lifecycle_def cmd check no_reply_def del: lifecycle_check.simps)
  then have "keys (fst (snd ?p)) ! 5 \<noteq> keys ?c ! 5" by (auto simp: demo_ctx_fields)
  moreover have "sdls_config_ok default_sdls_config" by (simp add: sdls_config_ok_def default_sdls_config_def)
  moreover have "5 < CCSDS_SDLS_MAX_KEYS default_sdls_config" by (simp add: default_sdls_config_def)
  ultimately show ?thesis
    using ep_key_lifecycle [OF eq _ demo_inv _ _ refl refl, of 5]
    by simp
qed

text \<open>
  When Start SA is accepted: exactly for a configured, Stopped association that is a clear one, started from a frame authenticated under
  another association, or whose key is present, active, usable for its direction and shared with no association of another
  direction or mode.  The key may be a master key, as in the witness, which starts an association keyed with master key 2: the design
  document asks for a session key here.
\<close>

theorem start_sa_accepted_iff:
  assumes "ccsds_sdls_ep_start_sa_decode cfg encoded = Inr c" "CCSDS_SDLS_MAX_KEYS cfg \<le> 255" "CCSDS_SDLS_MAX_SA cfg \<le> 255"
    and "slot = unat (start_spi c) - 1" "k = key_slot (sas ctx ! slot)" "key = keys ctx ! unat k"
  shows "fst (ccsds_sdls_ep_process_start_sa cfg psa ks ctx encoded) = None \<longleftrightarrow>
    start_spi c \<noteq> 0 \<and> unat (start_spi c) \<le> CCSDS_SDLS_MAX_SA cfg \<and> configured (sas ctx ! slot) \<and>
    sa_state (sas ctx ! slot) = CCSDS_SDLS_SA_STOPPED \<and>
    (if sa_modes ctx ! slot = CCSDS_SDLS_MODE_CLEAR then authenticated_rx_valid ctx \<and> authenticated_rx_spi ctx \<noteq> start_spi c
     else k \<noteq> 0 \<and> unat k < CCSDS_SDLS_MAX_KEYS cfg \<and> psa_key_id key \<noteq> PSA_KEY_ID_NULL \<and> key_state key = CCSDS_SDLS_KEY_ACTIVE \<and>
       validate_key psa ks (psa_key_id key)
         {if sa_role_is_tx (sa_roles ctx ! slot) then PSA_KEY_USAGE_ENCRYPT else PSA_KEY_USAGE_DECRYPT} = None \<and>
       key_shared_ok cfg ctx slot k)"
proof -
  have u: "unat (ucast x :: u16) = unat x" for x :: u8
    by (simp only: unsigned_ucast_eq) (rule take_bit_nat_eq_self, use unat_u8_less [of x] in simp)
  have inj: "ucast x = (ucast y :: u16) \<longleftrightarrow> x = y" for x y :: u8 by (metis u word_unat_eq_iff)
  have max: "start_spi c = 0xffff \<Longrightarrow> \<not> unat (start_spi c) \<le> CCSDS_SDLS_MAX_SA cfg" using assms(3) by simp
  have key: "validate_sa_key cfg psa ks ctx slot (ucast k) False = None \<longleftrightarrow>
     k \<noteq> 0 \<and> unat k < CCSDS_SDLS_MAX_KEYS cfg \<and> psa_key_id key \<noteq> PSA_KEY_ID_NULL \<and> key_state key = CCSDS_SDLS_KEY_ACTIVE \<and>
       validate_key psa ks (psa_key_id key)
         {if sa_role_is_tx (sa_roles ctx ! slot) then PSA_KEY_USAGE_ENCRYPT else PSA_KEY_USAGE_DECRYPT} = None \<and>
       key_shared_ok cfg ctx slot k"
    using inj [of k 0] assms(6)
    by (auto simp: validate_sa_key_def ccsds_sdls_key_lookup_def key_shared_ok_def u inj Let_def split: option.splits)
  have sa: "managed_sa cfg ctx (start_spi c) =
    (if start_spi c \<noteq> 0 \<and> unat (start_spi c) \<le> CCSDS_SDLS_MAX_SA cfg \<and> configured (sas ctx ! slot) then Inr slot
     else Inl CCSDS_SDLS_ERR_UNKNOWN_SA)"
    using max assms(4) by (auto simp: managed_sa_def ccsds_sdls_sa_lookup_def)
  have "fst (ccsds_sdls_ep_process_start_sa cfg psa ks ctx encoded) = None \<longleftrightarrow>
    start_spi c \<noteq> 0 \<and> unat (start_spi c) \<le> CCSDS_SDLS_MAX_SA cfg \<and> configured (sas ctx ! slot) \<and>
    sa_state (sas ctx ! slot) = CCSDS_SDLS_SA_STOPPED \<and>
    (if sa_modes ctx ! slot = CCSDS_SDLS_MODE_CLEAR then authenticated_rx_valid ctx \<and> authenticated_rx_spi ctx \<noteq> start_spi c
     else validate_sa_key cfg psa ks ctx slot (ucast k) False = None)"
    using assms(1,5)
    by (cases "validate_sa_key cfg psa ks ctx slot (ucast k) False")
      (auto simp: ccsds_sdls_ep_process_start_sa_def sa split: option.splits)
  then show ?thesis unfolding key .
qed

definition demo_master_ctx :: "unit ccsds_sdls_ctx" where
  "demo_master_ctx = ccsds_sdls_init default_sdls_config
     [\<lparr>init_spi = 1, init_key_id = 2, init_rx_arsn = 0, init_role = CCSDS_SDLS_SA_OPERATIONAL_TC_RX,
       init_mode = CCSDS_SDLS_MODE_GCM, init_sa_state = CCSDS_SDLS_SA_STOPPED, has_key = True, init_rx_arsn_initialized = False\<rparr>]
     [\<lparr>init_psa_key_id = 77, key_id = 2, init_key_state = CCSDS_SDLS_KEY_ACTIVE\<rparr>]"

theorem start_sa_accepted_iff_witness:
  "fst (ccsds_sdls_ep_process_start_sa default_sdls_config demo_psa () demo_master_ctx [0x1b, 0, 0x10, 0, 1]) = None \<and>
   unat (key_slot (sas demo_master_ctx ! 0)) < CCSDS_SDLS_SESSION_KEY_BASE default_sdls_config"
proof -
  have dec: "ccsds_sdls_ep_start_sa_decode default_sdls_config [0x1b, 0, 0x10, 0, 1] =
      Inr \<lparr>start_spi = 1, associations = []\<rparr>" by code_simp
  have f: "sas demo_master_ctx ! 0 = \<lparr>rx_arsn = 0, rx_window = 1024, key_slot = 2, sa_state = CCSDS_SDLS_SA_STOPPED,
       last_procedure = 0, rx_arsn_initialized = False, configured = True\<rparr>"
    "keys demo_master_ctx ! 2 = \<lparr>psa_key_id = 77, tx_arsn = 0, key_state = CCSDS_SDLS_KEY_ACTIVE\<rparr>"
    "sa_modes demo_master_ctx ! 0 = CCSDS_SDLS_MODE_GCM"
    "i < 4 \<Longrightarrow> i \<noteq> 0 \<Longrightarrow> \<not> configured (sas demo_master_ctx ! i)" for i
    by (simp_all add: demo_master_ctx_def ccsds_sdls_init_def init_sa_def init_key_def zero_ctx_def zero_sa_def
        zero_key_def default_sdls_config_def)
  have shared: "key_shared_ok default_sdls_config demo_master_ctx 0 2" using f(4) by (auto simp: key_shared_ok_def)
  have key: "validate_key demo_psa () 77 {u} = None" if "u \<noteq> PSA_KEY_USAGE_OTHER" for u
    using that by (cases u) (simp_all add: validate_key_def demo_psa_def otar_attributes_def)
  show ?thesis
    using start_sa_accepted_iff [OF dec _ _ refl refl refl, of demo_psa "()" demo_master_ctx]
    by (simp add: f(1-3) shared key PSA_KEY_ID_NULL_def) (simp add: default_sdls_config_def)
qed

text \<open>
  Stop SA does not look at the frame that carried it: an operational association is stopped by a PDU that it protected itself, and every
  later frame under it is refused.  The design document says that the packet service rejects such a command; only Start of a clear
  association makes that comparison.
\<close>

theorem stop_sa_of_own_carrier:
  assumes "ep_config_ok cfg" "sdls_inv cfg ctx" "spi \<noteq> 0" "unat spi \<le> CCSDS_SDLS_MAX_SA cfg" "configured (sas ctx ! (unat spi - 1))"
    and "sa_state (sas ctx ! (unat spi - 1)) = CCSDS_SDLS_SA_OPERATIONAL" "authenticated_rx_valid ctx" "authenticated_rx_spi ctx = spi"
  shows "\<exists>ctx'. ccsds_sdls_ep_process_pdu cfg psa ctx ks (ccsds_sdls_ep_sa_command_encode CCSDS_SDLS_EP_STOP_SA spi) cap = (Inr [], ctx', ks) \<and>
    sa_state (sas ctx' ! (unat spi - 1)) = CCSDS_SDLS_SA_STOPPED"
proof -
  let ?e = "ccsds_sdls_ep_sa_command_encode 14 spi"
  have max: "spi \<noteq> 0xffff" using assms(1,4) by (auto simp: ep_config_ok_def sdls_config_ok_def)
  have fits: "ep_fits cfg 2" using assms(1) by (intro ep_fits_config(1)) (auto simp: ep_config_ok_def sdls_config_ok_def)
  have sup: "procedure_supported 0 1 14" by code_simp
  have cmd: "ccsds_sdls_ep_sa_command_decode cfg 14 ?e = Inr spi" using sup fits by (simp add: sa_command_decode_iff)
  have "?e = ep_frame 0 1 14 (put_be16 spi)" by (simp add: ccsds_sdls_ep_sa_command_encode_def ep_frame_def)
  with decode_frame [OF sup, of cfg "put_be16 spi"] fits
  have dec: "ccsds_sdls_ep_pdu_decode cfg ?e = Inr \<lparr>pdu_data = put_be16 spi, service_group = 1, ep_procedure = 14, ep_type = 0\<rparr>"
    by simp
  have "0 < unat spi" using assms(3) by (simp add: unat_gt_0)
  then have len: "unat spi - 1 < length (sas ctx)" using assms(2,4) unfolding sdls_inv_def by linarith
  have sa: "managed_sa cfg ctx spi = Inr (unat spi - 1)"
    using assms(3-5) max by (simp add: managed_sa_def ccsds_sdls_sa_lookup_def)
  have "ccsds_sdls_ep_process_stop_sa cfg ctx ?e = (None, set_sa (unat spi - 1) (\<lambda>sa. sa\<lparr>sa_state := CCSDS_SDLS_SA_STOPPED,
      last_procedure := push_bit 4 1 OR 14\<rparr>) ctx)"
    using cmd sa assms(6) by (simp add: ccsds_sdls_ep_process_stop_sa_def process_sa_transition_def)
  then show ?thesis
    using len by (simp add: ccsds_sdls_ep_process_pdu_def dec dispatch_procedure_def no_reply_def set_sa_def)
qed

theorem stop_sa_of_own_carrier_witness:
  "\<exists>ctx'. ccsds_sdls_ep_process_pdu default_sdls_config demo_psa
     ((demo_ctx CCSDS_SDLS_SA_OPERATIONAL_TC_RX)\<lparr>authenticated_rx_valid := True, authenticated_rx_spi := 1\<rparr>) ()
     (ccsds_sdls_ep_sa_command_encode 14 1) 64 = (Inr [], ctx', ()) \<and> sa_state (sas ctx' ! 0) = CCSDS_SDLS_SA_STOPPED"
  using stop_sa_of_own_carrier [OF ep_config_ok_default, of "(demo_ctx CCSDS_SDLS_SA_OPERATIONAL_TC_RX)\<lparr>authenticated_rx_valid := True,
      authenticated_rx_spi := 1\<rparr>" 1 demo_psa "()" 64] demo_inv [of CCSDS_SDLS_SA_OPERATIONAL_TC_RX]
  by (simp add: demo_ctx_fields)

end
