(* ===== verification/Sdls_Ep_Reply.thy ===== *)
theory Sdls_Ep_Reply
  imports Sdls_Ep_Safety
begin

unbundle bit_operations_syntax

text \<open>
  The replies of the extended procedures: every reply is a PDU the peer accepts as the answer to its command, and the reply of a key
  verification convinces a peer that holds the same keys.
\<close>

section \<open>Key verification\<close>

definition verify_answer ::
  "('k, 'cb) psa_ops \<Rightarrow> 'k \<Rightarrow> 'cb ccsds_sdls_ctx \<Rightarrow> u64 \<Rightarrow> ccsds_sdls_ep_verify_command_entry \<Rightarrow>
     ccsds_sdls_ep_verify_reply_entry \<Rightarrow> bool" where
  "verify_answer psa ks ctx v e r \<longleftrightarrow>
     (let key = keys ctx ! unat (vc_key_id e) in
      vr_key_id r = vc_key_id e \<and> vr_iv r = ccsds_sdls_construct_iv v (tx_arsn key) \<and>
      length (encrypted_challenge r) = 16 \<and> length (vr_tag r) = 16 \<and>
      psa_aead_encrypt psa ks (psa_key_id key) (vr_iv r) [] (challenge e) = Inr (encrypted_challenge r @ vr_tag r))"

lemma verify_encrypt_answers:
  "verify_encrypt psa ks ctx v es = Inr (rs, v') \<Longrightarrow>
     length rs = length es \<and> v' = v + word_of_nat (length es) * CCSDS_SDLS_IV_STRIDE \<and>
     (\<forall>j<length es. verify_answer psa ks ctx (v + word_of_nat j * CCSDS_SDLS_IV_STRIDE) (es ! j) (rs ! j))"
proof (induction psa ks ctx v es arbitrary: rs v' rule: verify_encrypt.induct)
  case (2 psa ks ctx v e es)
  let ?key = "keys ctx ! unat (vc_key_id e)"
  from 2(2) obtain c rs1 where c: "psa_aead_encrypt psa ks (psa_key_id ?key) (ccsds_sdls_construct_iv v (tx_arsn ?key)) [] (challenge e) = Inr c"
      "length c = 32" "verify_encrypt psa ks ctx (v + CCSDS_SDLS_IV_STRIDE) es = Inr (rs1, v')"
      "rs = \<lparr>vr_iv = ccsds_sdls_construct_iv v (tx_arsn ?key), encrypted_challenge = take 16 c, vr_tag = drop 16 c,
        vr_key_id = vc_key_id e\<rparr> # rs1"
    by (auto simp: Let_def split: sum.splits if_splits)
  have IH: "length rs1 = length es \<and> v' = v + CCSDS_SDLS_IV_STRIDE + word_of_nat (length es) * CCSDS_SDLS_IV_STRIDE \<and>
      (\<forall>j<length es. verify_answer psa ks ctx (v + CCSDS_SDLS_IV_STRIDE + word_of_nat j * CCSDS_SDLS_IV_STRIDE) (es ! j) (rs1 ! j))"
    by (rule 2(1) [OF refl refl c(1) _ c(3)]) (simp add: c(2))
  have first: "verify_answer psa ks ctx v e (rs ! 0)" using c by (simp add: verify_answer_def Let_def)
  have "verify_answer psa ks ctx (v + word_of_nat j * CCSDS_SDLS_IV_STRIDE) ((e # es) ! j) (rs ! j)" if "j < length (e # es)" for j
  proof (cases j)
    case 0
    with first show ?thesis by simp
  next
    case (Suc i)
    with that IH c(4) show ?thesis by (simp add: algebra_simps)
  qed
  with IH c(4) show ?case by (simp add: algebra_simps)
qed simp

lemma verify_answer_ok: "verify_answer psa ks ctx v e r \<Longrightarrow> verify_reply_entry_ok r"
  by (auto simp: verify_answer_def verify_reply_entry_ok_def Let_def)

text \<open>What a successful verification has done.\<close>

lemma verification_success:
  assumes "ccsds_sdls_ep_process_key_verification cfg psa ks ctx encoded = (Inr reply, ctx')" "ep_config_ok cfg"
  obtains entries replies where "ccsds_sdls_ep_verify_command_decode cfg encoded = Inr entries"
    "verify_check cfg psa ks ctx [] (map vc_key_id entries) = None"
    "ccsds_sdls_ep_verify_reply_decode cfg reply = Inr replies" "length replies = length entries" "length entries \<le> CCSDS_SDLS_MAX_KEYS cfg"
    "\<forall>j<length entries. verify_answer psa ks ctx (tx_iv ctx + word_of_nat j * CCSDS_SDLS_IV_STRIDE) (entries ! j) (replies ! j)"
    "tx_iv ctx' = tx_iv ctx + word_of_nat (length entries) * CCSDS_SDLS_IV_STRIDE"
proof -
  from assms(1) obtain entries replies v where e: "ccsds_sdls_ep_verify_command_decode cfg encoded = Inr entries"
    "verify_check cfg psa ks ctx [] (map vc_key_id entries) = None"
    "verify_encrypt psa ks ctx (tx_iv ctx) entries = Inr (replies, v)"
    "reply = ccsds_sdls_ep_verify_reply_encode replies" "tx_iv ctx' = v"
    by (auto simp: ccsds_sdls_ep_process_key_verification_def split: sum.splits option.splits prod.splits)
  note a = verify_encrypt_answers [OF e(3)]
  have n: "0 < length entries" "length entries \<le> CCSDS_SDLS_MAX_KEYS cfg" using e(1) by (simp_all add: verify_command_decode_iff)
  have "\<forall>x\<in>set replies. verify_reply_entry_ok x"
    using a verify_answer_ok by (metis in_set_conv_nth)
  moreover have "ep_fits cfg (46 * length replies)" using a n by (intro ep_fits_config(1) [OF assms(2)]) simp
  ultimately have "verify_reply_ok cfg replies" using a n by (simp add: verify_reply_ok_def)
  then have "ccsds_sdls_ep_verify_reply_decode cfg reply = Inr replies" using e(4) by (simp add: ep_verify_reply.decode_iff)
  with e(1,2,5) a n that show thesis by blast
qed

text \<open>A checker that holds the keys.\<close>

definition checker_ready :: "sdls_config \<Rightarrow> ('k, 'cb) psa_ops \<Rightarrow> 'k \<Rightarrow> 'cb ccsds_sdls_ctx \<Rightarrow> u16 \<Rightarrow> psa_aead \<Rightarrow> u32 \<Rightarrow> bool" where
  "checker_ready cfg psa ks ctx kid enc kr \<longleftrightarrow>
     (\<exists>key. ccsds_sdls_key_lookup cfg ctx kid = Inr key \<and> validate_key psa ks (psa_key_id key) {PSA_KEY_USAGE_DECRYPT} = None \<and>
       aead_inverse enc kr (psa_aead_decrypt psa ks) (psa_key_id key))"

lemma check_loop_accepts:
  assumes "\<forall>(e, r)\<in>set ps. vr_key_id r = vc_key_id e \<and> length (challenge e) = 16 \<and>
      CCSDS_SDLS_SESSION_KEY_BASE cfg \<le> unat (vc_key_id e) \<and> unat (vc_key_id e) < CCSDS_SDLS_MAX_KEYS cfg \<and>
      (\<exists>key. ccsds_sdls_key_lookup cfg ctx (vc_key_id e) = Inr key \<and>
        validate_key psa ks (psa_key_id key) {PSA_KEY_USAGE_DECRYPT} = None \<and>
        psa_aead_decrypt psa ks (psa_key_id key) (vr_iv r) [] (encrypted_challenge r @ vr_tag r) = Inr (challenge e))"
    and "distinct (map (vc_key_id \<circ> fst) ps)" "set (map (vc_key_id \<circ> fst) ps) \<inter> set seen = {}"
  shows "check_verification_loop cfg psa ks ctx seen ps = None"
  using assms
proof (induction ps arbitrary: seen)
  case (Cons p ps)
  obtain e r where p: "p = (e, r)" by (cases p)
  from Cons.prems p obtain key where h: "vr_key_id r = vc_key_id e" "length (challenge e) = 16"
    "CCSDS_SDLS_SESSION_KEY_BASE cfg \<le> unat (vc_key_id e)" "unat (vc_key_id e) < CCSDS_SDLS_MAX_KEYS cfg"
    "ccsds_sdls_key_lookup cfg ctx (vc_key_id e) = Inr key" "validate_key psa ks (psa_key_id key) {PSA_KEY_USAGE_DECRYPT} = None"
    "psa_aead_decrypt psa ks (psa_key_id key) (vr_iv r) [] (encrypted_challenge r @ vr_tag r) = Inr (challenge e)"
    "vc_key_id e \<notin> set seen" by auto
  have "check_verification_loop cfg psa ks ctx (vc_key_id e # seen) ps = None"
    using Cons.prems p by (intro Cons.IH) auto
  with h p show ?case by simp
qed simp

lemma verification_accepted:
  assumes "ccsds_sdls_ep_process_key_verification cfg psa ks ctx encoded = (Inr reply, ctx')" "ep_config_ok cfg"
    and "\<And>entries e. ccsds_sdls_ep_verify_command_decode cfg encoded = Inr entries \<Longrightarrow> e \<in> set entries \<Longrightarrow>
      checker_ready cfg psa2 ks2 ctx2 (vc_key_id e) (psa_aead_encrypt psa ks) (psa_key_id (keys ctx ! unat (vc_key_id e)))"
  shows "ccsds_sdls_ep_check_key_verification cfg psa2 ks2 ctx2 encoded reply = None"
  using assms(1,2)
proof (rule verification_success)
  fix entries replies
  assume dec: "ccsds_sdls_ep_verify_command_decode cfg encoded = Inr entries"
    and check: "verify_check cfg psa ks ctx [] (map vc_key_id entries) = None"
    and rep: "ccsds_sdls_ep_verify_reply_decode cfg reply = Inr replies" "length replies = length entries"
    and ans: "\<forall>j<length entries. verify_answer psa ks ctx (tx_iv ctx + word_of_nat j * CCSDS_SDLS_IV_STRIDE) (entries ! j) (replies ! j)"
  note v = verify_checkD [OF check]
  have ch: "\<forall>x\<in>set entries. length (challenge x) = 16" using dec by (simp add: verify_command_decode_iff)
  have entry: "vr_key_id r = vc_key_id e \<and> length (challenge e) = 16 \<and>
      CCSDS_SDLS_SESSION_KEY_BASE cfg \<le> unat (vc_key_id e) \<and> unat (vc_key_id e) < CCSDS_SDLS_MAX_KEYS cfg \<and>
      (\<exists>key. ccsds_sdls_key_lookup cfg ctx2 (vc_key_id e) = Inr key \<and>
        validate_key psa2 ks2 (psa_key_id key) {PSA_KEY_USAGE_DECRYPT} = None \<and>
        psa_aead_decrypt psa2 ks2 (psa_key_id key) (vr_iv r) [] (encrypted_challenge r @ vr_tag r) = Inr (challenge e))"
    if "(e, r) \<in> set (zip entries replies)" for e r
  proof -
    from that obtain j where j: "j < length entries" "e = entries ! j" "r = replies ! j" by (auto simp: set_zip)
    from j ans have a: "vr_key_id r = vc_key_id e"
      "psa_aead_encrypt psa ks (psa_key_id (keys ctx ! unat (vc_key_id e))) (vr_iv r) [] (challenge e) =
         Inr (encrypted_challenge r @ vr_tag r)"
      by (auto simp: verify_answer_def Let_def)
    have "e \<in> set entries" using j by simp
    with assms(3) [OF dec this] a v ch show ?thesis by (auto simp: checker_ready_def aead_inverse_def)
  qed
  have ids: "map (vc_key_id \<circ> fst) (zip entries replies) = map vc_key_id entries"
    using rep(2) by (metis map_fst_zip map_map)
  have "check_verification_loop cfg psa2 ks2 ctx2 [] (zip entries replies) = None"
    by (rule check_loop_accepts) (use entry v ids in \<open>auto simp del: set_zip\<close>)
  with dec rep show ?thesis by (simp add: ccsds_sdls_ep_check_key_verification_def)
qed

section \<open>Replies\<close>

definition reply_of :: "sdls_config \<Rightarrow> u8 \<Rightarrow> u8 \<Rightarrow> bytes \<Rightarrow> bool" where
  "reply_of cfg g p reply \<longleftrightarrow> (\<exists>d. ccsds_sdls_ep_pdu_decode cfg reply =
     Inr \<lparr>pdu_data = d, service_group = g, ep_procedure = p, ep_type = CCSDS_SDLS_EP_REPLY\<rparr>)"

lemma reply_ofI:
  assumes "reply = ep_frame 1 g p d" "procedure_supported 1 g p" "ep_fits cfg (length d)"
  shows "reply_of cfg g p reply"
  using decode_frame [OF assms(2,3)] assms(1) by (auto simp: reply_of_def)

lemma reply_of_header:
  "length d = n \<Longrightarrow> procedure_supported 1 g p \<Longrightarrow> ep_fits cfg n \<Longrightarrow> reply_of cfg g p (encode_header 1 g p n @ d)"
  by (rule reply_ofI [of _ g p d]) (simp_all add: ep_frame_def)

lemma expect_reply_of: "expect_pdu cfg 1 g p reply = Inr d \<Longrightarrow> reply_of cfg g p reply"
  by (auto simp: expect_pdu_iff intro: reply_ofI)

lemma ep_fits_small: "ep_config_ok cfg \<Longrightarrow> n \<le> 92 \<Longrightarrow> ep_fits cfg n"
  by (rule ep_fits_config(1)) (auto simp: ep_config_ok_def sdls_config_ok_def)

lemma inventory_loop_length:
  "inventory_loop cfg psa ks ctx ids es = Inr es' \<Longrightarrow> length es \<le> CCSDS_SDLS_MAX_KEYS cfg \<Longrightarrow> length es' \<le> CCSDS_SDLS_MAX_KEYS cfg"
  by (induction cfg psa ks ctx ids es rule: inventory_loop.induct) (auto simp: Let_def split: option.splits if_splits)

lemma inventory_reply:
  assumes "ccsds_sdls_ep_process_key_inventory cfg psa ks ctx encoded cap = Inr reply" "ep_config_ok cfg"
  shows "reply_of cfg 0 7 reply"
proof -
  from assms(1) obtain entries where e: "ccsds_sdls_ep_key_inventory_reply_encode cfg entries (CCSDS_SDLS_EP_KEY_INVENTORY_REPLY_PDU_MAX cfg) = Inr reply"
    by (auto simp: ccsds_sdls_ep_process_key_inventory_def split: sum.splits if_splits)
  then have n: "length entries \<le> CCSDS_SDLS_MAX_KEYS cfg"
    and r: "reply = encode_header 1 0 7 (2 + length entries * 3) @ put_be16 (word_of_nat (length entries)) @
      concat (map inventory_entry_bytes entries)"
    by (auto simp: ccsds_sdls_ep_key_inventory_reply_encode_def Let_def not_less split: if_splits)
  have len: "length (put_be16 (word_of_nat (length entries)) @ concat (map inventory_entry_bytes entries)) = 2 + length entries * 3"
    using length_chunks [of entries inventory_entry_bytes 3] by (simp add: inventory_entry_bytes_def)
  have "2 \<le> CCSDS_SDLS_MAX_KEYS cfg" using assms(2) by (simp add: ep_config_ok_def sdls_config_ok_def)
  with n have "ep_fits cfg (2 + length entries * 3)" by (intro ep_fits_config(1) [OF assms(2)]) simp
  with len show ?thesis unfolding r by (intro reply_of_header) simp_all
qed

lemma verification_reply_of:
  assumes "ccsds_sdls_ep_process_key_verification cfg psa ks ctx encoded = (Inr reply, ctx')" "ep_config_ok cfg"
  shows "reply_of cfg 0 4 reply"
  using assms
proof (rule verification_success)
  fix replies assume "ccsds_sdls_ep_verify_reply_decode cfg reply = Inr replies"
  then show ?thesis by (auto simp: ccsds_sdls_ep_verify_reply_decode_def intro: expect_reply_of split: sum.splits)
qed

lemma sa_replies:
  assumes "ep_config_ok cfg"
  shows "ccsds_sdls_ep_process_read_arsn cfg ctx encoded = Inr reply \<Longrightarrow> reply_of cfg 1 0 reply"
    and "ccsds_sdls_ep_process_sa_status cfg ctx encoded = Inr reply \<Longrightarrow> reply_of cfg 1 15 reply"
  using ep_fits_small [OF assms]
  by (auto simp: ccsds_sdls_ep_process_read_arsn_def ccsds_sdls_ep_process_sa_status_def ccsds_sdls_ep_read_arsn_reply_encode_def
      ccsds_sdls_ep_sa_status_reply_encode_def intro!: reply_of_header split: sum.splits)

lemma dump_log_reply:
  assumes "ccsds_sdls_ep_dump_log_reply_encode cfg ctx cap = Inr reply" "ep_config_ok cfg" "sdls_inv cfg ctx"
  shows "reply_of cfg 3 3 reply"
proof -
  let ?d = "concat (map event_bytes (event_log cfg ctx))"
  have len: "length ?d = event_count ctx * 10"
    using length_chunks [of "event_log cfg ctx" event_bytes 10] event_bytes_length by (simp add: event_log_def)
  have "event_count ctx \<le> CCSDS_SDLS_EVENT_LOG_CAPACITY cfg" using assms(3) by (simp add: sdls_inv_def)
  then have "ep_fits cfg (length ?d)" using ep_fits_config(3) [OF assms(2)] len by simp
  moreover have "reply = ep_frame 1 3 3 ?d"
    using assms(1) len by (auto simp: ccsds_sdls_ep_dump_log_reply_encode_def ep_frame_def event_log_def comp_def Let_def split: if_splits)
  ultimately show ?thesis by (intro reply_ofI) simp_all
qed

lemma monitoring_reply_of:
  assumes "process_monitoring cfg psa ctx ks pdu encoded cap = (Inr reply, ctx', ks')" "ep_config_ok cfg" "sdls_inv cfg ctx"
  shows "ep_type pdu = CCSDS_SDLS_EP_COMMAND \<and>
    (if ep_procedure pdu \<in> {1, 2, 3, 4, 5} then reply_of cfg 3 (ep_procedure pdu) reply else reply = [])"
proof -
  note small = reply_of_header [OF _ _ ep_fits_small [OF assms(2)]]
  have ping: "reply_of cfg 3 1 (encode_header 1 3 1 0)" using small [of "[]" 0 3 1] by simp
  have log: "reply_of cfg 3 2 (encode_log_summary 2 a b)" "reply_of cfg 3 4 (encode_log_summary 4 a b)" for a b
    by (simp_all add: encode_log_summary_def small)
  have test: "self_test_reply cfg ctx encoded result = (r, c) \<Longrightarrow> reply_of cfg 3 5 r" for result r c
    by (auto simp: self_test_reply_def intro!: small)
  show ?thesis
    using assms(1) unfolding process_monitoring_def
    by (simp split: option.split_asm if_split_asm prod.split_asm)
      (auto intro: ping log test dump_log_reply [OF _ assms(2,3)])
qed

lemma no_reply_empty: "no_reply p ks = (Inr reply, ctx', ks') \<Longrightarrow> reply = []"
  by (auto simp: no_reply_def split: prod.splits option.splits)

definition ep_answered :: "u8 \<Rightarrow> u8 \<Rightarrow> bool" where
  "ep_answered g p \<longleftrightarrow> (g, p) \<in> {(CCSDS_SDLS_EP_KEY_MANAGEMENT, CCSDS_SDLS_EP_KEY_VERIFICATION), (CCSDS_SDLS_EP_KEY_MANAGEMENT, CCSDS_SDLS_EP_KEY_INVENTORY),
     (CCSDS_SDLS_EP_SA_MANAGEMENT, CCSDS_SDLS_EP_READ_ARSN), (CCSDS_SDLS_EP_SA_MANAGEMENT, CCSDS_SDLS_EP_SA_STATUS),
     (CCSDS_SDLS_EP_SECURITY_MONITORING, CCSDS_SDLS_EP_PING), (CCSDS_SDLS_EP_SECURITY_MONITORING, CCSDS_SDLS_EP_LOG_STATUS),
     (CCSDS_SDLS_EP_SECURITY_MONITORING, CCSDS_SDLS_EP_DUMP_LOG), (CCSDS_SDLS_EP_SECURITY_MONITORING, CCSDS_SDLS_EP_ERASE_LOG),
     (CCSDS_SDLS_EP_SECURITY_MONITORING, CCSDS_SDLS_EP_SELF_TEST)}"

lemma dispatch_reply:
  assumes "dispatch_procedure cfg psa ctx ks pdu encoded cap = (Inr reply, ctx', ks')" "ep_config_ok cfg" "sdls_inv cfg ctx"
  shows "if ep_answered (service_group pdu) (ep_procedure pdu) then reply_of cfg (service_group pdu) (ep_procedure pdu) reply
    else reply = []"
  using assms(1) unfolding dispatch_procedure_def Let_def
  by (simp only: split: if_split_asm prod.split_asm)
    (auto simp: ep_answered_def dest: no_reply_empty inventory_reply [OF _ assms(2)] verification_reply_of [OF _ assms(2)]
      sa_replies [OF assms(2)] monitoring_reply_of [OF _ assms(2,3)])

lemma config_keys: "ep_config_ok cfg \<Longrightarrow> CCSDS_SDLS_MAX_KEYS cfg \<le> 255"
  by (simp add: ep_config_ok_def sdls_config_ok_def)

lemma process_pdu_reply:
  assumes "ccsds_sdls_ep_process_pdu cfg psa ctx ks encoded cap = (Inr reply, ctx', ks')" "ep_config_ok cfg" "sdls_inv cfg ctx"
  obtains pdu ctx1 where "ccsds_sdls_ep_pdu_decode cfg encoded = Inr pdu"
    "dispatch_procedure cfg psa ctx ks pdu encoded cap = (Inr reply, ctx1, ks')" "ctx' = forget_carrier ctx1"
    "if ep_answered (service_group pdu) (ep_procedure pdu) then reply_of cfg (service_group pdu) (ep_procedure pdu) reply else reply = []"
proof -
  from process_pdu_cases [OF assms(1) config_keys [OF assms(2)]] obtain pdu ctx1 where d: "ccsds_sdls_ep_pdu_decode cfg encoded = Inr pdu"
    "dispatch_procedure cfg psa ctx ks pdu encoded cap = (Inr reply, ctx1, ks')" "ctx' = forget_carrier ctx1" by auto
  show thesis by (rule that [OF d dispatch_reply [OF d(2) assms(2,3)]])
qed

text \<open>A PDU that a decoder of a key verification command accepts runs the key verification.\<close>

lemma process_pdu_verification:
  assumes "ccsds_sdls_ep_pdu_decode cfg encoded = Inr pdu" "service_group pdu = 0" "ep_procedure pdu = 4"
  shows "dispatch_procedure cfg psa ctx ks pdu encoded cap = (Inr reply, ctx1, ks') \<longleftrightarrow>
    ccsds_sdls_ep_process_key_verification cfg psa ks ctx encoded = (Inr reply, ctx1) \<and> ks' = ks"
  using assms by (auto simp: dispatch_procedure_def split: prod.splits)

lemma verify_command_pdu:
  assumes "ccsds_sdls_ep_verify_command_decode cfg encoded = Inr entries" "ccsds_sdls_ep_pdu_decode cfg encoded = Inr pdu"
  shows "service_group pdu = 0 \<and> ep_procedure pdu = 4"
  using assms by (auto simp: ccsds_sdls_ep_verify_command_decode_def expect_pdu_def split: sum.splits if_splits)

section \<open>Properties\<close>

text \<open>
  C14. Every accepted command is answered as the protocol says: Key Verification, Key Inventory, Read ARSN, SA Status, Ping, Log Status,
  Dump Log, Erase Log and Self Test return a PDU that the peer's decoder accepts as the reply of this service group and procedure,
  and the other procedures return nothing.
\<close>

theorem ep_reply_answers_command:
  assumes "ccsds_sdls_ep_process_pdu cfg psa ctx ks encoded cap = (Inr reply, ctx', ks')" "ep_config_ok cfg" "sdls_inv cfg ctx"
  shows "\<exists>pdu. ccsds_sdls_ep_pdu_decode cfg encoded = Inr pdu \<and>
    (if ep_answered (service_group pdu) (ep_procedure pdu)
     then \<exists>d. ccsds_sdls_ep_pdu_decode cfg reply = Inr \<lparr>pdu_data = d, service_group = service_group pdu,
       ep_procedure = ep_procedure pdu, ep_type = CCSDS_SDLS_EP_REPLY\<rparr>
     else reply = [])"
  using assms by (rule process_pdu_reply) (auto simp: reply_of_def)

theorem ep_reply_answers_command_witness:
  "\<exists>pdu. ccsds_sdls_ep_pdu_decode default_sdls_config [0x31, 0, 0] = Inr pdu \<and>
    (if ep_answered (service_group pdu) (ep_procedure pdu)
     then \<exists>d. ccsds_sdls_ep_pdu_decode default_sdls_config [0xb1, 0, 0] = Inr \<lparr>pdu_data = d, service_group = service_group pdu,
       ep_procedure = ep_procedure pdu, ep_type = CCSDS_SDLS_EP_REPLY\<rparr>
     else [0xb1 :: u8, 0, 0] = [])"
proof -
  let ?p = "ccsds_sdls_ep_process_pdu default_sdls_config demo_psa (demo_ctx CCSDS_SDLS_SA_OPERATIONAL_TC_RX) () [0x31, 0, 0] 64"
  have dec: "ccsds_sdls_ep_pdu_decode default_sdls_config [0x31, 0, 0] =
      Inr \<lparr>pdu_data = [], service_group = 3, ep_procedure = 1, ep_type = 0\<rparr>" by code_simp
  have "encode_header 1 3 1 0 = [0xb1, 0, 0]" by code_simp
  then have "fst ?p = Inr [0xb1, 0, 0]"
    by (simp add: ccsds_sdls_ep_process_pdu_def dec dispatch_procedure_def process_monitoring_def decode_empty_monitoring_command_def
        expect_pdu_def)
  then have "?p = (Inr [0xb1, 0, 0], fst (snd ?p), snd (snd ?p))" by (simp only: prod_eq_iff fst_conv snd_conv simp_thms)
  from ep_reply_answers_command [OF this ep_config_ok_default demo_inv] show ?thesis .
qed

text \<open>
  C13. Key verification convinces: the reply to an accepted Key Verification command passes the check of every peer that holds, for each
  recipient key, a key whose decryption inverts the recipient's encryption.
\<close>

theorem key_verification_round_trip:
  assumes "ccsds_sdls_ep_process_pdu cfg psa ctx ks encoded cap = (Inr reply, ctx', ks')" "ep_config_ok cfg" "sdls_inv cfg ctx"
    and "ccsds_sdls_ep_verify_command_decode cfg encoded = Inr entries"
    and "\<forall>e\<in>set entries. checker_ready cfg psa2 ks2 ctx2 (vc_key_id e)
      (psa_aead_encrypt psa ks) (psa_key_id (keys ctx ! unat (vc_key_id e)))"
  shows "ccsds_sdls_ep_check_key_verification cfg psa2 ks2 ctx2 encoded reply = None"
  using assms(1-3)
proof (rule process_pdu_reply)
  fix pdu ctx1
  assume dec: "ccsds_sdls_ep_pdu_decode cfg encoded = Inr pdu"
    and d: "dispatch_procedure cfg psa ctx ks pdu encoded cap = (Inr reply, ctx1, ks')"
  note k = verify_command_pdu [OF assms(4) dec]
  have v: "ccsds_sdls_ep_process_key_verification cfg psa ks ctx encoded = (Inr reply, ctx1)"
    using d process_pdu_verification [OF dec conjunct1 [OF k] conjunct2 [OF k], of psa ctx ks cap reply ctx1 ks'] by simp
  show ?thesis
  proof (rule verification_accepted [OF v assms(2)])
    fix es e assume "ccsds_sdls_ep_verify_command_decode cfg encoded = Inr es" "e \<in> set es"
    with assms(4,5) show "checker_ready cfg psa2 ks2 ctx2 (vc_key_id e) (psa_aead_encrypt psa ks) (psa_key_id (keys ctx ! unat (vc_key_id e)))"
      by simp
  qed
qed

theorem key_verification_round_trip_witness:
  "ccsds_sdls_ep_check_key_verification default_sdls_config demo_psa () (demo_ctx CCSDS_SDLS_SA_OPERATIONAL_TM_TX)
     ([0x04, 0, 0x90, 0, 5] @ replicate 16 3)
     (ccsds_sdls_ep_verify_reply_encode [\<lparr>vr_iv = ccsds_sdls_construct_iv (tx_iv (demo_ctx CCSDS_SDLS_SA_OPERATIONAL_TC_RX)) 0,
        encrypted_challenge = replicate 16 3, vr_tag = replicate 16 7, vr_key_id = 5\<rparr>]) = None"
proof -
  let ?c = "demo_ctx CCSDS_SDLS_SA_OPERATIONAL_TC_RX" and ?d = "demo_ctx CCSDS_SDLS_SA_OPERATIONAL_TM_TX"
  let ?e = "[0x04, 0, 0x90, 0, 5] @ replicate 16 3"
  let ?r = "ccsds_sdls_ep_verify_reply_encode [\<lparr>vr_iv = ccsds_sdls_construct_iv (tx_iv ?c) 0,
        encrypted_challenge = replicate 16 3, vr_tag = replicate 16 7, vr_key_id = 5\<rparr>]"
  let ?p = "ccsds_sdls_ep_process_pdu default_sdls_config demo_psa ?c () ?e 64"
  have dec: "ccsds_sdls_ep_pdu_decode default_sdls_config ?e = Inr \<lparr>pdu_data = [0, 5] @ replicate 16 3, service_group = 0,
      ep_procedure = 4, ep_type = 0\<rparr>" by code_simp
  have cmd: "ccsds_sdls_ep_verify_command_decode default_sdls_config ?e = Inr [\<lparr>challenge = replicate 16 3, vc_key_id = 5\<rparr>]"
    by code_simp
  have valid: "validate_key demo_psa () 77 {u} = None" if "u \<noteq> PSA_KEY_USAGE_OTHER" for u
    using that by (cases u) (simp_all add: validate_key_def demo_psa_def otar_attributes_def)
  have kb: "CCSDS_SDLS_SESSION_KEY_BASE default_sdls_config = 4" "CCSDS_SDLS_MAX_KEYS default_sdls_config = 8"
    by (simp_all add: default_sdls_config_def)
  have look: "ccsds_sdls_key_lookup default_sdls_config (demo_ctx role) 5 = Inr \<lparr>psa_key_id = 77, tx_arsn = 0, key_state = CCSDS_SDLS_KEY_ACTIVE\<rparr>"
    for role by (simp add: ccsds_sdls_key_lookup_def demo_ctx_fields kb PSA_KEY_ID_NULL_def)
  have check: "verify_check default_sdls_config demo_psa () ?c [] [5] = None" by (simp add: look kb valid)
  have enc: "psa_aead_encrypt demo_psa () = demo_encrypt" "psa_aead_decrypt demo_psa () = demo_decrypt" by (simp_all add: demo_psa_def)
  have "fst ?p = Inr ?r"
    by (simp add: ccsds_sdls_ep_process_pdu_def dec dispatch_procedure_def ccsds_sdls_ep_process_key_verification_def cmd check
        verify_encrypt.simps enc demo_encrypt_def demo_ctx_fields Let_def del: verify_check.simps append_Cons)
  then have p: "?p = (Inr ?r, fst (snd ?p), snd (snd ?p))" by (simp only: prod_eq_iff fst_conv snd_conv simp_thms)
  show ?thesis
  proof (rule key_verification_round_trip [OF p ep_config_ok_default demo_inv cmd])
    show "\<forall>e\<in>set [\<lparr>challenge = replicate 16 3, vc_key_id = 5\<rparr>]. checker_ready default_sdls_config demo_psa () ?d (vc_key_id e)
        (psa_aead_encrypt demo_psa ()) (psa_key_id (keys ?c ! unat (vc_key_id e)))"
      by (simp add: checker_ready_def look valid enc demo_inverse)
  qed
qed

end
