(* ===== verification/Sdls_Session.thy ===== *)
theory Sdls_Session
  imports Sdls_Ep_Reply
begin

unbundle bit_operations_syntax

text \<open>
  The life of a security context: frames arrive, frames are sent and extended procedure PDUs are processed, in any order.  Each call is one of the
  entry points of the module, and a session runs a list of calls over the context and the PSA key store.
\<close>

section \<open>Calls\<close>

datatype sdls_call =
    Process_Frame ccsds_sdls_sa_role ccsds_sdls_auth_header bytes
  | Apply_Frame ccsds_sdls_sa_role u16 ccsds_sdls_auth_header bytes
  | Process_Pdu bytes nat

datatype sdls_result = Accepted u16 u32 | Frame_Sent bytes | Pdu_Done bytes | Refused

fun sdls_call_step ::
  "sdls_config \<Rightarrow> ('k, 'cb) psa_ops \<Rightarrow> 'cb ccsds_sdls_ctx \<times> 'k \<Rightarrow> sdls_call \<Rightarrow> sdls_result \<times> 'cb ccsds_sdls_ctx \<times> 'k" where
  "sdls_call_step cfg psa (ctx, ks) (Process_Frame role auth buf) =
     (case ccsds_sdls_process_security cfg (psa_aead_decrypt psa ks) ctx role auth buf of
        (Inl _, ctx') \<Rightarrow> (Refused, ctx', ks)
      | (Inr _, ctx') \<Rightarrow> (Accepted (wire_spi buf) (wire_arsn buf), ctx', ks))"
| "sdls_call_step cfg psa (ctx, ks) (Apply_Frame role spi auth d) =
     (case ccsds_sdls_apply_security cfg (psa_aead_encrypt psa ks) ctx role spi auth d of
        (Inl _, ctx') \<Rightarrow> (Refused, ctx', ks)
      | (Inr out, ctx') \<Rightarrow> (Frame_Sent out, ctx', ks))"
| "sdls_call_step cfg psa (ctx, ks) (Process_Pdu encoded cap) =
     (case ccsds_sdls_ep_process_pdu cfg psa ctx ks encoded cap of
        (Inl _, ctx', ks') \<Rightarrow> (Refused, ctx', ks')
      | (Inr reply, ctx', ks') \<Rightarrow> (Pdu_Done reply, ctx', ks'))"

definition context_ok :: "sdls_config \<Rightarrow> 'cb ccsds_sdls_ctx \<Rightarrow> bool" where
  "context_ok cfg ctx \<longleftrightarrow> ep_config_ok cfg \<and> sdls_inv cfg ctx"

lemma context_okD:
  assumes "context_ok cfg ctx"
  shows "ep_config_ok cfg" "sdls_inv cfg ctx" "CCSDS_SDLS_MAX_KEYS cfg \<le> 255" "0 < CCSDS_SDLS_EVENT_LOG_CAPACITY cfg"
  using assms by (auto simp: context_ok_def ep_config_ok_def sdls_config_ok_def)

lemma call_step_ok:
  assumes "sdls_call_step cfg psa (ctx, ks) c = (r, ctx', ks')" "context_ok cfg ctx"
  shows "context_ok cfg ctx'"
proof -
  note ok = context_okD [OF assms(2)]
  have "sdls_inv cfg ctx'"
  proof (cases c)
    case (Process_Frame role auth buf)
    with assms(1) process_security_inv [OF ok(2,4), of "psa_aead_decrypt psa ks" role auth buf] show ?thesis
      by (auto split: prod.splits sum.splits)
  next
    case (Apply_Frame role spi auth d)
    with assms(1) apply_security_inv [OF ok(2), of "psa_aead_encrypt psa ks" role spi auth d] show ?thesis
      by (auto split: prod.splits sum.splits)
  next
    case (Process_Pdu encoded cap)
    obtain q c' k' where "ccsds_sdls_ep_process_pdu cfg psa ctx ks encoded cap = (q, c', k')" by (metis prod.exhaust)
    with process_pdu_good(3) [OF this ok(3,2,4)] assms(1) Process_Pdu show ?thesis by (auto split: sum.splits)
  qed
  with ok show ?thesis by (simp add: context_ok_def)
qed

interpretation sdls: stepper "\<lambda>s c. snd (sdls_call_step cfg psa s c)" "\<lambda>s. context_ok cfg (fst s)" for cfg psa
proof unfold_locales
  fix s :: "'a ccsds_sdls_ctx \<times> 'b" and i :: sdls_call
  assume "context_ok cfg (fst s)"
  then show "context_ok cfg (fst (snd (sdls_call_step cfg psa s i)))"
    using call_step_ok [of cfg psa "fst s" "snd s" i] by (metis prod.collapse)
qed

section \<open>Replay\<close>

text \<open>A call that re-keys the association: the only one that may move its sequence number back.\<close>

definition rekeys :: "sdls_config \<Rightarrow> u16 \<Rightarrow> sdls_call \<Rightarrow> bool" where
  "rekeys cfg spi c = (case c of Process_Pdu encoded _ \<Rightarrow>
     (case ccsds_sdls_ep_rekey_sa_decode cfg encoded of Inr command \<Rightarrow> rekey_spi command = spi | Inl _ \<Rightarrow> False) | _ \<Rightarrow> False)"

fun accepted :: "u16 \<Rightarrow> sdls_result list \<Rightarrow> u32 list" where
  "accepted spi [] = []"
| "accepted spi (Accepted s a # rs) = (if s = spi then a # accepted spi rs else accepted spi rs)"
| "accepted spi (_ # rs) = accepted spi rs"

text \<open>The receive state of one association moves forward only.\<close>

definition arsn_forward :: "ccsds_sdls_sa \<Rightarrow> ccsds_sdls_sa \<Rightarrow> bool" where
  "arsn_forward sa sa' \<longleftrightarrow> (rx_arsn_initialized sa \<longrightarrow> rx_arsn_initialized sa' \<and> rx_arsn sa \<le> rx_arsn sa')"

lemma arsn_forward_refl [simp]: "arsn_forward sa sa"
  by (simp add: arsn_forward_def)

lemma spi_slot: "0 < unat (spi :: u16) \<Longrightarrow> 0 < unat s \<Longrightarrow> unat s - 1 = unat spi - 1 \<longleftrightarrow> s = spi"
  by (auto simp: word_unat_eq_iff)

lemma call_step_arsn:
  assumes "sdls_call_step cfg psa (ctx, ks) c = (r, ctx', ks')" "context_ok cfg ctx" "0 < unat spi" "\<not> rekeys cfg spi c"
  shows "case r of
      Accepted s a \<Rightarrow> if s = spi then (rx_arsn_initialized (sas ctx ! (unat spi - 1)) \<longrightarrow> rx_arsn (sas ctx ! (unat spi - 1)) < a) \<and>
          rx_arsn_initialized (sas ctx' ! (unat spi - 1)) \<and> rx_arsn (sas ctx' ! (unat spi - 1)) = a
        else arsn_forward (sas ctx ! (unat spi - 1)) (sas ctx' ! (unat spi - 1))
    | _ \<Rightarrow> arsn_forward (sas ctx ! (unat spi - 1)) (sas ctx' ! (unat spi - 1))"
proof (cases c)
  case (Process_Frame role auth buf)
  obtain q c1 where q: "ccsds_sdls_process_security cfg (psa_aead_decrypt psa ks) ctx role auth buf = (q, c1)" by fastforce
  show ?thesis
  proof (cases q)
    case (Inl e)
    with Process_Frame assms(1) q process_security_failure [OF q [unfolded Inl]] show ?thesis by auto
  next
    case (Inr out)
    note s = process_security_success [OF q [unfolded Inr] refl]
    have len: "unat (wire_spi buf) - 1 < length (sas ctx)"
      using s context_okD(2) [OF assms(2)] unfolding sdls_inv_def by linarith
    show ?thesis
    proof (cases "wire_spi buf = spi")
      case True
      with Process_Frame assms(1) q Inr s len show ?thesis by auto
    next
      case False
      then have "unat (wire_spi buf) - 1 \<noteq> unat spi - 1" using spi_slot [OF assms(3)] s by blast
      with False Process_Frame assms(1) q Inr s show ?thesis by auto
    qed
  qed
next
  case (Apply_Frame role spi' auth d)
  have "sas (snd (ccsds_sdls_apply_security cfg (psa_aead_encrypt psa ks) ctx role spi' auth d)) = sas ctx"
    by (simp add: ccsds_sdls_apply_security_def Let_def split: sum.split)
  with Apply_Frame assms(1) show ?thesis by (auto split: prod.splits sum.splits)
next
  case (Process_Pdu encoded cap)
  obtain q c1 k1 where q: "ccsds_sdls_ep_process_pdu cfg psa ctx ks encoded cap = (q, c1, k1)" by (metis prod.exhaust)
  have res: "ctx' = c1" "r = Refused \<or> (\<exists>reply. r = Pdu_Done reply)" using assms(1) Process_Pdu q by (auto split: sum.splits)
  from process_pdu_good(1) [OF q context_okD(3) [OF assms(2)]]
  have "arsn_forward (sas ctx ! (unat spi - 1)) (sas c1 ! (unat spi - 1))"
  proof (cases rule: ep_step.cases)
    case query
    then show ?thesis by (simp add: same_security_def)
  next
    case (key t iv)
    then show ?thesis by (simp add: same_security_def)
  next
    case (sa s pr ctx1)
    from sa(1) obtain sa1 where s: "0 < unat s" "sa_step cfg ctx (unat s - 1) pr sa1"
      "ctx1 = ctx\<lparr>sas := (sas ctx)[unat s - 1 := sa1]\<rparr>" unfolding sas_step_def by blast
    with sa(2) have sas: "sas c1 = (sas ctx)[unat s - 1 := sa1]" by (simp add: same_security_def)
    show ?thesis
    proof (cases "s = spi \<and> unat spi - 1 < length (sas ctx)")
      case True
      then have "pr \<noteq> 6" using sa(3) assms(4) Process_Pdu by (auto simp: rekeys_def)
      with s(2) have "arsn_forward (sas ctx ! (unat s - 1)) sa1"
        by (cases rule: sa_step.cases) (auto simp: arsn_forward_def)
      with True sas show ?thesis by auto
    next
      case False
      then have "sas c1 ! (unat spi - 1) = sas ctx ! (unat spi - 1)"
        using sas spi_slot [OF assms(3) s(1)] by (cases "s = spi") (auto simp: list_update_beyond not_less)
      then show ?thesis by simp
    qed
  qed
  with res show ?thesis by auto
qed

lemma session_arsns:
  assumes "session (sdls_call_step cfg psa) (ctx, ks) cs = (rs, s')" "context_ok cfg ctx" "0 < unat spi" "\<forall>c\<in>set cs. \<not> rekeys cfg spi c"
  shows "sorted_wrt (<) (accepted spi rs) \<and>
    (rx_arsn_initialized (sas ctx ! (unat spi - 1)) \<longrightarrow> (\<forall>a\<in>set (accepted spi rs). rx_arsn (sas ctx ! (unat spi - 1)) < a))"
  using assms
proof (induction cs arbitrary: ctx ks rs)
  case (Cons c cs)
  obtain r ctx1 ks1 where step: "sdls_call_step cfg psa (ctx, ks) c = (r, ctx1, ks1)" by (metis prod.exhaust)
  obtain rs1 where rs: "session (sdls_call_step cfg psa) (ctx1, ks1) cs = (rs1, s')" "rs = r # rs1"
    using Cons.prems(1) step by (auto split: prod.splits)
  have IH: "sorted_wrt (<) (accepted spi rs1) \<and>
      (rx_arsn_initialized (sas ctx1 ! (unat spi - 1)) \<longrightarrow> (\<forall>a\<in>set (accepted spi rs1). rx_arsn (sas ctx1 ! (unat spi - 1)) < a))"
    using Cons.prems(3,4) by (intro Cons.IH [OF rs(1) call_step_ok [OF step Cons.prems(2)]]) simp_all
  have st: "\<not> rekeys cfg spi c" using Cons.prems(4) by simp
  show ?case
    using call_step_arsn [OF step Cons.prems(2,3) st] IH rs(2)
    by (cases r) (auto simp: arsn_forward_def split: if_splits dest: less_trans le_less_trans)
qed simp

section \<open>Initialisation vectors\<close>

text \<open>The IVs a call puts on the wire: that of a protected frame, or those of the entries of a verification reply.\<close>

fun emitted :: "sdls_config \<Rightarrow> sdls_result \<Rightarrow> bytes list" where
  "emitted cfg (Frame_Sent out) = [take 12 (drop 2 out)]"
| "emitted cfg (Pdu_Done reply) = (case ccsds_sdls_ep_verify_reply_decode cfg reply of Inr es \<Rightarrow> map vr_iv es | Inl _ \<Rightarrow> [])"
| "emitted cfg _ = []"

lemma keys_update_tx_iv: "c = ctx\<lparr>keys := keys c\<rparr> \<Longrightarrow> tx_iv c = tx_iv ctx"
  by (erule ssubst) simp

lemma procedure_tx_iv:
  "ccsds_sdls_ep_process_key_activation cfg psa ks ctx encoded = (r, c) \<Longrightarrow> if r = None then tx_iv c = tx_iv ctx else c = ctx"
  "ccsds_sdls_ep_process_key_deactivation cfg psa ks ctx encoded = (r, c) \<Longrightarrow> if r = None then tx_iv c = tx_iv ctx else c = ctx"
  "ccsds_sdls_ep_process_start_sa cfg psa ks ctx encoded = (r, c) \<Longrightarrow> if r = None then tx_iv c = tx_iv ctx else c = ctx"
  "ccsds_sdls_ep_process_stop_sa cfg ctx encoded = (r, c) \<Longrightarrow> if r = None then tx_iv c = tx_iv ctx else c = ctx"
  "ccsds_sdls_ep_process_expire_sa cfg ctx encoded = (r, c) \<Longrightarrow> if r = None then tx_iv c = tx_iv ctx else c = ctx"
  "ccsds_sdls_ep_process_set_arsn cfg ctx encoded = (r, c) \<Longrightarrow> if r = None then tx_iv c = tx_iv ctx else c = ctx"
  "ccsds_sdls_ep_process_set_arsn_window cfg ctx encoded = (r, c) \<Longrightarrow> if r = None then tx_iv c = tx_iv ctx else c = ctx"
  "ccsds_sdls_ep_process_rekey_sa cfg psa ks ctx encoded = (r, c) \<Longrightarrow> CCSDS_SDLS_MAX_KEYS cfg \<le> 255 \<Longrightarrow>
     if r = None then tx_iv c = tx_iv ctx else c = ctx"
  unfolding ccsds_sdls_ep_process_key_activation_def ccsds_sdls_ep_process_key_deactivation_def
  using lifecycle_effect [of cfg psa ks ctx encoded 2 r c] lifecycle_effect [of cfg psa ks ctx encoded 3 r c]
    start_sa_effect [of cfg psa ks ctx encoded r c] stop_sa_effect [of cfg ctx encoded r c]
    expire_sa_effect [of cfg ctx encoded r c] set_arsn_effect [of cfg ctx encoded r c]
    set_window_effect [of cfg ctx encoded r c] rekey_sa_effect [of cfg psa ks ctx encoded r c]
  by (auto simp: sas_step_def dest: keys_update_tx_iv split: if_splits)

lemma dispatch_tx_iv:
  assumes "dispatch_procedure cfg psa ctx ks pdu encoded cap = (r, ctx', ks')" "CCSDS_SDLS_MAX_KEYS cfg \<le> 255"
    "\<not> (service_group pdu = 0 \<and> ep_procedure pdu = 4)"
  shows "if isl r then ctx' = ctx else tx_iv ctx' = tx_iv ctx"
proof -
  have otar: "if isl r then ctx' = ctx else tx_iv ctx' = tx_iv ctx"
    if "(case ccsds_sdls_ep_process_otar cfg psa ctx ks encoded of (q, c, ks1) \<Rightarrow> no_reply (q, c) ks1) = (r, ctx', ks')"
  proof -
    obtain q c ks1 where p: "ccsds_sdls_ep_process_otar cfg psa ctx ks encoded = (q, c, ks1)" by (metis prod.exhaust)
    with that have "no_reply (q, c) ks1 = (r, ctx', ks')" by simp
    then show ?thesis by (rule no_reply_effect) (use otar_effect [OF p] keys_update_tx_iv in \<open>auto split: if_splits\<close>)
  qed
  have mon: "if isl r then ctx' = ctx else tx_iv ctx' = tx_iv ctx"
    if "process_monitoring cfg psa ctx ks pdu encoded cap = (r, ctx', ks')"
    using monitoring_effect(1) [OF that] by (auto simp: same_security_def split: if_splits)
  have query: "(a, ctx, k) = (r, ctx', ks') \<Longrightarrow> if isl r then ctx' = ctx else tx_iv ctx' = tx_iv ctx" for a k by simp
  show ?thesis
    using assms(1,3) unfolding dispatch_procedure_def Let_def
    by (simp only: split: if_split_asm)
      (erule otar mon query
       | erule no_reply_effect, erule procedure_tx_iv(1-7) procedure_tx_iv(8) [OF _ assms(2)]
       | simp)+
qed

lemma expect_reply_header:
  "expect_pdu cfg 1 g p reply = Inr d \<Longrightarrow> reply_of cfg g' p' reply \<Longrightarrow> g' = g \<and> p' = p"
  by (auto simp: reply_of_def expect_pdu_def split: sum.splits if_splits)

lemma decode_empty: "ccsds_sdls_ep_verify_reply_decode cfg [] = Inr es \<Longrightarrow> False"
  by (simp add: verify_reply_decode_iff ccsds_sdls_ep_verify_reply_encode_def encode_header_def)

lemma pdu_ivs:
  assumes "ccsds_sdls_ep_process_pdu cfg psa ctx ks encoded cap = (Inr reply, ctx', ks')" "context_ok cfg ctx"
  shows "\<exists>n\<le>255. tx_iv ctx' = tx_iv ctx + word_of_nat n * CCSDS_SDLS_IV_STRIDE \<and> length (emitted cfg (Pdu_Done reply)) \<le> n \<and>
    (\<forall>j<length (emitted cfg (Pdu_Done reply)).
       take 8 (emitted cfg (Pdu_Done reply) ! j) = put_be64 (tx_iv ctx + word_of_nat j * CCSDS_SDLS_IV_STRIDE))"
  using assms(1) context_okD(1,2) [OF assms(2)]
proof (rule process_pdu_reply)
  fix pdu ctx1
  assume dec: "ccsds_sdls_ep_pdu_decode cfg encoded = Inr pdu"
    and d: "dispatch_procedure cfg psa ctx ks pdu encoded cap = (Inr reply, ctx1, ks')"
    and c: "ctx' = forget_carrier ctx1"
    and rep: "if ep_answered (service_group pdu) (ep_procedure pdu) then reply_of cfg (service_group pdu) (ep_procedure pdu) reply else reply = []"
  have iv: "tx_iv ctx' = tx_iv ctx1" using c by (simp add: forget_carrier_def)
  show ?thesis
  proof (cases "service_group pdu = 0 \<and> ep_procedure pdu = 4")
    case True
    with d process_pdu_verification [OF dec, of psa ctx ks cap reply ctx1 ks']
    have v: "ccsds_sdls_ep_process_key_verification cfg psa ks ctx encoded = (Inr reply, ctx1)" by simp
    show ?thesis
      using v context_okD(1) [OF assms(2)]
    proof (rule verification_success)
      fix entries replies
      assume r: "ccsds_sdls_ep_verify_reply_decode cfg reply = Inr replies" "length replies = length entries"
        and n: "length entries \<le> CCSDS_SDLS_MAX_KEYS cfg"
        and a: "\<forall>j<length entries. verify_answer psa ks ctx (tx_iv ctx + word_of_nat j * CCSDS_SDLS_IV_STRIDE) (entries ! j) (replies ! j)"
        and v': "tx_iv ctx1 = tx_iv ctx + word_of_nat (length entries) * CCSDS_SDLS_IV_STRIDE"
      have "take 8 (vr_iv (replies ! j)) = put_be64 (tx_iv ctx + word_of_nat j * CCSDS_SDLS_IV_STRIDE)" if "j < length entries" for j
        using a that by (auto simp: verify_answer_def Let_def ccsds_sdls_construct_iv_def)
      with r n v' iv context_okD(3) [OF assms(2)] show ?thesis by (intro exI [of _ "length entries"]) simp
    qed
  next
    case False
    have "ccsds_sdls_ep_verify_reply_decode cfg reply \<noteq> Inr es" for es
    proof
      assume r: "ccsds_sdls_ep_verify_reply_decode cfg reply = Inr es"
      then obtain x where "expect_pdu cfg 1 0 4 reply = Inr x"
        by (auto simp: ccsds_sdls_ep_verify_reply_decode_def split: sum.splits)
      with rep False expect_reply_header [of cfg 0 4 reply x] have "reply = []" by (auto split: if_splits)
      with r decode_empty show False by blast
    qed
    then have "emitted cfg (Pdu_Done reply) = []" by (simp split: sum.split)
    moreover have "tx_iv ctx1 = tx_iv ctx" using dispatch_tx_iv [OF d context_okD(3) [OF assms(2)] False] by simp
    ultimately show ?thesis using iv by (intro exI [of _ 0]) simp
  qed
qed

lemma call_step_ivs:
  assumes "sdls_call_step cfg psa (ctx, ks) c = (r, ctx', ks')" "context_ok cfg ctx"
  shows "\<exists>n\<le>255. tx_iv ctx' = tx_iv ctx + word_of_nat n * CCSDS_SDLS_IV_STRIDE \<and> length (emitted cfg r) \<le> n \<and>
    (\<forall>j<length (emitted cfg r). take 8 (emitted cfg r ! j) = put_be64 (tx_iv ctx + word_of_nat j * CCSDS_SDLS_IV_STRIDE))"
proof (cases c)
  case (Process_Frame role auth buf)
  obtain q c1 where q: "ccsds_sdls_process_security cfg (psa_aead_decrypt psa ks) ctx role auth buf = (q, c1)" by fastforce
  have "tx_iv c1 = tx_iv ctx"
    using process_security_failure [of cfg _ ctx role auth buf _ c1] process_security_success [of cfg _ ctx role auth buf _ c1, OF _ refl] q
    by (cases q) blast+
  with Process_Frame assms(1) q show ?thesis by (intro exI [of _ 0]) (auto split: sum.splits)
next
  case (Apply_Frame role spi auth d)
  obtain q c1 where q: "ccsds_sdls_apply_security cfg (psa_aead_encrypt psa ks) ctx role spi auth d = (q, c1)" by fastforce
  show ?thesis
  proof (cases q)
    case (Inl e)
    with Apply_Frame assms(1) q have "r = Refused" "ctx' = c1" by simp_all
    with apply_security_tx_iv [OF q] show ?thesis
      by (elim disjE conjE) (rule exI [of _ 0], simp, rule exI [of _ 1], simp)
  next
    case (Inr out)
    with Apply_Frame assms(1) q have "r = Frame_Sent out" "ctx' = c1" by simp_all
    moreover have "tx_step cfg (psa_aead_encrypt psa ks) ctx (role, spi, auth, d) = (Inr out, c1)"
      using q Inr by (simp add: tx_step_def)
    ultimately show ?thesis using sent_iv by (intro exI [of _ 1]) (fastforce simp: drop_take)
  qed
next
  case (Process_Pdu encoded cap)
  obtain q c1 k1 where q: "ccsds_sdls_ep_process_pdu cfg psa ctx ks encoded cap = (q, c1, k1)" by (metis prod.exhaust)
  show ?thesis
  proof (cases q)
    case (Inl e)
    with Process_Pdu assms(1) q process_pdu_good(2) [OF q context_okD(3) [OF assms(2)]] show ?thesis
      by (intro exI [of _ 0]) (simp add: same_security_def)
  next
    case (Inr reply)
    with Process_Pdu assms(1) q have "r = Pdu_Done reply" "ctx' = c1" by simp_all
    with pdu_ivs [OF q [unfolded Inr] assms(2)] show ?thesis by simp
  qed
qed

lemma session_ivs:
  assumes "session (sdls_call_step cfg psa) (ctx, ks) cs = (rs, s')" "context_ok cfg ctx"
  shows "\<exists>js. sorted_wrt (<) js \<and> (\<forall>j\<in>set js. j < 255 * length cs) \<and>
    map (take 8) (concat (map (emitted cfg) rs)) = map (\<lambda>j. put_be64 (tx_iv ctx + word_of_nat j * CCSDS_SDLS_IV_STRIDE)) js"
  using assms
proof (induction cs arbitrary: ctx ks rs)
  case (Cons c cs)
  obtain r ctx1 ks1 where step: "sdls_call_step cfg psa (ctx, ks) c = (r, ctx1, ks1)" by (metis prod.exhaust)
  obtain rs1 where rs: "session (sdls_call_step cfg psa) (ctx1, ks1) cs = (rs1, s')" "rs = r # rs1"
    using Cons.prems(1) step by (auto split: prod.splits)
  from Cons.IH [OF rs(1) call_step_ok [OF step Cons.prems(2)]] obtain js where js: "sorted_wrt (<) js"
    "\<forall>j\<in>set js. j < 255 * length cs"
    "map (take 8) (concat (map (emitted cfg) rs1)) = map (\<lambda>j. put_be64 (tx_iv ctx1 + word_of_nat j * CCSDS_SDLS_IV_STRIDE)) js" by blast
  from call_step_ivs [OF step Cons.prems(2)] obtain n where n: "n \<le> 255"
    "tx_iv ctx1 = tx_iv ctx + word_of_nat n * CCSDS_SDLS_IV_STRIDE" "length (emitted cfg r) \<le> n"
    "\<forall>j<length (emitted cfg r). take 8 (emitted cfg r ! j) = put_be64 (tx_iv ctx + word_of_nat j * CCSDS_SDLS_IV_STRIDE)" by blast
  let ?js = "[0 ..< length (emitted cfg r)] @ map (\<lambda>j. n + j) js"
  have "map (take 8) (emitted cfg r) = map (\<lambda>j. put_be64 (tx_iv ctx + word_of_nat j * CCSDS_SDLS_IV_STRIDE)) [0 ..< length (emitted cfg r)]"
    using n(4) by (auto intro!: nth_equalityI)
  moreover have "tx_iv ctx1 + word_of_nat j * CCSDS_SDLS_IV_STRIDE = tx_iv ctx + word_of_nat (n + j) * CCSDS_SDLS_IV_STRIDE" for j
    using n(2) by (simp add: algebra_simps)
  ultimately have "map (take 8) (concat (map (emitted cfg) rs)) =
      map (\<lambda>j. put_be64 (tx_iv ctx + word_of_nat j * CCSDS_SDLS_IV_STRIDE)) ?js"
    using js(3) rs(2) by (simp add: comp_def)
  moreover have "sorted_wrt (<) ?js"
    using js(1) n(3) by (auto simp: sorted_wrt_append sorted_wrt_map)
  moreover have "\<forall>j\<in>set ?js. j < 255 * length (c # cs)"
    using js(2) n(1,3) by auto
  ultimately show ?case by blast
qed simp

lemma iv_index_inject:
  assumes "put_be64 (v + word_of_nat i * CCSDS_SDLS_IV_STRIDE) = put_be64 (v + word_of_nat j * CCSDS_SDLS_IV_STRIDE)" "i \<le> j" "j < 2 ^ 64"
  shows "i = j"
proof -
  have "word_of_nat i * CCSDS_SDLS_IV_STRIDE = (word_of_nat j :: u64) * CCSDS_SDLS_IV_STRIDE"
    using assms(1) by (simp add: put_be64_inject)
  then have "word_of_nat (j - i) * CCSDS_SDLS_IV_STRIDE = (0 :: u64)" using assms(2) by (simp add: of_nat_diff left_diff_distrib)
  then have "j - i = 0" using assms(3) by (intro stride_injective) simp_all
  with assms(2) show ?thesis by simp
qed

lemma session_ivs_distinct:
  assumes "session (sdls_call_step cfg psa) (ctx, ks) cs = (rs, s')" "context_ok cfg ctx" "length cs \<le> 2 ^ 56"
  shows "distinct (concat (map (emitted cfg) rs))"
proof -
  from session_ivs [OF assms(1,2)] obtain js where js: "sorted_wrt (<) js" "\<forall>j\<in>set js. j < 255 * length cs"
    "map (take 8) (concat (map (emitted cfg) rs)) = map (\<lambda>j. put_be64 (tx_iv ctx + word_of_nat j * CCSDS_SDLS_IV_STRIDE)) js" by blast
  have "inj_on (\<lambda>j. put_be64 (tx_iv ctx + word_of_nat j * CCSDS_SDLS_IV_STRIDE)) (set js)"
  proof (rule inj_onI)
    fix i j assume ij: "i \<in> set js" "j \<in> set js"
      and eq: "put_be64 (tx_iv ctx + word_of_nat i * CCSDS_SDLS_IV_STRIDE) = put_be64 (tx_iv ctx + word_of_nat j * CCSDS_SDLS_IV_STRIDE)"
    have max: "255 * length cs < 2 ^ 64" using assms(3) by simp
    have b: "i < 2 ^ 64" "j < 2 ^ 64" using js(2) ij max less_trans by blast+
    show "i = j"
    proof (cases "i \<le> j")
      case True
      then show ?thesis using iv_index_inject [OF eq] b by blast
    next
      case False
      then have "j \<le> i" by linarith
      then show ?thesis using iv_index_inject [OF eq [symmetric]] b by blast
    qed
  qed
  moreover have "distinct js" using js(1) by (simp add: strict_sorted_iff)
  ultimately have "distinct (map (take 8) (concat (map (emitted cfg) rs)))" unfolding js(3) by (simp add: distinct_map)
  then show ?thesis unfolding distinct_map by (rule conjunct1)
qed

section \<open>Separation of keys\<close>

text \<open>Associations that share a key use it in one direction and one mode.\<close>

definition keys_separated :: "sdls_config \<Rightarrow> 'cb ccsds_sdls_ctx \<Rightarrow> bool" where
  "keys_separated cfg ctx \<longleftrightarrow>
     (\<forall>i<CCSDS_SDLS_MAX_SA cfg. configured (sas ctx ! i) \<and> unat (key_slot (sas ctx ! i)) < CCSDS_SDLS_MAX_KEYS cfg \<longrightarrow>
        key_shared_ok cfg ctx i (key_slot (sas ctx ! i)))"

lemma keys_separated_cong:
  assumes "keys_separated cfg ctx" "sa_roles ctx' = sa_roles ctx" "sa_modes ctx' = sa_modes ctx"
    and "\<And>i. configured (sas ctx' ! i) = configured (sas ctx ! i) \<and> key_slot (sas ctx' ! i) = key_slot (sas ctx ! i)"
  shows "keys_separated cfg ctx'"
proof -
  have c: "configured (sas ctx' ! i) = configured (sas ctx ! i)" "key_slot (sas ctx' ! i) = key_slot (sas ctx ! i)" for i
    using assms(4) by blast+
  show ?thesis using assms(1) unfolding keys_separated_def key_shared_ok_def c assms(2,3) .
qed

lemma current_frame_roles [simp]:
  "sa_roles (snd (process_current_frame cfg dec c auth h i k buf)) = sa_roles c"
  "sa_modes (snd (process_current_frame cfg dec c auth h i k buf)) = sa_modes c"
  by (simp_all add: process_current_frame_def fsr_process_success_def Let_def split: sum.split)

lemma process_security_roles:
  "sa_roles (snd (ccsds_sdls_process_security cfg dec ctx role auth buf)) = sa_roles ctx"
  "sa_modes (snd (ccsds_sdls_process_security cfg dec ctx role auth buf)) = sa_modes ctx"
  unfolding ccsds_sdls_process_security_def Let_def by (simp_all split: sum.split option.split)

lemma frame_keeps_slots:
  assumes "ccsds_sdls_process_security cfg dec ctx role auth buf = (q, c)"
  shows "configured (sas c ! i) = configured (sas ctx ! i) \<and> key_slot (sas c ! i) = key_slot (sas ctx ! i)"
proof (cases q)
  case (Inl e)
  with process_security_failure assms show ?thesis by metis
next
  case (Inr out)
  with process_security_success [OF assms [unfolded Inr] refl] show ?thesis
    by (cases "i = unat (wire_spi buf) - 1"; cases "i < length (sas ctx)") (auto simp: list_update_beyond not_less)
qed

lemma sa_step_separated:
  assumes "keys_separated cfg ctx" "sa_step cfg ctx slot pr sa" "slot < CCSDS_SDLS_MAX_SA cfg" "configured (sas ctx ! slot)"
    and "ctx' = ctx\<lparr>sas := (sas ctx)[slot := sa]\<rparr>" "length (sas ctx) = CCSDS_SDLS_MAX_SA cfg"
  shows "keys_separated cfg ctx'"
proof -
  note sum = sa_step_summary [OF assms(2) refl]
  have upd: "sas ctx' ! i = (if slot = i then sa else sas ctx ! i)" for i using assms(3,5,6) by (simp add: nth_list_update)
  have roles: "sa_roles ctx' = sa_roles ctx" "sa_modes ctx' = sa_modes ctx" using assms(5) by simp_all
  show ?thesis
  proof (cases "key_slot sa = key_slot (sas ctx ! slot)")
    case True
    with conjunct1 [OF sum] roles show ?thesis
      by (intro keys_separated_cong [OF assms(1)]) (simp_all add: upd)
  next
    case False
    with sum have shared: "key_shared_ok cfg ctx slot (key_slot sa)" by blast
    have "key_shared_ok cfg ctx' i (key_slot (sas ctx' ! i))"
      if i: "i < CCSDS_SDLS_MAX_SA cfg" "configured (sas ctx' ! i)" "unat (key_slot (sas ctx' ! i)) < CCSDS_SDLS_MAX_KEYS cfg" for i
    proof (cases "i = slot")
      case True
      with shared roles show ?thesis by (simp add: key_shared_ok_def upd)
    next
      case False
      with assms(1) i have old: "key_shared_ok cfg ctx i (key_slot (sas ctx ! i))" by (simp add: keys_separated_def upd)
      show ?thesis
        using False old shared i unfolding key_shared_ok_def roles by (simp add: upd)
    qed
    then show ?thesis by (simp add: keys_separated_def)
  qed
qed

lemma call_step_separated:
  assumes "sdls_call_step cfg psa (ctx, ks) c = (r, ctx', ks')" "context_ok cfg ctx" "keys_separated cfg ctx"
  shows "keys_separated cfg ctx'"
proof (cases c)
  case (Process_Frame role auth buf)
  obtain q c1 where q: "ccsds_sdls_process_security cfg (psa_aead_decrypt psa ks) ctx role auth buf = (q, c1)" by fastforce
  with process_security_roles [of cfg "psa_aead_decrypt psa ks" ctx role auth buf] have "keys_separated cfg c1"
    by (intro keys_separated_cong [OF assms(3)]) (simp_all add: frame_keeps_slots [OF q])
  with Process_Frame assms(1) q show ?thesis by (auto split: sum.splits)
next
  case (Apply_Frame role spi auth d)
  have "keys_separated cfg (snd (ccsds_sdls_apply_security cfg (psa_aead_encrypt psa ks) ctx role spi auth d))"
    by (rule keys_separated_cong [OF assms(3)]) (simp_all add: ccsds_sdls_apply_security_def Let_def split: sum.split)
  with Apply_Frame assms(1) show ?thesis by (auto split: prod.splits sum.splits)
next
  case (Process_Pdu encoded cap)
  obtain q c1 k1 where q: "ccsds_sdls_ep_process_pdu cfg psa ctx ks encoded cap = (q, c1, k1)" by (metis prod.exhaust)
  have res: "ctx' = c1" using assms(1) Process_Pdu q by (auto split: sum.splits)
  from process_pdu_good(1) [OF q context_okD(3) [OF assms(2)]] have "keys_separated cfg c1"
  proof (cases rule: ep_step.cases)
    case query
    then show ?thesis by (intro keys_separated_cong [OF assms(3)]) (simp_all add: same_security_def)
  next
    case (key t iv)
    then show ?thesis by (intro keys_separated_cong [OF assms(3)]) (simp_all add: same_security_def)
  next
    case (sa s pr ctx1)
    from sa(1) obtain sa1 where s: "0 < unat s" "unat s \<le> CCSDS_SDLS_MAX_SA cfg" "configured (sas ctx ! (unat s - 1))"
      "sa_step cfg ctx (unat s - 1) pr sa1" "ctx1 = ctx\<lparr>sas := (sas ctx)[unat s - 1 := sa1]\<rparr>" unfolding sas_step_def by blast
    have slot: "unat s - 1 < CCSDS_SDLS_MAX_SA cfg" using s(1,2) by linarith
    have "length (sas ctx) = CCSDS_SDLS_MAX_SA cfg" using context_okD(2) [OF assms(2)] by (simp add: sdls_inv_def)
    then have "keys_separated cfg ctx1" by (rule sa_step_separated [OF assms(3) s(4) slot s(3,5)])
    then show ?thesis using sa(2) by (elim keys_separated_cong) (simp_all add: same_security_def)
  qed
  with res show ?thesis by simp
qed

lemma session_separated:
  assumes "session (sdls_call_step cfg psa) (ctx, ks) cs = (rs, ctx', ks')" "context_ok cfg ctx" "keys_separated cfg ctx"
  shows "keys_separated cfg ctx'"
  using assms
proof (induction cs arbitrary: ctx ks rs)
  case (Cons c cs)
  obtain r ctx1 ks1 where step: "sdls_call_step cfg psa (ctx, ks) c = (r, ctx1, ks1)" by (metis prod.exhaust)
  obtain rs1 where rs: "session (sdls_call_step cfg psa) (ctx1, ks1) cs = (rs1, ctx', ks')"
    using Cons.prems(1) step by (auto split: prod.splits)
  show ?case
    by (rule Cons.IH [OF rs call_step_ok [OF step Cons.prems(2)] call_step_separated [OF step Cons.prems(2,3)]])
qed simp

section \<open>Properties\<close>

text \<open>
  C5. No replay in operation: while frames are received and sent and extended procedures start, stop, expire and rekey associations,
  replace keys and move replay state, in any order and with any input, the sequence numbers of the frames accepted for one SPI
  are strictly increasing as long as no command re-keys this SPI.  In particular no protected frame is accepted twice, whatever
  Set ARSN and Set ARSN Window commands come between.
\<close>

theorem sdls_no_replay_in_operation:
  assumes "ep_config_ok cfg" "sdls_inv cfg ctx" "spi \<noteq> 0" "\<forall>c\<in>set cs. \<not> rekeys cfg spi c"
  shows "sorted_wrt (<) (accepted spi (fst (session (sdls_call_step cfg psa) (ctx, ks) cs)))"
  using session_arsns [OF prod.collapse [symmetric] _ _ assms(4), of ctx psa ks] assms(1-3) by (simp add: context_ok_def unat_gt_0)

definition demo_frame :: sdls_call where
  "demo_frame = Process_Frame CCSDS_SDLS_SA_OPERATIONAL_TC_RX \<lparr>auth_data = [], auth_mask = []\<rparr>
     (put_be16 1 @ replicate 12 9 @ [1, 2, 3] @ replicate 16 7)"

theorem sdls_no_replay_in_operation_witness:
  "sorted_wrt (<) (accepted 1 (fst (session (sdls_call_step default_sdls_config demo_psa)
     (demo_ctx CCSDS_SDLS_SA_OPERATIONAL_TC_RX, ())
     [demo_frame, Process_Pdu (ccsds_sdls_ep_sa_command_encode 14 1) 64, Process_Pdu [0x1b, 0, 0x10, 0, 1] 64, demo_frame])))"
proof (rule sdls_no_replay_in_operation [OF ep_config_ok_default demo_inv])
  have "ccsds_sdls_ep_rekey_sa_decode default_sdls_config (ccsds_sdls_ep_sa_command_encode 14 1) = Inl CCSDS_SDLS_ERR_UNSUPPORTED"
    "ccsds_sdls_ep_rekey_sa_decode default_sdls_config [0x1b, 0, 0x10, 0, 1] = Inl CCSDS_SDLS_ERR_UNSUPPORTED" by code_simp+
  then show "\<forall>c\<in>set [demo_frame, Process_Pdu (ccsds_sdls_ep_sa_command_encode 14 1) 64, Process_Pdu [0x1b, 0, 0x10, 0, 1] 64, demo_frame].
      \<not> rekeys default_sdls_config 1 c" by (simp add: rekeys_def demo_frame_def)
qed simp

text \<open>
  C8. No initialisation vector leaves the module twice: over any sequence of up to \<open>2^56\<close> calls, the IVs of all frames protected and
  of all key verification replies, under whatever associations and keys, are pairwise different; received frames and other procedures,
  accepted or not, between them included.
\<close>

theorem sdls_ivs_unique_in_operation:
  assumes "ep_config_ok cfg" "sdls_inv cfg ctx" "length cs \<le> 2 ^ 56"
  shows "distinct (concat (map (emitted cfg) (fst (session (sdls_call_step cfg psa) (ctx, ks) cs))))"
  using session_ivs_distinct [OF prod.collapse [symmetric] _ assms(3), of cfg ctx psa ks] assms(1,2) by (simp add: context_ok_def)

theorem sdls_ivs_unique_in_operation_witness:
  "distinct (concat (map (emitted default_sdls_config) (fst (session (sdls_call_step default_sdls_config demo_psa)
     (demo_ctx CCSDS_SDLS_SA_OPERATIONAL_TM_TX, ())
     [Apply_Frame CCSDS_SDLS_SA_OPERATIONAL_TM_TX 1 \<lparr>auth_data = [], auth_mask = []\<rparr> [1, 2, 3],
      Process_Pdu ([0x04, 0, 0x90, 0, 5] @ replicate 16 3) 64,
      Apply_Frame CCSDS_SDLS_SA_OPERATIONAL_TM_TX 1 \<lparr>auth_data = [], auth_mask = []\<rparr> [1, 2, 3]]))))"
  by (rule sdls_ivs_unique_in_operation [OF ep_config_ok_default demo_inv]) simp

text \<open>
  C28. Keys stay separated: if configured associations that share a key agree in direction and mode at the start, then they do after
  any sequence of calls.  Start and Rekey are the only procedures that look for it, and Rekey the only one that could break it.
\<close>

theorem sdls_keys_stay_separated:
  assumes "ep_config_ok cfg" "sdls_inv cfg ctx" "keys_separated cfg ctx"
  shows "keys_separated cfg (fst (snd (session (sdls_call_step cfg psa) (ctx, ks) cs)))"
proof -
  obtain rs ctx' ks' where "session (sdls_call_step cfg psa) (ctx, ks) cs = (rs, ctx', ks')" by (metis prod.exhaust)
  with session_separated [OF this _ assms(3)] assms(1,2) show ?thesis by (simp add: context_ok_def)
qed

theorem sdls_keys_stay_separated_witness:
  "keys_separated default_sdls_config (fst (snd (session (sdls_call_step default_sdls_config demo_psa)
     (demo_ctx CCSDS_SDLS_SA_OPERATIONAL_TC_RX, ())
     [Process_Pdu (ccsds_sdls_ep_sa_command_encode 14 1) 64, Process_Pdu (ccsds_sdls_ep_sa_command_encode 9 1) 64,
      Process_Pdu (ccsds_sdls_ep_rekey_sa_encode \<lparr>rekey_rx_arsn = 7, rekey_spi = 1, rekey_key_id = 5, has_rx_arsn = True\<rparr>) 64])))"
proof (rule sdls_keys_stay_separated [OF ep_config_ok_default demo_inv])
  have "i < 4 \<Longrightarrow> i \<noteq> 0 \<Longrightarrow> \<not> configured (sas (demo_ctx CCSDS_SDLS_SA_OPERATIONAL_TC_RX) ! i)" for i
    by (simp add: demo_ctx_def ccsds_sdls_init_def init_sa_def init_key_def zero_ctx_def zero_sa_def default_sdls_config_def)
  then show "keys_separated default_sdls_config (demo_ctx CCSDS_SDLS_SA_OPERATIONAL_TC_RX)"
    by (auto simp: keys_separated_def key_shared_ok_def)
qed

end
