(* ===== verification/Sdls_Otar.thy ===== *)
theory Sdls_Otar
  imports Sdls_Ep_Safety
begin

unbundle bit_operations_syntax

text \<open>
  Over-the-air rekeying and the PSA key store.  The store is a parameter of the model; what the procedure relies on is the documented behaviour of
  \<^verbatim>\<open>psa_import_key\<close> and \<^verbatim>\<open>psa_destroy_key\<close>: an import makes one new key with the given attributes and material under an
  identifier that was not in use, a failed import changes nothing, and destroying a key removes this one only.
\<close>

section \<open>The key store\<close>

text \<open>What can be observed of a store: the attributes and the material of the key behind an identifier.\<close>

definition psa_store_ok :: "('k, 'cb) psa_ops \<Rightarrow> ('k \<Rightarrow> u32 \<Rightarrow> (psa_key_attributes \<times> bytes) option) \<Rightarrow> bool" where
  "psa_store_ok psa content \<longleftrightarrow>
     (\<forall>ks kid. psa_get_key_attributes psa ks kid = map_option fst (content ks kid)) \<and>
     (\<forall>attributes material ks. case psa_import_key psa attributes material ks of
        (None, ks') \<Rightarrow> content ks' = content ks
      | (Some kid, ks') \<Rightarrow> kid \<noteq> PSA_KEY_ID_NULL \<and> content ks kid = None \<and> content ks' = (content ks)(kid \<mapsto> (attributes, material))) \<and>
     (\<forall>kid ks. content (psa_destroy_key psa kid ks) = (content ks)(kid := None))"

lemma psa_storeD:
  assumes "psa_store_ok psa content"
  shows "psa_get_key_attributes psa ks kid = map_option fst (content ks kid)"
    "psa_import_key psa attributes material ks = (None, ks') \<Longrightarrow> content ks' = content ks"
    "psa_import_key psa attributes material ks = (Some kid, ks') \<Longrightarrow>
       kid \<noteq> PSA_KEY_ID_NULL \<and> content ks kid = None \<and> content ks' = (content ks)(kid \<mapsto> (attributes, material))"
    "content (psa_destroy_key psa kid ks) = (content ks)(kid := None)"
proof -
  have imp: "case psa_import_key psa attributes material ks of
        (None, ks') \<Rightarrow> content ks' = content ks
      | (Some kid, ks') \<Rightarrow> kid \<noteq> PSA_KEY_ID_NULL \<and> content ks kid = None \<and> content ks' = (content ks)(kid \<mapsto> (attributes, material))"
    by (rule conjunct1 [OF conjunct2 [OF assms [unfolded psa_store_ok_def]], rule_format])
  show "psa_get_key_attributes psa ks kid = map_option fst (content ks kid)"
    "content (psa_destroy_key psa kid ks) = (content ks)(kid := None)" using assms unfolding psa_store_ok_def by blast+
  show "psa_import_key psa attributes material ks = (None, ks') \<Longrightarrow> content ks' = content ks"
    "psa_import_key psa attributes material ks = (Some kid, ks') \<Longrightarrow>
       kid \<noteq> PSA_KEY_ID_NULL \<and> content ks kid = None \<and> content ks' = (content ks)(kid \<mapsto> (attributes, material))"
    using imp by auto
qed

lemma destroy_fold:
  assumes "psa_store_ok psa content"
  shows "content (fold (psa_destroy_key psa) ids ks) kid = (if kid \<in> set ids then None else content ks kid)"
  by (induction ids arbitrary: ks) (auto simp: psa_storeD(4) [OF assms])

text \<open>The imports of one PDU: fresh, different identifiers, each with its own material; nothing else changes.\<close>

definition imports_of ::
  "('k \<Rightarrow> u32 \<Rightarrow> (psa_key_attributes \<times> bytes) option) \<Rightarrow> 'k \<Rightarrow> bytes list \<Rightarrow> u32 list \<Rightarrow> 'k \<Rightarrow> bool" where
  "imports_of content ks ms ids ks' \<longleftrightarrow> distinct ids \<and>
    (\<forall>i<length ids. ids ! i \<noteq> PSA_KEY_ID_NULL \<and> content ks (ids ! i) = None \<and> content ks' (ids ! i) = Some (otar_attributes, ms ! i)) \<and>
    (\<forall>kid. kid \<notin> set ids \<longrightarrow> content ks' kid = content ks kid)"

lemma imports_of_Cons:
  assumes "kid \<noteq> PSA_KEY_ID_NULL" "content ks kid = None" "content ks1 = (content ks)(kid \<mapsto> (otar_attributes, m))"
    and "imports_of content ks1 ms ids ks'"
  shows "imports_of content ks (m # ms) (kid # ids) ks'"
proof -
  have new: "kid \<notin> set ids" using assms(3,4) by (auto simp: imports_of_def in_set_conv_nth)
  then have "content ks' kid = Some (otar_attributes, m)" using assms(3,4) by (simp add: imports_of_def)
  moreover have "ids ! i \<noteq> PSA_KEY_ID_NULL \<and> content ks (ids ! i) = None \<and> content ks' (ids ! i) = Some (otar_attributes, ms ! i)"
    if "i < length ids" for i
  proof -
    have "ids ! i \<noteq> kid" using new that by (metis nth_mem)
    moreover have "ids ! i \<noteq> PSA_KEY_ID_NULL" "content ks1 (ids ! i) = None" "content ks' (ids ! i) = Some (otar_attributes, ms ! i)"
      using assms(4) that unfolding imports_of_def by blast+
    ultimately show ?thesis using assms(3) by simp
  qed
  ultimately show ?thesis
    using assms new by (auto simp: imports_of_def nth_Cons split: nat.split)
qed

lemma otar_import_store:
  assumes "psa_store_ok psa content"
  shows "otar_import psa ks ms = (ids, ok, ks') \<Longrightarrow> imports_of content ks ms ids ks'"
proof (induction ms arbitrary: ks ids ok ks')
  case Nil
  then show ?case by (simp add: imports_of_def)
next
  case (Cons m ms)
  obtain r ks1 where r: "psa_import_key psa otar_attributes m ks = (r, ks1)" by fastforce
  show ?case
  proof (cases r)
    case None
    with Cons.prems r psa_storeD(2) [OF assms r [unfolded None]] show ?thesis by (simp add: imports_of_def)
  next
    case (Some kid)
    obtain ids1 ok1 ks2 where rest: "otar_import psa ks1 ms = (ids1, ok1, ks2)" by (metis prod.exhaust)
    with Cons.prems r Some have "ids = kid # ids1" "ks' = ks2" by simp_all
    with psa_storeD(3) [OF assms r [unfolded Some]] Cons.IH [OF rest] show ?thesis by (auto intro!: imports_of_Cons)
  qed
qed

section \<open>A rejected PDU\<close>

lemma otar_failure_store:
  assumes "ccsds_sdls_ep_process_otar cfg psa ctx ks encoded = (Some e, ctx', ks')"
  shows "ks' = ks \<or> (\<exists>ms ids ks1. otar_import psa ks ms = (ids, False, ks1) \<and>
    ks' = fold (psa_destroy_key psa) (filter (\<lambda>kid. kid \<noteq> PSA_KEY_ID_NULL) ids) ks1)"
  using assms unfolding ccsds_sdls_ep_process_otar_def Let_def
  by (simp split: sum.split_asm option.split_asm prod.split_asm if_split_asm bool.split_asm) blast?

lemma failed_imports_undone:
  assumes "psa_store_ok psa content" "otar_import psa ks ms = (ids, ok, ks1)"
  shows "content (fold (psa_destroy_key psa) (filter (\<lambda>kid. kid \<noteq> PSA_KEY_ID_NULL) ids) ks1) = content ks"
proof
  fix kid
  from otar_import_store [OF assms]
  show "content (fold (psa_destroy_key psa) (filter (\<lambda>kid. kid \<noteq> PSA_KEY_ID_NULL) ids) ks1) kid = content ks kid"
    by (auto simp: destroy_fold [OF assms(1)] imports_of_def in_set_conv_nth)
qed

section \<open>An accepted PDU\<close>

lemma destroy_replaced_content:
  assumes "psa_store_ok psa content"
  shows "content (destroy_replaced_volatile_key psa ks kid) k =
    (if k = kid \<and> (\<exists>a m. content ks kid = Some (a, m) \<and> psa_volatile a) then None else content ks k)"
  using psa_storeD(1,4) [OF assms]
  by (cases "content ks kid") (auto simp: destroy_replaced_volatile_key_def split: option.split)

lemma destroy_replaced_fold:
  assumes "psa_store_ok psa content"
  shows "content (fold (\<lambda>kid ks. destroy_replaced_volatile_key psa ks kid) ids ks) k =
    (if k \<in> set ids \<and> (\<exists>a m. content ks k = Some (a, m) \<and> psa_volatile a) then None else content ks k)"
  by (induction ids arbitrary: ks) (auto simp: destroy_replaced_content [OF assms])

text \<open>
  The table and the store agree: every entry names a key of the store, and no two entries the same one.
\<close>

definition key_table_ok :: "'cb ccsds_sdls_ctx \<Rightarrow> (u32 \<Rightarrow> (psa_key_attributes \<times> bytes) option) \<Rightarrow> bool" where
  "key_table_ok ctx store \<longleftrightarrow>
     (\<forall>i<length (keys ctx). psa_key_id (keys ctx ! i) \<noteq> PSA_KEY_ID_NULL \<longrightarrow> store (psa_key_id (keys ctx ! i)) \<noteq> None \<and>
       (\<forall>j<length (keys ctx). psa_key_id (keys ctx ! j) = psa_key_id (keys ctx ! i) \<longrightarrow> j = i))"

lemma length_fold_update: "length (fold (\<lambda>x t. t[f x := g x (t ! f x)]) xs t) = length t"
  by (induction xs arbitrary: t) simp_all

text \<open>The table after a commit of the keys \<open>ids\<close> at the entries \<open>ds\<close>, and what becomes of the store.\<close>

lemma otar_table:
  assumes "distinct ds" "length ids = length ds"
    and "table' = snd (otar_commit (zip ds ids) table)" "replaced = fst (otar_commit (zip ds ids) table)"
  shows "replaced = map (\<lambda>d. psa_key_id (table ! unat d)) ds"
    "length table' = length table"
    "i < length ds \<Longrightarrow> unat (ds ! i) < length table \<Longrightarrow> table' ! unat (ds ! i) = loaded (ids ! i) (table ! unat (ds ! i))"
    "k < length table \<Longrightarrow> k \<notin> unat ` set ds \<Longrightarrow> table' ! k = table ! k"
proof -
  have m: "map fst (zip ds ids) = ds" using assms(2) by simp
  have d: "distinct (map (\<lambda>p. unat (fst p)) (zip ds ids))"
    using assms(1) distinct_map_unat [of ds] by (metis (no_types, lifting) m map_map comp_apply map_cong)
  have e: "otar_commit (zip ds ids) table = (map (\<lambda>p. psa_key_id (table ! unat (fst p))) (zip ds ids),
      fold (\<lambda>p t. t[unat (fst p) := loaded (snd p) (t ! unat (fst p))]) (zip ds ids) table)"
    using assms(1) m by (intro otar_commit_eq) simp
  show "replaced = map (\<lambda>d. psa_key_id (table ! unat d)) ds"
    using e assms(2,4) by (auto intro!: nth_equalityI)
  have nth: "(\<forall>x\<in>set (zip ds ids). unat (fst x) = k \<longrightarrow> table' ! k = loaded (snd x) (table ! k)) \<and>
      (k \<notin> (\<lambda>p. unat (fst p)) ` set (zip ds ids) \<longrightarrow> table' ! k = table ! k) \<and> length table' = length table" if "k < length table" for k
    using fold_update_nth [OF d that, of "\<lambda>p. loaded (snd p)"] e assms(3) by simp
  show "length table' = length table"
    unfolding assms(3) e using length_fold_update [of "\<lambda>p. unat (fst p)" "\<lambda>p. loaded (snd p)" "zip ds ids" table] by simp
  show "table' ! unat (ds ! i) = loaded (ids ! i) (table ! unat (ds ! i))" if "i < length ds" "unat (ds ! i) < length table"
  proof -
    have "(ds ! i, ids ! i) \<in> set (zip ds ids)" using that(1) assms(2) by (auto simp: set_zip)
    with nth [OF that(2)] show ?thesis by fastforce
  qed
  show "table' ! k = table ! k" if "k < length table" "k \<notin> unat ` set ds"
  proof -
    have "k \<notin> (\<lambda>p. unat (fst p)) ` set (zip ds ids)" using that(2) by (auto dest: set_zip_leftD)
    with nth [OF that(1)] show ?thesis by blast
  qed
qed

lemma replaced_store:
  assumes "psa_store_ok psa content" "imports_of content ks ms ids ks1"
    and "\<forall>r\<in>set replaced. r \<noteq> PSA_KEY_ID_NULL \<longrightarrow> content ks r \<noteq> None"
    and "ks' = fold (\<lambda>kid ks. destroy_replaced_volatile_key psa ks kid) (filter (\<lambda>kid. kid \<noteq> PSA_KEY_ID_NULL) replaced) ks1"
  shows "i < length ids \<Longrightarrow> content ks' (ids ! i) = Some (otar_attributes, ms ! i)"
    "k \<notin> set ids \<Longrightarrow> content ks' k =
      (if k \<in> set replaced \<and> k \<noteq> PSA_KEY_ID_NULL \<and> (\<exists>a m. content ks k = Some (a, m) \<and> psa_volatile a) then None else content ks k)"
proof -
  have c: "content ks' k = (if k \<in> set replaced \<and> k \<noteq> PSA_KEY_ID_NULL \<and> (\<exists>a m. content ks1 k = Some (a, m) \<and> psa_volatile a)
      then None else content ks1 k)" for k
    unfolding assms(4) destroy_replaced_fold [OF assms(1)] by auto
  show "content ks' (ids ! i) = Some (otar_attributes, ms ! i)" if "i < length ids"
  proof -
    have "ids ! i \<noteq> PSA_KEY_ID_NULL" "content ks (ids ! i) = None" "content ks1 (ids ! i) = Some (otar_attributes, ms ! i)"
      using assms(2) that unfolding imports_of_def by blast+
    then show ?thesis using assms(3) c by auto
  qed
  show "content ks' k =
      (if k \<in> set replaced \<and> k \<noteq> PSA_KEY_ID_NULL \<and> (\<exists>a m. content ks k = Some (a, m) \<and> psa_volatile a) then None else content ks k)"
    if "k \<notin> set ids"
  proof -
    have "content ks1 k = content ks k" using assms(2) that unfolding imports_of_def by blast
    then show ?thesis using c [of k] by (simp only:)
  qed
qed

definition otar_installed ::
  "'cb ccsds_sdls_ctx \<Rightarrow> (u32 \<Rightarrow> (psa_key_attributes \<times> bytes) option) \<Rightarrow> u16 \<Rightarrow> bytes \<Rightarrow> bool" where
  "otar_installed ctx store destination material \<longleftrightarrow>
     (let key = keys ctx ! unat destination in
      key_state key = CCSDS_SDLS_KEY_PREACTIVE \<and> tx_arsn key = 0 \<and> psa_key_id key \<noteq> PSA_KEY_ID_NULL \<and>
      store (psa_key_id key) = Some (otar_attributes, material))"

lemma otar_commit_store:
  assumes store: "psa_store_ok psa content" and ok: "key_table_ok ctx (content ks)"
    and ds: "distinct ds" "\<forall>d\<in>set ds. unat d < length (keys ctx)" and len: "length ids = length ds"
    and imp: "imports_of content ks ms ids ks1"
    and ctx': "ctx' = ctx\<lparr>keys := snd (otar_commit (zip ds ids) (keys ctx))\<rparr>"
    and ks': "ks' = fold (\<lambda>kid ks. destroy_replaced_volatile_key psa ks kid)
      (filter (\<lambda>kid. kid \<noteq> PSA_KEY_ID_NULL) (fst (otar_commit (zip ds ids) (keys ctx)))) ks1"
  shows "\<forall>i<length ds. otar_installed ctx' (content ks') (ds ! i) (ms ! i)"
    and "\<forall>k<length (keys ctx). k \<notin> unat ` set ds \<longrightarrow> keys ctx' ! k = keys ctx ! k \<and>
      (psa_key_id (keys ctx ! k) \<noteq> PSA_KEY_ID_NULL \<longrightarrow> content ks' (psa_key_id (keys ctx ! k)) = content ks (psa_key_id (keys ctx ! k)))"
    and "\<forall>k\<in>unat ` set ds. \<forall>a m. psa_key_id (keys ctx ! k) \<noteq> PSA_KEY_ID_NULL \<longrightarrow>
      content ks (psa_key_id (keys ctx ! k)) = Some (a, m) \<longrightarrow> content ks' (psa_key_id (keys ctx ! k)) =
        (if psa_volatile a then None else Some (a, m))"
    and "key_table_ok ctx' (content ks')"
proof -
  note t = otar_table [where table = "keys ctx", OF ds(1) len refl refl]
  let ?rep = "fst (otar_commit (zip ds ids) (keys ctx))"
  have rep: "\<forall>r\<in>set ?rep. r \<noteq> PSA_KEY_ID_NULL \<longrightarrow> content ks r \<noteq> None"
    using ok ds(2) unfolding t(1) by (auto simp: key_table_ok_def)
  note s = replaced_store [OF store imp rep ks']
  have fresh: "psa_key_id (keys ctx ! k) \<notin> set ids" if "k < length (keys ctx)" "psa_key_id (keys ctx ! k) \<noteq> PSA_KEY_ID_NULL" for k
  proof
    assume "psa_key_id (keys ctx ! k) \<in> set ids"
    then obtain i where i: "i < length ids" "ids ! i = psa_key_id (keys ctx ! k)" by (auto simp: in_set_conv_nth)
    with imp have "content ks (ids ! i) = None" unfolding imports_of_def by blast
    moreover have "content ks (psa_key_id (keys ctx ! k)) \<noteq> None" using ok that unfolding key_table_ok_def by blast
    ultimately show False using i by simp
  qed
  have new: "keys ctx' ! unat (ds ! i) = loaded (ids ! i) (keys ctx ! unat (ds ! i))" if "i < length ds" for i
    using t(3) [OF that] ds(2) that ctx' by simp
  have idnn: "ids ! i \<noteq> PSA_KEY_ID_NULL" if "i < length ds" for i using imp that len by (simp add: imports_of_def)
  show inst: "\<forall>i<length ds. otar_installed ctx' (content ks') (ds ! i) (ms ! i)"
    using new idnn s(1) len by (simp add: otar_installed_def loaded_def Let_def)
  have old: "keys ctx' ! k = keys ctx ! k" if "k < length (keys ctx)" "k \<notin> unat ` set ds" for k
    using t(4) [OF that] ctx' by simp
  have unrep: "psa_key_id (keys ctx ! k) \<notin> set ?rep"
    if "k < length (keys ctx)" "k \<notin> unat ` set ds" "psa_key_id (keys ctx ! k) \<noteq> PSA_KEY_ID_NULL" for k
  proof
    assume "psa_key_id (keys ctx ! k) \<in> set ?rep"
    then obtain d where d: "d \<in> set ds" "psa_key_id (keys ctx ! unat d) = psa_key_id (keys ctx ! k)" unfolding t(1) by auto
    moreover have "unat d < length (keys ctx)" using d(1) ds(2) by blast
    ultimately have "unat d = k" using ok that(1,3) unfolding key_table_ok_def by blast
    with d(1) that(2) show False by blast
  qed
  have keep: "content ks' (psa_key_id (keys ctx ! k)) = content ks (psa_key_id (keys ctx ! k))"
    if "k < length (keys ctx)" "k \<notin> unat ` set ds" "psa_key_id (keys ctx ! k) \<noteq> PSA_KEY_ID_NULL" for k
    using s(2) [OF fresh [OF that(1,3)]] unrep [OF that] by simp
  show "\<forall>k<length (keys ctx). k \<notin> unat ` set ds \<longrightarrow> keys ctx' ! k = keys ctx ! k \<and>
      (psa_key_id (keys ctx ! k) \<noteq> PSA_KEY_ID_NULL \<longrightarrow> content ks' (psa_key_id (keys ctx ! k)) = content ks (psa_key_id (keys ctx ! k)))"
    using old keep by blast
  show "\<forall>k\<in>unat ` set ds. \<forall>a m. psa_key_id (keys ctx ! k) \<noteq> PSA_KEY_ID_NULL \<longrightarrow>
      content ks (psa_key_id (keys ctx ! k)) = Some (a, m) \<longrightarrow> content ks' (psa_key_id (keys ctx ! k)) =
        (if psa_volatile a then None else Some (a, m))"
    using s(2) [OF fresh] ds(2) unfolding t(1) by auto
  have dest: "\<exists>i<length ds. k = unat (ds ! i)" if "k \<in> unat ` set ds" for k using that by (auto simp: in_set_conv_nth)
  have id': "psa_key_id (keys ctx' ! unat (ds ! i)) = ids ! i" if "i < length ds" for i using new [OF that] by (simp add: loaded_def)
  have present: "content ks' (psa_key_id (keys ctx' ! k)) \<noteq> None"
    if k: "k < length (keys ctx)" "psa_key_id (keys ctx' ! k) \<noteq> PSA_KEY_ID_NULL" for k
  proof (cases "k \<in> unat ` set ds")
    case True
    with dest obtain i where "i < length ds" "k = unat (ds ! i)" by blast
    with id' s(1) len show ?thesis by simp
  next
    case False
    have "keys ctx' ! k = keys ctx ! k" using old [OF k(1) False] .
    moreover have "psa_key_id (keys ctx ! k) \<noteq> PSA_KEY_ID_NULL" using k(2) calculation by simp
    moreover from this have "content ks (psa_key_id (keys ctx ! k)) \<noteq> None" using ok k(1) unfolding key_table_ok_def by blast
    ultimately show ?thesis using keep [OF k(1) False] by simp
  qed
  have unique: "j = k"
    if k: "k < length (keys ctx)" "j < length (keys ctx)" "psa_key_id (keys ctx' ! k) \<noteq> PSA_KEY_ID_NULL"
      "psa_key_id (keys ctx' ! j) = psa_key_id (keys ctx' ! k)" for j k
  proof -
    have mix: False if "x \<in> unat ` set ds" "y \<notin> unat ` set ds" "y < length (keys ctx)"
      "psa_key_id (keys ctx' ! x) = psa_key_id (keys ctx' ! y)" "psa_key_id (keys ctx' ! y) \<noteq> PSA_KEY_ID_NULL" for x y
    proof -
      from dest [OF that(1)] obtain i where i: "i < length ds" "x = unat (ds ! i)" by blast
      with that old id' have "psa_key_id (keys ctx ! y) = ids ! i" "psa_key_id (keys ctx ! y) \<noteq> PSA_KEY_ID_NULL" by auto
      with fresh [OF that(3)] i len show False by (metis nth_mem)
    qed
    consider "j \<in> unat ` set ds" "k \<in> unat ` set ds" | "j \<notin> unat ` set ds" "k \<notin> unat ` set ds"
      using mix [of j k] mix [of k j] k by metis
    then show ?thesis
    proof cases
      case 1
      then obtain i i' where "i < length ds" "j = unat (ds ! i)" "i' < length ds" "k = unat (ds ! i')" using dest by blast
      moreover have "distinct ids" using imp by (simp add: imports_of_def)
      ultimately show ?thesis using id' k(4) len by (simp add: nth_eq_iff_index_eq)
    next
      case 2
      have "keys ctx' ! k = keys ctx ! k" "keys ctx' ! j = keys ctx ! j" using old k 2 by blast+
      then have "psa_key_id (keys ctx ! k) \<noteq> PSA_KEY_ID_NULL" "psa_key_id (keys ctx ! j) = psa_key_id (keys ctx ! k)" using k by simp_all
      then show ?thesis using ok k(1,2) unfolding key_table_ok_def by blast
    qed
  qed
  have "length (keys ctx') = length (keys ctx)" using t(2) ctx' by simp
  with present unique show "key_table_ok ctx' (content ks')" unfolding key_table_ok_def by metis
qed

section \<open>Properties\<close>

text \<open>A store for the witnesses: the next free identifier, and the keys.\<close>

type_synonym demo_store = "u32 \<times> (u32 \<Rightarrow> (psa_key_attributes \<times> bytes) option)"

definition demo_store_psa :: "(demo_store, unit) psa_ops" where
  "demo_store_psa = \<lparr>psa_get_key_attributes = \<lambda>s kid. map_option fst (snd s kid),
     psa_import_key = \<lambda>a m s. if fst s = PSA_KEY_ID_NULL \<or> snd s (fst s) \<noteq> None then (None, s)
       else (Some (fst s), fst s + 1, (snd s)(fst s \<mapsto> (a, m))),
     psa_destroy_key = \<lambda>kid s. (fst s, (snd s)(kid := None)),
     psa_aead_encrypt = \<lambda>_. demo_encrypt, psa_aead_decrypt = \<lambda>_. demo_decrypt, run_self_test = \<lambda>_ _ s. ((0, 0), s)\<rparr>"

lemma demo_store_ok: "psa_store_ok demo_store_psa snd"
  by (simp add: psa_store_ok_def demo_store_psa_def) (metis not_None_eq surj_pair)

definition demo_otar :: bytes where
  "demo_otar = [0x01, 2, 0, 0, 2] @ replicate 12 0 @ [0, 5] @ replicate 32 1 @ replicate 16 7"

lemma demo_otar_decode:
  "ccsds_sdls_ep_otar_decode default_sdls_config demo_otar = Inr \<lparr>encrypted_key_blocks = [0, 5] @ replicate 32 1,
     otar_iv = replicate 12 0, otar_tag = replicate 16 7, master_key_id = 2, otar_key_count = 1\<rparr>"
  by code_simp

lemma demo_otar_plaintext:
  "demo_decrypt k iv aad (take (1 * 34 + 16) (drop 17 demo_otar)) = Inr ([0, 5] @ replicate 32 1)"
  unfolding demo_decrypt_def demo_otar_def by code_simp

lemma demo_master_fields:
  "keys demo_master_ctx ! 2 = \<lparr>psa_key_id = 77, tx_arsn = 0, key_state = CCSDS_SDLS_KEY_ACTIVE\<rparr>"
  "i < 8 \<Longrightarrow> i \<noteq> 2 \<Longrightarrow> keys demo_master_ctx ! i = zero_key" "length (keys demo_master_ctx) = 8"
  "sdls_inv default_sdls_config demo_master_ctx"
proof -
  show "sdls_inv default_sdls_config demo_master_ctx" unfolding demo_master_ctx_def by (rule sdls_init_inv) simp
qed (simp_all add: demo_master_ctx_def ccsds_sdls_init_def init_sa_def init_key_def zero_ctx_def zero_key_def default_sdls_config_def)

lemma demo_otar_run:
  assumes "snd s 77 = Some (otar_attributes, [])"
  shows "ccsds_sdls_ep_process_otar default_sdls_config demo_store_psa demo_master_ctx s demo_otar =
    (if fst s = 0 \<or> snd s (fst s) \<noteq> None then (Some CCSDS_SDLS_ERR_PSA, demo_master_ctx, s)
     else (None, demo_master_ctx\<lparr>keys := (keys demo_master_ctx)[5 := loaded (fst s) zero_key]\<rparr>,
       fst s + 1, (snd s)(fst s \<mapsto> (otar_attributes, replicate 32 1))))"
proof -
  have kb: "CCSDS_SDLS_SESSION_KEY_BASE default_sdls_config = 4" "CCSDS_SDLS_MAX_KEYS default_sdls_config = 8"
    by (simp_all add: default_sdls_config_def)
  have look: "ccsds_sdls_key_lookup default_sdls_config demo_master_ctx 2 = Inr \<lparr>psa_key_id = 77, tx_arsn = 0, key_state = CCSDS_SDLS_KEY_ACTIVE\<rparr>"
    by (simp add: ccsds_sdls_key_lookup_def demo_master_fields kb PSA_KEY_ID_NULL_def)
  have valid: "validate_key demo_store_psa s 77 {PSA_KEY_USAGE_DECRYPT} = None"
    using assms by (simp add: validate_key_def demo_store_psa_def otar_attributes_def)
  have dec: "psa_aead_decrypt demo_store_psa s = demo_decrypt" by (simp add: demo_store_psa_def)
  have dest: "be16_at ([0, 5] @ replicate 32 1) 0 = 5" by code_simp
  have check: "otar_destinations_check default_sdls_config demo_master_ctx [] [5] = None"
    by (simp add: kb demo_master_fields zero_key_def)
  have null: "psa_key_id zero_key = 0" by (simp add: zero_key_def PSA_KEY_ID_NULL_def)
  show ?thesis
    unfolding ccsds_sdls_ep_process_otar_def Let_def
    using dec valid look demo_otar_decode demo_otar_plaintext dest check null
    by (simp add: kb demo_store_psa_def PSA_KEY_ID_NULL_def loaded_def demo_master_fields Let_def del: otar_destinations_check.simps append_Cons)
qed

text \<open>
  C6. Over-the-air rekeying installs exactly the keys of the PDU.  An accepted OTAR was sealed by an active master key over its whole
  header; then every destination entry holds a new, pre-active key of the store with the transmitted material, every other entry and its key are as
  they were, the volatile keys that were replaced are gone and the others still there, and the table still names different, existing keys.
\<close>

theorem otar_installs_keys:
  assumes "ccsds_sdls_ep_process_otar cfg psa ctx ks encoded = (None, ctx', ks')" "psa_store_ok psa content"
    and "sdls_inv cfg ctx" "key_table_ok ctx (content ks)"
  shows "\<exists>otar master plaintext n ds. ccsds_sdls_ep_otar_decode cfg encoded = Inr otar \<and> n = otar_key_count otar \<and>
    unat (master_key_id otar) < CCSDS_SDLS_SESSION_KEY_BASE cfg \<and> master = keys ctx ! unat (master_key_id otar) \<and>
    key_state master = CCSDS_SDLS_KEY_ACTIVE \<and>
    psa_aead_decrypt psa ks (psa_key_id master) (take 12 (drop 5 encoded)) (take 5 encoded) (take (n * 34 + 16) (drop 17 encoded)) = Inr plaintext \<and>
    ds = map (\<lambda>i. be16_at plaintext (i * 34)) [0 ..< n] \<and>
    (\<forall>i<n. otar_installed ctx' (content ks') (ds ! i) (take 32 (drop (i * 34 + 2) plaintext))) \<and>
    (\<forall>k<length (keys ctx). k \<notin> unat ` set ds \<longrightarrow> keys ctx' ! k = keys ctx ! k \<and>
      (psa_key_id (keys ctx ! k) \<noteq> PSA_KEY_ID_NULL \<longrightarrow> content ks' (psa_key_id (keys ctx ! k)) = content ks (psa_key_id (keys ctx ! k)))) \<and>
    (\<forall>k\<in>unat ` set ds. \<forall>a m. psa_key_id (keys ctx ! k) \<noteq> PSA_KEY_ID_NULL \<longrightarrow>
      content ks (psa_key_id (keys ctx ! k)) = Some (a, m) \<longrightarrow> content ks' (psa_key_id (keys ctx ! k)) =
        (if psa_volatile a then None else Some (a, m))) \<and>
    key_table_ok ctx' (content ks')"
  using assms(1)
proof (rule otar_success)
  fix otar :: ccsds_sdls_ep_otar and master plaintext imported ks1
  let ?n = "otar_key_count otar" and ?ds = "otar_destinations plaintext (otar_key_count otar)"
  assume r: "ccsds_sdls_ep_otar_decode cfg encoded = Inr otar" "unat (master_key_id otar) < CCSDS_SDLS_SESSION_KEY_BASE cfg"
    "ccsds_sdls_key_lookup cfg ctx (master_key_id otar) = Inr master" "key_state master = CCSDS_SDLS_KEY_ACTIVE"
    "psa_aead_decrypt psa ks (psa_key_id master) (take 12 (drop 5 encoded)) (take 5 encoded)
       (take (?n * 34 + 16) (drop 17 encoded)) = Inr plaintext"
    and check: "otar_destinations_check cfg ctx [] ?ds = None"
    and imp: "otar_import psa ks (otar_materials plaintext ?n) = (imported, True, ks1)"
    and c: "ctx' = ctx\<lparr>keys := snd (otar_commit (zip ?ds imported) (keys ctx))\<rparr>"
    and k: "ks' = fold (\<lambda>kid ks. destroy_replaced_volatile_key psa ks kid) (filter (\<lambda>kid. kid \<noteq> PSA_KEY_ID_NULL)
       (fst (otar_commit (zip ?ds imported) (keys ctx)))) ks1"
  note d = otar_checkD [OF check]
  have len: "length imported = length ?ds" using otar_import_length [OF imp] by simp
  have bound: "\<forall>d\<in>set ?ds. unat d < length (keys ctx)" using d assms(3) by (simp add: sdls_inv_def)
  have dist: "distinct ?ds" using d by blast
  note s = otar_commit_store [OF assms(2,4) dist bound len otar_import_store [OF assms(2) imp] c k]
  have m: "master = keys ctx ! unat (master_key_id otar)" using key_lookupD [OF r(3)] by blast
  have inst: "\<forall>i<?n. otar_installed ctx' (content ks') (?ds ! i) (take 32 (drop (i * 34 + 2) plaintext))"
    using s(1) by (simp add: otar_materials_def)
  show ?thesis
    by (intro exI conjI) (rule r(1) refl r(2,4) m r(5) inst s(2-4) otar_destinations_def)+
qed

theorem otar_installs_keys_witness:
  "key_table_ok (demo_master_ctx\<lparr>keys := (keys demo_master_ctx)[5 := loaded 100 zero_key]\<rparr>)
     [77 \<mapsto> (otar_attributes, []), 100 \<mapsto> (otar_attributes, replicate 32 1)]"
proof -
  let ?s = "(100, [77 \<mapsto> (otar_attributes, [])]) :: demo_store"
  have run: "ccsds_sdls_ep_process_otar default_sdls_config demo_store_psa demo_master_ctx ?s demo_otar =
      (None, demo_master_ctx\<lparr>keys := (keys demo_master_ctx)[5 := loaded 100 zero_key]\<rparr>,
       101, [77 \<mapsto> (otar_attributes, []), 100 \<mapsto> (otar_attributes, replicate 32 1)])"
    by (subst demo_otar_run) simp_all
  have kid: "psa_key_id (keys demo_master_ctx ! i) = (if i = 2 then 77 else 0)" if "i < 8" for i
    using demo_master_fields(1) demo_master_fields(2) [OF that] by (simp add: zero_key_def PSA_KEY_ID_NULL_def)
  have "key_table_ok demo_master_ctx (snd ?s)"
    unfolding key_table_ok_def demo_master_fields(3) PSA_KEY_ID_NULL_def by (simp add: kid)
  from otar_installs_keys [OF run demo_store_ok demo_master_fields(4) this] show ?thesis unfolding snd_conv by (elim exE conjE)
qed

text \<open>
  C12. A rejected OTAR leaves nothing behind: whatever goes wrong, a failing import among others included, the context is unchanged and
  the store holds exactly the keys it held before.
\<close>

theorem otar_failure_leaves_no_key:
  assumes "ccsds_sdls_ep_process_otar cfg psa ctx ks encoded = (Some e, ctx', ks')" "psa_store_ok psa content"
  shows "ctx' = ctx \<and> content ks' = content ks"
  using otar_failure [OF assms(1)] otar_failure_store [OF assms(1)] failed_imports_undone [OF assms(2)] by auto

theorem otar_failure_leaves_no_key_witness:
  "snd (snd (snd (ccsds_sdls_ep_process_otar default_sdls_config demo_store_psa demo_master_ctx
     (0, [77 \<mapsto> (otar_attributes, [])]) demo_otar))) = [77 \<mapsto> (otar_attributes, [])]"
proof -
  have run: "ccsds_sdls_ep_process_otar default_sdls_config demo_store_psa demo_master_ctx (0, [77 \<mapsto> (otar_attributes, [])]) demo_otar =
      (Some CCSDS_SDLS_ERR_PSA, demo_master_ctx, (0, [77 \<mapsto> (otar_attributes, [])]))" by (subst demo_otar_run) simp_all
  with otar_failure_leaves_no_key [OF run demo_store_ok] show ?thesis by simp
qed

end
