(* ===== verification/Udp.thy ===== *)
theory Udp
  imports Ccsds_Prelude
begin

text \<open>
  The UDP adapter (\<^verbatim>\<open>src/src/ccsds_udp.c\<close>): one receive socket with its thread, one transmit
  socket opened on the first send, and counters under a lock.  The socket calls are the
  record \<open>net_ops\<close> over a state \<open>'w\<close> of the operating system; \<open>net_ops_ok\<close> states what the
  adapter relies on.  The second half runs the adapter as a system of events, in which the
  receive thread and the calls of its owner alternate at the lock sections.
\<close>

section \<open>Data\<close>

record udp_build =
  CONFIG_NETWORKING :: bool
  CCSDS_UDP_MAX_UNIT_LEN :: nat

text \<open>The callback of the configuration and its user pointer are an argument of the operations that call it.\<close>

record ccsds_udp_config =
  local_ip :: "string option"
  local_port :: u16
  peer_ip :: "string option"
  peer_port :: u16
  max_unit_len :: nat
  thread_priority :: int
  thread_name :: "string option"

record ccsds_udp_stats =
  udp_running :: bool
  datagrams_received :: u32
  datagrams_sent :: u32
  udp_last_error :: rc

record ccsds_udp =
  udp_config :: ccsds_udp_config
  udp_stats :: ccsds_udp_stats
  rx_fd :: int
  tx_fd :: int
  thread_started :: bool
  udp_initialized :: bool

definition zero_udp_stats :: ccsds_udp_stats where
  "zero_udp_stats = \<lparr>udp_running = False, datagrams_received = 0, datagrams_sent = 0, udp_last_error = RC_OK\<rparr>"

text \<open>
  The socket layer.  \<open>net_socket\<close> returns the descriptor, negative on failure, and the \<^verbatim>\<open>errno\<close>;
  \<open>net_recv\<close> a datagram cut to the length asked for; \<open>net_sendto\<close> the number of octets sent.
  \<open>net_opened\<close> and \<open>net_inbox\<close> observe the state: the open descriptors, and the datagrams
  waiting at one of them.
\<close>

record 'w net_ops =
  inet_pton :: "string \<Rightarrow> u32 option"
  net_socket :: "'w \<Rightarrow> int \<times> errno \<times> 'w"
  net_bind :: "'w \<Rightarrow> int \<Rightarrow> u32 \<times> u16 \<Rightarrow> rc \<times> 'w"
  net_close :: "'w \<Rightarrow> int \<Rightarrow> 'w"
  net_recv :: "'w \<Rightarrow> int \<Rightarrow> nat \<Rightarrow> (errno + bytes) \<times> 'w"
  net_sendto :: "'w \<Rightarrow> int \<Rightarrow> bytes \<Rightarrow> u32 \<times> u16 \<Rightarrow> (errno + nat) \<times> 'w"
  net_opened :: "'w \<Rightarrow> int list"
  net_inbox :: "'w \<Rightarrow> int \<Rightarrow> bytes list"

section \<open>Operations\<close>

definition record_error :: "ccsds_udp \<Rightarrow> rc \<Rightarrow> ccsds_udp" where
  "record_error udp e = (if e = RC_OK then udp else udp\<lparr>udp_stats := (udp_stats udp)\<lparr>udp_last_error := e\<rparr>\<rparr>)"

definition unit_len_bad :: "ccsds_udp \<Rightarrow> bytes \<Rightarrow> bool" where
  "unit_len_bad udp d \<longleftrightarrow> length d = 0 \<or> length d > max_unit_len (udp_config udp)"

definition count_received :: "ccsds_udp \<Rightarrow> ccsds_udp" where
  "count_received udp = udp\<lparr>udp_stats := (udp_stats udp)\<lparr>datagrams_received := datagrams_received (udp_stats udp) + 1\<rparr>\<rparr>"

definition ccsds_udp_dispatch_datagram :: "('w \<Rightarrow> bytes \<Rightarrow> rc \<times> 'w) \<Rightarrow> ccsds_udp \<Rightarrow> 'w \<Rightarrow> bytes \<Rightarrow> rc \<times> ccsds_udp \<times> 'w" where
  "ccsds_udp_dispatch_datagram receive udp w d =
     (if unit_len_bad udp d then (RC_ERR EMSGSIZE, record_error udp (RC_ERR EMSGSIZE), w)
      else let (ret, w') = receive w d in (ret, record_error (count_received udp) ret, w'))"

definition ccsds_udp_available :: "udp_build \<Rightarrow> bool" where
  "ccsds_udp_available b = CONFIG_NETWORKING b"

definition ccsds_udp_init :: "udp_build \<Rightarrow> ccsds_udp_config \<Rightarrow> errno + ccsds_udp" where
  "ccsds_udp_init b c =
     (if local_ip c = None \<or> peer_ip c = None \<or> local_port c = 0 \<or> peer_port c = 0 \<or>
         max_unit_len c = 0 \<or> max_unit_len c > CCSDS_UDP_MAX_UNIT_LEN b then Inl EINVAL
      else Inr \<lparr>udp_config = c, udp_stats = zero_udp_stats, rx_fd = - 1, tx_fd = - 1,
                thread_started = False, udp_initialized = True\<rparr>)"

text \<open>A successful start leaves the thread of descriptor \<open>rx_fd\<close> running.\<close>

definition ccsds_udp_start :: "udp_build \<Rightarrow> 'w net_ops \<Rightarrow> ccsds_udp \<Rightarrow> 'w \<Rightarrow> rc \<times> ccsds_udp \<times> 'w" where
  "ccsds_udp_start b net udp w =
     (if \<not> CONFIG_NETWORKING b then (RC_ERR ENOTSUP, udp, w) else
      case Option.bind (local_ip (udp_config udp)) (inet_pton net) of
        None \<Rightarrow> (RC_ERR EINVAL, udp, w)
      | Some addr \<Rightarrow>
          if udp_running (udp_stats udp) \<or> thread_started udp then (RC_ERR EALREADY, udp, w)
          else let (fd, err, w1) = net_socket net w in
            if fd < 0 then (RC_ERR err, udp, w1)
            else case net_bind net w1 fd (addr, local_port (udp_config udp)) of
              (Some e, w2) \<Rightarrow> (RC_ERR e, udp, net_close net w2 fd)
            | (None, w2) \<Rightarrow> (RC_OK, udp\<lparr>udp_stats := zero_udp_stats\<lparr>udp_running := True\<rparr>, rx_fd := fd, thread_started := True\<rparr>, w2))"

definition close_open :: "'w net_ops \<Rightarrow> int \<Rightarrow> 'w \<Rightarrow> 'w" where
  "close_open net fd w = (if 0 \<le> fd then net_close net w fd else w)"

definition ccsds_udp_stop :: "udp_build \<Rightarrow> 'w net_ops \<Rightarrow> ccsds_udp \<Rightarrow> 'w \<Rightarrow> ccsds_udp \<times> 'w" where
  "ccsds_udp_stop b net udp w =
     (if \<not> CONFIG_NETWORKING b then (udp, w)
      else (udp\<lparr>udp_stats := (udp_stats udp)\<lparr>udp_running := False\<rparr>, rx_fd := - 1, tx_fd := - 1\<rparr>,
            close_open net (tx_fd udp) (close_open net (rx_fd udp) w)))"

definition send_on :: "'w net_ops \<Rightarrow> ccsds_udp \<Rightarrow> 'w \<Rightarrow> bytes \<Rightarrow> u32 \<Rightarrow> rc \<times> ccsds_udp \<times> 'w" where
  "send_on net udp w d addr =
     (case net_sendto net w (tx_fd udp) d (addr, peer_port (udp_config udp)) of
        (Inl e, w') \<Rightarrow> (RC_ERR e, record_error udp (RC_ERR e), w')
      | (Inr sent, w') \<Rightarrow>
          if sent \<noteq> length d then (RC_ERR EIO, record_error udp (RC_ERR EIO), w')
          else (RC_OK, udp\<lparr>udp_stats := (udp_stats udp)\<lparr>datagrams_sent := datagrams_sent (udp_stats udp) + 1\<rparr>\<rparr>, w'))"

definition ccsds_udp_send :: "udp_build \<Rightarrow> 'w net_ops \<Rightarrow> ccsds_udp \<Rightarrow> 'w \<Rightarrow> bytes \<Rightarrow> rc \<times> ccsds_udp \<times> 'w" where
  "ccsds_udp_send b net udp w d =
     (if \<not> CONFIG_NETWORKING b then (RC_ERR ENOTSUP, udp, w) else
      if unit_len_bad udp d then (RC_ERR EMSGSIZE, record_error udp (RC_ERR EMSGSIZE), w) else
      case Option.bind (peer_ip (udp_config udp)) (inet_pton net) of
        None \<Rightarrow> (RC_ERR EINVAL, record_error udp (RC_ERR EINVAL), w)
      | Some addr \<Rightarrow>
          if 0 \<le> tx_fd udp then send_on net udp w d addr
          else let (fd, err, w1) = net_socket net w; udp1 = udp\<lparr>tx_fd := fd\<rparr> in
            if fd < 0 then (RC_ERR err, record_error udp1 (RC_ERR err), w1) else send_on net udp1 w1 d addr)"

definition ccsds_udp_get_stats :: "ccsds_udp \<Rightarrow> ccsds_udp_stats" where
  "ccsds_udp_get_stats udp = udp_stats udp"

section \<open>The receive thread\<close>

text \<open>
  Where a thread stands: at the receive call, with its outcome in hand, inside the callback,
  before the exit section, or past it with the function still to return.
\<close>

datatype udp_thread = At_Recv int | Got int "errno + bytes" | In_Callback int bytes | At_Exit int | Returning

text \<open>One round from the outcome of the receive call: the next position, and the callback's argument if it is called.\<close>

definition thread_round :: "ccsds_udp \<Rightarrow> int \<Rightarrow> errno + bytes \<Rightarrow> udp_thread \<times> ccsds_udp" where
  "thread_round udp fd outcome =
     (case outcome of
        Inl e \<Rightarrow> (if udp_running (udp_stats udp) then At_Recv fd else At_Exit fd, record_error udp (RC_ERR e))
      | Inr d \<Rightarrow>
          if length d > max_unit_len (udp_config udp) then (At_Recv fd, record_error udp (RC_ERR EMSGSIZE))
          else if unit_len_bad udp d then (At_Recv fd, record_error udp (RC_ERR EMSGSIZE))
          else (In_Callback fd d, count_received udp))"

definition thread_exit :: "'w net_ops \<Rightarrow> ccsds_udp \<Rightarrow> 'w \<Rightarrow> int \<Rightarrow> ccsds_udp \<times> 'w" where
  "thread_exit net udp w fd =
     (let (udp1, w1) = (if rx_fd udp = fd then (udp\<lparr>rx_fd := - 1\<rparr>, net_close net w fd) else (udp, w)) in
      (udp1\<lparr>udp_stats := (udp_stats udp1)\<lparr>udp_running := False\<rparr>, thread_started := False\<rparr>, w1))"

text \<open>
  The thread function alone, one callback result per round: the units it delivers, and the
  state it leaves.
\<close>

fun udp_thread_fn :: "'w net_ops \<Rightarrow> ccsds_udp \<Rightarrow> 'w \<Rightarrow> int \<Rightarrow> rc list \<Rightarrow> bytes list \<times> ccsds_udp \<times> 'w" where
  "udp_thread_fn net udp w fd [] = ([], udp, w)"
| "udp_thread_fn net udp w fd (ret # rets) =
     (let (outcome, w1) = net_recv net w fd (max_unit_len (udp_config udp) + 1) in
      case thread_round udp fd outcome of
        (In_Callback _ d, udp1) \<Rightarrow>
          (let (ds, rest) = udp_thread_fn net (record_error udp1 ret) w1 fd rets in (d # ds, rest))
      | (At_Exit _, udp1) \<Rightarrow> ([], thread_exit net udp1 w1 fd)
      | (_, udp1) \<Rightarrow> udp_thread_fn net udp1 w1 fd rets)"

section \<open>The adapter as a system\<close>

text \<open>
  The calls of the owner are serialized with each other; the thread runs between them, one
  lock section at a time.  \<open>Run_Thread i ret\<close> advances the \<open>i\<close>-th live thread (\<open>ret\<close> is what the
  callback returns, if it is there), and \<open>Os w\<close> is any change of the operating system that
  opens and closes no socket.  The list \<open>threads\<close> would hold two threads if the adapter
  created a second one while the first has not returned.
\<close>

record 'w udp_system =
  dev :: ccsds_udp
  threads :: "udp_thread list"
  os :: 'w

datatype 'w udp_event = Call_Start | Call_Stop | Call_Send bytes | Run_Thread nat rc | Os 'w

definition thread_advance :: "'w net_ops \<Rightarrow> ccsds_udp \<Rightarrow> 'w \<Rightarrow> rc \<Rightarrow> udp_thread \<Rightarrow> udp_thread list \<times> ccsds_udp \<times> 'w" where
  "thread_advance net udp w ret t =
     (case t of
        At_Recv fd \<Rightarrow>
          (let (outcome, w1) = net_recv net w fd (max_unit_len (udp_config udp) + 1) in ([Got fd outcome], udp, w1))
      | Got fd outcome \<Rightarrow> (let (t', udp1) = thread_round udp fd outcome in ([t'], udp1, w))
      | In_Callback fd d \<Rightarrow> ([At_Recv fd], record_error udp ret, w)
      | At_Exit fd \<Rightarrow> ([Returning], thread_exit net udp w fd)
      | Returning \<Rightarrow> ([], udp, w))"

fun udp_step :: "udp_build \<Rightarrow> 'w net_ops \<Rightarrow> 'w udp_system \<Rightarrow> 'w udp_event \<Rightarrow> 'w udp_system" where
  "udp_step b net sys Call_Start =
     (case ccsds_udp_start b net (dev sys) (os sys) of
        (ret, udp1, w1) \<Rightarrow> \<lparr>dev = udp1,
          threads = (if ret = RC_OK then threads sys @ [At_Recv (rx_fd udp1)] else threads sys), os = w1\<rparr>)"
| "udp_step b net sys Call_Stop = (case ccsds_udp_stop b net (dev sys) (os sys) of (udp1, w1) \<Rightarrow> sys\<lparr>dev := udp1, os := w1\<rparr>)"
| "udp_step b net sys (Call_Send d) = (case ccsds_udp_send b net (dev sys) (os sys) d of (_, udp1, w1) \<Rightarrow> sys\<lparr>dev := udp1, os := w1\<rparr>)"
| "udp_step b net sys (Run_Thread i ret) =
     (if i < length (threads sys) then
        case thread_advance net (dev sys) (os sys) ret (threads sys ! i) of
          (ts, udp1, w1) \<Rightarrow> \<lparr>dev = udp1, threads = take i (threads sys) @ ts @ drop (Suc i) (threads sys), os = w1\<rparr>
      else sys)"
| "udp_step b net sys (Os w) = (if set (net_opened net w) = set (net_opened net (os sys)) then sys\<lparr>os := w\<rparr> else sys)"

definition initial_system :: "ccsds_udp \<Rightarrow> 'w \<Rightarrow> 'w udp_system" where
  "initial_system udp w = \<lparr>dev = udp, threads = [], os = w\<rparr>"

section \<open>What the adapter relies on\<close>

text \<open>
  A new descriptor is one that was not open; closing releases it; a receive on an open
  descriptor takes the first waiting datagram, cut to the length asked for, and on a closed
  one fails; the other calls open and close nothing.
\<close>

definition net_ops_ok :: "'w net_ops \<Rightarrow> bool" where
  "net_ops_ok net \<longleftrightarrow>
     (\<forall>w fd e w'. net_socket net w = (fd, e, w') \<longrightarrow>
        (if fd < 0 then set (net_opened net w') = set (net_opened net w)
         else fd \<notin> set (net_opened net w) \<and> set (net_opened net w') = insert fd (set (net_opened net w)))) \<and>
     (\<forall>w fd. set (net_opened net (net_close net w fd)) = set (net_opened net w) - {fd}) \<and>
     (\<forall>w fd a. set (net_opened net (snd (net_bind net w fd a))) = set (net_opened net w)) \<and>
     (\<forall>w fd n. set (net_opened net (snd (net_recv net w fd n))) = set (net_opened net w)) \<and>
     (\<forall>w fd d a. set (net_opened net (snd (net_sendto net w fd d a))) = set (net_opened net w)) \<and>
     (\<forall>w fd n. fd \<notin> set (net_opened net w) \<longrightarrow> isl (fst (net_recv net w fd n))) \<and>
     (\<forall>w fd n d ds. fd \<in> set (net_opened net w) \<and> net_inbox net w fd = d # ds \<longrightarrow>
        fst (net_recv net w fd n) = Inr (take n d) \<and> net_inbox net (snd (net_recv net w fd n)) fd = ds)"

lemma socket_ok:
  "net_ops_ok net \<Longrightarrow> net_socket net w = (fd, e, w') \<Longrightarrow>
     (if fd < 0 then set (net_opened net w') = set (net_opened net w)
      else fd \<notin> set (net_opened net w) \<and> set (net_opened net w') = insert fd (set (net_opened net w)))"
  unfolding net_ops_ok_def by (elim conjE) blast

lemma opened_kept:
  assumes "net_ops_ok net"
  shows "set (net_opened net (net_close net w fd)) = set (net_opened net w) - {fd}"
    "net_bind net w fd a = (r, w') \<Longrightarrow> set (net_opened net w') = set (net_opened net w)"
    "net_recv net w fd n = (out, w') \<Longrightarrow> set (net_opened net w') = set (net_opened net w)"
    "net_sendto net w fd d a = (res, w') \<Longrightarrow> set (net_opened net w') = set (net_opened net w)"
proof -
  show "set (net_opened net (net_close net w fd)) = set (net_opened net w) - {fd}"
    using assms by (simp only: net_ops_ok_def)
  have bind: "set (net_opened net (snd (net_bind net w fd a))) = set (net_opened net w)"
    and recv: "set (net_opened net (snd (net_recv net w fd n))) = set (net_opened net w)"
    and sendto: "set (net_opened net (snd (net_sendto net w fd d a))) = set (net_opened net w)"
    using assms by (simp_all only: net_ops_ok_def)
  show "net_bind net w fd a = (r, w') \<Longrightarrow> set (net_opened net w') = set (net_opened net w)"
    using bind by simp
  show "net_recv net w fd n = (out, w') \<Longrightarrow> set (net_opened net w') = set (net_opened net w)"
    using recv by simp
  show "net_sendto net w fd d a = (res, w') \<Longrightarrow> set (net_opened net w') = set (net_opened net w)"
    using sendto by simp
qed

lemma recv_closed: "net_ops_ok net \<Longrightarrow> fd \<notin> set (net_opened net w) \<Longrightarrow> isl (fst (net_recv net w fd n))"
  by (simp only: net_ops_ok_def not_False_eq_True simp_thms)

lemma recv_first:
  assumes "net_ops_ok net" "fd \<in> set (net_opened net w)" "net_inbox net w fd = d # ds"
  shows "\<exists>w'. net_recv net w fd n = (Inr (take n d), w') \<and> net_inbox net w' fd = ds \<and> set (net_opened net w') = set (net_opened net w)"
proof -
  have "fst (net_recv net w fd n) = Inr (take n d) \<and> net_inbox net (snd (net_recv net w fd n)) fd = ds"
    using assms by (simp only: net_ops_ok_def)
  with opened_kept(3) [OF assms(1), of w fd n] show ?thesis by (cases "net_recv net w fd n") simp
qed

section \<open>Delivery\<close>

lemma record_error_simps [simp]:
  "udp_config (record_error udp e) = udp_config udp" "rx_fd (record_error udp e) = rx_fd udp"
  "tx_fd (record_error udp e) = tx_fd udp" "thread_started (record_error udp e) = thread_started udp"
  "udp_running (udp_stats (record_error udp e)) = udp_running (udp_stats udp)"
  "datagrams_received (udp_stats (record_error udp e)) = datagrams_received (udp_stats udp)"
  "datagrams_sent (udp_stats (record_error udp e)) = datagrams_sent (udp_stats udp)"
  "udp_last_error (udp_stats (record_error udp (RC_ERR x))) = RC_ERR x"
  by (simp_all add: record_error_def)

lemma count_received_simps [simp]:
  "udp_config (count_received udp) = udp_config udp" "rx_fd (count_received udp) = rx_fd udp"
  "tx_fd (count_received udp) = tx_fd udp" "thread_started (count_received udp) = thread_started udp"
  "udp_running (udp_stats (count_received udp)) = udp_running (udp_stats udp)"
  "datagrams_received (udp_stats (count_received udp)) = datagrams_received (udp_stats udp) + 1"
  "datagrams_sent (udp_stats (count_received udp)) = datagrams_sent (udp_stats udp)"
  by (simp_all add: count_received_def)

text \<open>Reading one octet past the limit tells a datagram that fits from one that was cut.\<close>

lemma round_of_datagram:
  "thread_round udp fd (Inr (take (max_unit_len (udp_config udp) + 1) d)) =
     (if unit_len_bad udp d then (At_Recv fd, record_error udp (RC_ERR EMSGSIZE)) else (In_Callback fd d, count_received udp))"
  by (auto simp: thread_round_def unit_len_bad_def)

text \<open>
  C36. The receive thread hands its callback exactly the waiting datagrams of 1 to
  \<open>max_unit_len\<close> octets, whole, each once and in order, and counts them; whatever the
  callback returns, and whatever oversize or empty datagrams arrive in between, it goes on.
\<close>
theorem udp_delivers_whole_datagrams:
  assumes "net_ops_ok net" "fd \<in> set (net_opened net w)" "net_inbox net w fd = ds" "length rets = length ds"
    and "udp_thread_fn net udp w fd rets = (delivered, udp', w')"
  shows "delivered = filter (\<lambda>d. 1 \<le> length d \<and> length d \<le> max_unit_len (udp_config udp)) ds \<and>
      datagrams_received (udp_stats udp') = datagrams_received (udp_stats udp) + of_nat (length delivered) \<and>
      net_inbox net w' fd = []"
  using assms(2-)
proof (induction ds arbitrary: rets udp w delivered)
  case Nil
  then show ?case by auto
next
  case (Cons d ds)
  then obtain ret rets' where rets: "rets = ret # rets'" "length rets' = length ds" by (cases rets) auto
  obtain w1 where w1: "net_recv net w fd (max_unit_len (udp_config udp) + 1) = (Inr (take (max_unit_len (udp_config udp) + 1) d), w1)"
    "net_inbox net w1 fd = ds" "fd \<in> set (net_opened net w1)"
    using recv_first [OF assms(1) Cons.prems(1,2)] Cons.prems(1) by metis
  show ?case
  proof (cases "unit_len_bad udp d")
    case True
    with Cons.prems(4) rets w1 have "udp_thread_fn net (record_error udp (RC_ERR EMSGSIZE)) w1 fd rets' = (delivered, udp', w')"
      by (simp add: round_of_datagram [unfolded Suc_eq_plus1 [symmetric]])
    from Cons.IH [OF w1(3,2) rets(2) this] True show ?thesis by (auto simp: unit_len_bad_def)
  next
    case False
    with Cons.prems(4) rets w1 obtain rest where
      "udp_thread_fn net (record_error (count_received udp) ret) w1 fd rets' = (rest, udp', w')" "delivered = d # rest"
      by (auto simp: round_of_datagram [unfolded Suc_eq_plus1 [symmetric]] split: prod.splits)
    with Cons.IH [OF w1(3,2) rets(2) this(1)] False show ?thesis by (auto simp: unit_len_bad_def Suc_le_eq)
  qed
qed

text \<open>The direct entry point does what a round of the thread and its callback do.\<close>

lemma dispatch_as_round:
  "ccsds_udp_dispatch_datagram receive udp w d =
     (case thread_round udp fd (Inr d) of
        (In_Callback _ u, udp1) \<Rightarrow> (let (ret, w') = receive w u in (ret, record_error udp1 ret, w'))
      | (_, udp1) \<Rightarrow> (RC_ERR EMSGSIZE, udp1, w))"
  by (simp add: ccsds_udp_dispatch_datagram_def thread_round_def unit_len_bad_def)

text \<open>A send that fails leaves its code in the counters and counts nothing; one that succeeds counts once.\<close>

lemma send_reports:
  assumes "CONFIG_NETWORKING b" "ccsds_udp_send b net udp w d = (ret, udp', w')"
  shows "case ret of
      None \<Rightarrow> ccsds_udp_get_stats udp' = (ccsds_udp_get_stats udp)\<lparr>datagrams_sent := datagrams_sent (ccsds_udp_get_stats udp) + 1\<rparr>
    | Some e \<Rightarrow> ccsds_udp_get_stats udp' = (ccsds_udp_get_stats udp)\<lparr>udp_last_error := RC_ERR e\<rparr>"
  using assms unfolding ccsds_udp_send_def send_on_def ccsds_udp_get_stats_def Let_def record_error_def
  by (auto split: if_splits option.splits sum.splits prod.splits)

section \<open>The sockets and the thread\<close>

definition held :: "ccsds_udp \<Rightarrow> int set" where
  "held udp = {fd. 0 \<le> fd \<and> (fd = rx_fd udp \<or> fd = tx_fd udp)}"

fun serving :: "udp_thread \<Rightarrow> int option" where
  "serving (At_Recv fd) = Some fd"
| "serving (Got fd _) = Some fd"
| "serving (In_Callback fd _) = Some fd"
| "serving (At_Exit fd) = Some fd"
| "serving Returning = None"

definition live_threads :: "udp_thread list \<Rightarrow> udp_thread list" where
  "live_threads ts = filter (\<lambda>t. serving t \<noteq> None) ts"

text \<open>
  Exactly one thread is live while \<open>thread_started\<close> is set, and none otherwise; while the
  adapter runs, that thread serves \<open>rx_fd\<close> and is not about to exit; and the sockets open
  beyond those of the beginning are the ones the two descriptors name.
\<close>

definition thread_ok :: "ccsds_udp \<Rightarrow> udp_thread \<Rightarrow> bool" where
  "thread_ok udp t \<longleftrightarrow> (\<exists>fd. serving t = Some fd \<and> 0 \<le> fd \<and>
     (if udp_running (udp_stats udp) then rx_fd udp = fd \<and> t \<noteq> At_Exit fd else rx_fd udp < 0))"

definition threads_ok :: "ccsds_udp \<Rightarrow> udp_thread list \<Rightarrow> bool" where
  "threads_ok udp ts \<longleftrightarrow>
     (if thread_started udp then \<exists>t. live_threads ts = [t] \<and> thread_ok udp t
      else live_threads ts = [] \<and> \<not> udp_running (udp_stats udp) \<and> rx_fd udp < 0)"

definition sockets_ok :: "'w net_ops \<Rightarrow> int set \<Rightarrow> ccsds_udp \<Rightarrow> 'w \<Rightarrow> bool" where
  "sockets_ok net base udp w \<longleftrightarrow>
     set (net_opened net w) = base \<union> held udp \<and> base \<inter> held udp = {} \<and> (0 \<le> rx_fd udp \<longrightarrow> rx_fd udp \<noteq> tx_fd udp)"

definition udp_inv :: "'w net_ops \<Rightarrow> int set \<Rightarrow> 'w udp_system \<Rightarrow> bool" where
  "udp_inv net base sys \<longleftrightarrow> sockets_ok net base (dev sys) (os sys) \<and> threads_ok (dev sys) (threads sys)"

lemma threads_ok_cong:
  "udp_running (udp_stats udp') = udp_running (udp_stats udp) \<Longrightarrow> rx_fd udp' = rx_fd udp \<Longrightarrow>
     thread_started udp' = thread_started udp \<Longrightarrow> threads_ok udp' ts = threads_ok udp ts"
  by (simp add: threads_ok_def thread_ok_def)

lemma sockets_ok_cong:
  "rx_fd udp' = rx_fd udp \<Longrightarrow> tx_fd udp' = tx_fd udp \<Longrightarrow> set (net_opened net w') = set (net_opened net w) \<Longrightarrow>
     sockets_ok net base udp' w' = sockets_ok net base udp w"
  by (simp add: sockets_ok_def held_def)

lemma live_simps [simp]: "live_threads [] = []" "live_threads (t # ts) = (if serving t = None then live_threads ts else t # live_threads ts)"
  "live_threads (ts @ us) = live_threads ts @ live_threads us"
  by (simp_all add: live_threads_def)

lemma held_kept [simp]:
  "held (record_error udp e) = held udp" "held (count_received udp) = held udp"
  "held (udp\<lparr>udp_stats := st\<rparr>) = held udp"
  by (simp_all add: held_def)

lemma start_sockets:
  assumes "sockets_ok net base udp w" "rx_fd udp < 0" "0 \<le> fd"
    "fd \<notin> set (net_opened net w)" "set (net_opened net w') = insert fd (set (net_opened net w))"
  shows "sockets_ok net base (udp\<lparr>udp_stats := st, rx_fd := fd, thread_started := True\<rparr>) w'"
  using assms unfolding sockets_ok_def held_def by auto

lemma start_inv:
  assumes "net_ops_ok net" "udp_inv net base sys"
  shows "udp_inv net base (udp_step b net sys Call_Start)"
proof (cases "fst (ccsds_udp_start b net (dev sys) (os sys)) = RC_OK")
  case True
  then obtain addr fd err w1 w2 where ops: "net_socket net (os sys) = (fd, err, w1)" "\<not> fd < 0"
      "net_bind net w1 fd (addr, local_port (udp_config (dev sys))) = (None, w2)"
    and off: "\<not> thread_started (dev sys)"
    and step: "udp_step b net sys Call_Start = \<lparr>dev = (dev sys)\<lparr>udp_stats := zero_udp_stats\<lparr>udp_running := True\<rparr>, rx_fd := fd,
        thread_started := True\<rparr>, threads = threads sys @ [At_Recv fd], os = w2\<rparr>"
    by (auto simp: ccsds_udp_start_def Let_def split: if_splits option.splits prod.splits)
  from socket_ok [OF assms(1) ops(1)] opened_kept(2) [OF assms(1) ops(3)] ops(2)
  have fresh: "fd \<notin> set (net_opened net (os sys))" "set (net_opened net w2) = insert fd (set (net_opened net (os sys)))" by simp_all
  have inv: "sockets_ok net base (dev sys) (os sys)" "live_threads (threads sys) = []" "rx_fd (dev sys) < 0"
    using assms(2) off by (simp_all add: udp_inv_def threads_ok_def)
  from start_sockets [OF inv(1,3) _ fresh] ops(2) inv(2) show ?thesis
    unfolding step by (simp add: udp_inv_def threads_ok_def thread_ok_def)
next
  case False
  then have "fst (snd (ccsds_udp_start b net (dev sys) (os sys))) = dev sys"
    by (auto simp: ccsds_udp_start_def Let_def split: if_splits option.splits prod.splits)
  moreover have "set (net_opened net (snd (snd (ccsds_udp_start b net (dev sys) (os sys))))) = set (net_opened net (os sys))"
  proof -
    obtain fd err w1 where so: "net_socket net (os sys) = (fd, err, w1)" by (metis prod.exhaust)
    show ?thesis
      using False so socket_ok [OF assms(1) so] opened_kept(1) [OF assms(1)] opened_kept(2) [OF assms(1), of w1 fd]
      by (auto simp: ccsds_udp_start_def Let_def split: option.split prod.split)
  qed
  moreover obtain e udp1 w1 where s: "ccsds_udp_start b net (dev sys) (os sys) = (RC_ERR e, udp1, w1)"
    using False by (metis not_None_eq prod.collapse)
  moreover have "sockets_ok net base (dev sys) w1 = sockets_ok net base (dev sys) (os sys)"
    using calculation by (intro sockets_ok_cong) simp_all
  ultimately show ?thesis using assms(2) by (simp add: udp_inv_def)
qed

lemma stop_opened:
  assumes "net_ops_ok net" "sockets_ok net base udp w" "CONFIG_NETWORKING b" "ccsds_udp_stop b net udp w = (udp1, w1)"
  shows "set (net_opened net w1) = base" "held udp1 = {}"
proof -
  have "set (net_opened net (close_open net fd w)) = set (net_opened net w) - {x. 0 \<le> fd \<and> x = fd}" for fd w
    using opened_kept(1) [OF assms(1)] by (simp add: close_open_def)
  with assms(2-4) show "set (net_opened net w1) = base" "held udp1 = {}"
    by (auto simp: ccsds_udp_stop_def sockets_ok_def held_def)
qed

lemma stop_threads:
  assumes "threads_ok udp ts" "ccsds_udp_stop b net udp w = (udp1, w1)"
  shows "threads_ok udp1 ts"
proof (cases "CONFIG_NETWORKING b")
  case True
  with assms(2) have "rx_fd udp1 = - 1" "\<not> udp_running (udp_stats udp1)" "thread_started udp1 = thread_started udp"
    by (auto simp: ccsds_udp_stop_def)
  with assms(1) show ?thesis by (auto simp: threads_ok_def thread_ok_def)
qed (use assms in \<open>simp add: ccsds_udp_stop_def\<close>)

lemma stop_inv:
  assumes "net_ops_ok net" "udp_inv net base sys"
  shows "udp_inv net base (udp_step b net sys Call_Stop)"
proof -
  obtain udp1 w1 where s: "ccsds_udp_stop b net (dev sys) (os sys) = (udp1, w1)" by fastforce
  have "sockets_ok net base udp1 w1"
  proof (cases "CONFIG_NETWORKING b")
    case True
    from assms(2) have "sockets_ok net base (dev sys) (os sys)" by (simp add: udp_inv_def)
    from stop_opened [OF assms(1) this True s] s True show ?thesis
      by (simp add: sockets_ok_def) (simp add: ccsds_udp_stop_def, force)
  qed (use assms s in \<open>simp add: ccsds_udp_stop_def udp_inv_def\<close>)
  with stop_threads [OF _ s] assms(2) s show ?thesis by (simp add: udp_inv_def)
qed

lemma send_on_sockets:
  assumes "net_ops_ok net" "send_on net udp w d addr = (ret, udp1, w1)"
  shows "sockets_ok net base udp1 w1 = sockets_ok net base udp w" "threads_ok udp1 ts = threads_ok udp ts"
proof -
  obtain res w2 where res: "net_sendto net w (tx_fd udp) d (addr, peer_port (udp_config udp)) = (res, w2)" by fastforce
  from assms(2) res have "w1 = w2" "rx_fd udp1 = rx_fd udp" "tx_fd udp1 = tx_fd udp"
    "udp_running (udp_stats udp1) = udp_running (udp_stats udp)" "thread_started udp1 = thread_started udp"
    by (auto simp: send_on_def split: sum.splits if_splits)
  note eqs = this
  show "sockets_ok net base udp1 w1 = sockets_ok net base udp w"
    by (rule sockets_ok_cong) (simp_all add: eqs opened_kept(4) [OF assms(1) res])
  show "threads_ok udp1 ts = threads_ok udp ts"
    by (rule threads_ok_cong) (simp_all add: eqs)
qed

lemma record_error_ok [simp]:
  "sockets_ok net base (record_error udp e) w = sockets_ok net base udp w" "threads_ok (record_error udp e) ts = threads_ok udp ts"
  by (rule sockets_ok_cong, simp_all) (rule threads_ok_cong, simp_all)

lemma send_ok:
  assumes "net_ops_ok net" "sockets_ok net base udp w" "ccsds_udp_send b net udp w d = (ret, udp1, w1)" "threads_ok udp ts"
  shows "sockets_ok net base udp1 w1 \<and> threads_ok udp1 ts"
proof (cases "CONFIG_NETWORKING b \<and> \<not> unit_len_bad udp d \<and> Option.bind (peer_ip (udp_config udp)) (inet_pton net) \<noteq> None")
  case False
  with assms(3) have "w1 = w" "udp1 = udp \<or> (\<exists>e. udp1 = record_error udp e)"
    by (auto simp: ccsds_udp_send_def split: if_splits option.splits)
  with assms(2,4) show ?thesis by auto
next
  case True
  then obtain addr where addr: "Option.bind (peer_ip (udp_config udp)) (inet_pton net) = Some addr" by blast
  show ?thesis
  proof (cases "0 \<le> tx_fd udp")
    case ge: True
    from assms(3) True addr ge have "send_on net udp w d addr = (ret, udp1, w1)" by (simp add: ccsds_udp_send_def)
    from send_on_sockets [OF assms(1) this] assms(2,4) show ?thesis by simp
  next
    case False
    obtain fd err w0 where so: "net_socket net w = (fd, err, w0)" by (metis prod.exhaust)
    let ?udp = "udp\<lparr>tx_fd := fd\<rparr>"
    have th: "threads_ok ?udp ts" using assms(4) threads_ok_cong [of ?udp udp] by simp
    have sk: "sockets_ok net base ?udp w0"
    proof (cases "fd < 0")
      case True
      have "held ?udp = held udp" using True False by (auto simp: held_def)
      with True False socket_ok [OF assms(1) so] assms(2) show ?thesis by (simp add: sockets_ok_def)
    next
      case ge: False
      have "held ?udp = insert fd (held udp)" using ge False by (auto simp: held_def)
      moreover have "0 \<le> rx_fd udp \<Longrightarrow> rx_fd udp \<in> set (net_opened net w)"
        using assms(2) by (auto simp: sockets_ok_def held_def)
      ultimately show ?thesis using ge socket_ok [OF assms(1) so] assms(2) by (auto simp: sockets_ok_def)
    qed
    have send: "ccsds_udp_send b net udp w d =
        (if fd < 0 then (RC_ERR err, record_error ?udp (RC_ERR err), w0) else send_on net ?udp w0 d addr)"
      using True False by (simp add: ccsds_udp_send_def addr so)
    show ?thesis
    proof (cases "fd < 0")
      case neg: True
      with assms(3) send have "udp1 = record_error ?udp (RC_ERR err)" "w1 = w0" by auto
      with sk th show ?thesis by simp
    next
      case False
      with assms(3) send have "send_on net ?udp w0 d addr = (ret, udp1, w1)" by simp
      from send_on_sockets [OF assms(1) this] sk th show ?thesis by simp
    qed
  qed
qed

lemma send_inv:
  assumes "net_ops_ok net" "udp_inv net base sys"
  shows "udp_inv net base (udp_step b net sys (Call_Send d))"
proof -
  obtain ret udp1 w1 where s: "ccsds_udp_send b net (dev sys) (os sys) d = (ret, udp1, w1)" by (metis prod.exhaust)
  have "sockets_ok net base (dev sys) (os sys)" "threads_ok (dev sys) (threads sys)"
    using assms(2) by (simp_all add: udp_inv_def)
  from send_ok [OF assms(1) this(1) s this(2)] s show ?thesis by (simp add: udp_inv_def)
qed

lemma live_update:
  assumes "i < length ts"
  shows "serving (ts ! i) = None \<Longrightarrow> live_threads (take i ts @ us @ drop (Suc i) ts) = live_threads (take i ts) @ live_threads us @ live_threads (drop (Suc i) ts)"
    and "serving (ts ! i) = None \<Longrightarrow> live_threads (take i ts) @ live_threads (drop (Suc i) ts) = live_threads ts"
    and "serving (ts ! i) \<noteq> None \<Longrightarrow> live_threads ts = [t] \<Longrightarrow> ts ! i = t \<and> live_threads (take i ts @ us @ drop (Suc i) ts) = live_threads us"
    and "serving (ts ! i) \<noteq> None \<Longrightarrow> live_threads ts \<noteq> []"
proof -
  have ts: "live_threads ts = live_threads (take i ts) @ live_threads (ts ! i # drop (Suc i) ts)"
    by (subst id_take_nth_drop [OF assms]) simp
  show "serving (ts ! i) = None \<Longrightarrow> live_threads (take i ts @ us @ drop (Suc i) ts) = live_threads (take i ts) @ live_threads us @ live_threads (drop (Suc i) ts)"
    by simp
  show "serving (ts ! i) = None \<Longrightarrow> live_threads (take i ts) @ live_threads (drop (Suc i) ts) = live_threads ts" using ts by simp
  show "ts ! i = t \<and> live_threads (take i ts @ us @ drop (Suc i) ts) = live_threads us" if "serving (ts ! i) \<noteq> None" "live_threads ts = [t]"
  proof -
    from ts that have "live_threads (take i ts) @ ts ! i # live_threads (drop (Suc i) ts) = [t]" by simp
    then show ?thesis by (auto simp: append_eq_Cons_conv)
  qed
  show "serving (ts ! i) \<noteq> None \<Longrightarrow> live_threads ts \<noteq> []" using ts by auto
qed

lemma thread_ok_cong:
  "udp_running (udp_stats udp') = udp_running (udp_stats udp) \<Longrightarrow> rx_fd udp' = rx_fd udp \<Longrightarrow>
     thread_ok udp' t = thread_ok udp t"
  by (simp add: thread_ok_def)

text \<open>
  The exit section finds \<open>rx_fd\<close> already cleared, so its own close is never taken; the thread
  stays live, on the same descriptor, through every other section.
\<close>

lemma live_advance:
  assumes ok: "net_ops_ok net" "sockets_ok net base udp w" "thread_ok udp t" "thread_started udp" and t: "serving t \<noteq> None"
    and adv: "thread_advance net udp w ret t = (ts, udp1, w1)"
  shows "sockets_ok net base udp1 w1 \<and> threads_ok udp1 ts"
proof (cases t)
  case (At_Recv fd)
  obtain out w' where r: "net_recv net w fd (max_unit_len (udp_config udp) + 1) = (out, w')" by fastforce
  with adv At_Recv have res: "udp1 = udp" "w1 = w'" "ts = [Got fd out]" by (simp_all add: thread_advance_def)
  have "sockets_ok net base udp w' = sockets_ok net base udp w"
    by (rule sockets_ok_cong) (simp_all add: opened_kept(3) [OF ok(1) r])
  with res ok At_Recv show ?thesis by (simp add: threads_ok_def thread_ok_def)
next
  case (Got fd out)
  obtain t' udp' where r: "thread_round udp fd out = (t', udp')" by fastforce
  with adv Got have res: "udp1 = udp'" "w1 = w" "ts = [t']" by (simp_all add: thread_advance_def)
  from r have eqs: "rx_fd udp' = rx_fd udp" "tx_fd udp' = tx_fd udp" "thread_started udp' = thread_started udp"
    "udp_running (udp_stats udp') = udp_running (udp_stats udp)" "serving t' = Some fd"
    "udp_running (udp_stats udp) \<Longrightarrow> t' \<noteq> At_Exit fd"
    by (auto simp: thread_round_def split: sum.splits if_splits)
  have "sockets_ok net base udp' w = sockets_ok net base udp w"
    by (rule sockets_ok_cong) (simp_all add: eqs)
  moreover have "thread_ok udp' t'" using ok(3) Got eqs by (simp add: thread_ok_def split: if_splits)
  ultimately show ?thesis using res ok eqs by (simp add: threads_ok_def)
next
  case (In_Callback fd d)
  with adv have res: "udp1 = record_error udp ret" "w1 = w" "ts = [At_Recv fd]" by (simp_all add: thread_advance_def)
  with ok In_Callback show ?thesis by (simp add: threads_ok_def thread_ok_def)
next
  case (At_Exit fd)
  with ok(3) have "rx_fd udp < 0" "0 \<le> fd" "\<not> udp_running (udp_stats udp)"
    by (auto simp: thread_ok_def split: if_splits)
  with adv At_Exit have res: "ts = [Returning]" "w1 = w" "\<not> udp_running (udp_stats udp1)" "\<not> thread_started udp1"
    "rx_fd udp1 = rx_fd udp" "tx_fd udp1 = tx_fd udp"
    by (auto simp: thread_advance_def thread_exit_def)
  have "sockets_ok net base udp1 w = sockets_ok net base udp w" by (rule sockets_ok_cong) (simp_all add: res)
  with res ok(2) \<open>rx_fd udp < 0\<close> show ?thesis by (simp add: threads_ok_def)
next
  case Returning
  with t show ?thesis by simp
qed

lemma thread_inv:
  assumes "net_ops_ok net" "udp_inv net base sys"
  shows "udp_inv net base (udp_step b net sys (Run_Thread i ret))"
proof (cases "i < length (threads sys)")
  case True
  obtain ts udp1 w1 where adv: "thread_advance net (dev sys) (os sys) ret (threads sys ! i) = (ts, udp1, w1)" by (metis prod.exhaust)
  have inv: "sockets_ok net base (dev sys) (os sys)" "threads_ok (dev sys) (threads sys)"
    using assms(2) by (simp_all add: udp_inv_def)
  show ?thesis
  proof (cases "serving (threads sys ! i) = None")
    case none: True
    then have "threads sys ! i = Returning" by (cases "threads sys ! i") simp_all
    with adv have "ts = []" "udp1 = dev sys" "w1 = os sys" by (simp_all add: thread_advance_def)
    with inv adv True live_update(2) [OF True none] show ?thesis by (simp add: udp_inv_def threads_ok_def)
  next
    case False
    with inv(2) live_update(4) [OF True] obtain t where t: "live_threads (threads sys) = [t]" "thread_ok (dev sys) t" "thread_started (dev sys)"
      by (auto simp: threads_ok_def split: if_splits)
    note u = live_update(3) [OF True False t(1), of ts]
    with t(2) have "thread_ok (dev sys) (threads sys ! i)" by simp
    note step = live_advance [OF assms(1) inv(1) this t(3) False adv]
    have "threads_ok udp1 (take i (threads sys) @ ts @ drop (Suc i) (threads sys)) = threads_ok udp1 ts"
      using u by (simp only: threads_ok_def)
    with step adv True show ?thesis by (simp add: udp_inv_def)
  qed
qed (use assms in simp)

lemma udp_step_inv: "net_ops_ok net \<Longrightarrow> udp_inv net base sys \<Longrightarrow> udp_inv net base (udp_step b net sys ev)"
proof (cases ev)
  case (Os w)
  assume "udp_inv net base sys"
  moreover have "set (net_opened net w) = set (net_opened net (os sys)) \<Longrightarrow> sockets_ok net base (dev sys) w = sockets_ok net base (dev sys) (os sys)"
    by (rule sockets_ok_cong) simp_all
  ultimately show ?thesis using Os by (simp add: udp_inv_def)
qed (simp_all only: start_inv stop_inv send_inv thread_inv)

interpretation udp: stepper "udp_step b net" "\<lambda>sys. net_ops_ok net \<and> udp_inv net base sys" for b net base
  by unfold_locales (auto intro: udp_step_inv)

lemma init_inv:
  assumes "ccsds_udp_init b c = Inr udp"
  shows "udp_inv net (set (net_opened net w)) (initial_system udp w)"
  using assms by (auto simp: ccsds_udp_init_def initial_system_def udp_inv_def sockets_ok_def threads_ok_def held_def
      zero_udp_stats_def split: if_splits)

text \<open>
  C37. Whatever calls are made and however the receive thread runs between them, the adapter
  leaks no socket and closes none of another owner: the open descriptors are those of the
  beginning and the two it holds; a stop leaves none of its own open.  Exactly one thread
  is live while \<open>thread_started\<close> is set, and it serves \<open>rx_fd\<close> while the adapter runs.
\<close>
theorem udp_sockets_accounted:
  assumes "net_ops_ok net" "CONFIG_NETWORKING b" "ccsds_udp_init b c = Inr udp"
    and "sys = run (udp_step b net) (initial_system udp w) evs"
  shows "set (net_opened net (os sys)) = set (net_opened net w) \<union> held (dev sys) \<and>
      set (net_opened net w) \<inter> held (dev sys) = {} \<and>
      set (net_opened net (os (udp_step b net sys Call_Stop))) = set (net_opened net w) \<and>
      length (live_threads (threads sys)) = (if thread_started (dev sys) then 1 else 0) \<and>
      (if udp_running (udp_stats (dev sys)) then map serving (live_threads (threads sys)) = [Some (rx_fd (dev sys))] else rx_fd (dev sys) < 0)"
proof -
  have inv: "sockets_ok net (set (net_opened net w)) (dev sys) (os sys)" "threads_ok (dev sys) (threads sys)"
    using udp.run_inv [OF conjI [OF assms(1) init_inv [OF assms(3)]], of w b evs] unfolding assms(4) [symmetric]
    by (simp_all add: udp_inv_def)
  obtain udp1 w1 where s: "ccsds_udp_stop b net (dev sys) (os sys) = (udp1, w1)" by fastforce
  with stop_opened(1) [OF assms(1) inv(1) assms(2) s] inv show ?thesis
    by (auto simp: sockets_ok_def threads_ok_def thread_ok_def split: if_splits)
qed

section \<open>Stop and restart\<close>

fun rounds_left :: "udp_thread \<Rightarrow> nat" where
  "rounds_left Returning = 1"
| "rounds_left (At_Exit _) = 2"
| "rounds_left (Got _ (Inl _)) = 3"
| "rounds_left (At_Recv _) = 4"
| "rounds_left (In_Callback _ _) = 5"
| "rounds_left (Got _ (Inr _)) = 6"

lemma rounds_left_le: "rounds_left t \<le> 6" "0 < rounds_left t"
  by (cases t rule: rounds_left.cases; simp)+

definition stopped :: "'w net_ops \<Rightarrow> int \<Rightarrow> 'w udp_system \<Rightarrow> bool" where
  "stopped net fd sys \<longleftrightarrow> \<not> udp_running (udp_stats (dev sys)) \<and> rx_fd (dev sys) = - 1 \<and> 0 \<le> fd \<and>
     fd \<notin> set (net_opened net (os sys)) \<and>
     (threads sys = [] \<and> \<not> thread_started (dev sys) \<or> threads sys = [Returning] \<and> \<not> thread_started (dev sys) \<or>
      (\<exists>t. threads sys = [t] \<and> serving t = Some fd))"

lemma stopped_step:
  assumes "net_ops_ok net" "stopped net fd sys" "threads sys = [t]" "sys' = udp_step b net sys (Run_Thread 0 ret)"
  shows "stopped net fd sys' \<and> set (net_opened net (os sys')) = set (net_opened net (os sys)) \<and>
      (threads sys' = [] \<or> (\<exists>t'. threads sys' = [t'] \<and> rounds_left t' < rounds_left t))"
proof (cases t)
  case (At_Recv fd')
  with assms(2,3) have fd': "fd' = fd" "fd \<notin> set (net_opened net (os sys))" by (simp_all add: stopped_def)
  obtain out w1 where r: "net_recv net (os sys) fd (max_unit_len (udp_config (dev sys)) + 1) = (out, w1)" by fastforce
  with recv_closed [OF assms(1) fd'(2)] obtain e where "out = Inl e" by (metis fst_conv isl_def)
  with assms At_Recv fd' r opened_kept(3) [OF assms(1) r] show ?thesis by (simp add: stopped_def thread_advance_def)
next
  case (Got fd' out)
  with assms show ?thesis
    by (cases out) (auto simp: stopped_def thread_advance_def thread_round_def split: if_splits)
next
  case (In_Callback fd' d)
  with assms show ?thesis by (auto simp: stopped_def thread_advance_def)
next
  case (At_Exit fd')
  with assms show ?thesis by (auto simp: stopped_def thread_advance_def thread_exit_def)
next
  case Returning
  with assms show ?thesis by (auto simp: stopped_def thread_advance_def)
qed

lemma stopped_run:
  assumes "net_ops_ok net" "stopped net fd sys" "\<And>t. threads sys = [t] \<Longrightarrow> rounds_left t \<le> n"
    and "sys' = run (udp_step b net) sys (replicate n (Run_Thread 0 ret))"
  shows "stopped net fd sys' \<and> threads sys' = [] \<and> set (net_opened net (os sys')) = set (net_opened net (os sys))"
  using assms(2-)
proof (induction n arbitrary: sys)
  case 0
  then have "threads sys = []" using rounds_left_le(2) by (metis not_le stopped_def)
  with 0 show ?case by simp
next
  case (Suc n)
  let ?next = "udp_step b net sys (Run_Thread 0 ret)"
  show ?case
  proof (cases "threads sys")
    case Nil
    then have "?next = sys" by simp
    with Suc.IH [of sys] Suc.prems Nil show ?thesis by simp
  next
    case (Cons t ts)
    with Suc.prems(1) have t: "threads sys = [t]" by (auto simp: stopped_def)
    note step = stopped_step [OF assms(1) Suc.prems(1) t refl, of b ret]
    then have "threads ?next = [t'] \<Longrightarrow> rounds_left t' \<le> n" for t'
      using Suc.prems(2) [OF t] by auto
    with Suc.IH [of ?next] step Suc.prems(3) show ?thesis by (simp del: udp_step.simps)
  qed
qed

text \<open>
  C38. A stop ends the receive thread wherever it stands, in at most six of its sections, so that
  the adapter can be started again: the descriptor it serves is closed, its next receive
  fails, and it leaves.  No other call is made in between.
\<close>
theorem udp_stop_ends_thread:
  assumes "net_ops_ok net" "CONFIG_NETWORKING b" "ccsds_udp_init b c = Inr udp"
    and "sys = run (udp_step b net) (initial_system udp w) evs" "udp_running (udp_stats (dev sys))" "threads sys = [t]"
    and "after = run (udp_step b net) sys (Call_Stop # replicate 6 (Run_Thread 0 ret))"
  shows "threads after = [] \<and> \<not> thread_started (dev after) \<and> \<not> udp_running (udp_stats (dev after)) \<and>
      set (net_opened net (os after)) = set (net_opened net w)"
proof -
  have inv: "sockets_ok net (set (net_opened net w)) (dev sys) (os sys)" "threads_ok (dev sys) (threads sys)"
    using udp.run_inv [OF conjI [OF assms(1) init_inv [OF assms(3)]], of w b evs] unfolding assms(4) [symmetric]
    by (simp_all add: udp_inv_def)
  let ?sys = "udp_step b net sys Call_Stop"
  obtain udp1 w1 where s: "ccsds_udp_stop b net (dev sys) (os sys) = (udp1, w1)" by fastforce
  note opened = stop_opened(1) [OF assms(1) inv(1) assms(2) s]
  from inv(2) assms(5,6) have t: "serving t = Some (rx_fd (dev sys))" "0 \<le> rx_fd (dev sys)"
    by (auto simp: threads_ok_def thread_ok_def split: if_splits)
  with inv(1) have "rx_fd (dev sys) \<notin> set (net_opened net w)" by (auto simp: sockets_ok_def held_def)
  with t s opened assms(2,6) have "stopped net (rx_fd (dev sys)) ?sys"
    by (auto simp: stopped_def ccsds_udp_stop_def)
  from stopped_run [OF assms(1) this _ refl, of 6 b ret] rounds_left_le(1) assms(7) s opened show ?thesis
    by (auto simp: stopped_def)
qed

text \<open>
  C39. A stop while the thread is in its callback, and then a send: the transmit socket takes the
  number of the closed receive socket, which the thread still holds.  It goes on to receive
  from the transmit socket, a datagram arriving there is handed to the callback of the
  stopped adapter, and a start is refused for as long as this lasts.
\<close>
theorem udp_send_after_stop_keeps_thread:
  assumes "net_ops_ok net" "CONFIG_NETWORKING b" "threads sys = [In_Callback fd d]" "rx_fd (dev sys) = fd" "0 \<le> fd"
    and "tx_fd (dev sys) = - 1" "thread_started (dev sys)" "\<not> unit_len_bad (dev sys) u" "\<not> unit_len_bad (dev sys) m"
    and "peer_ip (udp_config (dev sys)) = Some peer" "inet_pton net peer = Some addr"
    and "local_ip (udp_config (dev sys)) = Some own" "inet_pton net own = Some own_addr"
    and "net_socket net (net_close net (os sys) fd) = (fd, e, w1)"
    and "net_sendto net w1 fd u (addr, peer_port (udp_config (dev sys))) = (Inr (length u), w2)"
    and "after = run (udp_step b net) sys [Call_Stop, Call_Send u, Run_Thread 0 ret]"
    and "set (net_opened net w3) = set (net_opened net (os after))" "net_inbox net w3 fd = [m]"
    and "later = run (udp_step b net) after [Os w3, Run_Thread 0 ret, Run_Thread 0 ret]"
  shows "threads after = [At_Recv fd] \<and> fst (ccsds_udp_start b net (dev after) (os after)) = RC_ERR EALREADY \<and>
      threads later = [In_Callback fd m] \<and> \<not> udp_running (udp_stats (dev later))"
proof -
  let ?udp = "record_error ((dev sys)\<lparr>rx_fd := - 1, tx_fd := fd, udp_stats := (udp_stats (dev sys))\<lparr>udp_running := False,
      datagrams_sent := datagrams_sent (udp_stats (dev sys)) + 1\<rparr>\<rparr>) ret"
  have after: "after = \<lparr>dev = ?udp, threads = [At_Recv fd], os = w2\<rparr>"
    using assms(2-15) unfolding assms(16)
    by (simp add: ccsds_udp_stop_def close_open_def ccsds_udp_send_def send_on_def thread_advance_def unit_len_bad_def)
  have fd: "fd \<in> set (net_opened net w3)"
    using socket_ok [OF assms(1,14)] opened_kept(4) [OF assms(1,15)] assms(5,17) after by simp
  obtain w4 where w4: "net_recv net w3 fd (max_unit_len (udp_config (dev sys)) + 1) = (Inr m, w4)"
  proof -
    have "take (max_unit_len (udp_config (dev sys)) + 1) m = m" using assms(9) by (simp add: unit_len_bad_def)
    then show ?thesis using that recv_first [OF assms(1) fd assms(18), of "max_unit_len (udp_config (dev sys)) + 1"] by auto
  qed
  have "later = \<lparr>dev = count_received ?udp, threads = [In_Callback fd m], os = w4\<rparr>"
    using assms(9,17) w4 unfolding assms(19) after
    by (simp add: thread_advance_def thread_round_def unit_len_bad_def)
  with after assms(2,7,12,13) show ?thesis by (simp add: ccsds_udp_start_def)
qed

text \<open>
  The exit section clears \<open>thread_started\<close> before the thread function returns; a start in
  between creates a second thread on the same thread object and stack.
\<close>
lemma udp_restart_before_return:
  assumes "CONFIG_NETWORKING b" "threads sys = [At_Exit fd]" "rx_fd (dev sys) = - 1" "0 \<le> fd"
    and "local_ip (udp_config (dev sys)) = Some own" "inet_pton net own = Some own_addr"
    and "net_socket net (os sys) = (fd', e, w1)" "0 \<le> fd'"
    and "net_bind net w1 fd' (own_addr, local_port (udp_config (dev sys))) = (RC_OK, w2)"
  shows "threads (run (udp_step b net) sys [Run_Thread 0 ret, Call_Start]) = [Returning, At_Recv fd']"
  using assms by (simp add: thread_advance_def thread_exit_def ccsds_udp_start_def)

section \<open>A socket table\<close>

text \<open>
  A socket layer of four descriptors, the lowest free one first, as a list of the open ones
  with what waits at each; the instances below run the adapter over it.
\<close>

type_synonym table = "(int \<times> bytes list) list"

definition table_recv :: "table \<Rightarrow> int \<Rightarrow> nat \<Rightarrow> (errno + bytes) \<times> table" where
  "table_recv w fd n =
     (case map_of w fd of
        None \<Rightarrow> (Inl (E_NET 9), w)
      | Some [] \<Rightarrow> (Inl (E_NET 11), w)
      | Some (d # ds) \<Rightarrow> (Inr (take n d), map (\<lambda>(k, v). (k, if k = fd then ds else v)) w))"

definition table_net :: "table net_ops" where
  "table_net = \<lparr>
     inet_pton = (\<lambda>ip. if ip = ''192.0.2.1'' then Some 0xC0000201 else None),
     net_socket = (\<lambda>w. case filter (\<lambda>fd. fd \<notin> fst ` set w) [0, 1, 2, 3] of
        [] \<Rightarrow> (- 1, E_NET 23, w) | fd # _ \<Rightarrow> (fd, EIO, (fd, []) # w)),
     net_bind = (\<lambda>w fd a. (RC_OK, w)),
     net_close = (\<lambda>w fd. filter (\<lambda>(k, v). k \<noteq> fd) w),
     net_recv = table_recv,
     net_sendto = (\<lambda>w fd d a. (Inr (length d), w)),
     net_opened = map fst,
     net_inbox = (\<lambda>w fd. case map_of w fd of None \<Rightarrow> [] | Some ds \<Rightarrow> ds)\<rparr>"

lemma map_of_set_value: "map_of w fd = Some v \<Longrightarrow> map_of (map (\<lambda>(k, v). (k, if k = fd then ds else v)) w) fd = Some ds"
  by (induction w) auto

lemma table_socket:
  assumes "net_socket table_net w = (fd, e, w')"
  shows "if fd < 0 then w' = w else fd \<notin> fst ` set w \<and> w' = (fd, []) # w"
proof (cases "filter (\<lambda>fd. fd \<notin> fst ` set w) [0, 1, 2, 3 :: int]")
  case Nil
  with assms show ?thesis by (simp add: table_net_def del: filter.simps)
next
  case (Cons x xs)
  then have "x \<in> {fd \<in> set [0, 1, 2, 3]. fd \<notin> fst ` set w}"
    unfolding set_filter [symmetric] by (simp only: list.set_intros)
  then have "0 \<le> x" "x \<notin> fst ` set w" by auto
  with assms Cons show ?thesis by (auto simp add: table_net_def simp del: filter.simps)
qed

lemma table_recv_ok:
  "map fst (snd (table_recv w fd n)) = map fst w"
  "fd \<notin> fst ` set w \<Longrightarrow> isl (fst (table_recv w fd n))"
  "net_inbox table_net w fd = d # ds \<Longrightarrow>
     fst (table_recv w fd n) = Inr (take n d) \<and> net_inbox table_net (snd (table_recv w fd n)) fd = ds"
proof -
  show "map fst (snd (table_recv w fd n)) = map fst w"
    by (simp add: table_recv_def case_prod_unfold comp_def split: option.split list.split)
  show "fd \<notin> fst ` set w \<Longrightarrow> isl (fst (table_recv w fd n))"
    by (simp add: table_recv_def map_of_eq_None_iff [THEN iffD2])
  show "net_inbox table_net w fd = d # ds \<Longrightarrow>
     fst (table_recv w fd n) = Inr (take n d) \<and> net_inbox table_net (snd (table_recv w fd n)) fd = ds"
    by (auto simp: table_recv_def table_net_def map_of_set_value split: option.splits list.splits)
qed

lemma table_net_ok: "net_ops_ok table_net"
proof -
  have sel: "net_opened table_net = map fst" "net_recv table_net = table_recv"
    "net_bind table_net = (\<lambda>w fd a. (RC_OK, w))" "net_sendto table_net = (\<lambda>w fd d a. (Inr (length d), w))"
    "net_close table_net = (\<lambda>w fd. filter (\<lambda>(k, v). k \<noteq> fd) w)"
    by (simp_all add: table_net_def)
  have sock: "net_socket table_net w = (fd, e, w') \<Longrightarrow>
      (if fd < 0 then fst ` set w' = fst ` set w else fd \<notin> fst ` set w \<and> fst ` set w' = insert fd (fst ` set w))" for w fd e w'
    using table_socket [of w fd e w'] by auto
  have keys: "fst ` set (snd (table_recv w fd n)) = fst ` set w" for w fd n
    using arg_cong [OF table_recv_ok(1), of set] by simp
  show ?thesis
    unfolding net_ops_ok_def sel set_map
    by (intro conjI allI impI, erule sock) (use keys table_recv_ok(2,3) in \<open>auto simp: image_iff\<close>)
qed

definition demo_config :: ccsds_udp_config where
  "demo_config = \<lparr>local_ip = Some ''192.0.2.1'', local_port = 10015, peer_ip = Some ''192.0.2.1'', peer_port = 10016,
     max_unit_len = 7, thread_priority = 7, thread_name = None\<rparr>"

definition demo_build :: udp_build where
  "demo_build = \<lparr>CONFIG_NETWORKING = True, CCSDS_UDP_MAX_UNIT_LEN = 1024\<rparr>"

definition demo_udp :: ccsds_udp where
  "demo_udp = \<lparr>udp_config = demo_config, udp_stats = zero_udp_stats, rx_fd = - 1, tx_fd = - 1,
     thread_started = False, udp_initialized = True\<rparr>"

lemma demo_init: "ccsds_udp_init demo_build demo_config = Inr demo_udp"
  by (simp add: ccsds_udp_init_def demo_build_def demo_config_def demo_udp_def)

lemma udp_delivers_whole_datagrams_witness:
  "fst (udp_thread_fn table_net demo_udp [(0, [[1, 2], [], replicate 9 7, [5]])] 0 [RC_OK, RC_OK, RC_OK, RC_ERR EIO]) = [[1, 2], [5]]"
proof -
  let ?w = "[(0, [[1, 2], [], replicate 9 7, [5]])] :: table"
  obtain ds udp w where run: "udp_thread_fn table_net demo_udp ?w 0 [RC_OK, RC_OK, RC_OK, RC_ERR EIO] = (ds, udp, w)"
    by (metis prod.exhaust)
  from udp_delivers_whole_datagrams [OF table_net_ok _ refl _ run] show ?thesis
    unfolding run by (simp add: table_net_def demo_udp_def demo_config_def)
qed

lemma udp_sockets_accounted_witness:
  "let sys = run (udp_step demo_build table_net) (initial_system demo_udp []) [Call_Start, Call_Send [1]] in
     set (net_opened table_net (os sys)) = held (dev sys)"
  using udp_sockets_accounted [OF table_net_ok _ demo_init refl, of "[]" "[Call_Start, Call_Send [1]]"]
  by (simp add: Let_def demo_build_def table_net_def del: run.simps)

lemma udp_stop_ends_thread_witness:
  "let sys = run (udp_step demo_build table_net) (initial_system demo_udp []) [Call_Start];
       after = run (udp_step demo_build table_net) sys (Call_Stop # replicate 6 (Run_Thread 0 RC_OK)) in
     threads sys = [At_Recv 0] \<and> threads after = []"
proof -
  have start: "run (udp_step demo_build table_net) (initial_system demo_udp []) [Call_Start] =
      \<lparr>dev = demo_udp\<lparr>rx_fd := 0, udp_stats := zero_udp_stats\<lparr>udp_running := True\<rparr>, thread_started := True\<rparr>, threads = [At_Recv 0], os = [(0, [])]\<rparr>"
    by (simp add: initial_system_def ccsds_udp_start_def demo_build_def demo_udp_def demo_config_def table_net_def zero_udp_stats_def)
  from udp_stop_ends_thread [OF table_net_ok _ demo_init refl _ _ refl, of "[]" "[Call_Start]" "At_Recv 0" RC_OK] show ?thesis
    unfolding start Let_def by (simp add: demo_build_def del: run.simps)
qed

lemma udp_send_after_stop_keeps_thread_witness:
  "let busy = demo_udp\<lparr>rx_fd := 0, udp_stats := zero_udp_stats\<lparr>udp_running := True\<rparr>, thread_started := True\<rparr>;
       after = run (udp_step demo_build table_net) \<lparr>dev = busy, threads = [In_Callback 0 [9]], os = [(0, [])]\<rparr>
         [Call_Stop, Call_Send [1], Run_Thread 0 RC_OK] in
     threads after = [At_Recv 0] \<and> threads (run (udp_step demo_build table_net) after
       [Os [(0, [[2]])], Run_Thread 0 RC_OK, Run_Thread 0 RC_OK]) = [In_Callback 0 [2]]"
proof -
  let ?sys = "\<lparr>dev = demo_udp\<lparr>rx_fd := 0, udp_stats := zero_udp_stats\<lparr>udp_running := True\<rparr>, thread_started := True\<rparr>,
    threads = [In_Callback 0 [9]], os = [(0, [])]\<rparr>"
  let ?after = "run (udp_step demo_build table_net) ?sys [Call_Stop, Call_Send [1], Run_Thread 0 RC_OK]"
  have os: "os ?after = [(0, [])]"
    by (simp add: ccsds_udp_stop_def close_open_def ccsds_udp_send_def send_on_def thread_advance_def unit_len_bad_def
        demo_build_def demo_udp_def demo_config_def table_net_def zero_udp_stats_def)
  have open0: "set (net_opened table_net [(0, [[2]])]) = set (net_opened table_net (os ?after))"
    unfolding os by (simp add: table_net_def)
  have "threads ?after = [At_Recv 0] \<and> fst (ccsds_udp_start demo_build table_net (dev ?after) (os ?after)) = RC_ERR EALREADY \<and>
      threads (run (udp_step demo_build table_net) ?after [Os [(0, [[2]])], Run_Thread 0 RC_OK, Run_Thread 0 RC_OK]) = [In_Callback 0 [2]] \<and>
      \<not> udp_running (udp_stats (dev (run (udp_step demo_build table_net) ?after [Os [(0, [[2]])], Run_Thread 0 RC_OK, Run_Thread 0 RC_OK])))"
    by (rule udp_send_after_stop_keeps_thread [where fd = 0 and d = "[9]" and u = "[1]" and m = "[2]" and
          peer = "''192.0.2.1''" and addr = "0xC0000201" and own = "''192.0.2.1''" and own_addr = "0xC0000201" and
          e = EIO and ?w1.0 = "[(0, [])]" and ?w2.0 = "[(0, [])]",
          OF table_net_ok _ _ _ _ _ _ _ _ _ _ _ _ _ _ refl open0 _ refl])
      (simp_all add: demo_build_def demo_udp_def demo_config_def table_net_def unit_len_bad_def)
  then show ?thesis by (simp only: Let_def simp_thms)
qed

end
