(* ===== verification/Spec2Isabelle.thy ===== *)
theory Spec2Isabelle
  imports Router Cltu Profile Tm_Stream Rs Cfdp_Transfer Sdls_Session Sdls_Otar Udp
begin

text \<open>
  A verification development for the CCSDS protocol module: the C code under \<^verbatim>\<open>src/src\<close> with the
  headers under \<^verbatim>\<open>src/include/ccsds\<close>.  It models every function of these files but those listed under
  "Not modelled", and this theory joins the parts.

  \<^bold>\<open>The program.\<close>  A spacecraft's receiving and sending side of the CCSDS protocols.  On the
  uplink a complete CLTU is decoded (start sequence, BCH code blocks, optional derandomization) to a
  TC transfer frame; the frame passes SDLS security and the FARM of its virtual channel, its segment
  is reassembled per MAP or walked packet by packet, and each Space Packet goes to a handler
  registered for its APID.  Extended procedure PDUs among these packets manage the keys and Security
  Associations.  On the downlink, packets wait in one queue per virtual channel; a generator cuts
  frames of fixed length from them, adds the first header pointer, counters, CLCW, security and
  error control, applies Reed-Solomon coding and randomization, and calls the routes.  CFDP
  transfers files over Space Packets in both directions; a UDP adapter carries bounded units.

  \<^bold>\<open>Theories and sources.\<close>
  \<^item> \<open>Ccsds_Prelude\<close>: machine types, return codes, build configuration, big-endian accessors, and
    the two contracts of a stateful component, \<open>stepper\<close> (an invariant) and \<open>simulation\<close>.
  \<^item> \<open>Crc16\<close>, \<open>Bch\<close>, \<open>Rnd\<close>, \<open>Rs\<close> (\<^verbatim>\<open>ccsds_crc16.c\<close>, \<^verbatim>\<open>ccsds_bch.c\<close>, \<^verbatim>\<open>ccsds_rnd.c\<close>, \<^verbatim>\<open>ccsds_rs.c\<close>): the
    coding primitives, with their tables, against bitwise shift registers and true field arithmetic.
  \<^item> \<open>Space_Packet\<close>, \<open>Router\<close> (\<^verbatim>\<open>ccsds_space_packet.c\<close>, \<^verbatim>\<open>ccsds_router.c\<close>): the packet codec, as an
    instance of \<open>framed_codec\<close>, and the APID table, as a simulation of a bounded map.
  \<^item> \<open>Cltu\<close>, \<open>Tc_Frame\<close>, \<open>Tc_Segment\<close> (\<^verbatim>\<open>ccsds_cltu.c\<close>, \<^verbatim>\<open>ccsds_tc_frame.c\<close>, \<^verbatim>\<open>ccsds_tc_segment.c\<close>):
    the decoders of the uplink.
  \<^item> \<open>Farm\<close>, \<open>Profile\<close> (\<^verbatim>\<open>ccsds_profile.c\<close>): sequence control, control commands and CLCW, and the
    receive profile that composes the uplink; the state is a record of what the C code reaches from
    \<^verbatim>\<open>struct ccsds_profile_tc_rx\<close>.
  \<^item> \<open>Sdls\<close> (\<^verbatim>\<open>ccsds_sdls.c\<close>): context, frame protection and verification.  \<open>Sdls_Ep_Pdu\<close>, \<open>Sdls_Ep\<close>
    (\<^verbatim>\<open>ccsds_sdls_ep.c\<close>): the extended procedure codecs, then key and SA management, monitoring and
    the dispatching entry point.  \<open>Sdls_Ep_Safety\<close> bounds what one PDU can change by step relations,
    \<open>Sdls_Ep_Reply\<close> treats the replies, \<open>Sdls_Otar\<close> the key store, and \<open>Sdls_Session\<close> sequences of
    frames and PDUs in any order.
  \<^item> \<open>Tm_Frame\<close>, \<open>Tm_Stream\<close> (\<^verbatim>\<open>ccsds_tm_frame.c\<close>): the generator, and a receiver that recovers the
    packets from its frames.
  \<^item> \<open>Cfdp_Types\<close>, \<open>Cfdp_Ranges\<close>, \<open>Cfdp_Checksum\<close>, \<open>Cfdp_Pdu\<close>, \<open>Cfdp_Codec\<close> (\<^verbatim>\<open>ccsds_cfdp_ranges.c\<close>,
    \<^verbatim>\<open>ccsds_cfdp_checksum.c\<close>, \<^verbatim>\<open>ccsds_cfdp_pdu.c\<close>): received ranges, checksums, PDU codecs.
    \<open>Cfdp_Entity\<close> (\<^verbatim>\<open>ccsds_cfdp_entity.c\<close>): both transactions as state-monad programs in which
    every callback may enter the entity again; \<open>Cfdp_Receive\<close>, \<open>Cfdp_Send\<close> and \<open>Cfdp_Reject\<close> prove
    what they do on any host; \<open>Cfdp_Service\<close> (\<^verbatim>\<open>ccsds_cfdp_service.c\<close>, \<^verbatim>\<open>ccsds_cfdp_space_packet.c\<close>) is
    the packet transport, and \<open>Cfdp_Transfer\<close> composes two entities and two services.
  \<^item> \<open>Udp\<close> (\<^verbatim>\<open>ccsds_udp.c\<close>): the adapter's operations and receive thread, and the system of events
    in which they interleave.
  \<^item> This theory: the uplink from a CLTU with bit errors to the application's handlers.

  \<^bold>\<open>Conventions.\<close>  Structures are records, with a fixed array and its count as a list where
  the count is the only use of the array, and as a list of the array's length where entries are
  changed in place.  A decoder returns an error or its result; an operation on state returns its
  code beside the new state.  A step that C leaves undefined (a call through a null pointer, a copy
  past the end of the reassembly buffer) is the result \<open>E_FAULT\<close>, and \<open>Profile\<close> proves that no input leads
  the receive profile there.  Integers keep their C width as words wherever they can wrap; lengths
  and indices that the code bounds first are natural numbers.  Asserted caller contracts are
  hypotheses of the theorems that need them.

  \<^bold>\<open>What the lemmas show.\<close>  The codecs are inverses where the protocol allows it and otherwise
  normalise once; the table-driven routines equal their references; every component's invariant is
  kept by every operation and so, by \<open>stepper\<close>, along every run.  The compositions state what a peer
  observes: packets delivered by the uplink (without SDLS), packets recovered from telemetry frames
  (without SDLS, and while no \<open>add\<close> is cut short), files stored by a CFDP transfer.  The security theorems hold for every PDU and frame, whatever its bytes:
  no sequence number is accepted twice unless the association is re-keyed, no IV is issued twice,
  a rejected PDU changes nothing but the event log, and keys and associations follow their life
  cycles.

  \<^bold>\<open>Parameters.\<close>  Code outside the sources is an argument with a stated contract: the
  kernel pipe (\<open>k_pipe_ops\<close>, \<open>pipe_contract\<close>: a first-in first-out byte queue whose calls may be
  cut short), the PSA calls (\<open>psa_ops\<close>; \<open>psa_store_ok\<close> for the key store, and a decryption that
  inverts the encryption where both sides appear), the Zephyr CRC routines (their incremental law), the
  CFDP host (\<open>cfdp_link\<close>, \<open>cfdp_rx_host\<close>, \<open>cfdp_tx_host\<close>, interpreted on the service of
  \<^verbatim>\<open>ccsds_cfdp_service.c\<close> with a filestore in memory), the socket calls (\<open>net_ops\<close>, \<open>net_ops_ok\<close>), and
  the application's handlers, which are arbitrary functions.

  \<^bold>\<open>Termination.\<close>  No operation has fuel.  Loops over arrays are structural or have a measure: the
  index distance for the range loops, the bytes still to come for the walk over a segment, the
  file offset for the CFDP loops, which the code advances by at least one byte or leaves, and the
  length asked for in the pipe loops.  The search for a route's index in \<open>Tm_Frame\<close> shifts until a
  single bit remains and does not end for a zero mask, so it is a \<open>partial_function\<close>, and registration is
  proved to return.  The thread of \<open>Udp\<close> is run for any number of rounds.

  \<^bold>\<open>Where the code differs from its purpose.\<close>  Theorems, not assumptions, record the following.  The
  Reed-Solomon generator is not that of the standard (\<open>rs_codeword_is_generator_multiple\<close>).  An unfinished
  reassembly blocks complete packets (\<open>unfinished_reassembly_blocks\<close>).  An \<open>add\<close> cut by its timeout can stop
  telemetry (\<open>truncated_add_stops_telemetry\<close>).  CFDP cannot receive an empty file
  (\<open>unacknowledged_eof_decides\<close>), and releases a transaction on an early acknowledgement
  (\<open>early_ack_completes\<close>).  An SA can be stopped by a command on its own frames, and started with a
  master key, against the design notes (\<open>stop_sa_of_own_carrier\<close>, \<open>start_sa_accepted_iff\<close>).  A UDP
  send after a stop can keep the receive thread alive on the transmit socket, and a restart can
  overtake a thread that has not returned (\<open>udp_send_after_stop_keeps_thread\<close>,
  \<open>udp_restart_before_return\<close>).

  \<^bold>\<open>Not modelled.\<close>  Log output; mutexes and the work queue, except that entry points holding a lock are
  atomic and that \<open>Udp\<close> interleaves its lock sections; the workspaces the SDLS code wipes and whose
  contents no caller reads; initialisers of kernel objects and of pointers (\<^verbatim>\<open>generator_init_once\<close>,
  \<^verbatim>\<open>ccsds_profile_input_init\<close>); the weak wrappers of the PSA calls and
  the accessors compiled for tests only; the assertion macros.  The samples, tests and build files
  are no part of the module.
\<close>

unbundle bit_operations_syntax

section \<open>The uplink as a whole\<close>

text \<open>A CLTU that carries the frame \<open>f\<close>, with at most one bit wrong in every code block and in the start.\<close>

definition tc_derandomize :: "ccsds_config \<Rightarrow> bytes \<Rightarrow> bytes" where
  "tc_derandomize cfg d = (if CCSDS_TC_RND cfg then ccsds_rnd_apply d else d)"

definition tc_received :: "ccsds_config \<Rightarrow> ccsds_tc_frame \<Rightarrow> bytes \<Rightarrow> bool" where
  "tc_received cfg f cltu \<longleftrightarrow>
     (\<exists>start sent recv fill. cltu = cltu_of start recv \<and> length start = 2 \<and> ccsds_cltu_is_start_sequence start \<and>
        list_all2 (\<lambda>s r. bch_clean s \<and> bch_received s r) sent recv \<and> sent \<noteq> [] \<and>
        10 + 8 * length sent \<le> CCSDS_MAX_CLTU_LEN cfg \<and> 7 * length sent \<le> CCSDS_MAX_FRAME_LEN cfg \<and>
        tc_fill_ok fill \<and> tc_derandomize cfg (concat (map (take 7) sent)) = tc_frame_bytes f @ fill)"

lemma acquire_received:
  assumes "tc_received cfg f cltu" "tc_frame_ok cfg f" "control_command f \<Longrightarrow> bypass f"
  shows "\<exists>frame_buf. tc_acquire_frame cfg (virtual_channel_id f) cltu = Inr (frame_buf, f)"
proof -
  obtain start sent recv fill where r: "cltu = cltu_of start recv" "length start = 2" "ccsds_cltu_is_start_sequence start"
      "list_all2 (\<lambda>s r. bch_clean s \<and> bch_received s r) sent recv" "sent \<noteq> []"
      "10 + 8 * length sent \<le> CCSDS_MAX_CLTU_LEN cfg" "7 * length sent \<le> CCSDS_MAX_FRAME_LEN cfg" "tc_fill_ok fill"
      "tc_derandomize cfg (concat (map (take 7) sent)) = tc_frame_bytes f @ fill"
    using assms(1) unfolding tc_received_def by blast
  have "length (cltu_of start recv) = 10 + 8 * length recv"
    using length_concat_blocks [OF received_lengths [OF r(4)]] r(2) by (simp add: cltu_of_def)
  moreover have "length recv = length sent" using r(4) by (simp add: list_all2_lengthD)
  moreover have "ccsds_cltu_decode_message cfg cltu (CCSDS_MAX_FRAME_LEN cfg) = Inr (concat (map (take 7) sent))"
    using cltu_decode_corrects [OF r(2-7)] r(1) by simp
  moreover have "virtual_channel_id f < 64" using assms(2) by (simp add: tc_frame_ok_def)
  ultimately show ?thesis
    using r(1,6,9) tc_frame_decode_bytes [OF assms(2) r(8)] assms(3)
    by (auto simp: tc_acquire_frame_def tc_derandomize_def Let_def not_le split: if_splits)
qed

lemma segment_of_data:
  assumes "m \<le> 0x3f"
  shows "ccsds_tc_segment_decode ((0xc0 OR m) # d) = Inr (tc_segment CCSDS_TC_SEGMENT_UNSEGMENTED m d)"
proof -
  have "m < 2 ^ 6" using assms by (simp add: word_less_nat_alt word_le_nat_alt)
  then have m: "take_bit 6 m = m" by (rule word_le_take_bit) 
  then have "drop_bit 6 m = 0" by (metis drop_bit_take_bit diff_self_eq_0 take_bit_0)
  moreover have "m AND 0x3f = m" using m by (simp add: take_bit_eq_mask mask_eq_exp_minus_1)
  ultimately have "drop_bit 6 (0xc0 OR m) AND 0x03 = (3 :: u8)" "(0xc0 OR m) AND 0x3f = m"
    by (simp_all add: drop_bit_or bit.conj_disj_distrib2)
  then show ?thesis by (simp add: ccsds_tc_segment_decode_def boundary_of_def tc_segment_def)
qed

text \<open>Packets handed over one by one, until one is refused.\<close>

lemma dispatch_whole_part:
  assumes "packet_ok p" "\<not> ra_active (d_reassembly st)"
  shows "dispatch_tc_segment_part pf route router (whole_part (tc_segment b m d) (packet_bytes p)) st =
    (case dispatch_tc_packet pf route router m p (d_env st) of
       (RC_ERR e, env) \<Rightarrow> (RC_ERR e, st\<lparr>d_env := env\<rparr>)
     | (RC_OK, env) \<Rightarrow> (RC_OK, st\<lparr>d_env := env, d_packets := d_packets st + 1\<rparr>))"
  using assms packet_decode_bytes [OF assms(1), of "[]"]
  by (simp add: dispatch_tc_segment_part_def whole_part_def tc_segment_def)

lemma feed_whole_parts:
  assumes "\<forall>p\<in>set ps. packet_ok p" "\<not> ra_active (d_reassembly st)"
  shows "\<exists>n. feed (dispatch_tc_segment_part pf route router)
      (map (whole_part (tc_segment b m d) \<circ> packet_bytes) ps) st =
    (case feed (dispatch_tc_packet pf route router m) ps (d_env st) of (ret, env) \<Rightarrow>
       (ret, st\<lparr>d_env := env, d_packets := n\<rparr>))"
  using assms
proof (induction ps arbitrary: st)
  case Nil
  then show ?case by (intro exI [of _ "d_packets st"]) simp
next
  case (Cons p ps)
  obtain ret env where d: "dispatch_tc_packet pf route router m p (d_env st) = (ret, env)"
    by (rule prod.exhaust)
  show ?case
  proof (cases ret)
    case None
    let ?st = "st\<lparr>d_env := env, d_packets := d_packets st + 1\<rparr>"
    obtain n where "feed (dispatch_tc_segment_part pf route router)
        (map (whole_part (tc_segment b m d) \<circ> packet_bytes) ps) ?st =
      (case feed (dispatch_tc_packet pf route router m) ps (d_env ?st) of (ret, env) \<Rightarrow>
         (ret, ?st\<lparr>d_env := env, d_packets := n\<rparr>))"
      using Cons.IH [of ?st] Cons.prems by (simp del: o_apply) blast
    with d None Cons.prems show ?thesis
      by (intro exI [of _ n]) (simp add: dispatch_whole_part comp_def split: prod.split)
  next
    case (Some e)
    with d Cons.prems show ?thesis
      by (intro exI [of _ "d_packets st"]) (simp add: dispatch_whole_part)
  qed
qed

lemma walk_unsegmented:
  assumes "\<forall>p\<in>set ps. packet_ok p" "ps \<noteq> []" "d = concat (map packet_bytes ps)"
  shows "ccsds_tc_segment_walk_parts (tc_segment CCSDS_TC_SEGMENT_UNSEGMENTED m d) h st =
    feed h (map (whole_part (tc_segment CCSDS_TC_SEGMENT_UNSEGMENTED m d) \<circ> packet_bytes) ps) st"
proof -
  have "d \<noteq> []" using assms(2,3) by (cases ps) (auto simp: packet_bytes_def put_be16_def)
  then show ?thesis
    using walk_loop_packets [OF assms(1), of "[]" 0 "tc_segment CCSDS_TC_SEGMENT_UNSEGMENTED m d" h st] assms(3)
    by (auto simp: ccsds_tc_segment_walk_parts_def tc_segment_def Let_def split: prod.splits option.splits)
qed

lemma sequence_accepts:
  assumes "\<not> lockout_flag vc" "bypass f \<or> frame_sequence_number f = report_value vc"
  shows "\<exists>vc'. update_tc_sequence_state cfg vc f = (RC_OK, vc')"
  using assms by (auto simp: update_tc_sequence_state_def Let_def)

definition sample_frame :: ccsds_tc_frame where
  "sample_frame = \<lparr>spacecraft_id = 123, virtual_channel_id = 0, bypass = True, control_command = False,
     frame_sequence_number = 0, tc_data = [0xc3, 0x10, 1, 0xc0, 0, 0, 0, 7]\<rparr>"

definition sample_blocks :: "bytes list" where
  "sample_blocks = [[0x20, 0x7b, 0, 12, 0, 0xc3, 0x10, 0x5e], [1, 0xc0, 0, 0, 0, 7, 0x55, 0x8c]]"

definition sample_world :: "(unit, unit, unit, ccsds_space_packet list) tc_world" where
  "sample_world = logging_world\<lparr>w_profile :=
     snd (ccsds_profile_tc_set_map_apid_handler (ccsds_profile_tc_rx_init default_config) 3 1 () None)\<rparr>"

section \<open>Properties\<close>

text \<open>
  C1. The uplink from end to end, for a receiver without SDLS: a CLTU that arrives with at most one
  bit inverted in every code block, carrying a frame of the accepted channel that is no control
  command and whose sequence number is in turn (or that bypasses the sequence check), outside
  lockout and with no reassembly open, delivers the Space Packets of its unsegmented segment: each
  is handed, in order and unchanged, to the handler of its MAP and APID, until a handler refuses
  one; the result is the last handler's.
\<close>

theorem uplink_delivers:
  assumes "tc_received (p_cfg pf) f cltu" "tc_frame_ok (p_cfg pf) f"
    and "virtual_channel_id f = accepted_vcid (w_profile w)" "\<not> control_command f" "\<not> sdls_enabled (w_profile w)"
    and "\<not> lockout_flag (vc_state (w_profile w))"
    and "bypass f \<or> frame_sequence_number f = report_value (vc_state (w_profile w))"
    and "\<not> ra_active (reassembly (w_profile w))"
    and "tc_data f = (0xc0 OR m) # concat (map packet_bytes ps)" "m \<le> 0x3f" "ps \<noteq> []" "\<forall>p\<in>set ps. packet_ok p"
  shows "let (ret, w') = ccsds_profile_tc_cltu_dispatch pf w cltu in
    (ret, w_env w') = feed (dispatch_tc_packet pf (map_apid_route (w_profile w)) (w_router w) m) ps (w_env w) \<and>
    w_router w' = w_router w \<and> reassembly (w_profile w') = reassembly (w_profile w)"
proof -
  obtain frame_buf where acq: "tc_acquire_frame (p_cfg pf) (accepted_vcid (w_profile w)) cltu = Inr (frame_buf, f)"
    using acquire_received [OF assms(1,2)] assms(3,4) by auto
  let ?vc = "(vc_state (w_profile w))\<lparr>farm_b_counter := (farm_b_counter (vc_state (w_profile w)) + 1) AND 0x03\<rparr>"
  obtain vc' where vc: "update_tc_sequence_state (p_cfg pf) ?vc f = (RC_OK, vc')"
    using sequence_accepts [of ?vc f "p_cfg pf"] assms(6,7) by auto
  let ?st = "\<lparr>d_reassembly = reassembly (w_profile w), d_packets = 0, d_env = w_env w\<rparr>"
  let ?seg = "tc_segment CCSDS_TC_SEGMENT_UNSEGMENTED m (concat (map packet_bytes ps))"
  have seg: "ccsds_tc_segment_decode_frame f = Inr ?seg"
    using segment_of_data [OF assms(10)] assms(9) by (simp add: ccsds_tc_segment_decode_frame_def)
  obtain ret env where out: "feed (dispatch_tc_packet pf (map_apid_route (w_profile w)) (w_router w) m) ps (w_env w) = (ret, env)"
    by (rule prod.exhaust)
  then obtain n where walk: "ccsds_tc_segment_walk_parts ?seg
      (dispatch_tc_segment_part pf (map_apid_route (w_profile w)) (w_router w)) ?st =
      (ret, ?st\<lparr>d_env := env, d_packets := n\<rparr>)"
    using feed_whole_parts [OF assms(12), of ?st pf "map_apid_route (w_profile w)" "w_router w"
        CCSDS_TC_SEGMENT_UNSEGMENTED m "concat (map packet_bytes ps)"] assms(8)
    by (auto simp: walk_unsegmented [OF assms(12,11) refl])
  have "tc_frame_security pf (w_profile w) frame_buf f (w_env w) = (Inr f, w_env w)"
    using assms(5) by (simp add: tc_frame_security_def)
  then have "ccsds_profile_tc_cltu_dispatch pf w cltu = tc_accept_frame pf w f (length frame_buf) (length cltu)"
    using acq by (simp add: ccsds_profile_tc_cltu_dispatch_def)
  then show ?thesis
    using vc seg walk out assms(4,5)
    by (simp add: tc_accept_frame_def Let_def case_prod_beta tc_forget_authenticated_def)
qed

theorem uplink_delivers_witness:
  "let (ret, w') = ccsds_profile_tc_cltu_dispatch logging_platform sample_world
         (cltu_of [0xeb, 0x90] [[0x20, 0x7b, 0, 12, 0x40, 0xc3, 0x10, 0x5e], [1, 0xc0, 0, 0, 0, 7, 0x55, 0x8c]])
   in ret = RC_OK \<and> snd (w_env w') = [sample_packet [7]]"
proof -
  let ?recv = "[[0x20, 0x7b, 0, 12, 0x40, 0xc3, 0x10, 0x5e], [1, 0xc0, 0, 0, 0, 7, 0x55, 0x8c]] :: bytes list"
  let ?cltu = "cltu_of [0xeb, 0x90] ?recv"
  have cfg: "p_cfg logging_platform = default_config" by (simp add: logging_platform_def)
  have "bch_received [0x20, 0x7b, 0, 12, 0, 0xc3, 0x10, 0x5e] [0x20, 0x7b, 0, 12, 0x40, 0xc3, 0x10, 0x5e]"
    unfolding bch_received_def by (intro disjI2 bexI [of _ 33]) (simp_all add: bch_flip_def)
  moreover have "bch_received b b" for b by (simp add: bch_received_def)
  moreover have "list_all bch_clean sample_blocks" by code_simp
  ultimately have "list_all2 (\<lambda>s r. bch_clean s \<and> bch_received s r) sample_blocks ?recv" by (simp add: sample_blocks_def)
  moreover have "ccsds_cltu_is_start_sequence [0xeb, 0x90]" "sample_blocks \<noteq> []" "tc_fill_ok [0x55]"
      "10 + 8 * length sample_blocks \<le> CCSDS_MAX_CLTU_LEN default_config"
      "7 * length sample_blocks \<le> CCSDS_MAX_FRAME_LEN default_config"
      "tc_derandomize default_config (concat (map (take 7) sample_blocks)) = tc_frame_bytes sample_frame @ [0x55]"
      "tc_frame_ok default_config sample_frame"
    by code_simp+
  ultimately have "tc_received default_config sample_frame ?cltu" "tc_frame_ok default_config sample_frame"
    unfolding tc_received_def by fastforce+
  moreover have "tc_data sample_frame = (0xc0 OR 3) # concat (map packet_bytes [sample_packet [7]])"
    by (simp add: sample_frame_def sample_packet_bytes put_be16_def)
  moreover have "\<forall>p\<in>set [sample_packet [7]]. packet_ok p" by (simp add: sample_packet_ok)
  ultimately have "let (ret, w') = ccsds_profile_tc_cltu_dispatch logging_platform sample_world ?cltu in
    (ret, w_env w') = feed (dispatch_tc_packet logging_platform (map_apid_route (w_profile sample_world))
      (w_router sample_world) 3) [sample_packet [7]] (w_env sample_world) \<and>
    w_router w' = w_router sample_world \<and> reassembly (w_profile w') = reassembly (w_profile sample_world)"
    by (intro uplink_delivers [where f = sample_frame])
      (simp_all add: cfg sample_world_def ccsds_profile_tc_set_map_apid_handler_def CCSDS_APID_MAX_def
        ccsds_profile_tc_rx_init_def zero_vc_state_def zero_reassembly_def sample_frame_def)
  moreover have "feed (dispatch_tc_packet logging_platform (map_apid_route (w_profile sample_world))
      (w_router sample_world) 3) [sample_packet [7]] (w_env sample_world) =
      (RC_OK, (zero_ctx default_sdls_config, [sample_packet [7]]))"
    by (simp add: sample_world_def ccsds_profile_tc_set_map_apid_handler_def CCSDS_APID_MAX_def
        dispatch_tc_packet_def sample_packet_def logging_platform_def logging_world_def)
  ultimately show ?thesis by (auto simp: Let_def split: prod.splits)
qed

end
